(* ===== verification/Eggress_Prelude.thy ===== *)
theory Eggress_Prelude
  imports Main "HOL-Library.Word"
begin

text \<open>
  Shared vocabulary of the development: machine integers at their width, Rust strings as
  UTF-8 byte sequences, network byte order, decimal and hexadecimal text, the error-or-value
  results of fallible operations, and the list lemmas that several components use.

  A Rust \<^verbatim>\<open>String\<close> or \<^verbatim>\<open>&str\<close> is a HOL \<^typ>\<open>string\<close>: its characters are the bytes of the
  UTF-8 encoding, so \<^verbatim>\<open>len()\<close> is \<^const>\<open>length\<close>. A fixed array \<^verbatim>\<open>[u8; N]\<close> is a list whose
  length is fixed by a well-formedness predicate of the type that holds it. Sizes and indices
  (\<^verbatim>\<open>usize\<close>) of in-memory buffers are \<^typ>\<open>nat\<close>: they are bounded by the address space and the
  code never overflows them; counters that can wrap keep their width.
\<close>

type_synonym u8 = "8 word"
type_synonym u16 = "16 word"
type_synonym u32 = "32 word"
type_synonym u64 = "64 word"

text \<open>Time: \<^verbatim>\<open>Duration\<close>, \<^verbatim>\<open>Instant\<close> and \<^verbatim>\<open>SystemTime\<close> are nanoseconds since a fixed origin.\<close>

type_synonym nanos = nat

text \<open>Equations that evaluate wire formats, and equations about readers of byte streams.\<close>

named_theorems wire_simps
named_theorems io_simps

subsection \<open>Characters, bytes and strings\<close>

definition byte_of_char :: "char \<Rightarrow> u8" where
  "byte_of_char c = word_of_nat (of_char c)"

definition char_of_byte :: "u8 \<Rightarrow> char" where
  "char_of_byte b = char_of (unat b)"

lemma of_char_less_256 [simp]: "(of_char c :: nat) < 256"
  by (metis char_of_char of_char_of mod_less_divisor zero_less_numeral)

lemma unat_byte_of_char [simp]: "unat (byte_of_char c) = of_char c"
  by (simp add: byte_of_char_def unat_of_nat)

lemma char_of_byte_of_char [simp]: "char_of_byte (byte_of_char c) = c"
  by (simp add: char_of_byte_def)

lemma unat_u8_less [simp]: "unat (b :: u8) < 256"
  using unsigned_less [of b, where ?'a = nat] by simp

lemma unat_u16_less [simp]: "unat (p :: u16) < 65536"
  using unsigned_less [of p, where ?'a = nat] by simp

lemma unat_u64_less [simp]: "unat (p :: u64) < 18446744073709551616"
  using unsigned_less [of p, where ?'a = nat] by simp

lemma byte_of_char_of_byte [simp]: "byte_of_char (char_of_byte b) = b"
  by (simp add: byte_of_char_def char_of_byte_def)

lemma byte_of_char_eq_iff [simp]: "byte_of_char c = byte_of_char d \<longleftrightarrow> c = d"
  by (metis char_of_byte_of_char)

definition as_bytes :: "string \<Rightarrow> u8 list" where
  "as_bytes s = map byte_of_char s"

definition str_of_bytes :: "u8 list \<Rightarrow> string" where
  "str_of_bytes bs = map char_of_byte bs"

lemma length_as_bytes [simp]: "length (as_bytes s) = length s"
  by (simp add: as_bytes_def)

lemma length_str_of_bytes [simp]: "length (str_of_bytes bs) = length bs"
  by (simp add: str_of_bytes_def)

lemma as_bytes_Nil [simp]: "as_bytes [] = []"
  by (simp add: as_bytes_def)

lemma as_bytes_append [simp]: "as_bytes (s @ t) = as_bytes s @ as_bytes t"
  by (simp add: as_bytes_def)

lemma as_bytes_eq_Nil [simp]: "as_bytes s = [] \<longleftrightarrow> s = []"
  by (simp add: as_bytes_def)

lemma str_of_as_bytes [simp]: "str_of_bytes (as_bytes s) = s"
  by (simp add: as_bytes_def str_of_bytes_def comp_def)

lemma as_bytes_str_of_bytes [simp]: "as_bytes (str_of_bytes bs) = bs"
  by (simp add: as_bytes_def str_of_bytes_def comp_def)

lemma as_bytes_inject [simp]: "as_bytes s = as_bytes t \<longleftrightarrow> s = t"
  by (metis str_of_as_bytes)

subsection \<open>UTF-8 validity\<close>

text \<open>
  \<^verbatim>\<open>str::from_utf8\<close> and \<^verbatim>\<open>String::from_utf8\<close> accept exactly the well-formed byte sequences of
  the Unicode standard (table 3-7): no overlong forms, no surrogates, nothing above U+10FFFF.
\<close>

definition utf8_cont :: "u8 \<Rightarrow> bool" where
  "utf8_cont b \<longleftrightarrow> 0x80 \<le> b \<and> b \<le> 0xBF"

definition utf8_lead2 :: "u8 \<Rightarrow> bool" where
  "utf8_lead2 b \<longleftrightarrow> 0xC2 \<le> b \<and> b \<le> 0xDF"

definition utf8_lead3 :: "u8 \<Rightarrow> bool" where
  "utf8_lead3 b \<longleftrightarrow> 0xE0 \<le> b \<and> b \<le> 0xEF"

definition utf8_lead4 :: "u8 \<Rightarrow> bool" where
  "utf8_lead4 b \<longleftrightarrow> 0xF0 \<le> b \<and> b \<le> 0xF4"

text \<open>The second byte of a three- or four-byte form is further restricted by its lead.\<close>

definition utf8_second :: "u8 \<Rightarrow> u8 \<Rightarrow> bool" where
  "utf8_second b c \<longleftrightarrow>
    (if b = 0xE0 then 0xA0 \<le> c \<and> c \<le> 0xBF
     else if b = 0xED then 0x80 \<le> c \<and> c \<le> 0x9F
     else if b = 0xF0 then 0x90 \<le> c \<and> c \<le> 0xBF
     else if b = 0xF4 then 0x80 \<le> c \<and> c \<le> 0x8F
     else utf8_cont c)"

fun utf8_valid :: "u8 list \<Rightarrow> bool" where
  "utf8_valid [] = True"
| "utf8_valid (b # bs) =
    (if b < 0x80 then utf8_valid bs
     else if utf8_lead2 b then
       (case bs of c # bs1 \<Rightarrow> utf8_cont c \<and> utf8_valid bs1 | _ \<Rightarrow> False)
     else if utf8_lead3 b then
       (case bs of c # d # bs2 \<Rightarrow> utf8_second b c \<and> utf8_cont d \<and> utf8_valid bs2
        | _ \<Rightarrow> False)
     else if utf8_lead4 b then
       (case bs of c # d # e # bs3 \<Rightarrow>
          utf8_second b c \<and> utf8_cont d \<and> utf8_cont e \<and> utf8_valid bs3
        | _ \<Rightarrow> False)
     else False)"

definition from_utf8 :: "u8 list \<Rightarrow> string option" where
  "from_utf8 bs = (if utf8_valid bs then Some (str_of_bytes bs) else None)"

text \<open>The type invariant of \<^verbatim>\<open>String\<close>: its bytes are valid UTF-8.\<close>

definition wf_str :: "string \<Rightarrow> bool" where
  "wf_str s \<longleftrightarrow> utf8_valid (as_bytes s)"

lemma from_utf8_as_bytes [simp]: "wf_str s \<Longrightarrow> from_utf8 (as_bytes s) = Some s"
  by (simp add: from_utf8_def wf_str_def)

lemma from_utf8_Some_iff: "from_utf8 bs = Some s \<longleftrightarrow> utf8_valid bs \<and> bs = as_bytes s"
  by (auto simp: from_utf8_def)

lemma from_utf8_wf: "from_utf8 bs = Some s \<Longrightarrow> wf_str s"
  by (auto simp: from_utf8_Some_iff wf_str_def)

lemma utf8_valid_ascii: "(\<forall>b \<in> set bs. b < 0x80) \<Longrightarrow> utf8_valid bs"
  by (induction bs) auto

definition is_ascii_char :: "char \<Rightarrow> bool" where
  "is_ascii_char c \<longleftrightarrow> of_char c < (128 :: nat)"

lemma byte_of_char_less_128: "is_ascii_char c \<Longrightarrow> byte_of_char c < 0x80"
  by (simp add: is_ascii_char_def word_less_nat_alt)

lemma wf_str_ascii: "(\<forall>c \<in> set s. is_ascii_char c) \<Longrightarrow> wf_str s"
  unfolding wf_str_def as_bytes_def
  by (rule utf8_valid_ascii) (auto simp: byte_of_char_less_128)

lemma wf_str_Nil [simp]: "wf_str []"
  by (simp add: wf_str_def)

lemma utf8_valid_hd: "utf8_valid (b # bs) \<Longrightarrow> \<not> utf8_cont b"
  by (auto simp: utf8_cont_def utf8_lead2_def utf8_lead3_def utf8_lead4_def
      word_le_nat_alt word_less_nat_alt split: if_splits)


lemma utf8_valid_append: "utf8_valid xs \<Longrightarrow> utf8_valid (xs @ ys) = utf8_valid ys"
  by (induction xs rule: utf8_valid.induct) (auto split: if_splits list.splits)

lemma wf_str_append [simp, intro]: "wf_str s \<Longrightarrow> wf_str t \<Longrightarrow> wf_str (s @ t)"
  by (simp add: wf_str_def utf8_valid_append)

subsection \<open>Results\<close>

text \<open>\<^verbatim>\<open>Result<T, E>\<close> is the sum \<open>'e + 'a\<close>: \<^verbatim>\<open>Err(e)\<close> is \<open>Inl e\<close>, \<^verbatim>\<open>Ok(v)\<close> is \<open>Inr v\<close>.\<close>

abbreviation Err :: "'e \<Rightarrow> 'e + 'a" where "Err \<equiv> Inl"
abbreviation Ok :: "'a \<Rightarrow> 'e + 'a" where "Ok \<equiv> Inr"

definition is_ok :: "'e + 'a \<Rightarrow> bool" where
  "is_ok r = (case r of Inl _ \<Rightarrow> False | Inr _ \<Rightarrow> True)"

lemma is_ok_simps [simp]: "is_ok (Ok v)" "\<not> is_ok (Err e)"
  by (simp_all add: is_ok_def)

lemma is_okE: "is_ok r \<Longrightarrow> (\<And>v. r = Ok v \<Longrightarrow> P) \<Longrightarrow> P"
  by (cases r) auto

text \<open>\<^verbatim>\<open>Result::ok\<close>.\<close>

definition result_ok :: "'e + 'a \<Rightarrow> 'a option" where
  "result_ok r = (case r of Inl _ \<Rightarrow> None | Inr v \<Rightarrow> Some v)"

lemma result_ok_simps [simp]: "result_ok (Ok v) = Some v" "result_ok (Err e) = None"
  by (simp_all add: result_ok_def)

lemma result_ok_Some [simp]: "result_ok r = Some v \<longleftrightarrow> r = Ok v"
  by (cases r) auto

text \<open>Sequencing of fallible steps, the \<^verbatim>\<open>?\<close> operator.\<close>

definition try_bind :: "'e + 'a \<Rightarrow> ('a \<Rightarrow> 'e + 'b) \<Rightarrow> 'e + 'b" where
  "try_bind r f = (case r of Inl e \<Rightarrow> Err e | Inr a \<Rightarrow> f a)"

lemma try_bind_simps [simp]: "try_bind (Ok a) f = f a" "try_bind (Err e) f = Err e"
  by (simp_all add: try_bind_def)

lemma try_bind_Ok_iff: "try_bind r f = Ok b \<longleftrightarrow> (\<exists>a. r = Ok a \<and> f a = Ok b)"
  by (cases r) auto

definition map_err :: "('e \<Rightarrow> 'f) \<Rightarrow> 'e + 'a \<Rightarrow> 'f + 'a" where
  "map_err f r = (case r of Inl e \<Rightarrow> Inl (f e) | Inr v \<Rightarrow> Inr v)"

lemma map_err_simps [simp]: "map_err f (Err e) = Err (f e)" "map_err f (Ok v) = Ok v"
  by (simp_all add: map_err_def)

lemma map_err_eq_Ok [simp]: "map_err f r = Ok v \<longleftrightarrow> r = Ok v"
  by (cases r) auto

subsection \<open>Network byte order\<close>

definition to_be_bytes :: "u16 \<Rightarrow> u8 list" where
  "to_be_bytes p = [word_of_nat (unat p div 256), word_of_nat (unat p mod 256)]"

definition from_be_bytes :: "u8 \<Rightarrow> u8 \<Rightarrow> u16" where
  "from_be_bytes h l = word_of_nat (unat h * 256 + unat l)"

lemma length_to_be_bytes [simp]: "length (to_be_bytes p) = 2"
  by (simp add: to_be_bytes_def)

lemma from_to_be_bytes [simp]:
  "from_be_bytes (word_of_nat (unat p div 256)) (word_of_nat (unat p mod 256)) = p"
proof -
  have "unat p div 256 < 256" by (rule less_mult_imp_div_less) simp
  then show ?thesis
    by (simp add: from_be_bytes_def unat_of_nat)
qed

lemma to_from_be_bytes [simp]: "to_be_bytes (from_be_bytes h l) = [h, l]"
proof -
  have "unat h * 256 + unat l < 65536"
    using unat_u8_less [of h] unat_u8_less [of l] by arith
  then have u: "unat (from_be_bytes h l) = unat h * 256 + unat l"
    unfolding from_be_bytes_def by (simp only: unat_of_nat) simp
  show ?thesis by (simp add: to_be_bytes_def u)
qed

lemma to_be_bytes_inject [simp]: "to_be_bytes p = to_be_bytes q \<longleftrightarrow> p = q"
  by (metis from_to_be_bytes list.inject to_be_bytes_def)

text \<open>A field of \<open>k\<close> bytes followed by a big-endian port, in both directions.\<close>

lemma be_field_split:
  assumes "k + 2 \<le> length body"
  shows "body = take k body @ to_be_bytes (from_be_bytes (body ! k) (body ! (k + 1))) @ drop (k + 2) body"
proof -
  have "drop k body = body ! k # body ! (k + 1) # drop (k + 2) body"
    using assms by (simp add: Cons_nth_drop_Suc)
  then show ?thesis by (metis append_Cons append_Nil append_take_drop_id to_from_be_bytes)
qed

lemma be_field_join:
  assumes "length a = k"
  shows "take k (a @ to_be_bytes p @ rest) = a" "drop (k + 2) (a @ to_be_bytes p @ rest) = rest"
    "from_be_bytes ((a @ to_be_bytes p @ rest) ! k) ((a @ to_be_bytes p @ rest) ! (k + 1)) = p"
  using assms by (auto simp: to_be_bytes_def nth_append)

text \<open>Little-endian bytes of a 64-bit counter.\<close>

definition to_le_bytes64 :: "u64 \<Rightarrow> u8 list" where
  "to_le_bytes64 w = map (\<lambda>i. word_of_nat (unat w div 256 ^ i)) [0..<8]"

lemma length_to_le_bytes64 [simp]: "length (to_le_bytes64 w) = 8"
  by (simp add: to_le_bytes64_def)

subsection \<open>Decimal and hexadecimal text\<close>

definition digit_char :: "nat \<Rightarrow> char" where
  "digit_char d = (if d < 10 then char_of (48 + d) else char_of (87 + d))"

text \<open>\<^verbatim>\<open>char::to_digit(radix)\<close> for radix 10 and 16 (both letter cases).\<close>

definition digit_val :: "nat \<Rightarrow> char \<Rightarrow> nat option" where
  "digit_val radix c =
    (let n = of_char c :: nat;
         v = (if 48 \<le> n \<and> n \<le> 57 then n - 48
              else if 97 \<le> n \<and> n \<le> 122 then n - 87
              else if 65 \<le> n \<and> n \<le> 90 then n - 55 else 255)
     in if v < radix then Some v else None)"

text \<open>\<^verbatim>\<open>Display\<close> (radix 10) and \<^verbatim>\<open>LowerHex\<close> (radix 16) of an unsigned integer.\<close>

fun show_radix :: "nat \<Rightarrow> nat \<Rightarrow> string" where
  "show_radix radix n =
    (if radix < 2 \<or> n < radix then [digit_char n]
     else show_radix radix (n div radix) @ [digit_char (n mod radix)])"

declare show_radix.simps [simp del]

abbreviation show_nat :: "nat \<Rightarrow> string" where
  "show_nat \<equiv> show_radix 10"

datatype int_error = IntEmpty | IntInvalidDigit | IntPosOverflow

fun parse_digits :: "nat \<Rightarrow> nat \<Rightarrow> nat \<Rightarrow> string \<Rightarrow> int_error + nat" where
  "parse_digits radix limit acc [] = Ok acc"
| "parse_digits radix limit acc (c # cs) =
    (case digit_val radix c of
       None \<Rightarrow> Err IntInvalidDigit
     | Some d \<Rightarrow>
         if limit < acc * radix + d then Err IntPosOverflow
         else parse_digits radix limit (acc * radix + d) cs)"

text \<open>\<^verbatim>\<open>u16::from_str\<close>: one optional plus sign, then at least one decimal digit, no overflow.\<close>

definition parse_u16 :: "string \<Rightarrow> int_error + u16" where
  "parse_u16 s =
    (if s = [] then Err IntEmpty
     else if s = [CHR ''+''] \<or> s = [CHR ''-''] then Err IntInvalidDigit
     else (case parse_digits 10 65535 0 (if hd s = CHR ''+'' then tl s else s) of
             Inl e \<Rightarrow> Err e
           | Inr n \<Rightarrow> Ok (word_of_nat n)))"

lemma digit_val_digit_char [simp]:
  "d < radix \<Longrightarrow> radix \<le> 16 \<Longrightarrow> digit_val radix (digit_char d) = Some d"
  by (auto simp: digit_val_def digit_char_def Let_def)

lemma parse_digits_append:
  "parse_digits radix limit acc (xs @ ys) =
    (case parse_digits radix limit acc xs of
       Inl e \<Rightarrow> Err e | Inr v \<Rightarrow> parse_digits radix limit v ys)"
  by (induction xs arbitrary: acc) (auto split: option.splits)

lemma parse_digits_show_radix:
  assumes "2 \<le> radix" "radix \<le> 16" "n \<le> limit"
  shows "parse_digits radix limit 0 (show_radix radix n) = Ok n"
  using assms
proof (induction radix n rule: show_radix.induct)
  case (1 radix n)
  show ?case
  proof (cases "n < radix")
    case True
    with 1 show ?thesis by (simp add: show_radix.simps [of radix n])
  next
    case False
    have "n div radix \<le> limit"
      using "1.prems" by (meson div_le_dividend le_trans)
    with False 1 have "parse_digits radix limit 0 (show_radix radix (n div radix)) = Ok (n div radix)"
      by simp
    with False "1.prems" show ?thesis
      by (simp add: show_radix.simps [of radix n] parse_digits_append)
  qed
qed

lemma show_radix_not_Nil [simp]: "show_radix radix n \<noteq> []"
  by (subst show_radix.simps) simp

lemma set_show_radix:
  assumes "2 \<le> radix" "c \<in> set (show_radix radix n)"
  shows "\<exists>d < radix. c = digit_char d"
  using assms
proof (induction radix n rule: show_radix.induct)
  case (1 radix n)
  have "\<exists>d < radix. digit_char (n mod radix) = digit_char d"
    using "1.prems" by (intro exI [of _ "n mod radix"]) simp
  with 1 show ?case
    by (cases "n < radix") (auto simp: show_radix.simps [of radix n])
qed

lemma digit_char_noteq_sign [simp]:
  "d < 16 \<Longrightarrow> digit_char d \<noteq> CHR ''+''" "d < 16 \<Longrightarrow> digit_char d \<noteq> CHR ''-''"
  "d < 16 \<Longrightarrow> digit_char d \<noteq> CHR '':''" "d < 16 \<Longrightarrow> digit_char d \<noteq> CHR ''.''"
  "d < 16 \<Longrightarrow> digit_char d \<noteq> CHR ''[''" "d < 16 \<Longrightarrow> digit_char d \<noteq> CHR '']''"
  by (auto simp: digit_char_def char_of_eq_iff take_bit_eq_mod)

lemma show_radix_no_sep:
  assumes "2 \<le> radix" "radix \<le> 16"
  shows "CHR ''+'' \<notin> set (show_radix radix n)" "CHR ''-'' \<notin> set (show_radix radix n)"
    "CHR '':'' \<notin> set (show_radix radix n)" "CHR ''.'' \<notin> set (show_radix radix n)"
    "CHR ''['' \<notin> set (show_radix radix n)" "CHR '']'' \<notin> set (show_radix radix n)"
proof -
  have d: "\<exists>d < 16. c = digit_char d" if "c \<in> set (show_radix radix n)" for c
  proof -
    from set_show_radix [OF assms(1) that] obtain d where "d < radix" "c = digit_char d" by blast
    with assms(2) show ?thesis by (intro exI [of _ d]) simp
  qed
  show "CHR ''+'' \<notin> set (show_radix radix n)" "CHR ''-'' \<notin> set (show_radix radix n)"
    "CHR '':'' \<notin> set (show_radix radix n)" "CHR ''.'' \<notin> set (show_radix radix n)"
    "CHR ''['' \<notin> set (show_radix radix n)" "CHR '']'' \<notin> set (show_radix radix n)"
    using d digit_char_noteq_sign by metis+
qed

lemma parse_u16_show [simp]: "parse_u16 (show_nat (unat p)) = Ok p"
proof -
  let ?s = "show_nat (unat p)"
  have ne: "?s \<noteq> []" by simp
  have ns: "hd ?s \<noteq> CHR ''+''" "?s \<noteq> [CHR ''+'']" "?s \<noteq> [CHR ''-'']"
    using show_radix_no_sep(1,2) [of 10 "unat p"] hd_in_set [OF ne] by fastforce+
  have "parse_digits 10 65535 0 ?s = Ok (unat p)"
    using unat_u16_less [of p] by (intro parse_digits_show_radix) linarith+
  with ne ns show ?thesis by (simp add: parse_u16_def)
qed

subsection \<open>ASCII case and suffixes\<close>

definition ascii_lower :: "char \<Rightarrow> char" where
  "ascii_lower c =
    (let n = of_char c :: nat in if 65 \<le> n \<and> n \<le> 90 then char_of (n + 32) else c)"

definition to_ascii_lowercase :: "string \<Rightarrow> string" where
  "to_ascii_lowercase s = map ascii_lower s"

definition eq_ignore_ascii_case :: "string \<Rightarrow> string \<Rightarrow> bool" where
  "eq_ignore_ascii_case s t \<longleftrightarrow> to_ascii_lowercase s = to_ascii_lowercase t"

text \<open>\<^verbatim>\<open>s.strip_suffix(c).unwrap_or(s)\<close>.\<close>

definition strip_suffix_char :: "char \<Rightarrow> string \<Rightarrow> string" where
  "strip_suffix_char c s = (if s \<noteq> [] \<and> last s = c then butlast s else s)"

lemma length_to_ascii_lowercase [simp]: "length (to_ascii_lowercase s) = length s"
  by (simp add: to_ascii_lowercase_def)

lemma to_ascii_lowercase_append [simp]:
  "to_ascii_lowercase (s @ t) = to_ascii_lowercase s @ to_ascii_lowercase t"
  by (simp add: to_ascii_lowercase_def)

lemma ascii_lower_idem [simp]: "ascii_lower (ascii_lower c) = ascii_lower c"
  by (auto simp: ascii_lower_def Let_def)

lemma to_ascii_lowercase_idem [simp]:
  "to_ascii_lowercase (to_ascii_lowercase s) = to_ascii_lowercase s"
  by (simp add: to_ascii_lowercase_def comp_def)

text \<open>Positions and splits of a string at a character (\<^verbatim>\<open>find\<close>, \<^verbatim>\<open>rfind\<close>, \<^verbatim>\<open>split_once\<close>).\<close>

fun split_at_first :: "char \<Rightarrow> string \<Rightarrow> (string \<times> string) option" where
  "split_at_first c [] = None"
| "split_at_first c (x # xs) =
    (if x = c then Some ([], xs)
     else map_option (\<lambda>(a, b). (x # a, b)) (split_at_first c xs))"

definition split_at_last :: "char \<Rightarrow> string \<Rightarrow> (string \<times> string) option" where
  "split_at_last c s = map_option (\<lambda>(a, b). (rev b, rev a)) (split_at_first c (rev s))"

lemma split_at_first_None [simp]: "split_at_first c s = None \<longleftrightarrow> c \<notin> set s"
  by (induction s) auto

lemma split_at_first_Some:
  "split_at_first c s = Some (a, b) \<longleftrightarrow> s = a @ c # b \<and> c \<notin> set a"
proof (induction s arbitrary: a)
  case (Cons x xs)
  then show ?case by (cases a) auto
qed simp

lemma split_at_first_append [simp]:
  "c \<notin> set a \<Longrightarrow> split_at_first c (a @ c # b) = Some (a, b)"
  by (simp add: split_at_first_Some)

lemma split_at_last_append [simp]:
  "c \<notin> set b \<Longrightarrow> split_at_last c (a @ c # b) = Some (a, b)"
  by (simp add: split_at_last_def split_at_first_Some)

lemma split_at_last_None [simp]: "split_at_last c s = None \<longleftrightarrow> c \<notin> set s"
  by (simp add: split_at_last_def)

text \<open>
  Searching and splitting by a pattern (\<^verbatim>\<open>find(pat)\<close> followed by the two slices around the
  match), and by a separator character (\<^verbatim>\<open>split(c)\<close>, which always gives at least one piece).
\<close>

fun split_at_str :: "string \<Rightarrow> string \<Rightarrow> (string \<times> string) option" where
  "split_at_str pat [] = (if pat = [] then Some ([], []) else None)"
| "split_at_str pat (x # xs) =
    (if take (length pat) (x # xs) = pat then Some ([], drop (length pat) (x # xs))
     else map_option (\<lambda>(a, b). (x # a, b)) (split_at_str pat xs))"

definition contains_str :: "string \<Rightarrow> string \<Rightarrow> bool" where
  "contains_str pat s \<longleftrightarrow> split_at_str pat s \<noteq> None"

definition starts_with :: "string \<Rightarrow> string \<Rightarrow> bool" where
  "starts_with pat s \<longleftrightarrow> take (length pat) s = pat"

definition ends_with :: "string \<Rightarrow> string \<Rightarrow> bool" where
  "ends_with pat s \<longleftrightarrow> length pat \<le> length s \<and> drop (length s - length pat) s = pat"

fun split_on :: "char \<Rightarrow> string \<Rightarrow> string list" where
  "split_on c [] = [[]]"
| "split_on c (x # xs) =
    (if x = c then [] # split_on c xs
     else (case split_on c xs of [] \<Rightarrow> [[x]] | p # ps \<Rightarrow> (x # p) # ps))"

text \<open>\<^verbatim>\<open>pieces.join(sep)\<close>.\<close>

fun join_str :: "string \<Rightarrow> string list \<Rightarrow> string" where
  "join_str sep [] = []"
| "join_str sep [p] = p"
| "join_str sep (p # q # ps) = p @ sep @ join_str sep (q # ps)"

lemma split_on_not_Nil [simp]: "split_on c s \<noteq> []"
  by (induction s) (auto split: list.splits)

lemma join_str_Cons: "ps \<noteq> [] \<Longrightarrow> join_str sep (p # ps) = p @ sep @ join_str sep ps"
  by (cases ps) auto

lemma split_on_no_sep: "c \<notin> set s \<Longrightarrow> split_on c s = [s]"
  by (induction s) auto

lemma split_on_append: "c \<notin> set s \<Longrightarrow> split_on c (s @ c # t) = s # split_on c t"
  by (induction s) auto

lemma split_on_join:
  assumes "ps \<noteq> []" "\<forall>p \<in> set ps. c \<notin> set p"
  shows "split_on c (join_str [c] ps) = ps"
  using assms
proof (induction ps)
  case (Cons p ps)
  then show ?case
    by (cases "ps = []") (auto simp: split_on_append split_on_no_sep join_str_Cons)
qed simp

lemma split_at_str_Some:
  "split_at_str pat s = Some (a, b) \<Longrightarrow> s = a @ pat @ b"
proof (induction s arbitrary: a)
  case (Cons x xs)
  then show ?case
    by (auto split: if_splits) (metis append_take_drop_id)
qed (auto split: if_splits)

text \<open>A match whose first character does not occur before it is the first match.\<close>

lemma split_at_str_append:
  assumes "pat \<noteq> []" "hd pat \<notin> set a"
  shows "split_at_str pat (a @ pat @ b) = Some (a, b)"
  using assms
proof (induction a)
  case Nil
  then show ?case by (cases pat) auto
next
  case (Cons x xs)
  then show ?case by (cases pat) auto
qed

lemma split_at_str_None:
  "pat \<noteq> [] \<Longrightarrow> hd pat \<notin> set s \<Longrightarrow> split_at_str pat s = None"
proof (induction s)
  case (Cons x xs)
  then show ?case by (cases pat) auto
qed simp

subsection \<open>Saturating counters\<close>

text \<open>\<^verbatim>\<open>u32::saturating_add(1)\<close> and \<^verbatim>\<open>u32::saturating_sub(1)\<close>.\<close>

definition saturating_inc :: "u32 \<Rightarrow> u32" where
  "saturating_inc n = (if n = - 1 then n else n + 1)"

definition saturating_dec :: "u32 \<Rightarrow> u32" where
  "saturating_dec n = (if n = 0 then 0 else n - 1)"

lemma unat_saturating_inc: "unat (saturating_inc n) = min (unat n + 1) (2 ^ 32 - 1)"
proof (cases "n = - 1")
  case False
  then have "1 + n \<noteq> 0"
    by (metis add.commute add.right_neutral add_diff_cancel_right' diff_0)
  then have "unat (n + 1) = unat n + 1"
    using unatSuc [of n] by (simp add: add.commute)
  moreover have "unat n + 1 \<le> 2 ^ 32 - 1"
    using False calculation unsigned_less [of "n + 1", where ?'a = nat] by simp
  ultimately show ?thesis using False by (simp add: saturating_inc_def)
next
  case True
  have "unat (- 1 :: u32) = 2 ^ 32 - 1" by (simp add: unsigned_minus_1_eq_mask mask_eq_exp_minus_1)
  with True show ?thesis by (simp add: saturating_inc_def)
qed

subsection \<open>Sequencing results\<close>

fun traverse_result :: "('a \<Rightarrow> 'e + 'b) \<Rightarrow> 'a list \<Rightarrow> 'e + 'b list" where
  "traverse_result f [] = Ok []"
| "traverse_result f (x # xs) =
    (case f x of
       Inl e \<Rightarrow> Err e
     | Inr y \<Rightarrow> (case traverse_result f xs of Inl e \<Rightarrow> Err e | Inr ys \<Rightarrow> Ok (y # ys)))"

lemma traverse_result_map:
  "(\<And>x. x \<in> set xs \<Longrightarrow> f (g x) = Ok (h x)) \<Longrightarrow> traverse_result f (map g xs) = Ok (map h xs)"
  by (induction xs) auto

end
