(* ===== verification/Net_Addr.thy ===== *)
theory Net_Addr
  imports Eggress_Prelude
begin

text \<open>
  The parts of \<^verbatim>\<open>std::net\<close> the sources use: addresses as octets, the address classes, and
  the textual form of an address in both directions (\<^verbatim>\<open>Display\<close> and \<^verbatim>\<open>FromStr\<close>). The
  parser follows the standard library's recursive descent (\<^verbatim>\<open>read_number\<close>,
  \<^verbatim>\<open>read_separator\<close>, \<^verbatim>\<open>read_ipv4_addr\<close>, \<^verbatim>\<open>read_groups\<close>, \<^verbatim>\<open>read_ipv6_addr\<close>) and the printer its
  longest-zero-run compression. Theory \<open>Net_Text\<close> shows that printing and then parsing an
  address gives the address back, for both families.
\<close>

subsection \<open>Addresses\<close>

text \<open>Octets in network order; \<open>wf_ip\<close> is the array length the Rust type fixes.\<close>

datatype ip_addr = V4 (octets: "u8 list") | V6 (octets: "u8 list")

fun wf_ip :: "ip_addr \<Rightarrow> bool" where
  "wf_ip (V4 os) \<longleftrightarrow> length os = 4"
| "wf_ip (V6 os) \<longleftrightarrow> length os = 16"

datatype socket_addr = SocketAddr (sock_ip: ip_addr) (sock_port: u16)

definition v4_is_loopback :: "u8 list \<Rightarrow> bool" where
  "v4_is_loopback os \<longleftrightarrow> os ! 0 = 127"

definition v4_is_private :: "u8 list \<Rightarrow> bool" where
  "v4_is_private os \<longleftrightarrow>
    os ! 0 = 10 \<or> (os ! 0 = 172 \<and> 16 \<le> os ! 1 \<and> os ! 1 \<le> 31) \<or> (os ! 0 = 192 \<and> os ! 1 = 168)"

definition v4_is_link_local :: "u8 list \<Rightarrow> bool" where
  "v4_is_link_local os \<longleftrightarrow> os ! 0 = 169 \<and> os ! 1 = 254"

definition v4_is_multicast :: "u8 list \<Rightarrow> bool" where
  "v4_is_multicast os \<longleftrightarrow> 224 \<le> os ! 0 \<and> os ! 0 \<le> 239"

definition v4_is_broadcast :: "u8 list \<Rightarrow> bool" where
  "v4_is_broadcast os \<longleftrightarrow> os = [255, 255, 255, 255]"

definition v4_is_unspecified :: "u8 list \<Rightarrow> bool" where
  "v4_is_unspecified os \<longleftrightarrow> os = [0, 0, 0, 0]"

definition v6_is_loopback :: "u8 list \<Rightarrow> bool" where
  "v6_is_loopback os \<longleftrightarrow> os = replicate 15 0 @ [1]"

definition v6_is_unspecified :: "u8 list \<Rightarrow> bool" where
  "v6_is_unspecified os \<longleftrightarrow> os = replicate 16 0"

definition v6_is_multicast :: "u8 list \<Rightarrow> bool" where
  "v6_is_multicast os \<longleftrightarrow> os ! 0 = 0xFF"

definition to_ipv4_mapped :: "u8 list \<Rightarrow> u8 list option" where
  "to_ipv4_mapped os =
    (if take 12 os = replicate 10 0 @ [0xFF, 0xFF] then Some (drop 12 os) else None)"

text \<open>The IPv6 form \<open>::ffff:a.b.c.d\<close> of an IPv4 address.\<close>

definition to_ipv6_mapped :: "u8 list \<Rightarrow> u8 list" where
  "to_ipv6_mapped os = replicate 10 0 @ [0xFF, 0xFF] @ os"

lemma to_ipv4_mapped_iff:
  "to_ipv4_mapped os = Some v4 \<longleftrightarrow> os = to_ipv6_mapped v4"
proof
  assume "to_ipv4_mapped os = Some v4"
  then show "os = to_ipv6_mapped v4"
    unfolding to_ipv4_mapped_def to_ipv6_mapped_def
    by (metis append.assoc append_Cons append_Nil append_take_drop_id option.distinct(1) option.inject)
qed (simp add: to_ipv4_mapped_def to_ipv6_mapped_def)

subsection \<open>Printing\<close>

definition v4_to_string :: "u8 list \<Rightarrow> string" where
  "v4_to_string os =
    show_nat (unat (os ! 0)) @ ''.'' @ show_nat (unat (os ! 1)) @ ''.'' @
    show_nat (unat (os ! 2)) @ ''.'' @ show_nat (unat (os ! 3))"

definition segments :: "u8 list \<Rightarrow> nat list" where
  "segments os = map (\<lambda>i. unat (from_be_bytes (os ! (2 * i)) (os ! (2 * i + 1)))) [0..<8]"

definition octets_of_segments :: "nat list \<Rightarrow> u8 list" where
  "octets_of_segments gs = concat (map (\<lambda>g. to_be_bytes (word_of_nat g)) gs)"

text \<open>The scan for the first longest run of zero segments: \<open>(start, len)\<close> pairs.\<close>

fun zero_span :: "nat list \<Rightarrow> nat \<Rightarrow> nat \<times> nat \<Rightarrow> nat \<times> nat \<Rightarrow> nat \<times> nat" where
  "zero_span [] i longest current = longest"
| "zero_span (g # gs) i longest current =
    (if g = 0 then
       (let cur = (if snd current = 0 then i else fst current, Suc (snd current));
            lng = (if snd longest < snd cur then cur else longest)
        in zero_span gs (Suc i) lng cur)
     else zero_span gs (Suc i) longest (0, 0))"

fun fmt_subslice :: "nat list \<Rightarrow> string" where
  "fmt_subslice [] = []"
| "fmt_subslice [g] = show_radix 16 g"
| "fmt_subslice (g # gs) = show_radix 16 g @ '':'' @ fmt_subslice gs"

definition v6_to_string :: "u8 list \<Rightarrow> string" where
  "v6_to_string os =
    (case to_ipv4_mapped os of
       Some v4 \<Rightarrow> ''::ffff:'' @ v4_to_string v4
     | None \<Rightarrow>
        (let gs = segments os; (start, len) = zero_span gs 0 (0, 0) (0, 0)
         in if 1 < len
            then fmt_subslice (take start gs) @ ''::'' @ fmt_subslice (drop (start + len) gs)
            else fmt_subslice gs))"

fun ip_to_string :: "ip_addr \<Rightarrow> string" where
  "ip_to_string (V4 os) = v4_to_string os"
| "ip_to_string (V6 os) = v6_to_string os"

subsection \<open>Parsing\<close>

text \<open>A parser takes the remaining text and gives a value and the text after it.\<close>

definition read_given_char :: "char \<Rightarrow> string \<Rightarrow> string option" where
  "read_given_char c s = (case s of x # xs \<Rightarrow> if x = c then Some xs else None | [] \<Rightarrow> None)"

text \<open>The digit loop: accumulated value, number of digits read, and the rest of the text.\<close>

fun read_digits :: "nat \<Rightarrow> nat \<Rightarrow> nat \<Rightarrow> string \<Rightarrow> nat \<times> nat \<times> string" where
  "read_digits radix acc count [] = (acc, count, [])"
| "read_digits radix acc count (c # cs) =
    (case digit_val radix c of
       None \<Rightarrow> (acc, count, c # cs)
     | Some d \<Rightarrow> read_digits radix (acc * radix + d) (Suc count) cs)"

definition read_number :: "nat \<Rightarrow> nat \<Rightarrow> bool \<Rightarrow> nat \<Rightarrow> string \<Rightarrow> (nat \<times> string) option" where
  "read_number radix max_digits allow_zero_prefix bound s =
    (let (v, count, rest) = read_digits radix 0 0 s
     in if max_digits < count \<or> count = 0 then None
        else if \<not> allow_zero_prefix \<and> hd s = CHR ''0'' \<and> 1 < count then None
        else if v < bound then Some (v, rest) else None)"

definition read_separator ::
  "char \<Rightarrow> nat \<Rightarrow> (string \<Rightarrow> ('a \<times> string) option) \<Rightarrow> string \<Rightarrow> ('a \<times> string) option" where
  "read_separator sep index inner s =
    (if 0 < index then Option.bind (read_given_char sep s) inner else inner s)"

fun read_octets :: "nat \<Rightarrow> nat \<Rightarrow> string \<Rightarrow> (u8 list \<times> string) option" where
  "read_octets i 0 s = Some ([], s)"
| "read_octets i (Suc k) s =
    (case read_separator CHR ''.'' i (read_number 10 3 False 256) s of
       None \<Rightarrow> None
     | Some (v, rest) \<Rightarrow>
        map_option (\<lambda>(os, r). (word_of_nat v # os, r)) (read_octets (Suc i) k rest))"

definition read_ipv4_addr :: "string \<Rightarrow> (u8 list \<times> string) option" where
  "read_ipv4_addr s = read_octets 0 4 s"

fun read_groups :: "nat \<Rightarrow> nat \<Rightarrow> string \<Rightarrow> nat list \<times> bool \<times> string" where
  "read_groups i 0 s = ([], False, s)"
| "read_groups i (Suc k) s =
    (case (if 0 < k then read_separator CHR '':'' i read_ipv4_addr s else None) of
       Some (os, rest) \<Rightarrow>
         ([unat (from_be_bytes (os ! 0) (os ! 1)), unat (from_be_bytes (os ! 2) (os ! 3))], True, rest)
     | None \<Rightarrow>
        (case read_separator CHR '':'' i (read_number 16 4 True 65536) s of
           None \<Rightarrow> ([], False, s)
         | Some (g, rest) \<Rightarrow>
            (let (gs, v4, r) = read_groups (Suc i) k rest in (g # gs, v4, r))))"

definition read_ipv6_addr :: "string \<Rightarrow> (u8 list \<times> string) option" where
  "read_ipv6_addr s =
    (let (hd_gs, hd_v4, rest) = read_groups 0 8 s; head_size = length hd_gs
     in if head_size = 8 then Some (octets_of_segments hd_gs, rest)
        else if hd_v4 then None
        else (case Option.bind (read_given_char CHR '':'' rest) (read_given_char CHR '':'') of
                None \<Rightarrow> None
              | Some rest2 \<Rightarrow>
                 (let (tl_gs, _, rest3) = read_groups 0 (8 - (head_size + 1)) rest2
                  in Some (octets_of_segments
                       (hd_gs @ replicate (8 - head_size - length tl_gs) 0 @ tl_gs), rest3))))"

definition parse_ip_addr :: "string \<Rightarrow> ip_addr option" where
  "parse_ip_addr s =
    (case read_ipv4_addr s of
       Some (os, rest) \<Rightarrow> if rest = [] then Some (V4 os) else None
     | None \<Rightarrow>
        (case read_ipv6_addr s of
           Some (os, rest) \<Rightarrow> if rest = [] then Some (V6 os) else None
         | None \<Rightarrow> None))"

text \<open>
  Socket addresses: \<^verbatim>\<open>a.b.c.d:port\<close> and \<^verbatim>\<open>[v6%scope]:port\<close>. Ports and scope identifiers are
  decimal without a digit limit (leading zeros allowed) and must fit their width. The scope
  identifier is read and dropped: no caller looks at it.
\<close>

definition read_unlimited :: "nat \<Rightarrow> string \<Rightarrow> (nat \<times> string) option" where
  "read_unlimited bound s = read_number 10 (length s) True bound s"

definition read_port :: "string \<Rightarrow> (u16 \<times> string) option" where
  "read_port s =
    (case read_given_char CHR '':'' s of
       None \<Rightarrow> None
     | Some r \<Rightarrow> map_option (\<lambda>(v, r'). (word_of_nat v, r')) (read_unlimited 65536 r))"

definition read_scope_id :: "string \<Rightarrow> string" where
  "read_scope_id s =
    (case Option.bind (read_given_char CHR 0x25 s) (read_unlimited (2 ^ 32)) of
       None \<Rightarrow> s | Some (_, r) \<Rightarrow> r)"

definition read_socket_addr_v4 :: "string \<Rightarrow> (socket_addr \<times> string) option" where
  "read_socket_addr_v4 s =
    (case read_ipv4_addr s of
       None \<Rightarrow> None
     | Some (os, r) \<Rightarrow> map_option (\<lambda>(p, r'). (SocketAddr (V4 os) p, r')) (read_port r))"

definition read_socket_addr_v6 :: "string \<Rightarrow> (socket_addr \<times> string) option" where
  "read_socket_addr_v6 s =
    (case Option.bind (read_given_char CHR ''['' s) read_ipv6_addr of
       None \<Rightarrow> None
     | Some (os, r) \<Rightarrow>
        (case read_given_char CHR '']'' (read_scope_id r) of
           None \<Rightarrow> None
         | Some r' \<Rightarrow> map_option (\<lambda>(p, r''). (SocketAddr (V6 os) p, r'')) (read_port r')))"

definition parse_socket_addr :: "string \<Rightarrow> socket_addr option" where
  "parse_socket_addr s =
    (case read_socket_addr_v4 s of
       Some (a, rest) \<Rightarrow> if rest = [] then Some a else None
     | None \<Rightarrow>
        (case read_socket_addr_v6 s of
           Some (a, rest) \<Rightarrow> if rest = [] then Some a else None
         | None \<Rightarrow> None))"

end
