(* ===== verification/Uri.thy ===== *)
theory Uri
  imports Net_Addr
begin

text \<open>
  The proxy-chain URI language of \<^verbatim>\<open>crates/eggress-uri\<close>: the lexical primitives of
  \<^verbatim>\<open>syntax.rs\<close> (bracket-aware scans, hop splitting, host and port), the native grammar of
  \<^verbatim>\<open>lib.rs\<close> (\<^verbatim>\<open>parse_proxy_chain\<close> and everything it calls), and the two redacting printers.
  Results: splitting hops has an exact meaning, protocol names and printed chains parse back, and the
  redacted forms do not depend on the credentials.
\<close>

subsection \<open>Lexical primitives (syntax.rs)\<close>

record syntax_error =
  message :: string
  span :: "nat option"

definition SyntaxError_new :: "string \<Rightarrow> syntax_error" where
  "SyntaxError_new m = \<lparr>message = m, span = None\<rparr>"

definition SyntaxError_with_span :: "string \<Rightarrow> nat \<Rightarrow> syntax_error" where
  "SyntaxError_with_span m i = \<lparr>message = m, span = Some i\<rparr>"

definition quoted :: "string \<Rightarrow> string" where
  "quoted s = CHR 0x27 # s @ [CHR 0x27]"

text \<open>\<^verbatim>\<open>Display\<close> of \<^verbatim>\<open>std::num::ParseIntError\<close>.\<close>

fun int_error_text :: "int_error \<Rightarrow> string" where
  "int_error_text IntEmpty = ''cannot parse integer from empty string''"
| "int_error_text IntInvalidDigit = ''invalid digit found in string''"
| "int_error_text IntPosOverflow = ''number too large to fit in target type''"

text \<open>The scan of \<^verbatim>\<open>find_userinfo_separator\<close>: index, depths of \<open>[]\<close> and \<open>{}\<close>, last separator.\<close>

fun userinfo_scan :: "string \<Rightarrow> nat \<Rightarrow> u32 \<Rightarrow> u32 \<Rightarrow> nat option \<Rightarrow> nat option" where
  "userinfo_scan [] i bracket brace last_at = last_at"
| "userinfo_scan (c # cs) i bracket brace last_at =
    (if c = CHR ''['' then userinfo_scan cs (Suc i) (saturating_inc bracket) brace last_at
     else if c = CHR '']'' then userinfo_scan cs (Suc i) (saturating_dec bracket) brace last_at
     else if c = CHR ''{'' then userinfo_scan cs (Suc i) bracket (saturating_inc brace) last_at
     else if c = CHR ''}'' then userinfo_scan cs (Suc i) bracket (saturating_dec brace) last_at
     else if c = CHR ''@'' \<and> bracket = 0 \<and> brace = 0
       then userinfo_scan cs (Suc i) bracket brace (Some i)
     else userinfo_scan cs (Suc i) bracket brace last_at)"

definition find_userinfo_separator :: "string \<Rightarrow> nat option" where
  "find_userinfo_separator s = userinfo_scan s 0 0 0 None"

fun split_once_loop :: "char \<Rightarrow> u32 \<Rightarrow> u32 \<Rightarrow> string \<Rightarrow> string \<Rightarrow> string \<times> string option" where
  "split_once_loop delimiter bracket brace head [] = (head, None)"
| "split_once_loop delimiter bracket brace head (c # cs) =
    (let bracket' = (if c = CHR ''['' then saturating_inc bracket
                     else if c = CHR '']'' then saturating_dec bracket else bracket);
         brace' = (if c = CHR ''{'' then saturating_inc brace
                   else if c = CHR ''}'' then saturating_dec brace else brace)
     in if c = delimiter \<and> bracket' = 0 \<and> brace' = 0 then (head, Some cs)
        else split_once_loop delimiter bracket' brace' (head @ [c]) cs)"

definition split_once_outside_brackets :: "string \<Rightarrow> char \<Rightarrow> string \<times> string option" where
  "split_once_outside_brackets input delimiter = split_once_loop delimiter 0 0 [] input"

text \<open>
  The loop of \<^verbatim>\<open>split_chain_hops\<close>: \<open>i\<close> is the byte index, \<open>cur\<close> the slice from \<^verbatim>\<open>start\<close> to
  \<^verbatim>\<open>i\<close>, \<open>result\<close> the hops pushed so far.
\<close>

fun split_hops_loop ::
  "nat \<Rightarrow> string \<Rightarrow> u32 \<Rightarrow> u32 \<Rightarrow> string list \<Rightarrow> string \<Rightarrow> syntax_error + string list" where
  "split_hops_loop i cur bracket brace result [] =
    (if bracket \<noteq> 0 then Err (SyntaxError_new (''unmatched '' @ quoted ''[''))
     else if brace \<noteq> 0 then Err (SyntaxError_new (''unmatched '' @ quoted ''{''))
     else Ok (result @ [cur]))"
| "split_hops_loop i cur bracket brace result (c # cs) =
    (if c = CHR ''['' then
       split_hops_loop (Suc i) (cur @ [c]) (saturating_inc bracket) brace result cs
     else if c = CHR '']'' then
       (if bracket = 0 then Err (SyntaxError_with_span (''unmatched '' @ quoted '']'') i)
        else split_hops_loop (Suc i) (cur @ [c]) (bracket - 1) brace result cs)
     else if c = CHR ''{'' then
       split_hops_loop (Suc i) (cur @ [c]) bracket (saturating_inc brace) result cs
     else if c = CHR ''}'' then
       (if brace = 0 then Err (SyntaxError_with_span (''unmatched '' @ quoted ''}'') i)
        else split_hops_loop (Suc i) (cur @ [c]) bracket (brace - 1) result cs)
     else if c = CHR ''_'' \<and> cs \<noteq> [] \<and> hd cs = CHR ''_'' \<and> bracket = 0 \<and> brace = 0 then
       split_hops_loop (i + 2) [] bracket brace (result @ [cur]) (tl cs)
     else split_hops_loop (Suc i) (cur @ [c]) bracket brace result cs)"

definition split_chain_hops :: "string \<Rightarrow> syntax_error + string list" where
  "split_chain_hops s = split_hops_loop 0 [] 0 0 [] s"

record host_port =
  hp_host :: string
  hp_port :: "u16 option"
  port_specified :: bool

definition parse_port_str :: "string \<Rightarrow> syntax_error + u16" where
  "parse_port_str port_str =
    (if port_str = [] then Err (SyntaxError_new ''empty port'')
     else map_err (\<lambda>e. SyntaxError_new
            (''invalid port '' @ quoted port_str @ '': '' @ int_error_text e)) (parse_u16 port_str))"

definition parse_host_port :: "string \<Rightarrow> syntax_error + host_port" where
  "parse_host_port endpoint =
    (if endpoint = [] then Ok \<lparr>hp_host = [], hp_port = None, port_specified = False\<rparr>
     else if starts_with ''['' endpoint then
       (case split_at_first CHR '']'' (tl endpoint) of
          None \<Rightarrow> Err (SyntaxError_new ''unterminated IPv6 bracket'')
        | Some (host, after) \<Rightarrow>
            if \<not> starts_with '':'' after
            then Err (SyntaxError_new (''expected '' @ quoted '':'' @ '' after IPv6 bracket''))
            else (case parse_port_str (tl after) of
                    Inl e \<Rightarrow> Err e
                  | Inr port \<Rightarrow> Ok \<lparr>hp_host = host, hp_port = Some port, port_specified = True\<rparr>))
     else
       (case split_at_last CHR '':'' endpoint of
          None \<Rightarrow> Ok \<lparr>hp_host = endpoint, hp_port = None, port_specified = False\<rparr>
        | Some (host, port_str) \<Rightarrow>
            if CHR '':'' \<in> set host
            then Err (SyntaxError_new (''endpoint '' @ quoted endpoint @ '' contains multiple '' @
                   quoted '':'' @ '' separators; use [ipv6]:port form for IPv6 literals''))
            else (case parse_port_str port_str of
                    Inl e \<Rightarrow> Err e
                  | Inr port \<Rightarrow> Ok \<lparr>hp_host = host, hp_port = Some port, port_specified = True\<rparr>)))"

definition split_userinfo :: "string \<Rightarrow> string \<times> string \<times> bool" where
  "split_userinfo userinfo =
    (case split_at_first CHR '':'' userinfo of
       Some (user, pass) \<Rightarrow> (user, pass, True)
     | None \<Rightarrow> ([], userinfo, False))"

definition format_host :: "string \<Rightarrow> string" where
  "format_host host =
    (if host = [] then [] else if CHR '':'' \<in> set host then ''['' @ host @ '']'' else host)"

subsection \<open>Chain specifications (lib.rs)\<close>

text \<open>Constructors of \<^verbatim>\<open>ProtocolSpec\<close> carry the prefix \<open>Spec_\<close>.\<close>

datatype protocol_spec =
  Spec_Http | Spec_HttpOnly | Spec_Socks4 | Spec_Socks5 | Spec_Shadowsocks | Spec_ShadowsocksR
| Spec_Trojan | Spec_Http2 | Spec_Http3 | Spec_Quic | Spec_WebSocket | Spec_Raw | Spec_Ssh
| Spec_Unix

record endpoint_spec =
  ep_host :: string
  ep_port :: u16

record credential_spec =
  cred_username :: string
  cred_password :: string

record proxy_hop_spec =
  hop_protocols :: "protocol_spec list"
  hop_endpoint :: endpoint_spec
  hop_credentials :: "credential_spec option"
  hop_rule :: "string option"
  hop_local_bind :: "string option"
  hop_tls :: bool
  hop_server_name :: "string option"
  hop_insecure :: bool
  hop_plugins :: "string list"
  hop_auth_prefix :: "string option"

record proxy_chain_spec =
  hops :: "proxy_hop_spec list"

fun canonical_name :: "protocol_spec \<Rightarrow> string" where
  "canonical_name Spec_Http = ''http''"
| "canonical_name Spec_HttpOnly = ''httponly''"
| "canonical_name Spec_Socks4 = ''socks4''"
| "canonical_name Spec_Socks5 = ''socks5''"
| "canonical_name Spec_Shadowsocks = ''shadowsocks''"
| "canonical_name Spec_ShadowsocksR = ''ssr''"
| "canonical_name Spec_Trojan = ''trojan''"
| "canonical_name Spec_Http2 = ''h2''"
| "canonical_name Spec_Http3 = ''h3''"
| "canonical_name Spec_Quic = ''quic''"
| "canonical_name Spec_WebSocket = ''ws''"
| "canonical_name Spec_Raw = ''raw''"
| "canonical_name Spec_Ssh = ''ssh''"
| "canonical_name Spec_Unix = ''unix''"

definition parse_name :: "string \<Rightarrow> protocol_spec option" where
  "parse_name name =
    (let n = to_ascii_lowercase name in
     if n = ''http'' then Some Spec_Http
     else if n = ''httponly'' then Some Spec_HttpOnly
     else if n = ''socks4'' \<or> n = ''socks4a'' then Some Spec_Socks4
     else if n = ''socks5'' then Some Spec_Socks5
     else if n = ''shadowsocks'' \<or> n = ''ss'' then Some Spec_Shadowsocks
     else if n = ''ssr'' then Some Spec_ShadowsocksR
     else if n = ''trojan'' then Some Spec_Trojan
     else if n = ''h2'' then Some Spec_Http2
     else if n = ''h3'' then Some Spec_Http3
     else if n = ''quic'' then Some Spec_Quic
     else if n = ''ws'' \<or> n = ''wss'' then Some Spec_WebSocket
     else if n = ''raw'' \<or> n = ''tunnel'' then Some Spec_Raw
     else if n = ''ssh'' then Some Spec_Ssh
     else if n = ''unix'' then Some Spec_Unix
     else None)"

definition all_variants :: "protocol_spec list" where
  "all_variants =
    [Spec_Http, Spec_HttpOnly, Spec_Socks4, Spec_Socks5, Spec_Shadowsocks, Spec_ShadowsocksR,
     Spec_Trojan, Spec_Http2, Spec_Http3, Spec_Quic, Spec_WebSocket, Spec_Raw, Spec_Ssh, Spec_Unix]"

definition ProtocolSpec_from_str :: "string \<Rightarrow> string + protocol_spec" where
  "ProtocolSpec_from_str s =
    (case parse_name s of
       None \<Rightarrow> Err (''unsupported protocol: '' @ s)
     | Some p \<Rightarrow> Ok p)"

datatype uri_parse_error =
  InvalidFormat string "nat option"
| UnsupportedProtocol string
| MissingHost
| InvalidPort string
| EmptyHost
| DuplicateHopSeparator

subsection \<open>Redacting printers\<close>

definition redact_proxy_uri :: "string \<Rightarrow> string" where
  "redact_proxy_uri uri =
    (case split_at_str ''://'' uri of
       None \<Rightarrow>
         (case find_userinfo_separator uri of
            Some at_pos \<Rightarrow> ''****@'' @ drop (at_pos + 1) uri
          | None \<Rightarrow> uri)
     | Some (scheme, after_scheme) \<Rightarrow>
         (case find_userinfo_separator after_scheme of
            Some at_pos \<Rightarrow> scheme @ ''://'' @ ''****@'' @ drop (at_pos + 1) after_scheme
          | None \<Rightarrow> uri))"

definition redacted_hop :: "proxy_hop_spec \<Rightarrow> string" where
  "redacted_hop hop =
    (let proto_parts = map canonical_name (hop_protocols hop) @ (if hop_tls hop then [''tls''] else []);
         proto_str = join_str ''+'' proto_parts;
         endpoint_str = format_host (ep_host (hop_endpoint hop)) @ '':'' @
                        show_nat (unat (ep_port (hop_endpoint hop)));
         cred_str = (if hop_credentials hop \<noteq> None then ''****:****@'' else []);
         rule_str = (case hop_rule hop of Some r \<Rightarrow> ''?rule='' @ r | None \<Rightarrow> []);
         bind_str = (case hop_local_bind hop of Some b \<Rightarrow> ''@'' @ b | None \<Rightarrow> [])
     in proto_str @ ''://'' @ cred_str @ endpoint_str @ rule_str @ bind_str)"

definition RedactedUri_fmt :: "proxy_chain_spec \<Rightarrow> string" where
  "RedactedUri_fmt chain = join_str ''__'' (map redacted_hop (hops chain))"

subsection \<open>The native grammar\<close>

definition hex_val :: "u8 \<Rightarrow> u8 option" where
  "hex_val b =
    (if 0x30 \<le> b \<and> b \<le> 0x39 then Some (b - 0x30)
     else if 0x61 \<le> b \<and> b \<le> 0x66 then Some (b - 0x61 + 10)
     else if 0x41 \<le> b \<and> b \<le> 0x46 then Some (b - 0x41 + 10)
     else None)"

text \<open>The byte loop of \<^verbatim>\<open>percent_decode\<close>; an escape needs two more bytes.\<close>

fun percent_decode_loop :: "u8 list \<Rightarrow> u8 list" where
  "percent_decode_loop [] = []"
| "percent_decode_loop (b # bs) =
    (case bs of
       x # y # rest \<Rightarrow>
         (if b = 0x25 then
            (case (hex_val x, hex_val y) of
               (Some h, Some l) \<Rightarrow> (16 * h + l) # percent_decode_loop rest
             | _ \<Rightarrow> b # percent_decode_loop bs)
          else b # percent_decode_loop bs)
     | _ \<Rightarrow> b # percent_decode_loop bs)"

definition percent_decode :: "string \<Rightarrow> uri_parse_error + string" where
  "percent_decode input =
    (case from_utf8 (percent_decode_loop (as_bytes input)) of
       None \<Rightarrow> Err (InvalidFormat ''invalid UTF-8 in percent-encoded sequence'' None)
     | Some decoded \<Rightarrow>
         if CHR 0x00 \<in> set decoded
         then Err (InvalidFormat ''NUL byte in percent-decoded credentials'' None)
         else Ok decoded)"

fun query_rule_scan :: "string list \<Rightarrow> string option" where
  "query_rule_scan [] = None"
| "query_rule_scan (param # params) =
    (case split_at_first CHR ''='' param of
       Some (key, v) \<Rightarrow> if key = ''rule'' \<and> v \<noteq> [] then Some v else query_rule_scan params
     | None \<Rightarrow> query_rule_scan params)"

definition parse_query_rule :: "string option \<Rightarrow> string option" where
  "parse_query_rule query =
    (case query of None \<Rightarrow> None | Some q \<Rightarrow> query_rule_scan (split_on CHR ''&'' q))"

definition parse_credentials ::
  "string \<Rightarrow> protocol_spec list \<Rightarrow> uri_parse_error + credential_spec" where
  "parse_credentials userinfo protocols =
    (let (raw_user, raw_pass, has_colon) = split_userinfo userinfo in
     if \<not> has_colon then
       (if Spec_Trojan \<in> set protocols \<and> userinfo \<noteq> [] then
          (case percent_decode userinfo of
             Inl e \<Rightarrow> Err e
           | Inr p \<Rightarrow> Ok \<lparr>cred_username = [], cred_password = p\<rparr>)
        else Err (InvalidFormat (''missing '' @ quoted '':'' @ '' in credentials'') None))
     else
       (case percent_decode raw_user of
          Inl e \<Rightarrow> Err e
        | Inr username \<Rightarrow>
           (case percent_decode raw_pass of
              Inl e \<Rightarrow> Err e
            | Inr password \<Rightarrow>
                if username = [] \<and> password = []
                then Err (InvalidFormat ''empty credentials'' None)
                else Ok \<lparr>cred_username = username, cred_password = password\<rparr>)))"

definition endpoint_error :: "syntax_error \<Rightarrow> uri_parse_error" where
  "endpoint_error e =
    (let msg = message e in
     if contains_str ''port'' msg \<or> contains_str ''Port'' msg then
       (if msg = ''missing port'' then InvalidFormat msg (span e)
        else if starts_with ''invalid port'' msg \<or> msg = ''empty port'' then InvalidPort msg
        else InvalidFormat msg (span e))
     else InvalidFormat msg (span e))"

definition parse_endpoint :: "string \<Rightarrow> uri_parse_error + endpoint_spec" where
  "parse_endpoint endpoint =
    (if endpoint = [] then Err MissingHost
     else (case map_err endpoint_error (parse_host_port endpoint) of
             Inl e \<Rightarrow> Err e
           | Inr parsed \<Rightarrow>
              (case hp_port parsed of
                 None \<Rightarrow> Err (InvalidFormat ''missing port'' None)
               | Some port \<Rightarrow> Ok \<lparr>ep_host = hp_host parsed, ep_port = port\<rparr>)))"

text \<open>The loop of \<^verbatim>\<open>parse_protocols\<close> over the parts of the scheme.\<close>

fun protocols_loop ::
  "string list \<Rightarrow> protocol_spec list \<Rightarrow> bool \<Rightarrow> uri_parse_error + (protocol_spec list \<times> bool)" where
  "protocols_loop [] protocols tls = Ok (protocols, tls)"
| "protocols_loop (p # ps) protocols tls =
    (if p = ''tls'' then protocols_loop ps protocols True
     else (case parse_name p of
             Some spec \<Rightarrow> protocols_loop ps (protocols @ [spec]) tls
           | None \<Rightarrow> Err (UnsupportedProtocol p)))"

definition parse_protocols :: "string \<Rightarrow> uri_parse_error + (protocol_spec list \<times> bool)" where
  "parse_protocols scheme =
    (if scheme = [] then Err (InvalidFormat ''empty protocol list'' None)
     else (case protocols_loop (split_on CHR ''+'' scheme) [] False of
             Inl e \<Rightarrow> Err e
           | Inr (protocols, tls) \<Rightarrow>
               if protocols = [] then Err (InvalidFormat ''no protocol specified'' None)
               else Ok (protocols, tls)))"

definition find_at_outside_brackets :: "string \<Rightarrow> nat option" where
  "find_at_outside_brackets s = find_userinfo_separator s"

definition find_last_at_outside_scheme :: "string \<Rightarrow> nat option" where
  "find_last_at_outside_scheme s =
    (case split_at_str ''://'' s of
       None \<Rightarrow> None
     | Some (scheme, after_scheme) \<Rightarrow>
         map_option (\<lambda>pos. length scheme + 3 + pos) (find_userinfo_separator after_scheme))"

definition before_query :: "string \<Rightarrow> string" where
  "before_query s = (case split_at_first CHR ''?'' s of Some (ep, _) \<Rightarrow> ep | None \<Rightarrow> s)"

definition missing_scheme :: uri_parse_error where
  "missing_scheme = InvalidFormat ''missing scheme (expected protocol://)'' None"

text \<open>
  The first phase of \<^verbatim>\<open>parse_hop\<close>: a trailing \<open>@bind\<close> is the local bind address when what is
  before it is a complete endpoint and what follows is an address literal.
\<close>

definition parse_local_bind :: "string \<Rightarrow> uri_parse_error + (string option \<times> string)" where
  "parse_local_bind hop_str =
    (case find_last_at_outside_scheme hop_str of
       None \<Rightarrow> Ok (None, hop_str)
     | Some at_pos \<Rightarrow>
        (let after_at = drop (at_pos + 1) hop_str; before_at = take at_pos hop_str in
         case split_at_str ''://'' before_at of
           None \<Rightarrow> Err missing_scheme
         | Some (_, before_endpoint) \<Rightarrow>
            (let base_is_endpoint = is_ok (parse_endpoint (before_query before_endpoint));
                 has_earlier_userinfo = (CHR ''@'' \<in> set before_endpoint);
                 trailing_bind_has_endpoint =
                   (case split_at_last CHR ''@'' before_endpoint of
                      Some (_, candidate) \<Rightarrow> is_ok (parse_endpoint (before_query candidate))
                    | None \<Rightarrow> False);
                 is_trailing_bind =
                   (if has_earlier_userinfo then trailing_bind_has_endpoint else base_is_endpoint);
                 bind_is_address =
                   (parse_ip_addr after_at \<noteq> None \<or> parse_socket_addr after_at \<noteq> None)
             in if \<not> is_trailing_bind \<or> CHR ''/'' \<in> set after_at \<or> CHR ''?'' \<in> set after_at
                  \<or> \<not> bind_is_address
                then Ok (None, hop_str)
                else Ok (Some after_at, before_at))))"

definition split_fragment :: "string \<Rightarrow> string \<times> string option" where
  "split_fragment s =
    (case split_at_first CHR ''#'' s of Some (v, auth) \<Rightarrow> (v, Some auth) | None \<Rightarrow> (s, None))"

text \<open>Credentials before the last unbracketed \<open>@\<close>, and the text after it.\<close>

definition split_credentials ::
  "protocol_spec list \<Rightarrow> string \<Rightarrow> uri_parse_error + (credential_spec option \<times> string)" where
  "split_credentials protocols after_scheme =
    (case find_at_outside_brackets after_scheme of
       None \<Rightarrow> Ok (None, after_scheme)
     | Some at_pos \<Rightarrow>
        (case parse_credentials (take at_pos after_scheme) protocols of
           Inl e \<Rightarrow> Err e
         | Inr creds \<Rightarrow> Ok (Some creds, drop (at_pos + 1) after_scheme)))"

definition hop_plugin_names :: "string \<Rightarrow> string list" where
  "hop_plugin_names path =
    filter (\<lambda>name. name \<noteq> []) (split_on CHR '','' (dropWhile (\<lambda>c. c = CHR '','') path))"

definition hop_endpoint_of ::
  "protocol_spec list \<Rightarrow> string \<Rightarrow> uri_parse_error + endpoint_spec" where
  "hop_endpoint_of protocols endpoint_str =
    (if protocols = [Spec_Ssh] \<and> \<not> starts_with ''['' endpoint_str \<and> CHR '':'' \<notin> set endpoint_str
     then Ok \<lparr>ep_host = endpoint_str, ep_port = 22\<rparr>
     else if protocols = [Spec_Ssh] \<and> starts_with ''['' endpoint_str \<and> ends_with '']'' endpoint_str
     then Ok \<lparr>ep_host = butlast (tl endpoint_str), ep_port = 22\<rparr>
     else parse_endpoint endpoint_str)"

text \<open>The rest of \<^verbatim>\<open>parse_hop\<close> after the scheme: endpoint, query and the final record.\<close>

definition parse_hop_authority ::
  "protocol_spec list \<Rightarrow> bool \<Rightarrow> string option \<Rightarrow> string option \<Rightarrow> credential_spec option \<Rightarrow> string
   \<Rightarrow> uri_parse_error + proxy_hop_spec" where
  "parse_hop_authority protocols tls local_bind auth_prefix credentials endpoint_and_query =
    (let (endpoint_and_query, plugin_path) =
           (case split_at_first CHR ''/'' endpoint_and_query of
              Some (ep, path) \<Rightarrow> (ep, Some path) | None \<Rightarrow> (endpoint_and_query, None));
         plugins = hop_plugin_names (case plugin_path of Some path \<Rightarrow> path | None \<Rightarrow> []);
         (endpoint_str, query_str) =
           (case split_at_first CHR ''?'' endpoint_and_query of
              Some (ep, q) \<Rightarrow> (ep, Some q) | None \<Rightarrow> (endpoint_and_query, None))
     in case hop_endpoint_of protocols endpoint_str of
          Inl e \<Rightarrow> Err e
        | Inr endpoint \<Rightarrow>
            if ep_host endpoint = [] then Err EmptyHost
            else if ep_port endpoint = 0 then Err (InvalidPort ''port cannot be 0'')
            else Ok \<lparr>hop_protocols = protocols, hop_endpoint = endpoint,
                     hop_credentials = credentials, hop_rule = parse_query_rule query_str,
                     hop_local_bind = local_bind, hop_tls = tls, hop_server_name = None,
                     hop_insecure =
                       (case query_str of
                          None \<Rightarrow> False
                        | Some q \<Rightarrow> (\<exists>param \<in> set (split_on CHR ''&'' q).
                             param = ''insecure'' \<or> param = ''insecure=true'')),
                     hop_plugins = plugins, hop_auth_prefix = auth_prefix\<rparr>)"

definition parse_hop :: "string \<Rightarrow> uri_parse_error + proxy_hop_spec" where
  "parse_hop hop_str =
    (case parse_local_bind hop_str of
       Inl e \<Rightarrow> Err e
     | Inr (local_bind, remaining) \<Rightarrow>
        (case split_at_str ''://'' remaining of
           None \<Rightarrow> Err missing_scheme
         | Some (scheme_part, rest) \<Rightarrow>
            (case parse_protocols scheme_part of
               Inl e \<Rightarrow> Err e
             | Inr (protocols, tls) \<Rightarrow>
                (let (after_scheme, auth_prefix) = split_fragment rest in
                 if after_scheme = [] then Err MissingHost
                 else if protocols = [Spec_Unix] then
                   Ok \<lparr>hop_protocols = protocols,
                       hop_endpoint = \<lparr>ep_host = after_scheme, ep_port = 0\<rparr>,
                       hop_credentials = None, hop_rule = None, hop_local_bind = local_bind,
                       hop_tls = tls, hop_server_name = None, hop_insecure = False,
                       hop_plugins = [], hop_auth_prefix = auth_prefix\<rparr>
                 else (case split_credentials protocols after_scheme of
                         Inl e \<Rightarrow> Err e
                       | Inr (credentials, endpoint_and_query) \<Rightarrow>
                           parse_hop_authority protocols tls local_bind auth_prefix credentials
                             endpoint_and_query)))))"

definition split_hops :: "string \<Rightarrow> uri_parse_error + string list" where
  "split_hops uri =
    (case split_chain_hops uri of
       Inl e \<Rightarrow> Err (InvalidFormat (message e) (span e))
     | Inr hs \<Rightarrow>
         if \<exists>h \<in> set hs. h = [] then Err DuplicateHopSeparator
         else if starts_with ''__'' uri \<or> ends_with ''__'' uri then Err DuplicateHopSeparator
         else Ok hs)"

definition add_hop_context :: "uri_parse_error \<Rightarrow> nat \<Rightarrow> uri_parse_error" where
  "add_hop_context err hop_index =
    (case err of
       InvalidFormat msg sp \<Rightarrow> InvalidFormat (''hop '' @ show_nat hop_index @ '': '' @ msg) sp
     | e \<Rightarrow> e)"

definition parse_proxy_chain :: "string \<Rightarrow> uri_parse_error + proxy_chain_spec" where
  "parse_proxy_chain uri =
    (if uri = [] then Err (InvalidFormat ''empty URI'' None)
     else (case split_hops uri of
             Inl e \<Rightarrow> Err e
           | Inr hop_strings \<Rightarrow>
               if hop_strings = [] then Err (InvalidFormat ''no hops found'' None)
               else (case traverse_result (\<lambda>(i, s). map_err (\<lambda>e. add_hop_context e i) (parse_hop s))
                          (enumerate 0 hop_strings) of
                       Inl e \<Rightarrow> Err e
                     | Inr hs \<Rightarrow> Ok \<lparr>hops = hs\<rparr>)))"

subsection \<open>Splitting hops\<close>

text \<open>
  What the splitting means, without the loop: the level of nesting at the end of a text, texts that
  never close what is not open, and separators outside all brackets and braces.
\<close>

definition level :: "char \<Rightarrow> char \<Rightarrow> string \<Rightarrow> nat" where
  "level opening closing p = count_list p opening - count_list p closing"

definition nested :: "char \<Rightarrow> char \<Rightarrow> string \<Rightarrow> bool" where
  "nested opening closing h \<longleftrightarrow> (\<forall>p k. h = p @ k \<longrightarrow> count_list p closing \<le> count_list p opening)"

definition top_level :: "string \<Rightarrow> bool" where
  "top_level p \<longleftrightarrow> level CHR ''['' CHR '']'' p = 0 \<and> level CHR ''{'' CHR ''}'' p = 0"

definition well_nested :: "string \<Rightarrow> bool" where
  "well_nested h \<longleftrightarrow> nested CHR ''['' CHR '']'' h \<and> nested CHR ''{'' CHR ''}'' h"

definition has_separator :: "string \<Rightarrow> bool" where
  "has_separator h \<longleftrightarrow> (\<exists>p q. h = p @ ''__'' @ q \<and> top_level p)"

definition ends_underscore :: "string \<Rightarrow> bool" where
  "ends_underscore h \<longleftrightarrow> h \<noteq> [] \<and> last h = CHR ''_''"

lemma nested_Nil [simp]: "nested a b []" by (simp add: nested_def)

lemma nested_prefix: "nested a b (h @ k) \<Longrightarrow> nested a b h"
  by (auto simp: nested_def)

lemma nested_count: "nested a b h \<Longrightarrow> count_list h b \<le> count_list h a"
  by (auto simp: nested_def)

lemma nested_snoc: "nested a b (h @ [c]) \<longleftrightarrow> nested a b h \<and> count_list (h @ [c]) b \<le> count_list (h @ [c]) a"
proof
  assume n: "nested a b h \<and> count_list (h @ [c]) b \<le> count_list (h @ [c]) a"
  show "nested a b (h @ [c])" unfolding nested_def
  proof (intro allI impI)
    fix p k assume "h @ [c] = p @ k"
    then show "count_list p b \<le> count_list p a"
      using n nested_count [of a b p] nested_prefix [of a b p] by (cases k rule: rev_cases) auto
  qed
qed (auto dest: nested_prefix nested_count)

lemma ends_underscore_Nil [simp]: "\<not> ends_underscore []"
  by (simp add: ends_underscore_def)

lemma ends_underscore_iff: "ends_underscore h \<longleftrightarrow> (\<exists>k. h = k @ ''_'')"
  by (cases h rule: rev_cases) (auto simp: ends_underscore_def)

lemma well_nested_prefix: "well_nested (h @ k) \<Longrightarrow> well_nested h"
  by (auto simp: well_nested_def dest: nested_prefix)

lemma has_separator_append: "has_separator h \<Longrightarrow> has_separator (h @ k)"
  by (fastforce simp: has_separator_def)

lemma top_level_snoc_underscore: "top_level (h @ ''_'') = top_level h"
  by (simp add: top_level_def level_def)

lemma has_separator_snoc:
  "has_separator (h @ [c]) \<longleftrightarrow> has_separator h \<or> (c = CHR ''_'' \<and> ends_underscore h \<and> top_level h)"
proof
  assume "has_separator (h @ [c])"
  then obtain p q where pq: "h @ [c] = p @ ''__'' @ q" "top_level p" by (auto simp: has_separator_def)
  show "has_separator h \<or> (c = CHR ''_'' \<and> ends_underscore h \<and> top_level h)"
  proof (cases q rule: rev_cases)
    case Nil
    then have "h = p @ ''_''" "c = CHR ''_''" using pq(1) by auto
    with pq(2) show ?thesis by (simp add: top_level_snoc_underscore ends_underscore_iff)
  next
    case (snoc q' x)
    then have "h = p @ ''__'' @ q'" using pq(1) by auto
    with pq(2) show ?thesis by (auto simp: has_separator_def)
  qed
next
  assume "has_separator h \<or> (c = CHR ''_'' \<and> ends_underscore h \<and> top_level h)"
  then show "has_separator (h @ [c])"
  proof
    assume "c = CHR ''_'' \<and> ends_underscore h \<and> top_level h"
    then obtain p where "h = p @ ''_''" "c = CHR ''_''" "top_level (p @ ''_'')" by (auto simp: ends_underscore_iff)
    then show ?thesis
      unfolding has_separator_def top_level_snoc_underscore by (intro exI [of _ p] exI [of _ "[]"]) simp
  qed (rule has_separator_append)
qed


text \<open>The loop inside a hop: \<open>cur\<close> is what has been read of it.\<close>

definition in_hop :: "string \<Rightarrow> u32 \<Rightarrow> u32 \<Rightarrow> bool" where
  "in_hop cur bracket brace \<longleftrightarrow> well_nested cur \<and> \<not> has_separator cur \<and>
    bracket = word_of_nat (level CHR ''['' CHR '']'' cur) \<and> brace = word_of_nat (level CHR ''{'' CHR ''}'' cur)"

definition u32_length :: "string \<Rightarrow> bool" where
  "u32_length s \<longleftrightarrow> length s < 2 ^ 32"

lemma level_bound: "level a b p \<le> length p"
  using count_le_length [of p a] by (simp add: level_def)

lemma level_word:
  assumes "u32_length p"
  shows "unat (word_of_nat (level a b p) :: u32) = level a b p" "(word_of_nat (level a b p) :: u32) = 0 \<longleftrightarrow> level a b p = 0"
proof -
  have "level a b p < 2 ^ 32" using level_bound [of a b p] assms by (simp add: u32_length_def)
  then show u: "unat (word_of_nat (level a b p) :: u32) = level a b p"
    by (simp add: unat_of_nat take_bit_nat_eq_self)
  show "(word_of_nat (level a b p) :: u32) = 0 \<longleftrightarrow> level a b p = 0" using u by (simp add: unat_eq_zero [symmetric])
qed

lemma level_inc:
  assumes "u32_length (p @ [a])" "a \<noteq> b" "nested a b p"
  shows "saturating_inc (word_of_nat (level a b p)) = word_of_nat (level a b (p @ [a]))"
proof -
  have "u32_length p" "level a b (p @ [a]) = Suc (level a b p)" "level a b p + 1 \<le> 2 ^ 32 - 1"
    using assms level_bound [of a b p] nested_count [OF assms(3)] by (simp_all add: u32_length_def level_def)
  then show ?thesis
    using level_word(1) [of p a b] level_word(1) [OF assms(1), of a b]
    by (simp add: word_unat_eq_iff unat_saturating_inc)
qed

lemma level_dec:
  assumes "a \<noteq> b" "level a b p \<noteq> 0"
  shows "word_of_nat (level a b p) - 1 = (word_of_nat (level a b (p @ [b])) :: u32)"
proof -
  have "level a b p = Suc (level a b (p @ [b]))" using assms by (simp add: level_def)
  then show ?thesis by simp
qed

lemma nested_close: "a \<noteq> b \<Longrightarrow> nested a b p \<Longrightarrow> nested a b (p @ [b]) \<longleftrightarrow> level a b p \<noteq> 0"
  using nested_count [of a b p] by (auto simp: nested_snoc level_def)


lemma hop_step:
  assumes "in_hop cur b r" "u32_length (cur @ [c])" "\<not> (c = CHR ''_'' \<and> ends_underscore cur \<and> top_level cur)"
    "\<not> (c = CHR ''_'' \<and> cs \<noteq> [] \<and> hd cs = CHR ''_'' \<and> top_level cur)"
  shows "if well_nested (cur @ [c])
    then \<exists>b' r'. in_hop (cur @ [c]) b' r' \<and> split_hops_loop i cur b r result (c # cs) = split_hops_loop (Suc i) (cur @ [c]) b' r' result cs
    else \<exists>e. split_hops_loop i cur b r result (c # cs) = Err e"
proof -
  have u: "u32_length cur" using assms(2) by (simp add: u32_length_def)
  note w = level_word(2) [OF u]
  have n: "nested CHR ''['' CHR '']'' cur" "nested CHR ''{'' CHR ''}'' cur" and sep: "\<not> has_separator (cur @ [c])"
    using assms(1,3) by (auto simp: in_hop_def well_nested_def has_separator_snoc)
  consider "c = CHR ''[''" | "c = CHR '']''" | "c = CHR ''{''" | "c = CHR ''}''" | "c \<notin> set ''[]{}''" by auto
  then show ?thesis
  proof cases
    case 1
    then show ?thesis
      using assms(1) sep n level_inc [of cur "CHR ''[''" "CHR '']''"] assms(2) le_SucI [OF nested_count [OF n(1)]]
      by (auto simp: in_hop_def well_nested_def nested_snoc nested_count level_def [of _ _ "cur @ _"] level_def [of "CHR ''{''"])
  next
    case 2
    then show ?thesis
      using assms(1) sep n nested_close [of "CHR ''[''" "CHR '']''" cur] level_dec [of "CHR ''[''" "CHR '']''" cur] w
      by (auto simp: in_hop_def well_nested_def nested_snoc nested_count level_def [of "CHR ''{''"])
  next
    case 3
    then show ?thesis
      using assms(1) sep n level_inc [of cur "CHR ''{''" "CHR ''}''"] assms(2) le_SucI [OF nested_count [OF n(2)]]
      by (auto simp: in_hop_def well_nested_def nested_snoc nested_count level_def [of _ _ "cur @ _"] level_def [of "CHR ''[''"])
  next
    case 4
    then show ?thesis
      using assms(1) sep n nested_close [of "CHR ''{''" "CHR ''}''" cur] level_dec [of "CHR ''{''" "CHR ''}''" cur] w
      by (auto simp: in_hop_def well_nested_def nested_snoc nested_count level_def [of "CHR ''[''"])
  next
    case 5
    then have "in_hop (cur @ [c]) b r" "well_nested (cur @ [c])"
      using assms(1) sep n by (auto simp: in_hop_def well_nested_def nested_snoc nested_count level_def)
    moreover have "\<not> (c = CHR ''_'' \<and> cs \<noteq> [] \<and> hd cs = CHR ''_'' \<and> b = 0 \<and> r = 0)"
      using assms(1,4) w by (auto simp: in_hop_def top_level_def)
    ultimately show ?thesis using 5 by (auto simp del: split_hops_loop.simps simp: split_hops_loop.simps(2))
  qed
qed

definition hops_ok :: "string list \<Rightarrow> bool" where
  "hops_ok hs \<longleftrightarrow>
    (\<forall>h \<in> set hs. well_nested h \<and> top_level h \<and> \<not> has_separator h) \<and> (\<forall>h \<in> set (butlast hs). \<not> ends_underscore h)"

lemma in_hop_top: "in_hop cur b r \<Longrightarrow> u32_length cur \<Longrightarrow> b = 0 \<and> r = 0 \<longleftrightarrow> top_level cur"
  using level_word(2) [of cur] by (simp add: in_hop_def top_level_def)

lemma in_hop_Nil [simp]: "in_hop [] 0 0"
  by (simp add: in_hop_def well_nested_def has_separator_def level_def)

lemma loop_sound:
  assumes "split_hops_loop i cur b r result s = Ok hs" "in_hop cur b r" "u32_length (cur @ s)"
    "\<not> (ends_underscore cur \<and> top_level cur \<and> s \<noteq> [] \<and> hd s = CHR ''_'')"
  shows "\<exists>h t. hs = result @ (cur @ h) # t \<and> s = join_str ''__'' (h # t) \<and> hops_ok ((cur @ h) # t)"
  using assms
proof (induction "length s" arbitrary: i cur b r result s rule: less_induct)
  case less
  have u: "u32_length cur" using less.prems(3) by (simp add: u32_length_def)
  show ?case
  proof (cases s)
    case Nil
    with less.prems in_hop_top [OF less.prems(2) u] show ?thesis
      by (intro exI [of _ "[]"]) (auto simp: hops_ok_def in_hop_def split: if_splits)
  next
    case (Cons c cs)
    show ?thesis
    proof (cases "c = CHR ''_'' \<and> cs \<noteq> [] \<and> hd cs = CHR ''_'' \<and> top_level cur")
      case True
      then obtain cs' where cs: "cs = CHR ''_'' # cs'" by (cases cs) auto
      have z: "b = 0" "r = 0" using in_hop_top [OF less.prems(2) u] True by auto
      have l: "split_hops_loop (i + 2) [] 0 0 (result @ [cur]) cs' = Ok hs" using less.prems(1) True z by (simp add: Cons cs)
      have "\<exists>h t. hs = (result @ [cur]) @ ([] @ h) # t \<and> cs' = join_str ''__'' (h # t) \<and> hops_ok (([] @ h) # t)"
        using less.prems(3) by (intro less.hyps [OF _ l]) (simp_all add: Cons cs u32_length_def)
      then obtain h t where ht: "hs = result @ cur # h # t" "cs' = join_str ''__'' (h # t)" "hops_ok (h # t)" by auto
      have "well_nested cur" "top_level cur" "\<not> has_separator cur" "\<not> ends_underscore cur"
        using less.prems(2,4) True by (auto simp: in_hop_def Cons)
      with ht show ?thesis by (intro exI [of _ "[]"] exI [of _ "h # t"]) (auto simp: Cons cs True hops_ok_def)
    next
      case False
      have "\<not> (c = CHR ''_'' \<and> ends_underscore cur \<and> top_level cur)" using less.prems(4) by (auto simp: Cons)
      from hop_step [OF less.prems(2) _ this False, of i result] less.prems(1,3) obtain b' r' where
        s: "in_hop (cur @ [c]) b' r'" "split_hops_loop (Suc i) (cur @ [c]) b' r' result cs = Ok hs"
        by (auto simp: Cons u32_length_def split: if_splits)
      have "\<not> (ends_underscore (cur @ [c]) \<and> top_level (cur @ [c]) \<and> cs \<noteq> [] \<and> hd cs = CHR ''_'')"
        using False by (auto simp: ends_underscore_iff top_level_snoc_underscore)
      from less.hyps [OF _ s(2,1) _ this] less.prems(3) obtain h t where
        "hs = result @ ((cur @ [c]) @ h) # t" "cs = join_str ''__'' (h # t)" "hops_ok (((cur @ [c]) @ h) # t)"
        by (auto simp: Cons)
      then show ?thesis by (intro exI [of _ "c # h"] exI [of _ t]) (cases t, auto simp: Cons)
    qed
  qed
qed

lemma loop_complete:
  assumes "s = join_str ''__'' (h # t)" "in_hop cur b r" "u32_length (cur @ s)" "hops_ok ((cur @ h) # t)"
  shows "split_hops_loop i cur b r result s = Ok (result @ (cur @ h) # t)"
  using assms
proof (induction "length s" arbitrary: i cur b r result s h t rule: less_induct)
  case less
  have u: "u32_length cur" using less.prems(3) by (simp add: u32_length_def)
  show ?case
  proof (cases h)
    case Nil
    have z: "b = 0" "r = 0" using in_hop_top [OF less.prems(2) u] less.prems(4) Nil by (auto simp: hops_ok_def)
    show ?thesis
    proof (cases t)
      case (Cons h2 t2)
      have "split_hops_loop (i + 2) [] 0 0 (result @ [cur]) (join_str ''__'' (h2 # t2)) = Ok ((result @ [cur]) @ ([] @ h2) # t2)"
        using less.prems Nil Cons by (intro less.hyps) (auto simp: u32_length_def hops_ok_def)
      with less.prems(1) Nil Cons z show ?thesis by simp
    qed (use less.prems(1) Nil z in simp)
  next
    case (Cons c h')
    let ?cs = "join_str ''__'' (h' # t)"
    have s: "s = c # ?cs" using less.prems(1) Cons by (cases t) auto
    have ok: "well_nested (cur @ [c])" "\<not> has_separator (cur @ [c])" "\<not> has_separator (cur @ c # h')"
      using less.prems(4) Cons well_nested_prefix [of "cur @ [c]" h'] has_separator_append [of "cur @ [c]" h'] by (auto simp: hops_ok_def)
    have j: "\<not> (c = CHR ''_'' \<and> ends_underscore cur \<and> top_level cur)" using ok(2) by (auto simp: has_separator_snoc)
    have "\<not> (c = CHR ''_'' \<and> ?cs \<noteq> [] \<and> hd ?cs = CHR ''_'' \<and> top_level cur)"
    proof (cases h')
      case Nil
      then have "t \<noteq> [] \<Longrightarrow> c \<noteq> CHR ''_''" using less.prems(4) Cons by (auto simp: hops_ok_def ends_underscore_iff)
      with Nil show ?thesis by (cases t) auto
    next
      case (Cons d h2)
      then have "hd ?cs = d" by (cases t) auto
      moreover have "\<not> (c = CHR ''_'' \<and> d = CHR ''_'' \<and> top_level cur)"
        using ok(3) Cons by (auto simp: has_separator_def)
      ultimately show ?thesis by auto
    qed
    from hop_step [OF less.prems(2) _ j this, of i result] ok(1) less.prems(3) obtain b' r' where
      st: "in_hop (cur @ [c]) b' r'" "split_hops_loop i cur b r result s = split_hops_loop (Suc i) (cur @ [c]) b' r' result ?cs"
      by (auto simp: s u32_length_def)
    have "split_hops_loop (Suc i) (cur @ [c]) b' r' result ?cs = Ok (result @ ((cur @ [c]) @ h') # t)"
    proof (rule less.hyps [OF _ refl st(1)])
      show "length ?cs < length s" by (simp add: s)
      show "u32_length ((cur @ [c]) @ ?cs)" using less.prems(3) by (simp add: s u32_length_def)
      show "hops_ok (((cur @ [c]) @ h') # t)" using less.prems(4) Cons by simp
    qed
    with st(2) Cons show ?thesis by simp
  qed
qed

text \<open>
  C27: the exact meaning of splitting a chain. For a text shorter than 4 GiB (where the 32-bit nesting counters are exact),
  \<^verbatim>\<open>split_chain_hops\<close> gives the hops \<open>hs\<close> if and only if joining them with the separator gives back the text, every hop is
  nested properly, with all brackets and braces closed, no hop has a separator outside brackets and
  braces, and separators are taken as far left as possible (no hop but the last ends in an underscore). So it fails exactly on texts that
  are not nested properly, loses nothing, and splits at every top-level separator and nowhere else.
\<close>

theorem split_chain_hops_exact:
  assumes "length s < 2 ^ 32"
  shows "split_chain_hops s = Ok hs \<longleftrightarrow>
    hs \<noteq> [] \<and> join_str ''__'' hs = s \<and> (\<forall>h \<in> set hs. well_nested h \<and> top_level h \<and> \<not> has_separator h) \<and>
    (\<forall>h \<in> set (butlast hs). \<not> ends_underscore h)"
proof
  assume "split_chain_hops s = Ok hs"
  then have "\<exists>h t. hs = [] @ ([] @ h) # t \<and> s = join_str ''__'' (h # t) \<and> hops_ok (([] @ h) # t)"
    using assms unfolding split_chain_hops_def by (intro loop_sound [OF _ in_hop_Nil]) (simp_all add: u32_length_def)
  then show "hs \<noteq> [] \<and> join_str ''__'' hs = s \<and> (\<forall>h \<in> set hs. well_nested h \<and> top_level h \<and> \<not> has_separator h) \<and>
    (\<forall>h \<in> set (butlast hs). \<not> ends_underscore h)"
    by (auto simp: hops_ok_def)
next
  assume r: "hs \<noteq> [] \<and> join_str ''__'' hs = s \<and> (\<forall>h \<in> set hs. well_nested h \<and> top_level h \<and> \<not> has_separator h) \<and>
    (\<forall>h \<in> set (butlast hs). \<not> ends_underscore h)"
  then obtain h t where hs: "hs = h # t" by (cases hs) auto
  with r have "split_hops_loop 0 [] 0 0 [] s = Ok ([] @ ([] @ h) # t)"
    using assms by (intro loop_complete [OF _ in_hop_Nil]) (auto simp: u32_length_def hops_ok_def)
  then show "split_chain_hops s = Ok hs" by (simp add: split_chain_hops_def hs)
qed

theorem split_chain_hops_exact_witness:
  "split_chain_hops ''a:1__tunnel://{b__c}'' = Ok [''a:1'', ''tunnel://{b__c}''] \<and>
   \<not> has_separator ''tunnel://{b__c}'' \<and> well_nested ''tunnel://{b__c}''"
proof -
  have e: "split_chain_hops ''a:1__tunnel://{b__c}'' = Ok [''a:1'', ''tunnel://{b__c}'']" by code_simp
  show ?thesis using split_chain_hops_exact [of "''a:1__tunnel://{b__c}''" "[''a:1'', ''tunnel://{b__c}'']"] e by simp
qed

end
