(* ===== verification/Core_Types.thy ===== *)
theory Core_Types
  imports Uri
begin

text \<open>
  The shared vocabulary of \<^verbatim>\<open>crates/eggress-core/src/lib.rs\<close> (protocol identifiers, targets,
  identities, reject reasons and their text) and the capability classifier of
  \<^verbatim>\<open>crates/eggress-core/src/capability.rs\<close>. Result: UDP is offered
  exactly for the chains every hop of which can carry it; theory \<open>Net_Text\<close> shows that a target
  prints to text that parses back.
\<close>

subsection \<open>Protocol identifiers\<close>

text \<open>Constructors of \<^verbatim>\<open>ProtocolId\<close> carry the prefix \<open>Id_\<close>.\<close>

datatype protocol_id =
  Id_Http | Id_Socks4 | Id_Socks5 | Id_Shadowsocks | Id_ShadowsocksR | Id_Trojan | Id_Http2
| Id_Http3 | Id_Quic | Id_WebSocket | Id_Raw | Id_Echo | Id_Reverse

fun ProtocolId_fmt :: "protocol_id \<Rightarrow> string" where
  "ProtocolId_fmt Id_Http = ''http''"
| "ProtocolId_fmt Id_Socks4 = ''socks4''"
| "ProtocolId_fmt Id_Socks5 = ''socks5''"
| "ProtocolId_fmt Id_Shadowsocks = ''shadowsocks''"
| "ProtocolId_fmt Id_ShadowsocksR = ''ssr''"
| "ProtocolId_fmt Id_Trojan = ''trojan''"
| "ProtocolId_fmt Id_Http2 = ''h2''"
| "ProtocolId_fmt Id_Http3 = ''h3''"
| "ProtocolId_fmt Id_Quic = ''quic''"
| "ProtocolId_fmt Id_WebSocket = ''websocket''"
| "ProtocolId_fmt Id_Raw = ''raw''"
| "ProtocolId_fmt Id_Echo = ''echo''"
| "ProtocolId_fmt Id_Reverse = ''reverse''"

datatype protocol_conversion_error = UpstreamOnlyTransport

fun from_protocol_spec :: "protocol_spec \<Rightarrow> protocol_conversion_error + protocol_id" where
  "from_protocol_spec Spec_Http = Ok Id_Http"
| "from_protocol_spec Spec_HttpOnly = Ok Id_Http"
| "from_protocol_spec Spec_Socks4 = Ok Id_Socks4"
| "from_protocol_spec Spec_Socks5 = Ok Id_Socks5"
| "from_protocol_spec Spec_Shadowsocks = Ok Id_Shadowsocks"
| "from_protocol_spec Spec_ShadowsocksR = Ok Id_ShadowsocksR"
| "from_protocol_spec Spec_Trojan = Ok Id_Trojan"
| "from_protocol_spec Spec_Http2 = Ok Id_Http2"
| "from_protocol_spec Spec_Http3 = Ok Id_Http3"
| "from_protocol_spec Spec_Quic = Ok Id_Quic"
| "from_protocol_spec Spec_WebSocket = Ok Id_WebSocket"
| "from_protocol_spec Spec_Raw = Ok Id_Raw"
| "from_protocol_spec Spec_Unix = Ok Id_Raw"
| "from_protocol_spec Spec_Ssh = Err UpstreamOnlyTransport"

subsection \<open>Targets and identities\<close>

type_synonym upstream_id = string

datatype target_host = Ip ip_addr | Domain string

record target_addr =
  tgt_host :: target_host
  tgt_port :: u16

fun TargetHost_fmt :: "target_host \<Rightarrow> string" where
  "TargetHost_fmt (Ip ip) = ip_to_string ip"
| "TargetHost_fmt (Domain domain) = domain"

definition TargetAddr_fmt :: "target_addr \<Rightarrow> string" where
  "TargetAddr_fmt t =
    (case tgt_host t of
       Ip (V6 os) \<Rightarrow> ''['' @ TargetHost_fmt (tgt_host t) @ '']:'' @ show_nat (unat (tgt_port t))
     | _ \<Rightarrow> TargetHost_fmt (tgt_host t) @ '':'' @ show_nat (unat (tgt_port t)))"

text \<open>
  \<^verbatim>\<open>TargetAddr::from_str\<close>. The errors are texts; the text of \<^verbatim>\<open>AddrParseError\<close> for an address
  is the one of the standard library.
\<close>

definition invalid_port_text :: "string \<Rightarrow> int_error \<Rightarrow> string" where
  "invalid_port_text port_str e = ''invalid port '' @ quoted port_str @ '': '' @ int_error_text e"

definition TargetAddr_from_str :: "string \<Rightarrow> string + target_addr" where
  "TargetAddr_from_str s =
    (if starts_with ''['' s then
       (case split_at_first CHR '']'' (tl s) of
          None \<Rightarrow> Err (''invalid target format: missing closing '' @ quoted '']'' @ '' in '' @ quoted s)
        | Some (host_str, after) \<Rightarrow>
            if \<not> starts_with '':'' after
            then Err (''invalid target format: missing '' @ quoted '':port'' @ '' after '' @
                   quoted '']'' @ '' in '' @ quoted s)
            else (case parse_u16 (tl after) of
                    Inl e \<Rightarrow> Err (invalid_port_text (tl after) e)
                  | Inr p \<Rightarrow>
                     (case parse_ip_addr host_str of
                        None \<Rightarrow> Err (''invalid IPv6 address '' @ quoted host_str @
                                  '': invalid IP address syntax'')
                      | Some ip \<Rightarrow> Ok \<lparr>tgt_host = Ip ip, tgt_port = p\<rparr>)))
     else if 1 < count_list s CHR '':'' then
       Err (''invalid target format: unbracketed IPv6 literal in '' @ quoted s @ '' (use [addr]:port)'')
     else
       (case split_at_last CHR '':'' s of
          None \<Rightarrow> Err (''invalid target format: '' @ s)
        | Some (host_part, port_part) \<Rightarrow>
           (case parse_u16 port_part of
              Inl e \<Rightarrow> Err (invalid_port_text port_part e)
            | Inr p \<Rightarrow>
               (case parse_ip_addr host_part of
                  Some ip \<Rightarrow> Ok \<lparr>tgt_host = Ip ip, tgt_port = p\<rparr>
                | None \<Rightarrow> Ok \<lparr>tgt_host = Domain host_part, tgt_port = p\<rparr>))))"

datatype client_identity = Anonymous | Username string | Opaque string

datatype reject_reason =
  Reject_UnsupportedProtocol | AuthRequired | AccessDenied | Blocked | InternalError

fun RejectReason_fmt :: "reject_reason \<Rightarrow> string" where
  "RejectReason_fmt Reject_UnsupportedProtocol = ''unsupported protocol''"
| "RejectReason_fmt AuthRequired = ''authentication required''"
| "RejectReason_fmt AccessDenied = ''access denied''"
| "RejectReason_fmt Blocked = ''target address blocked''"
| "RejectReason_fmt InternalError = ''internal error''"

subsection \<open>Capabilities of an upstream chain\<close>

datatype capability_result =
  Supported | Cap_UnsupportedProtocol string | UnsupportedChain string

record upstream_capabilities =
  tcp_connect :: capability_result
  udp_associate :: capability_result

definition is_tcp_supported :: "upstream_capabilities \<Rightarrow> bool" where
  "is_tcp_supported c \<longleftrightarrow> tcp_connect c = Supported"

definition is_udp_supported :: "upstream_capabilities \<Rightarrow> bool" where
  "is_udp_supported c \<longleftrightarrow> udp_associate c = Supported"

definition caps :: "capability_result \<Rightarrow> capability_result \<Rightarrow> upstream_capabilities" where
  "caps t u = \<lparr>tcp_connect = t, udp_associate = u\<rparr>"

fun classify_single_protocol :: "protocol_spec \<Rightarrow> upstream_capabilities" where
  "classify_single_protocol Spec_Http = caps Supported (Cap_UnsupportedProtocol ''Http'')"
| "classify_single_protocol Spec_HttpOnly = caps Supported (Cap_UnsupportedProtocol ''Http'')"
| "classify_single_protocol Spec_Socks4 = caps Supported (Cap_UnsupportedProtocol ''Socks4'')"
| "classify_single_protocol Spec_Socks5 = caps Supported Supported"
| "classify_single_protocol Spec_Shadowsocks = caps Supported Supported"
| "classify_single_protocol Spec_ShadowsocksR =
    caps Supported (Cap_UnsupportedProtocol ''ShadowsocksR'')"
| "classify_single_protocol Spec_Trojan = caps Supported (Cap_UnsupportedProtocol ''Trojan'')"
| "classify_single_protocol Spec_Http2 = caps Supported (Cap_UnsupportedProtocol ''Http2'')"
| "classify_single_protocol Spec_Http3 = caps Supported (Cap_UnsupportedProtocol ''Http3'')"
| "classify_single_protocol Spec_Quic =
    caps (UnsupportedChain ''QUIC requires an application protocol'')
      (Cap_UnsupportedProtocol ''Quic'')"
| "classify_single_protocol Spec_WebSocket = caps Supported (Cap_UnsupportedProtocol ''WebSocket'')"
| "classify_single_protocol Spec_Raw = caps Supported (Cap_UnsupportedProtocol ''Raw'')"
| "classify_single_protocol Spec_Ssh = caps Supported (Cap_UnsupportedProtocol ''Ssh'')"
| "classify_single_protocol Spec_Unix = caps Supported (Cap_UnsupportedProtocol ''Unix'')"

text \<open>The two tests the classifier makes on the protocols of a hop.\<close>

definition quic_application :: "protocol_spec \<Rightarrow> bool" where
  "quic_application p \<longleftrightarrow> p \<in> {Spec_Http, Spec_HttpOnly, Spec_Socks4, Spec_Socks5, Spec_Raw}"

definition udp_hop :: "proxy_hop_spec \<Rightarrow> bool" where
  "udp_hop hop \<longleftrightarrow>
    length (hop_protocols hop) = 1 \<and>
    (hop_protocols hop ! 0 = Spec_Socks5 \<or> hop_protocols hop ! 0 = Spec_Shadowsocks)"

definition classify_upstream_chain :: "proxy_chain_spec \<Rightarrow> upstream_capabilities" where
  "classify_upstream_chain chain =
    (case hops chain of
       [] \<Rightarrow> caps (UnsupportedChain ''direct'') (UnsupportedChain ''direct'')
     | [hop] \<Rightarrow>
         if length (hop_protocols hop) = 1 then classify_single_protocol (hop_protocols hop ! 0)
         else if Spec_Quic \<in> set (hop_protocols hop)
                \<and> (\<exists>p \<in> set (hop_protocols hop). quic_application p)
         then caps Supported (Cap_UnsupportedProtocol ''QUIC UDP stream mapping'')
         else caps (UnsupportedChain ''multi-protocol'') (UnsupportedChain ''multi-protocol'')
     | hop # _ \<Rightarrow>
         if Spec_Quic \<in> set (hop_protocols hop)
         then caps Supported
                (UnsupportedChain ''QUIC UDP stream mapping is only supported at the first hop'')
         else if \<forall>h \<in> set (hops chain). udp_hop h then caps Supported Supported
         else caps Supported (UnsupportedChain ''multi-hop contains a non-UDP protocol''))"

lemma caps_simps [simp]:
  "is_tcp_supported (caps t u) \<longleftrightarrow> t = Supported" "is_udp_supported (caps t u) \<longleftrightarrow> u = Supported"
  by (simp_all add: caps_def is_tcp_supported_def is_udp_supported_def)

lemma single_udp_supported:
  "is_udp_supported (classify_single_protocol p) \<longleftrightarrow> p = Spec_Socks5 \<or> p = Spec_Shadowsocks"
  by (cases p) auto

lemma single_tcp_supported:
  "is_tcp_supported (classify_single_protocol p) \<longleftrightarrow> p \<noteq> Spec_Quic"
  by (cases p) auto

lemma udp_hop_no_quic: "udp_hop h \<Longrightarrow> Spec_Quic \<notin> set (hop_protocols h)"
  by (cases "hop_protocols h") (auto simp: udp_hop_def)

text \<open>
  The UDP capability of a chain. A chain is classified as able to carry UDP exactly when it
  has at least one hop and every hop speaks exactly one protocol, SOCKS5 or Shadowsocks: the
  single-hop, QUIC and multi-hop branches of the classifier agree on this one rule.
\<close>

lemma classify_udp_supported_iff:
  "is_udp_supported (classify_upstream_chain chain) \<longleftrightarrow>
    hops chain \<noteq> [] \<and> list_all udp_hop (hops chain)"
proof (cases "hops chain")
  case (Cons h rest)
  show ?thesis
  proof (cases rest)
    case Nil
    with Cons show ?thesis
      by (auto simp: classify_upstream_chain_def single_udp_supported udp_hop_def)
  next
    case (Cons g rest')
    with \<open>hops chain = h # rest\<close> show ?thesis
      by (auto simp: classify_upstream_chain_def list_all_iff dest: udp_hop_no_quic)
  qed
qed (simp add: classify_upstream_chain_def)

end
