(* ===== verification/Matcher.thy ===== *)
theory Matcher
  imports Core_Types
begin

text \<open>
  Route matching (\<^verbatim>\<open>crates/eggress-routing/src/matcher.rs\<close>, the request and rule types of
  \<^verbatim>\<open>model.rs\<close> and \<^verbatim>\<open>rule.rs\<close>) and the compatibility rules of \<^verbatim>\<open>compat.rs\<close>. Regular expressions
  (\<^verbatim>\<open>regex\<close>) and networks (\<^verbatim>\<open>ipnet\<close>) are type parameters with the operations the code calls:
  \<open>is_match\<close> and \<open>cidr_contains\<close>. Results: port sets match exactly their elements, domain
  suffixes match exactly on label boundaries, and the decimal port texts are the ordinary ones.
\<close>

subsection \<open>Requests\<close>

datatype transport_kind = Tcp | Udp | ReverseTcp

fun TransportKind_fmt :: "transport_kind \<Rightarrow> string" where
  "TransportKind_fmt Tcp = ''tcp''"
| "TransportKind_fmt Udp = ''udp''"
| "TransportKind_fmt ReverseTcp = ''reverse_tcp''"

record route_request =
  req_target :: target_addr
  req_source :: "socket_addr option"
  req_listener :: string
  inbound_protocol :: protocol_id
  req_identity :: client_identity
  req_transport :: transport_kind

subsection \<open>Ports\<close>

datatype port_matcher = Exact u16 | Range u16 u16 | Set "u16 list"

text \<open>
  \<^verbatim>\<open>slice::binary_search\<close> of the standard library: halve the size, keeping in \<open>base\<close> the last
  position whose element does not exceed the key, then compare once.
\<close>

function bs_loop :: "u16 list \<Rightarrow> u16 \<Rightarrow> nat \<Rightarrow> nat \<Rightarrow> nat" where
  "bs_loop xs x base sz =
    (if 1 < sz then
       (let half = sz div 2; mid = base + half
        in bs_loop xs x (if xs ! mid > x then base else mid) (sz - half))
     else base)"
  by pat_completeness auto
termination by (relation "measure (\<lambda>(xs, x, base, sz). sz)") auto

declare bs_loop.simps [simp del]

definition binary_search_is_ok :: "u16 list \<Rightarrow> u16 \<Rightarrow> bool" where
  "binary_search_is_ok xs x = (if xs = [] then False else xs ! (bs_loop xs x 0 (length xs)) = x)"

fun PortMatcher_matches :: "port_matcher \<Rightarrow> u16 \<Rightarrow> bool" where
  "PortMatcher_matches (Exact p) port = (port = p)"
| "PortMatcher_matches (Range start stop) port =
    (if start > stop then False else port \<ge> start \<and> port \<le> stop)"
| "PortMatcher_matches (Set ports) port = binary_search_is_ok ports port"

definition new_range :: "u16 \<Rightarrow> u16 \<Rightarrow> string + port_matcher" where
  "new_range start stop =
    (if start > stop
     then Err (''PortMatcher::Range start ('' @ show_nat (unat start) @ '') must be <= end ('' @
            show_nat (unat stop) @ '')'')
     else Ok (Range start stop))"

text \<open>\<^verbatim>\<open>sort_unstable\<close> and \<^verbatim>\<open>dedup\<close> (which removes consecutive repetitions).\<close>

definition new_set :: "u16 list \<Rightarrow> port_matcher" where
  "new_set ports = Set (remdups_adj (sort ports))"

subsection \<open>Hosts\<close>

definition normalize_host_for_exact :: "string \<Rightarrow> string" where
  "normalize_host_for_exact hst =
    (let h = strip_suffix_char CHR ''.'' hst in
     case parse_ip_addr h of
       Some (V6 v6) \<Rightarrow>
         (case to_ipv4_mapped v6 of None \<Rightarrow> ip_to_string (V6 v6) | Some v4 \<Rightarrow> v4_to_string v4)
     | Some (V4 v4) \<Rightarrow> ip_to_string (V4 v4)
     | None \<Rightarrow> to_ascii_lowercase h)"

definition target_host_str :: "target_host \<Rightarrow> string" where
  "target_host_str h = (case h of Domain d \<Rightarrow> d | Ip ip \<Rightarrow> ip_to_string ip)"

text \<open>
  \<^verbatim>\<open>str::is_char_boundary\<close>, which \<^verbatim>\<open>get(..i)\<close> and \<^verbatim>\<open>get(i..)\<close> require: the ends of the string
  and every position whose byte is not a continuation byte.
\<close>

definition is_char_boundary :: "string \<Rightarrow> nat \<Rightarrow> bool" where
  "is_char_boundary s i \<longleftrightarrow> i = 0 \<or> i = length s \<or> (i < length s \<and> \<not> utf8_cont (as_bytes s ! i))"

definition host_matches_suffix :: "string \<Rightarrow> string \<Rightarrow> bool" where
  "host_matches_suffix hst suff =
    (let h = strip_suffix_char CHR ''.'' hst; suffix = strip_suffix_char CHR ''.'' suff in
     if eq_ignore_ascii_case h suffix \<or> length h \<le> length suffix
     then eq_ignore_ascii_case h suffix
     else (let suffix_start = length h - length suffix in
           if is_char_boundary h suffix_start
           then ends_with ''.'' (take suffix_start h) \<and>
                eq_ignore_ascii_case (drop suffix_start h) suffix
           else False))"

subsection \<open>Decimal text of a port\<close>

text \<open>The digit loop, least significant digit first.\<close>

function port_digits :: "nat \<Rightarrow> u8 list" where
  "port_digits remaining =
    (0x30 + word_of_nat (remaining mod 10)) #
    (if remaining div 10 = 0 then [] else port_digits (remaining div 10))"
  by pat_completeness auto
termination by (relation "measure id") auto

declare port_digits.simps [simp del]

text \<open>A panic (here: an index outside the buffer) is a value of its own.\<close>

datatype 'a outcome = Panic | Return 'a

text \<open>Writing bytes one by one at the position \<open>length written\<close> of a buffer of \<open>n\<close> bytes.\<close>

fun write_bytes :: "nat \<Rightarrow> u8 list \<Rightarrow> u8 list \<Rightarrow> u8 list outcome" where
  "write_bytes n written [] = Return written"
| "write_bytes n written (b # bs) =
    (if length written < n then write_bytes n (written @ [b]) bs else Panic)"

definition fmt_port :: "u16 \<Rightarrow> string option outcome" where
  "fmt_port p =
    (let digits = port_digits (unat p) in
     case write_bytes 5 [] digits of
       Panic \<Rightarrow> Panic
     | Return _ \<Rightarrow>
        (case write_bytes 5 [] (rev digits) of
           Panic \<Rightarrow> Panic
         | Return bytes \<Rightarrow> Return (from_utf8 bytes)))"

definition fmt_target :: "string \<Rightarrow> u16 \<Rightarrow> nat \<Rightarrow> string option outcome" where
  "fmt_target hostname p buf_len =
    (let bytes = as_bytes hostname in
     if buf_len < length bytes + 5 then Return None
     else (case write_bytes buf_len bytes [0x3A] of
             Panic \<Rightarrow> Panic
           | Return buf \<Rightarrow>
              (case write_bytes buf_len buf
                      (if p = 0 then [0x30] else rev (port_digits (unat p))) of
                 Panic \<Rightarrow> Panic
               | Return buf' \<Rightarrow> Return (from_utf8 buf'))))"

text \<open>\<^verbatim>\<open>CompatRegexRule::matches\<close>, for a rule with pattern \<open>re\<close>.\<close>

definition CompatRegexRule_matches ::
  "('re \<Rightarrow> string \<Rightarrow> bool) \<Rightarrow> 're \<Rightarrow> string \<Rightarrow> u16 \<Rightarrow> bool outcome" where
  "CompatRegexRule_matches is_match re hostname p =
    (case fmt_target hostname p 320 of
       Panic \<Rightarrow> Panic
     | Return (Some t) \<Rightarrow> Return (is_match re t)
     | Return None \<Rightarrow> Return (is_match re (hostname @ '':'' @ show_nat (unat p))))"

subsection \<open>Expressions\<close>

datatype ('re, 'net) match_expr =
  Any
| All "('re, 'net) match_expr list"
| AnyOf "('re, 'net) match_expr list"
| Not "('re, 'net) match_expr"
| HostExact string
| HostSuffix string
| HostRegex 're
| DestinationCidr 'net
| DestinationPort port_matcher
| DestinationPortRegex 're
| SourceCidr 'net
| SourcePort port_matcher
| Listener string
| Protocol protocol_id
| Identity string
| Transport transport_kind
| ReverseListener string

fun matches ::
  "('re \<Rightarrow> string \<Rightarrow> bool) \<Rightarrow> ('net \<Rightarrow> ip_addr \<Rightarrow> bool) \<Rightarrow> ('re, 'net) match_expr \<Rightarrow> route_request \<Rightarrow> bool"
where
  "matches is_match cidr_contains Any request = True"
| "matches is_match cidr_contains (All exprs) request =
    (\<forall>e \<in> set exprs. matches is_match cidr_contains e request)"
| "matches is_match cidr_contains (AnyOf exprs) request =
    (\<exists>e \<in> set exprs. matches is_match cidr_contains e request)"
| "matches is_match cidr_contains (Not inner) request =
    (\<not> matches is_match cidr_contains inner request)"
| "matches is_match cidr_contains (HostExact expected) request =
    (case tgt_host (req_target request) of
       Domain domain \<Rightarrow> eq_ignore_ascii_case (strip_suffix_char CHR ''.'' domain) expected
     | Ip ip \<Rightarrow> normalize_host_for_exact (target_host_str (Ip ip)) = expected)"
| "matches is_match cidr_contains (HostSuffix suffix) request =
    (case tgt_host (req_target request) of
       Domain domain \<Rightarrow> host_matches_suffix domain suffix
     | Ip ip \<Rightarrow> host_matches_suffix (normalize_host_for_exact (target_host_str (Ip ip))) suffix)"
| "matches is_match cidr_contains (HostRegex re) request =
    is_match re (target_host_str (tgt_host (req_target request)))"
| "matches is_match cidr_contains (DestinationCidr cidr) request =
    (case tgt_host (req_target request) of Ip ip \<Rightarrow> cidr_contains cidr ip | Domain _ \<Rightarrow> False)"
| "matches is_match cidr_contains (DestinationPort m) request =
    PortMatcher_matches m (tgt_port (req_target request))"
| "matches is_match cidr_contains (DestinationPortRegex re) request =
    (case fmt_port (tgt_port (req_target request)) of Return (Some s) \<Rightarrow> is_match re s | _ \<Rightarrow> False)"
| "matches is_match cidr_contains (SourceCidr cidr) request =
    (case req_source request of Some addr \<Rightarrow> cidr_contains cidr (sock_ip addr) | None \<Rightarrow> False)"
| "matches is_match cidr_contains (SourcePort m) request =
    (case req_source request of Some addr \<Rightarrow> PortMatcher_matches m (sock_port addr) | None \<Rightarrow> False)"
| "matches is_match cidr_contains (Listener name) request = (req_listener request = name)"
| "matches is_match cidr_contains (Protocol proto) request = (inbound_protocol request = proto)"
| "matches is_match cidr_contains (Identity name) request =
    (case req_identity request of Anonymous \<Rightarrow> False | Username u \<Rightarrow> u = name | Opaque v \<Rightarrow> v = name)"
| "matches is_match cidr_contains (Transport kind) request = (req_transport request = kind)"
| "matches is_match cidr_contains (ReverseListener expected) request =
    (req_transport request = ReverseTcp \<and> req_listener request = expected)"

subsection \<open>Port sets\<close>

lemma bs_loop_finds:
  assumes "sorted xs" "base + sz \<le> length xs" "0 < sz"
  shows "bs_loop xs x base sz < length xs \<and>
    ((\<exists>i. base \<le> i \<and> i < base + sz \<and> xs ! i = x) \<longrightarrow> xs ! bs_loop xs x base sz = x)"
  using assms
proof (induction xs x base sz rule: bs_loop.induct)
  case (1 xs x base sz)
  show ?case
  proof (cases "1 < sz")
    case False
    with "1.prems" have "sz = 1" by simp
    then show ?thesis
      using "1.prems" bs_loop.simps [of xs x base sz] by (auto simp: less_Suc_eq_le)
  next
    case True
    define mid where "mid = base + sz div 2"
    define b where "b = (if xs ! mid > x then base else mid)"
    have eq: "bs_loop xs x base sz = bs_loop xs x b (sz - sz div 2)"
      using True bs_loop.simps [of xs x base sz] by (simp add: b_def mid_def Let_def)
    have bd: "b + (sz - sz div 2) \<le> length xs" "0 < sz - sz div 2" "mid < length xs"
      using "1.prems" True by (auto simp: b_def mid_def)
    have IH: "bs_loop xs x b (sz - sz div 2) < length xs \<and>
      ((\<exists>i. b \<le> i \<and> i < b + (sz - sz div 2) \<and> xs ! i = x) \<longrightarrow> xs ! bs_loop xs x b (sz - sz div 2) = x)"
      using "1.IH" [OF True refl refl] "1.prems"(1) bd unfolding b_def mid_def by blast
    have "\<exists>j. b \<le> j \<and> j < b + (sz - sz div 2) \<and> xs ! j = x"
      if i: "base \<le> i" "i < base + sz" "xs ! i = x" for i
    proof (cases "xs ! mid > x")
      case True
      then have "\<not> mid \<le> i"
        using i(3) sorted_nth_mono [OF "1.prems"(1), of mid i] i(2) "1.prems"(2) by fastforce
      then show ?thesis using i True by (intro exI [of _ i]) (auto simp: b_def mid_def)
    next
      case F: False
      show ?thesis
      proof (cases "mid \<le> i")
        case True
        then show ?thesis using i F by (intro exI [of _ i]) (auto simp: b_def mid_def)
      next
        case False
        then have "x \<le> xs ! mid"
          using i(3) sorted_nth_mono [OF "1.prems"(1), of i mid] bd(3) by simp
        then show ?thesis using F bd(2) by (intro exI [of _ mid]) (auto simp: b_def)
      qed
    qed
    with IH eq show ?thesis by auto
  qed
qed

lemma binary_search_is_ok_iff: "sorted xs \<Longrightarrow> binary_search_is_ok xs x \<longleftrightarrow> x \<in> set xs"
proof (cases "xs = []")
  case False
  assume "sorted xs"
  from bs_loop_finds [OF this, of 0 "length xs" x] False
  have "bs_loop xs x 0 (length xs) < length xs"
    "(\<exists>i < length xs. xs ! i = x) \<longrightarrow> xs ! bs_loop xs x 0 (length xs) = x" by auto
  with False show ?thesis by (auto simp: binary_search_is_ok_def in_set_conv_nth)
qed (simp add: binary_search_is_ok_def)

text \<open>
  Port sets. The matcher built by \<^verbatim>\<open>PortMatcher::new_set\<close> from any list of ports, in any
  order and with repetitions, matches a port exactly when the list contains it: sorting and
  deduplicating establish what the standard library's binary search needs.
\<close>

lemma new_set_matches_iff: "PortMatcher_matches (new_set ports) p \<longleftrightarrow> p \<in> set ports"
  by (simp add: new_set_def binary_search_is_ok_iff sorted_remdups_adj)

subsection \<open>Domain suffixes\<close>

lemma utf8_cont_not_ascii: "utf8_cont b \<Longrightarrow> \<not> b < 0x80"
  by (simp add: utf8_cont_def word_le_nat_alt word_less_nat_alt)

lemma utf8_second_not_ascii: "utf8_second b c \<Longrightarrow> \<not> c < 0x80"
  by (simp add: utf8_second_def utf8_cont_def word_le_nat_alt word_less_nat_alt split: if_splits)

text \<open>The first character of valid text, as the bytes \<open>u\<close> after its lead byte.\<close>

lemma utf8_valid_ConsE:
  assumes "utf8_valid (b # bs)"
  obtains u rest where "bs = u @ rest" "utf8_valid rest" "\<forall>c \<in> set u. \<not> c < 0x80" "utf8_valid (b # u)"
proof (cases "b < 0x80")
  case True
  with assms that [of "[]" bs] show ?thesis by simp
next
  case nz: False
  show ?thesis
  proof (cases "utf8_lead2 b")
    case True
    with assms nz obtain c r where "bs = c # r" "utf8_cont c" "utf8_valid r"
      by (cases bs) auto
    with True nz that [of "[c]" r] show ?thesis by (simp add: utf8_cont_not_ascii)
  next
    case n2: False
    show ?thesis
    proof (cases "utf8_lead3 b")
      case True
      with assms nz n2 obtain c d r where "bs = c # d # r" "utf8_second b c" "utf8_cont d" "utf8_valid r"
        by (cases bs; cases "tl bs") auto
      with True nz n2 that [of "[c, d]" r] show ?thesis
        by (simp add: utf8_cont_not_ascii utf8_second_not_ascii)
    next
      case n3: False
      with assms nz n2 have l4: "utf8_lead4 b" by (auto split: if_splits)
      with assms nz n2 n3 obtain c d e r where "bs = c # d # e # r" "utf8_second b c" "utf8_cont d"
          "utf8_cont e" "utf8_valid r"
        by (cases bs; cases "tl bs"; cases "tl (tl bs)") auto
      with l4 nz n2 n3 that [of "[c, d, e]" r] show ?thesis
        by (simp add: utf8_cont_not_ascii utf8_second_not_ascii)
    qed
  qed
qed

text \<open>Valid text splits at every ASCII character.\<close>

lemma utf8_valid_split_ascii:
  "utf8_valid (pre @ a # post) \<Longrightarrow> a < 0x80 \<Longrightarrow> utf8_valid pre \<and> utf8_valid post"
proof (induction "length pre" arbitrary: pre rule: less_induct)
  case less
  show ?case
  proof (cases pre)
    case Nil
    with less.prems show ?thesis by simp
  next
    case (Cons b pre')
    with less.prems obtain u rest where u: "pre' @ a # post = u @ rest" "utf8_valid rest"
        "\<forall>c \<in> set u. \<not> c < 0x80" "utf8_valid (b # u)"
      using utf8_valid_ConsE [of b "pre' @ a # post"] by auto
    from u(1,3) less.prems(2) obtain pre2 where p: "pre' = u @ pre2" "rest = pre2 @ a # post"
      by (auto simp: append_eq_append_conv2 Cons_eq_append_conv)
    with less.hyps [of pre2] u(2) less.prems(2) Cons have "utf8_valid pre2 \<and> utf8_valid post" by simp
    with utf8_valid_append [OF u(4), of pre2] show ?thesis by (simp add: Cons p)
  qed
qed

lemma wf_str_split_dot: "wf_str (s @ CHR ''.'' # t) \<Longrightarrow> wf_str s \<and> wf_str t"
  unfolding wf_str_def as_bytes_append
  using utf8_valid_split_ascii [of "as_bytes s" "byte_of_char CHR ''.''" "as_bytes t"]
  by (simp add: as_bytes_def byte_of_char_def)

lemma wf_str_strip [simp]: "wf_str s \<Longrightarrow> wf_str (strip_suffix_char CHR ''.'' s)"
  using wf_str_split_dot [of "butlast s" "[]"]
  by (auto simp: strip_suffix_char_def) (metis append_butlast_last_id)

lemma wf_str_boundary: "wf_str (s @ t) \<Longrightarrow> wf_str t \<Longrightarrow> is_char_boundary (s @ t) (length s)"
proof (cases t)
  case (Cons c t')
  assume "wf_str t"
  then have "\<not> utf8_cont (byte_of_char c)"
    using utf8_valid_hd [of "byte_of_char c" "as_bytes t'"] by (simp add: Cons wf_str_def as_bytes_def)
  then show ?thesis by (simp add: Cons is_char_boundary_def as_bytes_def nth_append)
qed (simp add: is_char_boundary_def)

text \<open>Label-wise suffix: the whole host, or what follows one of its dots.\<close>

definition label_suffix :: "string \<Rightarrow> string \<Rightarrow> bool" where
  "label_suffix h suffix \<longleftrightarrow>
    eq_ignore_ascii_case h suffix \<or>
    (\<exists>pre post. h = pre @ CHR ''.'' # post \<and> eq_ignore_ascii_case post suffix)"

lemma eq_ignore_ascii_case_length: "eq_ignore_ascii_case s t \<Longrightarrow> length s = length t"
  by (metis eq_ignore_ascii_case_def length_to_ascii_lowercase)

lemma ends_with_dot: "ends_with ''.'' s \<longleftrightarrow> (\<exists>pre. s = pre @ ''.'')"
proof
  assume "ends_with ''.'' s"
  then show "\<exists>pre. s = pre @ ''.''"
    unfolding ends_with_def by (metis append_take_drop_id)
qed (auto simp: ends_with_def)

text \<open>
  Domain suffixes match on label boundaries only. For a host and a suffix that are valid
  strings, \<^verbatim>\<open>host_matches_suffix\<close> holds exactly when, after dropping one trailing dot of each,
  the host equals the suffix up to ASCII case or ends in a dot followed by it. In particular the
  char-boundary test of the slices never rejects a genuine match.
\<close>

lemma host_matches_suffix_iff:
  assumes "wf_str hst"
  shows "host_matches_suffix hst suff \<longleftrightarrow>
    label_suffix (strip_suffix_char CHR ''.'' hst) (strip_suffix_char CHR ''.'' suff)"
proof -
  define h where "h = strip_suffix_char CHR ''.'' hst"
  define suffix where "suffix = strip_suffix_char CHR ''.'' suff"
  have wf: "wf_str h" using assms by (simp add: h_def)
  let ?n = "length h - length suffix"
  have tail: "is_char_boundary h ?n \<and> ends_with ''.'' (take ?n h) \<and> eq_ignore_ascii_case (drop ?n h) suffix"
    if "h = pre @ CHR ''.'' # post" "eq_ignore_ascii_case post suffix" for pre post
  proof -
    have n: "?n = Suc (length pre)" using that eq_ignore_ascii_case_length [OF that(2)] by simp
    have "is_char_boundary ((pre @ ''.'') @ post) (length (pre @ ''.''))"
      using wf wf_str_split_dot [of pre post] by (intro wf_str_boundary) (simp_all add: that)
    then show ?thesis
      using that n by (simp add: ends_with_dot)
  qed
  have "host_matches_suffix hst suff \<longleftrightarrow> label_suffix h suffix"
  proof (cases "eq_ignore_ascii_case h suffix \<or> length h \<le> length suffix")
    case True
    then show ?thesis
      using tail by (auto simp: host_matches_suffix_def label_suffix_def h_def [symmetric]
          suffix_def [symmetric] Let_def dest: eq_ignore_ascii_case_length)
  next
    case False
    have "label_suffix h suffix" if e: "ends_with ''.'' (take ?n h)" "eq_ignore_ascii_case (drop ?n h) suffix"
    proof -
      from e(1) obtain pre where "take ?n h = pre @ ''.''" by (auto simp: ends_with_dot)
      then have "h = pre @ CHR ''.'' # drop ?n h"
        by (metis append.assoc append_Cons append_Nil append_take_drop_id)
      with e(2) show ?thesis unfolding label_suffix_def by blast
    qed
    moreover have "is_char_boundary h ?n \<and> ends_with ''.'' (take ?n h) \<and> eq_ignore_ascii_case (drop ?n h) suffix"
      if "label_suffix h suffix"
      using that False tail unfolding label_suffix_def by blast
    ultimately show ?thesis
      using False by (auto simp: host_matches_suffix_def h_def [symmetric] suffix_def [symmetric] Let_def)
  qed
  then show ?thesis by (simp add: h_def suffix_def)
qed

lemma host_matches_suffix_iff_witness:
  "host_matches_suffix ''API.Example.com.'' ''example.com'' \<and>
   \<not> host_matches_suffix ''evilexample.com'' ''example.com''"
proof -
  have "wf_str ''API.Example.com.''" by code_simp
  from host_matches_suffix_iff [OF this, of "''example.com''"]
  have "host_matches_suffix ''API.Example.com.'' ''example.com'' \<longleftrightarrow>
    label_suffix ''API.Example.com'' ''example.com''" by (simp add: strip_suffix_char_def)
  moreover have "label_suffix ''API.Example.com'' ''example.com''"
    unfolding label_suffix_def
    by (intro disjI2 exI [of _ "''API''"] exI [of _ "''Example.com''"]) code_simp
  moreover have "\<not> host_matches_suffix ''evilexample.com'' ''example.com''" by code_simp
  ultimately show ?thesis by blast
qed

subsection \<open>Port texts\<close>

lemma rev_port_digits: "rev (port_digits n) = as_bytes (show_nat n)"
proof (induction n rule: port_digits.induct)
  case (1 n)
  have d: "byte_of_char (digit_char (n mod 10)) = 0x30 + word_of_nat (n mod 10)"
    by (simp add: digit_char_def byte_of_char_def)
  show ?case
  proof (cases "n < 10")
    case True
    with d show ?thesis by (simp add: port_digits.simps [of n] show_radix.simps [of 10 n] as_bytes_def)
  next
    case False
    then have "n div 10 \<noteq> 0" by simp
    with 1 False d show ?thesis
      by (simp add: port_digits.simps [of n] show_radix.simps [of 10 n] as_bytes_def)
  qed
qed

lemma length_port_digits: "length (port_digits n) = length (show_nat n)"
  using arg_cong [OF rev_port_digits, of length] by simp

lemma length_show_nat:
  "0 < k \<Longrightarrow> length (show_nat n) \<le> k \<longleftrightarrow> n < 10 ^ k"
proof (induction k arbitrary: n)
  case (Suc k)
  show ?case
  proof (cases "n < 10")
    case True
    moreover have "10 \<le> (10 :: nat) ^ Suc k" by simp
    ultimately have "n < 10 ^ Suc k" by linarith
    with True show ?thesis by (simp add: show_radix.simps [of 10 n])
  next
    case False
    then have len: "length (show_nat n) = Suc (length (show_nat (n div 10)))"
      by (simp add: show_radix.simps [of 10 n])
    show ?thesis
    proof (cases k)
      case 0
      then show ?thesis using False len by (simp add: Suc_le_eq)
    next
      case (Suc j)
      then have "length (show_nat (n div 10)) \<le> k \<longleftrightarrow> n div 10 < 10 ^ k" using Suc.IH by simp
      also have "\<dots> \<longleftrightarrow> n < 10 ^ Suc k" by (simp add: div_less_iff_less_mult mult.commute)
      finally show ?thesis using len by simp
    qed
  qed
qed simp

lemma length_show_u16: "length (show_nat (unat (p :: u16))) \<le> 5"
  using length_show_nat [of 5 "unat p"] unat_u16_less [of p] by simp

lemma show_nat_ascii: "wf_str (show_nat n)"
proof (rule wf_str_ascii, rule ballI)
  fix c assume "c \<in> set (show_nat n)"
  then obtain d where "d < 10" "c = digit_char d" using set_show_radix [of 10 c n] by auto
  then show "is_ascii_char c" by (simp add: is_ascii_char_def digit_char_def)
qed

lemma write_bytes_eq:
  "write_bytes n written bs =
    (if bs \<noteq> [] \<and> n < length written + length bs then Panic else Return (written @ bs))"
  by (induction n written bs rule: write_bytes.induct) auto

text \<open>
  The port text used by port regular expressions. For every port \<^verbatim>\<open>fmt_port\<close> returns its
  ordinary decimal text: the five-byte buffers are large enough, no index is out of bounds, and
  the bytes are valid text.
\<close>

lemma fmt_port_correct: "fmt_port p = Return (Some (show_nat (unat p)))"
  using length_show_u16 [of p]
  by (simp add: fmt_port_def write_bytes_eq Let_def length_port_digits rev_port_digits show_nat_ascii)

lemma wf_str_host_port: "wf_str h \<Longrightarrow> wf_str (h @ '':'' @ show_nat n)"
  by (intro wf_str_append show_nat_ascii) (auto intro: wf_str_ascii simp: is_ascii_char_def)

text \<open>
  C25: compatibility rules see \<open>host:port\<close>, with one exception. For a valid host name
  \<^verbatim>\<open>CompatRegexRule::matches\<close> applies the expression to the host, a colon and the decimal port,
  except when the host has exactly 315 bytes and the port has five digits: the size check of
  \<^verbatim>\<open>fmt_target\<close> leaves out the colon, and the last digit is written outside the 320-byte buffer,
  which panics.
\<close>

theorem compat_rule_matches_or_panics:
  assumes "wf_str hostname"
  shows "CompatRegexRule_matches is_match re hostname p =
    (if length hostname = 315 \<and> 10000 \<le> unat p then Panic
     else Return (is_match re (hostname @ '':'' @ show_nat (unat p))))"
proof -
  let ?t = "show_nat (unat p)"
  have digits: "(if p = 0 then [0x30] else rev (port_digits (unat p))) = as_bytes ?t"
    by (auto simp: rev_port_digits show_radix.simps as_bytes_def digit_char_def byte_of_char_def)
  have colon: "[0x3A] = as_bytes '':''" by (simp add: as_bytes_def byte_of_char_def)
  have five: "length ?t = 5 \<longleftrightarrow> 10000 \<le> unat p"
    using length_show_u16 [of p] length_show_nat [of 4 "unat p"] by auto
  have pos: "0 < length ?t" by simp
  have u: "from_utf8 (as_bytes hostname @ as_bytes '':'' @ as_bytes ?t) = Some (hostname @ '':'' @ ?t)"
    by (rule from_utf8_as_bytes [OF wf_str_host_port [OF assms], unfolded as_bytes_append])
  show ?thesis
    using pos five length_show_u16 [of p] u
    unfolding CompatRegexRule_matches_def fmt_target_def Let_def digits colon write_bytes_eq
    by (auto simp del: show_radix_not_Nil)
qed

theorem compat_rule_matches_or_panics_witness:
  "CompatRegexRule_matches (=) ''a:65535'' (replicate 315 CHR ''a'') 65535 = Panic \<and>
   CompatRegexRule_matches (=) ''a:65535'' ''a'' 65535 = Return True"
proof -
  have w: "wf_str (replicate n CHR ''a'')" for n
    by (rule wf_str_ascii) (simp add: is_ascii_char_def)
  have s: "''a'' @ '':'' @ show_nat (unat (65535 :: u16)) = ''a:65535''"
    by (simp add: show_radix.simps digit_char_def char_of_eq_iff take_bit_eq_mod)
  have n: "10000 \<le> unat (65535 :: u16)" by simp
  have 1: "CompatRegexRule_matches (=) ''a:65535'' (replicate 315 CHR ''a'') 65535 = Panic"
    unfolding compat_rule_matches_or_panics [OF w] length_replicate using n by (simp only: simp_thms if_True)
  have "wf_str ''a''" using w [of 1] by simp
  from compat_rule_matches_or_panics [OF this, of "(=)" "''a:65535''" 65535]
  have 2: "CompatRegexRule_matches (=) ''a:65535'' ''a'' 65535 = Return True"
    unfolding s by simp
  from 1 2 show ?thesis by (rule conjI)
qed

end
