(* ===== verification/Health.thy ===== *)
theory Health
  imports Eggress_Prelude Net_Addr
begin

text \<open>
  The health state machine of \<^verbatim>\<open>crates/eggress-routing/src/health.rs\<close>: the snapshot behind the
  write lock, its lock-free published state, and the transitions on probe results. Writers hold
  the lock for a whole observation, so a history of a cell is a sequence of observations.
  Results: the published state is always the one of the snapshot, and the state after any
  history is characterised by its trailing run of successes or failures and the two thresholds.
\<close>

subsection \<open>State\<close>

datatype health_state = Unknown | Healthy | Suspect | Unhealthy | Recovering | Disabled

record health_snapshot =
  snap_state :: health_state
  consecutive_successes :: u32
  consecutive_failures :: u32
  last_checked_at :: "nanos option"
  last_success_at :: "nanos option"
  last_failure_at :: "nanos option"
  last_latency :: "nanos option"
  last_error :: "string option"

record health_config =
  interval :: nanos
  probe_timeout :: nanos
  failures_to_unhealthy :: u32
  successes_to_healthy :: u32
  initial_state :: health_state

definition HealthConfig_default :: health_config where
  "HealthConfig_default =
    \<lparr>interval = 30 * 10 ^ 9, probe_timeout = 5 * 10 ^ 9, failures_to_unhealthy = 3,
     successes_to_healthy = 2, initial_state = Unknown\<rparr>"

text \<open>\<^verbatim>\<open>HealthCell\<close>: the locked snapshot and the atomic.\<close>

record health_cell =
  cell_inner :: health_snapshot
  cell_state :: u8

fun encode_state :: "health_state \<Rightarrow> u8" where
  "encode_state Unknown = 0"
| "encode_state Healthy = 1"
| "encode_state Suspect = 2"
| "encode_state Unhealthy = 3"
| "encode_state Recovering = 4"
| "encode_state Disabled = 5"

definition decode_state :: "u8 \<Rightarrow> health_state" where
  "decode_state v =
    (if v = 0 then Unknown else if v = 1 then Healthy else if v = 2 then Suspect
     else if v = 3 then Unhealthy else if v = 4 then Recovering else if v = 5 then Disabled
     else Unknown)"

subsection \<open>Operations\<close>

definition HealthCell_new :: "health_state \<Rightarrow> health_cell" where
  "HealthCell_new initial =
    \<lparr>cell_inner =
       \<lparr>snap_state = initial, consecutive_successes = 0, consecutive_failures = 0,
        last_checked_at = None, last_success_at = None, last_failure_at = None,
        last_latency = None, last_error = None\<rparr>,
     cell_state = encode_state initial\<rparr>"

definition HealthCell_snapshot :: "health_cell \<Rightarrow> health_snapshot" where
  "HealthCell_snapshot c = cell_inner c"

definition HealthCell_state :: "health_cell \<Rightarrow> health_state" where
  "HealthCell_state c = decode_state (cell_state c)"

fun success_transition :: "u32 \<Rightarrow> health_config \<Rightarrow> health_state \<Rightarrow> health_state" where
  "success_transition n config Disabled = Disabled"
| "success_transition n config Unhealthy = Recovering"
| "success_transition n config Recovering =
    (if successes_to_healthy config \<le> n then Healthy else Recovering)"
| "success_transition n config Suspect =
    (if successes_to_healthy config \<le> n then Healthy else Suspect)"
| "success_transition n config Unknown =
    (if successes_to_healthy config \<le> n then Healthy else Unknown)"
| "success_transition n config Healthy = Healthy"

fun failure_transition :: "u32 \<Rightarrow> health_config \<Rightarrow> health_state \<Rightarrow> health_state" where
  "failure_transition n config Disabled = Disabled"
| "failure_transition n config Unhealthy = Unhealthy"
| "failure_transition n config Recovering =
    (if failures_to_unhealthy config \<le> n then Unhealthy else Recovering)"
| "failure_transition n config Healthy =
    (if failures_to_unhealthy config \<le> n then Unhealthy else Suspect)"
| "failure_transition n config Suspect =
    (if failures_to_unhealthy config \<le> n then Unhealthy else Suspect)"
| "failure_transition n config Unknown =
    (if failures_to_unhealthy config \<le> n then Unhealthy else Suspect)"

definition observe_success :: "nanos \<Rightarrow> nanos \<Rightarrow> health_config \<Rightarrow> health_cell \<Rightarrow> health_cell" where
  "observe_success now latency config cell =
    (let snap = cell_inner cell;
         n = saturating_inc (consecutive_successes snap);
         snap' = snap\<lparr>consecutive_successes := n, consecutive_failures := 0,
                      last_checked_at := Some now, last_success_at := Some now,
                      last_latency := Some latency, last_error := None,
                      snap_state := success_transition n config (snap_state snap)\<rparr>
     in \<lparr>cell_inner = snap', cell_state = encode_state (snap_state snap')\<rparr>)"

definition observe_failure ::
  "nanos \<Rightarrow> string option \<Rightarrow> health_config \<Rightarrow> health_cell \<Rightarrow> health_cell" where
  "observe_failure now err config cell =
    (let snap = cell_inner cell;
         n = saturating_inc (consecutive_failures snap);
         snap' = snap\<lparr>consecutive_failures := n, consecutive_successes := 0,
                      last_checked_at := Some now, last_failure_at := Some now,
                      last_latency := None, last_error := err,
                      snap_state := failure_transition n config (snap_state snap)\<rparr>
     in \<lparr>cell_inner = snap', cell_state = encode_state (snap_state snap')\<rparr>)"

subsection \<open>Probes\<close>

datatype health_probe = TcpConnect socket_addr nanos

record probe_result =
  probe_success :: bool
  probe_latency :: nanos
  probe_error :: "string option"

text \<open>What \<^verbatim>\<open>timeout(d, TcpStream::connect(target))\<close> gives.\<close>

datatype connect_outcome = Connected | ConnectFailed string | ConnectTimeout

definition probe_tcp :: "connect_outcome \<Rightarrow> nanos \<Rightarrow> probe_result" where
  "probe_tcp outcome latency =
    (case outcome of
       Connected \<Rightarrow> \<lparr>probe_success = True, probe_latency = latency, probe_error = None\<rparr>
     | ConnectFailed e \<Rightarrow> \<lparr>probe_success = False, probe_latency = latency, probe_error = Some e\<rparr>
     | ConnectTimeout \<Rightarrow>
         \<lparr>probe_success = False, probe_latency = latency, probe_error = Some ''timeout''\<rparr>)"

text \<open>One completed iteration of the probe task: the result is applied to the cell.\<close>

definition apply_probe :: "health_config \<Rightarrow> nanos \<times> probe_result \<Rightarrow> health_cell \<Rightarrow> health_cell" where
  "apply_probe config obs cell =
    (let (now, result) = obs in
     if probe_success result then observe_success now (probe_latency result) config cell
     else observe_failure now (probe_error result) config cell)"

text \<open>The cell after a history of probe results, oldest first.\<close>

definition run_probes ::
  "health_config \<Rightarrow> health_state \<Rightarrow> (nanos \<times> probe_result) list \<Rightarrow> health_cell" where
  "run_probes config initial obs = fold (apply_probe config) obs (HealthCell_new initial)"

definition trailing_failures :: "(nanos \<times> probe_result) list \<Rightarrow> nat" where
  "trailing_failures obs = length (takeWhile (\<lambda>(_, r). \<not> probe_success r) (rev obs))"

definition trailing_successes :: "(nanos \<times> probe_result) list \<Rightarrow> nat" where
  "trailing_successes obs = length (takeWhile (\<lambda>(_, r). probe_success r) (rev obs))"

subsection \<open>Facts about the transitions\<close>

lemma decode_encode_state [simp]: "decode_state (encode_state s) = s"
  by (cases s) (simp_all add: decode_state_def)

lemma apply_probe_inner:
  "snap_state (cell_inner (apply_probe config (now, r) cell)) =
    (if probe_success r
     then success_transition (saturating_inc (consecutive_successes (cell_inner cell))) config
            (snap_state (cell_inner cell))
     else failure_transition (saturating_inc (consecutive_failures (cell_inner cell))) config
            (snap_state (cell_inner cell)))"
  "consecutive_successes (cell_inner (apply_probe config (now, r) cell)) =
    (if probe_success r then saturating_inc (consecutive_successes (cell_inner cell)) else 0)"
  "consecutive_failures (cell_inner (apply_probe config (now, r) cell)) =
    (if probe_success r then 0 else saturating_inc (consecutive_failures (cell_inner cell)))"
  by (simp_all add: apply_probe_def observe_success_def observe_failure_def Let_def)

lemma apply_probe_published [simp]:
  "HealthCell_state (apply_probe config obs cell) = snap_state (cell_inner (apply_probe config obs cell))"
  by (cases obs)
    (simp add: apply_probe_def observe_success_def observe_failure_def HealthCell_state_def Let_def)

lemma success_never_unhealthy [simp]: "success_transition n config s \<noteq> Unhealthy"
  by (cases s) auto

lemma success_confirms:
  "successes_to_healthy config \<le> n \<Longrightarrow> s \<noteq> Unhealthy \<Longrightarrow> s \<noteq> Disabled \<Longrightarrow>
   success_transition n config s = Healthy"
  by (cases s) auto

lemma failure_transition_unhealthy_iff:
  "s \<noteq> Disabled \<Longrightarrow>
   failure_transition n config s = Unhealthy \<longleftrightarrow> s = Unhealthy \<or> failures_to_unhealthy config \<le> n"
  by (cases s) auto

lemma transition_disabled_iff [simp]:
  "success_transition n config s = Disabled \<longleftrightarrow> s = Disabled"
  "failure_transition n config s = Disabled \<longleftrightarrow> s = Disabled"
  by (cases s; simp)+

lemma run_probes_snoc [simp]:
  "run_probes config initial (obs @ [x]) = apply_probe config x (run_probes config initial obs)"
  by (simp add: run_probes_def)

lemma run_probes_Nil [simp]: "run_probes config initial [] = HealthCell_new initial"
  by (simp add: run_probes_def)

lemma trailing_simps [simp]:
  "trailing_failures [] = 0" "trailing_successes [] = 0"
  "trailing_failures (obs @ [(t, r)]) = (if probe_success r then 0 else Suc (trailing_failures obs))"
  "trailing_successes (obs @ [(t, r)]) = (if probe_success r then Suc (trailing_successes obs) else 0)"
  by (simp_all add: trailing_failures_def trailing_successes_def)

subsection \<open>Reachable cells\<close>

text \<open>
  The cells a deployment can reach: created in some state, then changed only by the two
  observations (in any order, at any times).
\<close>

inductive health_reachable :: "health_config \<Rightarrow> health_cell \<Rightarrow> bool" for config where
  created: "health_reachable config (HealthCell_new initial)"
| succeeded: "health_reachable config cell \<Longrightarrow>
    health_reachable config (observe_success now latency config cell)"
| failed: "health_reachable config cell \<Longrightarrow>
    health_reachable config (observe_failure now err config cell)"

inductive_cases health_reachableE: "health_reachable config cell"

definition health_cell_inv :: "health_cell \<Rightarrow> bool" where
  "health_cell_inv cell \<longleftrightarrow>
    cell_state cell = encode_state (snap_state (cell_inner cell)) \<and>
    (consecutive_successes (cell_inner cell) = 0 \<or> consecutive_failures (cell_inner cell) = 0)"

lemma health_cell_inv_ops [simp]:
  "health_cell_inv (HealthCell_new initial)"
  "health_cell_inv (observe_success now latency config cell)"
  "health_cell_inv (observe_failure now err config cell)"
  by (simp_all add: health_cell_inv_def HealthCell_new_def observe_success_def observe_failure_def
      Let_def)

text \<open>
  The lock-free state never disagrees with the snapshot. For every cell that can be reached
  by creation and any sequence of observations, decoding the published byte gives the state of
  the locked snapshot, and the success and failure counters are never both positive.
\<close>

lemma health_published_consistent:
  assumes "health_reachable config cell"
  shows "HealthCell_state cell = snap_state (HealthCell_snapshot cell) \<and>
    (consecutive_successes (HealthCell_snapshot cell) = 0 \<or>
     consecutive_failures (HealthCell_snapshot cell) = 0)"
proof -
  from assms have "health_cell_inv cell"
    by (induction rule: health_reachable.induct) simp_all
  then show ?thesis
    by (simp add: health_cell_inv_def HealthCell_state_def HealthCell_snapshot_def)
qed

lemma health_published_consistent_witness:
  "HealthCell_state (observe_failure 7 None HealthConfig_default (HealthCell_new Unknown)) = Suspect"
proof -
  let ?c = "observe_failure 7 None HealthConfig_default (HealthCell_new Unknown)"
  have "health_reachable HealthConfig_default ?c"
    by (intro health_reachable.intros)
  from health_published_consistent [OF this] show ?thesis
    by (simp add: HealthCell_snapshot_def observe_failure_def HealthCell_new_def
        HealthConfig_default_def Let_def saturating_inc_def word_le_nat_alt)
qed

subsection \<open>What a history leads to\<close>

lemma unat_inc_min:
  "unat n = min k (2 ^ 32 - 1) \<Longrightarrow> unat (saturating_inc n) = min (Suc k) (2 ^ 32 - 1)"
  by (simp add: unat_saturating_inc min_def)

lemma counter_reaches:
  "unat (n :: u32) = min k (2 ^ 32 - 1) \<Longrightarrow> (t \<le> n) = (unat t \<le> k)"
  using unsigned_less [of t, where ?'a = nat]
  by (auto simp: word_le_nat_alt)

text \<open>The counters are the lengths of the trailing runs, saturated at their width.\<close>

lemma run_probes_counters:
  "unat (consecutive_failures (cell_inner (run_probes config initial obs))) =
     min (trailing_failures obs) (2 ^ 32 - 1) \<and>
   unat (consecutive_successes (cell_inner (run_probes config initial obs))) =
     min (trailing_successes obs) (2 ^ 32 - 1)"
proof (induction obs rule: rev_induct)
  case Nil
  show ?case by (simp add: HealthCell_new_def)
next
  case (snoc x obs)
  show ?case
    by (cases x) (simp add: apply_probe_inner unat_inc_min [OF snoc [THEN conjunct1]]
        unat_inc_min [OF snoc [THEN conjunct2]])
qed

lemma run_probes_disabled_iff:
  "snap_state (cell_inner (run_probes config initial obs)) = Disabled \<longleftrightarrow> initial = Disabled"
proof (induction obs rule: rev_induct)
  case Nil
  show ?case by (simp add: HealthCell_new_def)
next
  case (snoc x obs)
  then show ?case by (cases x) (simp add: apply_probe_inner)
qed

lemma run_probes_unhealthy_iff:
  assumes "initial \<noteq> Unhealthy" "initial \<noteq> Disabled"
  shows "snap_state (cell_inner (run_probes config initial obs)) = Unhealthy \<longleftrightarrow>
    max 1 (unat (failures_to_unhealthy config)) \<le> trailing_failures obs"
proof (induction obs rule: rev_induct)
  case Nil
  show ?case using assms by (simp add: HealthCell_new_def)
next
  case (snoc x obs)
  obtain t r where x: "x = (t, r)" by (cases x)
  let ?s = "cell_inner (run_probes config initial obs)"
  have nd: "snap_state ?s \<noteq> Disabled"
    using assms by (simp add: run_probes_disabled_iff)
  have "(failures_to_unhealthy config \<le> saturating_inc (consecutive_failures ?s)) =
      (unat (failures_to_unhealthy config) \<le> Suc (trailing_failures obs))"
    by (rule counter_reaches [OF unat_inc_min [OF run_probes_counters [THEN conjunct1]]])
  then show ?case
    by (auto simp: x apply_probe_inner failure_transition_unhealthy_iff [OF nd] snoc)
qed

text \<open>
  C26: when an upstream is taken out of rotation. Starting from any state other than
  \<open>Unhealthy\<close> and \<open>Disabled\<close>, after any history of probe results the published state is
  \<open>Unhealthy\<close> exactly when the history ends in at least \<^verbatim>\<open>failures_to_unhealthy\<close> consecutive
  failures (at least one when the threshold is zero). A single success always takes the
  upstream out of that state, no shorter run of failures puts it there, and counter saturation
  does not change the answer.
\<close>

theorem unhealthy_iff_trailing_failures:
  assumes "initial \<noteq> Unhealthy" "initial \<noteq> Disabled"
  shows "HealthCell_state (run_probes config initial obs) = Unhealthy \<longleftrightarrow>
    max 1 (unat (failures_to_unhealthy config)) \<le> trailing_failures obs"
proof -
  have "HealthCell_state (run_probes config initial obs) =
      snap_state (cell_inner (run_probes config initial obs))"
    by (cases obs rule: rev_cases) (simp, simp add: HealthCell_new_def HealthCell_state_def, simp)
  with run_probes_unhealthy_iff [OF assms] show ?thesis by simp
qed

definition probe_ok :: "nanos \<times> probe_result" where
  "probe_ok = (1, probe_tcp Connected 5)"

definition probe_down :: "nanos \<times> probe_result" where
  "probe_down = (2, probe_tcp ConnectTimeout 9)"

theorem unhealthy_iff_trailing_failures_witness:
  "HealthCell_state (run_probes HealthConfig_default Unknown
     [probe_down, probe_down, probe_ok, probe_down, probe_down, probe_down]) = Unhealthy \<and>
   HealthCell_state (run_probes HealthConfig_default Unknown
     [probe_down, probe_down, probe_ok, probe_down, probe_down]) \<noteq> Unhealthy"
  using unhealthy_iff_trailing_failures [of Unknown HealthConfig_default
      "[probe_down, probe_down, probe_ok, probe_down, probe_down, probe_down]"]
    unhealthy_iff_trailing_failures [of Unknown HealthConfig_default
      "[probe_down, probe_down, probe_ok, probe_down, probe_down]"]
  by (simp add: HealthConfig_default_def trailing_failures_def probe_ok_def probe_down_def probe_tcp_def)

lemma run_probes_success_state:
  assumes "initial \<noteq> Disabled" "0 < trailing_successes obs"
  shows "snap_state (cell_inner (run_probes config initial obs)) \<noteq> Unhealthy"
  using assms(2) by (cases obs rule: rev_cases) (auto simp: apply_probe_inner split: if_splits)

text \<open>
  Recovery. From every initial state except \<open>Disabled\<close>, a history that ends in at least
  two and at least \<^verbatim>\<open>successes_to_healthy\<close> consecutive successes leads to \<open>Healthy\<close>, whatever
  happened before: an \<open>Unhealthy\<close> upstream first becomes \<open>Recovering\<close> and then \<open>Healthy\<close>.
\<close>

lemma recovers_after_trailing_successes:
  assumes "initial \<noteq> Disabled" "max 2 (unat (successes_to_healthy config)) \<le> trailing_successes obs"
  shows "HealthCell_state (run_probes config initial obs) = Healthy"
proof (cases obs rule: rev_cases)
  case Nil
  with assms(2) show ?thesis by simp
next
  case (snoc before x)
  obtain t r where x: "x = (t, r)" by (cases x)
  from assms(2) have r: "probe_success r" and k: "0 < trailing_successes before"
      "unat (successes_to_healthy config) \<le> Suc (trailing_successes before)"
    by (auto simp: snoc x split: if_splits)
  let ?s = "cell_inner (run_probes config initial before)"
  have "(successes_to_healthy config \<le> saturating_inc (consecutive_successes ?s)) =
      (unat (successes_to_healthy config) \<le> Suc (trailing_successes before))"
    by (rule counter_reaches [OF unat_inc_min [OF run_probes_counters [THEN conjunct2]]])
  with k(2) have "successes_to_healthy config \<le> saturating_inc (consecutive_successes ?s)" by simp
  then show ?thesis
    using run_probes_success_state [OF assms(1) k(1)] assms(1) r
    by (simp add: snoc x apply_probe_inner success_confirms run_probes_disabled_iff)
qed

lemma recovers_after_trailing_successes_witness:
  "HealthCell_state (run_probes HealthConfig_default Unhealthy [probe_down, probe_ok, probe_ok]) = Healthy"
  by (rule recovers_after_trailing_successes)
    (simp_all add: HealthConfig_default_def trailing_successes_def probe_ok_def probe_down_def probe_tcp_def)

end
