(* ===== verification/Upstream.thy ===== *)
theory Upstream
  imports Core_Types Health "HOL-Library.Multiset"
begin

text \<open>
  Upstreams and their leases (\<^verbatim>\<open>crates/eggress-routing/src/upstream.rs\<close>, \<^verbatim>\<open>lease.rs\<close> and
  \<^verbatim>\<open>is_eligible\<close> of \<^verbatim>\<open>health.rs\<close>). A runtime is shared (\<^verbatim>\<open>Arc\<close>) between groups, leases and
  probes, so it lives in a heap and is named by a reference. The counters are 64-bit atomics
  updated with relaxed wrapping arithmetic; the lease life cycle is a step relation whose steps
  are the single atomic updates, so every interleaving of concurrent sessions is a run. Result:
  the counters of every upstream are the numbers of its live pending and active leases.
\<close>

subsection \<open>Runtimes\<close>

record upstream_runtime =
  up_id :: upstream_id
  up_chain :: proxy_chain_spec
  enabled :: bool
  active :: u64
  in_flight :: u64
  health :: health_cell
  up_health_probe :: "health_probe option"
  up_health_config :: health_config

definition UpstreamRuntime_new :: "upstream_id \<Rightarrow> proxy_chain_spec \<Rightarrow> upstream_runtime" where
  "UpstreamRuntime_new i chain =
    \<lparr>up_id = i, up_chain = chain, enabled = True, active = 0, in_flight = 0,
     health = HealthCell_new (initial_state HealthConfig_default), up_health_probe = None,
     up_health_config = HealthConfig_default\<rparr>"

definition UpstreamRuntime_new_with_health ::
  "upstream_id \<Rightarrow> proxy_chain_spec \<Rightarrow> health_state \<Rightarrow> upstream_runtime" where
  "UpstreamRuntime_new_with_health i chain st =
    \<lparr>up_id = i, up_chain = chain, enabled = True, active = 0, in_flight = 0,
     health = HealthCell_new st, up_health_probe = None, up_health_config = HealthConfig_default\<rparr>"

definition with_health_probe :: "health_probe \<Rightarrow> upstream_runtime \<Rightarrow> upstream_runtime" where
  "with_health_probe probe u = u\<lparr>up_health_probe := Some probe\<rparr>"

definition with_health_config :: "health_config \<Rightarrow> upstream_runtime \<Rightarrow> upstream_runtime" where
  "with_health_config config u =
    u\<lparr>health := HealthCell_new (initial_state config), up_health_config := config\<rparr>"

definition is_enabled :: "upstream_runtime \<Rightarrow> bool" where
  "is_enabled u = enabled u"

definition set_enabled :: "bool \<Rightarrow> upstream_runtime \<Rightarrow> upstream_runtime" where
  "set_enabled b u = u\<lparr>enabled := b\<rparr>"

definition current_load :: "upstream_runtime \<Rightarrow> u64" where
  "current_load u = active u + in_flight u"

definition is_eligible :: "upstream_runtime \<Rightarrow> bool" where
  "is_eligible u =
    (if \<not> is_enabled u then False
     else HealthCell_state (health u) \<in> {Unknown, Healthy, Suspect, Recovering})"

text \<open>The identifier check; the regular expression engine is the parameter \<open>is_match\<close>.\<close>

definition UPSTREAM_ID_PATTERN :: string where
  "UPSTREAM_ID_PATTERN = ''^[A-Za-z0-9][A-Za-z0-9._-]{0,63}$''"

definition validate_upstream_id :: "(string \<Rightarrow> string \<Rightarrow> bool) \<Rightarrow> string \<Rightarrow> string + unit" where
  "validate_upstream_id is_match i =
    (if \<not> is_match UPSTREAM_ID_PATTERN i
     then Err (''upstream ID '' @ quoted i @ '' must match '' @ UPSTREAM_ID_PATTERN)
     else Ok ())"

lemma is_eligible_enabled: "is_eligible u \<Longrightarrow> is_enabled u"
  by (simp add: is_eligible_def split: if_splits)

lemma is_eligible_iff:
  "is_eligible u \<longleftrightarrow> is_enabled u \<and> HealthCell_state (health u) \<notin> {Unhealthy, Disabled}"
  by (cases "HealthCell_state (health u)") (auto simp: is_eligible_def)

subsection \<open>The heap of runtimes\<close>

type_synonym up_ref = nat
type_synonym up_heap = "up_ref \<Rightarrow> upstream_runtime"

definition update_up :: "up_ref \<Rightarrow> (upstream_runtime \<Rightarrow> upstream_runtime) \<Rightarrow> up_heap \<Rightarrow> up_heap" where
  "update_up r f h = h(r := f (h r))"

text \<open>The four atomic counter updates (\<^verbatim>\<open>fetch_add\<close> and \<^verbatim>\<open>fetch_sub\<close> wrap).\<close>

definition in_flight_inc :: "up_ref \<Rightarrow> up_heap \<Rightarrow> up_heap" where
  "in_flight_inc r = update_up r (\<lambda>u. u\<lparr>in_flight := in_flight u + 1\<rparr>)"

definition in_flight_dec :: "up_ref \<Rightarrow> up_heap \<Rightarrow> up_heap" where
  "in_flight_dec r = update_up r (\<lambda>u. u\<lparr>in_flight := in_flight u - 1\<rparr>)"

definition active_inc :: "up_ref \<Rightarrow> up_heap \<Rightarrow> up_heap" where
  "active_inc r = update_up r (\<lambda>u. u\<lparr>active := active u + 1\<rparr>)"

definition active_dec :: "up_ref \<Rightarrow> up_heap \<Rightarrow> up_heap" where
  "active_dec r = update_up r (\<lambda>u. u\<lparr>active := active u - 1\<rparr>)"

lemmas counter_defs = in_flight_inc_def in_flight_dec_def active_inc_def active_dec_def update_up_def

subsection \<open>Leases\<close>

datatype lease_state = Pending | Transferred

record pending_lease =
  lease_upstream :: up_ref
  lease_state :: lease_state

datatype active_lease = ActiveLease (active_upstream: up_ref)

definition PendingLease_new :: "up_ref \<Rightarrow> up_heap \<Rightarrow> pending_lease \<times> up_heap" where
  "PendingLease_new r h =
    (\<lparr>lease_upstream = r, lease_state = Pending\<rparr>, in_flight_inc r h)"

definition PendingLease_drop :: "pending_lease \<Rightarrow> up_heap \<Rightarrow> up_heap" where
  "PendingLease_drop l h =
    (if lease_state l = Pending then in_flight_dec (lease_upstream l) h else h)"

text \<open>
  \<^verbatim>\<open>established\<close> consumes the lease, in two updates of atomics with a gap in between: it is marked as transferred and
  leaves the in-flight counter, then it enters the active counter and its destructor runs on what it has
  become.
\<close>

definition established_transfer :: "pending_lease \<Rightarrow> up_heap \<Rightarrow> pending_lease \<times> up_heap" where
  "established_transfer l h = (l\<lparr>lease_state := Transferred\<rparr>, in_flight_dec (lease_upstream l) h)"

definition established_activate :: "pending_lease \<Rightarrow> up_heap \<Rightarrow> active_lease \<times> up_heap" where
  "established_activate this h =
    (ActiveLease (lease_upstream this), PendingLease_drop this (active_inc (lease_upstream this) h))"

definition established :: "pending_lease \<Rightarrow> up_heap \<Rightarrow> active_lease \<times> up_heap" where
  "established l h = (let (this, h1) = established_transfer l h in established_activate this h1)"

lemmas established_defs = established_def established_transfer_def established_activate_def

definition ActiveLease_drop :: "active_lease \<Rightarrow> up_heap \<Rightarrow> up_heap" where
  "ActiveLease_drop l h = active_dec (active_upstream l) h"

lemma in_flight_back [simp]: "in_flight_dec r (in_flight_inc r h) = h"
  by (simp add: counter_defs fun_upd_idem)

lemma active_back [simp]: "active_dec r (active_inc r h) = h"
  by (simp add: counter_defs fun_upd_idem)

subsection \<open>Groups\<close>

datatype group_fallback = Fallback_Reject | Fallback_Direct | UseUnhealthy

datatype scheduler_kind = Kind_FirstAvailable | Kind_RoundRobin | Kind_Random | Kind_LeastConnections

type_synonym group_id = string

text \<open>The scheduler object of a group is mutable and kept in the routing state.\<close>

record upstream_group =
  grp_id :: group_id
  scheduler_kind :: scheduler_kind
  members :: "up_ref list"
  fallback :: group_fallback

datatype validation_error = EmptyGroup | DuplicateUpstreamId

fun unseen_ids :: "upstream_id set \<Rightarrow> upstream_id list \<Rightarrow> bool" where
  "unseen_ids seen [] = True"
| "unseen_ids seen (i # ids) = (if i \<in> seen then False else unseen_ids (insert i seen) ids)"

definition validate_group :: "up_heap \<Rightarrow> upstream_group \<Rightarrow> validation_error + unit" where
  "validate_group h g =
    (if members g = [] then Err EmptyGroup
     else if \<not> unseen_ids {} (map (\<lambda>r. up_id (h r)) (members g)) then Err DuplicateUpstreamId
     else Ok ())"

lemma unseen_ids_iff: "unseen_ids seen ids \<longleftrightarrow> distinct ids \<and> set ids \<inter> seen = {}"
  by (induction ids arbitrary: seen) auto

text \<open>
  Group validation: a group is accepted exactly when it has members and their identifiers
  are pairwise distinct; the two errors are reported in that order of precedence.
\<close>

lemma validate_group_correct:
  "validate_group h g =
    (if members g = [] then Err EmptyGroup
     else if distinct (map (\<lambda>r. up_id (h r)) (members g)) then Ok () else Err DuplicateUpstreamId)"
  by (simp add: validate_group_def unseen_ids_iff)

subsection \<open>Interleavings of lease operations\<close>

text \<open>
  A configuration: the heap, the live pending leases, the leases between the two atomic updates
  of \<^verbatim>\<open>established\<close>, and the live active leases. The steps are the operations on these objects.
\<close>

record lease_config =
  lc_heap :: up_heap
  pendings :: "pending_lease multiset"
  transits :: "pending_lease multiset"
  actives :: "active_lease multiset"

inductive lease_step :: "lease_config \<Rightarrow> lease_config \<Rightarrow> bool" where
  acquire: "PendingLease_new r (lc_heap c) = (l, h) \<Longrightarrow>
    lease_step c (c\<lparr>lc_heap := h, pendings := add_mset l (pendings c)\<rparr>)"
| abandon: "l \<in># pendings c \<Longrightarrow>
    lease_step c (c\<lparr>lc_heap := PendingLease_drop l (lc_heap c), pendings := pendings c - {#l#}\<rparr>)"
| establish_begin: "l \<in># pendings c \<Longrightarrow> established_transfer l (lc_heap c) = (this, h) \<Longrightarrow>
    lease_step c (c\<lparr>lc_heap := h, pendings := pendings c - {#l#}, transits := add_mset this (transits c)\<rparr>)"
| establish_end: "this \<in># transits c \<Longrightarrow> established_activate this (lc_heap c) = (a, h) \<Longrightarrow>
    lease_step c (c\<lparr>lc_heap := h, transits := transits c - {#this#}, actives := add_mset a (actives c)\<rparr>)"
| establish: "l \<in># pendings c \<Longrightarrow> established l (lc_heap c) = (a, h) \<Longrightarrow>
    lease_step c (c\<lparr>lc_heap := h, pendings := pendings c - {#l#}, actives := add_mset a (actives c)\<rparr>)"
| close: "a \<in># actives c \<Longrightarrow>
    lease_step c (c\<lparr>lc_heap := ActiveLease_drop a (lc_heap c), actives := actives c - {#a#}\<rparr>)"
| toggle: "lease_step c (c\<lparr>lc_heap := update_up r (set_enabled b) (lc_heap c)\<rparr>)"
| probed: "lease_step c (c\<lparr>lc_heap := update_up r
      (\<lambda>u. u\<lparr>health := apply_probe (up_health_config u) obs (health u)\<rparr>) (lc_heap c)\<rparr>)"

inductive_cases lease_stepE: "lease_step c c'"

inductive lease_reachable :: "lease_config \<Rightarrow> bool" where
  lease_init: "(\<And>r. in_flight (h r) = 0 \<and> active (h r) = 0) \<Longrightarrow>
    lease_reachable \<lparr>lc_heap = h, pendings = {#}, transits = {#}, actives = {#}\<rparr>"
| lease_next: "lease_reachable c \<Longrightarrow> lease_step c c' \<Longrightarrow> lease_reachable c'"

definition pending_on :: "up_ref \<Rightarrow> lease_config \<Rightarrow> nat" where
  "pending_on r c = size {#l \<in># pendings c. lease_upstream l = r#}"

definition active_on :: "up_ref \<Rightarrow> lease_config \<Rightarrow> nat" where
  "active_on r c = size {#a \<in># actives c. active_upstream a = r#}"

definition lease_inv :: "lease_config \<Rightarrow> bool" where
  "lease_inv c \<longleftrightarrow>
    (\<forall>l \<in># pendings c. lease_state l = Pending) \<and> (\<forall>l \<in># transits c. lease_state l = Transferred) \<and>
    (\<forall>r. in_flight (lc_heap c r) = word_of_nat (pending_on r c) \<and> active (lc_heap c r) = word_of_nat (active_on r c))"

lemma size_filter_diff:
  "x \<in># M \<Longrightarrow> (word_of_nat (size {#y \<in># M - {#x#}. P y#}) :: 'a :: len word) =
    word_of_nat (size {#y \<in># M. P y#}) - (if P x then 1 else 0)"
  by (auto dest!: multi_member_split)

lemma lease_inv_step: "lease_step c c' \<Longrightarrow> lease_inv c \<Longrightarrow> lease_inv c'"
  by (induction rule: lease_step.induct)
    (auto simp: lease_inv_def pending_on_def active_on_def size_filter_diff PendingLease_new_def PendingLease_drop_def
      ActiveLease_drop_def established_defs counter_defs set_enabled_def add.commute simp del: filter_diff_mset dest: in_diffD)

text \<open>
  C24: Lease accounting under every interleaving. Starting from zero counters, after any
  interleaving of acquiring, abandoning, establishing and closing leases by any number of
  sessions (together with enabling, disabling and probing upstreams), the in-flight and active
  counters of every upstream are, modulo 2 to the 64, the numbers of its live pending and
  active leases. No operation is lost and none is counted twice, in particular not by the destructor
  that runs at the end of \<^verbatim>\<open>established\<close>.
\<close>

theorem lease_counters_exact:
  assumes "lease_reachable c"
  shows "in_flight (lc_heap c r) = word_of_nat (size {#l \<in># pendings c. lease_upstream l = r#}) \<and>
    active (lc_heap c r) = word_of_nat (size {#a \<in># actives c. active_upstream a = r#})"
proof -
  from assms have "lease_inv c"
    by (induction rule: lease_reachable.induct)
      (auto simp: lease_inv_def [of "\<lparr>lc_heap = _, pendings = _, transits = _, actives = _\<rparr>"] pending_on_def active_on_def
        dest: lease_inv_step)
  then show ?thesis by (simp add: lease_inv_def pending_on_def active_on_def)
qed

definition sample_up :: "string \<Rightarrow> upstream_runtime" where
  "sample_up i = UpstreamRuntime_new i \<lparr>hops = []\<rparr>"

lemma sample_up_simps [simp]:
  "is_enabled (sample_up i)" "is_eligible (sample_up i)" "current_load (sample_up i) = 0"
  by (simp_all add: sample_up_def UpstreamRuntime_new_def is_eligible_def is_enabled_def
      current_load_def HealthConfig_default_def HealthCell_new_def HealthCell_state_def decode_state_def)

theorem lease_counters_exact_witness:
  "in_flight (snd (established \<lparr>lease_upstream = 0, lease_state = Pending\<rparr> (in_flight_inc 0 (\<lambda>_. sample_up ''a''))) 0) = 0 \<and>
   active (snd (established \<lparr>lease_upstream = 0, lease_state = Pending\<rparr> (in_flight_inc 0 (\<lambda>_. sample_up ''a''))) 0) = 1"
proof -
  let ?h = "\<lambda>_ :: nat. sample_up ''a''" and ?l = "\<lparr>lease_upstream = 0, lease_state = Pending\<rparr>"
  let ?c0 = "\<lparr>lc_heap = ?h, pendings = {#}, transits = {#}, actives = {#}\<rparr> :: lease_config"
  let ?c1 = "\<lparr>lc_heap = in_flight_inc 0 ?h, pendings = {#?l#}, transits = {#}, actives = {#}\<rparr>"
  obtain a h where e: "established ?l (in_flight_inc 0 ?h) = (a, h)" by fastforce
  let ?c2 = "\<lparr>lc_heap = h, pendings = {#}, transits = {#}, actives = {#a#}\<rparr>"
  have "lease_reachable ?c0"
    by (rule lease_init) (simp add: sample_up_def UpstreamRuntime_new_def)
  moreover have "lease_step ?c0 ?c1" "lease_step ?c1 ?c2"
    using acquire [of 0 ?c0] establish [of ?l ?c1 a h] e by (simp_all add: PendingLease_new_def)
  ultimately have "lease_reachable ?c2" by (meson lease_next)
  moreover have "active_upstream a = 0" using e by (auto simp: established_defs)
  ultimately show ?thesis
    using lease_counters_exact [of ?c2 0] e by simp
qed

end
