(* ===== verification/Scheduler.thy ===== *)
theory Scheduler
  imports Upstream
begin

text \<open>
  Upstream selection (\<^verbatim>\<open>crates/eggress-routing/src/scheduler.rs\<close>): the four schedulers, their
  health-blind variants for the unhealthy fallback, previews, and the random sources. A scheduler
  object is explicit state that every selection returns updated. The interface that the router
  relies on is the locale \<open>upstream_scheduler\<close>; it is interpreted on each of the four selection
  routines. Results: soundness and completeness of every scheduler, fairness of the rotation,
  minimality of the least-connections choice, and that a preview announces the next choice.
\<close>

subsection \<open>Random sources\<close>

text \<open>
  \<^verbatim>\<open>RandomIndex::index\<close> takes a bound and gives an index, changing the source. The generator of
  \<^verbatim>\<open>fastrand\<close> is the parameter \<open>usize_below\<close>.
\<close>

type_synonym 'r rng_index = "'r \<Rightarrow> nat \<Rightarrow> nat option \<times> 'r"

definition FastrandRandom_index :: "('r \<Rightarrow> nat \<Rightarrow> nat \<times> 'r) \<Rightarrow> 'r rng_index" where
  "FastrandRandom_index usize_below g upper =
    (if 0 < upper then (let (v, g') = usize_below g upper in (Some v, g')) else (None, g))"

record deterministic_random =
  det_values :: "u64 list"
  det_counter :: u64

definition DeterministicRandom_new :: "u64 list \<Rightarrow> deterministic_random" where
  "DeterministicRandom_new vs = \<lparr>det_values = vs, det_counter = 0\<rparr>"

definition DeterministicRandom_index :: "deterministic_random rng_index" where
  "DeterministicRandom_index d upper =
    (let idx = det_counter d; d' = d\<lparr>det_counter := idx + 1\<rparr> in
     if det_values d = [] \<or> upper = 0 then (None, d')
     else (Some (unat (det_values d ! (unat idx mod length (det_values d))) mod upper), d'))"

subsection \<open>Selection routines\<close>

text \<open>The counting loop at the end of each routine: skip \<open>pick\<close> members, return the next.\<close>

fun pick_nth :: "nat \<Rightarrow> 'u list \<Rightarrow> 'u option" where
  "pick_nth pick [] = None"
| "pick_nth pick (m # ms) = (if pick = 0 then Some m else pick_nth (pick - 1) ms)"

definition select_first :: "('u \<Rightarrow> bool) \<Rightarrow> 'u list \<Rightarrow> 'u option" where
  "select_first eligible candidates = find eligible candidates"

definition select_round_robin :: "('u \<Rightarrow> bool) \<Rightarrow> u64 \<Rightarrow> 'u list \<Rightarrow> 'u option \<times> u64" where
  "select_round_robin eligible cursor candidates =
    (if candidates = [] then (None, cursor)
     else (let eligible_count = length (filter eligible candidates) in
           if eligible_count = 0 then (None, cursor)
           else (pick_nth (unat cursor mod eligible_count) (filter eligible candidates), cursor + 1)))"

definition select_random ::
  "'r rng_index \<Rightarrow> ('u \<Rightarrow> bool) \<Rightarrow> 'r \<Rightarrow> 'u list \<Rightarrow> 'u option \<times> 'r" where
  "select_random index eligible rng candidates =
    (if candidates = [] then (None, rng)
     else (case index rng (length (filter eligible candidates)) of
             (None, rng') \<Rightarrow> (None, rng')
           | (Some pick, rng') \<Rightarrow> (pick_nth pick (filter eligible candidates), rng')))"

text \<open>The first pass of least-connections: the loads of the eligible members and their minimum.\<close>

fun load_pass ::
  "('u \<Rightarrow> bool) \<Rightarrow> ('u \<Rightarrow> u64) \<Rightarrow> nat \<Rightarrow> u64 option \<Rightarrow> (nat \<times> u64) list \<Rightarrow> 'u list
   \<Rightarrow> u64 option \<times> (nat \<times> u64) list" where
  "load_pass eligible load idx min_load loads [] = (min_load, loads)"
| "load_pass eligible load idx min_load loads (m # ms) =
    (if \<not> eligible m then load_pass eligible load (Suc idx) min_load loads ms
     else load_pass eligible load (Suc idx)
            (Some (case min_load of None \<Rightarrow> load m | Some mn \<Rightarrow> min mn (load m)))
            (loads @ [(idx, load m)]) ms)"

fun pick_tied :: "u64 \<Rightarrow> nat \<Rightarrow> (nat \<times> u64) list \<Rightarrow> nat option" where
  "pick_tied min_load pick [] = None"
| "pick_tied min_load pick ((idx, l) # loads) =
    (if l = min_load then (if pick = 0 then Some idx else pick_tied min_load (pick - 1) loads)
     else pick_tied min_load pick loads)"

definition select_least_connections ::
  "('u \<Rightarrow> u64) \<Rightarrow> ('u \<Rightarrow> bool) \<Rightarrow> u64 \<Rightarrow> 'u list \<Rightarrow> 'u option \<times> u64" where
  "select_least_connections load eligible cursor candidates =
    (case load_pass eligible load 0 None [] candidates of
       (None, _) \<Rightarrow> (None, cursor)
     | (Some min_load, loads) \<Rightarrow>
        (let tied_count = length (filter (\<lambda>(_, l). l = min_load) loads) in
         if tied_count = 0 then (None, cursor)
         else (map_option (\<lambda>idx. candidates ! idx)
                 (pick_tied min_load (unat cursor mod tied_count) loads), cursor + 1)))"

subsection \<open>Schedulers\<close>

datatype 'r scheduler =
  FirstAvailableScheduler | RoundRobinScheduler u64 | RandomScheduler 'r
| LeastConnectionsScheduler u64

definition resolve_scheduler :: "'r \<Rightarrow> scheduler_kind \<Rightarrow> 'r scheduler" where
  "resolve_scheduler rng kind =
    (case kind of
       Kind_FirstAvailable \<Rightarrow> FirstAvailableScheduler
     | Kind_RoundRobin \<Rightarrow> RoundRobinScheduler 0
     | Kind_Random \<Rightarrow> RandomScheduler rng
     | Kind_LeastConnections \<Rightarrow> LeastConnectionsScheduler 0)"

text \<open>Both \<^verbatim>\<open>select\<close> and \<^verbatim>\<open>select_enabled\<close> run the same routine with their own eligibility test.\<close>

definition select_with ::
  "'r rng_index \<Rightarrow> up_heap \<Rightarrow> (up_ref \<Rightarrow> bool) \<Rightarrow> 'r scheduler \<Rightarrow> up_ref list
   \<Rightarrow> up_ref option \<times> 'r scheduler" where
  "select_with index h eligible s candidates =
    (case s of
       FirstAvailableScheduler \<Rightarrow> (select_first eligible candidates, FirstAvailableScheduler)
     | RoundRobinScheduler cursor \<Rightarrow>
         apsnd RoundRobinScheduler (select_round_robin eligible cursor candidates)
     | RandomScheduler rng \<Rightarrow>
         apsnd RandomScheduler (select_random index eligible rng candidates)
     | LeastConnectionsScheduler cursor \<Rightarrow>
         apsnd LeastConnectionsScheduler
           (select_least_connections (\<lambda>r. current_load (h r)) eligible cursor candidates))"

definition scheduler_select ::
  "'r rng_index \<Rightarrow> up_heap \<Rightarrow> 'r scheduler \<Rightarrow> up_ref list \<Rightarrow> up_ref option \<times> 'r scheduler" where
  "scheduler_select index h s candidates =
    select_with index h (\<lambda>r. is_eligible (h r)) s candidates"

definition scheduler_select_enabled ::
  "'r rng_index \<Rightarrow> up_heap \<Rightarrow> 'r scheduler \<Rightarrow> up_ref list \<Rightarrow> up_ref option \<times> 'r scheduler" where
  "scheduler_select_enabled index h s candidates =
    select_with index h (\<lambda>r. is_enabled (h r)) s candidates"

text \<open>The probing loop of the round-robin preview, which does not move the cursor.\<close>

fun preview_scan :: "('u \<Rightarrow> bool) \<Rightarrow> 'u list \<Rightarrow> u64 \<Rightarrow> nat list \<Rightarrow> 'u option" where
  "preview_scan eligible candidates start [] = None"
| "preview_scan eligible candidates start (i # is) =
    (let idx = unat (start + word_of_nat i) mod length candidates in
     if eligible (candidates ! idx) then Some (candidates ! idx)
     else preview_scan eligible candidates start is)"

definition preview_round_robin :: "('u \<Rightarrow> bool) \<Rightarrow> u64 \<Rightarrow> 'u list \<Rightarrow> 'u option" where
  "preview_round_robin eligible cursor candidates =
    (if candidates = [] then None
     else preview_scan eligible candidates cursor [0..<length candidates])"

text \<open>Only round-robin overrides \<^verbatim>\<open>preview\<close>; the others inherit \<^verbatim>\<open>select\<close>, state change included.\<close>

definition scheduler_preview ::
  "'r rng_index \<Rightarrow> up_heap \<Rightarrow> 'r scheduler \<Rightarrow> up_ref list \<Rightarrow> up_ref option \<times> 'r scheduler" where
  "scheduler_preview index h s candidates =
    (case s of
       RoundRobinScheduler cursor \<Rightarrow>
         (preview_round_robin (\<lambda>r. is_eligible (h r)) cursor candidates, s)
     | _ \<Rightarrow> scheduler_select index h s candidates)"

subsection \<open>The interface of a scheduler\<close>

text \<open>
  What a caller may rely on: a choice is an eligible candidate, there is one whenever some
  candidate is eligible, and the scheduler stays usable. \<open>ok\<close> is the condition on its state.
\<close>

locale upstream_scheduler =
  fixes pick_up :: "('u \<Rightarrow> bool) \<Rightarrow> 's \<Rightarrow> 'u list \<Rightarrow> 'u option \<times> 's"
    and ok :: "'s \<Rightarrow> bool"
  assumes pick_up_sound: "pick_up P s us = (Some u, s') \<Longrightarrow> u \<in> set us \<and> P u"
    and pick_up_complete: "ok s \<Longrightarrow> u \<in> set us \<Longrightarrow> P u \<Longrightarrow> fst (pick_up P s us) \<noteq> None"
    and pick_up_ok: "ok s \<Longrightarrow> ok (snd (pick_up P s us))"
begin

lemma pick_up_None_iff:
  "ok s \<Longrightarrow> fst (pick_up P s us) = None \<longleftrightarrow> (\<forall>u \<in> set us. \<not> P u)"
  using pick_up_complete [of s _ us P] pick_up_sound [of P s us]
  by (metis option.exhaust prod.collapse)

text \<open>The router filters the members first; on such a list the choice never fails.\<close>

lemma pick_up_filtered:
  assumes "ok s" "filter P us \<noteq> []"
  shows "\<exists>u s'. pick_up P s (filter P us) = (Some u, s') \<and> u \<in> set us \<and> P u \<and> ok s'"
proof -
  obtain u where "u \<in> set (filter P us)" using assms(2) by (meson list.set_sel(1))
  then have "fst (pick_up P s (filter P us)) \<noteq> None"
    using pick_up_complete [OF assms(1), of u "filter P us" P] by simp
  then obtain v where v: "fst (pick_up P s (filter P us)) = Some v" by blast
  then have eq: "pick_up P s (filter P us) = (Some v, snd (pick_up P s (filter P us)))"
    by (metis prod.collapse)
  from pick_up_sound [OF eq] eq pick_up_ok [OF assms(1)] show ?thesis by auto
qed

end

locale random_source =
  fixes index :: "'r rng_index"
    and usable :: "'r \<Rightarrow> bool"
  assumes index_bound: "index g n = (Some i, g') \<Longrightarrow> i < n"
    and index_some: "usable g \<Longrightarrow> 0 < n \<Longrightarrow> fst (index g n) \<noteq> None"
    and index_usable: "usable g \<Longrightarrow> usable (snd (index g n))"

subsection \<open>The four routines meet the interface\<close>

lemma pick_nth_eq: "pick_nth k us = (if k < length us then Some (us ! k) else None)"
  by (induction k us rule: pick_nth.induct) (auto simp: nth_Cons')

lemma find_Some_sound: "find P us = Some u \<Longrightarrow> u \<in> set us \<and> P u"
  by (metis find_Some_iff nth_mem)

lemma filter_pos_iff: "0 < length (filter P us) \<longleftrightarrow> (\<exists>u \<in> set us. P u)"
  by (auto simp: filter_empty_conv)

lemma pick_filtered:
  "k < length (filter P us) \<Longrightarrow> \<exists>u. pick_nth k (filter P us) = Some u \<and> u \<in> set us \<and> P u"
  using nth_mem [of k "filter P us"] by (simp add: pick_nth_eq)

interpretation first: upstream_scheduler "\<lambda>P s us. (select_first P us, s)" "\<lambda>_ :: unit. True"
  by unfold_locales (auto simp: select_first_def find_None_iff dest: find_Some_sound)

lemma round_robin_cases:
  "select_round_robin P c us =
    (if filter P us = [] then (None, c)
     else (Some (filter P us ! (unat c mod length (filter P us))), c + 1))"
  by (auto simp: select_round_robin_def Let_def pick_nth_eq)

interpretation rr: upstream_scheduler select_round_robin "\<lambda>_. True"
proof unfold_locales
  fix P :: "'u \<Rightarrow> bool" and s us u s'
  assume "select_round_robin P s us = (Some u, s')"
  then have ne: "filter P us \<noteq> []" and u: "u = filter P us ! (unat s mod length (filter P us))"
    by (auto simp: round_robin_cases split: if_splits)
  have "unat s mod length (filter P us) < length (filter P us)" using ne by simp
  from nth_mem [OF this] u show "u \<in> set us \<and> P u" by simp
next
  fix s :: u64 and u :: 'u and us P
  assume "u \<in> set us" "P u"
  then have "filter P us \<noteq> []" by (auto simp: filter_empty_conv)
  then show "fst (select_round_robin P s us) \<noteq> None" by (simp add: round_robin_cases)
qed simp

lemma filter_enumerate_empty:
  "filter P us = [] \<Longrightarrow> filter (\<lambda>(k, u). P u) (enumerate i us) = []"
  by (auto simp: filter_empty_conv in_set_enumerate_eq)

lemma load_pass_loads:
  "snd (load_pass P load i m ls us) =
    ls @ map (\<lambda>(k, u). (k, load u)) (filter (\<lambda>(k, u). P u) (enumerate i us))"
  by (induction us arbitrary: i m ls) auto

lemma load_pass_min:
  "fst (load_pass P load i m ls us) =
    (case m of
       Some x \<Rightarrow> Some (fold min (map load (filter P us)) x)
     | None \<Rightarrow> (case filter P us of
                [] \<Rightarrow> None | v # vs \<Rightarrow> Some (fold min (map load vs) (load v))))"
  by (induction us arbitrary: i m ls) (auto simp: min.commute split: option.splits list.splits)

lemma pick_tied_eq:
  "pick_tied m k loads = map_option fst (pick_nth k (filter (\<lambda>(_, l). l = m) loads))"
  by (induction m k loads rule: pick_tied.induct) auto

lemma enumerate_filter_nth:
  "map (\<lambda>(k, u). us ! k) (filter (\<lambda>(k, u). Q u) (enumerate 0 us)) = filter Q us"
proof -
  have "map (\<lambda>(k, u). us ! k) (filter (\<lambda>(k, u). Q u) (enumerate 0 us)) =
      map snd (filter (\<lambda>(k, u). Q u) (enumerate 0 us))"
    by (auto simp: in_set_enumerate_eq)
  also have "\<dots> = filter Q (map snd (enumerate 0 us))"
    unfolding filter_map by (simp add: comp_def case_prod_unfold)
  finally show ?thesis by simp
qed

text \<open>The members tied at the least load among the eligible ones.\<close>

definition least_loaded :: "('u \<Rightarrow> u64) \<Rightarrow> ('u \<Rightarrow> bool) \<Rightarrow> 'u list \<Rightarrow> 'u list" where
  "least_loaded load P us =
    filter (\<lambda>u. P u \<and> load u = Min (load ` set (filter P us))) us"

lemma least_loaded_not_Nil: "filter P us \<noteq> [] \<Longrightarrow> least_loaded load P us \<noteq> []"
proof -
  assume ne: "filter P us \<noteq> []"
  then have "Min (load ` set (filter P us)) \<in> load ` set (filter P us)"
    by (intro Min_in) (auto simp: filter_empty_conv)
  then show ?thesis by (auto simp: least_loaded_def filter_empty_conv)
qed

lemma fold_min_eq_Min:
  "filter P us = v # vs \<Longrightarrow> fold min (map load vs) (load v) = Min (load ` set (filter P us))"
  using Min.set_eq_fold [of "load v" "map load vs"] by (simp del: set_filter)

text \<open>
  C21: least-connections selects from the least loaded. On every list of candidates the two-pass
  routine returns nothing and keeps the cursor when no candidate is eligible; otherwise it
  returns a member whose load is the minimum over the eligible candidates, namely the one at
  position cursor modulo the number of tied members among these, and advances the cursor.
\<close>

theorem select_least_connections_spec:
  "select_least_connections load P c us =
    (if filter P us = [] then (None, c)
     else (Some (least_loaded load P us ! (unat c mod length (least_loaded load P us))), c + 1))"
proof (cases "filter P us")
  case Nil
  have "fst (load_pass P load 0 None [] us) = None" by (simp add: load_pass_min Nil)
  then show ?thesis
    by (cases "load_pass P load 0 None [] us") (simp add: select_least_connections_def Nil)
next
  case (Cons v vs)
  define m where "m = Min (load ` set (filter P us))"
  define tied where "tied = filter (\<lambda>(k, u). P u \<and> load u = m) (enumerate 0 us)"
  define loads where "loads = map (\<lambda>(k, u). (k, load u)) (filter (\<lambda>(k, u). P u) (enumerate 0 us))"
  have lp: "load_pass P load 0 None [] us = (Some m, loads)"
    unfolding m_def loads_def
    by (rule prod_eqI) (simp_all only: load_pass_loads load_pass_min fold_min_eq_Min [OF Cons, unfolded Cons]
        Cons option.case list.case fst_conv snd_conv append_Nil)
  have fl: "filter (\<lambda>(_, l). l = m) loads = map (\<lambda>(k, u). (k, load u)) tied"
    by (simp add: loads_def tied_def filter_map comp_def case_prod_unfold conj_commute)
  have tl: "least_loaded load P us = map (\<lambda>(k, u). us ! k) tied"
    unfolding least_loaded_def tied_def m_def by (rule enumerate_filter_nth [symmetric])
  then have ne: "tied \<noteq> []"
    using least_loaded_not_Nil [of P us load] Cons by auto
  then have k: "unat c mod length tied < length tied" by simp
  then have "map_option (\<lambda>idx. us ! idx) (pick_tied m (unat c mod length tied) loads) =
      Some (least_loaded load P us ! (unat c mod length tied))"
    unfolding pick_tied_eq fl pick_nth_eq tl by (simp add: case_prod_beta)
  then show ?thesis
    using Cons ne by (simp add: select_least_connections_def lp fl tl Let_def)
qed

lemma least_loaded_member:
  "filter P us \<noteq> [] \<Longrightarrow>
   least_loaded load P us ! (k mod length (least_loaded load P us)) \<in> set (least_loaded load P us)"
  by (intro nth_mem mod_less_divisor) (use least_loaded_not_Nil [of P us load] in simp)

interpretation lc: upstream_scheduler "select_least_connections load" "\<lambda>_. True"
  for load :: "'u \<Rightarrow> u64"
proof unfold_locales
  fix P :: "'u \<Rightarrow> bool" and s us u s'
  assume "select_least_connections load P s us = (Some u, s')"
  then have "filter P us \<noteq> []"
    and "u = least_loaded load P us ! (unat s mod length (least_loaded load P us))"
    by (auto simp: select_least_connections_spec split: if_splits)
  then have "u \<in> set (least_loaded load P us)" using least_loaded_member [of P us load "unat s"] by simp
  then show "u \<in> set us \<and> P u" by (simp add: least_loaded_def)
next
  fix s :: u64 and u :: 'u and us P
  assume "u \<in> set us" "P u"
  then have "filter P us \<noteq> []" by (auto simp: filter_empty_conv)
  then show "fst (select_least_connections load P s us) \<noteq> None"
    by (simp add: select_least_connections_spec)
qed simp

text \<open>Any random source gives a scheduler.\<close>

lemma random_scheduler:
  assumes "random_source index usable"
  shows "upstream_scheduler (select_random index) usable"
proof unfold_locales
  fix P :: "'u \<Rightarrow> bool" and s us u s'
  assume a: "select_random index P s us = (Some u, s')"
  then obtain k where k: "index s (length (filter P us)) = (Some k, s')" "pick_nth k (filter P us) = Some u"
    by (auto simp: select_random_def split: if_splits option.splits prod.splits)
  from pick_filtered [OF random_source.index_bound [OF assms k(1)]] k(2) show "u \<in> set us \<and> P u" by auto
next
  fix s and u :: 'u and us P
  assume ok: "usable s" and u: "u \<in> set us" "P u"
  then have pos: "0 < length (filter P us)" by (auto simp: filter_empty_conv)
  with random_source.index_some [OF assms ok pos] obtain k s' where k: "index s (length (filter P us)) = (Some k, s')"
    by (metis option.exhaust prod.collapse)
  from pick_filtered [OF random_source.index_bound [OF assms k]] pos k u show "fst (select_random index P s us) \<noteq> None"
    by (auto simp: select_random_def)
next
  fix s and us :: "'u list" and P
  assume "usable s"
  then show "usable (snd (select_random index P s us))"
    using random_source.index_usable [OF assms, of s "length (filter P us)"]
    by (auto simp: select_random_def split: option.splits prod.splits)
qed

sublocale random_source \<subseteq> rnd: upstream_scheduler "select_random index" usable
  by (rule random_scheduler) (rule random_source_axioms)

text \<open>The repeatable source of \<^verbatim>\<open>DeterministicRandom\<close>, usable when it has values.\<close>

interpretation det: random_source DeterministicRandom_index "\<lambda>d. det_values d \<noteq> []"
  by unfold_locales (auto simp: DeterministicRandom_index_def Let_def split: if_splits)

subsection \<open>Scheduler objects\<close>

definition scheduler_ok :: "('r \<Rightarrow> bool) \<Rightarrow> 'r scheduler \<Rightarrow> bool" where
  "scheduler_ok usable s = (case s of RandomScheduler rng \<Rightarrow> usable rng | _ \<Rightarrow> True)"

lemma select_with_kind:
  "scheduler_ok usable s \<Longrightarrow> (\<And>rng. usable rng \<Longrightarrow> usable (snd (select_random index P rng us))) \<Longrightarrow>
   scheduler_ok usable (snd (select_with index h P s us))"
  by (cases s) (auto simp: scheduler_ok_def select_with_def)

text \<open>With a random source, each scheduler object meets the interface, whatever its kind.\<close>

lemma scheduler_object:
  assumes "random_source index usable"
  shows "upstream_scheduler (select_with index h) (scheduler_ok usable)"
proof -
  note rnd = random_scheduler [OF assms]
  show ?thesis
  proof unfold_locales
    fix P :: "up_ref \<Rightarrow> bool" and s us u s'
    assume "select_with index h P s us = (Some u, s')"
    then show "u \<in> set us \<and> P u"
      by (cases s)
        (auto simp: select_with_def select_first_def apsnd_def map_prod_def split: prod.splits
          dest: find_Some_sound rr.pick_up_sound upstream_scheduler.pick_up_sound [OF rnd]
            lc.pick_up_sound)
  next
    fix s us and u :: up_ref and P
    assume "scheduler_ok usable s" "u \<in> set us" "P u"
    then show "fst (select_with index h P s us) \<noteq> None"
      using first.pick_up_complete [where u = u and us = us and P = P]
        rr.pick_up_complete [where u = u and us = us and P = P]
        lc.pick_up_complete [where u = u and us = us and P = P]
        upstream_scheduler.pick_up_complete [OF rnd, where u = u and us = us and P = P]
      by (cases s) (auto simp: select_with_def scheduler_ok_def)
  next
    fix s and us :: "up_ref list" and P
    assume "scheduler_ok usable s"
    then show "scheduler_ok usable (snd (select_with index h P s us))"
      by (rule select_with_kind) (rule upstream_scheduler.pick_up_ok [OF rnd])
  qed
qed

sublocale random_source \<subseteq> obj: upstream_scheduler "select_with index h" "scheduler_ok usable" for h
  by (rule scheduler_object) (rule random_source_axioms)

subsection \<open>Properties of the schedulers\<close>

text \<open>
  Every scheduler is sound and complete. For each of the four scheduler kinds, with any
  random source that respects its bound and answers when usable, \<^verbatim>\<open>select\<close> returns an upstream
  exactly when some candidate is eligible, the upstream it returns is an eligible candidate, and
  the scheduler remains usable; \<^verbatim>\<open>select_enabled\<close> has the same contract with eligibility replaced
  by being enabled.
\<close>

lemma scheduler_select_contract:
  assumes source: "random_source index usable" and ok: "scheduler_ok usable s"
  shows "(fst (scheduler_select index h s us) = None \<longleftrightarrow> (\<forall>r \<in> set us. \<not> is_eligible (h r))) \<and>
    (\<forall>r. fst (scheduler_select index h s us) = Some r \<longrightarrow> r \<in> set us \<and> is_eligible (h r)) \<and>
    scheduler_ok usable (snd (scheduler_select index h s us)) \<and>
    (fst (scheduler_select_enabled index h s us) = None \<longleftrightarrow> (\<forall>r \<in> set us. \<not> is_enabled (h r))) \<and>
    (\<forall>r. fst (scheduler_select_enabled index h s us) = Some r \<longrightarrow> r \<in> set us \<and> is_enabled (h r)) \<and>
    scheduler_ok usable (snd (scheduler_select_enabled index h s us))"
proof -
  note obj = scheduler_object [OF source, of h]
  have none: "fst (select_with index h P s us) = None \<longleftrightarrow> (\<forall>r \<in> set us. \<not> P r)" for P
    by (rule upstream_scheduler.pick_up_None_iff [OF obj ok])
  have some: "r \<in> set us \<and> P r" if "fst (select_with index h P s us) = Some r" for P r
    by (rule upstream_scheduler.pick_up_sound [OF obj]) (use that in \<open>simp add: prod_eq_iff\<close>)
  have keep: "scheduler_ok usable (snd (select_with index h P s us))" for P
    by (rule upstream_scheduler.pick_up_ok [OF obj ok])
  show ?thesis
    unfolding scheduler_select_def scheduler_select_enabled_def
    by (simp only: none keep simp_thms) (use some in blast)
qed

lemma scheduler_select_contract_witness:
  "fst (scheduler_select DeterministicRandom_index (\<lambda>_. sample_up ''a'')
     (RandomScheduler (DeterministicRandom_new [7])) [4, 5]) \<noteq> None"
proof -
  have "random_source DeterministicRandom_index (\<lambda>d. det_values d \<noteq> [])"
    by (rule det.random_source_axioms)
  moreover have "scheduler_ok (\<lambda>d. det_values d \<noteq> []) (RandomScheduler (DeterministicRandom_new [7]))"
    by (simp add: scheduler_ok_def DeterministicRandom_new_def)
  ultimately show ?thesis
    using scheduler_select_contract [of DeterministicRandom_index "\<lambda>d. det_values d \<noteq> []"
        "RandomScheduler (DeterministicRandom_new [7])" "\<lambda>_. sample_up ''a''" "[4, 5]"]
    by auto
qed

text \<open>A run of the rotation: the results of \<open>n\<close> consecutive selections on the same members.\<close>

fun round_robin_run :: "('u \<Rightarrow> bool) \<Rightarrow> u64 \<Rightarrow> 'u list \<Rightarrow> nat \<Rightarrow> 'u option list" where
  "round_robin_run P c us 0 = []"
| "round_robin_run P c us (Suc n) =
    (let (r, c') = select_round_robin P c us in r # round_robin_run P c' us n)"

lemma round_robin_run_nth:
  assumes "filter P us \<noteq> []" "unat c + n \<le> 2 ^ 64"
  shows "round_robin_run P c us n =
    map (\<lambda>i. Some (filter P us ! ((unat c + i) mod length (filter P us)))) [0..<n]"
  using assms(2)
proof (induction n arbitrary: c)
  case (Suc n)
  show ?case
  proof (cases n)
    case 0
    then show ?thesis using assms(1) by (simp add: round_robin_cases)
  next
    case Suc': (Suc m)
    have "unat (c + 1) = unat c + 1"
      using Suc.prems Suc' by (simp add: unat_word_ariths)
    then have "round_robin_run P (c + 1) us n =
        map (\<lambda>i. Some (filter P us ! ((unat c + Suc i) mod length (filter P us)))) [0..<n]"
      using Suc.IH [of "c + 1"] Suc.prems by simp
    also have "\<dots> = map (\<lambda>i. Some (filter P us ! ((unat c + i) mod length (filter P us)))) [1..<Suc n]"
      by (simp add: map_Suc_upt [symmetric] del: upt_Suc)
    finally show ?thesis
      using assms(1) by (simp add: round_robin_cases upt_conv_Cons del: upt_Suc)
  qed
qed simp

text \<open>
  C22: round-robin is fair. As long as the set of eligible members does not change and the
  64-bit cursor does not wrap, any k consecutive selections, k being the number of eligible
  members, return each of them exactly once, in list order starting at cursor modulo k: the
  results are a rotation of the eligible list.
\<close>

theorem round_robin_fair:
  assumes "filter P us \<noteq> []" "unat c + length (filter P us) \<le> 2 ^ 64"
  shows "round_robin_run P c us (length (filter P us)) =
    map Some (rotate (unat c mod length (filter P us)) (filter P us))"
proof -
  let ?es = "filter P us"
  have "rotate (unat c mod length ?es) ?es = map (\<lambda>i. ?es ! ((unat c + i) mod length ?es)) [0..<length ?es]"
    by (rule nth_equalityI) (simp_all add: nth_rotate rotate_conv_mod [symmetric] mod_add_left_eq)
  with round_robin_run_nth [OF assms] show ?thesis by simp
qed

theorem round_robin_fair_witness:
  "round_robin_run (\<lambda>n :: nat. n \<noteq> 2) 4 [1, 2, 3, 4] 3 = [Some 3, Some 4, Some 1]"
proof -
  have f: "filter (\<lambda>n :: nat. n \<noteq> 2) [1, 2, 3, 4] = [1, 3, 4]" by simp
  have l: "length [1, 3, 4 :: nat] = 3" by simp
  have r: "map Some (rotate (unat (4 :: u64) mod 3) [1, 3, 4 :: nat]) = [Some 3, Some 4, Some 1]"
    by code_simp
  have "round_robin_run (\<lambda>n :: nat. n \<noteq> 2) 4 [1, 2, 3, 4] 3 =
      map Some (rotate (unat (4 :: u64) mod 3) [1, 3, 4])"
    by (rule round_robin_fair [of "\<lambda>n :: nat. n \<noteq> 2" "[1, 2, 3, 4]" 4, unfolded f l]) simp_all
  then show ?thesis unfolding r .
qed

text \<open>On members that are all eligible the preview is the next choice of the rotation.\<close>

lemma preview_round_robin_next:
  assumes "us \<noteq> []" "\<And>u. u \<in> set us \<Longrightarrow> P u"
  shows "preview_round_robin P c us = fst (select_round_robin P c us)"
proof -
  have f: "filter P us = us" using assms(2) by (simp add: filter_id_conv)
  have lt: "unat c mod length us < length us" using assms(1) by simp
  then have "P (us ! (unat c mod length us))" using assms(2) nth_mem by blast
  then show ?thesis
    using assms(1) lt
    by (simp add: preview_round_robin_def round_robin_cases f upt_conv_Cons Let_def del: upt_Suc)
qed

lemma scheduler_preview_next:
  assumes "us \<noteq> []" "\<And>r. r \<in> set us \<Longrightarrow> is_eligible (h r)"
  shows "fst (scheduler_preview index h s us) = fst (scheduler_select index h s us)"
  using preview_round_robin_next [OF assms, where c = "case s of RoundRobinScheduler c \<Rightarrow> c"]
  by (cases s) (simp_all add: scheduler_preview_def scheduler_select_def select_with_def)

end
