(* ===== verification/Router.thy ===== *)
theory Router
  imports Matcher Scheduler
begin

text \<open>
  Route selection (\<^verbatim>\<open>crates/eggress-routing/src/router.rs\<close>, the decision types of \<^verbatim>\<open>model.rs\<close>,
  \<^verbatim>\<open>rule.rs\<close>) and the diagnostic explanation (\<^verbatim>\<open>explain.rs\<close>). The mutable parts a selection
  touches, the heap of upstream runtimes and the scheduler object of each group, are the record
  \<open>route_world\<close>, passed and returned explicitly. Results: first-match decisions, what a route
  can and cannot return on every branch with its effect on the counters, and that explanations
  announce the upstream the next route takes.
\<close>

subsection \<open>Rules and decisions\<close>

datatype route_action_spec =
  Action_Direct | Action_UpstreamGroup group_id | Action_Reject reject_reason

record ('re, 'net) compiled_rule =
  rule_id :: string
  rule_matcher :: "('re, 'net) match_expr"
  rule_action :: route_action_spec

definition DEFAULT_RULE_ID :: string where
  "DEFAULT_RULE_ID = ''default''"

datatype route_decision =
  Decision_Direct (dec_rule: string)
| Decision_UpstreamGroup (dec_rule: string) (dec_group: group_id)
| Decision_Reject (dec_rule: string) (dec_reason: reject_reason)

datatype selection_reason = Normal | DirectFallback | UnhealthyFallback

fun SelectionReason_fmt :: "selection_reason \<Rightarrow> string" where
  "SelectionReason_fmt Normal = ''normal''"
| "SelectionReason_fmt DirectFallback = ''direct-fallback''"
| "SelectionReason_fmt UnhealthyFallback = ''unhealthy-fallback''"

datatype selected_route =
  Selected_Direct route_decision selection_reason
| Selected_Upstream route_decision group_id upstream_id proxy_chain_spec pending_lease selection_reason

datatype route_error =
  Rejected string reject_reason
| NoEligibleUpstream group_id
| UnknownGroup group_id

record ('re, 'net) router =
  rules :: "('re, 'net) compiled_rule list"
  default_action :: route_action_spec
  groups :: "group_id \<Rightarrow> upstream_group option"

definition Router_new :: "('re, 'net) compiled_rule list \<Rightarrow> route_action_spec \<Rightarrow> ('re, 'net) router" where
  "Router_new rs act = \<lparr>rules = rs, default_action = act, groups = Map.empty\<rparr>"

text \<open>Collecting into the hash map: a later entry replaces an earlier one with the same key.\<close>

definition Router_with_groups ::
  "('re, 'net) compiled_rule list \<Rightarrow> route_action_spec \<Rightarrow> (group_id \<times> upstream_group) list
   \<Rightarrow> ('re, 'net) router" where
  "Router_with_groups rs act gs =
    \<lparr>rules = rs, default_action = act, groups = foldl (\<lambda>m (i, g). m(i \<mapsto> g)) Map.empty gs\<rparr>"

subsection \<open>Deciding\<close>

fun action_decision :: "string \<Rightarrow> route_action_spec \<Rightarrow> route_decision" where
  "action_decision i Action_Direct = Decision_Direct i"
| "action_decision i (Action_UpstreamGroup g) = Decision_UpstreamGroup i g"
| "action_decision i (Action_Reject reason) = Decision_Reject i reason"

fun decide_rules ::
  "('re \<Rightarrow> string \<Rightarrow> bool) \<Rightarrow> ('net \<Rightarrow> ip_addr \<Rightarrow> bool) \<Rightarrow> ('re, 'net) compiled_rule list
   \<Rightarrow> route_action_spec \<Rightarrow> route_request \<Rightarrow> route_decision" where
  "decide_rules is_match cidr_contains [] act request = action_decision DEFAULT_RULE_ID act"
| "decide_rules is_match cidr_contains (r # rs) act request =
    (if matches is_match cidr_contains (rule_matcher r) request
     then action_decision (rule_id r) (rule_action r)
     else decide_rules is_match cidr_contains rs act request)"

definition decide ::
  "('re \<Rightarrow> string \<Rightarrow> bool) \<Rightarrow> ('net \<Rightarrow> ip_addr \<Rightarrow> bool) \<Rightarrow> ('re, 'net) router \<Rightarrow> route_request
   \<Rightarrow> route_decision" where
  "decide is_match cidr_contains router request =
    decide_rules is_match cidr_contains (rules router) (default_action router) request"

subsection \<open>Selecting\<close>

record 'r route_world =
  w_heap :: up_heap
  w_sched :: "group_id \<Rightarrow> 'r scheduler"

text \<open>The tail of \<^verbatim>\<open>select\<close>: take the lease and build the result.\<close>

definition take_lease ::
  "route_decision \<Rightarrow> group_id \<Rightarrow> selection_reason \<Rightarrow> up_ref \<Rightarrow> 'r route_world
   \<Rightarrow> (route_error + selected_route) \<times> 'r route_world" where
  "take_lease decision gid reason sel w =
    (let (lease, h') = PendingLease_new sel (w_heap w) in
     (Ok (Selected_Upstream decision gid (up_id (w_heap w sel)) (up_chain (w_heap w sel)) lease reason),
      w\<lparr>w_heap := h'\<rparr>))"

definition Router_select ::
  "'r rng_index \<Rightarrow> ('re, 'net) router \<Rightarrow> route_decision \<Rightarrow> 'r route_world
   \<Rightarrow> (route_error + selected_route) \<times> 'r route_world" where
  "Router_select index router decision w =
    (case decision of
       Decision_Direct _ \<Rightarrow> (Ok (Selected_Direct decision Normal), w)
     | Decision_Reject rule reason \<Rightarrow> (Err (Rejected rule reason), w)
     | Decision_UpstreamGroup _ gid \<Rightarrow>
        (case groups router gid of
           None \<Rightarrow> (Err (UnknownGroup gid), w)
         | Some g \<Rightarrow>
            (let candidates = filter (\<lambda>r. is_eligible (w_heap w r)) (members g) in
             if candidates \<noteq> [] then
               (case scheduler_select index (w_heap w) (w_sched w gid) candidates of
                  (None, s') \<Rightarrow> (Err (NoEligibleUpstream gid), w\<lparr>w_sched := (w_sched w)(gid := s')\<rparr>)
                | (Some sel, s') \<Rightarrow>
                    take_lease decision gid Normal sel (w\<lparr>w_sched := (w_sched w)(gid := s')\<rparr>))
             else
               (case fallback g of
                  Fallback_Reject \<Rightarrow> (Err (NoEligibleUpstream gid), w)
                | Fallback_Direct \<Rightarrow> (Ok (Selected_Direct decision DirectFallback), w)
                | UseUnhealthy \<Rightarrow>
                   (let enabled_members = filter (\<lambda>r. is_enabled (w_heap w r)) (members g);
                        (sel, s') = scheduler_select_enabled index (w_heap w) (w_sched w gid) enabled_members;
                        w' = w\<lparr>w_sched := (w_sched w)(gid := s')\<rparr>
                    in case (case sel of
                               Some r \<Rightarrow> Some r
                             | None \<Rightarrow> (case enabled_members of [] \<Rightarrow> None | r # _ \<Rightarrow> Some r)) of
                         None \<Rightarrow> (Err (NoEligibleUpstream gid), w')
                       | Some r \<Rightarrow> take_lease decision gid UnhealthyFallback r w')))))"

definition route ::
  "('re \<Rightarrow> string \<Rightarrow> bool) \<Rightarrow> ('net \<Rightarrow> ip_addr \<Rightarrow> bool) \<Rightarrow> 'r rng_index \<Rightarrow> ('re, 'net) router
   \<Rightarrow> route_request \<Rightarrow> 'r route_world \<Rightarrow> (route_error + selected_route) \<times> 'r route_world" where
  "route is_match cidr_contains index router request w =
    Router_select index router (decide is_match cidr_contains router request) w"

subsection \<open>The shared service\<close>

text \<open>\<^verbatim>\<open>SharedRoutingService\<close>: one atomically replaced router; a call works on the one it loads.\<close>

record ('re, 'net) shared_routing_service =
  service_router :: "('re, 'net) router"

definition SharedRoutingService_new :: "('re, 'net) router \<Rightarrow> ('re, 'net) shared_routing_service" where
  "SharedRoutingService_new r = \<lparr>service_router = r\<rparr>"

definition service_swap ::
  "('re, 'net) router \<Rightarrow> ('re, 'net) shared_routing_service \<Rightarrow> ('re, 'net) shared_routing_service" where
  "service_swap r svc = svc\<lparr>service_router := r\<rparr>"

definition policy_decision ::
  "('re \<Rightarrow> string \<Rightarrow> bool) \<Rightarrow> ('net \<Rightarrow> ip_addr \<Rightarrow> bool) \<Rightarrow> ('re, 'net) shared_routing_service
   \<Rightarrow> route_request \<Rightarrow> route_decision" where
  "policy_decision is_match cidr_contains svc request =
    decide is_match cidr_contains (service_router svc) request"

definition service_route ::
  "('re \<Rightarrow> string \<Rightarrow> bool) \<Rightarrow> ('net \<Rightarrow> ip_addr \<Rightarrow> bool) \<Rightarrow> 'r rng_index
   \<Rightarrow> ('re, 'net) shared_routing_service \<Rightarrow> route_request \<Rightarrow> 'r route_world
   \<Rightarrow> (route_error + selected_route) \<times> 'r route_world" where
  "service_route is_match cidr_contains index svc request w =
    (let inner = service_router svc in
     Router_select index inner (decide is_match cidr_contains inner request) w)"

subsection \<open>Explaining\<close>

record upstream_explanation =
  ux_id :: string
  ux_health :: string
  ux_eligible :: bool
  ux_active :: u64
  ux_in_flight :: u64

record route_explanation =
  ex_target :: string
  ex_listener :: string
  ex_protocol :: string
  ex_transport :: string
  matched_rule :: "string option"
  ex_action :: string
  ex_upstream_group :: "string option"
  ex_scheduler :: "string option"
  eligible_upstreams :: "upstream_explanation list"
  selected_upstream :: "string option"
  ex_chain :: "string option"
  generation :: u64

fun health_state_debug :: "health_state \<Rightarrow> string" where
  "health_state_debug Unknown = ''Unknown''"
| "health_state_debug Healthy = ''Healthy''"
| "health_state_debug Suspect = ''Suspect''"
| "health_state_debug Unhealthy = ''Unhealthy''"
| "health_state_debug Recovering = ''Recovering''"
| "health_state_debug Disabled = ''Disabled''"

fun scheduler_name :: "scheduler_kind \<Rightarrow> string" where
  "scheduler_name Kind_FirstAvailable = ''first-available''"
| "scheduler_name Kind_RoundRobin = ''round-robin''"
| "scheduler_name Kind_Random = ''random''"
| "scheduler_name Kind_LeastConnections = ''least-connections''"

definition explain_upstream :: "upstream_runtime \<Rightarrow> upstream_explanation" where
  "explain_upstream m =
    \<lparr>ux_id = up_id m, ux_health = health_state_debug (HealthCell_state (health m)),
     ux_eligible = is_eligible m, ux_active = active m, ux_in_flight = in_flight m\<rparr>"

definition describe_selected :: "up_heap \<Rightarrow> up_ref option \<Rightarrow> string option \<times> string option" where
  "describe_selected h sel =
    (case sel of
       Some r \<Rightarrow> (Some (up_id (h r)), Some (RedactedUri_fmt (up_chain (h r))))
     | None \<Rightarrow> (None, None))"

text \<open>The upstream an explanation names for a group, with the scheduler state afterwards.\<close>

definition explain_selection ::
  "'r rng_index \<Rightarrow> upstream_group \<Rightarrow> up_heap \<Rightarrow> 'r scheduler \<Rightarrow> up_ref option \<times> 'r scheduler" where
  "explain_selection index g h s =
    (let candidates = filter (\<lambda>r. is_eligible (h r)) (members g) in
     if candidates \<noteq> [] then scheduler_preview index h s candidates
     else (case fallback g of
             UseUnhealthy \<Rightarrow>
               (let enabled_members = filter (\<lambda>r. is_enabled (h r)) (members g) in
                case enabled_members of
                  [] \<Rightarrow> (None, s)
                | first # _ \<Rightarrow>
                    (let (sel, s') = scheduler_preview index h s enabled_members
                     in (Some (case sel of Some r \<Rightarrow> r | None \<Rightarrow> first), s')))
           | _ \<Rightarrow> (None, s)))"

definition explain ::
  "('re \<Rightarrow> string \<Rightarrow> bool) \<Rightarrow> ('net \<Rightarrow> ip_addr \<Rightarrow> bool) \<Rightarrow> 'r rng_index \<Rightarrow> ('re, 'net) router
   \<Rightarrow> route_request \<Rightarrow> u64 \<Rightarrow> 'r route_world \<Rightarrow> route_explanation \<times> 'r route_world" where
  "explain is_match cidr_contains index router request gen w =
    (let base = (\<lambda>rule action grp sch elig sel ch.
           \<lparr>ex_target = TargetAddr_fmt (req_target request), ex_listener = req_listener request,
            ex_protocol = ProtocolId_fmt (inbound_protocol request),
            ex_transport = TransportKind_fmt (req_transport request),
            matched_rule = Some rule, ex_action = action, ex_upstream_group = grp,
            ex_scheduler = sch, eligible_upstreams = elig, selected_upstream = sel,
            ex_chain = ch, generation = gen\<rparr>)
     in case decide is_match cidr_contains router request of
          Decision_Direct rule \<Rightarrow> (base rule ''direct'' None None [] None None, w)
        | Decision_Reject rule reason \<Rightarrow>
            (base rule (''reject('' @ RejectReason_fmt reason @ '')'') None None [] None None, w)
        | Decision_UpstreamGroup rule gid \<Rightarrow>
           (case groups router gid of
              None \<Rightarrow> (base rule (''upstream group '' @ gid) (Some gid) None [] None None, w)
            | Some g \<Rightarrow>
               (let (sel, s') = explain_selection index g (w_heap w) (w_sched w gid);
                    (sel_id, sel_chain) = describe_selected (w_heap w) sel
                in (base rule (''upstream group '' @ gid) (Some gid)
                      (Some (scheduler_name (scheduler_kind g)))
                      (map (\<lambda>r. explain_upstream (w_heap w r)) (members g)) sel_id sel_chain,
                    w\<lparr>w_sched := (w_sched w)(gid := s')\<rparr>))))"

subsection \<open>First match\<close>

lemma decide_rules_skip:
  "list_all (\<lambda>r. \<not> matches m c (rule_matcher r) request) before \<Longrightarrow>
   decide_rules m c (before @ rs) act request = decide_rules m c rs act request"
  by (induction before) auto

text \<open>
  The first matching rule decides. When no rule before it matches and it matches, a rule's
  action is the decision under its own identifier, whatever follows it; when no rule matches,
  the decision is the default action under the identifier \<open>default\<close>.
\<close>

lemma decide_first_match:
  assumes "list_all (\<lambda>r. \<not> matches m c (rule_matcher r) request) before"
  shows "decide m c \<lparr>rules = before @ after, default_action = act, groups = gs\<rparr> request =
    (case after of
       [] \<Rightarrow> action_decision DEFAULT_RULE_ID act
     | r # later \<Rightarrow>
        if matches m c (rule_matcher r) request then action_decision (rule_id r) (rule_action r)
        else decide m c \<lparr>rules = later, default_action = act, groups = gs\<rparr> request)"
  using decide_rules_skip [OF assms, of after act]
  by (cases after) (simp_all add: decide_def)

definition sample_request :: route_request where
  "sample_request =
    \<lparr>req_target = \<lparr>tgt_host = Domain ''www.example.com'', tgt_port = 443\<rparr>, req_source = None,
     req_listener = ''main'', inbound_protocol = Id_Socks5, req_identity = Anonymous,
     req_transport = Tcp\<rparr>"

lemma decide_first_match_witness:
  "decide (\<lambda>_ _. False) (\<lambda>_ _. False)
     \<lparr>rules = [\<lparr>rule_id = ''udp'', rule_matcher = Transport Udp, rule_action = Action_Reject Blocked\<rparr>,
               \<lparr>rule_id = ''ex'', rule_matcher = HostSuffix ''example.com'', rule_action = Action_UpstreamGroup ''g''\<rparr>,
               \<lparr>rule_id = ''any'', rule_matcher = Any, rule_action = Action_Direct\<rparr>],
      default_action = Action_Direct, groups = Map.empty\<rparr> sample_request
   = Decision_UpstreamGroup ''ex'' ''g''"
proof -
  let ?m = "\<lambda>_ _. False" and ?c = "\<lambda>_ _. False"
  have b: "list_all (\<lambda>r. \<not> matches ?m ?c (rule_matcher r) sample_request)
      [\<lparr>rule_id = ''udp'', rule_matcher = Transport Udp, rule_action = Action_Reject Blocked\<rparr>]"
    by (simp add: sample_request_def)
  have s: "host_matches_suffix ''www.example.com'' ''example.com''" by code_simp
  show ?thesis
    using decide_first_match [OF b, where act = Action_Direct and gs = Map.empty and
        after = "[\<lparr>rule_id = ''ex'', rule_matcher = HostSuffix ''example.com'', rule_action = Action_UpstreamGroup ''g''\<rparr>,
                  \<lparr>rule_id = ''any'', rule_matcher = Any, rule_action = Action_Direct\<rparr>]"]
    by (simp add: sample_request_def s)
qed

subsection \<open>What a selection returns\<close>

definition world_ok :: "('r \<Rightarrow> bool) \<Rightarrow> 'r route_world \<Rightarrow> bool" where
  "world_ok usable w \<longleftrightarrow> (\<forall>gid. scheduler_ok usable (w_sched w gid))"

lemma scheduler_select_filtered:
  assumes "random_source index usable" "scheduler_ok usable s" "filter (\<lambda>r. is_eligible (h r)) us \<noteq> []"
  shows "\<exists>r s'. scheduler_select index h s (filter (\<lambda>r. is_eligible (h r)) us) = (Some r, s') \<and>
    r \<in> set us \<and> is_eligible (h r) \<and> scheduler_ok usable s'"
  using upstream_scheduler.pick_up_filtered [OF scheduler_object [OF assms(1)] assms(2), of "\<lambda>r. is_eligible (h r)" us h] assms(3)
  by (simp add: scheduler_select_def)

lemma scheduler_select_enabled_filtered:
  assumes "random_source index usable" "scheduler_ok usable s" "filter (\<lambda>r. is_enabled (h r)) us \<noteq> []"
  shows "\<exists>r s'. scheduler_select_enabled index h s (filter (\<lambda>r. is_enabled (h r)) us) = (Some r, s') \<and>
    r \<in> set us \<and> is_enabled (h r) \<and> scheduler_ok usable s'"
  using upstream_scheduler.pick_up_filtered [OF scheduler_object [OF assms(1)] assms(2), of "\<lambda>r. is_enabled (h r)" us h] assms(3)
  by (simp add: scheduler_select_enabled_def)

lemma scheduler_select_enabled_none:
  assumes "random_source index usable" "scheduler_ok usable s"
  shows "\<exists>s'. scheduler_select_enabled index h s [] = (None, s') \<and> scheduler_ok usable s'"
proof -
  have "fst (scheduler_select_enabled index h s []) = None"
    using upstream_scheduler.pick_up_None_iff [OF scheduler_object [OF assms(1)] assms(2), of h _ "[]"]
    by (simp add: scheduler_select_enabled_def)
  moreover have "scheduler_ok usable (snd (scheduler_select_enabled index h s []))"
    using upstream_scheduler.pick_up_ok [OF scheduler_object [OF assms(1)] assms(2)]
    by (simp add: scheduler_select_enabled_def)
  ultimately show ?thesis by (metis prod.collapse)
qed

text \<open>The contract of a group selection, as a specification over the world before the call.\<close>

definition selected_from ::
  "('re, 'net) router \<Rightarrow> 'r route_world \<Rightarrow> route_decision \<Rightarrow> group_id \<Rightarrow> upstream_group
   \<Rightarrow> (up_ref \<Rightarrow> bool) \<Rightarrow> selection_reason \<Rightarrow> (route_error + selected_route) \<times> 'r route_world \<Rightarrow> bool" where
  "selected_from router w decision gid g P reason result \<longleftrightarrow>
    (\<exists>r. r \<in> set (members g) \<and> P r \<and>
      fst result = Ok (Selected_Upstream decision gid (up_id (w_heap w r)) (up_chain (w_heap w r))
        \<lparr>lease_upstream = r, lease_state = Pending\<rparr> reason) \<and>
      w_heap (snd result) = in_flight_inc r (w_heap w))"

definition group_contract ::
  "('re, 'net) router \<Rightarrow> 'r route_world \<Rightarrow> route_decision \<Rightarrow> group_id \<Rightarrow> upstream_group
   \<Rightarrow> (route_error + selected_route) \<times> 'r route_world \<Rightarrow> bool" where
  "group_contract router w decision gid g result \<longleftrightarrow>
    (if \<exists>r \<in> set (members g). is_eligible (w_heap w r)
     then selected_from router w decision gid g (\<lambda>r. is_eligible (w_heap w r)) Normal result
     else (case fallback g of
             Fallback_Reject \<Rightarrow> result = (Err (NoEligibleUpstream gid), w)
           | Fallback_Direct \<Rightarrow> result = (Ok (Selected_Direct decision DirectFallback), w)
           | UseUnhealthy \<Rightarrow>
              if \<exists>r \<in> set (members g). is_enabled (w_heap w r)
              then selected_from router w decision gid g (\<lambda>r. is_enabled (w_heap w r))
                     UnhealthyFallback result
              else fst result = Err (NoEligibleUpstream gid) \<and> w_heap (snd result) = w_heap w))"

lemma take_lease_selected:
  "r \<in> set (members g) \<Longrightarrow> P r \<Longrightarrow>
   selected_from router w decision gid g P reason
     (take_lease decision gid reason r (w\<lparr>w_sched := sch\<rparr>))"
  by (auto simp: selected_from_def take_lease_def PendingLease_new_def Let_def)

lemma Router_select_group:
  assumes src: "random_source index usable" and ok: "world_ok usable w"
    and d: "decision = Decision_UpstreamGroup rule gid" and g: "groups router gid = Some g"
  shows "group_contract router w decision gid g (Router_select index router decision w)"
proof -
  have sok: "scheduler_ok usable (w_sched w gid)" using ok by (simp add: world_ok_def)
  show ?thesis
  proof (cases "filter (\<lambda>r. is_eligible (w_heap w r)) (members g) = []")
    case False
    then have ex: "\<exists>r \<in> set (members g). is_eligible (w_heap w r)" by (auto simp: filter_empty_conv)
    from scheduler_select_filtered [OF src sok False] obtain r s' where
      "scheduler_select index (w_heap w) (w_sched w gid) (filter (\<lambda>r. is_eligible (w_heap w r)) (members g)) = (Some r, s')"
      "r \<in> set (members g)" "is_eligible (w_heap w r)" by blast
    then show ?thesis
      using False ex by (simp add: group_contract_def Router_select_def d g take_lease_selected)
  next
    case True
    then have nex: "\<not> (\<exists>r \<in> set (members g). is_eligible (w_heap w r))" by (auto simp: filter_empty_conv)
    show ?thesis
    proof (cases "fallback g = UseUnhealthy")
      case False
      with True nex show ?thesis
        by (cases "fallback g") (auto simp: group_contract_def Router_select_def d g)
    next
      case uu: True
      show ?thesis
      proof (cases "filter (\<lambda>r. is_enabled (w_heap w r)) (members g) = []")
        case en: True
        then have "\<not> (\<exists>r \<in> set (members g). is_enabled (w_heap w r))" by (auto simp: filter_empty_conv)
        moreover from scheduler_select_enabled_none [OF src sok, of "w_heap w"] obtain s' where
          "scheduler_select_enabled index (w_heap w) (w_sched w gid) [] = (None, s')" by blast
        ultimately show ?thesis
          using True nex uu en by (simp add: group_contract_def Router_select_def d g)
      next
        case en: False
        then have "\<exists>r \<in> set (members g). is_enabled (w_heap w r)" by (auto simp: filter_empty_conv)
        moreover from scheduler_select_enabled_filtered [OF src sok en] obtain r s' where
          "scheduler_select_enabled index (w_heap w) (w_sched w gid)
             (filter (\<lambda>r. is_enabled (w_heap w r)) (members g)) = (Some r, s')"
          "r \<in> set (members g)" "is_enabled (w_heap w r)" by blast
        ultimately show ?thesis
          using True nex uu by (simp add: group_contract_def Router_select_def d g take_lease_selected)
      qed
    qed
  qed
qed

lemma route_simps:
  "decide m c router request = Decision_Direct rule \<Longrightarrow>
    route m c index router request w = (Ok (Selected_Direct (Decision_Direct rule) Normal), w)"
  "decide m c router request = Decision_Reject rule reason \<Longrightarrow>
    route m c index router request w = (Err (Rejected rule reason), w)"
  "decide m c router request = Decision_UpstreamGroup rule gid \<Longrightarrow> groups router gid = None \<Longrightarrow>
    route m c index router request w = (Err (UnknownGroup gid), w)"
  by (simp_all add: route_def Router_select_def)

lemma route_group:
  assumes "random_source index usable" "world_ok usable w"
    "decide m c router request = Decision_UpstreamGroup rule gid" "groups router gid = Some g"
  shows "group_contract router w (Decision_UpstreamGroup rule gid) gid g (route m c index router request w)"
  using Router_select_group [OF assms(1,2) refl assms(4)] by (simp add: route_def assms(3))

text \<open>
  C2: what routing promises. With a usable random source, \<^verbatim>\<open>route\<close> returns exactly one of: the
  direct route or the rejection that the decision asks for; an unknown-group error; and for a
  known group a member that is eligible whenever one is (reason \<open>Normal\<close>), otherwise the
  outcome of the group's fallback, where \<open>UseUnhealthy\<close> hands out an enabled member. The selected
  upstream's identifier and chain come from that member, its in-flight counter and nothing else
  in the heap changes, and on every other outcome the heap is unchanged.
\<close>

theorem route_refines_contract:
  assumes "random_source index usable" "world_ok usable w"
  shows "case decide m c router request of
      Decision_Direct rule \<Rightarrow>
        route m c index router request w = (Ok (Selected_Direct (Decision_Direct rule) Normal), w)
    | Decision_Reject rule reason \<Rightarrow>
        route m c index router request w = (Err (Rejected rule reason), w)
    | Decision_UpstreamGroup rule gid \<Rightarrow>
       (case groups router gid of
          None \<Rightarrow> route m c index router request w = (Err (UnknownGroup gid), w)
        | Some g \<Rightarrow>
            group_contract router w (Decision_UpstreamGroup rule gid) gid g
              (route m c index router request w))"
  using route_group [OF assms] by (auto simp: route_simps split: route_decision.split option.split)

definition sample_router :: "scheduler_kind \<Rightarrow> group_fallback \<Rightarrow> (string, string) router" where
  "sample_router kind fb =
    Router_with_groups [] (Action_UpstreamGroup ''g'')
      [(''g'', \<lparr>grp_id = ''g'', scheduler_kind = kind, members = [0, 1], fallback = fb\<rparr>)]"

definition sample_world :: "scheduler_kind \<Rightarrow> deterministic_random route_world" where
  "sample_world kind =
    \<lparr>w_heap = (\<lambda>r. if r = 0 then sample_up ''a'' else sample_up ''b''),
     w_sched = (\<lambda>_. resolve_scheduler (DeterministicRandom_new [7]) kind)\<rparr>"

lemma sample_world_ok [simp]: "world_ok (\<lambda>d. det_values d \<noteq> []) (sample_world kind)"
  by (cases kind)
    (auto simp: world_ok_def sample_world_def resolve_scheduler_def scheduler_ok_def
      DeterministicRandom_new_def)

lemma sample_decide [simp]:
  "decide m c (sample_router kind fb) request = Decision_UpstreamGroup DEFAULT_RULE_ID ''g''"
  by (simp add: decide_def sample_router_def Router_with_groups_def)

lemma sample_groups [simp]:
  "groups (sample_router kind fb) ''g'' =
    Some \<lparr>grp_id = ''g'', scheduler_kind = kind, members = [0, 1], fallback = fb\<rparr>"
  by (simp add: sample_router_def Router_with_groups_def)

lemma sample_eligible [simp]: "is_eligible (w_heap (sample_world kind) r)"
  by (simp add: sample_world_def)

theorem route_refines_contract_witness:
  "selected_from (sample_router Kind_Random Fallback_Reject) (sample_world Kind_Random)
     (Decision_UpstreamGroup DEFAULT_RULE_ID ''g'') ''g''
     \<lparr>grp_id = ''g'', scheduler_kind = Kind_Random, members = [0, 1], fallback = Fallback_Reject\<rparr>
     (\<lambda>r. is_eligible (w_heap (sample_world Kind_Random) r)) Normal
     (route (=) (\<lambda>_ _. False) DeterministicRandom_index (sample_router Kind_Random Fallback_Reject)
        sample_request (sample_world Kind_Random))"
  using route_refines_contract [OF det.random_source_axioms sample_world_ok [of Kind_Random],
      where m = "(=)" and c = "\<lambda>_ _. False" and request = sample_request
        and router = "sample_router Kind_Random Fallback_Reject"]
  by (simp add: group_contract_def ex_disj_distrib)

lemma take_lease_heap:
  assumes "take_lease decision gid reason sel w = (res, w')"
  shows "\<exists>u chain. res = Ok (Selected_Upstream decision gid u chain \<lparr>lease_upstream = sel, lease_state = Pending\<rparr> reason) \<and>
    w_heap w' = in_flight_inc sel (w_heap w)"
  using assms by (auto simp: take_lease_def PendingLease_new_def)

text \<open>A routing call changes the heap only by the pending lease that it returns.\<close>

lemma Router_select_heap:
  assumes "Router_select index router decision w = (res, w')"
  shows "case res of
      Inr (Selected_Upstream _ _ _ _ lease _) \<Rightarrow> lease_state lease = Pending \<and> w_heap w' = in_flight_inc (lease_upstream lease) (w_heap w)
    | _ \<Rightarrow> w_heap w' = w_heap w"
proof (cases decision)
  case (Decision_UpstreamGroup rule gid)
  show ?thesis
  proof (cases "groups router gid")
    case (Some g)
    have tl: "take_lease d i r s v = (res, w') \<Longrightarrow> w_heap v = w_heap w \<Longrightarrow> ?thesis" for d i r s v
      using take_lease_heap [of d i r s v res w'] by auto
    show ?thesis
      using assms Decision_UpstreamGroup Some
      by (auto simp: Router_select_def Let_def dest!: tl split: if_splits prod.splits option.splits group_fallback.splits list.splits)
  qed (use assms Decision_UpstreamGroup in \<open>auto simp: Router_select_def\<close>)
qed (use assms in \<open>auto simp: Router_select_def\<close>)

lemma take_lease_Ok:
  "fst (take_lease decision gid reason r w) =
    Ok (Selected_Upstream decision gid (up_id (w_heap w r)) (up_chain (w_heap w r))
      \<lparr>lease_upstream = r, lease_state = Pending\<rparr> reason)"
  by (simp add: take_lease_def PendingLease_new_def)

text \<open>
  Disabled upstreams are never handed out. Whenever \<^verbatim>\<open>route\<close> returns an upstream, for any
  rules, scheduler and random source satisfying its contract, the upstream leased is an enabled
  member of the decided group, it is eligible unless the reason says the unhealthy fallback was
  taken, and in that case no member of the group was eligible.
\<close>

lemma route_never_disabled:
  assumes "random_source index usable" "world_ok usable w"
    and "fst (route m c index router request w) = Ok (Selected_Upstream d gid uid chain lease reason)"
  shows "\<exists>g. groups router gid = Some g \<and> lease_upstream lease \<in> set (members g) \<and>
    is_enabled (w_heap w (lease_upstream lease)) \<and>
    (is_eligible (w_heap w (lease_upstream lease)) \<or>
     reason = UnhealthyFallback \<and> fallback g = UseUnhealthy \<and>
     list_all (\<lambda>r. \<not> is_eligible (w_heap w r)) (members g))"
proof (cases "decide m c router request")
  case (Decision_UpstreamGroup rule gid')
  show ?thesis
  proof (cases "groups router gid'")
    case (Some g)
    from route_group [OF assms(1,2) Decision_UpstreamGroup Some] assms(3) have
      "gid = gid' \<and> lease_upstream lease \<in> set (members g) \<and>
       is_enabled (w_heap w (lease_upstream lease)) \<and>
       (is_eligible (w_heap w (lease_upstream lease)) \<or>
        reason = UnhealthyFallback \<and> fallback g = UseUnhealthy \<and>
        (\<forall>r \<in> set (members g). \<not> is_eligible (w_heap w r)))"
      by (auto simp: group_contract_def selected_from_def is_eligible_enabled
          split: if_splits group_fallback.splits)
    with Some show ?thesis by (auto simp: list_all_iff)
  next
    case None
    with assms(3) route_simps(3) [OF Decision_UpstreamGroup None, of index w] show ?thesis by simp
  qed
qed (use assms(3) in \<open>simp_all add: route_simps\<close>)

lemma route_never_disabled_witness:
  "is_enabled (w_heap (sample_world Kind_RoundRobin) 0) \<and>
   fst (route (=) (\<lambda>_ _. False) DeterministicRandom_index (sample_router Kind_RoundRobin UseUnhealthy)
     sample_request (sample_world Kind_RoundRobin)) =
   Ok (Selected_Upstream (Decision_UpstreamGroup DEFAULT_RULE_ID ''g'') ''g'' ''a'' \<lparr>hops = []\<rparr>
     \<lparr>lease_upstream = 0, lease_state = Pending\<rparr> Normal)"
proof -
  have r: "fst (route (=) (\<lambda>_ _. False) DeterministicRandom_index (sample_router Kind_RoundRobin UseUnhealthy)
     sample_request (sample_world Kind_RoundRobin)) =
   Ok (Selected_Upstream (Decision_UpstreamGroup DEFAULT_RULE_ID ''g'') ''g'' ''a'' \<lparr>hops = []\<rparr>
     \<lparr>lease_upstream = 0, lease_state = Pending\<rparr> Normal)"
    by (simp add: route_def Router_select_def scheduler_select_def select_with_def resolve_scheduler_def
        select_round_robin_def take_lease_Ok)
      (simp add: sample_world_def resolve_scheduler_def select_round_robin_def take_lease_Ok sample_up_def
        UpstreamRuntime_new_def)
  from route_never_disabled [OF det.random_source_axioms sample_world_ok r] r show ?thesis by auto
qed

subsection \<open>Explanations\<close>

lemma explain_group:
  assumes "decide m c router request = Decision_UpstreamGroup rule gid" "groups router gid = Some g"
  shows "selected_upstream (fst (explain m c index router request gen w)) =
      map_option (\<lambda>r. up_id (w_heap w r)) (fst (explain_selection index g (w_heap w) (w_sched w gid)))"
    "w_heap (snd (explain m c index router request gen w)) = w_heap w"
    "w_sched (snd (explain m c index router request gen w)) =
      (w_sched w)(gid := snd (explain_selection index g (w_heap w) (w_sched w gid)))"
  using assms
  by (cases "explain_selection index g (w_heap w) (w_sched w gid)";
      auto simp: explain_def describe_selected_def Let_def split: option.splits)+

text \<open>With an eligible member, the explanation names the member the scheduler would take.\<close>

lemma explain_eligible:
  assumes "random_source index usable" "world_ok usable w"
    and "decide m c router request = Decision_UpstreamGroup rule gid" "groups router gid = Some g"
    and "r0 \<in> set (members g)" "is_eligible (w_heap w r0)"
  shows "\<exists>uid chain lease.
      fst (route m c index router request w) =
        Ok (Selected_Upstream (Decision_UpstreamGroup rule gid) gid uid chain lease Normal) \<and>
      selected_upstream (fst (explain m c index router request gen w)) = Some uid \<and>
      w_heap (snd (explain m c index router request gen w)) = w_heap w \<and>
      (case w_sched w gid of
         FirstAvailableScheduler \<Rightarrow> w_sched (snd (explain m c index router request gen w)) = w_sched w
       | RoundRobinScheduler _ \<Rightarrow> w_sched (snd (explain m c index router request gen w)) = w_sched w
       | _ \<Rightarrow> True)"
proof -
  let ?cs = "filter (\<lambda>r. is_eligible (w_heap w r)) (members g)"
  have ne: "?cs \<noteq> []" using assms(5,6) by (auto simp: filter_empty_conv)
  have sok: "scheduler_ok usable (w_sched w gid)" using assms(2) by (simp add: world_ok_def)
  from scheduler_select_filtered [OF assms(1) sok ne] obtain r s' where
    sel: "scheduler_select index (w_heap w) (w_sched w gid) ?cs = (Some r, s')" by blast
  have pre: "explain_selection index g (w_heap w) (w_sched w gid) =
      scheduler_preview index (w_heap w) (w_sched w gid) ?cs"
    using ne by (simp add: explain_selection_def)
  have "fst (scheduler_preview index (w_heap w) (w_sched w gid) ?cs) = Some r"
    using scheduler_preview_next [OF ne, of "w_heap w" index "w_sched w gid"] sel by simp
  then have ex: "selected_upstream (fst (explain m c index router request gen w)) = Some (up_id (w_heap w r))"
    by (simp add: explain_group [OF assms(3,4)] pre)
  have "fst (route m c index router request w) =
      Ok (Selected_Upstream (Decision_UpstreamGroup rule gid) gid (up_id (w_heap w r)) (up_chain (w_heap w r))
        \<lparr>lease_upstream = r, lease_state = Pending\<rparr> Normal)"
    using ne sel by (simp add: route_def Router_select_def assms(3,4) take_lease_Ok)
  moreover have "case w_sched w gid of
         FirstAvailableScheduler \<Rightarrow> w_sched (snd (explain m c index router request gen w)) = w_sched w
       | RoundRobinScheduler _ \<Rightarrow> w_sched (snd (explain m c index router request gen w)) = w_sched w
       | _ \<Rightarrow> True"
    unfolding explain_group(3) [OF assms(3,4)] pre
    by (cases "w_sched w gid")
      (simp_all add: scheduler_preview_def scheduler_select_def select_with_def fun_upd_idem)
  ultimately show ?thesis using ex explain_group(2) [OF assms(3,4)] by blast
qed

text \<open>The upstream of a route.\<close>

definition routed_upstream :: "route_error + selected_route \<Rightarrow> string option" where
  "routed_upstream res = (case res of Inr (Selected_Upstream _ _ uid _ _ _) \<Rightarrow> Some uid | _ \<Rightarrow> None)"

text \<open>
  C23: an explanation announces the next route. Unless the decision is for a group that falls back to its
  unhealthy members and has no eligible one (there the explanation names the first enabled member, while the
  route asks the scheduler), \<^verbatim>\<open>explain\<close> names as selected upstream the one that \<^verbatim>\<open>route\<close> would return
  from the same state, and none when \<^verbatim>\<open>route\<close> returns a direct route or an error, for each of the four
  schedulers; it changes no upstream, and with the first-available and the round-robin scheduler it changes no
  scheduler either.
\<close>

theorem explain_announces_route:
  assumes "random_source index usable" "world_ok usable w"
    and "\<And>rule gid g. decide m c router request = Decision_UpstreamGroup rule gid \<Longrightarrow> groups router gid = Some g \<Longrightarrow>
      fallback g = UseUnhealthy \<Longrightarrow> list_ex (\<lambda>r. is_eligible (w_heap w r)) (members g)"
  shows "selected_upstream (fst (explain m c index router request gen w)) = routed_upstream (fst (route m c index router request w)) \<and>
    w_heap (snd (explain m c index router request gen w)) = w_heap w \<and>
    (\<forall>gid. case w_sched w gid of
       FirstAvailableScheduler \<Rightarrow> w_sched (snd (explain m c index router request gen w)) gid = w_sched w gid
     | RoundRobinScheduler _ \<Rightarrow> w_sched (snd (explain m c index router request gen w)) gid = w_sched w gid
     | _ \<Rightarrow> True)"
proof (cases "decide m c router request")
  case (Decision_UpstreamGroup rule gid)
  show ?thesis
  proof (cases "groups router gid")
    case None
    with Decision_UpstreamGroup show ?thesis
      by (simp add: explain_def route_simps routed_upstream_def Let_def split: scheduler.split)
  next
    case (Some g)
    note ex = explain_group [OF Decision_UpstreamGroup Some, of index gen w]
    show ?thesis
    proof (cases "list_ex (\<lambda>r. is_eligible (w_heap w r)) (members g)")
      case True
      then obtain r where "r \<in> set (members g)" "is_eligible (w_heap w r)" by (auto simp: list_ex_iff)
      note e = explain_eligible [OF assms(1,2) Decision_UpstreamGroup Some this, of gen]
      have "case w_sched w k of
          FirstAvailableScheduler \<Rightarrow> w_sched (snd (explain m c index router request gen w)) k = w_sched w k
        | RoundRobinScheduler _ \<Rightarrow> w_sched (snd (explain m c index router request gen w)) k = w_sched w k
        | _ \<Rightarrow> True" for k
        using e by (cases "k = gid") (auto simp: ex(3) split: scheduler.splits dest: fun_cong [where x = gid])
      with e show ?thesis by (auto simp: routed_upstream_def)
    next
      case False
      then have none: "filter (\<lambda>r. is_eligible (w_heap w r)) (members g) = []" by (auto simp: filter_empty_conv list_ex_iff)
      then have "explain_selection index g (w_heap w) (w_sched w gid) = (None, w_sched w gid)"
        using assms(3) [OF Decision_UpstreamGroup Some] False by (auto simp: explain_selection_def split: group_fallback.split)
      moreover have "routed_upstream (fst (route m c index router request w)) = None"
        using none assms(3) [OF Decision_UpstreamGroup Some] False
        by (auto simp: route_def Router_select_def Decision_UpstreamGroup Some routed_upstream_def split: group_fallback.split)
      ultimately show ?thesis using ex by (simp split: scheduler.split)
    qed
  qed
qed (simp_all add: explain_def route_simps routed_upstream_def Let_def split: scheduler.split)

theorem explain_announces_route_witness:
  "selected_upstream (fst (explain (=) (\<lambda>_ _. False) DeterministicRandom_index
     (sample_router Kind_LeastConnections Fallback_Reject) sample_request 1 (sample_world Kind_LeastConnections))) =
   routed_upstream (fst (route (=) (\<lambda>_ _. False) DeterministicRandom_index
     (sample_router Kind_LeastConnections Fallback_Reject) sample_request (sample_world Kind_LeastConnections)))"
  by (rule conjunct1, rule explain_announces_route [OF det.random_source_axioms sample_world_ok [of Kind_LeastConnections]]) auto

text \<open>
  A preview that is not one: explaining a group with the least-connections scheduler advances
  its cursor, so two explanations in a row name different upstreams.
\<close>

lemma explain_moves_least_connections:
  "w_sched (snd (explain (=) (\<lambda>_ _. False) DeterministicRandom_index
     (sample_router Kind_LeastConnections Fallback_Reject) sample_request 1
     (sample_world Kind_LeastConnections))) ''g'' = LeastConnectionsScheduler 1"
  by (simp add: explain_group(3) [OF sample_decide sample_groups] explain_selection_def
      scheduler_preview_def scheduler_select_def select_with_def)
    (simp add: sample_world_def resolve_scheduler_def scheduler_select_def select_with_def
      select_least_connections_def Let_def)

end
