(* ===== verification/Net_Text.thy ===== *)
theory Net_Text
  imports Core_Types
begin

text \<open>
  The textual form of addresses and targets in both directions: the printers of \<open>Net_Addr\<close> and
  \<open>Core_Types\<close> followed by their parsers give the address back, with the IPv6 zero-run compression
  and the dotted form of mapped addresses.
\<close>

subsection \<open>Numbers\<close>

lemma read_digits_show:
  assumes "2 \<le> radix" "radix \<le> 16"
  shows "read_digits radix 0 k (show_radix radix n @ t) = read_digits radix n (k + length (show_radix radix n)) t"
  using assms
proof (induction radix n arbitrary: t rule: show_radix.induct)
  case (1 radix n)
  show ?case
  proof (cases "n < radix")
    case True
    with 1 show ?thesis by (simp add: show_radix.simps [of radix n])
  next
    case False
    with 1 show ?thesis by (simp add: show_radix.simps [of radix n])
  qed
qed

definition stops :: "nat \<Rightarrow> string \<Rightarrow> bool" where
  "stops radix t \<longleftrightarrow> t = [] \<or> digit_val radix (hd t) = None"

lemma read_digits_stops: "stops radix t \<Longrightarrow> read_digits radix a c t = (a, c, t)"
  by (cases t) (auto simp: stops_def)

lemma stops_simps [simp]:
  "stops radix []" "radix \<le> 16 \<Longrightarrow> stops radix (CHR '':'' # t)" "radix \<le> 16 \<Longrightarrow> stops radix (CHR ''.'' # t)"
  "radix \<le> 16 \<Longrightarrow> stops radix (CHR '']'' # t)"
  by (simp_all add: stops_def digit_val_def Let_def)

lemma length_show_radix: "2 \<le> radix \<Longrightarrow> n < radix ^ k \<Longrightarrow> 0 < k \<Longrightarrow> length (show_radix radix n) \<le> k"
proof (induction radix n arbitrary: k rule: show_radix.induct)
  case (1 radix n)
  show ?case
  proof (cases "n < radix")
    case True
    with 1 show ?thesis by (simp add: show_radix.simps [of radix n])
  next
    case False
    then obtain j where k: "k = Suc j" "0 < j" using "1.prems" by (cases k; cases "k - 1") auto
    have "n div radix < radix ^ j" using "1.prems" k by (simp add: less_mult_imp_div_less mult.commute)
    then have "length (show_radix radix (n div radix)) \<le> j" using 1 False k by auto
    with False "1.prems" k show ?thesis by (simp add: show_radix.simps [of radix n])
  qed
qed

lemma digit_char_zero: "d < 16 \<Longrightarrow> digit_char d = CHR ''0'' \<longleftrightarrow> d = 0"
  by (auto simp: digit_char_def char_of_eq_iff take_bit_eq_mod)

lemma hd_show_radix:
  assumes "2 \<le> radix" "radix \<le> 16" "n \<noteq> 0"
  shows "hd (show_radix radix n) \<noteq> CHR ''0''"
  using assms
proof (induction radix n rule: show_radix.induct)
  case (1 radix n)
  show ?case
  proof (cases "n < radix")
    case True
    with 1 show ?thesis by (simp add: show_radix.simps [of radix n] digit_char_zero)
  next
    case False
    then have "n div radix \<noteq> 0" using "1.prems" by (simp add: div_eq_0_iff)
    with 1 False show ?thesis by (simp add: show_radix.simps [of radix n])
  qed
qed

lemma read_number_show:
  assumes "2 \<le> radix" "radix \<le> 16" "n < bound" "n < radix ^ m" "0 < m" "stops radix t"
  shows "read_number radix m z bound (show_radix radix n @ t) = Some (n, t)"
proof -
  have r: "read_digits radix 0 0 (show_radix radix n @ t) = (n, length (show_radix radix n), t)"
    using read_digits_show [OF assms(1,2), of 0 n t] read_digits_stops [OF assms(6)] by simp
  have z: "\<not> (hd (show_radix radix n @ t) = CHR ''0'' \<and> 1 < length (show_radix radix n))"
  proof (cases "n = 0")
    case True
    then show ?thesis using assms(1) by (simp add: show_radix.simps [of radix 0])
  qed (use hd_show_radix [OF assms(1,2)] in auto)
  show ?thesis
    using r z length_show_radix [OF assms(1,4,5)] assms(3) by (auto simp: read_number_def Let_def)
qed

lemma read_number_none: "stops radix s \<Longrightarrow> read_number radix m z bound s = None"
  by (simp add: read_number_def read_digits_stops)

lemma read_digits_suffix: "read_digits radix a c s = (v, n, rest) \<Longrightarrow> set rest \<subseteq> set s"
  by (induction radix a c s rule: read_digits.induct) (auto split: option.splits)

lemma read_number_suffix: "read_number radix m z bound s = Some (v, rest) \<Longrightarrow> set rest \<subseteq> set s"
  by (auto simp: read_number_def Let_def split: if_splits prod.splits dest: read_digits_suffix)

subsection \<open>IPv4\<close>

lemma read_v4_octet:
  "stops 10 t \<Longrightarrow> read_number 10 3 False 256 (show_nat (unat (b :: u8)) @ t) = Some (unat b, t)"
proof (rule read_number_show)
  show "unat b < 256" by (rule unat_u8_less)
  then show "unat b < 10 ^ 3" by (rule less_le_trans) simp
qed auto

lemma read_octets_show:
  "stops 10 t \<Longrightarrow> read_octets (Suc i) (length os) (concat (map (\<lambda>b. CHR ''.'' # show_nat (unat b)) os) @ t) = Some (os, t)"
proof (induction os arbitrary: i)
  case (Cons b os)
  have "stops 10 (concat (map (\<lambda>b. CHR ''.'' # show_nat (unat b)) os) @ t)"
    using Cons.prems by (cases os) auto
  with Cons show ?case by (simp add: read_separator_def read_given_char_def read_v4_octet)
qed simp

lemma read_ipv4_show:
  assumes "length os = 4" "stops 10 t"
  shows "read_ipv4_addr (v4_to_string os @ t) = Some (os, t)"
proof -
  from assms(1) obtain a b c d where os: "os = [a, b, c, d]"
    by (auto simp: numeral_eq_Suc length_Suc_conv)
  define rest where "rest = concat (map (\<lambda>b. CHR ''.'' # show_nat (unat b)) [b, c, d]) @ t"
  have s: "v4_to_string os @ t = show_nat (unat a) @ rest" by (simp add: os v4_to_string_def rest_def)
  have r: "stops 10 rest" by (simp add: rest_def)
  have "read_octets (Suc 0) 3 rest = Some ([b, c, d], t)"
    using read_octets_show [OF assms(2), of 0 "[b, c, d]"] by (simp only: rest_def) (simp add: numeral_3_eq_3)
  then have "read_octets 0 (Suc 3) (show_nat (unat a) @ rest) = Some (os, t)"
    using r by (simp only: read_octets.simps read_separator_def) (simp add: os read_v4_octet)
  then show ?thesis unfolding read_ipv4_addr_def s by simp
qed

lemma read_octets_dot: "read_octets (Suc i) (Suc k) s = Some (os, rest) \<Longrightarrow> CHR ''.'' \<in> set s"
  by (cases s) (auto simp: read_separator_def read_given_char_def split: option.splits if_splits)

lemma read_ipv4_no_dot:
  assumes "CHR ''.'' \<notin> set s"
  shows "read_ipv4_addr s = None"
proof (rule ccontr)
  assume "read_ipv4_addr s \<noteq> None"
  then have "read_octets 0 (Suc (Suc 2)) s \<noteq> None" by (simp add: read_ipv4_addr_def)
  then obtain v rest os r where "read_number 10 3 False 256 s = Some (v, rest)" "read_octets (Suc 0) (Suc 2) rest = Some (os, r)"
    by (auto simp only: read_octets.simps read_separator_def split: option.splits if_splits)
  with assms read_number_suffix read_octets_dot show False by blast
qed

lemma read_ipv4_stops: "stops 10 s \<Longrightarrow> read_ipv4_addr s = None"
proof -
  assume "stops 10 s"
  then have "read_octets 0 (Suc 3) s = None"
    by (simp only: read_octets.simps read_separator_def) (simp add: read_number_none)
  then show ?thesis by (simp add: read_ipv4_addr_def)
qed

subsection \<open>IPv6\<close>

lemma stops_append: "stops radix s \<Longrightarrow> s \<noteq> [] \<Longrightarrow> stops radix (s @ t)"
  by (simp add: stops_def)

definition fmt_rest :: "nat list \<Rightarrow> string" where
  "fmt_rest gs = concat (map (\<lambda>g. CHR '':'' # show_radix 16 g) gs)"

lemma fmt_rest_simps [simp]: "fmt_rest [] = []" "fmt_rest (g # gs) = CHR '':'' # show_radix 16 g @ fmt_rest gs"
  by (simp_all add: fmt_rest_def)

lemma fmt_subslice_Cons: "fmt_subslice (g # gs) = show_radix 16 g @ fmt_rest gs"
  by (induction gs arbitrary: g) simp_all

text \<open>Where a list of groups ends: at the end of the text or at a double colon.\<close>

definition group_end :: "string \<Rightarrow> bool" where
  "group_end t \<longleftrightarrow> t = [] \<or> (\<exists>u. t = CHR '':'' # CHR '':'' # u)"

lemma read_group_show:
  "g < 65536 \<Longrightarrow> stops 16 t \<Longrightarrow> read_number 16 4 True 65536 (show_radix 16 g @ t) = Some (g, t)"
  by (intro read_number_show) auto

lemma read_groups_no_dot:
  "CHR ''.'' \<notin> set s \<Longrightarrow> read_groups i (Suc k) s =
    (case read_separator CHR '':'' i (read_number 16 4 True 65536) s of
       None \<Rightarrow> ([], False, s)
     | Some (g, rest) \<Rightarrow> (let (gs, v4, r) = read_groups (Suc i) k rest in (g # gs, v4, r)))"
proof -
  assume s: "CHR ''.'' \<notin> set s"
  have "read_separator CHR '':'' i read_ipv4_addr s = None"
    using s by (cases s) (auto simp: read_separator_def read_given_char_def read_ipv4_no_dot)
  then show ?thesis by simp
qed

lemma fmt_rest_no_dot: "CHR ''.'' \<notin> set (fmt_rest gs)"
  by (induction gs) (auto simp: show_radix_no_sep)

lemma group_end_stops: "group_end t \<Longrightarrow> stops 16 (fmt_rest gs @ t)"
  by (cases gs) (auto simp: group_end_def)

lemma read_groups_end:
  assumes "group_end t" "CHR ''.'' \<notin> set t"
  shows "read_groups (Suc i) k t = ([], False, t)"
proof (cases k)
  case (Suc j)
  have "read_separator CHR '':'' (Suc i) (read_number 16 4 True 65536) t = None"
    using assms(1) by (auto simp: group_end_def read_separator_def read_given_char_def read_number_none)
  then show ?thesis unfolding Suc by (simp only: read_groups_no_dot [OF assms(2)] option.simps)
qed simp

lemma read_groups_rest:
  assumes "group_end t" "CHR ''.'' \<notin> set t" "length gs \<le> k" "list_all (\<lambda>g. g < 65536) gs"
  shows "read_groups (Suc i) k (fmt_rest gs @ t) = (gs, False, t)"
  using assms(3,4)
proof (induction gs arbitrary: i k)
  case Nil
  then show ?case using read_groups_end [OF assms(1,2)] by simp
next
  case (Cons g gs)
  then obtain j where k: "k = Suc j" "length gs \<le> j" by (cases k) auto
  have nd: "CHR ''.'' \<notin> set (fmt_rest (g # gs) @ t)" using assms(2) fmt_rest_no_dot [of "g # gs"] by auto
  have "read_separator CHR '':'' (Suc i) (read_number 16 4 True 65536) (fmt_rest (g # gs) @ t) = Some (g, fmt_rest gs @ t)"
    using Cons.prems(2) group_end_stops [OF assms(1)]
    by (simp add: read_separator_def read_given_char_def read_group_show)
  with Cons.IH [OF k(2)] Cons.prems(2) show ?case
    unfolding k(1) by (simp only: read_groups_no_dot [OF nd]) simp
qed

lemma read_groups_show:
  assumes "group_end t" "CHR ''.'' \<notin> set t" "length gs \<le> k" "list_all (\<lambda>g. g < 65536) gs"
  shows "read_groups 0 k (fmt_subslice gs @ t) = (gs, False, t)"
proof (cases gs)
  case Nil
  show ?thesis
  proof (cases k)
    case (Suc j)
    have "read_number 16 4 True 65536 t = None"
      using assms(1) by (intro read_number_none) (auto simp: group_end_def)
    then show ?thesis
      unfolding Suc Nil fmt_subslice.simps append_Nil read_groups_no_dot [OF assms(2)] by (simp add: read_separator_def)
  qed (simp add: Nil)
next
  case (Cons g gs')
  with assms(3) obtain j where k: "k = Suc j" "length gs' \<le> j" by (cases k) auto
  have nd: "CHR ''.'' \<notin> set (show_radix 16 g @ fmt_rest gs' @ t)"
    using assms(2) fmt_rest_no_dot by (auto simp: show_radix_no_sep)
  have "read_separator CHR '':'' 0 (read_number 16 4 True 65536) (show_radix 16 g @ fmt_rest gs' @ t) = Some (g, fmt_rest gs' @ t)"
    using assms(4) group_end_stops [OF assms(1)] by (simp add: Cons read_separator_def read_group_show)
  with read_groups_rest [OF assms(1,2) k(2), of 0] assms(4) show ?thesis
    unfolding k(1) Cons fmt_subslice_Cons append_assoc by (simp only: read_groups_no_dot [OF nd]) (simp add: Cons)
qed

lemma length_segments [simp]: "length (segments os) = 8"
  by (simp add: segments_def)

lemma segments_bound: "list_all (\<lambda>g. g < 65536) (segments os)"
  using unat_u16_less by (simp add: segments_def list_all_iff)

lemma segments_octets:
  assumes "length os = 16"
  shows "octets_of_segments (segments os) = os"
proof -
  have "octets_of_segments (segments os) = concat (map (\<lambda>i. [os ! (2 * i), os ! (2 * i + 1)]) [0..<8])"
    by (simp add: octets_of_segments_def segments_def comp_def)
  also have "\<dots> = map (\<lambda>i. os ! i) [0..<16]" by (simp add: upt_rec numeral_eq_Suc)
  also have "\<dots> = os" using assms by (metis map_nth)
  finally show ?thesis .
qed

text \<open>A zero run inside a list.\<close>

definition zero_run :: "nat list \<Rightarrow> nat \<times> nat \<Rightarrow> bool" where
  "zero_run xs p \<longleftrightarrow> fst p + snd p \<le> length xs \<and> (\<forall>j < snd p. xs ! (fst p + j) = 0)"

lemma zero_span_run:
  assumes "i \<le> length xs" "gs = drop i xs" "zero_run xs longest" "zero_run xs current"
    "snd current \<noteq> 0 \<Longrightarrow> fst current + snd current = i"
  shows "zero_run xs (zero_span gs i longest current)"
  using assms
proof (induction gs i longest current rule: zero_span.induct)
  case (2 g gs i longest current)
  have i: "i < length xs" "xs ! i = g" "gs = drop (Suc i) xs"
    using "2.prems"(2) by (metis drop_eq_Nil linorder_not_le list.discI, metis Cons_nth_drop_Suc drop_eq_Nil
        linorder_not_le list.discI list.inject, metis Cons_nth_drop_Suc drop_eq_Nil linorder_not_le list.discI list.inject)
  show ?case
  proof (cases "g = 0")
    case True
    define cur where "cur = (if snd current = 0 then i else fst current, Suc (snd current))"
    have c: "zero_run xs cur" "fst cur + snd cur = Suc i"
      using "2.prems"(4,5) i True by (auto simp: cur_def zero_run_def less_Suc_eq)
    have l: "zero_run xs (if snd longest < snd cur then cur else longest)" using c(1) "2.prems"(3) by simp
    show ?thesis
      using "2.IH"(1) [OF True cur_def refl _ i(3) l c(1) c(2)] i(1) True by (simp add: cur_def [symmetric] Let_def)
  next
    case False
    then show ?thesis using "2.IH"(2) [OF False _ i(3) "2.prems"(3)] i(1) by (simp add: zero_run_def)
  qed
qed simp

lemma zero_run_split:
  assumes "zero_run xs (s, l)"
  shows "xs = take s xs @ replicate l 0 @ drop (s + l) xs"
proof -
  have "take l (drop s xs) = replicate l 0"
    using assms by (intro nth_equalityI) (auto simp: zero_run_def)
  then show ?thesis by (metis append_take_drop_id drop_drop add.commute)
qed

lemma read_ipv6_groups:
  assumes "length gs = 8" "list_all (\<lambda>g. g < 65536) gs"
  shows "read_ipv6_addr (fmt_subslice gs) = Some (octets_of_segments gs, [])"
  using read_groups_show [of "[]" gs 8] assms by (simp add: read_ipv6_addr_def group_end_def)

lemma read_ipv6_compressed:
  assumes "length gs = 8" "list_all (\<lambda>g. g < 65536) gs" "zero_run gs (start, len)" "1 < len"
  shows "read_ipv6_addr (fmt_subslice (take start gs) @ ''::'' @ fmt_subslice (drop (start + len) gs)) =
    Some (octets_of_segments gs, [])"
proof -
  have sl: "start + len \<le> 8" using assms(1,3) by (simp add: zero_run_def)
  let ?t = "fmt_subslice (drop (start + len) gs)"
  have b: "list_all (\<lambda>g. g < 65536) (take start gs)" "list_all (\<lambda>g. g < 65536) (drop (start + len) gs)"
    using assms(2) by (auto simp: list_all_iff dest: in_set_takeD in_set_dropD)
  have nd: "CHR ''.'' \<notin> set ?t"
    by (cases "drop (start + len) gs") (auto simp: fmt_subslice_Cons fmt_rest_no_dot show_radix_no_sep)
  have "read_groups 0 8 (fmt_subslice (take start gs) @ ''::'' @ ?t) = (take start gs, False, ''::'' @ ?t)"
    using sl nd assms(1) by (intro read_groups_show b) (auto simp: group_end_def)
  moreover have "read_groups 0 (8 - (start + 1)) ?t = (drop (start + len) gs, False, [])"
    using read_groups_show [of "[]" "drop (start + len) gs" "8 - (start + 1)"] b assms(1,4) sl by (simp add: group_end_def)
  moreover have "take start gs @ replicate len 0 @ drop (start + len) gs = gs" using zero_run_split [OF assms(3)] by simp
  ultimately show ?thesis
    using sl assms(1,4) by (simp add: read_ipv6_addr_def read_given_char_def)
qed

lemma v6_text:
  assumes "length os = 16" "to_ipv4_mapped os = None"
  shows "read_ipv6_addr (v6_to_string os) = Some (os, [])" "CHR ''.'' \<notin> set (v6_to_string os)"
proof -
  obtain start len where z: "zero_span (segments os) 0 (0, 0) (0, 0) = (start, len)" by fastforce
  have run: "zero_run (segments os) (start, len)"
    using zero_span_run [of 0 "segments os" "segments os" "(0, 0)" "(0, 0)"] z by (simp add: zero_run_def)
  show "read_ipv6_addr (v6_to_string os) = Some (os, [])"
    using read_ipv6_compressed [OF length_segments segments_bound run] read_ipv6_groups [OF length_segments segments_bound]
    by (simp add: v6_to_string_def assms z segments_octets Let_def)
  have "CHR ''.'' \<notin> set (fmt_subslice gs)" for gs
    by (cases gs) (auto simp: fmt_subslice_Cons fmt_rest_no_dot show_radix_no_sep)
  then show "CHR ''.'' \<notin> set (v6_to_string os)" by (simp add: v6_to_string_def assms z Let_def)
qed

lemma mapped_text:
  assumes "length v4 = 4"
  shows "read_ipv6_addr (''::ffff:'' @ v4_to_string v4) = Some (to_ipv6_mapped v4, [])"
proof -
  let ?s = "''::ffff:'' @ v4_to_string v4"
  let ?t = "''ffff:'' @ v4_to_string v4"
  have "read_groups 0 (Suc 7) ?s = ([], False, ?s)"
    by (simp only: read_groups.simps) (simp add: read_separator_def read_ipv4_stops read_number_none)
  then have a: "read_groups 0 8 ?s = ([], False, ?s)" by simp
  have "digit_char 15 = CHR ''f''" by (simp add: digit_char_def char_of_eq_iff take_bit_eq_mod)
  then have f: "show_radix 16 65535 = ''ffff''" by (simp add: show_radix.simps)
  have "read_groups (Suc 0) (Suc 5) (CHR '':'' # v4_to_string v4) =
      ([unat (from_be_bytes (v4 ! 0) (v4 ! 1)), unat (from_be_bytes (v4 ! 2) (v4 ! 3))], True, [])"
    using read_ipv4_show [OF assms, of "[]"]
    by (simp only: read_groups.simps) (simp add: read_separator_def read_given_char_def)
  then have g: "read_groups (Suc 0) 6 (CHR '':'' # v4_to_string v4) =
      ([unat (from_be_bytes (v4 ! 0) (v4 ! 1)), unat (from_be_bytes (v4 ! 2) (v4 ! 3))], True, [])" by simp
  have n: "read_number 16 4 True 65536 ?t = Some (65535, CHR '':'' # v4_to_string v4)"
    using read_group_show [of 65535 "CHR '':'' # v4_to_string v4"] by (simp add: f)
  have "read_ipv4_addr ?t = None" by (simp add: read_ipv4_stops stops_def digit_val_def)
  then have "read_groups 0 (Suc 6) ?t =
      ([65535, unat (from_be_bytes (v4 ! 0) (v4 ! 1)), unat (from_be_bytes (v4 ! 2) (v4 ! 3))], True, [])"
    by (simp only: read_groups.simps) (simp add: read_separator_def n [simplified] g [simplified])
  then have b: "read_groups 0 7 ?t =
      ([65535, unat (from_be_bytes (v4 ! 0) (v4 ! 1)), unat (from_be_bytes (v4 ! 2) (v4 ! 3))], True, [])" by simp
  have r5: "replicate 5 (0 :: nat) = [0, 0, 0, 0, 0]" by (simp add: numeral_eq_Suc)
  have r10: "replicate 10 (0 :: u8) = [0, 0, 0, 0, 0, 0, 0, 0, 0, 0]" by (simp add: numeral_eq_Suc)
  have ff: "to_be_bytes 65535 = [255, 255]" and z0: "to_be_bytes 0 = [0, 0]" by (simp_all add: to_be_bytes_def)
  from assms obtain w x y z where "v4 = [w, x, y, z]" by (auto simp: numeral_eq_Suc length_Suc_conv)
  then have "octets_of_segments (replicate 5 0 @ [65535, unat (from_be_bytes (v4 ! 0) (v4 ! 1)),
      unat (from_be_bytes (v4 ! 2) (v4 ! 3))]) = to_ipv6_mapped v4"
    by (simp add: octets_of_segments_def to_ipv6_mapped_def r5 r10 ff z0)
  with a b show ?thesis by (simp add: read_ipv6_addr_def read_given_char_def)
qed

lemma parse_ip_to_string:
  assumes "wf_ip ip"
  shows "parse_ip_addr (ip_to_string ip) = Some ip"
proof (cases ip)
  case (V4 os)
  then show ?thesis using assms read_ipv4_show [of os "[]"] by (simp add: parse_ip_addr_def)
next
  case (V6 os)
  with assms have l: "length os = 16" by simp
  show ?thesis
  proof (cases "to_ipv4_mapped os")
    case None
    then show ?thesis using v6_text [OF l None] by (simp add: V6 parse_ip_addr_def read_ipv4_no_dot)
  next
    case (Some v4)
    then have m: "os = to_ipv6_mapped v4" by (simp add: to_ipv4_mapped_iff)
    with l have "length v4 = 4" by (simp add: to_ipv6_mapped_def)
    then show ?thesis
      using mapped_text [of v4] by (simp add: V6 parse_ip_addr_def v6_to_string_def Some m [symmetric] read_ipv4_stops)
  qed
qed

subsection \<open>Targets\<close>

lemma fmt_subslice_no_bracket: "CHR '']'' \<notin> set (fmt_subslice gs)"
proof -
  have "CHR '']'' \<notin> set (fmt_rest gs)" for gs by (induction gs) (auto simp: show_radix_no_sep)
  then show ?thesis by (cases gs) (auto simp: fmt_subslice_Cons show_radix_no_sep)
qed

lemma ip_text_separators:
  "CHR '']'' \<notin> set (v6_to_string os)" "CHR '':'' \<notin> set (v4_to_string os)" "CHR ''['' \<notin> set (v4_to_string os)"
  "CHR '']'' \<notin> set (v4_to_string os)"
  by (auto simp: v6_to_string_def v4_to_string_def Let_def show_radix_no_sep fmt_subslice_no_bracket
      split: option.splits prod.splits if_splits)

text \<open>Targets whose text is not ambiguous: a domain is not itself an address and has no colon or bracket.\<close>

fun plain_host :: "target_host \<Rightarrow> bool" where
  "plain_host (Ip ip) \<longleftrightarrow> wf_ip ip"
| "plain_host (Domain d) \<longleftrightarrow> CHR '':'' \<notin> set d \<and> \<not> starts_with ''['' d \<and> parse_ip_addr d = None"

lemma from_str_plain:
  assumes "CHR '':'' \<notin> set h" "\<not> starts_with ''['' h"
  shows "TargetAddr_from_str (h @ '':'' @ show_nat (unat p)) =
    Ok \<lparr>tgt_host = (case parse_ip_addr h of Some ip \<Rightarrow> Ip ip | None \<Rightarrow> Domain h), tgt_port = p\<rparr>"
proof -
  have n: "\<not> starts_with ''['' (h @ '':'' @ show_nat (unat p))" using assms by (cases h) (auto simp: starts_with_def)
  have c: "count_list (h @ '':'' @ show_nat (unat p)) CHR '':'' = 1"
    using assms(1) by (simp add: show_radix_no_sep count_list_0_iff)
  show ?thesis using n c by (simp add: TargetAddr_from_str_def show_radix_no_sep split: option.split)
qed

text \<open>
  Targets print to text that parses back. For every IPv4 and IPv6 address, with the zero-run
  compression and the dotted form of mapped addresses, and for every domain that is not itself an
  address and contains no colon or opening bracket, and for every port, parsing the printed target
  gives the target.
\<close>

lemma target_text_roundtrip:
  assumes "plain_host (tgt_host t)"
  shows "TargetAddr_from_str (TargetAddr_fmt t) = Ok t"
proof (cases "tgt_host t")
  case (Domain d)
  with assms from_str_plain [of d "tgt_port t"] show ?thesis by (cases t) (simp add: TargetAddr_fmt_def)
next
  case (Ip ip)
  with assms have p: "parse_ip_addr (ip_to_string ip) = Some ip" by (simp add: parse_ip_to_string)
  show ?thesis
  proof (cases ip)
    case (V4 os)
    have "\<not> starts_with ''['' (v4_to_string os)"
      using ip_text_separators(3) [of os] by (cases "v4_to_string os") (auto simp: starts_with_def)
    with from_str_plain [of "v4_to_string os" "tgt_port t"] Ip V4 p ip_text_separators(2) show ?thesis
      by (cases t) (simp add: TargetAddr_fmt_def)
  next
    case (V6 os)
    have "split_at_first CHR '']'' (v6_to_string os @ CHR '']'' # '':'' @ show_nat (unat (tgt_port t))) =
        Some (v6_to_string os, '':'' @ show_nat (unat (tgt_port t)))"
      by (rule split_at_first_append) (rule ip_text_separators)
    with Ip V6 p show ?thesis by (cases t) (simp add: TargetAddr_fmt_def TargetAddr_from_str_def starts_with_def)
  qed
qed

lemma target_text_roundtrip_witness:
  "TargetAddr_from_str (TargetAddr_fmt \<lparr>tgt_host = Ip (V6 (replicate 15 0 @ [1])), tgt_port = 443\<rparr>) =
     Ok \<lparr>tgt_host = Ip (V6 (replicate 15 0 @ [1])), tgt_port = 443\<rparr>"
  by (rule target_text_roundtrip) simp

end
