(* ===== verification/Byte_Io.thy ===== *)
theory Byte_Io
  imports Eggress_Prelude
begin

text \<open>
  Byte streams as the protocol code sees them (\<^verbatim>\<open>tokio::io\<close>: \<^verbatim>\<open>read_u8\<close>, \<^verbatim>\<open>read_u16\<close>,
  \<^verbatim>\<open>read_exact\<close>, \<^verbatim>\<open>write_all\<close>, \<^verbatim>\<open>flush\<close>). One end of a connection is a record: the bytes the
  peer will have sent when it closes, the bytes written so far, and how many more can be written
  before the peer is gone. An asynchronous routine is a state transformer with an error result;
  suspension points do not appear, because a routine owns its end of the stream.
\<close>

datatype io_error = Io_UnexpectedEof | Io_BrokenPipe

record conn =
  rx :: "u8 list"
  tx :: "u8 list"
  room :: nat

type_synonym ('e, 'a) io = "conn \<Rightarrow> ('e + 'a) \<times> conn"

definition io_return :: "'a \<Rightarrow> ('e, 'a) io" where
  "io_return a c = (Ok a, c)"

definition io_fail :: "'e \<Rightarrow> ('e, 'a) io" where
  "io_fail e c = (Err e, c)"

text \<open>Sequencing: the \<^verbatim>\<open>?\<close> operator stops at the first error.\<close>

definition io_bind :: "('e, 'a) io \<Rightarrow> ('a \<Rightarrow> ('e, 'b) io) \<Rightarrow> ('e, 'b) io" where
  "io_bind m f c = (case m c of (Inl e, c') \<Rightarrow> (Err e, c') | (Inr a, c') \<Rightarrow> f a c')"

definition io_of_result :: "'e + 'a \<Rightarrow> ('e, 'a) io" where
  "io_of_result r c = (r, c)"

text \<open>Readers and writers; \<open>w\<close> wraps the I/O error into the protocol's error type.\<close>

definition read_exact :: "(io_error \<Rightarrow> 'e) \<Rightarrow> nat \<Rightarrow> ('e, u8 list) io" where
  "read_exact w n c =
    (if n \<le> length (rx c) then (Ok (take n (rx c)), c\<lparr>rx := drop n (rx c)\<rparr>)
     else (Err (w Io_UnexpectedEof), c\<lparr>rx := []\<rparr>))"

definition read_u8 :: "(io_error \<Rightarrow> 'e) \<Rightarrow> ('e, u8) io" where
  "read_u8 w = io_bind (read_exact w 1) (\<lambda>bs. io_return (bs ! 0))"

definition read_u16 :: "(io_error \<Rightarrow> 'e) \<Rightarrow> ('e, u16) io" where
  "read_u16 w = io_bind (read_exact w 2) (\<lambda>bs. io_return (from_be_bytes (bs ! 0) (bs ! 1)))"

definition write_all :: "(io_error \<Rightarrow> 'e) \<Rightarrow> u8 list \<Rightarrow> ('e, unit) io" where
  "write_all w bs c =
    (if length bs \<le> room c then (Ok (), c\<lparr>tx := tx c @ bs, room := room c - length bs\<rparr>)
     else (Err (w Io_BrokenPipe), c\<lparr>tx := tx c @ take (room c) bs, room := 0\<rparr>))"

definition flush :: "('e, unit) io" where
  "flush = io_return ()"

subsection \<open>Evaluation\<close>

lemma io_eval [simp, io_simps]:
  "io_return a c = (Ok a, c)" "io_fail e c = (Err e, c)" "io_of_result r c = (r, c)"
  "flush c = (Ok (), c)"
  by (simp_all add: io_return_def io_fail_def io_of_result_def flush_def)

lemma io_bind_Ok [simp, io_simps]: "m c = (Ok a, c') \<Longrightarrow> io_bind m f c = f a c'"
  by (simp add: io_bind_def)

lemma io_bind_Err [simp, io_simps]: "m c = (Err e, c') \<Longrightarrow> io_bind m f c = (Err e, c')"
  by (simp add: io_bind_def)

lemma read_exact_append [simp, io_simps]:
  "length bs = n \<Longrightarrow>
   read_exact w n \<lparr>rx = bs @ rest, tx = t, room = r\<rparr> = (Ok bs, \<lparr>rx = rest, tx = t, room = r\<rparr>)"
  by (simp add: read_exact_def)

lemma read_u8_Cons [simp, io_simps]:
  "read_u8 w \<lparr>rx = b # rest, tx = t, room = r\<rparr> = (Ok b, \<lparr>rx = rest, tx = t, room = r\<rparr>)"
  by (simp add: read_u8_def io_bind_def read_exact_def)

lemma read_u8_Nil [simp, io_simps]:
  "read_u8 w \<lparr>rx = [], tx = t, room = r\<rparr> = (Err (w Io_UnexpectedEof), \<lparr>rx = [], tx = t, room = r\<rparr>)"
  by (simp add: read_u8_def io_bind_def read_exact_def)

lemma read_u16_append [simp, io_simps]:
  "read_u16 w \<lparr>rx = to_be_bytes p @ rest, tx = t, room = r\<rparr> = (Ok p, \<lparr>rx = rest, tx = t, room = r\<rparr>)"
  by (simp add: read_u16_def io_bind_def read_exact_def to_be_bytes_def)

lemma write_all_room [simp, io_simps]:
  "length bs \<le> r \<Longrightarrow>
   write_all w bs \<lparr>rx = x, tx = t, room = r\<rparr> = (Ok (), \<lparr>rx = x, tx = t @ bs, room = r - length bs\<rparr>)"
  by (simp add: write_all_def)

lemma io_bind_Ok_iff:
  "io_bind m f c = (Ok b, c'') \<longleftrightarrow> (\<exists>a c'. m c = (Ok a, c') \<and> f a c' = (Ok b, c''))"
  by (auto simp: io_bind_def split: prod.splits sum.splits)

lemma io_bind_Err_iff:
  "io_bind m f c = (Err e, c'') \<longleftrightarrow>
    m c = (Err e, c'') \<or> (\<exists>a c'. m c = (Ok a, c') \<and> f a c' = (Err e, c''))"
  by (auto simp: io_bind_def split: prod.splits sum.splits)

lemma read_exact_Ok_iff:
  "read_exact w n c = (Ok bs, c') \<longleftrightarrow>
    length bs = n \<and> rx c = bs @ rx c' \<and> tx c' = tx c \<and> room c' = room c"
  by (cases c; cases c')
    (auto simp: read_exact_def append_eq_conv_conj split: if_splits)

lemma read_u8_Ok_iff:
  "read_u8 w c = (Ok b, c') \<longleftrightarrow> rx c = b # rx c' \<and> tx c' = tx c \<and> room c' = room c"
proof
  assume "read_u8 w c = (Ok b, c')"
  then obtain bs where "read_exact w 1 c = (Ok bs, c')" "b = bs ! 0"
    by (auto simp: read_u8_def io_bind_Ok_iff)
  then show "rx c = b # rx c' \<and> tx c' = tx c \<and> room c' = room c"
    by (auto simp: read_exact_Ok_iff length_Suc_conv)
next
  assume "rx c = b # rx c' \<and> tx c' = tx c \<and> room c' = room c"
  then show "read_u8 w c = (Ok b, c')" by (cases c; cases c') simp
qed

lemma read_u16_Ok_iff:
  "read_u16 w c = (Ok p, c') \<longleftrightarrow> rx c = to_be_bytes p @ rx c' \<and> tx c' = tx c \<and> room c' = room c"
proof
  assume "read_u16 w c = (Ok p, c')"
  then obtain bs where "read_exact w 2 c = (Ok bs, c')" "p = from_be_bytes (bs ! 0) (bs ! 1)"
    by (auto simp: read_u16_def io_bind_Ok_iff)
  then show "rx c = to_be_bytes p @ rx c' \<and> tx c' = tx c \<and> room c' = room c"
    by (auto simp: read_exact_Ok_iff numeral_2_eq_2 length_Suc_conv)
next
  assume "rx c = to_be_bytes p @ rx c' \<and> tx c' = tx c \<and> room c' = room c"
  then show "read_u16 w c = (Ok p, c')" by (cases c; cases c') simp
qed

lemma write_all_Ok_iff:
  "write_all w bs c = (Ok u, c') \<longleftrightarrow>
    length bs \<le> room c \<and> rx c' = rx c \<and> tx c' = tx c @ bs \<and> room c' = room c - length bs"
  by (cases c; cases c') (auto simp: write_all_def split: if_splits)

lemmas io_Ok_iffs = io_bind_Ok_iff read_exact_Ok_iff read_u8_Ok_iff read_u16_Ok_iff write_all_Ok_iff

end
