(* ===== verification/Config_Compile.thy ===== *)
theory Config_Compile
  imports Config_Validate
begin

text \<open>
  Compilation of a configuration file into the runtime configuration (\<^verbatim>\<open>crates/eggress-config/src/compile\<close>,
  \<^verbatim>\<open>src/lib.rs\<close>) and the compatibility rules file (\<^verbatim>\<open>crates/eggress-routing/src/compat.rs\<close>). The first
  failing step of a section ends the compilation with its error.
\<close>

subsection \<open>Process, timeouts, admin\<close>

definition parse_duration_opt :: "(string \<Rightarrow> bool) \<Rightarrow> string \<Rightarrow> config_error + nanos" where
  "parse_duration_opt uni s =
    map_err (\<lambda>e. Validation ''process.shutdown_grace'' (''invalid duration '' @ quoted s @ '': '' @ ConfigError_fmt e))
      (validate_duration uni s)"

definition compile_process :: "('re, 'net) config_env \<Rightarrow> config_file \<Rightarrow> config_error + rtc_process" where
  "compile_process env config =
    (let field = (\<lambda>f. Option.bind (cf_process config) f) in
     try_bind
       (case field pc_shutdown_grace of
          Some s \<Rightarrow> parse_duration_opt (env_alphabetic env) s
        | None \<Rightarrow> Ok (rp_shutdown_grace ProcessConfig_default))
       (\<lambda>grace. Ok \<lparr>rp_log_format = or_default (field pc_log_format) (rp_log_format ProcessConfig_default),
                   rp_log_level = or_default (field pc_log_level) (rp_log_level ProcessConfig_default),
                   rp_shutdown_grace = grace\<rparr>))"

definition duration_or :: "(string \<Rightarrow> bool) \<Rightarrow> nanos \<Rightarrow> string option \<Rightarrow> config_error + nanos" where
  "duration_or uni d v = try_bind (try_option (validate_duration uni) v) (\<lambda>x. Ok (or_default x d))"

text \<open>The same with the error put under a path of its own.\<close>

definition duration_or_at :: "(string \<Rightarrow> bool) \<Rightarrow> string \<Rightarrow> nanos \<Rightarrow> string option \<Rightarrow> config_error + nanos" where
  "duration_or_at uni path d v = map_err (\<lambda>e. Validation path (ConfigError_fmt e)) (duration_or uni d v)"

definition compile_timeouts :: "('re, 'net) config_env \<Rightarrow> config_file \<Rightarrow> config_error + rtc_timeouts" where
  "compile_timeouts env config =
    (let field = (\<lambda>f. Option.bind (cf_timeouts config) f); uni = env_alphabetic env in
     try_bind (duration_or uni (rtt_handshake TimeoutConfig_default) (field tc_handshake)) (\<lambda>handshake.
     try_bind (duration_or uni (rtt_connect TimeoutConfig_default) (field tc_connect)) (\<lambda>connect.
     Ok \<lparr>rtt_handshake = handshake, rtt_connect = connect\<rparr>)))"

definition compile_basic_auth ::
  "('re, 'net) config_env \<Rightarrow> admin_basic_auth_config option \<Rightarrow> config_error + (string option \<times> string option)" where
  "compile_basic_auth env basic =
    (case basic of
       None \<Rightarrow> Ok (None, None)
     | Some b \<Rightarrow>
         try_bind (resolve_password env (ab_password b) (ab_password_env b) ''admin.auth.basic_auth'') (\<lambda>password.
         case password of
           None \<Rightarrow> Err (Validation ''admin.auth.basic_auth'' ''basic_auth requires password or password_env'')
         | Some pw \<Rightarrow>
             if ab_user b = [] \<or> pw = []
             then Err (Validation ''admin.auth.basic_auth'' ''basic_auth user and password must not be empty'')
             else Ok (Some (ab_user b), Some pw)))"

definition compile_admin_auth :: "('re, 'net) config_env \<Rightarrow> admin_auth_config \<Rightarrow> config_error + rtc_admin_auth" where
  "compile_admin_auth env auth =
    try_bind (resolve_password env (aa_bearer_token auth) (aa_bearer_token_env auth) ''admin.auth.bearer_token'') (\<lambda>bearer.
    if bearer = Some [] then Err (Validation ''admin.auth.bearer_token'' ''bearer token must not be empty'')
    else if bearer \<noteq> None \<and> aa_basic_auth auth \<noteq> None
    then Err (Validation ''admin.auth'' ''configure either bearer_token or basic_auth, not both'')
    else try_bind (compile_basic_auth env (aa_basic_auth auth)) (\<lambda>(user, password).
         if bearer = None \<and> user = None
         then Err (Validation ''admin.auth'' ''authentication requires bearer_token or basic_auth'')
         else Ok \<lparr>raa_bearer_token = bearer, raa_basic_username = user, raa_basic_password = password\<rparr>))"

definition compile_pac :: "pac_config_toml \<Rightarrow> pac_config" where
  "compile_pac toml =
    \<lparr>pac_path = or_default (pac_toml_path toml) ''/pac'', pac_proxy_directive = pac_toml_proxy toml,
     pac_direct_fallback = or_default (pac_toml_direct_fallback toml) True,
     pac_direct_hosts = or_default (pac_toml_direct_hosts toml) [],
     pac_direct_suffixes = or_default (pac_toml_direct_suffixes toml) []\<rparr>"

definition compile_static_route :: "static_content_toml \<Rightarrow> static_route" where
  "compile_static_route entry =
    \<lparr>sr_path = sc_path entry, sr_content_type = or_default (sc_content_type entry) ''text/plain'',
     sr_body = or_default (sc_body entry) []\<rparr>"

definition compile_admin :: "('re, 'net) config_env \<Rightarrow> config_file \<Rightarrow> config_error + rtc_admin option" where
  "compile_admin env config =
    (case cf_admin config of
       None \<Rightarrow> Ok None
     | Some admin \<Rightarrow>
         try_bind (try_option (compile_admin_auth env) (ad_auth admin)) (\<lambda>auth.
         Ok (Some \<lparr>ra_bind = or_default (ad_bind admin) ''127.0.0.1:9090'', ra_enabled = or_default (ad_enabled admin) True,
                   ra_metrics = or_default (ad_metrics admin) True, ra_auth = auth,
                   ra_pac = map_option compile_pac (ad_pac admin),
                   ra_static_content = map compile_static_route (or_default (ad_static_content admin) [])\<rparr>)))"

subsection \<open>Upstreams and groups\<close>

definition compile_initial_state :: "string option \<Rightarrow> config_error + health_state" where
  "compile_initial_state s =
    (if s = None \<or> s = Some ''unknown'' then Ok (initial_state HealthConfig_default)
     else if s = Some ''healthy'' then Ok Healthy
     else if s = Some ''unhealthy'' then Ok Unhealthy
     else if s = Some ''disabled'' then Ok Disabled
     else Err (Validation ''health.initial_state''
       (''unknown state '' @ quoted (the s) @ '', must be one of: unknown, healthy, unhealthy, disabled'')))"

definition compile_health_config ::
  "('re, 'net) config_env \<Rightarrow> health_config_toml option \<Rightarrow> config_error + health_config" where
  "compile_health_config env toml =
    (case toml of
       None \<Rightarrow> Ok HealthConfig_default
     | Some h \<Rightarrow>
         (let uni = env_alphabetic env; d = HealthConfig_default;
              failures = or_default (ht_failures_to_unhealthy h) (failures_to_unhealthy d);
              successes = or_default (ht_successes_to_healthy h) (successes_to_healthy d) in
          try_bind (duration_or uni (interval d) (ht_interval h)) (\<lambda>iv.
          try_bind (duration_or uni (probe_timeout d) (ht_timeout h)) (\<lambda>tmo.
          if failures = 0 then Err (Validation ''health.failures_to_unhealthy'' ''must be greater than 0'')
          else if successes = 0 then Err (Validation ''health.successes_to_healthy'' ''must be greater than 0'')
          else try_bind (compile_initial_state (ht_initial_state h)) (\<lambda>st.
            Ok \<lparr>interval = iv, probe_timeout = tmo, failures_to_unhealthy = failures,
                successes_to_healthy = successes, initial_state = st\<rparr>)))))"

definition positive_or :: "string \<Rightarrow> u32 \<Rightarrow> u32 option \<Rightarrow> config_error + u32" where
  "positive_or path d v =
    (if v = Some 0 then Err (Validation path ''must be greater than 0'') else Ok (or_default v d))"

definition compile_h2_config ::
  "('re, 'net) config_env \<Rightarrow> h2_upstream_config \<Rightarrow> string \<Rightarrow> config_error + compiled_h2" where
  "compile_h2_config env h2 prefix_text =
    (let uni = env_alphabetic env; d = CompiledH2Config_default; at = (\<lambda>key. prefix_text @ ''.'' @ key) in
     try_bind (positive_or (at ''max_concurrent_streams'') (ch2_max_concurrent_streams d) (h2c_max_concurrent_streams h2)) (\<lambda>streams.
     try_bind (positive_or (at ''pool_size'') (ch2_pool_size d) (h2c_pool_size h2)) (\<lambda>pool.
     try_bind (duration_or_at uni (at ''idle_timeout'') (ch2_idle_timeout d) (h2c_idle_timeout h2)) (\<lambda>idle.
     try_bind (duration_or_at uni (at ''keepalive_interval'') (ch2_keepalive_interval d) (h2c_keepalive_interval h2)) (\<lambda>kint.
     try_bind (duration_or_at uni (at ''keepalive_timeout'') (ch2_keepalive_timeout d) (h2c_keepalive_timeout h2)) (\<lambda>ktmo.
     try_bind (positive_or (at ''stream_receive_window'') (ch2_stream_receive_window d) (h2c_stream_receive_window h2)) (\<lambda>swin.
     try_bind (positive_or (at ''connection_receive_window'') (ch2_connection_receive_window d)
                 (h2c_connection_receive_window h2)) (\<lambda>cwin.
     try_bind (positive_or (at ''max_frame_size'') (ch2_max_frame_size d) (h2c_max_frame_size h2)) (\<lambda>frame.
     try_bind (positive_or (at ''max_header_list_size'') (ch2_max_header_list_size d) (h2c_max_header_list_size h2)) (\<lambda>hdrs.
     Ok \<lparr>ch2_max_concurrent_streams = streams, ch2_pool_size = pool, ch2_idle_timeout = idle,
         ch2_keepalive_interval = kint, ch2_keepalive_timeout = ktmo, ch2_stream_receive_window = swin,
         ch2_connection_receive_window = cwin, ch2_max_frame_size = frame, ch2_max_header_list_size = hdrs\<rparr>))))))))))"

definition insecure_quic_hop :: "proxy_hop_spec \<Rightarrow> bool" where
  "insecure_quic_hop hop =
    (hop_insecure hop \<and> (Spec_Quic \<in> set (hop_protocols hop) \<or> Spec_Http3 \<in> set (hop_protocols hop)))"

fun reject_insecure_quic :: "string \<Rightarrow> nat \<Rightarrow> proxy_hop_spec list \<Rightarrow> config_error + unit" where
  "reject_insecure_quic uid idx [] = Ok ()"
| "reject_insecure_quic uid idx (hop # rest) =
    (if insecure_quic_hop hop
     then Err (Validation (''upstream '' @ uid @ '' hop '' @ show_nat idx)
       ''insecure QUIC/H3 requires the insecure-quic feature; rebuild with --features insecure-quic'')
     else reject_insecure_quic uid (idx + 1) rest)"

fun prefix_path :: "string \<Rightarrow> config_error \<Rightarrow> config_error" where
  "prefix_path p (Validation path msg) = Validation (p @ path) msg"
| "prefix_path p other = other"

definition compile_upstream :: "('re, 'net) config_env \<Rightarrow> upstream_config \<Rightarrow> config_error + rtc_upstream" where
  "compile_upstream env u =
    (let name = ''upstream '' @ uc_id u in
     try_bind (map_err (Validation name) (validate_upstream_id (env_id_match env) (uc_id u))) (\<lambda>_.
     try_bind (map_err (\<lambda>_. Validation name ''invalid upstream URI'') (parse_proxy_chain (uc_uri u))) (\<lambda>chain.
     try_bind (reject_insecure_quic (uc_id u) 0 (hops chain)) (\<lambda>_.
     try_bind (map_err (prefix_path (name @ ''.'')) (compile_health_config env (uc_health u))) (\<lambda>hc.
     try_bind (try_option (\<lambda>h2. compile_h2_config env h2 name) (uc_h2 u)) (\<lambda>h2.
     Ok \<lparr>ru_id = uc_id u, ru_chain = chain, ru_health = hc, ru_h2 = h2\<rparr>))))))"

definition compile_upstreams :: "('re, 'net) config_env \<Rightarrow> config_file \<Rightarrow> config_error + rtc_upstream list" where
  "compile_upstreams env config =
    (case cf_upstreams config of None \<Rightarrow> Ok [] | Some us \<Rightarrow> traverse_result (compile_upstream env) us)"

definition compile_scheduler :: "upstream_group_config \<Rightarrow> config_error + scheduler_kind" where
  "compile_scheduler g =
    (case gc_scheduler g of
       None \<Rightarrow> Ok Kind_RoundRobin
     | Some s \<Rightarrow>
         if s = ''round-robin'' then Ok Kind_RoundRobin
         else if s = ''first-available'' then Ok Kind_FirstAvailable
         else if s = ''random'' then Ok Kind_Random
         else if s = ''least-connections'' then Ok Kind_LeastConnections
         else Err (Validation (''group '' @ gc_id g) (''unknown scheduler: '' @ s)))"

definition compile_fallback :: "upstream_group_config \<Rightarrow> config_error + config_fallback" where
  "compile_fallback g =
    (case gc_fallback g of
       None \<Rightarrow> Ok Config_Reject
     | Some s \<Rightarrow>
         if s = ''reject'' then Ok Config_Reject
         else if s = ''direct'' then Ok Config_Direct
         else if s = ''use-unhealthy'' then Ok Config_UseUnhealthy
         else Err (Validation (''group '' @ gc_id g) (''unknown fallback: '' @ s)))"

definition compile_group :: "upstream_group_config \<Rightarrow> config_error + rtc_group" where
  "compile_group g =
    try_bind (compile_scheduler g) (\<lambda>sched.
    try_bind (compile_fallback g) (\<lambda>fb.
    Ok \<lparr>rg_id = gc_id g, rg_scheduler = sched, rg_members = gc_members g, rg_fallback = fb\<rparr>))"

definition compile_groups :: "config_file \<Rightarrow> config_error + rtc_group list" where
  "compile_groups config =
    (case cf_upstream_groups config of None \<Rightarrow> Ok [] | Some gs \<Rightarrow> traverse_result compile_group gs)"

subsection \<open>Rules\<close>

definition compile_reject_reason :: "string \<Rightarrow> config_error + reject_reason" where
  "compile_reject_reason s =
    (if s = ''unsupported-protocol'' then Ok Reject_UnsupportedProtocol
     else if s = ''auth-required'' then Ok AuthRequired
     else if s = ''access-denied'' then Ok AccessDenied
     else if s = ''blocked'' then Ok Blocked
     else if s = ''internal-error'' then Ok InternalError
     else Err (Validation ''reject'' (''unknown reject reason: '' @ s)))"

definition compile_protocol :: "('re, 'net) config_env \<Rightarrow> string \<Rightarrow> config_error + protocol_id" where
  "compile_protocol env s =
    (if s = ''http'' then Ok Id_Http
     else if s = ''httponly'' then Ok Id_Http
     else if s = ''socks4'' then Ok Id_Socks4
     else if s = ''socks5'' then Ok Id_Socks5
     else if s = ''shadowsocks'' then Ok Id_Shadowsocks
     else if s = ''ssr'' then Ok Id_ShadowsocksR
     else if s = ''trojan'' then Ok Id_Trojan
     else if s = ''h2'' then Ok Id_Http2
     else if s = ''h3'' then
       (if env_quic env then Ok Id_Http3
        else Err (Validation ''protocols'' (''HTTP/3 requires the optional '' @ quoted ''quic'' @ '' feature'')))
     else if s = ''quic'' then
       (if env_quic env then Ok Id_Quic
        else Err (Validation ''protocols'' (''QUIC requires the optional '' @ quoted ''quic'' @ '' feature'')))
     else if s = ''websocket'' \<or> s = ''ws'' \<or> s = ''wss'' then Ok Id_WebSocket
     else if s = ''raw'' \<or> s = ''tunnel'' then Ok Id_Raw
     else if s = ''echo'' then Ok Id_Echo
     else Err (Validation ''protocols'' (''unknown protocol: '' @ s)))"

definition compile_transport :: "string \<Rightarrow> config_error + transport_kind" where
  "compile_transport s =
    (if s = ''tcp'' then Ok Tcp
     else if s = ''udp'' then Ok Udp
     else if s = ''reverse_tcp'' then Ok ReverseTcp
     else Err (Validation ''transport'' (''unknown transport: '' @ s)))"

definition compile_regex :: "('re, 'net) config_env \<Rightarrow> string \<Rightarrow> string \<Rightarrow> config_error + 're" where
  "compile_regex env path r =
    map_err (\<lambda>e. Validation path (''invalid regex '' @ quoted r @ '': '' @ e)) (env_regex env r)"

definition compile_cidr :: "('re, 'net) config_env \<Rightarrow> string \<Rightarrow> string \<Rightarrow> config_error + 'net" where
  "compile_cidr env path c =
    map_err (\<lambda>e. Validation path (''invalid CIDR '' @ quoted c @ '': '' @ e)) (env_cidr env c)"

definition compile_port_range :: "u16 list \<Rightarrow> config_error + ('re, 'net) match_expr" where
  "compile_port_range ps =
    (if length ps \<noteq> 2
     then Err (Validation ''destination_port_range'' ''must have exactly 2 elements [start, end]'')
     else map_sum (Validation ''destination_port_range'') DestinationPort (new_range (ps ! 0) (ps ! 1)))"

definition compile_port_set :: "u16 list \<Rightarrow> config_error + ('re, 'net) match_expr" where
  "compile_port_set ports =
    (if ports = [] then Err (Validation ''destination_port_set'' ''must not be empty'')
     else Ok (DestinationPort (new_set ports)))"

text \<open>The matchers of the fields that are present, in the order in which they are pushed.\<close>

definition leaf_parts :: "('re, 'net) config_env \<Rightarrow> leaf_matcher \<Rightarrow> (config_error + ('re, 'net) match_expr) list" where
  "leaf_parts env leaf =
    if_some (lm_host_exact leaf) (\<lambda>e. [Ok (HostExact (normalize_host_for_exact e))]) @
    if_some (lm_host_suffix leaf) (\<lambda>e. [Ok (HostSuffix (normalize_host_for_exact e))]) @
    if_some (lm_host_regex leaf) (\<lambda>r. [map_sum id HostRegex (compile_regex env ''host_regex'' r)]) @
    if_some (lm_destination_port_regex leaf)
      (\<lambda>r. [map_sum id DestinationPortRegex (compile_regex env ''destination_port_regex'' r)]) @
    if_some (lm_destination_port leaf) (\<lambda>p. [Ok (DestinationPort (Exact p))]) @
    if_some (lm_destination_port_range leaf) (\<lambda>r. [compile_port_range r]) @
    if_some (lm_destination_port_set leaf) (\<lambda>ps. [compile_port_set ps]) @
    if_some (lm_destination_cidr leaf) (\<lambda>c. [map_sum id DestinationCidr (compile_cidr env ''destination_cidr'' c)]) @
    if_some (lm_source_cidr leaf) (\<lambda>c. [map_sum id SourceCidr (compile_cidr env ''source_cidr'' c)]) @
    if_some (lm_source_port leaf) (\<lambda>p. [Ok (SourcePort (Exact p))]) @
    if_some (lm_listener leaf) (\<lambda>n. [Ok (Listener n)]) @
    if_some (lm_protocol leaf) (\<lambda>p. [map_sum id Protocol (compile_protocol env p)]) @
    if_some (lm_identity leaf) (\<lambda>n. [Ok (Identity n)]) @
    if_some (lm_transport leaf) (\<lambda>t. [map_sum id Transport (compile_transport t)]) @
    if_some (lm_reverse_listener leaf) (\<lambda>n. [Ok (ReverseListener n)])"

definition compile_leaf_matcher :: "('re, 'net) config_env \<Rightarrow> leaf_matcher \<Rightarrow> config_error + ('re, 'net) match_expr" where
  "compile_leaf_matcher env leaf =
    try_bind (traverse_result id (leaf_parts env leaf)) (\<lambda>matchers.
      case matchers of [] \<Rightarrow> Ok Any | [m] \<Rightarrow> Ok m | _ \<Rightarrow> Ok (All matchers))"

definition MAX_EXPRESSION_DEPTH :: nat where "MAX_EXPRESSION_DEPTH = 10"
definition MAX_NODE_COUNT :: nat where "MAX_NODE_COUNT = 100"

text \<open>The shared node counter is threaded through the recursion.\<close>

fun compile_match_config_limited ::
  "('re, 'net) config_env \<Rightarrow> match_expr_config \<Rightarrow> nat \<Rightarrow> nat \<Rightarrow> config_error + (('re, 'net) match_expr \<times> nat)"
and compile_match_configs ::
  "('re, 'net) config_env \<Rightarrow> match_expr_config list \<Rightarrow> nat \<Rightarrow> nat \<Rightarrow> config_error + (('re, 'net) match_expr list \<times> nat)" where
  "compile_match_config_limited env config depth node_count =
    (if MAX_NODE_COUNT < node_count + 1
     then Err (Validation ''match'' (''expression exceeds maximum node count ('' @ show_nat MAX_NODE_COUNT @ '')''))
     else if MAX_EXPRESSION_DEPTH \<le> depth
     then Err (Validation ''match'' (''expression exceeds maximum depth ('' @ show_nat MAX_EXPRESSION_DEPTH @ '')''))
     else case config of
            Match_Leaf leaf \<Rightarrow> map_sum id (\<lambda>m. (m, node_count + 1)) (compile_leaf_matcher env leaf)
          | Match_Composite all any_of negated \<Rightarrow>
              (case all of
                 Some es \<Rightarrow>
                   if es = [] then Err (Validation ''match.all'' ''must not be empty'')
                   else map_sum id (\<lambda>(ms, n). (All ms, n)) (compile_match_configs env es (depth + 1) (node_count + 1))
               | None \<Rightarrow>
                   (case any_of of
                      Some es \<Rightarrow>
                        if es = [] then Err (Validation ''match.any_of'' ''must not be empty'')
                        else map_sum id (\<lambda>(ms, n). (AnyOf ms, n)) (compile_match_configs env es (depth + 1) (node_count + 1))
                    | None \<Rightarrow>
                        (case negated of
                           Some e \<Rightarrow>
                             map_sum id (\<lambda>(m, n). (Not m, n)) (compile_match_config_limited env e (depth + 1) (node_count + 1))
                         | None \<Rightarrow>
                             Err (Validation ''match'' ''composite must have exactly one of: all, any_of, not'')))))"
| "compile_match_configs env [] depth node_count = Ok ([], node_count)"
| "compile_match_configs env (e # es) depth node_count =
    (case compile_match_config_limited env e depth node_count of
       Inl err \<Rightarrow> Err err
     | Inr (m, n) \<Rightarrow> map_sum id (\<lambda>(ms, n'). (m # ms, n')) (compile_match_configs env es depth n))"

declare compile_match_config_limited.simps [simp del]

definition compile_match_config :: "('re, 'net) config_env \<Rightarrow> match_expr_config \<Rightarrow> config_error + ('re, 'net) match_expr" where
  "compile_match_config env config = map_sum id fst (compile_match_config_limited env config 0 0)"

text \<open>The one matcher of a rule without an expression: the first field that is set and is set alone.\<close>

definition compile_matcher :: "('re, 'net) config_env \<Rightarrow> rule_config \<Rightarrow> config_error + ('re, 'net) match_expr" where
  "compile_matcher env rule =
    (case rc_match_expr rule of
       Some match_expr \<Rightarrow> compile_match_config env match_expr
     | None \<Rightarrow>
         (let no_exact = (rc_host_exact rule = None); no_suffix = (rc_host_suffix rule = None);
              no_regex = (rc_host_regex rule = None); no_port = (rc_destination_port rule = None);
              no_port_regex = (rc_destination_port_regex rule = None); any = or_default (rc_any rule) False in
          if \<not> no_exact \<and> no_suffix \<and> no_regex \<and> no_port \<and> no_port_regex \<and> \<not> any
          then Ok (HostExact (normalize_host_for_exact (the (rc_host_exact rule))))
          else if \<not> no_suffix \<and> no_exact \<and> no_regex \<and> no_port \<and> no_port_regex \<and> \<not> any
          then Ok (HostSuffix (normalize_host_for_exact (the (rc_host_suffix rule))))
          else if \<not> no_regex \<and> no_exact \<and> no_suffix \<and> no_port \<and> no_port_regex \<and> \<not> any
          then map_sum id HostRegex (compile_regex env ''host_regex'' (the (rc_host_regex rule)))
          else
            try_bind (try_option (compile_regex env ''destination_port_regex'') (rc_destination_port_regex rule)) (\<lambda>port_re.
            if \<not> no_port_regex \<and> no_exact \<and> no_suffix \<and> no_regex \<and> no_port \<and> \<not> any
            then Ok (DestinationPortRegex (the port_re))
            else if \<not> no_port \<and> no_exact \<and> no_suffix \<and> no_regex \<and> no_port_regex \<and> \<not> any
            then Ok (DestinationPort (Exact (the (rc_destination_port rule))))
            else if any \<or> (no_exact \<and> no_suffix \<and> no_regex \<and> no_port) then Ok Any
            else Err (Validation (rc_id rule) ''ambiguous matcher''))))"

definition compile_action :: "string list \<Rightarrow> rule_config \<Rightarrow> config_error + route_action_spec" where
  "compile_action gids rule =
    (case rc_direct rule of
       Some direct \<Rightarrow>
         if direct then Ok Action_Direct else Err (Validation (rc_id rule) ''direct action must be true'')
     | None \<Rightarrow>
         (case rc_upstream_group rule of
            Some g \<Rightarrow>
              if g \<notin> set gids then Err (Validation (rc_id rule) (''unknown upstream group: '' @ g))
              else Ok (Action_UpstreamGroup g)
          | None \<Rightarrow>
              (case rc_reject rule of
                 Some r \<Rightarrow> map_sum id Action_Reject (compile_reject_reason r)
               | None \<Rightarrow> Err (Validation (rc_id rule) ''missing action''))))"

definition compile_rule :: "('re, 'net) config_env \<Rightarrow> string list \<Rightarrow> rule_config \<Rightarrow> config_error + ('re, 'net) compiled_rule" where
  "compile_rule env gids r =
    try_bind (compile_matcher env r) (\<lambda>matcher.
    try_bind (compile_action gids r) (\<lambda>action.
    Ok \<lparr>rule_id = rc_id r, rule_matcher = matcher, rule_action = action\<rparr>))"

subsection \<open>The compatibility rules file\<close>

text \<open>\<^verbatim>\<open>str::lines\<close>: line feeds separate, a carriage return before one is dropped, a last empty line is not a line.\<close>

definition strip_cr :: "string \<Rightarrow> string" where
  "strip_cr l = (if l \<noteq> [] \<and> last l = CHR 0x0D then butlast l else l)"

definition str_lines :: "string \<Rightarrow> string list" where
  "str_lines s =
    (let ls = split_on (CHR 0x0A) s in map strip_cr (butlast ls) @ (if last ls = [] then [] else [last ls]))"

definition parse_line_at ::
  "(string \<Rightarrow> string + 're) \<Rightarrow> string \<Rightarrow> nat \<Rightarrow> (nat \<times> string) + 're option" where
  "parse_line_at regex line line_num =
    (let trimmed = trim line in
     if trimmed = [] \<or> starts_with ''#'' trimmed then Ok None
     else map_sum (\<lambda>e. (line_num, e)) Some (regex trimmed))"

definition parse_line :: "(string \<Rightarrow> string + 're) \<Rightarrow> string \<Rightarrow> (nat \<times> string) + 're option" where
  "parse_line regex line = parse_line_at regex line 0"

text \<open>The loop of \<^verbatim>\<open>parse_file\<close> skips what \<^verbatim>\<open>parse_line\<close> ignores and numbers lines from one.\<close>

fun parse_file_from :: "(string \<Rightarrow> string + 're) \<Rightarrow> nat \<Rightarrow> string list \<Rightarrow> (nat \<times> string) + 're list" where
  "parse_file_from regex idx [] = Ok []"
| "parse_file_from regex idx (line # rest) =
    (let trimmed = trim line in
     if trimmed = [] \<or> starts_with ''#'' trimmed then parse_file_from regex (idx + 1) rest
     else case regex trimmed of
            Inl e \<Rightarrow> Err (idx + 1, e)
          | Inr re \<Rightarrow> map_sum id ((#) re) (parse_file_from regex (idx + 1) rest))"

definition parse_file :: "(string \<Rightarrow> string + 're) \<Rightarrow> string \<Rightarrow> (nat \<times> string) + 're list" where
  "parse_file regex content = parse_file_from regex 0 (str_lines content)"

definition RegexError_fmt :: "nat \<times> string \<Rightarrow> string" where
  "RegexError_fmt e = ''invalid regex at line '' @ show_nat (fst e) @ '': '' @ snd e"

text \<open>With more than one group the file is refused, so the set of group names has at most one element.\<close>

definition rules_file_action :: "string list \<Rightarrow> route_action_spec" where
  "rules_file_action gids = (case gids of g # _ \<Rightarrow> Action_UpstreamGroup g | [] \<Rightarrow> Action_Direct)"

definition compile_rules_file ::
  "('re, 'net) config_env \<Rightarrow> string list \<Rightarrow> string \<Rightarrow> config_error + ('re, 'net) compiled_rule list" where
  "compile_rules_file env gids path =
    (if 1 < length (remdups gids)
     then Err (Validation ''rules_file''
       (''rules_file routes all rules to a single group; multiple groups are not supported with rules_file '' @ em_dash @
        '' use explicit [[rules]] instead''))
     else if path = [] \<or> CHR 0x00 \<in> set path
     then Err (Validation ''rules_file'' (''rules_file path is invalid: '' @ quoted path))
     else if ''..'' \<in> set (split_on CHR ''/'' path)
     then Err (Validation ''rules_file'' (''rules_file path escapes its directory via '' @ quoted ''..'' @ '': '' @ quoted path))
     else case load_rules_file env path of
            Inl e \<Rightarrow> Err (Validation ''rules_file'' (''failed to read '' @ quoted path @ '': '' @ ConfigError_fmt e))
          | Inr content \<Rightarrow>
              (case parse_file (env_regex env) content of
                 Inl e \<Rightarrow> Err (Validation ''rules_file'' (''failed to parse '' @ quoted path @ '': '' @ RegexError_fmt e))
               | Inr patterns \<Rightarrow>
                   Ok (map (\<lambda>(idx, re). \<lparr>rule_id = ''rules-file-'' @ show_nat (idx + 1), rule_matcher = HostRegex re,
                                       rule_action = rules_file_action gids\<rparr>) (enumerate 0 patterns))))"

definition compile_rules :: "('re, 'net) config_env \<Rightarrow> config_file \<Rightarrow> config_error + ('re, 'net) compiled_rule list" where
  "compile_rules env config =
    try_bind (traverse_result (compile_rule env (group_ids config)) (or_default (cf_rules config) [])) (\<lambda>listed.
    case cf_rules_file config of
      None \<Rightarrow> Ok listed
    | Some path \<Rightarrow> map_sum id (\<lambda>from_file. listed @ from_file) (compile_rules_file env (group_ids config) path))"

definition compile_default_action :: "config_file \<Rightarrow> route_action_spec" where
  "compile_default_action config =
    (case routing_default config of
       None \<Rightarrow> Action_Direct
     | Some d \<Rightarrow>
         if d = ''direct'' then Action_Direct
         else if d = ''reject'' then Action_Reject Blocked
         else Action_UpstreamGroup d)"

subsection \<open>Listeners\<close>

definition known_plugins :: "string list" where
  "known_plugins = [''plain'', ''origin'', ''http_simple'', ''tls1.2_ticket_auth'', ''verify_simple'', ''verify_deflate'']"

fun check_plugins :: "string \<Rightarrow> nat \<Rightarrow> string list \<Rightarrow> config_error + unit" where
  "check_plugins path i [] = Ok ()"
| "check_plugins path i (p # ps) =
    (if p \<notin> set known_plugins
     then Err (Validation (path @ indexed ''.ssr.plugins'' i)
       ''unknown pproxy plugin; expected plain, origin, http_simple, tls1.2_ticket_auth, verify_simple, or verify_deflate'')
     else check_plugins path (i + 1) ps)"

definition compile_udp_mode :: "string \<Rightarrow> string option \<Rightarrow> config_error + udp_mode" where
  "compile_udp_mode udp_path mode =
    (case mode of
       None \<Rightarrow> Ok Socks5UdpAssociate
     | Some m \<Rightarrow>
         if m = ''standalone_pproxy_udp'' \<or> m = ''standalone'' then Ok StandalonePproxyUdp
         else if m = ''shadowsocks_udp'' \<or> m = ''shadowsocks'' then Ok ShadowsocksUdp
         else if m = ''echo'' then Ok EchoUdp
         else if m = ''fixed_target'' \<or> m = ''fixed-target'' then Ok FixedTarget
         else if m = ''socks5_udp_associate'' \<or> m = ''socks5'' then Ok Socks5UdpAssociate
         else Err (Validation (udp_path @ ''.mode'')
           (''unknown UDP mode '' @ quoted m @ ''; expected '' @ quoted ''socks5_udp_associate'' @ '', '' @
            quoted ''standalone_pproxy_udp'' @ '', '' @ quoted ''shadowsocks_udp'' @ '', or '' @ quoted ''echo'')))"

definition parse_socket_at :: "string \<Rightarrow> string \<Rightarrow> config_error + socket_addr" where
  "parse_socket_at path s =
    (case parse_socket_addr s of Some a \<Rightarrow> Ok a | None \<Rightarrow> Err (Validation path (''invalid socket address: '' @ s)))"

definition parse_ip_at :: "string \<Rightarrow> string \<Rightarrow> config_error + ip_addr" where
  "parse_ip_at path s =
    (case parse_ip_addr s of Some a \<Rightarrow> Ok a | None \<Rightarrow> Err (Validation path (''invalid IP address: '' @ s)))"

definition check_positive :: "string \<Rightarrow> nat \<Rightarrow> config_error + nat" where
  "check_positive path n = (if n = 0 then Err (Validation path ''must be greater than 0'') else Ok n)"

text \<open>The checks that couple the mode of a UDP section with the rest of the listener.\<close>

definition check_udp_mode ::
  "udp_mode \<Rightarrow> protocol_id list \<Rightarrow> target_addr option \<Rightarrow> bool option \<Rightarrow> string \<Rightarrow> config_error + unit" where
  "check_udp_mode mode protocols fixed client_pin path =
    (if mode = FixedTarget \<and> fixed = None
     then Err (Validation (path @ ''.udp.fixed_target'') ''fixed_target UDP mode requires a target'')
     else if mode = ShadowsocksUdp \<and> Id_Shadowsocks \<notin> set protocols
     then Err (Validation path ''shadowsocks_udp mode requires shadowsocks protocol'')
     else if mode = ShadowsocksUdp \<and> \<not> or_default client_pin True
     then Err (Validation (path @ ''.udp.client_pin'') ''shadowsocks_udp mode requires client_pin = true for security'')
     else Ok ())"

definition compile_enabled_udp ::
  "('re, 'net) config_env \<Rightarrow> listener_udp_config \<Rightarrow> udp_mode \<Rightarrow> target_addr option \<Rightarrow> string \<Rightarrow> config_error + compiled_listener_udp" where
  "compile_enabled_udp env udp mode fixed udp_path =
    (let d = CompiledListenerUdpConfig_default; uni = env_alphabetic env;
         datagram = or_default (lu_max_datagram_size udp) (cl_max_datagram_size d) in
     try_bind (parse_socket_at (udp_path @ ''.bind'') (or_default (lu_bind udp) ''127.0.0.1:0'')) (\<lambda>bind.
     try_bind (try_option (parse_ip_at (udp_path @ ''.advertise'')) (lu_advertise udp)) (\<lambda>advertise.
     try_bind (duration_or_at uni (udp_path @ ''.idle_timeout'') (cl_idle_timeout d) (lu_idle_timeout udp)) (\<lambda>idle.
     try_bind (duration_or_at uni (udp_path @ ''.target_idle_timeout'') (cl_target_idle_timeout d) (lu_target_idle_timeout udp)) (\<lambda>target_idle.
     try_bind (check_positive (udp_path @ ''.max_associations'') (or_default (lu_max_associations udp) (cl_max_associations d))) (\<lambda>assocs.
     try_bind (check_positive (udp_path @ ''.max_targets_per_association'')
                 (or_default (lu_max_targets_per_association udp) (cl_max_targets_per_association d))) (\<lambda>targets.
     if datagram < 257 \<or> 65535 < datagram
     then Err (Validation (udp_path @ ''.max_datagram_size'') (''must be between 257 and 65535, got '' @ show_nat datagram))
     else
     try_bind (check_positive (udp_path @ ''.max_associations_global'')
                 (or_default (lu_max_associations_global udp) (cl_max_associations_global d))) (\<lambda>assocs_global.
     try_bind (duration_or_at uni (udp_path @ ''.upstream_connect_timeout'') (cl_upstream_connect_timeout d)
                 (lu_upstream_connect_timeout udp)) (\<lambda>connect_timeout.
     try_bind (parse_socket_at (udp_path @ ''.upstream_udp_bind'') (or_default (lu_upstream_udp_bind udp) ''127.0.0.1:0'')) (\<lambda>upstream_bind.
     Ok \<lparr>cl_mode = mode, cl_enabled = True, cl_bind = bind, cl_advertise = advertise, cl_idle_timeout = idle,
         cl_target_idle_timeout = target_idle, cl_max_associations = assocs, cl_max_targets_per_association = targets,
         cl_max_datagram_size = datagram, cl_client_pin = or_default (lu_client_pin udp) (cl_client_pin d),
         cl_allow_private_egress = or_default (lu_allow_private_egress udp) (cl_allow_private_egress d),
         cl_max_associations_global = assocs_global, cl_fixed_target = fixed,
         cl_upstream_connect_timeout = connect_timeout, cl_upstream_udp_bind = upstream_bind\<rparr>))))))))))"

definition compile_listener_udp_config ::
  "('re, 'net) config_env \<Rightarrow> listener_udp_config \<Rightarrow> protocol_id list \<Rightarrow> string \<Rightarrow> config_error + compiled_listener_udp" where
  "compile_listener_udp_config env udp protocols path =
    (let d = CompiledListenerUdpConfig_default; udp_path = path @ ''.udp'' in
     try_bind (compile_udp_mode udp_path (lu_mode udp)) (\<lambda>mode.
     if mode = Socks5UdpAssociate \<and> Id_Socks5 \<notin> set protocols
     then Err (Validation path ''UDP config requires socks5 protocol'')
     else if mode = EchoUdp \<and> Id_Echo \<notin> set protocols
     then Err (Validation path ''echo UDP mode requires echo protocol'')
     else
     try_bind (try_option (\<lambda>v. map_err (Validation (path @ ''.udp.fixed_target'')) (TargetAddr_from_str v))
                 (lu_fixed_target udp)) (\<lambda>fixed.
     try_bind (check_udp_mode mode protocols fixed (lu_client_pin udp) path) (\<lambda>_.
     if \<not> or_default (lu_enabled udp) (cl_enabled d) then Ok (d\<lparr>cl_enabled := False\<rparr>)
     else compile_enabled_udp env udp mode fixed udp_path))))"

definition compile_listener_udp_defaults :: "protocol_id list \<Rightarrow> string \<Rightarrow> config_error + compiled_listener_udp" where
  "compile_listener_udp_defaults protocols path =
    (if Id_Socks5 \<notin> set protocols then Err (Validation path ''udp_enabled = true requires socks5 protocol'')
     else Ok CompiledListenerUdpConfig_default)"

definition check_udp_shadowsocks ::
  "compiled_listener_udp option \<Rightarrow> shadowsocks_listener_config option \<Rightarrow> string \<Rightarrow> config_error + unit" where
  "check_udp_shadowsocks udp shadowsocks path =
    (case udp of
       None \<Rightarrow> Ok ()
     | Some u \<Rightarrow>
         if cl_mode u \<noteq> ShadowsocksUdp then Ok ()
         else (case shadowsocks of
                 None \<Rightarrow> Err (Validation path
                   ''shadowsocks_udp mode requires [listeners.shadowsocks] section with method and password'')
               | Some ss \<Rightarrow>
                   if sl_method ss = []
                   then Err (Validation (path @ ''.shadowsocks.method'') ''shadowsocks method must not be empty'')
                   else if sl_password ss = []
                   then Err (Validation (path @ ''.shadowsocks.password'') ''shadowsocks password must not be empty'')
                   else Ok ()))"

definition read_pem :: "('re, 'net) config_env \<Rightarrow> string \<Rightarrow> string \<Rightarrow> string \<Rightarrow> config_error + u8 list" where
  "read_pem env path kind file =
    map_err (\<lambda>e. Validation path (''failed to read '' @ kind @ '' file: '' @ e)) (env_read env file)"

definition first_error :: "string option list \<Rightarrow> string option" where
  "first_error es = (case filter (\<lambda>e. e \<noteq> None) es of e # _ \<Rightarrow> e | [] \<Rightarrow> None)"

definition tls_material_ok :: "string \<Rightarrow> string option list \<Rightarrow> config_error + unit" where
  "tls_material_ok path es =
    (case first_error es of
       Some e \<Rightarrow> Err (Validation (path @ ''.tls'') (''invalid TLS config: '' @ e))
     | None \<Rightarrow> Ok ())"

definition compile_listener_tls ::
  "('re, 'net) config_env \<Rightarrow> string \<Rightarrow> listener_tls_config \<Rightarrow> config_error + compiled_listener_tls" where
  "compile_listener_tls env path tls =
    try_bind (read_pem env (path @ ''.tls.cert'') ''cert'' (ltls_cert tls)) (\<lambda>cert.
    try_bind (read_pem env (path @ ''.tls.key'') ''key'' (ltls_key tls)) (\<lambda>key.
    try_bind (tls_material_ok path [env_cert_pem env cert, env_key_pem env key]) (\<lambda>_.
    Ok \<lparr>clt_cert_pem = cert, clt_key_pem = key, clt_alpn = map as_bytes (or_default (ltls_alpn tls) [])\<rparr>)))"

text \<open>The restrictions on listeners that run over QUIC.\<close>

definition check_quic ::
  "protocol_id list \<Rightarrow> listener_config \<Rightarrow> compiled_listener_udp option \<Rightarrow> compiled_listener_tls option \<Rightarrow> string \<Rightarrow> config_error + unit" where
  "check_quic protocols l udp tls path =
    (if Id_Quic \<notin> set protocols \<and> Id_Http3 \<notin> set protocols then Ok ()
     else if tls = None
     then Err (Validation (path @ ''.tls'') ''QUIC/HTTP3 listeners require certificate and key material'')
     else if lc_unix l \<noteq> None \<or> (case lc_transparent l of Some t \<Rightarrow> or_default (tp_enabled t) False | None \<Rightarrow> False)
     then Err (Validation path ''QUIC/HTTP3 listeners cannot use unix or transparent listener modes'')
     else if Id_Http3 \<in> set protocols \<and> length protocols \<noteq> 1
     then Err (Validation (path @ ''.protocols'') ''HTTP/3 listeners must use exactly the h3 protocol'')
     else if Id_Quic \<in> set protocols \<and> filter (\<lambda>p. p \<noteq> Id_Quic \<and> p \<noteq> Id_Http3) protocols = []
     then Err (Validation (path @ ''.protocols'')
       ''raw QUIC listeners require an application protocol such as http or socks5'')
     else if udp \<noteq> None
     then Err (Validation (path @ ''.udp'') ''QUIC and HTTP/3 listeners do not provide UDP association mode'')
     else if lc_fixed_target l \<noteq> None \<and> Id_Http3 \<in> set protocols
     then Err (Validation (path @ ''.fixed_target'') ''HTTP/3 CONNECT uses the request authority instead of a fixed target'')
     else Ok ())"

definition compile_transparent_config :: "transparent_config option \<Rightarrow> config_error + compiled_transparent option" where
  "compile_transparent_config config =
    (case config of
       None \<Rightarrow> Ok None
     | Some cfg \<Rightarrow>
         (let protocol = or_default (tp_protocol cfg) ''redir'' in
          if protocol = ''redir'' \<or> protocol = ''pf''
          then Ok (Some \<lparr>ct_enabled = or_default (tp_enabled cfg) False, ct_protocol = protocol\<rparr>)
          else Err (Validation ''transparent.protocol''
            (''unknown transparent protocol '' @ quoted protocol @ ''; expected '' @ quoted ''redir'' @ '' or '' @ quoted ''pf''))))"

text \<open>
  The components of a Unix path: the root, then the non-empty parts without \<^verbatim>\<open>.\<close>, except for a leading \<^verbatim>\<open>.\<close> of
  a relative path. The parent of a path drops the last component; the root and the empty path have
  none, and the parent of a single component is the empty path.
\<close>

definition path_components :: "string \<Rightarrow> string list" where
  "path_components p =
    (let parts = filter (\<lambda>c. c \<noteq> []) (split_on CHR ''/'' p) in
     (if starts_with ''/'' p then [''/''] @ filter (\<lambda>c. c \<noteq> ''.'') parts
      else case parts of [] \<Rightarrow> [] | c # cs \<Rightarrow> c # filter (\<lambda>c. c \<noteq> ''.'') cs))"

definition compile_unix_listener_config :: "unix_listener_config option \<Rightarrow> config_error + compiled_unix_listener option" where
  "compile_unix_listener_config config =
    (case config of
       None \<Rightarrow> Ok None
     | Some cfg \<Rightarrow>
         if length (path_components (ul_path cfg)) < 2
         then Err (Validation ''unix.path''
           (''socket path must be absolute or have a valid parent directory: '' @ ul_path cfg))
         else Ok (Some \<lparr>cu_path = ul_path cfg, cu_unlink_existing = or_default (ul_unlink_existing cfg) True,
                        cu_mode = or_default (ul_mode cfg) 432\<rparr>))"

definition compile_listener_udp ::
  "('re, 'net) config_env \<Rightarrow> listener_config \<Rightarrow> protocol_id list \<Rightarrow> string \<Rightarrow> config_error + compiled_listener_udp option" where
  "compile_listener_udp env l protocols path =
    (case lc_udp l of
       None \<Rightarrow>
         if lc_udp_enabled l = Some True then map_sum id Some (compile_listener_udp_defaults protocols path) else Ok None
     | Some udp_cfg \<Rightarrow>
         if lc_udp_enabled l = Some False \<and> or_default (lu_enabled udp_cfg) True
         then Err (Validation path ''udp_enabled = false conflicts with [listeners.udp] enabled = true'')
         else map_sum id Some (compile_listener_udp_config env udp_cfg protocols path))"

definition compile_listener_auth :: "('re, 'net) config_env \<Rightarrow> string \<Rightarrow> auth_config \<Rightarrow> config_error + auth_config" where
  "compile_listener_auth env path a =
    try_bind (resolve_password env (ac_password a) (ac_password_env a) path) (\<lambda>password.
    Ok \<lparr>ac_auth_type = ac_auth_type a, ac_username = ac_username a, ac_password = password, ac_password_env = None\<rparr>)"

definition check_ssr :: "protocol_id list \<Rightarrow> ssr_listener_config option \<Rightarrow> string \<Rightarrow> config_error + unit" where
  "check_ssr protocols ssr path =
    (if Id_ShadowsocksR \<notin> set protocols then Ok ()
     else case ssr of
            None \<Rightarrow> Err (Validation (path @ ''.ssr'') ''ssr protocol requires an [listeners.ssr] section'')
          | Some s \<Rightarrow> check_plugins path 0 (ssr_plugins s))"

definition ssr_as_shadowsocks :: "ssr_listener_config \<Rightarrow> shadowsocks_listener_config" where
  "ssr_as_shadowsocks ssr =
    \<lparr>sl_method = ''ssr'', sl_password = [], sl_auth_prefix = ssr_auth_prefix ssr, sl_plugins = ssr_plugins ssr\<rparr>"

definition compile_listener :: "('re, 'net) config_env \<Rightarrow> nat \<Rightarrow> listener_config \<Rightarrow> config_error + rtc_listener" where
  "compile_listener env i l =
    (let path = indexed ''listeners'' i in
     try_bind (traverse_result (compile_protocol env) (lc_protocols l)) (\<lambda>protocols.
     if protocols = [] then Err (Validation path ''protocols must not be empty'')
     else
     try_bind (check_ssr protocols (lc_ssr l) path) (\<lambda>_.
     try_bind (compile_listener_udp env l protocols path) (\<lambda>udp.
     try_bind (check_udp_shadowsocks udp (lc_shadowsocks l) path) (\<lambda>_.
     try_bind (try_option (compile_listener_tls env path) (lc_tls l)) (\<lambda>tls.
     try_bind (check_quic protocols l udp tls path) (\<lambda>_.
     try_bind (compile_transparent_config (lc_transparent l)) (\<lambda>transparent.
     try_bind (compile_unix_listener_config (lc_unix l)) (\<lambda>unix.
     try_bind (try_option (\<lambda>v. map_err (Validation (path @ ''.fixed_target'')) (TargetAddr_from_str v)) (lc_fixed_target l)) (\<lambda>fixed.
     try_bind (try_option (compile_listener_auth env path) (lc_auth l)) (\<lambda>auth.
     Ok \<lparr>rl_name = lc_name l, rl_bind = lc_bind l, rl_protocols = protocols, rl_reuse_port = lc_reuse_port l,
         rl_connection_limit = lc_connection_limit l, rl_auth = auth, rl_udp = udp, rl_tls = tls,
         rl_shadowsocks = (case lc_shadowsocks l of Some ss \<Rightarrow> Some ss | None \<Rightarrow> map_option ssr_as_shadowsocks (lc_ssr l)),
         rl_trojan = lc_trojan l, rl_transparent = transparent, rl_unix = unix, rl_fixed_target = fixed,
         rl_local_bind = lc_local_bind l\<rparr>)))))))))))"

definition compile_listeners :: "('re, 'net) config_env \<Rightarrow> config_file \<Rightarrow> config_error + rtc_listener list" where
  "compile_listeners env config =
    (case cf_listeners config of
       None \<Rightarrow> Ok []
     | Some ls \<Rightarrow> traverse_result (\<lambda>(i, l). compile_listener env i l) (enumerate 0 ls))"

subsection \<open>Reverse servers and clients\<close>

text \<open>\<^verbatim>\<open>d.as_millis() as u64\<close>: the conversion keeps the low 64 bits.\<close>

definition millis_or_at :: "(string \<Rightarrow> bool) \<Rightarrow> string \<Rightarrow> u64 \<Rightarrow> string option \<Rightarrow> config_error + u64" where
  "millis_or_at uni path d v =
    (case v of
       None \<Rightarrow> Ok d
     | Some s \<Rightarrow> map_sum (\<lambda>e. Validation path (ConfigError_fmt e)) (\<lambda>n. word_of_nat (n div 10 ^ 6)) (validate_duration uni s))"

definition compile_reverse_server_tls ::
  "('re, 'net) config_env \<Rightarrow> string \<Rightarrow> reverse_server_tls_config option \<Rightarrow> config_error + compiled_reverse_server_tls option" where
  "compile_reverse_server_tls env path tls =
    (case tls of
       None \<Rightarrow> Ok None
     | Some t \<Rightarrow>
         if rst_require_client_cert t \<and> rst_client_ca t = None
         then Err (Validation (path @ ''.tls'') ''reverse server mTLS requires client_ca when require_client_cert is set'')
         else
         try_bind (read_pem env (path @ ''.tls.cert'') ''cert'' (rst_cert t)) (\<lambda>cert.
         try_bind (read_pem env (path @ ''.tls.key'') ''key'' (rst_key t)) (\<lambda>key.
         try_bind (try_option (read_pem env (path @ ''.tls.client_ca'') ''client CA'') (rst_client_ca t)) (\<lambda>ca.
         try_bind (tls_material_ok path [env_cert_pem env cert, env_key_pem env key, Option.bind ca (env_roots_pem env)]) (\<lambda>_.
         Ok (Some \<lparr>crst_cert_pem = cert, crst_key_pem = key, crst_client_ca_pem = ca,
                   crst_require_client_cert = rst_require_client_cert t\<rparr>))))))"

definition compile_reverse_server ::
  "('re, 'net) config_env \<Rightarrow> nat \<Rightarrow> reverse_server_config \<Rightarrow> config_error + compiled_reverse_server" where
  "compile_reverse_server env i s =
    (let path = indexed ''reverse_servers'' i in
     try_bind (parse_socket_at (path @ ''.control_bind'') (rs_control_bind s)) (\<lambda>control.
     try_bind (parse_socket_at (path @ ''.external_bind'') (rs_external_bind s)) (\<lambda>external.
     try_bind (resolve_password env (rs_auth_password s) (rs_auth_password_env s) path) (\<lambda>password.
     if (rs_auth_username s \<noteq> None) \<noteq> (password \<noteq> None)
     then Err (Validation path ''reverse server auth requires both auth_username and auth_password'')
     else
     try_bind (millis_or_at (env_alphabetic env) (path @ ''.heartbeat_interval'') 300000 (rs_heartbeat_interval s)) (\<lambda>heartbeat.
     if rs_pproxy_compat s \<and> rs_tls s \<noteq> None
     then Err (Validation (path @ ''.tls'')
       ''reverse TLS is not supported with pproxy_compat (wire must remain byte-compatible plaintext)'')
     else
     try_bind (compile_reverse_server_tls env path (rs_tls s)) (\<lambda>tls.
     Ok \<lparr>crs_id = rs_id s, crs_control_bind = control, crs_external_bind = external,
         crs_auth_username = rs_auth_username s, crs_auth_password = password, crs_max_control_connections = 256,
         crs_read_timeout_ms = heartbeat, crs_allow_bind = None, crs_max_listeners_per_client = 1,
         crs_max_streams_per_listener = or_default (rs_max_streams s) 1024, crs_max_pending_external = 1024,
         crs_pproxy_compat = rs_pproxy_compat s, crs_tls = tls\<rparr>))))))"

definition compile_reverse_client_tls ::
  "('re, 'net) config_env \<Rightarrow> string \<Rightarrow> reverse_client_tls_config option \<Rightarrow> config_error + compiled_reverse_client_tls option" where
  "compile_reverse_client_tls env path tls =
    (case tls of
       None \<Rightarrow> Ok None
     | Some t \<Rightarrow>
         if rct_server_name t = []
         then Err (Validation (path @ ''.tls.server_name'') ''reverse client TLS requires a server_name for SNI/verification'')
         else if \<not> env_server_name env (rct_server_name t)
         then Err (Validation (path @ ''.tls.server_name'') (''invalid server_name '' @ quoted (rct_server_name t)))
         else if (rct_client_cert t \<noteq> None) \<noteq> (rct_client_key t \<noteq> None)
         then Err (Validation (path @ ''.tls'') ''reverse client mTLS requires both client_cert and client_key'')
         else
         try_bind (try_option (read_pem env (path @ ''.tls.ca'') ''CA'') (rct_ca t)) (\<lambda>ca.
         try_bind (try_option (read_pem env (path @ ''.tls.client_cert'') ''client cert'') (rct_client_cert t)) (\<lambda>cert.
         try_bind (try_option (read_pem env (path @ ''.tls.client_key'') ''client key'') (rct_client_key t)) (\<lambda>key.
         try_bind
           (case ca of
              Some pem \<Rightarrow>
                (case env_roots_pem env pem of
                   Some e \<Rightarrow> Err (Validation (path @ ''.tls.ca'') (''invalid CA PEM: '' @ e)) | None \<Rightarrow> Ok ())
            | None \<Rightarrow>
                (case env_system_roots env of
                   Some e \<Rightarrow> Err (Validation (path @ ''.tls'') (''TLS system roots unavailable: '' @ e)) | None \<Rightarrow> Ok ())) (\<lambda>_.
         try_bind
           (tls_material_ok path
             [env_client_tls env ca (case (cert, key) of (Some c, Some k) \<Rightarrow> Some (c, k) | _ \<Rightarrow> None)]) (\<lambda>_.
         Ok (Some \<lparr>crct_ca_pem = ca, crct_server_name = rct_server_name t, crct_client_cert_pem = cert,
                   crct_client_key_pem = key\<rparr>)))))))"

definition compile_reverse_client ::
  "('re, 'net) config_env \<Rightarrow> nat \<Rightarrow> reverse_client_config \<Rightarrow> config_error + compiled_reverse_client" where
  "compile_reverse_client env i c =
    (let path = indexed ''reverse_clients'' i; uni = env_alphabetic env in
     try_bind (parse_socket_at (path @ ''.server_addr'') (rcl_server_addr c)) (\<lambda>server.
     try_bind (map_err (\<lambda>e. Validation (path @ ''.server_uri'') (''invalid backward chain: '' @ UriParseError_fmt e))
                (try_option parse_proxy_chain (rcl_server_uri c))) (\<lambda>chain.
     try_bind (resolve_password env (rcl_auth_password c) (rcl_auth_password_env c) path) (\<lambda>password.
     try_bind (millis_or_at uni (path @ ''.reconnect_initial'') 1000 (rcl_reconnect_initial c)) (\<lambda>initial.
     try_bind (millis_or_at uni (path @ ''.reconnect_max'') 30000 (rcl_reconnect_max c)) (\<lambda>rmax.
     try_bind (millis_or_at uni (path @ ''.heartbeat_interval'') 60000 (rcl_heartbeat_interval c)) (\<lambda>heartbeat.
     if rcl_default_target_host c = None \<or> rcl_default_target_port c = None
     then Err (Validation path ''reverse client requires default_target_host and default_target_port'')
     else if rcl_pproxy_compat c \<and> rcl_tls c \<noteq> None
     then Err (Validation (path @ ''.tls'')
       ''reverse TLS is not supported with pproxy_compat (wire must remain byte-compatible plaintext)'')
     else
     try_bind (compile_reverse_client_tls env path (rcl_tls c)) (\<lambda>tls.
     Ok \<lparr>crc_id = rcl_id c, crc_server_addr = server, crc_server_chain = chain,
         crc_auth_username = rcl_auth_username c, crc_auth_password = password,
         crc_reconnect_initial_ms = initial, crc_reconnect_max_ms = rmax,
         crc_default_target_host = rcl_default_target_host c, crc_default_target_port = rcl_default_target_port c,
         crc_read_timeout_ms = heartbeat, crc_drain_grace_ms = 5000,
         crc_parallel_connections = or_default (rcl_parallel_connections c) 1,
         crc_pproxy_compat = rcl_pproxy_compat c, crc_tls = tls\<rparr>))))))))"

definition compile_reverse_servers :: "('re, 'net) config_env \<Rightarrow> config_file \<Rightarrow> config_error + compiled_reverse_server list" where
  "compile_reverse_servers env config =
    traverse_result (\<lambda>(i, s). compile_reverse_server env i s) (enumerate 0 (or_default (cf_reverse_servers config) []))"

definition compile_reverse_clients :: "('re, 'net) config_env \<Rightarrow> config_file \<Rightarrow> config_error + compiled_reverse_client list" where
  "compile_reverse_clients env config =
    traverse_result (\<lambda>(i, c). compile_reverse_client env i c) (enumerate 0 (or_default (cf_reverse_clients config) []))"

subsection \<open>The whole file\<close>

definition compile_config :: "('re, 'net) config_env \<Rightarrow> config_file \<Rightarrow> config_error + ('re, 'net) runtime_config" where
  "compile_config env config =
    try_bind (compile_process env config) (\<lambda>process.
    try_bind (compile_timeouts env config) (\<lambda>timeouts.
    try_bind (compile_listeners env config) (\<lambda>listeners.
    try_bind (compile_upstreams env config) (\<lambda>upstreams.
    try_bind (compile_groups config) (\<lambda>grps.
    try_bind (compile_rules env config) (\<lambda>rls.
    try_bind (compile_admin env config) (\<lambda>admin.
    try_bind (compile_reverse_servers env config) (\<lambda>servers.
    try_bind (compile_reverse_clients env config) (\<lambda>clients.
    Ok \<lparr>rt_process = process, rt_timeouts = timeouts, rt_listeners = listeners, rt_upstreams = upstreams,
        rt_groups = grps, rt_rules = rls, rt_default_action = compile_default_action config, rt_admin = admin,
        rt_reverse_servers = servers, rt_reverse_clients = clients\<rparr>)))))))))"

text \<open>The TOML parser is a parameter: it answers with the deserialised file or the text of its error.\<close>

definition checked_config ::
  "('re, 'net) config_env \<Rightarrow> (string \<Rightarrow> string + config_file) \<Rightarrow> string \<Rightarrow> config_error + config_file" where
  "checked_config env from_toml toml_str =
    try_bind (map_err Config_Parse (from_toml toml_str)) (\<lambda>config.
    case cf_version config of
      Some v \<Rightarrow>
        if v \<noteq> 1 then Err (UnsupportedVersion v)
        else map_sum (\<lambda>es. Validation ''config'' (join_str ''; '' (map ConfigError_fmt es))) (\<lambda>_. config) (validate_config env config)
    | None \<Rightarrow>
        map_sum (\<lambda>es. Validation ''config'' (join_str ''; '' (map ConfigError_fmt es))) (\<lambda>_. config) (validate_config env config))"

definition validate_and_compile_toml ::
  "('re, 'net) config_env \<Rightarrow> (string \<Rightarrow> string + config_file) \<Rightarrow> string \<Rightarrow> config_error + ('re, 'net) runtime_config" where
  "validate_and_compile_toml env from_toml toml_str =
    try_bind (checked_config env from_toml toml_str) (compile_config env)"

definition load_and_validate ::
  "('re, 'net) config_env \<Rightarrow> (string \<Rightarrow> string + config_file) \<Rightarrow> string \<Rightarrow> config_error + ('re, 'net) runtime_config" where
  "load_and_validate env from_toml path =
    try_bind (load_config_file env path) (validate_and_compile_toml env from_toml)"

definition missing_version_warning :: config_warning where
  "missing_version_warning =
    \<lparr>warn_path = ''version'',
     warn_message = ''config version is omitted; add `version = 1` to make the schema contract explicit''\<rparr>"

definition validate_and_compile_toml_with_warnings ::
  "('re, 'net) config_env \<Rightarrow> (string \<Rightarrow> string + config_file) \<Rightarrow> string
   \<Rightarrow> config_error + (('re, 'net) runtime_config \<times> config_warning list)" where
  "validate_and_compile_toml_with_warnings env from_toml toml_str =
    try_bind (checked_config env from_toml toml_str) (\<lambda>config.
    map_sum id (\<lambda>rt. (rt, validate_config_security config @ push_if (cf_version config = None) missing_version_warning))
      (compile_config env config))"

definition load_and_validate_with_warnings ::
  "('re, 'net) config_env \<Rightarrow> (string \<Rightarrow> string + config_file) \<Rightarrow> string
   \<Rightarrow> config_error + (('re, 'net) runtime_config \<times> config_warning list)" where
  "load_and_validate_with_warnings env from_toml path =
    try_bind (load_config_file env path) (validate_and_compile_toml_with_warnings env from_toml)"

end
