(* ===== verification/Config_Facts.thy ===== *)
theory Config_Facts
  imports Config_Compile
begin

text \<open>
  What an accepted configuration satisfies: the parts of a successful compilation, the identifiers and references that
  validation guarantees, the meaning of a compiled matcher against the expression it was compiled from,
  what the analysis of UDP rules is worth, and the protection of the admin endpoint. A small sample
  configuration is accepted and compiled, for the instances of these facts.
\<close>

subsection \<open>Inverting successful compilations\<close>

lemma traverse_result_Ok:
  "traverse_result f xs = Ok ys \<longleftrightarrow> list_all2 (\<lambda>x y. f x = Ok y) xs ys"
proof (induction xs arbitrary: ys)
  case (Cons x xs)
  show ?case
    by (cases "f x"; cases "traverse_result f xs") (auto simp: list_all2_Cons1 simp flip: Cons.IH)
qed auto

lemma list_all2_setD2: "list_all2 P xs ys \<Longrightarrow> y \<in> set ys \<Longrightarrow> \<exists>x \<in> set xs. P x y"
  by (induction rule: list_all2_induct) auto

lemma map_sum_Ok_iff [simp]: "map_sum f g r = Ok y \<longleftrightarrow> (\<exists>x. r = Ok x \<and> y = g x)"
  by (cases r) auto

lemmas compile_Ok = try_bind_Ok_iff traverse_result_Ok try_option_Ok

lemma list_all2_map_eq: "list_all2 (\<lambda>x y. f x = g y) xs ys \<longleftrightarrow> map f xs = map g ys"
  by (induction xs arbitrary: ys) (auto simp: list_all2_Cons1 map_eq_Cons_conv)

lemma compile_upstream_Ok:
  assumes "compile_upstream env u = Ok u'"
  shows "ru_id u' = uc_id u" "parse_proxy_chain (uc_uri u) = Ok (ru_chain u')"
  using assms by (auto simp: compile_upstream_def Let_def try_bind_Ok_iff)

lemma compile_group_Ok:
  assumes "compile_group g = Ok g'"
  shows "rg_id g' = gc_id g" "rg_members g' = gc_members g"
  using assms by (auto simp: compile_group_def try_bind_Ok_iff)

lemma compile_rule_Ok:
  assumes "compile_rule env gids r = Ok r'"
  shows "rule_id r' = rc_id r" "compile_matcher env r = Ok (rule_matcher r')" "compile_action gids r = Ok (rule_action r')"
  using assms by (auto simp: compile_rule_def try_bind_Ok_iff)

lemma compile_action_group:
  "compile_action gids r = Ok (Action_UpstreamGroup g) \<Longrightarrow> g \<in> set gids"
  by (auto simp: compile_action_def split: option.splits if_splits)

lemma rules_file_action_group:
  "rules_file_action gids = Action_UpstreamGroup g \<Longrightarrow> g \<in> set gids"
  by (auto simp: rules_file_action_def split: list.splits)

lemma compile_rules_file_group:
  assumes "compile_rules_file env gids path = Ok rs" "r \<in> set rs" "rule_action r = Action_UpstreamGroup g"
  shows "g \<in> set gids"
proof -
  have "rule_action r = rules_file_action gids"
    using assms(1,2) by (auto simp: compile_rules_file_def split: if_splits sum.splits)
  with assms(3) show ?thesis by (simp add: rules_file_action_group)
qed

lemma compile_rules_cases:
  assumes "compile_rules env config = Ok rs"
  shows "\<exists>listed extra. list_all2 (\<lambda>x y. compile_rule env (group_ids config) x = Ok y) (or_default (cf_rules config) []) listed \<and>
    rs = listed @ extra \<and> (extra = [] \<or> (\<exists>path. compile_rules_file env (group_ids config) path = Ok extra))"
proof (cases "cf_rules_file config")
  case None
  with assms show ?thesis by (intro exI [of _ rs] exI [of _ "[]"]) (simp add: compile_rules_def compile_Ok)
next
  case (Some path)
  with assms show ?thesis by (auto simp: compile_rules_def compile_Ok)
qed

lemma compile_rules_group:
  assumes "compile_rules env config = Ok rs" "r \<in> set rs" "rule_action r = Action_UpstreamGroup g"
  shows "g \<in> set (group_ids config)"
proof -
  obtain listed extra where
    listed: "list_all2 (\<lambda>x y. compile_rule env (group_ids config) x = Ok y) (or_default (cf_rules config) []) listed" and
    rs: "rs = listed @ extra" and extra: "extra = [] \<or> (\<exists>path. compile_rules_file env (group_ids config) path = Ok extra)"
    using compile_rules_cases [OF assms(1)] by blast
  show ?thesis
  proof (cases "r \<in> set listed")
    case True
    with listed obtain x where "compile_rule env (group_ids config) x = Ok r" by (blast dest: list_all2_setD2)
    then show ?thesis using assms(3) by (auto dest!: compile_rule_Ok(3) intro: compile_action_group)
  next
    case False
    with rs extra assms(2,3) show ?thesis by (auto intro: compile_rules_file_group)
  qed
qed

text \<open>The parts of a compiled configuration that routing works with.\<close>

lemma compile_config_Ok:
  assumes "compile_config env config = Ok rt"
  shows "compile_upstreams env config = Ok (rt_upstreams rt)" "compile_groups config = Ok (rt_groups rt)"
    "compile_rules env config = Ok (rt_rules rt)" "rt_default_action rt = compile_default_action config"
    "compile_admin env config = Ok (rt_admin rt)" "compile_listeners env config = Ok (rt_listeners rt)"
  using assms by (auto simp: compile_config_def try_bind_Ok_iff)

lemma compile_upstreams_Ok:
  "compile_upstreams env config = Ok us \<Longrightarrow>
    list_all2 (\<lambda>u u'. compile_upstream env u = Ok u') (or_default (cf_upstreams config) []) us"
  by (auto simp: compile_upstreams_def traverse_result_Ok split: option.splits)

lemma compile_groups_Ok:
  "compile_groups config = Ok gs \<Longrightarrow>
    list_all2 (\<lambda>g g'. compile_group g = Ok g') (or_default (cf_upstream_groups config) []) gs"
  by (auto simp: compile_groups_def traverse_result_Ok split: option.splits)

lemma ids_or_default:
  "upstream_ids config = map uc_id (or_default (cf_upstreams config) [])"
  "group_ids config = map gc_id (or_default (cf_upstream_groups config) [])"
  by (simp_all add: upstream_ids_def group_ids_def split: option.splits)

lemma compiled_ids:
  assumes "compile_config env config = Ok rt"
  shows "map ru_id (rt_upstreams rt) = upstream_ids config" "map rg_id (rt_groups rt) = group_ids config"
proof -
  have "list_all2 (\<lambda>u u'. uc_id u = ru_id u') (or_default (cf_upstreams config) []) (rt_upstreams rt)"
    using compile_upstreams_Ok [OF compile_config_Ok(1) [OF assms]] by (rule list_all2_mono) (simp add: compile_upstream_Ok)
  then show "map ru_id (rt_upstreams rt) = upstream_ids config"
    by (simp add: list_all2_map_eq ids_or_default)
  have "list_all2 (\<lambda>g g'. gc_id g = rg_id g') (or_default (cf_upstream_groups config) []) (rt_groups rt)"
    using compile_groups_Ok [OF compile_config_Ok(2) [OF assms]] by (rule list_all2_mono) (simp add: compile_group_Ok)
  then show "map rg_id (rt_groups rt) = group_ids config"
    by (simp add: list_all2_map_eq ids_or_default)
qed

subsection \<open>What an accepted configuration satisfies\<close>

lemma validate_config_Ok: "validate_config env config = Ok () \<longleftrightarrow> config_errors env config = []"
  by (simp add: validate_config_def)

lemma validate_members_Nil:
  "validate_members path ids j seen ms = [] \<longleftrightarrow> distinct ms \<and> set ms \<inter> set seen = {} \<and> set ms \<subseteq> set ids"
  by (induction ms arbitrary: j seen) auto

definition group_closed :: "string list \<Rightarrow> upstream_group_config \<Rightarrow> bool" where
  "group_closed ids g \<longleftrightarrow> gc_members g \<noteq> [] \<and> distinct (gc_members g) \<and> set (gc_members g) \<subseteq> set ids"

lemma validate_upstream_groups_Nil:
  "validate_upstream_groups ids i seen gs = [] \<Longrightarrow>
    distinct (map gc_id gs) \<and> set (map gc_id gs) \<inter> set seen = {} \<and> list_all (group_closed ids) gs"
proof (induction gs arbitrary: i seen)
  case (Cons g gs)
  from Cons.prems have "gc_id g \<notin> set seen" "group_closed ids g"
    by (simp_all add: validate_upstream_group_def Let_def validate_members_Nil group_closed_def)
  with Cons.IH [of "i + 1" "gc_id g # seen"] Cons.prems show ?case by auto
qed simp

lemma validate_upstreams_Nil:
  "validate_upstreams uni i seen us = [] \<Longrightarrow>
    distinct (map uc_id us) \<and> set (map uc_id us) \<inter> set seen = {} \<and>
    (\<forall>u \<in> set us. is_ok (parse_proxy_chain (uc_uri u)))"
proof (induction us arbitrary: i seen)
  case (Cons u us)
  from Cons.prems have "uc_id u \<notin> set seen" "is_ok (parse_proxy_chain (uc_uri u))"
    by (simp_all add: validate_upstream_def Let_def split: sum.splits)
  with Cons.IH [of "i + 1" "uc_id u # seen"] Cons.prems show ?case by auto
qed simp

lemma accepted_groups:
  assumes "validate_config env config = Ok ()"
  shows "distinct (group_ids config)" "list_all (group_closed (upstream_ids config)) (or_default (cf_upstream_groups config) [])"
proof -
  have "validate_upstream_groups (upstream_ids config) 0 [] (or_default (cf_upstream_groups config) []) = []"
    using assms by (cases "cf_upstream_groups config") (simp_all add: validate_config_Ok config_errors_def Let_def)
  from validate_upstream_groups_Nil [OF this] show "distinct (group_ids config)"
    "list_all (group_closed (upstream_ids config)) (or_default (cf_upstream_groups config) [])"
    by (simp_all add: ids_or_default)
qed

lemma accepted_upstreams:
  assumes "validate_config env config = Ok ()"
  shows "distinct (upstream_ids config)"
proof -
  have "validate_upstreams (env_alphabetic env) 0 [] (or_default (cf_upstreams config) []) = []"
    using assms by (cases "cf_upstreams config") (simp_all add: validate_config_Ok config_errors_def Let_def)
  from validate_upstreams_Nil [OF this] show ?thesis
    by (simp add: ids_or_default)
qed

lemma accepted_default:
  assumes "validate_config env config = Ok ()" "compile_default_action config = Action_UpstreamGroup g"
  shows "g \<in> set (group_ids config)"
  using assms
  by (auto simp: validate_config_Ok config_errors_def Let_def compile_default_action_def split: option.splits if_splits)

lemma compiled_groups_closed:
  assumes v: "validate_config env config = Ok ()" and c: "compile_config env config = Ok rt" and g: "g \<in> set (rt_groups rt)"
  shows "rg_members g \<noteq> []" "distinct (rg_members g)" "set (rg_members g) \<subseteq> ru_id ` set (rt_upstreams rt)"
proof -
  obtain g0 where g0: "g0 \<in> set (or_default (cf_upstream_groups config) [])" "compile_group g0 = Ok g"
    using list_all2_setD2 [OF compile_groups_Ok [OF compile_config_Ok(2) [OF c]] g] by blast
  have "group_closed (upstream_ids config) g0"
    using accepted_groups(2) [OF v] g0(1) by (simp add: list_all_iff)
  moreover have "set (upstream_ids config) = ru_id ` set (rt_upstreams rt)"
    by (simp flip: compiled_ids(1) [OF c])
  ultimately show "rg_members g \<noteq> []" "distinct (rg_members g)" "set (rg_members g) \<subseteq> ru_id ` set (rt_upstreams rt)"
    using compile_group_Ok [OF g0(2)] by (auto simp: group_closed_def)
qed

subsection \<open>Meaning of match expressions\<close>

text \<open>
  The meaning of an expression in terms of the request: the fields of a leaf are conjoined, and so are the
  keys of a composite.
\<close>

fun transport_key :: "transport_kind \<Rightarrow> string" where
  "transport_key Tcp = ''tcp''"
| "transport_key Udp = ''udp''"
| "transport_key ReverseTcp = ''reverse_tcp''"

definition leaf_meaning ::
  "('re, 'net) config_env \<Rightarrow> ('re \<Rightarrow> string \<Rightarrow> bool) \<Rightarrow> ('net \<Rightarrow> ip_addr \<Rightarrow> bool) \<Rightarrow> leaf_matcher \<Rightarrow> route_request \<Rightarrow> bool" where
  "leaf_meaning env is_match cidr_contains leaf req \<longleftrightarrow>
    (\<forall>h. lm_host_exact leaf = Some h \<longrightarrow> matches is_match cidr_contains (HostExact (normalize_host_for_exact h)) req) \<and>
    (\<forall>h. lm_host_suffix leaf = Some h \<longrightarrow> matches is_match cidr_contains (HostSuffix (normalize_host_for_exact h)) req) \<and>
    (\<forall>r. lm_host_regex leaf = Some r \<longrightarrow>
       (\<exists>re. env_regex env r = Ok re \<and> is_match re (target_host_str (tgt_host (req_target req))))) \<and>
    (\<forall>r. lm_destination_port_regex leaf = Some r \<longrightarrow>
       (\<exists>re. env_regex env r = Ok re \<and> is_match re (show_nat (unat (tgt_port (req_target req)))))) \<and>
    (\<forall>p. lm_destination_port leaf = Some p \<longrightarrow> tgt_port (req_target req) = p) \<and>
    (\<forall>ps. lm_destination_port_range leaf = Some ps \<longrightarrow>
       (\<exists>a b. ps = [a, b] \<and> a \<le> tgt_port (req_target req) \<and> tgt_port (req_target req) \<le> b)) \<and>
    (\<forall>ps. lm_destination_port_set leaf = Some ps \<longrightarrow> tgt_port (req_target req) \<in> set ps) \<and>
    (\<forall>c. lm_destination_cidr leaf = Some c \<longrightarrow>
       (\<exists>net ip. env_cidr env c = Ok net \<and> tgt_host (req_target req) = Ip ip \<and> cidr_contains net ip)) \<and>
    (\<forall>c. lm_source_cidr leaf = Some c \<longrightarrow>
       (\<exists>net a. env_cidr env c = Ok net \<and> req_source req = Some a \<and> cidr_contains net (sock_ip a))) \<and>
    (\<forall>p. lm_source_port leaf = Some p \<longrightarrow> (\<exists>a. req_source req = Some a \<and> sock_port a = p)) \<and>
    (\<forall>n. lm_listener leaf = Some n \<longrightarrow> req_listener req = n) \<and>
    (\<forall>p. lm_protocol leaf = Some p \<longrightarrow> compile_protocol env p = Ok (inbound_protocol req)) \<and>
    (\<forall>n. lm_identity leaf = Some n \<longrightarrow> req_identity req = Username n \<or> req_identity req = Opaque n) \<and>
    (\<forall>t. lm_transport leaf = Some t \<longrightarrow> t = transport_key (req_transport req)) \<and>
    (\<forall>n. lm_reverse_listener leaf = Some n \<longrightarrow> req_transport req = ReverseTcp \<and> req_listener req = n)"

fun expr_meaning ::
  "('re, 'net) config_env \<Rightarrow> ('re \<Rightarrow> string \<Rightarrow> bool) \<Rightarrow> ('net \<Rightarrow> ip_addr \<Rightarrow> bool) \<Rightarrow> match_expr_config \<Rightarrow> route_request \<Rightarrow> bool"
where
  "expr_meaning env is_match cidr_contains (Match_Leaf leaf) req = leaf_meaning env is_match cidr_contains leaf req"
| "expr_meaning env is_match cidr_contains (Match_Composite all any_of negated) req \<longleftrightarrow>
    (\<forall>es. all = Some es \<longrightarrow> (\<forall>e \<in> set es. expr_meaning env is_match cidr_contains e req)) \<and>
    (\<forall>es. any_of = Some es \<longrightarrow> (\<exists>e \<in> set es. expr_meaning env is_match cidr_contains e req)) \<and>
    (\<forall>e. negated = Some e \<longrightarrow> \<not> expr_meaning env is_match cidr_contains e req)"

text \<open>What the error message of the validator asks for: exactly one key in every composite.\<close>

fun one_key :: "match_expr_config \<Rightarrow> bool" where
  "one_key (Match_Leaf leaf) = True"
| "one_key (Match_Composite all any_of negated) \<longleftrightarrow>
    length (filter id [all \<noteq> None, any_of \<noteq> None, negated \<noteq> None]) = 1 \<and>
    (\<forall>es. all = Some es \<longrightarrow> (\<forall>e \<in> set es. one_key e)) \<and>
    (\<forall>es. any_of = Some es \<longrightarrow> (\<forall>e \<in> set es. one_key e)) \<and>
    (\<forall>e. negated = Some e \<longrightarrow> one_key e)"

definition part_holds ::
  "('re \<Rightarrow> string \<Rightarrow> bool) \<Rightarrow> ('net \<Rightarrow> ip_addr \<Rightarrow> bool) \<Rightarrow> route_request \<Rightarrow> config_error + ('re, 'net) match_expr \<Rightarrow> bool" where
  "part_holds is_match cidr_contains req p \<longleftrightarrow> (\<exists>m. p = Ok m \<and> matches is_match cidr_contains m req)"

lemma ball_if_some: "(\<forall>p \<in> set (if_some v f). P p) \<longleftrightarrow> (\<forall>x. v = Some x \<longrightarrow> (\<forall>p \<in> set (f x). P p))"
  by (cases v) auto

lemma two_elements: "length ps = 2 \<longleftrightarrow> (\<exists>a b. ps = [a, b])"
  by (auto simp: length_Suc_conv numeral_2_eq_2)

lemma compile_port_range_holds:
  "part_holds is_match cidr_contains req (compile_port_range ps) \<longleftrightarrow>
    (\<exists>a b. ps = [a, b] \<and> a \<le> tgt_port (req_target req) \<and> tgt_port (req_target req) \<le> b)"
  by (cases "length ps = 2")
    (auto simp: two_elements part_holds_def compile_port_range_def new_range_def not_less split: if_splits)

lemma compile_port_set_holds:
  "part_holds is_match cidr_contains req (compile_port_set ps) \<longleftrightarrow> tgt_port (req_target req) \<in> set ps"
  by (auto simp: part_holds_def compile_port_set_def new_set_matches_iff)

lemma compile_transport_key: "compile_transport t = Ok k \<longleftrightarrow> t = transport_key k"
  by (cases k) (auto simp: compile_transport_def)

lemma leaf_parts_meaning:
  "(\<forall>p \<in> set (leaf_parts env leaf). part_holds is_match cidr_contains req p) \<longleftrightarrow>
    leaf_meaning env is_match cidr_contains leaf req"
proof -
  have re: "part_holds is_match cidr_contains req (map_sum id HostRegex (compile_regex env path r)) \<longleftrightarrow>
      (\<exists>re. env_regex env r = Ok re \<and> is_match re (target_host_str (tgt_host (req_target req))))"
    "part_holds is_match cidr_contains req (map_sum id DestinationPortRegex (compile_regex env path r)) \<longleftrightarrow>
      (\<exists>re. env_regex env r = Ok re \<and> is_match re (show_nat (unat (tgt_port (req_target req)))))" for path r
    by (auto simp: part_holds_def compile_regex_def fmt_port_correct)
  have cidr: "part_holds is_match cidr_contains req (map_sum id DestinationCidr (compile_cidr env path c)) \<longleftrightarrow>
      (\<exists>net ip. env_cidr env c = Ok net \<and> tgt_host (req_target req) = Ip ip \<and> cidr_contains net ip)"
    "part_holds is_match cidr_contains req (map_sum id SourceCidr (compile_cidr env path c)) \<longleftrightarrow>
      (\<exists>net a. env_cidr env c = Ok net \<and> req_source req = Some a \<and> cidr_contains net (sock_ip a))" for path c
    by (auto simp: part_holds_def compile_cidr_def split: target_host.splits option.splits)
  have proto: "part_holds is_match cidr_contains req (map_sum id Protocol (compile_protocol env p)) \<longleftrightarrow>
      compile_protocol env p = Ok (inbound_protocol req)" for p
    by (auto simp: part_holds_def)
  have trans: "part_holds is_match cidr_contains req (map_sum id Transport (compile_transport t)) \<longleftrightarrow>
      t = transport_key (req_transport req)" for t
    by (auto simp: part_holds_def compile_transport_key)
  have ok: "part_holds is_match cidr_contains req (Ok m) \<longleftrightarrow> matches is_match cidr_contains m req" for m
    by (simp add: part_holds_def)
  have ident: "matches is_match cidr_contains (Identity n) req \<longleftrightarrow>
      req_identity req = Username n \<or> req_identity req = Opaque n" for n
    by (auto split: client_identity.splits)
  have sport: "matches is_match cidr_contains (SourcePort (Exact p)) req \<longleftrightarrow>
      (\<exists>a. req_source req = Some a \<and> sock_port a = p)" for p
    by (auto split: option.splits)
  have simple: "matches is_match cidr_contains (DestinationPort (Exact p)) req \<longleftrightarrow> tgt_port (req_target req) = p"
    "matches is_match cidr_contains (Listener n) req \<longleftrightarrow> req_listener req = n"
    "matches is_match cidr_contains (ReverseListener n) req \<longleftrightarrow> req_transport req = ReverseTcp \<and> req_listener req = n" for p n
    by auto
  show ?thesis
    unfolding leaf_parts_def leaf_meaning_def set_append ball_Un ball_if_some
    by (simp only: list.set ball_simps re cidr proto trans ok ident sport simple compile_port_range_holds compile_port_set_holds conj_assoc simp_thms)
qed

lemma compile_leaf_matcher_meaning:
  assumes "compile_leaf_matcher env leaf = Ok m"
  shows "matches is_match cidr_contains m req \<longleftrightarrow> leaf_meaning env is_match cidr_contains leaf req"
proof -
  obtain ms where ms: "list_all2 (\<lambda>p m. p = Ok m) (leaf_parts env leaf) ms"
    and m: "(case ms of [] \<Rightarrow> Ok Any | [m'] \<Rightarrow> Ok m' | _ \<Rightarrow> Ok (All ms)) = (Ok m :: config_error + _)"
    using assms by (auto simp: compile_leaf_matcher_def compile_Ok)
  have "matches is_match cidr_contains m req \<longleftrightarrow> (\<forall>m' \<in> set ms. matches is_match cidr_contains m' req)"
    using m by (auto split: list.splits)
  also have "\<dots> \<longleftrightarrow> (\<forall>p \<in> set (leaf_parts env leaf). part_holds is_match cidr_contains req p)"
    using ms by (induction rule: list_all2_induct) (auto simp: part_holds_def)
  finally show ?thesis by (simp add: leaf_parts_meaning)
qed

lemma compile_match_configs_Ok:
  "compile_match_configs env es depth n = Ok (ms, n') \<Longrightarrow>
    list_all2 (\<lambda>e m. \<exists>k k'. compile_match_config_limited env e depth k = Ok (m, k')) es ms"
proof (induction es arbitrary: ms n n')
  case (Cons e es)
  then obtain m k ms' k' where "compile_match_config_limited env e depth n = Ok (m, k)"
    "compile_match_configs env es depth k = Ok (ms', k')" "ms = m # ms'"
    by (auto split: sum.splits)
  with Cons.IH show ?case by auto
qed simp

text \<open>What a successful compilation of an expression has looked at.\<close>

lemma compile_composite_cases:
  assumes "compile_match_config_limited env (Match_Composite all any_of negated) depth n = Ok (m, n')"
  obtains (All) es ms where "all = Some es" "m = All ms"
      "list_all2 (\<lambda>e m. \<exists>k k'. compile_match_config_limited env e (depth + 1) k = Ok (m, k')) es ms"
    | (AnyOf) es ms where "all = None" "any_of = Some es" "m = AnyOf ms"
      "list_all2 (\<lambda>e m. \<exists>k k'. compile_match_config_limited env e (depth + 1) k = Ok (m, k')) es ms"
    | (Not) e m' k k' where "all = None" "any_of = None" "negated = Some e" "m = Not m'"
      "compile_match_config_limited env e (depth + 1) k = Ok (m', k')"
proof (cases all)
  case (Some es)
  with assms obtain ms k where "compile_match_configs env es (depth + 1) (n + 1) = Ok (ms, k)" "m = All ms"
    by (auto simp: compile_match_config_limited.simps [of env _ depth n] split: if_splits)
  then show thesis by (intro All [OF Some]) (auto dest: compile_match_configs_Ok)
next
  case none: None
  show thesis
  proof (cases any_of)
    case (Some es)
    with none assms obtain ms k where "compile_match_configs env es (depth + 1) (n + 1) = Ok (ms, k)" "m = AnyOf ms"
      by (auto simp: compile_match_config_limited.simps [of env _ depth n] split: if_splits)
    then show thesis by (intro AnyOf [OF none Some]) (auto dest: compile_match_configs_Ok)
  next
    case None
    with none assms obtain e m' k where "negated = Some e" "m = Not m'"
      "compile_match_config_limited env e (depth + 1) (n + 1) = Ok (m', k)"
      by (auto simp: compile_match_config_limited.simps [of env _ depth n] split: if_splits option.splits)
    then show thesis by (intro Not [OF none None])
  qed
qed

lemma compile_leaf_cases:
  assumes "compile_match_config_limited env (Match_Leaf leaf) depth n = Ok (m, n')"
  shows "compile_leaf_matcher env leaf = Ok m" "depth < MAX_EXPRESSION_DEPTH"
  using assms by (auto simp: compile_match_config_limited.simps [of env _ depth n] split: if_splits)

lemma list_all2_ball2:
  assumes "list_all2 P xs ys" "\<And>x y. x \<in> set xs \<Longrightarrow> P x y \<Longrightarrow> f x = g y"
  shows "(\<forall>x \<in> set xs. f x) = (\<forall>y \<in> set ys. g y)" "(\<exists>x \<in> set xs. f x) = (\<exists>y \<in> set ys. g y)"
  using assms by (induction rule: list_all2_induct) auto

lemma one_key_cases:
  "one_key (Match_Composite (Some es) any_of negated) \<Longrightarrow>
    any_of = None \<and> negated = None \<and> (\<forall>e \<in> set es. one_key e)"
  "one_key (Match_Composite None (Some es) negated) \<Longrightarrow> negated = None \<and> (\<forall>e \<in> set es. one_key e)"
  "one_key (Match_Composite None None (Some e)) \<Longrightarrow> one_key e"
  by (cases any_of; cases negated; simp)+

lemma compile_match_config_limited_meaning:
  assumes "compile_match_config_limited env e depth n = Ok (m, n')" "one_key e"
  shows "expr_meaning env is_match cidr_contains e req \<longleftrightarrow> matches is_match cidr_contains m req"
  using assms
proof (induction e arbitrary: depth n m n')
  case (Match_Leaf leaf)
  then show ?case by (simp add: compile_leaf_matcher_meaning [OF compile_leaf_cases(1)])
next
  case (Match_Composite all any_of negated)
  from Match_Composite.prems(1) show ?case
  proof (cases rule: compile_composite_cases)
    case (All es ms)
    with Match_Composite.prems(2) have rest: "any_of = None" "negated = None" "\<forall>e \<in> set es. one_key e"
      by (blast dest: one_key_cases(1))+
    have "expr_meaning env is_match cidr_contains e req = matches is_match cidr_contains m' req"
      if "e \<in> set es" "\<exists>k k'. compile_match_config_limited env e (depth + 1) k = Ok (m', k')" for e m'
      using Match_Composite.IH(1) [of es e] that All(1) rest(3) by auto
    from list_all2_ball2(1) [OF All(3) this] show ?thesis using All rest by simp
  next
    case (AnyOf es ms)
    with Match_Composite.prems(2) have rest: "negated = None" "\<forall>e \<in> set es. one_key e"
      by (blast dest: one_key_cases(2))+
    have "expr_meaning env is_match cidr_contains e req = matches is_match cidr_contains m' req"
      if "e \<in> set es" "\<exists>k k'. compile_match_config_limited env e (depth + 1) k = Ok (m', k')" for e m'
      using Match_Composite.IH(2) [of es e] that AnyOf(2) rest(2) by auto
    from list_all2_ball2(2) [OF AnyOf(4) this] show ?thesis using AnyOf rest by simp
  next
    case (Not e m' k k')
    with Match_Composite.prems(2) have "one_key e" by (blast dest: one_key_cases(3))
    with Match_Composite.IH(3) [of e] Not show ?thesis by simp
  qed
qed

text \<open>
  C15: the compiled matcher of an expression means what the expression says. If every composite of the
  expression has exactly one of the keys \<^verbatim>\<open>all\<close>, \<^verbatim>\<open>any_of\<close>, \<^verbatim>\<open>not\<close> and the compilation succeeds, the router's
  matcher holds of a request exactly when the request satisfies the expression, read as the
  conjunction of the fields of a leaf on the target, source, listener, protocol, identity and transport of
  the request (a port list being membership and a port range its closed interval).
\<close>

theorem compiled_matcher_meaning:
  assumes "compile_match_config env e = Ok m" "one_key e"
  shows "matches is_match cidr_contains m req \<longleftrightarrow> expr_meaning env is_match cidr_contains e req"
  using assms compile_match_config_limited_meaning [of env e 0 0]
  by (auto simp: compile_match_config_def)

text \<open>An environment for concrete examples: regular expressions and networks are kept as their text.\<close>

definition plain_env :: "(string, string) config_env" where
  "plain_env =
    \<lparr>env_var = \<lambda>_. None, env_read = \<lambda>_. Err ''no such file'', env_file = \<lambda>_. Ok (0, []), env_regex = Ok,
     env_cidr = Ok, env_id_match = \<lambda>_ _. True, env_alphabetic = \<lambda>_. True, env_cert_pem = \<lambda>_. None,
     env_key_pem = \<lambda>_. None, env_roots_pem = \<lambda>_. None, env_system_roots = None, env_client_tls = \<lambda>_ _. None,
     env_server_name = \<lambda>_. True, env_quic = False\<rparr>"

definition empty_leaf :: leaf_matcher where
  "empty_leaf =
    \<lparr>lm_host_exact = None, lm_host_suffix = None, lm_host_regex = None, lm_destination_port_regex = None,
     lm_destination_port = None, lm_destination_port_range = None, lm_destination_port_set = None,
     lm_destination_cidr = None, lm_source_cidr = None, lm_source_port = None, lm_listener = None, lm_protocol = None,
     lm_identity = None, lm_transport = None, lm_reverse_listener = None\<rparr>"

abbreviation not_tcp :: match_expr_config where
  "not_tcp \<equiv> Match_Composite None None (Some (Match_Leaf (empty_leaf\<lparr>lm_transport := Some ''tcp''\<rparr>)))"

lemma leaf_parts_single:
  "leaf_parts env (empty_leaf\<lparr>lm_transport := Some t\<rparr>) = [map_sum id Transport (compile_transport t)]"
  "leaf_parts env (empty_leaf\<lparr>lm_destination_port := Some p\<rparr>) = [Ok (DestinationPort (Exact p))]"
  by (simp_all add: leaf_parts_def empty_leaf_def)

lemma compile_leaf_single:
  "compile_leaf_matcher env (empty_leaf\<lparr>lm_transport := Some t\<rparr>) = map_sum id Transport (compile_transport t)"
  "compile_leaf_matcher env (empty_leaf\<lparr>lm_destination_port := Some p\<rparr>) = Ok (DestinationPort (Exact p))"
  by (cases "compile_transport t"; simp add: compile_leaf_matcher_def leaf_parts_single)+

lemma validate_leaf_single:
  "validate_leaf env path (empty_leaf\<lparr>lm_transport := Some t\<rparr>) = []"
  "validate_leaf env path (empty_leaf\<lparr>lm_destination_port := Some p\<rparr>) = []"
  by (simp_all add: validate_leaf_def empty_leaf_def)

lemma leaf_could_match_single: "leaf_could_match_udp (empty_leaf\<lparr>lm_transport := Some t\<rparr>) \<longleftrightarrow> t = ''udp''"
  by (simp add: leaf_could_match_udp_def empty_leaf_def)

lemma compile_transport_simps: "compile_transport ''tcp'' = Ok Tcp" "compile_transport ''udp'' = Ok Udp"
  by (simp_all add: compile_transport_def)

lemmas small_expression =
  compile_match_config_def compile_match_config_limited.simps compile_leaf_single compile_transport_simps
  validate_match_expr.simps validate_leaf_single leaf_could_match_single matcher_could_match_udp_def
  matcher_could_match_udp_limited.simps MAX_NODE_COUNT_def MAX_EXPRESSION_DEPTH_def MAX_MATCH_EXPR_DEPTH_def

lemma compile_not_tcp: "compile_match_config plain_env not_tcp = Ok (Not (Transport Tcp))"
  by (simp add: small_expression)

definition udp_request :: route_request where
  "udp_request = sample_request\<lparr>req_transport := Udp\<rparr>"

theorem compiled_matcher_meaning_witness:
  "matches (\<lambda>re s. re = s) (\<lambda>(net :: string) ip. False) (Not (Transport Tcp)) udp_request \<longleftrightarrow>
    expr_meaning plain_env (\<lambda>re s. re = s) (\<lambda>(net :: string) ip. False) not_tcp udp_request"
  by (rule compiled_matcher_meaning [OF compile_not_tcp]) simp

text \<open>
  The validator asks for exactly one key and its message says so, but it only refuses a composite without
  any: with \<^verbatim>\<open>all\<close> beside \<^verbatim>\<open>not\<close> the rule is accepted and the negation is dropped.
\<close>

abbreviation tcp_leaf :: match_expr_config where
  "tcp_leaf \<equiv> Match_Leaf (empty_leaf\<lparr>lm_transport := Some ''tcp''\<rparr>)"

abbreviation port_leaf :: match_expr_config where
  "port_leaf \<equiv> Match_Leaf (empty_leaf\<lparr>lm_destination_port := Some 443\<rparr>)"

lemma second_key_dropped:
  "validate_match_expr plain_env (Match_Composite (Some [tcp_leaf]) None (Some port_leaf)) path 0 = []"
  "compile_match_config plain_env (Match_Composite (Some [tcp_leaf]) None (Some port_leaf)) = Ok (All [Transport Tcp])"
  by (simp_all add: small_expression)

subsection \<open>The static UDP analysis\<close>

text \<open>No negation on the parts of the expression that the compiler and the analysis look at.\<close>

fun negation_free :: "match_expr_config \<Rightarrow> bool" where
  "negation_free (Match_Leaf leaf) = True"
| "negation_free (Match_Composite all any_of negated) =
    (case all of
       Some es \<Rightarrow> (\<forall>e \<in> set es. negation_free e)
     | None \<Rightarrow>
         (case any_of of
            Some es \<Rightarrow> (\<forall>e \<in> set es. negation_free e)
          | None \<Rightarrow> negated = None))"

lemma leaf_could_match_udp_sound:
  assumes "leaf_meaning env is_match cidr_contains leaf req" "req_transport req = Udp"
  shows "leaf_could_match_udp leaf"
  using assms by (auto simp: leaf_meaning_def leaf_could_match_udp_def split: option.splits)

lemma list_all2_ball_imp:
  assumes "list_all2 P xs ys" "\<And>x y. x \<in> set xs \<Longrightarrow> P x y \<Longrightarrow> g y \<Longrightarrow> f x"
  shows "(\<forall>y \<in> set ys. g y) \<Longrightarrow> (\<forall>x \<in> set xs. f x)" "(\<exists>y \<in> set ys. g y) \<Longrightarrow> (\<exists>x \<in> set xs. f x)"
  using assms by (induction rule: list_all2_induct) auto

lemma matcher_could_match_udp_limited_sound:
  assumes "compile_match_config_limited env e depth n = Ok (m, n')" "negation_free e"
    "matches is_match cidr_contains m req" "req_transport req = Udp"
  shows "matcher_could_match_udp_limited e depth"
  using assms
proof (induction e arbitrary: depth n m n')
  case (Match_Leaf leaf)
  have "leaf_meaning env is_match cidr_contains leaf req"
    using Match_Leaf.prems(3) compile_leaf_matcher_meaning [OF compile_leaf_cases(1) [OF Match_Leaf.prems(1)]] by blast
  then show ?case
    using Match_Leaf.prems(4) by (simp add: matcher_could_match_udp_limited.simps leaf_could_match_udp_sound)
next
  case (Match_Composite all any_of negated)
  from Match_Composite.prems(1) show ?case
  proof (cases rule: compile_composite_cases)
    case (All es ms)
    have "matcher_could_match_udp_limited e (depth + 1)"
      if "e \<in> set es" "\<exists>k k'. compile_match_config_limited env e (depth + 1) k = Ok (m', k')"
        "matches is_match cidr_contains m' req" for e m'
      using Match_Composite.IH(1) [of es e] that All(1) Match_Composite.prems(2,4) by auto
    from list_all2_ball_imp(1) [where g = "\<lambda>m. matches is_match cidr_contains m req" and
        f = "\<lambda>e. matcher_could_match_udp_limited e (depth + 1)", OF All(3) this] show ?thesis
      using All Match_Composite.prems(3)
      by (simp add: matcher_could_match_udp_limited.simps [of "Match_Composite _ _ _"] list_all_iff)
  next
    case (AnyOf es ms)
    have "matcher_could_match_udp_limited e (depth + 1)"
      if "e \<in> set es" "\<exists>k k'. compile_match_config_limited env e (depth + 1) k = Ok (m', k')"
        "matches is_match cidr_contains m' req" for e m'
      using Match_Composite.IH(2) [of es e] that AnyOf(1,2) Match_Composite.prems(2,4) by auto
    from list_all2_ball_imp(2) [where g = "\<lambda>m. matches is_match cidr_contains m req" and
        f = "\<lambda>e. matcher_could_match_udp_limited e (depth + 1)", OF AnyOf(4) this] show ?thesis
      using AnyOf Match_Composite.prems(3)
      by (simp add: matcher_could_match_udp_limited.simps [of "Match_Composite _ _ _"] list_ex_iff)
  next
    case (Not e m' k k')
    with Match_Composite.prems(2) show ?thesis by simp
  qed
qed

text \<open>
  The static analysis behind the check of UDP routes is sound without negation. If the compiled
  matcher of an expression in which no \<^verbatim>\<open>not\<close> is reached matches a UDP request, the analysis says that the
  expression could match UDP; so the validator does not overlook such a rule.
\<close>

lemma udp_analysis_sound:
  assumes "compile_match_config env e = Ok m" "negation_free e"
    "matches is_match cidr_contains m req" "req_transport req = Udp"
  shows "matcher_could_match_udp e"
  using assms matcher_could_match_udp_limited_sound [of env e 0 0]
  by (auto simp: compile_match_config_def matcher_could_match_udp_def)

lemma udp_analysis_sound_witness:
  "matcher_could_match_udp (Match_Composite (Some [Match_Leaf (empty_leaf\<lparr>lm_transport := Some ''udp''\<rparr>)]) None None)"
  by (rule udp_analysis_sound [of plain_env _ "All [Transport Udp]" "\<lambda>re s. re = s" "\<lambda>(net :: string) ip. False" udp_request])
    (simp_all add: small_expression udp_request_def)

text \<open>
  With a negation the analysis is wrong in both directions: it passes the answer for the inner expression on.
  \<^verbatim>\<open>not = { transport = "tcp" }\<close> matches UDP requests and is said not to.
\<close>

lemma udp_analysis_negation:
  "compile_match_config plain_env not_tcp = Ok (Not (Transport Tcp)) \<and>
   matches (\<lambda>re s. re = s) (\<lambda>(net :: string) ip. False) (Not (Transport Tcp)) udp_request \<and> \<not> matcher_could_match_udp not_tcp"
  by (rule conjI [OF compile_not_tcp])
    (simp add: small_expression udp_request_def)

subsection \<open>The admin endpoint\<close>

definition usable_admin_auth :: "rtc_admin_auth \<Rightarrow> bool" where
  "usable_admin_auth auth \<longleftrightarrow>
    (\<exists>t. raa_bearer_token auth = Some t \<and> t \<noteq> []) \<or>
    (\<exists>u p. raa_basic_username auth = Some u \<and> raa_basic_password auth = Some p \<and> u \<noteq> [] \<and> p \<noteq> [])"

lemma compile_basic_auth_Ok:
  "compile_basic_auth env basic = Ok (u, p) \<Longrightarrow>
    (u = None \<and> p = None) \<or> (\<exists>user pw. u = Some user \<and> p = Some pw \<and> user \<noteq> [] \<and> pw \<noteq> [])"
  by (auto simp: compile_basic_auth_def try_bind_Ok_iff split: option.splits if_splits)

lemma compile_admin_auth_usable:
  assumes "compile_admin_auth env auth = Ok auth'"
  shows "usable_admin_auth auth'"
proof -
  from assms obtain bearer basic where b: "bearer \<noteq> Some []"
    and basic: "compile_basic_auth env (aa_basic_auth auth) = Ok basic"
    and auth: "(case basic of (user, password) \<Rightarrow>
         if bearer = None \<and> user = None
         then Err (Validation ''admin.auth'' ''authentication requires bearer_token or basic_auth'')
         else Ok \<lparr>raa_bearer_token = bearer, raa_basic_username = user, raa_basic_password = password\<rparr>) = Ok auth'"
    unfolding compile_admin_auth_def try_bind_Ok_iff by (metis (no_types, lifting) sum.distinct(1) try_bind_Ok_iff)
  obtain u p where up: "basic = (u, p)" by (cases basic)
  from compile_basic_auth_Ok [OF basic [unfolded up]] b auth show ?thesis
    by (cases bearer) (auto simp: usable_admin_auth_def up split: if_splits)
qed

lemma less_power_length_show: "2 \<le> radix \<Longrightarrow> n < radix ^ length (show_radix radix n)"
proof (induction radix n rule: show_radix.induct)
  case (1 radix n)
  show ?case
  proof (cases "n < radix")
    case True
    then show ?thesis by (simp add: show_radix.simps [of radix n])
  next
    case False
    with 1 have "n div radix < radix ^ length (show_radix radix (n div radix))" by simp
    then have "n < radix ^ length (show_radix radix (n div radix)) * radix"
      using "1.prems" by (simp add: div_less_iff_less_mult)
    with False "1.prems" show ?thesis by (simp add: show_radix.simps [of radix n] mult.commute)
  qed
qed

lemma read_port_show: "n < 65536 \<Longrightarrow> read_port (CHR '':'' # show_nat n) = Some (word_of_nat n, [])"
  using read_number_show [of 10 n 65536 "length (show_nat n)" "[]" True] less_power_length_show [of 10 n]
  by (auto simp: read_port_def read_given_char_def read_unlimited_def)

lemma parse_socket_addr_v4:
  "length os = 4 \<Longrightarrow> n < 65536 \<Longrightarrow>
    parse_socket_addr (v4_to_string os @ CHR '':'' # show_nat n) = Some (SocketAddr (V4 os) (word_of_nat n))"
  by (simp add: parse_socket_addr_def read_socket_addr_v4_def read_ipv4_show read_port_show)

lemma default_admin_bind: "parse_socket_addr ''127.0.0.1:9090'' = Some (SocketAddr (V4 [127, 0, 0, 1]) 9090)"
  using parse_socket_addr_v4 [of "[127, 0, 0, 1]" 9090]
  by (simp add: v4_to_string_def show_radix.simps digit_char_def char_of_def bit_0)

lemma loopback_bind_parsed:
  "parse_socket_addr bind = Some sock \<Longrightarrow> is_loopback_bind bind \<longleftrightarrow> ip_is_loopback (sock_ip sock)"
  by (simp add: is_loopback_bind_def)

lemma accepted_admin:
  assumes "validate_config env config = Ok ()" "cf_admin config = Some admin" "ad_bind admin = Some bind"
  shows "parse_socket_addr bind \<noteq> None" "or_default (ad_enabled admin) True \<Longrightarrow> is_loopback_bind bind \<or> ad_auth admin \<noteq> None"
  using assms by (auto simp: validate_config_Ok config_errors_def Let_def validate_admin_def)

text \<open>
  C13: no configuration that is accepted and compiled exposes the admin endpoint. If the admin server is
  enabled, its bind address is a socket address, and that address is a loopback address (IPv4-mapped
  ones included) unless a non-empty bearer token or a non-empty user name with a non-empty password
  protects it; a token or password taken from the environment counts by its value.
\<close>

theorem admin_never_exposed:
  assumes "validate_config env config = Ok ()" "compile_config env config = Ok rt"
    "rt_admin rt = Some a" "ra_enabled a"
  shows "\<exists>sock. parse_socket_addr (ra_bind a) = Some sock \<and>
    (ip_is_loopback (sock_ip sock) \<or> (\<exists>auth. ra_auth a = Some auth \<and> usable_admin_auth auth))"
proof -
  obtain admin auth where admin: "cf_admin config = Some admin"
    and auth: "try_option (compile_admin_auth env) (ad_auth admin) = Ok auth"
    and a: "ra_bind a = or_default (ad_bind admin) ''127.0.0.1:9090''" "ra_enabled a = or_default (ad_enabled admin) True"
      "ra_auth a = auth"
    using compile_config_Ok(5) [OF assms(2)] assms(3)
    by (auto simp: compile_admin_def try_bind_Ok_iff split: option.splits)
  show ?thesis
  proof (cases "ad_bind admin")
    case None
    with a show ?thesis by (simp add: default_admin_bind v4_is_loopback_def)
  next
    case (Some bind)
    from accepted_admin [OF assms(1) admin Some] a assms(4) obtain sock
      where sock: "parse_socket_addr bind = Some sock" "is_loopback_bind bind \<or> ad_auth admin \<noteq> None" by auto
    have "\<exists>auth'. auth = Some auth' \<and> usable_admin_auth auth'" if "ad_auth admin \<noteq> None"
      using that auth compile_admin_auth_usable [of env] by (auto simp: try_option_Ok)
    then show ?thesis using sock Some a by (auto simp: loopback_bind_parsed)
  qed
qed


text \<open>An enabled admin endpoint on every address, protected by a bearer token.\<close>

lemma any_bind: "parse_socket_addr ''0.0.0.0:9090'' = Some (SocketAddr (V4 [0, 0, 0, 0]) 9090)"
  using parse_socket_addr_v4 [of "[0, 0, 0, 0]" 9090]
  by (simp add: v4_to_string_def show_radix.simps digit_char_def char_of_def bit_0)

text \<open>
  A configuration with an upstream, a group that is the default route, and an admin endpoint on every
  address that is protected by a bearer token.
\<close>

definition sample_config :: config_file where
  "sample_config =
    \<lparr>cf_version = Some 1, cf_process = None, cf_timeouts = None, cf_listeners = None,
     cf_upstreams = Some [\<lparr>uc_id = ''up'', uc_uri = ''ssh://a'', uc_health = None, uc_h2 = None\<rparr>],
     cf_upstream_groups = Some [\<lparr>gc_id = ''g'', gc_scheduler = None, gc_members = [''up''], gc_fallback = None\<rparr>],
     cf_rules = None, cf_rules_file = None, cf_routing = Some \<lparr>rtc_default = Some ''g''\<rparr>,
     cf_admin = Some \<lparr>ad_bind = Some ''0.0.0.0:9090'', ad_enabled = None, ad_metrics = None,
       ad_auth = Some \<lparr>aa_bearer_token = Some ''t'', aa_bearer_token_env = None, aa_basic_auth = None\<rparr>,
       ad_pac = None, ad_static_content = None\<rparr>,
     cf_reverse_servers = None, cf_reverse_clients = None\<rparr>"

definition sample_chain :: proxy_chain_spec where
  "sample_chain =
    \<lparr>hops = [\<lparr>hop_protocols = [Spec_Ssh], hop_endpoint = \<lparr>ep_host = ''a'', ep_port = 22\<rparr>, hop_credentials = None,
       hop_rule = None, hop_local_bind = None, hop_tls = False, hop_server_name = None, hop_insecure = False,
       hop_plugins = [], hop_auth_prefix = None\<rparr>]\<rparr>"

lemma sample_uri: "parse_proxy_chain ''ssh://a'' = Ok sample_chain"
  by code_simp

lemma sample_config_accepted: "validate_config plain_env sample_config = Ok ()"
  by (simp add: validate_config_Ok config_errors_def sample_config_def validate_upstream_def sample_uri
      validate_upstream_group_def upstream_ids_def group_ids_def routing_default_def validate_admin_def
      validate_admin_auth_def validate_upstream_transport_def udp_listener_exists_def any_bind Let_def)

definition sample_admin :: rtc_admin where
  "sample_admin =
    \<lparr>ra_bind = ''0.0.0.0:9090'', ra_enabled = True, ra_metrics = True,
     ra_auth = Some \<lparr>raa_bearer_token = Some ''t'', raa_basic_username = None, raa_basic_password = None\<rparr>,
     ra_pac = None, ra_static_content = []\<rparr>"

definition sample_runtime :: "(string, string) runtime_config" where
  "sample_runtime =
    \<lparr>rt_process = ProcessConfig_default, rt_timeouts = TimeoutConfig_default, rt_listeners = [],
     rt_upstreams = [\<lparr>ru_id = ''up'', ru_chain = sample_chain, ru_health = HealthConfig_default, ru_h2 = None\<rparr>],
     rt_groups = [\<lparr>rg_id = ''g'', rg_scheduler = Kind_RoundRobin, rg_members = [''up''], rg_fallback = Config_Reject\<rparr>],
     rt_rules = [], rt_default_action = Action_UpstreamGroup ''g'', rt_admin = Some sample_admin,
     rt_reverse_servers = [], rt_reverse_clients = []\<rparr>"

lemma sample_config_compiled: "compile_config plain_env sample_config = Ok sample_runtime"
  by (simp add: compile_config_def sample_config_def sample_runtime_def sample_admin_def compile_process_def
      compile_timeouts_def compile_listeners_def compile_upstreams_def compile_upstream_def compile_health_config_def
      compile_groups_def compile_group_def compile_rules_def compile_admin_def compile_admin_auth_def compile_basic_auth_def
      resolve_password_def compile_reverse_servers_def compile_reverse_clients_def compile_default_action_def
      routing_default_def compile_scheduler_def compile_fallback_def duration_or_def validate_upstream_id_def
      ProcessConfig_default_def TimeoutConfig_default_def sample_uri sample_chain_def insecure_quic_hop_def
      try_option_def plain_env_def Let_def)

theorem admin_never_exposed_witness:
  "\<exists>sock. parse_socket_addr (ra_bind sample_admin) = Some sock \<and>
    (ip_is_loopback (sock_ip sock) \<or> (\<exists>auth. ra_auth sample_admin = Some auth \<and> usable_admin_auth auth))"
  by (rule admin_never_exposed [OF sample_config_accepted sample_config_compiled])
    (simp_all add: sample_runtime_def sample_admin_def)

end
