(* ===== verification/Connector.thy ===== *)
theory Connector
  imports Core_Types
begin

text \<open>
  Direct connections (\<^verbatim>\<open>eggress-core/src/connector.rs\<close>): which addresses count as reserved or private, the
  resolution of a target with the guard against names that resolve to such addresses, and the attempts over
  the resolved addresses. The resolver and the sockets of the operating system are a parameter. Results:
  the guard is the union of the documented address blocks, IPv4-mapped forms included, and a connection to
  a name never touches an address outside of the public ones.
\<close>

subsection \<open>Reserved addresses\<close>

definition is_v4_this_network :: "u8 list \<Rightarrow> bool" where
  "is_v4_this_network os \<longleftrightarrow> os ! 0 = 0"

definition is_v4_documentation :: "u8 list \<Rightarrow> bool" where
  "is_v4_documentation os \<longleftrightarrow>
    take 3 os \<in> set [[192, 0, 2], [198, 51, 100], [203, 0, 113], [192, 88, 99]]"

definition is_v4_benchmarking :: "u8 list \<Rightarrow> bool" where
  "is_v4_benchmarking os \<longleftrightarrow> os ! 0 = 198 \<and> (os ! 1 = 18 \<or> os ! 1 = 19)"

definition is_v4_reserved :: "u8 list \<Rightarrow> bool" where
  "is_v4_reserved os \<longleftrightarrow> 240 \<le> os ! 0"

definition is_unique_local_v6 :: "u8 list \<Rightarrow> bool" where
  "is_unique_local_v6 os \<longleftrightarrow> and (os ! 0) 0xFE = 0xFC"

definition is_unicast_link_local_v6 :: "u8 list \<Rightarrow> bool" where
  "is_unicast_link_local_v6 os \<longleftrightarrow> os ! 0 = 0xFE \<and> and (os ! 1) 0xC0 = 0x80"

definition is_v6_discard_prefix :: "u8 list \<Rightarrow> bool" where
  "is_v6_discard_prefix os \<longleftrightarrow> os ! 0 = 0x01 \<and> list_all (\<lambda>b. b = 0) (take 7 (drop 1 os))"

definition is_v6_documentation :: "u8 list \<Rightarrow> bool" where
  "is_v6_documentation os \<longleftrightarrow> os ! 0 = 0x20 \<and> os ! 1 = 0x01 \<and> os ! 2 = 0x0D \<and> os ! 3 = 0xB8"

definition is_reserved_v4 :: "u8 list \<Rightarrow> bool" where
  "is_reserved_v4 v4 \<longleftrightarrow>
    v4_is_loopback v4 \<or> v4_is_link_local v4 \<or> v4_is_private v4 \<or> v4_is_unspecified v4 \<or> v4_is_multicast v4 \<or>
    v4_is_broadcast v4 \<or> is_v4_documentation v4 \<or> is_v4_benchmarking v4 \<or> is_v4_reserved v4 \<or> is_v4_this_network v4"

fun is_reserved_or_private_ip :: "ip_addr \<Rightarrow> bool" where
  "is_reserved_or_private_ip (V4 v4) = is_reserved_v4 v4"
| "is_reserved_or_private_ip (V6 v6) =
    (case to_ipv4_mapped v6 of
       Some v4 \<Rightarrow> is_reserved_v4 v4
     | None \<Rightarrow>
         v6_is_loopback v6 \<or> v6_is_unspecified v6 \<or> v6_is_multicast v6 \<or> is_v6_documentation v6 \<or>
         is_unicast_link_local_v6 v6 \<or> is_unique_local_v6 v6 \<or> is_v6_discard_prefix v6)"

definition is_dns_rebinding_risk :: "ip_addr \<Rightarrow> bool" where
  "is_dns_rebinding_risk ip = is_reserved_or_private_ip ip"

subsection \<open>Connecting\<close>

datatype os_kind =
  Os_ConnectionRefused | Os_TimedOut | Os_NetworkUnreachable | Os_HostUnreachable | Os_InvalidInput | Os_Other

record os_error =
  os_kind :: os_kind
  os_text :: string

datatype connect_error =
  Connect_ConnectionRefused
| Connect_Timeout
| DnsResolution string
| Connect_TlsHandshake string
| ReservedTarget ip_addr
| Connect_Io os_error

record connection_metadata =
  local_addr :: "socket_addr option"
  peer_addr :: "socket_addr option"

definition ConnectionMetadata_default :: connection_metadata where
  "ConnectionMetadata_default = \<lparr>local_addr = None, peer_addr = None\<rparr>"

record connect_options =
  co_local_bind :: "socket_addr option"
  enforce_dns_rebinding_check :: bool
  enforce_literal_ip_check :: bool

definition ConnectOptions_default :: connect_options where
  "ConnectOptions_default =
    \<lparr>co_local_bind = None, enforce_dns_rebinding_check = True, enforce_literal_ip_check = False\<rparr>"

text \<open>
  What the operating system answers: the resolver for a \<^verbatim>\<open>host:port\<close> text, a new socket of a family, binding it,
  and a connection attempt from the bound address, if any. \<open>Expired\<close> stands for the ten second timeout.
\<close>

datatype 'a timed = Answered 'a | Expired

record 's network =
  net_lookup :: "string \<Rightarrow> (string + socket_addr list) timed"
  net_socket :: "bool \<Rightarrow> os_error + unit"
  net_bind :: "bool \<Rightarrow> socket_addr \<Rightarrow> os_error + unit"
  net_connect :: "socket_addr option \<Rightarrow> socket_addr \<Rightarrow> (os_error + 's \<times> connection_metadata) timed"

fun is_ipv4 :: "socket_addr \<Rightarrow> bool" where
  "is_ipv4 (SocketAddr (V4 _) _) \<longleftrightarrow> True"
| "is_ipv4 (SocketAddr (V6 _) _) \<longleftrightarrow> False"

fun bind_unspecified_v6 :: "socket_addr \<Rightarrow> bool" where
  "bind_unspecified_v6 (SocketAddr (V6 os) _) \<longleftrightarrow> v6_is_unspecified os"
| "bind_unspecified_v6 (SocketAddr (V4 _) _) \<longleftrightarrow> False"

text \<open>An IPv4-mapped bind address is used as IPv4 for an IPv4 destination.\<close>

definition choose_bind_addr :: "socket_addr \<Rightarrow> socket_addr \<Rightarrow> socket_addr" where
  "choose_bind_addr local addr =
    (case local of
       SocketAddr (V6 l) p \<Rightarrow>
         if is_ipv4 addr \<and> \<not> v6_is_unspecified l
         then (case to_ipv4_mapped l of Some v4 \<Rightarrow> SocketAddr (V4 v4) p | None \<Rightarrow> local)
         else local
     | SocketAddr (V4 _) _ \<Rightarrow> local)"

definition incompatible_bind :: "string \<Rightarrow> os_error" where
  "incompatible_bind s = \<lparr>os_kind = Os_InvalidInput, os_text = s\<rparr>"

definition SocketAddr_fmt :: "socket_addr \<Rightarrow> string" where
  "SocketAddr_fmt a =
    (case sock_ip a of
       V4 os \<Rightarrow> v4_to_string os @ '':'' @ show_nat (unat (sock_port a))
     | V6 os \<Rightarrow> ''['' @ v6_to_string os @ '']:'' @ show_nat (unat (sock_port a)))"

fun finish_connect :: "(os_error + 's \<times> connection_metadata) timed \<Rightarrow> connect_error + 's \<times> connection_metadata" where
  "finish_connect (Answered (Inr s)) = Ok s"
| "finish_connect (Answered (Inl e)) = Err (Connect_Io e)"
| "finish_connect Expired = Err Connect_Timeout"

definition connect_to_addr ::
  "'s network \<Rightarrow> socket_addr option \<Rightarrow> socket_addr \<Rightarrow> connect_error + 's \<times> connection_metadata" where
  "connect_to_addr net local_bind addr =
    (case local_bind of
       None \<Rightarrow> finish_connect (net_connect net None addr)
     | Some local \<Rightarrow>
         (let bind_addr = choose_bind_addr local addr;
              dual = bind_unspecified_v6 bind_addr \<and> is_ipv4 addr;
              want_v4 = (if dual then False else is_ipv4 bind_addr)
          in if is_ipv4 bind_addr \<noteq> is_ipv4 addr \<and> \<not> dual
             then Err (Connect_Io (incompatible_bind
               (''local bind '' @ SocketAddr_fmt bind_addr @ '' incompatible with destination '' @ SocketAddr_fmt addr)))
             else (case net_socket net want_v4 of
                     Inl e \<Rightarrow> Err (Connect_Io e)
                   | Inr _ \<Rightarrow>
                       (case net_bind net want_v4 bind_addr of
                          Inl e \<Rightarrow> Err (Connect_Io e)
                        | Inr _ \<Rightarrow> finish_connect (net_connect net (Some bind_addr) addr)))))"

text \<open>The loop over the addresses keeps the last error.\<close>

fun connect_loop ::
  "'s network \<Rightarrow> socket_addr option \<Rightarrow> connect_error option \<Rightarrow> socket_addr list \<Rightarrow>
   connect_error + 's \<times> connection_metadata" where
  "connect_loop net local_bind last_error [] =
    Err (case last_error of Some e \<Rightarrow> e | None \<Rightarrow> DnsResolution ''no addresses found'')"
| "connect_loop net local_bind last_error (addr # addrs) =
    (case connect_to_addr net local_bind addr of
       Inr s \<Rightarrow> Ok s
     | Inl e \<Rightarrow> connect_loop net local_bind (Some e) addrs)"

definition connect_to_addrs ::
  "'s network \<Rightarrow> socket_addr list \<Rightarrow> socket_addr option \<Rightarrow> connect_error + 's \<times> connection_metadata" where
  "connect_to_addrs net addrs local_bind = connect_loop net local_bind None addrs"

definition resolve_target ::
  "'s network \<Rightarrow> target_addr \<Rightarrow> bool \<Rightarrow> bool \<Rightarrow> connect_error + socket_addr list" where
  "resolve_target net target dns_check literal_check =
    (case tgt_host target of
       Ip ip \<Rightarrow>
         if literal_check \<and> is_dns_rebinding_risk ip then Err (ReservedTarget ip)
         else Ok [SocketAddr ip (tgt_port target)]
     | Domain domain \<Rightarrow>
         (case net_lookup net (domain @ '':'' @ show_nat (unat (tgt_port target))) of
            Expired \<Rightarrow> Err Connect_Timeout
          | Answered (Inl e) \<Rightarrow> Err (DnsResolution e)
          | Answered (Inr addrs) \<Rightarrow>
              if addrs = [] then Err (DnsResolution ''no addresses found'')
              else if dns_check then
                (let filtered = filter (\<lambda>a. \<not> is_dns_rebinding_risk (sock_ip a)) addrs in
                 if filtered = [] then Err (ReservedTarget (sock_ip (hd addrs))) else Ok filtered)
              else Ok addrs))"

definition connect_with_options_and_metadata ::
  "'s network \<Rightarrow> target_addr \<Rightarrow> connect_options \<Rightarrow> connect_error + 's \<times> connection_metadata" where
  "connect_with_options_and_metadata net target options =
    (case resolve_target net target (enforce_dns_rebinding_check options) (enforce_literal_ip_check options) of
       Inl e \<Rightarrow> Err e
     | Inr addrs \<Rightarrow> connect_to_addrs net addrs (co_local_bind options))"

definition connect_with_options ::
  "'s network \<Rightarrow> target_addr \<Rightarrow> connect_options \<Rightarrow> connect_error + 's" where
  "connect_with_options net target options = map_sum id fst (connect_with_options_and_metadata net target options)"

definition DirectConnector_connect :: "'s network \<Rightarrow> target_addr \<Rightarrow> connect_error + 's" where
  "DirectConnector_connect net target = connect_with_options net target ConnectOptions_default"

subsection \<open>The guard as address blocks\<close>

text \<open>Membership in the block \<open>base/n\<close>: the first \<open>n\<close> bits agree.\<close>

definition in_cidr :: "u8 list \<Rightarrow> nat \<Rightarrow> u8 list \<Rightarrow> bool" where
  "in_cidr base n os \<longleftrightarrow>
    take (n div 8) os = take (n div 8) base \<and>
    (n mod 8 = 0 \<or> unat (os ! (n div 8)) div 2 ^ (8 - n mod 8) = unat (base ! (n div 8)) div 2 ^ (8 - n mod 8))"

definition reserved_v4_blocks :: "(u8 list \<times> nat) list" where
  "reserved_v4_blocks =
    [([0, 0, 0, 0], 8), ([10, 0, 0, 0], 8), ([127, 0, 0, 0], 8), ([169, 254, 0, 0], 16), ([172, 16, 0, 0], 12),
     ([192, 0, 2, 0], 24), ([192, 88, 99, 0], 24), ([192, 168, 0, 0], 16), ([198, 18, 0, 0], 15), ([198, 51, 100, 0], 24),
     ([203, 0, 113, 0], 24), ([224, 0, 0, 0], 4), ([240, 0, 0, 0], 4)]"

definition reserved_v6_blocks :: "(u8 list \<times> nat) list" where
  "reserved_v6_blocks =
    [(replicate 16 0, 128), (replicate 15 0 @ [1], 128), ([0x01] @ replicate 15 0, 64), ([0x20, 0x01, 0x0D, 0xB8] @ replicate 12 0, 32),
     ([0xFC] @ replicate 15 0, 7), ([0xFE, 0x80] @ replicate 14 0, 10), ([0xFF] @ replicate 15 0, 8)]"

lemma u8_ranges:
  "(16 \<le> b \<and> b \<le> 31) = (unat b div 16 = 1)" "(b = 18 \<or> b = 19) = (unat b div 2 = 9)"
  "(224 \<le> b \<and> b \<le> 239) = (unat b div 16 = 14)" "(240 \<le> b) = (unat b div 16 = 15)"
  for b :: u8
proof -
  have n: "n < 256 \<Longrightarrow> (16 \<le> n \<and> n \<le> 31) = (n div 16 = 1)" "(n = 18 \<or> n = 19) = (n div 2 = 9)"
    "n < 256 \<Longrightarrow> (224 \<le> n \<and> n \<le> 239) = (n div 16 = 14)" "n < 256 \<Longrightarrow> (240 \<le> n) = (n div 16 = 15)"
    for n :: nat
    by (auto simp: div_nat_eqI)
  show "(16 \<le> b \<and> b \<le> 31) = (unat b div 16 = 1)" "(b = 18 \<or> b = 19) = (unat b div 2 = 9)"
    "(224 \<le> b \<and> b \<le> 239) = (unat b div 16 = 14)" "(240 \<le> b) = (unat b div 16 = 15)"
    using n [of "unat b"] by (simp_all add: word_le_nat_alt word_unat_eq_iff)
qed

lemma u8_eq_bits:
  "a = b \<longleftrightarrow> list_all (\<lambda>n. bit a n = bit b n) [0, 1, 2, 3, 4, 5, 6, 7]" for a b :: u8
proof
  assume l: "list_all (\<lambda>n. bit a n = bit b n) [0, 1, 2, 3, 4, 5, 6, 7]"
  show "a = b"
  proof (rule bit_word_eqI)
    fix n assume "n < LENGTH(8)"
    then have "n \<in> set [0, 1, 2, 3, 4, 5, 6, 7]" by auto
    with l [unfolded list_all_iff] show "bit a n = bit b n" by (rule bspec)
  qed
qed simp

lemma u8_drop: "drop_bit n b = c \<longleftrightarrow> unat b div 2 ^ n = unat c" for b c :: u8
  by (simp add: word_unat_eq_iff unat_drop_bit_eq flip: drop_bit_eq_div)

lemma u8_masks:
  "(and b 0xFE = 0xFC) = (unat b div 2 = 126)" "(and b 0xC0 = 0x80) = (unat b div 64 = 2)"
  for b :: u8
proof -
  have no: "8 \<le> n \<Longrightarrow> \<not> bit b n" for n using bit_imp_le_length [of b n] by auto
  have "(and b 0xFE = 0xFC) = (drop_bit 1 b = 126)"
    unfolding u8_eq_bits [of "and b 0xFE"] u8_eq_bits [of "drop_bit 1 b"]
    by (simp add: bit_and_iff bit_drop_bit_eq no) (simp add: numeral_2_eq_2)
  moreover have "(and b 0xC0 = 0x80) = (drop_bit 6 b = 2)"
    unfolding u8_eq_bits [of "and b 0xC0"] u8_eq_bits [of "drop_bit 6 b"]
    by (simp add: bit_and_iff bit_drop_bit_eq no)
  ultimately show "(and b 0xFE = 0xFC) = (unat b div 2 = 126)" "(and b 0xC0 = 0x80) = (unat b div 64 = 2)"
    by (simp_all add: u8_drop)
qed
lemma in_cidr_whole:
  "in_cidr (x # xs) 8 (a # os) \<longleftrightarrow> a = x"
  "in_cidr (x # y # xs) 16 (a # b # os) \<longleftrightarrow> a = x \<and> b = y"
  "in_cidr (x # y # z # xs) 24 (a # b # c # os) \<longleftrightarrow> a = x \<and> b = y \<and> c = z"
  by (simp_all add: in_cidr_def numeral_2_eq_2 numeral_3_eq_3)

lemma in_cidr_part:
  "in_cidr (x # xs) 4 (a # os) \<longleftrightarrow> unat a div 16 = unat x div 16"
  "in_cidr (x # xs) 7 (a # os) \<longleftrightarrow> unat a div 2 = unat x div 2"
  "in_cidr (x # y # xs) 10 (a # b # os) \<longleftrightarrow> a = x \<and> unat b div 64 = unat y div 64"
  "in_cidr (x # y # xs) 12 (a # b # os) \<longleftrightarrow> a = x \<and> unat b div 16 = unat y div 16"
  "in_cidr (x # y # xs) 15 (a # b # os) \<longleftrightarrow> a = x \<and> unat b div 2 = unat y div 2"
  by (simp_all add: in_cidr_def)

lemma is_reserved_v4_blocks:
  assumes "length os = 4"
  shows "is_reserved_v4 os \<longleftrightarrow> (\<exists>(base, n) \<in> set reserved_v4_blocks. in_cidr base n os)"
proof -
  obtain a b c d where os: "os = [a, b, c, d]" using assms by (auto simp: length_Suc_conv numeral_eq_Suc)
  have blk: "(\<exists>(base, n) \<in> set reserved_v4_blocks. in_cidr base n os) \<longleftrightarrow>
    a = 0 \<or> a = 10 \<or> a = 127 \<or> (a = 169 \<and> b = 254) \<or> (a = 172 \<and> 16 \<le> b \<and> b \<le> 31) \<or> (a = 192 \<and> b = 0 \<and> c = 2) \<or>
    (a = 192 \<and> b = 88 \<and> c = 99) \<or> (a = 192 \<and> b = 168) \<or> (a = 198 \<and> (b = 18 \<or> b = 19)) \<or> (a = 198 \<and> b = 51 \<and> c = 100) \<or>
    (a = 203 \<and> b = 0 \<and> c = 113) \<or> (224 \<le> a \<and> a \<le> 239) \<or> 240 \<le> a"
    unfolding u8_ranges reserved_v4_blocks_def os by (simp add: in_cidr_whole in_cidr_part)
  have sub: "v4_is_broadcast os \<Longrightarrow> 240 \<le> a" "v4_is_unspecified os \<Longrightarrow> a = 0"
    by (simp_all add: os v4_is_broadcast_def v4_is_unspecified_def)
  have doc: "is_v4_documentation os \<longleftrightarrow> (a = 192 \<and> b = 0 \<and> c = 2) \<or> (a = 198 \<and> b = 51 \<and> c = 100) \<or>
    (a = 203 \<and> b = 0 \<and> c = 113) \<or> (a = 192 \<and> b = 88 \<and> c = 99)"
    by (simp add: os is_v4_documentation_def numeral_3_eq_3)
  have rest: "v4_is_loopback os \<longleftrightarrow> a = 127" "v4_is_link_local os \<longleftrightarrow> a = 169 \<and> b = 254"
    "v4_is_private os \<longleftrightarrow> a = 10 \<or> (a = 172 \<and> 16 \<le> b \<and> b \<le> 31) \<or> (a = 192 \<and> b = 168)"
    "v4_is_multicast os \<longleftrightarrow> 224 \<le> a \<and> a \<le> 239" "is_v4_benchmarking os \<longleftrightarrow> a = 198 \<and> (b = 18 \<or> b = 19)"
    "is_v4_reserved os \<longleftrightarrow> 240 \<le> a" "is_v4_this_network os \<longleftrightarrow> a = 0"
    by (simp_all only: os v4_is_loopback_def v4_is_link_local_def v4_is_private_def v4_is_multicast_def
        is_v4_benchmarking_def is_v4_reserved_def is_v4_this_network_def nth_Cons_0 nth_Cons_Suc One_nat_def)
  show ?thesis
    unfolding is_reserved_v4_def blk doc rest using sub by argo
qed

lemma in_cidr_all: "length base = 16 \<Longrightarrow> length os = 16 \<Longrightarrow> in_cidr base 128 os \<longleftrightarrow> os = base"
  by (simp add: in_cidr_def)

lemma is_v6_discard_block:
  "length os = 16 \<Longrightarrow> is_v6_discard_prefix os \<longleftrightarrow> in_cidr ([0x01] @ replicate 15 0) 64 os"
proof -
  assume "length os = 16"
  then obtain a t where os: "os = a # t" "length t = 15" by (cases os) auto
  have "list_all (\<lambda>b. b = 0) (take 7 t) \<longleftrightarrow> take 7 t = replicate 7 0"
    using os(2) by (auto simp: list_all_iff intro!: replicate_eqI [of "take 7 t", THEN trans] dest: in_set_replicate [THEN iffD1])
  then show ?thesis
    by (simp add: is_v6_discard_prefix_def in_cidr_def os take_Cons')
qed

lemma in_cidr_32:
  "in_cidr (x # y # z # v # xs) 32 (a # b # c # d # os) \<longleftrightarrow> a = x \<and> b = y \<and> c = z \<and> d = v"
  by (simp add: in_cidr_def take_Cons')

lemma is_reserved_v6_blocks:
  assumes "length os = 16" "to_ipv4_mapped os = None"
  shows "is_reserved_or_private_ip (V6 os) \<longleftrightarrow> (\<exists>(base, n) \<in> set reserved_v6_blocks. in_cidr base n os)"
proof -
  obtain a b c d os' where os: "os = a # b # c # d # os'" using assms(1) by (auto simp: length_Suc_conv numeral_eq_Suc)
  have "v6_is_multicast os \<longleftrightarrow> in_cidr ([0xFF] @ replicate 15 0) 8 os"
    "is_v6_documentation os \<longleftrightarrow> in_cidr ([0x20, 0x01, 0x0D, 0xB8] @ replicate 12 0) 32 os"
    "is_unicast_link_local_v6 os \<longleftrightarrow> in_cidr ([0xFE, 0x80] @ replicate 14 0) 10 os"
    "is_unique_local_v6 os \<longleftrightarrow> in_cidr ([0xFC] @ replicate 15 0) 7 os"
    unfolding is_unicast_link_local_v6_def is_unique_local_v6_def u8_masks v6_is_multicast_def is_v6_documentation_def os
    by (simp_all add: in_cidr_whole in_cidr_part in_cidr_32)
  moreover have "v6_is_loopback os \<longleftrightarrow> in_cidr (replicate 15 0 @ [1]) 128 os" "v6_is_unspecified os \<longleftrightarrow> in_cidr (replicate 16 0) 128 os"
    using assms(1) by (simp_all add: v6_is_loopback_def v6_is_unspecified_def in_cidr_all)
  ultimately show ?thesis
    using assms is_v6_discard_block [OF assms(1)] unfolding reserved_v6_blocks_def by auto
qed

text \<open>The blocks a name must not resolve to: those of the address, and for an IPv4-mapped address those of IPv4.\<close>

fun in_reserved_block :: "ip_addr \<Rightarrow> bool" where
  "in_reserved_block (V4 os) \<longleftrightarrow> (\<exists>(base, n) \<in> set reserved_v4_blocks. in_cidr base n os)"
| "in_reserved_block (V6 os) \<longleftrightarrow>
    (if take 12 os = replicate 10 0 @ [0xFF, 0xFF] then \<exists>(base, n) \<in> set reserved_v4_blocks. in_cidr base n (drop 12 os)
     else \<exists>(base, n) \<in> set reserved_v6_blocks. in_cidr base n os)"

lemma is_reserved_iff_block: "wf_ip ip \<Longrightarrow> is_reserved_or_private_ip ip \<longleftrightarrow> in_reserved_block ip"
  using is_reserved_v4_blocks [of "octets ip"] is_reserved_v4_blocks [of "drop 12 (octets ip)"] is_reserved_v6_blocks [of "octets ip"]
  by (cases ip) (auto simp: to_ipv4_mapped_def)

subsection \<open>A name never leads to a reserved address\<close>

lemma connect_loop_Ok:
  "connect_loop net lb e addrs = Ok s \<Longrightarrow> \<exists>a \<in> set addrs. connect_to_addr net lb a = Ok s"
  by (induction addrs arbitrary: e) (auto split: sum.splits)

lemma connect_loop_cong:
  "(\<And>a. a \<in> set addrs \<Longrightarrow> connect_to_addr net lb a = connect_to_addr net' lb a) \<Longrightarrow>
   connect_loop net lb e addrs = connect_loop net' lb e addrs"
  by (induction addrs arbitrary: e) (simp_all split: sum.splits)

text \<open>Two networks that differ only in how reserved addresses answer.\<close>

definition same_public_network :: "'s network \<Rightarrow> 's network \<Rightarrow> bool" where
  "same_public_network net net' \<longleftrightarrow>
    net_lookup net = net_lookup net' \<and> net_socket net = net_socket net' \<and> net_bind net = net_bind net' \<and>
    (\<forall>l a. \<not> in_reserved_block (sock_ip a) \<longrightarrow> net_connect net l a = net_connect net' l a)"

definition wf_resolver :: "'s network \<Rightarrow> bool" where
  "wf_resolver net \<longleftrightarrow> (\<forall>q addrs. net_lookup net q = Answered (Ok addrs) \<longrightarrow> (\<forall>a \<in> set addrs. wf_ip (sock_ip a)))"

lemma connect_to_addr_cong:
  "same_public_network net net' \<Longrightarrow> \<not> in_reserved_block (sock_ip a) \<Longrightarrow> connect_to_addr net lb a = connect_to_addr net' lb a"
  by (cases lb) (simp_all add: same_public_network_def connect_to_addr_def Let_def split: sum.split)

lemma resolve_target_public:
  assumes "resolve_target net \<lparr>tgt_host = Domain d, tgt_port = p\<rparr> True lit = Ok addrs" "wf_resolver net"
  shows "addrs \<noteq> [] \<and> (\<forall>a \<in> set addrs. \<not> in_reserved_block (sock_ip a) \<and>
    (\<exists>all. net_lookup net (d @ '':'' @ show_nat (unat p)) = Answered (Ok all) \<and> a \<in> set all))"
  using assms is_reserved_iff_block
  by (auto simp: resolve_target_def is_dns_rebinding_risk_def Let_def wf_resolver_def split: timed.splits sum.splits if_splits)

lemma guard_independent:
  assumes "wf_resolver net" "same_public_network net net'"
    and t: "target = \<lparr>tgt_host = Domain d, tgt_port = p\<rparr>"
    and o: "enforce_dns_rebinding_check options"
  shows "connect_with_options_and_metadata net target options = connect_with_options_and_metadata net' target options"
proof -
  let ?r = "resolve_target net target True (enforce_literal_ip_check options)"
  have r': "resolve_target net' target True (enforce_literal_ip_check options) = ?r"
    using assms(2) by (simp add: resolve_target_def same_public_network_def t)
  show ?thesis
  proof (cases ?r)
    case (Inr addrs)
    have "connect_loop net (co_local_bind options) None addrs = connect_loop net' (co_local_bind options) None addrs"
      using resolve_target_public [of net d p "enforce_literal_ip_check options" addrs] Inr t assms(1,2)
      by (intro connect_loop_cong) (auto intro: connect_to_addr_cong)
    then show ?thesis using Inr r' o by (simp add: connect_with_options_and_metadata_def connect_to_addrs_def)
  qed (use r' o in \<open>simp add: connect_with_options_and_metadata_def\<close>)
qed

lemma guard_success:
  assumes "wf_resolver net" "enforce_dns_rebinding_check options"
    and t: "target = \<lparr>tgt_host = Domain d, tgt_port = p\<rparr>"
    and c: "connect_with_options_and_metadata net target options = Ok s"
  shows "\<exists>all a. net_lookup net (d @ '':'' @ show_nat (unat p)) = Answered (Ok all) \<and> a \<in> set all \<and>
    \<not> in_reserved_block (sock_ip a) \<and> connect_to_addr net (co_local_bind options) a = Ok s"
proof -
  obtain addrs where r: "resolve_target net target True (enforce_literal_ip_check options) = Ok addrs"
    "connect_loop net (co_local_bind options) None addrs = Ok s"
    using assms(2) c by (auto simp: connect_with_options_and_metadata_def connect_to_addrs_def split: sum.splits)
  from connect_loop_Ok [OF r(2)] resolve_target_public [OF r(1) [unfolded t] assms(1)] show ?thesis by blast
qed

lemma guard_refuses:
  assumes "wf_resolver net" "enforce_dns_rebinding_check options"
    and l: "net_lookup net (d @ '':'' @ show_nat (unat p)) = Answered (Ok (a0 # all))"
      "\<forall>a \<in> set (a0 # all). in_reserved_block (sock_ip a)"
  shows "connect_with_options_and_metadata net \<lparr>tgt_host = Domain d, tgt_port = p\<rparr> options = Err (ReservedTarget (sock_ip a0))"
proof -
  have "\<forall>a \<in> set (a0 # all). is_reserved_or_private_ip (sock_ip a)"
    using assms(1) l is_reserved_iff_block unfolding wf_resolver_def by blast
  then have "filter (\<lambda>a. \<not> is_dns_rebinding_risk (sock_ip a)) (a0 # all) = []" by (auto simp: is_dns_rebinding_risk_def filter_empty_conv)
  with l assms(2) show ?thesis
    by (simp add: connect_with_options_and_metadata_def resolve_target_def Let_def del: filter.simps)
qed

text \<open>
  C20: A name does not lead into the private network. With the default options, whatever the resolver
  answers for a domain target, the outcome of connecting does not depend on any host in a reserved, private or
  special-use block (the documented IPv4 and IPv6 blocks, and the IPv4 blocks again in IPv4-mapped form), so none is ever
  contacted; a successful connection goes to one of the resolved public addresses, and a name that resolves
  to reserved addresses only is refused with its first address.
\<close>
theorem dns_rebinding_guarded:
  assumes "wf_resolver net" "same_public_network net net'"
    and t: "target = \<lparr>tgt_host = Domain d, tgt_port = p\<rparr>" and q: "q = d @ '':'' @ show_nat (unat p)"
  shows "connect_with_options_and_metadata net target ConnectOptions_default =
      connect_with_options_and_metadata net' target ConnectOptions_default \<and>
    (\<forall>s. connect_with_options_and_metadata net target ConnectOptions_default = Ok s \<longrightarrow>
      (\<exists>all a. net_lookup net q = Answered (Ok all) \<and> a \<in> set all \<and> \<not> in_reserved_block (sock_ip a) \<and>
        connect_to_addr net None a = Ok s)) \<and>
    (\<forall>a0 all. net_lookup net q = Answered (Ok (a0 # all)) \<and> (\<forall>a \<in> set (a0 # all). in_reserved_block (sock_ip a)) \<longrightarrow>
      connect_with_options_and_metadata net target ConnectOptions_default = Err (ReservedTarget (sock_ip a0)))"
proof -
  have o: "enforce_dns_rebinding_check ConnectOptions_default" "co_local_bind ConnectOptions_default = None"
    by (simp_all add: ConnectOptions_default_def)
  show ?thesis
    using guard_independent [OF assms(1,2) t o(1)] guard_success [OF assms(1) o(1) t] guard_refuses [OF assms(1) o(1)]
    unfolding t q o(2) by blast
qed

definition demo_network :: "nat \<Rightarrow> nat network" where
  "demo_network x =
    \<lparr>net_lookup = (\<lambda>_. Answered (Ok [SocketAddr (V6 (to_ipv6_mapped [127, 0, 0, 1])) 80, SocketAddr (V4 [93, 184, 216, 34]) 80])),
     net_socket = (\<lambda>_. Ok ()), net_bind = (\<lambda>_ _. Ok ()),
     net_connect = (\<lambda>_ a. Answered (Ok (if in_reserved_block (sock_ip a) then x else 7, ConnectionMetadata_default)))\<rparr>"

theorem dns_rebinding_guarded_witness:
  "wf_resolver (demo_network 0) \<and> same_public_network (demo_network 0) (demo_network 1) \<and>
   connect_with_options_and_metadata (demo_network 0) \<lparr>tgt_host = Domain ''example.com'', tgt_port = 80\<rparr> ConnectOptions_default =
   connect_with_options_and_metadata (demo_network 1) \<lparr>tgt_host = Domain ''example.com'', tgt_port = 80\<rparr> ConnectOptions_default"
proof -
  have "wf_resolver (demo_network 0)" "same_public_network (demo_network 0) (demo_network 1)"
    by (simp_all add: wf_resolver_def same_public_network_def demo_network_def to_ipv6_mapped_def)
  with dns_rebinding_guarded [OF this refl refl] show ?thesis by blast
qed

end
