(* ===== verification/Snapshot.thy ===== *)
theory Snapshot
  imports Config_Facts Connector "HOL-Library.AList"
begin

text \<open>
  From the runtime configuration to running state (\<^verbatim>\<open>crates/eggress-runtime/src/snapshot.rs\<close> and
  \<^verbatim>\<open>supervisor/reload.rs\<close>, \<^verbatim>\<open>state.rs\<close>): building the snapshot with its upstream objects and router,
  deciding whether a reload can be applied, and applying it. The hash map of upstreams is an
  association list without repeated keys. Results: a validated configuration always yields a
  snapshot whose router knows every group it can decide on and selects only chains the
  configuration names; a reload is all or nothing and keeps unchanged upstreams; and which listener
  changes a reload lets through.
\<close>

subsection \<open>Snapshots\<close>

record 'r runtime_world =
  rw_routing :: "'r route_world"
  rw_next :: up_ref

record ('re, 'net) compiled_snapshot =
  snap_generation :: u64
  snap_upstreams :: "(string \<times> up_ref) list"
  snap_router :: "('re, 'net) router"
  snap_timeouts :: rtc_timeouts
  snap_listeners :: "rtc_listener list"
  snap_admin :: "rtc_admin option"
  snap_reverse_servers :: "compiled_reverse_server list"
  snap_reverse_clients :: "compiled_reverse_client list"

definition upstream_runtime_compatible :: "upstream_runtime \<Rightarrow> rtc_upstream \<Rightarrow> bool" where
  "upstream_runtime_compatible old u \<longleftrightarrow> up_chain old = ru_chain u \<and> up_health_config old = ru_health u"

definition build_one_upstream_runtime :: "rtc_upstream \<Rightarrow> upstream_runtime" where
  "build_one_upstream_runtime u =
    (let runtime = with_health_config (ru_health u) (UpstreamRuntime_new (ru_id u) (ru_chain u)) in
     case hops (ru_chain u) of
       [] \<Rightarrow> runtime
     | first_hop # _ \<Rightarrow>
         (case parse_socket_addr (ep_host (hop_endpoint first_hop) @ '':'' @ show_nat (unat (ep_port (hop_endpoint first_hop)))) of
            Some addr \<Rightarrow> with_health_probe (TcpConnect addr (probe_timeout (ru_health u))) runtime
          | None \<Rightarrow> runtime))"

text \<open>\<^verbatim>\<open>Arc::new\<close>.\<close>

definition alloc_upstream :: "upstream_runtime \<Rightarrow> 'r runtime_world \<Rightarrow> up_ref \<times> 'r runtime_world" where
  "alloc_upstream u w =
    (rw_next w,
     w\<lparr>rw_routing := (rw_routing w)\<lparr>w_heap := (w_heap (rw_routing w))(rw_next w := u)\<rparr>, rw_next := rw_next w + 1\<rparr>)"

definition reuse_or_build ::
  "(string \<times> up_ref) list \<Rightarrow> rtc_upstream \<Rightarrow> 'r runtime_world \<Rightarrow> up_ref \<times> 'r runtime_world" where
  "reuse_or_build previous u w =
    (case map_of previous (ru_id u) of
       Some existing \<Rightarrow>
         if upstream_runtime_compatible (w_heap (rw_routing w) existing) u then (existing, w)
         else alloc_upstream (build_one_upstream_runtime u) w
     | None \<Rightarrow> alloc_upstream (build_one_upstream_runtime u) w)"

fun build_upstreams ::
  "(string \<times> up_ref) list \<Rightarrow> rtc_upstream list \<Rightarrow> (string \<times> up_ref) list \<Rightarrow> 'r runtime_world
   \<Rightarrow> (string \<times> up_ref) list \<times> 'r runtime_world" where
  "build_upstreams previous [] ups w = (ups, w)"
| "build_upstreams previous (u # us) ups w =
    (case reuse_or_build previous u w of
       (r, w') \<Rightarrow> build_upstreams previous us (AList.update (ru_id u) r ups) w')"

fun routing_fallback :: "config_fallback \<Rightarrow> group_fallback" where
  "routing_fallback Config_Reject = Fallback_Reject"
| "routing_fallback Config_Direct = Fallback_Direct"
| "routing_fallback Config_UseUnhealthy = UseUnhealthy"

definition build_group :: "(string \<times> up_ref) list \<Rightarrow> rtc_group \<Rightarrow> string + (group_id \<times> upstream_group)" where
  "build_group ups g =
    try_bind
      (traverse_result
        (\<lambda>m. case map_of ups m of
               Some r \<Rightarrow> Ok r
             | None \<Rightarrow> Err (''group '' @ quoted (rg_id g) @ '' references unknown upstream '' @ quoted m)) (rg_members g))
      (\<lambda>ms. if ms = [] then Err (''group '' @ quoted (rg_id g) @ '' has no valid members'')
            else Ok (rg_id g, \<lparr>grp_id = rg_id g, scheduler_kind = rg_scheduler g, members = ms,
                               fallback = routing_fallback (rg_fallback g)\<rparr>))"

definition check_rule_group :: "group_id list \<Rightarrow> ('re, 'net) compiled_rule \<Rightarrow> string + ('re, 'net) compiled_rule" where
  "check_rule_group gids r =
    (case rule_action r of
       Action_UpstreamGroup gid \<Rightarrow>
         if gid \<notin> set gids
         then Err (''rule '' @ quoted (rule_id r) @ '' references unknown group '' @ quoted gid)
         else Ok r
     | _ \<Rightarrow> Ok r)"

text \<open>
  The scheduler objects of the new groups. The routing state holds those of the router in use, and a
  snapshot is put to use as soon as it is built, so they are installed with it; \<open>seed\<close> is the state of
  the random source a new scheduler starts with.
\<close>

definition install_schedulers ::
  "(group_id \<Rightarrow> 'r) \<Rightarrow> rtc_group list \<Rightarrow> 'r runtime_world \<Rightarrow> 'r runtime_world" where
  "install_schedulers seed gs w =
    w\<lparr>rw_routing := (rw_routing w)\<lparr>w_sched :=
       fold (\<lambda>g s. s(rg_id g := resolve_scheduler (seed (rg_id g)) (rg_scheduler g))) gs (w_sched (rw_routing w))\<rparr>\<rparr>"

definition next_generation :: "u64 option \<Rightarrow> u64" where
  "next_generation previous = (case previous of None \<Rightarrow> 0 | Some g \<Rightarrow> if g = - 1 then g else g + 1)"

definition compile_runtime_snapshot ::
  "(group_id \<Rightarrow> 'r) \<Rightarrow> ('re, 'net) runtime_config \<Rightarrow> ('re, 'net) compiled_snapshot option \<Rightarrow> 'r runtime_world
   \<Rightarrow> (string + ('re, 'net) compiled_snapshot) \<times> 'r runtime_world" where
  "compile_runtime_snapshot seed rt previous w =
    (case build_upstreams (case previous of Some p \<Rightarrow> snap_upstreams p | None \<Rightarrow> []) (rt_upstreams rt) [] w of
       (ups, w1) \<Rightarrow>
         (case traverse_result (build_group ups) (rt_groups rt) of
            Inl e \<Rightarrow> (Err e, w1)
          | Inr gs \<Rightarrow>
              (case traverse_result (check_rule_group (map rg_id (rt_groups rt))) (rt_rules rt) of
                 Inl e \<Rightarrow> (Err e, w1)
               | Inr rs \<Rightarrow>
                   (Ok \<lparr>snap_generation = next_generation (map_option snap_generation previous),
                        snap_upstreams = ups, snap_router = Router_with_groups rs (rt_default_action rt) gs,
                        snap_timeouts = rt_timeouts rt, snap_listeners = rt_listeners rt, snap_admin = rt_admin rt,
                        snap_reverse_servers = rt_reverse_servers rt, snap_reverse_clients = rt_reverse_clients rt\<rparr>,
                    install_schedulers seed (rt_groups rt) w1))))"

subsection \<open>Which changes a reload accepts\<close>

datatype reload_result =
  Reload_Applied u64 nat
| Reload_Rejected string
| Reload_Failed string

definition restart_for :: "string \<Rightarrow> string \<Rightarrow> string" where
  "restart_for what name = what @ '' for '' @ quoted name @ ''; restart required''"

definition show_bool :: "bool \<Rightarrow> string" where
  "show_bool b = (if b then ''true'' else ''false'')"

definition classify_udp ::
  "string \<Rightarrow> string \<Rightarrow> compiled_listener_udp option \<Rightarrow> compiled_listener_udp option \<Rightarrow> string + unit" where
  "classify_udp old_name new_name old_udp new_udp =
    (case (old_udp, new_udp) of
       (Some a, Some b) \<Rightarrow>
         if cl_bind a \<noteq> cl_bind b \<or> cl_enabled a \<noteq> cl_enabled b \<or> cl_mode a \<noteq> cl_mode b \<or>
            cl_upstream_udp_bind a \<noteq> cl_upstream_udp_bind b
         then Err (restart_for ''UDP listener configuration changed'' old_name)
         else if cl_max_associations a \<noteq> cl_max_associations b \<or>
            cl_max_associations_global a \<noteq> cl_max_associations_global b \<or>
            cl_max_targets_per_association a \<noteq> cl_max_targets_per_association b \<or>
            cl_max_datagram_size a \<noteq> cl_max_datagram_size b
         then Err (restart_for ''UDP listener limits changed'' old_name)
         else if cl_idle_timeout a \<noteq> cl_idle_timeout b \<or> cl_target_idle_timeout a \<noteq> cl_target_idle_timeout b \<or>
            cl_upstream_connect_timeout a \<noteq> cl_upstream_connect_timeout b \<or> cl_client_pin a \<noteq> cl_client_pin b \<or>
            cl_allow_private_egress a \<noteq> cl_allow_private_egress b \<or> cl_advertise a \<noteq> cl_advertise b \<or>
            cl_fixed_target a \<noteq> cl_fixed_target b
         then Err (restart_for ''UDP listener settings changed'' old_name)
         else Ok ()
     | (None, Some b) \<Rightarrow>
         Err (''UDP configuration added for '' @ quoted new_name @ '': '' @ quoted (SocketAddr_fmt (cl_bind b)) @ ''; restart required'')
     | (Some _, None) \<Rightarrow> Err (restart_for ''UDP configuration removed'' old_name)
     | (None, None) \<Rightarrow> Ok ())"

definition classify_transparent ::
  "string \<Rightarrow> string \<Rightarrow> compiled_transparent option \<Rightarrow> compiled_transparent option \<Rightarrow> string + unit" where
  "classify_transparent old_name new_name old_t new_t =
    (case (old_t, new_t) of
       (Some a, Some b) \<Rightarrow>
         if ct_enabled a \<noteq> ct_enabled b \<or> ct_protocol a \<noteq> ct_protocol b
         then Err (''transparent config changed for '' @ quoted old_name @ '': enabled '' @ show_bool (ct_enabled a) @
                   '' -> '' @ show_bool (ct_enabled b) @ ''; restart required'')
         else Ok ()
     | (None, Some b) \<Rightarrow>
         if ct_enabled b then Err (restart_for ''transparent proxy enabled'' new_name) else Ok ()
     | (Some a, None) \<Rightarrow>
         if ct_enabled a then Err (restart_for ''transparent proxy configuration removed'' old_name) else Ok ()
     | (None, None) \<Rightarrow> Ok ())"

definition classify_unix ::
  "string \<Rightarrow> string \<Rightarrow> compiled_unix_listener option \<Rightarrow> compiled_unix_listener option \<Rightarrow> string + unit" where
  "classify_unix old_name new_name old_u new_u =
    (case (old_u, new_u) of
       (Some a, Some b) \<Rightarrow>
         if cu_path a \<noteq> cu_path b \<or> cu_unlink_existing a \<noteq> cu_unlink_existing b \<or> cu_mode a \<noteq> cu_mode b
         then Err (''unix socket path changed for '' @ quoted old_name @ '': '' @ quoted (cu_path a) @ '' -> '' @
                   quoted (cu_path b) @ ''; restart required'')
         else Ok ()
     | (None, Some _) \<Rightarrow> Err (restart_for ''unix socket added'' new_name)
     | (Some _, None) \<Rightarrow> Err (restart_for ''unix socket removed'' old_name)
     | (None, None) \<Rightarrow> Ok ())"

text \<open>The material groups: present on one side only, or different in a field.\<close>

definition classify_material ::
  "string \<Rightarrow> string \<Rightarrow> ('a \<Rightarrow> 'a \<Rightarrow> bool) \<Rightarrow> string \<Rightarrow> 'a option \<Rightarrow> 'a option \<Rightarrow> string + unit" where
  "classify_material presence material same name old_m new_m =
    (case (old_m, new_m) of
       (None, None) \<Rightarrow> Ok ()
     | (Some a, Some b) \<Rightarrow> if \<not> same a b then Err (restart_for material name) else Ok ()
     | _ \<Rightarrow> Err (restart_for presence name))"

definition classify_auth :: "string \<Rightarrow> auth_config option \<Rightarrow> auth_config option \<Rightarrow> string + unit" where
  "classify_auth =
    classify_material ''listener auth presence changed'' ''listener auth material changed''
      (\<lambda>a b. ac_auth_type a = ac_auth_type b \<and> ac_username a = ac_username b \<and> ac_password a = ac_password b \<and>
             ac_password_env a = ac_password_env b)"

definition classify_tls :: "string \<Rightarrow> compiled_listener_tls option \<Rightarrow> compiled_listener_tls option \<Rightarrow> string + unit" where
  "classify_tls =
    classify_material ''listener TLS presence changed'' ''listener TLS material changed''
      (\<lambda>a b. clt_cert_pem a = clt_cert_pem b \<and> clt_key_pem a = clt_key_pem b \<and> clt_alpn a = clt_alpn b)"

definition classify_shadowsocks ::
  "string \<Rightarrow> shadowsocks_listener_config option \<Rightarrow> shadowsocks_listener_config option \<Rightarrow> string + unit" where
  "classify_shadowsocks =
    classify_material ''listener shadowsocks presence changed'' ''listener shadowsocks configuration changed''
      (\<lambda>a b. sl_method a = sl_method b \<and> sl_password a = sl_password b \<and> sl_auth_prefix a = sl_auth_prefix b \<and>
             sl_plugins a = sl_plugins b)"

definition classify_trojan :: "string \<Rightarrow> listener_trojan_config option \<Rightarrow> listener_trojan_config option \<Rightarrow> string + unit" where
  "classify_trojan =
    classify_material ''listener trojan presence changed'' ''listener trojan configuration changed''
      (\<lambda>a b. lt_password a = lt_password b \<and> lt_fallback a = lt_fallback b)"

definition classify_listener :: "rtc_listener \<Rightarrow> rtc_listener \<Rightarrow> string + unit" where
  "classify_listener old new =
    (if rl_name old \<noteq> rl_name new
     then Err (''listener name changed ('' @ quoted (rl_name old) @ '' -> '' @ quoted (rl_name new) @ ''); restart required'')
     else if rl_bind old \<noteq> rl_bind new
     then Err (''listener bind address changed for '' @ quoted (rl_name old) @ '': '' @ quoted (rl_bind old) @ '' -> '' @
               quoted (rl_bind new) @ ''; restart required'')
     else
     try_bind (classify_udp (rl_name old) (rl_name new) (rl_udp old) (rl_udp new)) (\<lambda>_.
     try_bind (classify_transparent (rl_name old) (rl_name new) (rl_transparent old) (rl_transparent new)) (\<lambda>_.
     try_bind (classify_unix (rl_name old) (rl_name new) (rl_unix old) (rl_unix new)) (\<lambda>_.
     if rl_reuse_port old \<noteq> rl_reuse_port new then Err (restart_for ''listener socket options changed'' (rl_name old))
     else if rl_protocols old \<noteq> rl_protocols new then Err (restart_for ''listener protocols changed'' (rl_name old))
     else
     try_bind (classify_auth (rl_name old) (rl_auth old) (rl_auth new)) (\<lambda>_.
     try_bind (classify_tls (rl_name old) (rl_tls old) (rl_tls new)) (\<lambda>_.
     try_bind (classify_shadowsocks (rl_name old) (rl_shadowsocks old) (rl_shadowsocks new)) (\<lambda>_.
     try_bind (classify_trojan (rl_name old) (rl_trojan old) (rl_trojan new)) (\<lambda>_.
     if rl_connection_limit old \<noteq> rl_connection_limit new \<or> rl_fixed_target old \<noteq> rl_fixed_target new \<or>
        rl_local_bind old \<noteq> rl_local_bind new
     then Err (restart_for ''listener connection_limit/fixed_target/local_bind changed'' (rl_name old))
     else Ok ()))))))))"

fun classify_pairs :: "(rtc_listener \<times> rtc_listener) list \<Rightarrow> string + unit" where
  "classify_pairs [] = Ok ()"
| "classify_pairs ((old, new) # rest) = try_bind (classify_listener old new) (\<lambda>_. classify_pairs rest)"

definition classify_listeners :: "rtc_listener list \<Rightarrow> rtc_listener list \<Rightarrow> string + unit" where
  "classify_listeners old_listeners new_listeners =
    (if length old_listeners \<noteq> length new_listeners
     then Err (''listener count changed ('' @ show_nat (length old_listeners) @ '' -> '' @
               show_nat (length new_listeners) @ ''); restart required'')
     else classify_pairs (zip old_listeners new_listeners))"

definition admin_endpoint :: "rtc_admin option \<Rightarrow> (bool \<times> string) option" where
  "admin_endpoint a = map_option (\<lambda>admin. (ra_enabled admin, ra_bind admin)) a"

definition classify_reload_config ::
  "rtc_listener list \<Rightarrow> rtc_timeouts \<Rightarrow> rtc_admin option \<Rightarrow> ('re, 'net) runtime_config \<Rightarrow> string + unit" where
  "classify_reload_config old_listeners old_timeouts old_admin new_config =
    try_bind (classify_listeners old_listeners (rt_listeners new_config)) (\<lambda>_.
    if old_timeouts \<noteq> rt_timeouts new_config then Err ''timeout configuration changed; restart required''
    else if admin_endpoint old_admin \<noteq> admin_endpoint (rt_admin new_config)
    then Err ''admin endpoint bind configuration changed; restart required''
    else Ok ())"

subsection \<open>Applying a reload\<close>

text \<open>The effects outside the snapshot and the router, in the order in which they happen.\<close>

datatype reload_effect =
  Effect_Reload_Recorded bool
| Effect_Probes_Restarted "up_ref list"
| Effect_H2_Pools_Cleared
| Effect_Generation_Set u64

record ('re, 'net, 'r) runtime_state =
  rst_snapshot :: "('re, 'net) compiled_snapshot"
  rst_service :: "('re, 'net) shared_routing_service"
  rst_admin_snapshot :: "('re, 'net) compiled_snapshot"
  rst_world :: "'r runtime_world"
  rst_udp_global_limit :: nat
  rst_effects :: "reload_effect list"

definition record_effects :: "reload_effect list \<Rightarrow> ('re, 'net, 'r) runtime_state \<Rightarrow> ('re, 'net, 'r) runtime_state" where
  "record_effects es st = st\<lparr>rst_effects := rst_effects st @ es\<rparr>"

text \<open>The probes of the old upstreams are stopped and those of the upstreams in the snapshot started.\<close>

definition restart_health_probes :: "('re, 'net, 'r) runtime_state \<Rightarrow> ('re, 'net, 'r) runtime_state" where
  "restart_health_probes st = record_effects [Effect_Probes_Restarted (map snd (snap_upstreams (rst_snapshot st)))] st"

definition apply_compiled_config ::
  "(group_id \<Rightarrow> 'r) \<Rightarrow> ('re, 'net) runtime_config \<Rightarrow> ('re, 'net, 'r) runtime_state
   \<Rightarrow> reload_result \<times> ('re, 'net, 'r) runtime_state" where
  "apply_compiled_config seed new_config st =
    (let prev = rst_snapshot st in
     case classify_reload_config (snap_listeners prev) (snap_timeouts prev) (snap_admin prev) new_config of
       Inl reason \<Rightarrow> (Reload_Rejected reason, record_effects [Effect_Reload_Recorded False] st)
     | Inr _ \<Rightarrow>
         (case compile_runtime_snapshot seed new_config (Some prev) (rst_world st) of
            (Inl e, w) \<Rightarrow>
              (Reload_Failed (''snapshot build: '' @ e), record_effects [Effect_Reload_Recorded False] (st\<lparr>rst_world := w\<rparr>))
          | (Inr snap, w) \<Rightarrow>
              (let published = st\<lparr>rst_snapshot := snap, rst_service := service_swap (snap_router snap) (rst_service st),
                                  rst_admin_snapshot := snap, rst_world := w\<rparr>;
                   st' = record_effects [Effect_H2_Pools_Cleared, Effect_Generation_Set (snap_generation snap),
                                         Effect_Reload_Recorded True] (restart_health_probes published)
               in (Reload_Applied (snap_generation snap) (length (snap_upstreams snap)), st'))))"

text \<open>\<^verbatim>\<open>ServiceSupervisor::reload_config\<close>; without a file the supervisor was started from memory.\<close>

record ('re, 'net, 'r) service_supervisor =
  sup_config_path :: "string option"
  sup_config :: "('re, 'net) runtime_config"
  sup_state :: "('re, 'net, 'r) runtime_state"

definition reload_config ::
  "('re, 'net) config_env \<Rightarrow> (string \<Rightarrow> string + config_file) \<Rightarrow> (group_id \<Rightarrow> 'r) \<Rightarrow> ('re, 'net, 'r) service_supervisor
   \<Rightarrow> reload_result \<times> ('re, 'net, 'r) service_supervisor" where
  "reload_config env from_toml seed supervisor =
    (case sup_config_path supervisor of
       None \<Rightarrow> (Reload_Rejected ''no config file path available for reload'', supervisor)
     | Some path \<Rightarrow>
         (case load_and_validate env from_toml path of
            Inl e \<Rightarrow>
              (Reload_Failed (''config load: '' @ ConfigError_fmt e),
               supervisor\<lparr>sup_state := record_effects [Effect_Reload_Recorded False] (sup_state supervisor)\<rparr>)
          | Inr new_config \<Rightarrow>
              (case apply_compiled_config seed new_config (sup_state supervisor) of
                 (result, st) \<Rightarrow>
                   (result,
                    (case result of
                       Reload_Applied _ _ \<Rightarrow> supervisor\<lparr>sup_config := new_config, sup_state := st\<rparr>
                     | _ \<Rightarrow> supervisor\<lparr>sup_state := st\<rparr>)))))"

subsection \<open>Starting\<close>

datatype runtime_error =
  Runtime_Config string
| Runtime_ListenerBind string
| Runtime_Other string

text \<open>The checks before any state exists; whether the two features are built in is a parameter.\<close>

fun validate_startup_binds :: "rtc_listener list \<Rightarrow> runtime_error + unit" where
  "validate_startup_binds [] = Ok ()"
| "validate_startup_binds (l # ls) =
    (if rl_unix l = None \<and> parse_socket_addr (rl_bind l) = None then Err (Runtime_ListenerBind (rl_bind l))
     else validate_startup_binds ls)"

definition validate_startup_config :: "bool \<Rightarrow> bool \<Rightarrow> ('re, 'net) runtime_config \<Rightarrow> runtime_error + unit" where
  "validate_startup_config reverse_feature operations_feature rt =
    (if \<not> reverse_feature \<and> (rt_reverse_servers rt \<noteq> [] \<or> rt_reverse_clients rt \<noteq> [])
     then Err (Runtime_Other ''reverse proxy support not included in this build'')
     else if \<not> operations_feature \<and> (case rt_admin rt of Some a \<Rightarrow> ra_enabled a | None \<Rightarrow> False)
     then Err (Runtime_Other (''admin server support not included in this build; enable the '' @ quoted ''operations'' @
       '' feature or remove [admin] from config''))
     else validate_startup_binds (rt_listeners rt))"

definition resolve_udp_global_limit :: "('re, 'net) runtime_config \<Rightarrow> nat" where
  "resolve_udp_global_limit rt =
    (case concat (map (\<lambda>l. if_some (rl_udp l) (\<lambda>u. [cl_max_associations_global u])) (rt_listeners rt)) of
       v # _ \<Rightarrow> v
     | [] \<Rightarrow> 1024)"

text \<open>
  \<^verbatim>\<open>init_supervisor\<close> and \<^verbatim>\<open>ServiceSupervisor::start\<close>. Of the state that is put together here the parts a
  reload or a route reads are kept; the two features and the world the objects are created in are arguments.
\<close>

definition init_supervisor ::
  "bool \<Rightarrow> bool \<Rightarrow> (group_id \<Rightarrow> 'r) \<Rightarrow> ('re, 'net) runtime_config \<Rightarrow> string option \<Rightarrow> 'r runtime_world
   \<Rightarrow> runtime_error + ('re, 'net, 'r) service_supervisor" where
  "init_supervisor reverse_feature operations_feature seed rt config_path w =
    try_bind (validate_startup_config reverse_feature operations_feature rt) (\<lambda>_.
    case compile_runtime_snapshot seed rt None w of
      (Inl e, _) \<Rightarrow> Err (Runtime_Config e)
    | (Inr snap, w') \<Rightarrow>
        Ok \<lparr>sup_config_path = config_path, sup_config = rt,
            sup_state = \<lparr>rst_snapshot = snap, rst_service = SharedRoutingService_new (snap_router snap),
              rst_admin_snapshot = snap, rst_world = w', rst_udp_global_limit = resolve_udp_global_limit rt,
              rst_effects = []\<rparr>\<rparr>)"

definition ServiceSupervisor_start ::
  "('re, 'net) config_env \<Rightarrow> (string \<Rightarrow> string + config_file) \<Rightarrow> bool \<Rightarrow> bool \<Rightarrow> (group_id \<Rightarrow> 'r) \<Rightarrow> string
   \<Rightarrow> 'r runtime_world \<Rightarrow> runtime_error + ('re, 'net, 'r) service_supervisor" where
  "ServiceSupervisor_start env from_toml reverse_feature operations_feature seed path w =
    try_bind (map_err (\<lambda>e. Runtime_Config (ConfigError_fmt e)) (load_and_validate_with_warnings env from_toml path))
      (\<lambda>(rt, warnings). init_supervisor reverse_feature operations_feature seed rt (Some path) w)"

end
