(* ===== verification/Supervisor.thy ===== *)
theory Supervisor
  imports Snapshot
begin

text \<open>
  What the running supervisor promises, over every sequence of starting, working and reloading: an accepted
  configuration always yields a snapshot; the router in use implements the configuration in use, so that
  routing knows every group it decides on and selects only upstreams and chains of the file that was last
  put to use; a reload is all or nothing, keeps unchanged upstream objects and never changes what the
  running listeners were started with.
\<close>

subsection \<open>Worlds\<close>

abbreviation up_at :: "'r runtime_world \<Rightarrow> up_ref \<Rightarrow> upstream_runtime" where
  "up_at w \<equiv> w_heap (rw_routing w)"

text \<open>
  How the running program changes its world: upstream objects stay where they are and keep their
  identifier, chain and health configuration. Building is stronger: objects that exist are not touched.
\<close>

definition evolves :: "'r runtime_world \<Rightarrow> 'r runtime_world \<Rightarrow> bool" where
  "evolves w w' \<longleftrightarrow> rw_next w \<le> rw_next w' \<and>
    (\<forall>r < rw_next w. up_id (up_at w' r) = up_id (up_at w r) \<and> up_chain (up_at w' r) = up_chain (up_at w r) \<and>
       up_health_config (up_at w' r) = up_health_config (up_at w r))"

definition extends :: "'r runtime_world \<Rightarrow> 'r runtime_world \<Rightarrow> bool" where
  "extends w w' \<longleftrightarrow> rw_next w \<le> rw_next w' \<and> (\<forall>r < rw_next w. up_at w' r = up_at w r)"

lemma extends_refl [simp]: "extends w w"
  by (simp add: extends_def)

lemma extends_trans [trans]: "extends w w' \<Longrightarrow> extends w' w'' \<Longrightarrow> extends w w''"
  by (auto simp: extends_def)

lemma extends_evolves: "extends w w' \<Longrightarrow> evolves w w'"
  by (simp add: extends_def evolves_def)

text \<open>A reference stands for a configured upstream.\<close>

definition upstream_of :: "'r runtime_world \<Rightarrow> rtc_upstream \<Rightarrow> up_ref \<Rightarrow> bool" where
  "upstream_of w u r \<longleftrightarrow> r < rw_next w \<and> up_id (up_at w r) = ru_id u \<and> up_chain (up_at w r) = ru_chain u \<and>
    up_health_config (up_at w r) = ru_health u"

definition live :: "'r runtime_world \<Rightarrow> (string \<times> up_ref) list \<Rightarrow> bool" where
  "live w ups \<longleftrightarrow> (\<forall>i r. map_of ups i = Some r \<longrightarrow> r < rw_next w \<and> up_id (up_at w r) = i)"

lemma upstream_of_evolves: "upstream_of w u r \<Longrightarrow> evolves w w' \<Longrightarrow> upstream_of w' u r"
  by (auto simp: upstream_of_def evolves_def)

lemma live_evolves: "live w ups \<Longrightarrow> evolves w w' \<Longrightarrow> live w' ups"
  by (fastforce simp: live_def evolves_def)

lemma build_one_identity [simp]:
  "up_id (build_one_upstream_runtime u) = ru_id u" "up_chain (build_one_upstream_runtime u) = ru_chain u"
  "up_health_config (build_one_upstream_runtime u) = ru_health u"
  by (simp_all add: build_one_upstream_runtime_def Let_def with_health_config_def with_health_probe_def
      UpstreamRuntime_new_def split: list.split option.split)

lemma alloc_upstream_spec:
  assumes "alloc_upstream v w = (r, w')"
  shows "r = rw_next w" "up_at w' r = v" "extends w w'" "rw_next w < rw_next w'" "w_sched (rw_routing w') = w_sched (rw_routing w)"
  using assms by (auto simp: alloc_upstream_def extends_def)

lemma reuse_or_build_cases:
  assumes "reuse_or_build previous u w = (r, w')"
  obtains (reused) "map_of previous (ru_id u) = Some r" "upstream_runtime_compatible (up_at w r) u" "w' = w"
    | (built) "alloc_upstream (build_one_upstream_runtime u) w = (r, w')"
        "\<And>r'. map_of previous (ru_id u) = Some r' \<Longrightarrow> \<not> upstream_runtime_compatible (up_at w r') u"
proof (cases "map_of previous (ru_id u)")
  case (Some e)
  show ?thesis
  proof (cases "upstream_runtime_compatible (up_at w e) u")
    case True
    with assms Some have "r = e" "w' = w" by (simp_all add: reuse_or_build_def)
    with True Some show ?thesis by (intro reused) simp_all
  next
    case False
    with assms Some show ?thesis by (intro built) (simp_all add: reuse_or_build_def)
  qed
qed (use assms in \<open>intro built, simp_all add: reuse_or_build_def\<close>)

lemma reuse_or_build_spec:
  assumes "reuse_or_build previous u w = (r, w')" "live w previous"
  shows "upstream_of w' u r" "extends w w'" "w_sched (rw_routing w') = w_sched (rw_routing w)"
    "map_of previous (ru_id u) = Some r' \<Longrightarrow> upstream_runtime_compatible (up_at w r') u \<Longrightarrow> r = r'"
proof -
  show "upstream_of w' u r"
    using assms(1)
  proof (cases rule: reuse_or_build_cases)
    case reused
    with assms(2) show ?thesis by (simp add: upstream_of_def upstream_runtime_compatible_def live_def)
  next
    case built
    with alloc_upstream_spec [OF built(1)] show ?thesis by (simp add: upstream_of_def)
  qed
  show "extends w w'" "w_sched (rw_routing w') = w_sched (rw_routing w)"
    using assms(1) by (cases rule: reuse_or_build_cases; simp add: alloc_upstream_spec(3,5))+
  show "r = r'" if "map_of previous (ru_id u) = Some r'" "upstream_runtime_compatible (up_at w r') u"
    using that assms(1) by (simp add: reuse_or_build_def)
qed

lemma build_upstreams_spec:
  assumes "build_upstreams previous us ups w = (ups', w')" "live w previous" "live w ups"
    "distinct (map ru_id us)" "ru_id ` set us \<inter> dom (map_of ups) = {}"
  shows "extends w w' \<and> live w' ups' \<and> w_sched (rw_routing w') = w_sched (rw_routing w) \<and>
    (\<forall>i. i \<notin> ru_id ` set us \<longrightarrow> map_of ups' i = map_of ups i) \<and>
    (\<forall>u \<in> set us. \<exists>r. map_of ups' (ru_id u) = Some r \<and> upstream_of w' u r \<and>
       (\<forall>r'. map_of previous (ru_id u) = Some r' \<longrightarrow> upstream_runtime_compatible (up_at w r') u \<longrightarrow> r = r'))"
  using assms
proof (induction us arbitrary: ups w)
  case (Cons u us)
  obtain r w1 where r: "reuse_or_build previous u w = (r, w1)" by fastforce
  let ?ups = "AList.update (ru_id u) r ups"
  note spec = reuse_or_build_spec [OF r Cons.prems(2)]
  note ev = extends_evolves [OF spec(2)]
  have live: "live w1 ?ups"
    using live_evolves [OF Cons.prems(3) ev] spec(1) by (auto simp: live_def update_conv' upstream_of_def)
  have dom: "ru_id ` set us \<inter> dom (map_of ?ups) = {}"
    using Cons.prems(4,5) by (auto simp: update_conv')
  have same: "up_at w1 r' = up_at w r'" if "map_of previous i = Some r'" for i r'
    using that Cons.prems(2) spec(2) by (simp add: live_def extends_def)
  from Cons.IH [OF _ live_evolves [OF Cons.prems(2) ev] live _ dom] Cons.prems(1,4) r
  have IH: "extends w1 w'" "live w' ups'" "w_sched (rw_routing w') = w_sched (rw_routing w1)"
    "\<And>i. i \<notin> ru_id ` set us \<Longrightarrow> map_of ups' i = map_of ?ups i"
    "\<forall>u \<in> set us. \<exists>r. map_of ups' (ru_id u) = Some r \<and> upstream_of w' u r \<and>
       (\<forall>r'. map_of previous (ru_id u) = Some r' \<longrightarrow> upstream_runtime_compatible (up_at w1 r') u \<longrightarrow> r = r')"
    by auto
  have "map_of ups' (ru_id u) = Some r"
    using IH(4) [of "ru_id u"] Cons.prems(4) by (simp add: update_conv')
  moreover have "upstream_of w' u r"
    using upstream_of_evolves [OF spec(1) extends_evolves [OF IH(1)]] .
  moreover have "map_of ups' i = map_of ups i" if "i \<notin> ru_id ` set (u # us)" for i
    using IH(4) [of i] that by (simp add: update_conv')
  ultimately show ?case
    using extends_trans [OF spec(2) IH(1)] IH(2,3,5) spec(3,4) same by auto
qed auto

subsection \<open>Snapshots of accepted configurations\<close>

text \<open>What the validator and the compiler establish about the references inside a configuration.\<close>

definition closed_runtime :: "('re, 'net) runtime_config \<Rightarrow> bool" where
  "closed_runtime rt \<longleftrightarrow>
    distinct (map ru_id (rt_upstreams rt)) \<and> distinct (map rg_id (rt_groups rt)) \<and>
    (\<forall>g \<in> set (rt_groups rt). rg_members g \<noteq> [] \<and> set (rg_members g) \<subseteq> ru_id ` set (rt_upstreams rt)) \<and>
    (\<forall>r \<in> set (rt_rules rt). \<forall>gid. rule_action r = Action_UpstreamGroup gid \<longrightarrow> gid \<in> rg_id ` set (rt_groups rt)) \<and>
    (\<forall>gid. rt_default_action rt = Action_UpstreamGroup gid \<longrightarrow> gid \<in> rg_id ` set (rt_groups rt))"

lemma accepted_closed:
  assumes "validate_config env config = Ok ()" "compile_config env config = Ok rt"
  shows "closed_runtime rt"
proof -
  have ids: "set (group_ids config) = rg_id ` set (rt_groups rt)"
    by (simp flip: compiled_ids(2) [OF assms(2)])
  have "distinct (map ru_id (rt_upstreams rt))" "distinct (map rg_id (rt_groups rt))"
    using accepted_upstreams [OF assms(1)] accepted_groups(1) [OF assms(1)] by (simp_all add: compiled_ids [OF assms(2)])
  moreover have "gid \<in> rg_id ` set (rt_groups rt)" if "r \<in> set (rt_rules rt)" "rule_action r = Action_UpstreamGroup gid" for r gid
    using compile_rules_group [OF compile_config_Ok(3) [OF assms(2)] that] by (simp add: ids)
  moreover have "gid \<in> rg_id ` set (rt_groups rt)" if "rt_default_action rt = Action_UpstreamGroup gid" for gid
    using accepted_default [OF assms(1)] that by (simp add: ids compile_config_Ok(4) [OF assms(2)])
  ultimately show ?thesis
    using compiled_groups_closed [OF assms] by (simp add: closed_runtime_def)
qed

text \<open>The router of a snapshot implements a configuration in a world.\<close>

definition implements :: "('re, 'net) runtime_config \<Rightarrow> ('re, 'net) router \<Rightarrow> 'r runtime_world \<Rightarrow> bool" where
  "implements rt router w \<longleftrightarrow>
    rules router = rt_rules rt \<and> default_action router = rt_default_action rt \<and>
    dom (groups router) = rg_id ` set (rt_groups rt) \<and>
    (\<forall>gid ug. groups router gid = Some ug \<longrightarrow> (\<exists>g \<in> set (rt_groups rt). rg_id g = gid \<and>
       list_all2 (\<lambda>m r. \<exists>u \<in> set (rt_upstreams rt). ru_id u = m \<and> upstream_of w u r) (rg_members g) (members ug)))"

lemma implements_evolves: "implements rt router w \<Longrightarrow> evolves w w' \<Longrightarrow> implements rt router w'"
  unfolding implements_def
  by (fast intro: list_all2_mono upstream_of_evolves)

lemma groups_with_groups:
  "groups (Router_with_groups rs act gs) = map_of (rev gs)"
proof -
  have "foldl (\<lambda>m (i, g). m(i \<mapsto> g)) m gs = m ++ map_of (rev gs)" for m :: "group_id \<Rightarrow> upstream_group option"
    by (induction gs arbitrary: m) (auto simp: map_add_assoc [symmetric] fun_eq_iff map_add_def split: option.splits)
  then show ?thesis by (simp add: Router_with_groups_def)
qed

lemma build_group_Ok:
  assumes "rg_members g \<noteq> []" "set (rg_members g) \<subseteq> dom (map_of ups)"
  shows "\<exists>ug. build_group ups g = Ok (rg_id g, ug) \<and> list_all2 (\<lambda>m r. map_of ups m = Some r) (rg_members g) (members ug)"
proof -
  have "\<exists>rs. list_all2 (\<lambda>m r. map_of ups m = Some r) ms rs" if "set ms \<subseteq> dom (map_of ups)" for ms
    using that by (induction ms) (auto intro: list_all2_Cons1 [THEN iffD2])
  then obtain rs where rs: "list_all2 (\<lambda>m r. map_of ups m = Some r) (rg_members g) rs" using assms(2) by blast
  then have "rs \<noteq> []" using assms(1) by auto
  moreover have "traverse_result (\<lambda>m. case map_of ups m of Some r \<Rightarrow> Ok r
      | None \<Rightarrow> Err (''group '' @ quoted (rg_id g) @ '' references unknown upstream '' @ quoted m)) (rg_members g) = Ok rs"
    unfolding traverse_result_Ok by (rule list_all2_mono [OF rs]) simp
  ultimately show ?thesis using rs by (simp add: build_group_def)
qed

lemma traverse_result_choice:
  "(\<And>x. x \<in> set xs \<Longrightarrow> \<exists>y. f x = Ok y \<and> P x y) \<Longrightarrow>
    \<exists>ys. traverse_result f xs = Ok ys \<and> list_all2 P xs ys"
proof (induction xs)
  case (Cons x xs)
  obtain y where "f x = Ok y" "P x y" using Cons.prems [of x] by auto
  moreover obtain ys where "traverse_result f xs = Ok ys" "list_all2 P xs ys" using Cons by auto
  ultimately show ?case by auto
qed simp

definition group_built :: "('re, 'net) runtime_config \<Rightarrow> 'r runtime_world \<Rightarrow> rtc_group \<Rightarrow> group_id \<times> upstream_group \<Rightarrow> bool" where
  "group_built rt w g y \<longleftrightarrow> fst y = rg_id g \<and>
    list_all2 (\<lambda>m r. \<exists>u \<in> set (rt_upstreams rt). ru_id u = m \<and> upstream_of w u r) (rg_members g) (members (snd y))"

lemma build_group_closed:
  assumes closed: "closed_runtime rt" and g: "g \<in> set (rt_groups rt)"
    and ids: "\<And>u. u \<in> set (rt_upstreams rt) \<Longrightarrow> \<exists>r. map_of ups (ru_id u) = Some r \<and> upstream_of w u r"
  shows "\<exists>y. build_group ups g = Ok y \<and> group_built rt w g y"
proof -
  have m: "\<exists>u \<in> set (rt_upstreams rt). ru_id u = m" if "m \<in> set (rg_members g)" for m
    using closed g that by (auto simp: closed_runtime_def)
  then have "set (rg_members g) \<subseteq> dom (map_of ups)" using ids by blast
  moreover have "rg_members g \<noteq> []" using closed g by (simp add: closed_runtime_def)
  ultimately obtain ug where ug: "build_group ups g = Ok (rg_id g, ug)"
    "list_all2 (\<lambda>m r. map_of ups m = Some r) (rg_members g) (members ug)"
    using build_group_Ok by blast
  have "\<exists>u \<in> set (rt_upstreams rt). ru_id u = m \<and> upstream_of w u r"
    if "m \<in> set (rg_members g)" "map_of ups m = Some r" for m r
    using m [OF that(1)] ids that(2) by fastforce
  then have "list_all2 (\<lambda>m r. \<exists>u \<in> set (rt_upstreams rt). ru_id u = m \<and> upstream_of w u r) (rg_members g) (members ug)"
    by (intro list.rel_mono_strong [OF ug(2)])
  with ug(1) show ?thesis by (simp add: group_built_def)
qed

lemma implements_with_groups:
  assumes "list_all2 (group_built rt w) (rt_groups rt) gs"
  shows "implements rt (Router_with_groups (rt_rules rt) (rt_default_action rt) gs) w"
  unfolding implements_def groups_with_groups
proof (intro conjI allI impI)
  show "dom (map_of (rev gs)) = rg_id ` set (rt_groups rt)"
    unfolding dom_map_of_conv_image_fst
    using assms by (induction rule: list_all2_induct) (auto simp: group_built_def)
  show "\<exists>g \<in> set (rt_groups rt). rg_id g = gid \<and>
      list_all2 (\<lambda>m r. \<exists>u \<in> set (rt_upstreams rt). ru_id u = m \<and> upstream_of w u r) (rg_members g) (members ug)"
    if "map_of (rev gs) gid = Some ug" for gid ug
  proof -
    have "(gid, ug) \<in> set gs" using map_of_SomeD [OF that] by simp
    from list_all2_setD2 [OF assms this] show ?thesis by (auto simp: group_built_def)
  qed
qed (simp_all add: Router_with_groups_def)

lemma check_rules_closed:
  assumes "closed_runtime rt"
  shows "traverse_result (check_rule_group (map rg_id (rt_groups rt))) (rt_rules rt) = Ok (rt_rules rt)"
  unfolding traverse_result_Ok list_all2_same
proof
  fix r assume "r \<in> set (rt_rules rt)"
  with assms show "check_rule_group (map rg_id (rt_groups rt)) r = Ok r"
    by (cases "rule_action r") (simp_all add: check_rule_group_def closed_runtime_def)
qed

lemma snapshot_of_closed:
  assumes closed: "closed_runtime rt"
    and live: "\<And>p. previous = Some p \<Longrightarrow> live w (snap_upstreams p)"
  shows "\<exists>snap w'. compile_runtime_snapshot seed rt previous w = (Ok snap, w') \<and> extends w w' \<and>
    live w' (snap_upstreams snap) \<and> implements rt (snap_router snap) w'"
proof -
  let ?prev = "case previous of Some p \<Rightarrow> snap_upstreams p | None \<Rightarrow> []"
  obtain ups w1 where build: "build_upstreams ?prev (rt_upstreams rt) [] w = (ups, w1)" by fastforce
  have prev: "live w ?prev" using live by (cases previous) (simp_all add: live_def)
  have spec: "extends w w1" "live w1 ups"
    "\<And>u. u \<in> set (rt_upstreams rt) \<Longrightarrow> \<exists>r. map_of ups (ru_id u) = Some r \<and> upstream_of w1 u r"
    using build_upstreams_spec [OF build prev] closed by (auto simp: closed_runtime_def live_def)
  obtain gs where gs: "traverse_result (build_group ups) (rt_groups rt) = Ok gs" "list_all2 (group_built rt w1) (rt_groups rt) gs"
    using traverse_result_choice [of "rt_groups rt" "build_group ups" "group_built rt w1"]
      build_group_closed [OF closed _ spec(3)] by blast
  let ?w = "install_schedulers seed (rt_groups rt) w1"
  have w: "extends w1 ?w" by (simp add: extends_def install_schedulers_def)
  note keep = extends_trans [OF spec(1) w] live_evolves [OF spec(2) extends_evolves [OF w]]
    implements_evolves [OF implements_with_groups [OF gs(2)] extends_evolves [OF w]]
  show ?thesis
    unfolding compile_runtime_snapshot_def build
    using keep by (simp add: gs(1) check_rules_closed [OF closed])
qed

subsection \<open>Running supervisors\<close>

text \<open>
  Every state the supervisor can be in, with the configuration file that was last put to use: started from
  a file, worked with (routes, leases and health probes change the world), or asked to reload, when files,
  environment and regular expressions may have changed in between.
\<close>

definition update_world :: "'r runtime_world \<Rightarrow> ('re, 'net, 'r) service_supervisor \<Rightarrow> ('re, 'net, 'r) service_supervisor" where
  "update_world w s = s\<lparr>sup_state := (sup_state s)\<lparr>rst_world := w\<rparr>\<rparr>"

inductive supervised :: "config_file \<Rightarrow> ('re, 'net, 'r) service_supervisor \<Rightarrow> bool" where
  started: "load_config_file env path = Ok contents \<Longrightarrow> checked_config env from_toml contents = Ok config \<Longrightarrow>
    ServiceSupervisor_start env from_toml reverse operations seed path w = Ok s \<Longrightarrow> supervised config s"
| worked: "supervised config s \<Longrightarrow> evolves (rst_world (sup_state s)) w' \<Longrightarrow> supervised config (update_world w' s)"
| reloaded: "supervised config s \<Longrightarrow> reload_config env from_toml seed s = (Reload_Applied gen n, s') \<Longrightarrow>
    sup_config_path s = Some path \<Longrightarrow> load_config_file env path = Ok contents \<Longrightarrow>
    checked_config env from_toml contents = Ok config' \<Longrightarrow> supervised config' s'"
| refused: "supervised config s \<Longrightarrow> reload_config env from_toml seed s = (result, s') \<Longrightarrow>
    (\<And>gen n. result \<noteq> Reload_Applied gen n) \<Longrightarrow> supervised config s'"

lemma checked_config_Ok:
  assumes "checked_config env from_toml contents = Ok config"
  shows "validate_config env config = Ok ()"
proof -
  from assms obtain c where c: "(case cf_version c of
      Some v \<Rightarrow> if v \<noteq> 1 then Err (UnsupportedVersion v)
        else map_sum (\<lambda>es. Validation ''config'' (join_str ''; '' (map ConfigError_fmt es))) (\<lambda>_. c) (validate_config env c)
    | None \<Rightarrow> map_sum (\<lambda>es. Validation ''config'' (join_str ''; '' (map ConfigError_fmt es))) (\<lambda>_. c) (validate_config env c))
      = Ok config"
    unfolding checked_config_def try_bind_Ok_iff by blast
  show ?thesis
  proof (cases "cf_version c")
    case None
    with c show ?thesis by simp
  next
    case (Some v)
    with c show ?thesis by (cases "v = 1") simp_all
  qed
qed

text \<open>The invariant: the router in use implements the configuration in use, which compiles the file.\<close>

definition consistent :: "config_file \<Rightarrow> ('re, 'net, 'r) service_supervisor \<Rightarrow> bool" where
  "consistent config s \<longleftrightarrow>
    (let st = sup_state s in
     (\<exists>env. validate_config env config = Ok () \<and> compile_config env config = Ok (sup_config s)) \<and>
     live (rst_world st) (snap_upstreams (rst_snapshot st)) \<and>
     rst_admin_snapshot st = rst_snapshot st \<and>
     service_router (rst_service st) = snap_router (rst_snapshot st) \<and>
     implements (sup_config s) (snap_router (rst_snapshot st)) (rst_world st))"

lemma consistent_update_world:
  "consistent config s \<Longrightarrow> evolves (rst_world (sup_state s)) w' \<Longrightarrow> consistent config (update_world w' s)"
  using live_evolves implements_evolves by (fastforce simp: consistent_def Let_def update_world_def)

lemma start_consistent:
  assumes "load_config_file env path = Ok contents" "checked_config env from_toml contents = Ok config"
    "ServiceSupervisor_start env from_toml reverse operations seed path w = Ok s"
  shows "consistent config s"
proof -
  obtain rt where rt: "compile_config env config = Ok rt" and init: "init_supervisor reverse operations seed rt (Some path) w = Ok s"
    using assms by (auto simp: ServiceSupervisor_start_def load_and_validate_with_warnings_def try_bind_Ok_iff
        validate_and_compile_toml_with_warnings_def)
  note v = checked_config_Ok [OF assms(2)]
  obtain snap w' where snap: "compile_runtime_snapshot seed rt None w = (Ok snap, w')" "live w' (snap_upstreams snap)"
    "implements rt (snap_router snap) w'"
    using snapshot_of_closed [OF accepted_closed [OF v rt], where previous = None] by fastforce
  with init v rt show ?thesis
    by (auto simp: init_supervisor_def try_bind_Ok_iff consistent_def SharedRoutingService_new_def)
qed

lemma load_and_validate_Ok:
  assumes "load_and_validate env from_toml path = Ok rt"
  shows "\<exists>contents config. load_config_file env path = Ok contents \<and> checked_config env from_toml contents = Ok config \<and>
    validate_config env config = Ok () \<and> compile_config env config = Ok rt"
  using assms checked_config_Ok
  by (fastforce simp: load_and_validate_def validate_and_compile_toml_def try_bind_Ok_iff)

text \<open>What the published state is after a reload that was applied, and what a refused one leaves.\<close>

definition published ::
  "('re, 'net) compiled_snapshot \<Rightarrow> 'r runtime_world \<Rightarrow> ('re, 'net, 'r) runtime_state \<Rightarrow> ('re, 'net, 'r) runtime_state" where
  "published snap w st =
    st\<lparr>rst_snapshot := snap, rst_service := \<lparr>service_router = snap_router snap\<rparr>, rst_admin_snapshot := snap,
       rst_world := w, rst_effects := rst_effects st @ [Effect_Probes_Restarted (map snd (snap_upstreams snap)),
         Effect_H2_Pools_Cleared, Effect_Generation_Set (snap_generation snap), Effect_Reload_Recorded True]\<rparr>"

lemma apply_compiled_closed:
  assumes "closed_runtime rt" "live (rst_world st) (snap_upstreams (rst_snapshot st))"
    "classify_reload_config (snap_listeners (rst_snapshot st)) (snap_timeouts (rst_snapshot st)) (snap_admin (rst_snapshot st)) rt = Ok ()"
  shows "\<exists>snap w'. compile_runtime_snapshot seed rt (Some (rst_snapshot st)) (rst_world st) = (Ok snap, w') \<and>
    extends (rst_world st) w' \<and> live w' (snap_upstreams snap) \<and> implements rt (snap_router snap) w' \<and>
    apply_compiled_config seed rt st = (Reload_Applied (snap_generation snap) (length (snap_upstreams snap)), published snap w' st)"
proof -
  obtain snap w' where "compile_runtime_snapshot seed rt (Some (rst_snapshot st)) (rst_world st) = (Ok snap, w')"
    "extends (rst_world st) w'" "live w' (snap_upstreams snap)" "implements rt (snap_router snap) w'"
    using snapshot_of_closed [OF assms(1), of "Some (rst_snapshot st)" "rst_world st" seed] assms(2) by auto
  then show ?thesis
    using assms(3) by (intro exI [of _ snap] exI [of _ w'])
      (simp add: apply_compiled_config_def published_def Let_def record_effects_def restart_health_probes_def service_swap_def)
qed

lemma apply_compiled_refused:
  assumes "classify_reload_config (snap_listeners (rst_snapshot st)) (snap_timeouts (rst_snapshot st)) (snap_admin (rst_snapshot st)) rt = Err reason"
  shows "apply_compiled_config seed rt st = (Reload_Rejected reason, record_effects [Effect_Reload_Recorded False] st)"
  using assms by (simp add: apply_compiled_config_def Let_def)

text \<open>The whole reload, on a state whose snapshot is live.\<close>

lemma reload_config_cases:
  assumes "reload_config env from_toml seed s = (result, s')"
    "live (rst_world (sup_state s)) (snap_upstreams (rst_snapshot (sup_state s)))"
  obtains
    (refused) "\<And>gen n. result \<noteq> Reload_Applied gen n"
      "s' = s \<or> s' = s\<lparr>sup_state := record_effects [Effect_Reload_Recorded False] (sup_state s)\<rparr>"
  | (applied) path contents config rt snap w' where "sup_config_path s = Some path" "load_config_file env path = Ok contents"
      "checked_config env from_toml contents = Ok config" "validate_config env config = Ok ()" "compile_config env config = Ok rt"
      "classify_reload_config (snap_listeners (rst_snapshot (sup_state s))) (snap_timeouts (rst_snapshot (sup_state s)))
         (snap_admin (rst_snapshot (sup_state s))) rt = Ok ()"
      "compile_runtime_snapshot seed rt (Some (rst_snapshot (sup_state s))) (rst_world (sup_state s)) = (Ok snap, w')"
      "extends (rst_world (sup_state s)) w'" "live w' (snap_upstreams snap)" "implements rt (snap_router snap) w'"
      "result = Reload_Applied (snap_generation snap) (length (snap_upstreams snap))"
      "s' = s\<lparr>sup_config := rt, sup_state := published snap w' (sup_state s)\<rparr>"
proof (cases "sup_config_path s")
  case None
  with assms(1) show ?thesis by (intro refused) (auto simp: reload_config_def)
next
  case (Some path)
  show ?thesis
  proof (cases "load_and_validate env from_toml path")
    case (Inl e)
    with assms(1) Some show ?thesis by (intro refused) (auto simp: reload_config_def)
  next
    case (Inr rt)
    from load_and_validate_Ok [OF Inr] obtain contents config where loaded: "load_config_file env path = Ok contents"
      "checked_config env from_toml contents = Ok config" "validate_config env config = Ok ()" "compile_config env config = Ok rt"
      by blast
    show ?thesis
    proof (cases "classify_reload_config (snap_listeners (rst_snapshot (sup_state s))) (snap_timeouts (rst_snapshot (sup_state s)))
         (snap_admin (rst_snapshot (sup_state s))) rt")
      case (Inl reason)
      from apply_compiled_refused [OF this] assms(1) Some Inr show ?thesis
        by (intro refused) (auto simp: reload_config_def)
    next
      case ok: (Inr u)
      from apply_compiled_closed [OF accepted_closed [OF loaded(3,4)] assms(2), of seed] ok obtain snap w' where
        snap: "compile_runtime_snapshot seed rt (Some (rst_snapshot (sup_state s))) (rst_world (sup_state s)) = (Ok snap, w')"
        "extends (rst_world (sup_state s)) w'" "live w' (snap_upstreams snap)" "implements rt (snap_router snap) w'"
        "apply_compiled_config seed rt (sup_state s) =
          (Reload_Applied (snap_generation snap) (length (snap_upstreams snap)), published snap w' (sup_state s))" by auto
      with assms(1) Some Inr show ?thesis
        by (intro applied [OF Some loaded _ snap(1-4)]) (auto simp: reload_config_def ok)
    qed
  qed
qed

lemma supervised_consistent: "supervised config s \<Longrightarrow> consistent config s"
proof (induction rule: supervised.induct)
  case (started env path contents from_toml config reverse operations seed w s)
  then show ?case by (rule start_consistent)
next
  case (worked config s w')
  then show ?case by (blast intro: consistent_update_world)
next
  case (reloaded config s env from_toml seed gen n s' path contents config')
  from reloaded.IH have live: "live (rst_world (sup_state s)) (snap_upstreams (rst_snapshot (sup_state s)))"
    by (simp add: consistent_def Let_def)
  from reloaded.hyps(2) live show ?case
  proof (cases rule: reload_config_cases)
    case (applied path2 contents2 config2 rt snap w')
    with reloaded.hyps(3-5) have "config' = config2" by simp
    with applied show ?thesis by (auto simp: consistent_def published_def)
  qed blast
next
  case (refused config s env from_toml seed result s')
  from refused.IH have live: "live (rst_world (sup_state s)) (snap_upstreams (rst_snapshot (sup_state s)))"
    by (simp add: consistent_def Let_def)
  from refused.hyps(2) live show ?case
  proof (cases rule: reload_config_cases)
    case refused
    with \<open>consistent config s\<close> show ?thesis by (auto simp: consistent_def record_effects_def Let_def)
  qed (use refused.hyps(3) in auto)
qed

subsection \<open>What the running program does to its world\<close>

lemma service_route_evolves:
  assumes "service_route is_match cidr_contains index svc request (rw_routing w) = (res, routing)"
  shows "evolves w (w\<lparr>rw_routing := routing\<rparr>)"
  using assms
  by (auto simp: service_route_def Router_select_def take_lease_def PendingLease_new_def in_flight_inc_def update_up_def
      evolves_def Let_def split: route_decision.splits option.splits if_splits prod.splits group_fallback.splits)

lemma heap_step_evolves:
  assumes "\<And>r. up_id (h r) = up_id (up_at w r) \<and> up_chain (h r) = up_chain (up_at w r) \<and>
    up_health_config (h r) = up_health_config (up_at w r)"
  shows "evolves w (w\<lparr>rw_routing := (rw_routing w)\<lparr>w_heap := h\<rparr>\<rparr>)"
  using assms by (simp add: evolves_def)

lemma lease_steps_evolve:
  "evolves w (w\<lparr>rw_routing := (rw_routing w)\<lparr>w_heap := PendingLease_drop pending (up_at w)\<rparr>\<rparr>)"
  "evolves w (w\<lparr>rw_routing := (rw_routing w)\<lparr>w_heap := snd (established pending (up_at w))\<rparr>\<rparr>)"
  "evolves w (w\<lparr>rw_routing := (rw_routing w)\<lparr>w_heap := ActiveLease_drop lease (up_at w)\<rparr>\<rparr>)"
  by (rule heap_step_evolves, simp add: PendingLease_drop_def established_defs ActiveLease_drop_def counter_defs Let_def)+

lemma health_steps_evolve:
  "evolves w (w\<lparr>rw_routing := (rw_routing w)\<lparr>w_heap := update_up r (\<lambda>u. u\<lparr>health := cell\<rparr>) (up_at w)\<rparr>\<rparr>)"
  "evolves w (w\<lparr>rw_routing := (rw_routing w)\<lparr>w_heap := update_up r (\<lambda>u. u\<lparr>enabled := b\<rparr>) (up_at w)\<rparr>\<rparr>)"
  by (rule heap_step_evolves, simp add: update_up_def)+

lemma decided_group_known:
  assumes "implements rt router w" "closed_runtime rt" "decide is_match cidr_contains router request = Decision_UpstreamGroup rule gid"
  shows "\<exists>ug. groups router gid = Some ug"
proof -
  have "decide_rules is_match cidr_contains rs act request = Decision_UpstreamGroup rule gid \<Longrightarrow>
      act = Action_UpstreamGroup gid \<or> (\<exists>r \<in> set rs. rule_action r = Action_UpstreamGroup gid)" for rs act
    by (induction rs) (auto split: if_splits elim: action_decision.elims)
  from this [of "rt_rules rt" "rt_default_action rt"] assms have "gid \<in> rg_id ` set (rt_groups rt)"
    by (auto simp: decide_def implements_def closed_runtime_def)
  with assms(1) show ?thesis by (auto simp: implements_def)
qed

lemma implements_member:
  assumes "implements rt router w" "groups router gid = Some ug" "r \<in> set (members ug)"
  shows "\<exists>g \<in> set (rt_groups rt). \<exists>u \<in> set (rt_upstreams rt). rg_id g = gid \<and> ru_id u \<in> set (rg_members g) \<and> upstream_of w u r"
proof -
  obtain g where g: "g \<in> set (rt_groups rt)" "rg_id g = gid"
    "list_all2 (\<lambda>m r. \<exists>u \<in> set (rt_upstreams rt). ru_id u = m \<and> upstream_of w u r) (rg_members g) (members ug)"
    using assms(1,2) unfolding implements_def by blast
  from list_all2_setD2 [OF g(3) assms(3)] g(1,2) show ?thesis by blast
qed

text \<open>What a result of routing may be under a configuration file.\<close>

definition configured_route :: "config_file \<Rightarrow> route_error + selected_route \<Rightarrow> bool" where
  "configured_route config res \<longleftrightarrow>
    (case res of
       Inl (UnknownGroup _) \<Rightarrow> False
     | Inr (Selected_Upstream d gid uid chain lease reason) \<Rightarrow>
         (\<exists>g \<in> set (or_default (cf_upstream_groups config) []). \<exists>u \<in> set (or_default (cf_upstreams config) []).
            gc_id g = gid \<and> uid \<in> set (gc_members g) \<and> uc_id u = uid \<and> parse_proxy_chain (uc_uri u) = Ok chain)
     | _ \<Rightarrow> True)"

lemma compiled_member_configured:
  assumes c: "compile_config env config = Ok rt" and g: "g \<in> set (rt_groups rt)" and u: "u \<in> set (rt_upstreams rt)"
  shows "(\<exists>g0 \<in> set (or_default (cf_upstream_groups config) []). gc_id g0 = rg_id g \<and> gc_members g0 = rg_members g) \<and>
    (\<exists>u0 \<in> set (or_default (cf_upstreams config) []). uc_id u0 = ru_id u \<and> parse_proxy_chain (uc_uri u0) = Ok (ru_chain u))"
proof -
  obtain g0 where "g0 \<in> set (or_default (cf_upstream_groups config) [])" "compile_group g0 = Ok g"
    using list_all2_setD2 [OF compile_groups_Ok [OF compile_config_Ok(2) [OF c]] g] by blast
  moreover obtain u0 where "u0 \<in> set (or_default (cf_upstreams config) [])" "compile_upstream env u0 = Ok u"
    using list_all2_setD2 [OF compile_upstreams_Ok [OF compile_config_Ok(1) [OF c]] u] by blast
  ultimately show ?thesis using compile_group_Ok compile_upstream_Ok by metis
qed

text \<open>
  C5: in every state a supervisor can get into, started from a file and then worked with and reloaded any
  number of times, with reloads failing or not, routing follows the file that was last put to use. It never
  ends in an unknown group, and an upstream it selects is a member of the decided group in that file, with
  the chain that the upstream's URI in that file parses to.
\<close>

theorem supervised_routes_configured:
  assumes "supervised config s" "random_source index usable" "world_ok usable (rw_routing (rst_world (sup_state s)))"
  shows "configured_route config
    (fst (service_route is_match cidr_contains index (rst_service (sup_state s)) request (rw_routing (rst_world (sup_state s)))))"
proof -
  let ?router = "service_router (rst_service (sup_state s))" and ?w = "rst_world (sup_state s)"
  from supervised_consistent [OF assms(1)] obtain env where
    c: "validate_config env config = Ok ()" "compile_config env config = Ok (sup_config s)" and
    impl: "implements (sup_config s) ?router ?w"
    by (auto simp: consistent_def Let_def)
  have sr: "service_route is_match cidr_contains index (rst_service (sup_state s)) request (rw_routing ?w) =
      route is_match cidr_contains index ?router request (rw_routing ?w)"
    by (simp add: service_route_def route_def Let_def)
  show ?thesis
  proof (cases "decide is_match cidr_contains ?router request")
    case (Decision_UpstreamGroup rule gid)
    from decided_group_known [OF impl accepted_closed [OF c] Decision_UpstreamGroup] obtain ug
      where ug: "groups ?router gid = Some ug" by blast
    have "configured_route config (Ok (Selected_Upstream d gid (up_id (up_at ?w r)) (up_chain (up_at ?w r)) lease reason))"
      if "r \<in> set (members ug)" for d r lease reason
    proof -
      from implements_member [OF impl ug that] obtain g u where gu: "g \<in> set (rt_groups (sup_config s))"
        "u \<in> set (rt_upstreams (sup_config s))" "rg_id g = gid" "ru_id u \<in> set (rg_members g)" "upstream_of ?w u r" by blast
      from compiled_member_configured [OF c(2) gu(1,2)] gu(3-5) show ?thesis
        by (auto simp: configured_route_def upstream_of_def)
    qed
    with route_group [OF assms(2,3) Decision_UpstreamGroup ug] show ?thesis
      unfolding sr
      by (auto simp: group_contract_def selected_from_def configured_route_def split: if_splits group_fallback.splits)
  qed (simp_all add: sr route_simps configured_route_def)
qed

text \<open>The sample configuration, started from a file in a world without objects.\<close>

definition empty_world :: "deterministic_random runtime_world" where
  "empty_world = \<lparr>rw_routing = sample_world Kind_RoundRobin, rw_next = 0\<rparr>"

definition sample_seed :: "group_id \<Rightarrow> deterministic_random" where
  "sample_seed = (\<lambda>_. DeterministicRandom_new [7])"

definition sample_snapshot :: "(string, string) compiled_snapshot" where
  "sample_snapshot =
    \<lparr>snap_generation = 0, snap_upstreams = [(''up'', 0)],
     snap_router = Router_with_groups [] (Action_UpstreamGroup ''g'')
       [(''g'', \<lparr>grp_id = ''g'', scheduler_kind = Kind_RoundRobin, members = [0], fallback = Fallback_Reject\<rparr>)],
     snap_timeouts = TimeoutConfig_default, snap_listeners = [], snap_admin = Some sample_admin,
     snap_reverse_servers = [], snap_reverse_clients = []\<rparr>"

definition sample_started :: "(string, string, deterministic_random) service_supervisor" where
  "sample_started =
    \<lparr>sup_config_path = Some ''eggress.toml'', sup_config = sample_runtime,
     sup_state = \<lparr>rst_snapshot = sample_snapshot, rst_service = SharedRoutingService_new (snap_router sample_snapshot),
       rst_admin_snapshot = sample_snapshot,
       rst_world = install_schedulers sample_seed (rt_groups sample_runtime)
         (snd (alloc_upstream (build_one_upstream_runtime (hd (rt_upstreams sample_runtime))) empty_world)),
       rst_udp_global_limit = 1024, rst_effects = []\<rparr>\<rparr>"

lemma sample_loaded: "load_config_file plain_env path = Ok []"
  by (simp add: load_config_file_def load_bounded_text_file_def plain_env_def from_utf8_def str_of_bytes_def)

lemma sample_checked: "checked_config plain_env (\<lambda>_. Ok sample_config) [] = Ok sample_config"
  using sample_config_accepted by (simp add: checked_config_def) (simp add: sample_config_def)

lemma sample_start:
  "ServiceSupervisor_start plain_env (\<lambda>_. Ok sample_config) True True sample_seed ''eggress.toml'' empty_world = Ok sample_started"
proof -
  have "init_supervisor True True sample_seed sample_runtime (Some ''eggress.toml'') empty_world = Ok sample_started"
    by (simp add: init_supervisor_def validate_startup_config_def compile_runtime_snapshot_def build_group_def
        reuse_or_build_def alloc_upstream_def resolve_udp_global_limit_def next_generation_def empty_world_def
        sample_runtime_def sample_started_def sample_snapshot_def)
  then show ?thesis
    by (simp add: ServiceSupervisor_start_def load_and_validate_with_warnings_def sample_loaded
        validate_and_compile_toml_with_warnings_def sample_checked sample_config_compiled)
qed

lemma sample_supervised: "supervised sample_config sample_started"
  by (rule supervised.started [OF sample_loaded sample_checked sample_start])

lemma sample_started_ok: "world_ok (\<lambda>d. det_values d \<noteq> []) (rw_routing (rst_world (sup_state sample_started)))"
  by (simp add: world_ok_def sample_started_def install_schedulers_def alloc_upstream_def empty_world_def sample_world_def
      sample_runtime_def sample_seed_def resolve_scheduler_def scheduler_ok_def DeterministicRandom_new_def)

theorem supervised_routes_configured_witness:
  "configured_route sample_config
    (fst (service_route (=) (\<lambda>_ _. False) DeterministicRandom_index (rst_service (sup_state sample_started)) sample_request
      (rw_routing (rst_world (sup_state sample_started)))))"
  by (rule supervised_routes_configured [OF sample_supervised det.random_source_axioms sample_started_ok])

subsection \<open>What a reload may change\<close>

text \<open>
  A listener as it runs: a transparent section that is present and disabled does nothing. The listener runs
  from what it was started with, so a reload must not change this.
\<close>

definition effective_transparent :: "compiled_transparent option \<Rightarrow> compiled_transparent option" where
  "effective_transparent t = (case t of Some c \<Rightarrow> if ct_enabled c then Some c else None | None \<Rightarrow> None)"

definition effective_listener :: "rtc_listener \<Rightarrow> rtc_listener" where
  "effective_listener l = l\<lparr>rl_transparent := effective_transparent (rl_transparent l)\<rparr>"

lemma classify_udp_Ok: "classify_udp n n' a b = Ok () \<longleftrightarrow> a = b"
  by (cases a; cases b) (auto simp: classify_udp_def)

lemma classify_unix_Ok: "classify_unix n n' a b = Ok () \<longleftrightarrow> a = b"
  by (cases a; cases b) (auto simp: classify_unix_def)

lemma classify_material_Ok:
  "(\<And>x y. same x y \<longleftrightarrow> x = y) \<Longrightarrow> classify_material p m same n a b = Ok () \<longleftrightarrow> a = b"
  by (cases a; cases b) (auto simp: classify_material_def)

lemma classify_groups_Ok:
  "classify_auth n a a' = Ok () \<longleftrightarrow> a = a'" "classify_tls n t t' = Ok () \<longleftrightarrow> t = t'"
  "classify_shadowsocks n s s' = Ok () \<longleftrightarrow> s = s'" "classify_trojan n j j' = Ok () \<longleftrightarrow> j = j'"
  unfolding classify_auth_def classify_tls_def classify_shadowsocks_def classify_trojan_def
  by (rule classify_material_Ok; auto)+

lemma classify_transparent_Ok:
  "classify_transparent n n' a b = Ok () \<Longrightarrow> effective_transparent a = effective_transparent b"
  by (cases a; cases b) (auto simp: classify_transparent_def effective_transparent_def split: if_splits)

lemma classify_listener_Ok:
  assumes "classify_listener old new = Ok ()"
  shows "effective_listener old = effective_listener new"
  using assms classify_transparent_Ok [of "rl_name old" "rl_name new" "rl_transparent old" "rl_transparent new"]
  by (auto simp: classify_listener_def try_bind_Ok_iff classify_udp_Ok classify_unix_Ok classify_groups_Ok
      effective_listener_def split: if_splits)

lemma classify_pairs_Ok:
  "length olds = length news \<Longrightarrow> classify_pairs (zip olds news) = Ok () \<Longrightarrow>
    map effective_listener olds = map effective_listener news"
  by (induction rule: list_induct2) (auto simp: try_bind_Ok_iff dest: classify_listener_Ok)

lemma classify_reload_config_Ok:
  assumes "classify_reload_config olds timeouts admin rt = Ok ()"
  shows "map effective_listener olds = map effective_listener (rt_listeners rt)" "timeouts = rt_timeouts rt"
    "admin_endpoint admin = admin_endpoint (rt_admin rt)"
  using assms
  by (auto simp: classify_reload_config_def classify_listeners_def try_bind_Ok_iff split: if_splits intro: classify_pairs_Ok)

lemma snapshot_fields:
  assumes "compile_runtime_snapshot seed rt (Some p) w = (Ok snap, w')" "live w (snap_upstreams p)" "distinct (map ru_id (rt_upstreams rt))"
  shows "snap_generation snap = next_generation (Some (snap_generation p))" "snap_listeners snap = rt_listeners rt"
    "snap_timeouts snap = rt_timeouts rt" "snap_admin snap = rt_admin rt"
    "\<And>u r. u \<in> set (rt_upstreams rt) \<Longrightarrow> map_of (snap_upstreams p) (ru_id u) = Some r \<Longrightarrow>
      upstream_runtime_compatible (up_at w r) u \<Longrightarrow> map_of (snap_upstreams snap) (ru_id u) = Some r"
proof -
  obtain ups w1 where build: "build_upstreams (snap_upstreams p) (rt_upstreams rt) [] w = (ups, w1)" by fastforce
  with assms(1) show "snap_generation snap = next_generation (Some (snap_generation p))" "snap_listeners snap = rt_listeners rt"
    "snap_timeouts snap = rt_timeouts rt" "snap_admin snap = rt_admin rt"
    by (auto simp: compile_runtime_snapshot_def split: sum.splits)
  have ups: "snap_upstreams snap = ups"
    using assms(1) build by (auto simp: compile_runtime_snapshot_def split: sum.splits)
  have "live w []" by (simp add: live_def)
  from build_upstreams_spec [OF build assms(2) this assms(3)]
  show "map_of (snap_upstreams snap) (ru_id u) = Some r"
    if "u \<in> set (rt_upstreams rt)" "map_of (snap_upstreams p) (ru_id u) = Some r" "upstream_runtime_compatible (up_at w r) u" for u r
    using that unfolding ups by fastforce
qed

text \<open>A reload that is applied: the new state carries the new configuration, and what may not change has not.\<close>

definition reload_applied ::
  "('re, 'net) runtime_config \<Rightarrow> u64 \<Rightarrow> nat \<Rightarrow> ('re, 'net, 'r) service_supervisor \<Rightarrow> ('re, 'net, 'r) service_supervisor \<Rightarrow> bool" where
  "reload_applied rt gen n s s' \<longleftrightarrow>
    (let st = sup_state s; st' = sup_state s'; old = rst_snapshot st; snap = rst_snapshot st' in
     sup_config s' = rt \<and> gen = next_generation (Some (snap_generation old)) \<and> snap_generation snap = gen \<and>
     n = length (snap_upstreams snap) \<and>
     rules (snap_router snap) = rt_rules rt \<and> default_action (snap_router snap) = rt_default_action rt \<and>
     dom (groups (snap_router snap)) = rg_id ` set (rt_groups rt) \<and>
     rst_service st' = \<lparr>service_router = snap_router snap\<rparr> \<and> rst_admin_snapshot st' = snap \<and>
     map effective_listener (snap_listeners snap) = map effective_listener (snap_listeners old) \<and>
     snap_timeouts snap = snap_timeouts old \<and> admin_endpoint (snap_admin snap) = admin_endpoint (snap_admin old) \<and>
     (\<forall>r < rw_next (rst_world st). up_at (rst_world st') r = up_at (rst_world st) r) \<and>
     (\<forall>u \<in> set (rt_upstreams rt). \<forall>r. map_of (snap_upstreams old) (ru_id u) = Some r \<longrightarrow>
        upstream_runtime_compatible (up_at (rst_world st) r) u \<longrightarrow> map_of (snap_upstreams snap) (ru_id u) = Some r))"

lemma applied_reload_applied:
  assumes "live (rst_world (sup_state s)) (snap_upstreams (rst_snapshot (sup_state s)))" "closed_runtime rt"
    "classify_reload_config (snap_listeners (rst_snapshot (sup_state s))) (snap_timeouts (rst_snapshot (sup_state s)))
         (snap_admin (rst_snapshot (sup_state s))) rt = Ok ()"
    "compile_runtime_snapshot seed rt (Some (rst_snapshot (sup_state s))) (rst_world (sup_state s)) = (Ok snap, w')"
    "extends (rst_world (sup_state s)) w'" "implements rt (snap_router snap) w'"
  shows "reload_applied rt (snap_generation snap) (length (snap_upstreams snap)) s
    (s\<lparr>sup_config := rt, sup_state := published snap w' (sup_state s)\<rparr>)"
proof -
  have d: "distinct (map ru_id (rt_upstreams rt))" using assms(2) by (simp add: closed_runtime_def)
  note f = snapshot_fields [OF assms(4,1) d]
  show ?thesis
    using assms(5,6) classify_reload_config_Ok [OF assms(3)] f
    by (simp add: reload_applied_def Let_def published_def extends_def implements_def)
qed

text \<open>
  C6: a reload is all or nothing. From every state the supervisor can be in: if the reload is applied, the
  file loaded and compiled, the generation moved on by one (and stays at the largest number), router,
  snapshot and admin view are those of the new configuration, the running listeners, the timeouts and the
  admin endpoint are what they were, existing upstream objects are untouched, and an upstream whose chain
  and health configuration did not change is still the same object with its counters and health. In every
  other case nothing has changed but the record of a failed reload.
\<close>

theorem reload_all_or_nothing:
  assumes "supervised config s"
  shows "case reload_config env from_toml seed s of (result, s') \<Rightarrow>
    (case result of
       Reload_Applied gen n \<Rightarrow>
         (\<exists>path rt. sup_config_path s = Some path \<and> load_and_validate env from_toml path = Ok rt \<and> reload_applied rt gen n s s')
     | _ \<Rightarrow> s' = s \<or> s' = s\<lparr>sup_state := record_effects [Effect_Reload_Recorded False] (sup_state s)\<rparr>)"
proof -
  obtain result s' where rel: "reload_config env from_toml seed s = (result, s')" by fastforce
  have live: "live (rst_world (sup_state s)) (snap_upstreams (rst_snapshot (sup_state s)))"
    using supervised_consistent [OF assms] by (simp add: consistent_def Let_def)
  from rel live show ?thesis
  proof (cases rule: reload_config_cases)
    case refused
    with rel show ?thesis by (cases result) auto
  next
    case (applied path contents config' rt snap w')
    have "load_and_validate env from_toml path = Ok rt"
      using applied by (simp add: load_and_validate_def validate_and_compile_toml_def)
    moreover have "reload_applied rt (snap_generation snap) (length (snap_upstreams snap)) s s'"
      unfolding applied(12)
      by (rule applied_reload_applied [OF live accepted_closed [OF applied(4,5)] applied(6-8,10)])
    ultimately show ?thesis using rel applied(1,11) by simp
  qed
qed

lemma sample_reload: "\<exists>s'. reload_config plain_env (\<lambda>_. Ok sample_config) sample_seed sample_started = (Reload_Applied 1 1, s')"
proof -
  have "load_and_validate plain_env (\<lambda>_. Ok sample_config) path = Ok sample_runtime" for path
    by (simp add: load_and_validate_def sample_loaded validate_and_compile_toml_def sample_checked sample_config_compiled)
  then show ?thesis
    by (simp add: reload_config_def apply_compiled_config_def classify_reload_config_def classify_listeners_def
        compile_runtime_snapshot_def build_group_def reuse_or_build_def alloc_upstream_def install_schedulers_def
        upstream_runtime_compatible_def next_generation_def sample_started_def sample_snapshot_def sample_runtime_def
        empty_world_def Let_def)
qed

theorem reload_all_or_nothing_witness:
  "\<exists>s' rt. reload_config plain_env (\<lambda>_. Ok sample_config) sample_seed sample_started = (Reload_Applied 1 1, s') \<and>
    reload_applied rt 1 1 sample_started s'"
  using sample_reload reload_all_or_nothing [OF sample_supervised, of plain_env "\<lambda>_. Ok sample_config" sample_seed] by (auto, blast)

subsection \<open>What a compiled configuration satisfies\<close>

lemma compile_health_thresholds:
  "compile_health_config env toml = Ok hc \<Longrightarrow> failures_to_unhealthy hc \<noteq> 0 \<and> successes_to_healthy hc \<noteq> 0"
  by (auto simp: compile_health_config_def HealthConfig_default_def try_bind_Ok_iff Let_def split: option.splits if_splits)

lemma compile_upstream_health:
  "compile_upstream env u = Ok u' \<Longrightarrow> failures_to_unhealthy (ru_health u') \<noteq> 0 \<and> successes_to_healthy (ru_health u') \<noteq> 0"
  by (auto simp: compile_upstream_def Let_def try_bind_Ok_iff map_err_def split: sum.splits dest!: compile_health_thresholds)

lemma compiled_upstream_health:
  assumes "compile_config env config = Ok rt" "u \<in> set (rt_upstreams rt)"
  shows "failures_to_unhealthy (ru_health u) \<noteq> 0 \<and> successes_to_healthy (ru_health u) \<noteq> 0"
  using list_all2_setD2 [OF compile_upstreams_Ok [OF compile_config_Ok(1) [OF assms(1)]] assms(2)] compile_upstream_health by blast

text \<open>
  C14: A configuration file that passes validation and compiles gives a well-typed runtime configuration: upstream and
  group identifiers are unique, a group has members and all of them are configured upstreams, every
  rule and the default action that name a group name a configured one, and no health threshold is zero. The
  router and the health tracking rely on exactly this.
\<close>

theorem accepted_config_typed:
  assumes "validate_config env config = Ok ()" "compile_config env config = Ok rt"
  shows "distinct (map ru_id (rt_upstreams rt)) \<and> distinct (map rg_id (rt_groups rt)) \<and>
    (\<forall>g \<in> set (rt_groups rt). rg_members g \<noteq> [] \<and> set (rg_members g) \<subseteq> ru_id ` set (rt_upstreams rt)) \<and>
    (\<forall>act \<in> insert (rt_default_action rt) (rule_action ` set (rt_rules rt)).
      \<forall>gid. act = Action_UpstreamGroup gid \<longrightarrow> gid \<in> rg_id ` set (rt_groups rt)) \<and>
    (\<forall>u \<in> set (rt_upstreams rt). failures_to_unhealthy (ru_health u) \<noteq> 0 \<and> successes_to_healthy (ru_health u) \<noteq> 0)"
  using accepted_closed [OF assms] compiled_upstream_health [OF assms(2)] by (auto simp: closed_runtime_def)

theorem accepted_config_typed_witness:
  "distinct (map ru_id (rt_upstreams sample_runtime)) \<and> distinct (map rg_id (rt_groups sample_runtime))"
  using accepted_config_typed [OF sample_config_accepted sample_config_compiled] by blast

end
