(* ===== verification/Socks5_Codec.thy ===== *)
theory Socks5_Codec
  imports Byte_Io Net_Addr
begin

text \<open>
  SOCKS5 messages (\<^verbatim>\<open>crates/eggress-protocol-socks/src\<close>: the errors of \<^verbatim>\<open>error.rs\<close>, the address
  type and synchronous parsers of \<^verbatim>\<open>socks5/server.rs\<close>, and \<^verbatim>\<open>socks5/udp_codec.rs\<close>). The locale
  \<open>address_codec\<close> states what every address encoding of the proxy promises and is interpreted
  here on the SOCKS5 one. Results: datagrams and requests round-trip, and what the decoders accept
  is exactly what the encoder produces.
\<close>

subsection \<open>Errors and constants\<close>

text \<open>
  \<^verbatim>\<open>MalformedMessage\<close> keeps the fixed part of its text; the detail of the standard library's
  UTF-8 error that follows it is not represented.
\<close>

datatype socks5_error =
  Socks5_Io io_error
| Socks5_UnsupportedVersion u8
| Socks5_UnsupportedCommand u8
| Socks5_UnsupportedAddressType u8
| Socks5_UnsupportedAuthMethod u8
| Socks5_AuthFailed
| Socks5_CredentialsTooLong
| Socks5_ConnectionRefused
| Socks5_ConnectionFailed string
| Socks5_MalformedMessage string
| Socks5_MethodNegotiationFailed
| Socks5_UnexpectedEof
| Socks5_AddressTooLong
| Socks5_InvalidReservedByte u8
| Socks5_DomainTooLong nat

definition ATYP_IPV4 :: u8 where "ATYP_IPV4 = 0x01"
definition ATYP_DOMAIN :: u8 where "ATYP_DOMAIN = 0x03"
definition ATYP_IPV6 :: u8 where "ATYP_IPV6 = 0x04"
definition CMD_CONNECT :: u8 where "CMD_CONNECT = 0x01"
definition CMD_BIND :: u8 where "CMD_BIND = 0x02"
definition CMD_UDP_ASSOCIATE :: u8 where "CMD_UDP_ASSOCIATE = 0x03"
definition REP_SUCCESS :: u8 where "REP_SUCCESS = 0x00"
definition REP_COMMAND_NOT_SUPPORTED :: u8 where "REP_COMMAND_NOT_SUPPORTED = 0x07"

lemmas socks5_consts = ATYP_IPV4_def ATYP_DOMAIN_def ATYP_IPV6_def CMD_CONNECT_def CMD_BIND_def
  CMD_UDP_ASSOCIATE_def REP_SUCCESS_def REP_COMMAND_NOT_SUPPORTED_def

datatype socks5_command = Connect | Bind | UdpAssociate

definition parse_command :: "u8 \<Rightarrow> socks5_error + socks5_command" where
  "parse_command cmd =
    (if cmd = CMD_CONNECT then Ok Connect
     else if cmd = CMD_BIND then Ok Bind
     else if cmd = CMD_UDP_ASSOCIATE then Ok UdpAssociate
     else Err (Socks5_UnsupportedCommand cmd))"

text \<open>\<^verbatim>\<open>{:02x}\<close> of a byte.\<close>

definition hex2 :: "u8 \<Rightarrow> string" where
  "hex2 b = [digit_char (unat b div 16), digit_char (unat b mod 16)]"

text \<open>\<^verbatim>\<open>Socks5Error::display_hex\<close> for the four variants it rewrites.\<close>

definition display_hex :: "(socks5_error \<Rightarrow> string) \<Rightarrow> socks5_error \<Rightarrow> string" where
  "display_hex to_string e =
    (case e of
       Socks5_UnsupportedVersion v \<Rightarrow> ''unsupported SOCKS version: 0x'' @ hex2 v
     | Socks5_UnsupportedCommand v \<Rightarrow> ''unsupported command: 0x'' @ hex2 v
     | Socks5_UnsupportedAddressType v \<Rightarrow> ''unsupported address type: 0x'' @ hex2 v
     | Socks5_UnsupportedAuthMethod v \<Rightarrow> ''unsupported authentication method: 0x'' @ hex2 v
     | _ \<Rightarrow> to_string e)"

subsection \<open>Addresses\<close>

datatype socks_addr =
  Socks_IPv4 "u8 list" u16 | Socks_Domain string u16 | Socks_IPv6 "u8 list" u16

fun wf_socks_addr :: "socks_addr \<Rightarrow> bool" where
  "wf_socks_addr (Socks_IPv4 a p) \<longleftrightarrow> length a = 4"
| "wf_socks_addr (Socks_IPv6 a p) \<longleftrightarrow> length a = 16"
| "wf_socks_addr (Socks_Domain d p) \<longleftrightarrow> wf_str d"

fun hex_groups :: "u8 list \<Rightarrow> string list" where
  "hex_groups (a # b # rest) = (hex2 a @ hex2 b) # hex_groups rest"
| "hex_groups _ = []"

fun host_str :: "socks_addr \<Rightarrow> string" where
  "host_str (Socks_IPv4 a p) = v4_to_string a"
| "host_str (Socks_Domain d p) = d"
| "host_str (Socks_IPv6 a p) = ''['' @ join_str '':'' (hex_groups a) @ '']''"

fun socks_port :: "socks_addr \<Rightarrow> u16" where
  "socks_port (Socks_IPv4 a p) = p"
| "socks_port (Socks_Domain d p) = p"
| "socks_port (Socks_IPv6 a p) = p"

fun encode_reply :: "socks_addr \<Rightarrow> socks5_error + u8 list" where
  "encode_reply (Socks_IPv4 a p) = Ok (ATYP_IPV4 # a @ to_be_bytes p)"
| "encode_reply (Socks_Domain d p) =
    (if 255 < length d then Err (Socks5_DomainTooLong (length d))
     else Ok (ATYP_DOMAIN # word_of_nat (length d) # as_bytes d @ to_be_bytes p))"
| "encode_reply (Socks_IPv6 a p) = Ok (ATYP_IPV6 # a @ to_be_bytes p)"

subsection \<open>Synchronous parsers\<close>

definition parse_method_negotiation :: "u8 list \<Rightarrow> socks5_error + (u8 list \<times> u8 list)" where
  "parse_method_negotiation buf =
    (if buf = [] then Err Socks5_UnexpectedEof
     else if buf ! 0 \<noteq> 0x05 then Err (Socks5_UnsupportedVersion (buf ! 0))
     else if length buf < 2 then Err Socks5_UnexpectedEof
     else (let nmethods = unat (buf ! 1) in
           if length buf < 2 + nmethods then Err Socks5_UnexpectedEof
           else Ok (take nmethods (drop 2 buf), drop (2 + nmethods) buf)))"

text \<open>The address part of a request, after the address type; \<open>body\<close> is \<^verbatim>\<open>buf[4..]\<close>.\<close>

definition parse_addr_body :: "u8 \<Rightarrow> u8 list \<Rightarrow> socks5_error + (socks_addr \<times> u8 list)" where
  "parse_addr_body atyp body =
    (if atyp = ATYP_IPV4 then
       (if length body < 4 + 2 then Err Socks5_UnexpectedEof
        else Ok (Socks_IPv4 (take 4 body) (from_be_bytes (body ! 4) (body ! 5)), drop 6 body))
     else if atyp = ATYP_DOMAIN then
       (if length body < 1 then Err Socks5_UnexpectedEof
        else (let len = unat (body ! 0) in
              if length body < 1 + len + 2 then Err Socks5_UnexpectedEof
              else (case from_utf8 (take len (drop 1 body)) of
                      None \<Rightarrow> Err (Socks5_MalformedMessage ''invalid domain'')
                    | Some domain \<Rightarrow>
                        Ok (Socks_Domain domain (from_be_bytes (body ! (1 + len)) (body ! (2 + len))),
                            drop (3 + len) body))))
     else if atyp = ATYP_IPV6 then
       (if length body < 16 + 2 then Err Socks5_UnexpectedEof
        else Ok (Socks_IPv6 (take 16 body) (from_be_bytes (body ! 16) (body ! 17)), drop 18 body))
     else Err (Socks5_UnsupportedAddressType atyp))"

definition parse_connect_request :: "u8 list \<Rightarrow> socks5_error + (socks_addr \<times> u8 list)" where
  "parse_connect_request buf =
    (if length buf < 4 then Err Socks5_UnexpectedEof
     else if buf ! 0 \<noteq> 0x05 then Err (Socks5_UnsupportedVersion (buf ! 0))
     else if buf ! 1 \<noteq> CMD_CONNECT then Err (Socks5_UnsupportedCommand (buf ! 1))
     else if buf ! 2 \<noteq> 0 then Err (Socks5_InvalidReservedByte (buf ! 2))
     else parse_addr_body (buf ! 3) (drop 4 buf))"

definition parse_socks5_request ::
  "u8 list \<Rightarrow> socks5_error + (socks5_command \<times> socks_addr \<times> u8 list)" where
  "parse_socks5_request buf =
    (if length buf < 4 then Err Socks5_UnexpectedEof
     else if buf ! 0 \<noteq> 0x05 then Err (Socks5_UnsupportedVersion (buf ! 0))
     else (case parse_command (buf ! 1) of
             Inl e \<Rightarrow> Err e
           | Inr command \<Rightarrow>
               if buf ! 2 \<noteq> 0 then Err (Socks5_InvalidReservedByte (buf ! 2))
               else (case parse_addr_body (buf ! 3) (drop 4 buf) of
                       Inl e \<Rightarrow> Err e
                     | Inr (addr, rest) \<Rightarrow> Ok (command, addr, rest))))"

subsection \<open>UDP datagrams\<close>

definition MAX_UDP_DATAGRAM_SIZE :: nat where "MAX_UDP_DATAGRAM_SIZE = 65535"

datatype udp_codec_error =
  TooShort | BadReserved | FragmentationUnsupported | UnknownAddressType u8 | BadDomainLength
| MalformedDomain | MissingPort | PacketTooLarge nat nat

text \<open>The address of a datagram; \<open>body\<close> is \<^verbatim>\<open>packet[4..]\<close>.\<close>

definition decode_udp_target :: "u8 \<Rightarrow> u8 list \<Rightarrow> udp_codec_error + (socks_addr \<times> u8 list)" where
  "decode_udp_target atyp body =
    (if atyp = ATYP_IPV4 then
       (if length body < 4 + 2 then Err TooShort
        else Ok (Socks_IPv4 (take 4 body) (from_be_bytes (body ! 4) (body ! 5)), drop 6 body))
     else if atyp = ATYP_IPV6 then
       (if length body < 16 + 2 then Err TooShort
        else Ok (Socks_IPv6 (take 16 body) (from_be_bytes (body ! 16) (body ! 17)), drop 18 body))
     else if atyp = ATYP_DOMAIN then
       (if length body < 1 then Err TooShort
        else (let domain_len = unat (body ! 0) in
              if domain_len = 0 then Err BadDomainLength
              else if length body < 1 + domain_len + 2 then Err TooShort
              else (case from_utf8 (take domain_len (drop 1 body)) of
                      None \<Rightarrow> Err MalformedDomain
                    | Some domain \<Rightarrow>
                        Ok (Socks_Domain domain
                              (from_be_bytes (body ! (1 + domain_len)) (body ! (2 + domain_len))),
                            drop (3 + domain_len) body))))
     else Err (UnknownAddressType atyp))"

definition decode_socks5_udp_datagram :: "u8 list \<Rightarrow> udp_codec_error + (socks_addr \<times> u8 list)" where
  "decode_socks5_udp_datagram packet =
    (if length packet < 4 then Err TooShort
     else if MAX_UDP_DATAGRAM_SIZE < length packet
       then Err (PacketTooLarge (length packet) MAX_UDP_DATAGRAM_SIZE)
     else if packet ! 0 \<noteq> 0 \<or> packet ! 1 \<noteq> 0 then Err BadReserved
     else if packet ! 2 \<noteq> 0 then Err FragmentationUnsupported
     else decode_udp_target (packet ! 3) (drop 4 packet))"

definition encode_socks5_udp_datagram :: "socks_addr \<Rightarrow> u8 list \<Rightarrow> udp_codec_error + u8 list" where
  "encode_socks5_udp_datagram target payload =
    (case encode_reply target of
       Inl _ \<Rightarrow> Err MalformedDomain
     | Inr encoded \<Rightarrow> Ok ([0x00, 0x00] @ [0x00] @ encoded @ payload))"

definition decode_socks5_udp_request :: "u8 list \<Rightarrow> udp_codec_error + (socks_addr \<times> u8 list)" where
  "decode_socks5_udp_request packet = decode_socks5_udp_datagram packet"

definition encode_socks5_udp_response :: "socks_addr \<Rightarrow> u8 list \<Rightarrow> udp_codec_error + u8 list" where
  "encode_socks5_udp_response target payload = encode_socks5_udp_datagram target payload"

subsection \<open>What an address encoding promises\<close>

text \<open>
  \<open>enc\<close> writes the addresses in its domain, \<open>dec\<close> reads one off the front of a buffer. The two
  laws: reading undoes writing whatever follows, and only written forms are read.
\<close>

locale address_codec =
  fixes enc :: "'a \<Rightarrow> u8 list option"
    and dec :: "u8 list \<Rightarrow> ('a \<times> u8 list) option"
  assumes dec_enc: "enc a = Some bs \<Longrightarrow> dec (bs @ rest) = Some (a, rest)"
    and enc_dec: "dec bs = Some (a, rest) \<Longrightarrow> \<exists>pre. enc a = Some pre \<and> bs = pre @ rest"
begin

lemma dec_iff: "dec bs = Some (a, rest) \<longleftrightarrow> (\<exists>pre. enc a = Some pre \<and> bs = pre @ rest)"
  using dec_enc enc_dec by blast

text \<open>Encodings are prefix-free: a stream of frames is read in one way only.\<close>

lemma enc_prefix_free:
  "enc a = Some bs \<Longrightarrow> enc b = Some cs \<Longrightarrow> bs @ x = cs @ y \<Longrightarrow> a = b \<and> x = y"
  by (metis Pair_inject dec_enc option.inject)

lemma enc_inject: "enc a = Some bs \<Longrightarrow> enc b = Some bs \<Longrightarrow> a = b"
  using enc_prefix_free [of a bs b bs "[]" "[]"] by simp

text \<open>Decoding consumes at least one byte and leaves a suffix.\<close>

lemma dec_suffix: "dec bs = Some (a, rest) \<Longrightarrow> \<exists>pre. bs = pre @ rest"
  using enc_dec by blast

end

subsection \<open>The SOCKS5 encoding keeps the promise\<close>

text \<open>The bytes after the address type of an encodable address.\<close>

fun addr_body :: "socks_addr \<Rightarrow> u8 list" where
  "addr_body (Socks_IPv4 a p) = a @ to_be_bytes p"
| "addr_body (Socks_Domain d p) = word_of_nat (length d) # as_bytes d @ to_be_bytes p"
| "addr_body (Socks_IPv6 a p) = a @ to_be_bytes p"

fun addr_atyp :: "socks_addr \<Rightarrow> u8" where
  "addr_atyp (Socks_IPv4 a p) = ATYP_IPV4"
| "addr_atyp (Socks_Domain d p) = ATYP_DOMAIN"
| "addr_atyp (Socks_IPv6 a p) = ATYP_IPV6"

fun encodable :: "socks_addr \<Rightarrow> bool" where
  "encodable (Socks_Domain d p) \<longleftrightarrow> wf_str d \<and> length d \<le> 255"
| "encodable a \<longleftrightarrow> wf_socks_addr a"

lemma encodable_wf: "encodable a \<Longrightarrow> wf_socks_addr a"
  by (cases a) auto

lemma encode_reply_Ok_iff:
  "wf_socks_addr a \<Longrightarrow> encode_reply a = Ok bs \<longleftrightarrow> encodable a \<and> bs = addr_atyp a # addr_body a"
  by (cases a) auto

lemma atyp_distinct [simp]:
  "ATYP_IPV4 \<noteq> ATYP_DOMAIN" "ATYP_IPV4 \<noteq> ATYP_IPV6" "ATYP_DOMAIN \<noteq> ATYP_IPV6"
  "ATYP_DOMAIN \<noteq> ATYP_IPV4" "ATYP_IPV6 \<noteq> ATYP_IPV4" "ATYP_IPV6 \<noteq> ATYP_DOMAIN"
  by (simp_all add: socks5_consts)

lemma unat_of_nat_255: "n \<le> 255 \<Longrightarrow> unat (word_of_nat n :: u8) = n"
  by (simp add: unat_of_nat)

lemma parse_addr_body_enc:
  assumes "encodable a"
  shows "parse_addr_body (addr_atyp a) (addr_body a @ rest) = Ok (a, rest)"
proof (cases a)
  case (Socks_IPv4 x p)
  with assms be_field_join [of x 4 p rest] show ?thesis by (simp add: parse_addr_body_def)
next
  case (Socks_IPv6 x p)
  with assms be_field_join [of x 16 p rest] show ?thesis by (simp add: parse_addr_body_def)
next
  case (Socks_Domain d p)
  with assms have l: "unat (word_of_nat (length d) :: u8) = length d" by (simp add: unat_of_nat_255)
  show ?thesis
    using assms be_field_join [of "as_bytes d" "length d" p rest]
    by (simp add: Socks_Domain parse_addr_body_def Let_def l numeral_3_eq_3)
qed

text \<open>A length-prefixed domain and a port, split off the front of a buffer.\<close>

lemma domain_field_split:
  assumes "1 + unat (body ! 0) + 2 \<le> length body" "from_utf8 (take (unat (body ! 0)) (drop 1 body)) = Some d"
  shows "length d = unat (body ! 0) \<and> wf_str d \<and>
    body = word_of_nat (length d) # as_bytes d @
      to_be_bytes (from_be_bytes (body ! (1 + unat (body ! 0))) (body ! (2 + unat (body ! 0)))) @
      drop (3 + unat (body ! 0)) body"
proof -
  obtain b bs where body: "body = b # bs" using assms(1) by (cases body) auto
  have d: "wf_str d" "take (unat b) bs = as_bytes d"
    using assms(2) by (auto simp: body from_utf8_Some_iff wf_str_def)
  have "length (take (unat b) bs) = unat b" using assms(1) by (simp add: body)
  then have len: "length d = unat b" by (simp add: d(2))
  from be_field_split [of "unat b" bs] assms(1) have
    "bs = as_bytes d @ to_be_bytes (from_be_bytes (bs ! unat b) (bs ! (unat b + 1))) @ drop (unat b + 2) bs"
    by (simp add: body d(2))
  then show ?thesis using d len by (simp add: body numeral_3_eq_3 numeral_2_eq_2)
qed

lemma parse_addr_body_Ok:
  assumes "parse_addr_body t body = Ok (a, rest)"
  shows "encodable a \<and> t = addr_atyp a \<and> body = addr_body a @ rest"
proof -
  consider (v4) "t = ATYP_IPV4" | (dom) "t = ATYP_DOMAIN" | (v6) "t = ATYP_IPV6"
    using assms by (fastforce simp: parse_addr_body_def split: if_splits)
  then show ?thesis
  proof cases
    case v4
    then have "6 \<le> length body" using assms by (auto simp: parse_addr_body_def split: if_splits)
    with v4 assms be_field_split [of 4 body] show ?thesis by (auto simp: parse_addr_body_def)
  next
    case v6
    then have "18 \<le> length body" using assms by (auto simp: parse_addr_body_def split: if_splits)
    with v6 assms be_field_split [of 16 body] show ?thesis by (auto simp: parse_addr_body_def)
  next
    case dom
    then have c: "1 + unat (body ! 0) + 2 \<le> length body"
      using assms by (auto simp: parse_addr_body_def Let_def split: if_splits)
    then obtain d where d: "from_utf8 (take (unat (body ! 0)) (drop 1 body)) = Some d"
      using dom assms by (auto simp: parse_addr_body_def Let_def split: if_splits option.splits)
    have "unat (body ! 0) \<le> 255" using unat_u8_less [of "body ! 0"] by linarith
    with domain_field_split [OF c d] dom assms c d show ?thesis
      by (auto simp: parse_addr_body_def Let_def split: if_splits)
  qed
qed

text \<open>The encoder and the request parser as an address codec.\<close>

definition socks_enc :: "socks_addr \<Rightarrow> u8 list option" where
  "socks_enc a = (if wf_socks_addr a then result_ok (encode_reply a) else None)"

fun socks_dec :: "u8 list \<Rightarrow> (socks_addr \<times> u8 list) option" where
  "socks_dec [] = None"
| "socks_dec (t # body) = result_ok (parse_addr_body t body)"

lemma socks_enc_Some: "socks_enc a = Some bs \<longleftrightarrow> encodable a \<and> bs = addr_atyp a # addr_body a"
  by (auto simp: socks_enc_def encode_reply_Ok_iff encodable_wf)

interpretation socks: address_codec socks_enc socks_dec
proof unfold_locales
  fix bs a rest
  assume "socks_dec bs = Some (a, rest)"
  then show "\<exists>pre. socks_enc a = Some pre \<and> bs = pre @ rest"
    by (cases bs) (auto simp: socks_enc_Some dest: parse_addr_body_Ok)
qed (auto simp: socks_enc_Some parse_addr_body_enc)

text \<open>Datagrams use the same encoding for all addresses but the empty domain.\<close>

fun nonempty_host :: "socks_addr \<Rightarrow> bool" where
  "nonempty_host (Socks_Domain d p) \<longleftrightarrow> d \<noteq> []"
| "nonempty_host _ \<longleftrightarrow> True"

lemma decode_udp_target_Ok_iff:
  "decode_udp_target t body = Ok (a, rest) \<longleftrightarrow>
    parse_addr_body t body = Ok (a, rest) \<and> nonempty_host a"
proof (cases "t = ATYP_DOMAIN")
  case True
  show ?thesis
  proof (cases "1 + unat (body ! 0) + 2 \<le> length body")
    case c: True
    then show ?thesis
      using True domain_field_split [OF c]
      by (auto simp: decode_udp_target_def parse_addr_body_def Let_def split: option.splits if_splits)
  next
    case False
    with True show ?thesis
      by (auto simp: decode_udp_target_def parse_addr_body_def Let_def split: if_splits)
  qed
qed (auto simp: decode_udp_target_def parse_addr_body_def)

definition udp_addr_enc :: "socks_addr \<Rightarrow> u8 list option" where
  "udp_addr_enc a = (if nonempty_host a then socks_enc a else None)"

fun udp_addr_dec :: "u8 list \<Rightarrow> (socks_addr \<times> u8 list) option" where
  "udp_addr_dec [] = None"
| "udp_addr_dec (t # body) = result_ok (decode_udp_target t body)"

lemma udp_addr_dec_iff: "udp_addr_dec bs = Some (a, rest) \<longleftrightarrow> socks_dec bs = Some (a, rest) \<and> nonempty_host a"
  by (cases bs) (auto simp: decode_udp_target_Ok_iff)

interpretation udp_addr: address_codec udp_addr_enc udp_addr_dec
  by unfold_locales (auto simp: udp_addr_enc_def udp_addr_dec_iff socks.dec_iff split: if_splits)

subsection \<open>Datagrams and requests\<close>

lemma decode_datagram_header:
  "decode_socks5_udp_datagram packet = Ok (a, payload) \<longleftrightarrow>
    length packet \<le> 65535 \<and> (\<exists>body. packet = [0, 0, 0] @ body \<and> udp_addr_dec body = Some (a, payload))"
proof (cases "length packet < 4")
  case True
  then have "udp_addr_dec body = Some (a, payload) \<Longrightarrow> packet \<noteq> [0, 0, 0] @ body" for body
    by (cases body) auto
  with True show ?thesis by (auto simp: decode_socks5_udp_datagram_def)
next
  case False
  then obtain x y z t body where p: "packet = x # y # z # t # body"
    by (auto simp: not_less numeral_eq_Suc Suc_le_length_iff)
  show ?thesis
    by (auto simp: decode_socks5_udp_datagram_def p MAX_UDP_DATAGRAM_SIZE_def)
qed

text \<open>
  C30: UDP datagrams round-trip and the decoder is exact. A packet decodes to a target and a
  payload exactly when it has at most 65535 bytes and is what the encoder writes for that target
  and payload, the target being a proper address other than the empty domain: nothing else is
  accepted, and nothing the encoder writes within the size limit is refused.
\<close>

theorem udp_datagram_decode_iff_encode:
  "decode_socks5_udp_datagram packet = Ok (a, payload) \<longleftrightarrow>
    length packet \<le> 65535 \<and> wf_socks_addr a \<and> nonempty_host a \<and>
    encode_socks5_udp_datagram a payload = Ok packet"
proof -
  have "(\<exists>body. packet = [0, 0, 0] @ body \<and> udp_addr_dec body = Some (a, payload)) \<longleftrightarrow>
      wf_socks_addr a \<and> nonempty_host a \<and> encode_socks5_udp_datagram a payload = Ok packet"
    unfolding udp_addr.dec_iff udp_addr_enc_def socks_enc_def encode_socks5_udp_datagram_def
    by (auto split: sum.splits)
  with decode_datagram_header [of packet a payload] show ?thesis by blast
qed

text \<open>
  Requests round-trip and the parser is exact. \<^verbatim>\<open>parse_connect_request\<close> accepts a buffer with
  a target and a remainder exactly when the buffer is the CONNECT header, the encoding of that
  target, and the remainder.
\<close>

lemma parse_connect_request_iff:
  "parse_connect_request buf = Ok (a, rest) \<longleftrightarrow>
    wf_socks_addr a \<and> (\<exists>enc. encode_reply a = Ok enc \<and> buf = [0x05, 0x01, 0x00] @ enc @ rest)"
proof (cases "length buf < 4")
  case True
  then have "socks_enc a = Some pre \<Longrightarrow> buf \<noteq> [0x05, 0x01, 0x00] @ pre @ rest" for pre
    by (auto simp: socks_enc_Some)
  with True show ?thesis by (auto simp: parse_connect_request_def socks_enc_def)
next
  case False
  then obtain x y z t body where p: "buf = x # y # z # t # body"
    by (auto simp: not_less numeral_eq_Suc Suc_le_length_iff)
  have "parse_connect_request buf = Ok (a, rest) \<longleftrightarrow>
      x = 5 \<and> y = 1 \<and> z = 0 \<and> socks_dec (t # body) = Some (a, rest)"
    by (auto simp: parse_connect_request_def p CMD_CONNECT_def)
  then show ?thesis unfolding socks.dec_iff by (auto simp: p socks_enc_def)
qed

end
