(* ===== verification/Udp_Assoc.thy ===== *)
theory Udp_Assoc
  imports Socks5_Codec Core_Types "HOL-Library.AList"
begin

text \<open>
  UDP associations (\<^verbatim>\<open>eggress-udp\<close>): limits (\<^verbatim>\<open>limits.rs\<close>), errors (\<^verbatim>\<open>error.rs\<close>), the association
  (\<^verbatim>\<open>assoc.rs\<close>), the registry (\<^verbatim>\<open>registry.rs\<close>), the size-checked decoder (\<^verbatim>\<open>codec.rs\<close>), target
  validation (\<^verbatim>\<open>security.rs\<close>) and the address conversions of \<^verbatim>\<open>flow.rs\<close>. Associations are shared
  (\<^verbatim>\<open>Arc\<close>) between the registry and the relay tasks: they live in a store and the registry holds
  their addresses. Results: the registry never exceeds its limits and every entry is the
  association with that id; a client address, once pinned, is the only one ever accepted; a closed
  association stays closed; and which targets pass validation.
\<close>

subsection \<open>Limits and errors\<close>

record udp_limits =
  max_associations_global :: nat
  max_associations_per_listener :: nat
  max_targets_per_association :: nat
  max_datagram_size :: nat
  idle_timeout :: nanos
  client_pin :: bool
  target_idle_timeout :: nanos
  max_standalone_flows_limit :: nat

definition UdpLimits_default :: udp_limits where
  "UdpLimits_default =
    \<lparr>max_associations_global = 1024, max_associations_per_listener = 256,
     max_targets_per_association = 64, max_datagram_size = 65535, idle_timeout = 60 * 10 ^ 9,
     client_pin = True, target_idle_timeout = 30 * 10 ^ 9, max_standalone_flows_limit = 0\<rparr>"

definition from_listener_config ::
  "nat \<Rightarrow> nat \<Rightarrow> nat \<Rightarrow> nat \<Rightarrow> nanos \<Rightarrow> bool \<Rightarrow> nanos \<Rightarrow> udp_limits" where
  "from_listener_config glob per_listener targets datagram idle pin target_idle =
    \<lparr>max_associations_global = glob, max_associations_per_listener = per_listener,
     max_targets_per_association = targets, max_datagram_size = datagram, idle_timeout = idle,
     client_pin = pin, target_idle_timeout = target_idle, max_standalone_flows_limit = 0\<rparr>"

datatype udp_error =
  AssociationLimitExceeded
| ListenerAssociationLimitExceeded
| TargetFlowLimitExceeded
| DatagramTooLarge nat nat
| Udp_Codec udp_codec_error
| Udp_Io
| AssociationClosed
| ClientAddressMismatch
| UnresolvedTarget
| MulticastTarget
| BroadcastTarget
| UnspecifiedTarget
| PortZero
| Udp_Other string

subsection \<open>An association\<close>

record udp_association =
  assoc_id :: u64
  assoc_listener :: string
  client_tcp_peer :: "socket_addr option"
  client_udp_addr :: "socket_addr option"
  assoc_identity :: client_identity
  created_at :: nanos
  last_activity :: nanos
  generation :: u64
  assoc_open :: bool
  cancelled :: bool

definition UdpAssociation_new ::
  "nanos \<Rightarrow> u64 \<Rightarrow> string \<Rightarrow> socket_addr option \<Rightarrow> client_identity \<Rightarrow> u64 \<Rightarrow> udp_association" where
  "UdpAssociation_new now i listener peer identity gen =
    \<lparr>assoc_id = i, assoc_listener = listener, client_tcp_peer = peer, client_udp_addr = None,
     assoc_identity = identity, created_at = now, last_activity = now, generation = gen,
     assoc_open = True, cancelled = False\<rparr>"

definition UdpAssociation_is_open :: "udp_association \<Rightarrow> bool" where
  "UdpAssociation_is_open a = assoc_open a"

definition UdpAssociation_close :: "udp_association \<Rightarrow> udp_association" where
  "UdpAssociation_close a = (if assoc_open a then a\<lparr>assoc_open := False, cancelled := True\<rparr> else a)"

definition UdpAssociation_touch :: "nanos \<Rightarrow> udp_association \<Rightarrow> udp_association" where
  "UdpAssociation_touch now a = a\<lparr>last_activity := now\<rparr>"

definition pin_client_addr :: "socket_addr \<Rightarrow> udp_association \<Rightarrow> (udp_error + unit) \<times> udp_association" where
  "pin_client_addr addr a =
    (case client_udp_addr a of
       Some existing \<Rightarrow> if existing \<noteq> addr then (Err ClientAddressMismatch, a) else (Ok (), a)
     | None \<Rightarrow> (Ok (), a\<lparr>client_udp_addr := Some addr\<rparr>))"

subsection \<open>The registry\<close>

text \<open>
  The store keeps every association ever created, at the index where it was put. The identifier
  counter wraps at 64 bits.
\<close>

record udp_registry =
  next_id :: u64
  associations :: "(u64 \<times> nat) list"
  reg_limits :: udp_limits
  reg_store :: "udp_association list"

definition UdpAssociationRegistry_new :: "udp_limits \<Rightarrow> udp_registry" where
  "UdpAssociationRegistry_new l = \<lparr>next_id = 1, associations = [], reg_limits = l, reg_store = []\<rparr>"

definition listener_count :: "string \<Rightarrow> udp_registry \<Rightarrow> nat" where
  "listener_count listener r =
    length (filter (\<lambda>(_, k). assoc_listener (reg_store r ! k) = listener) (associations r))"

definition create_association ::
  "nanos \<Rightarrow> string \<Rightarrow> socket_addr option \<Rightarrow> client_identity \<Rightarrow> u64 \<Rightarrow> udp_registry \<Rightarrow>
   (udp_error + nat) \<times> udp_registry" where
  "create_association now listener peer identity gen r =
    (if max_associations_global (reg_limits r) \<le> length (associations r)
     then (Err AssociationLimitExceeded, r)
     else if max_associations_per_listener (reg_limits r) \<le> listener_count listener r
     then (Err ListenerAssociationLimitExceeded, r)
     else (let i = next_id r; k = length (reg_store r) in
           (Ok k, r\<lparr>next_id := i + 1,
                    reg_store := reg_store r @ [UdpAssociation_new now i listener peer identity gen],
                    associations := AList.update i k (associations r)\<rparr>)))"

definition Registry_remove :: "u64 \<Rightarrow> udp_registry \<Rightarrow> udp_registry" where
  "Registry_remove i r = r\<lparr>associations := AList.delete i (associations r)\<rparr>"

text \<open>\<open>contended\<close>: whether another task holds the lock at that moment.\<close>

definition try_remove_now :: "bool \<Rightarrow> u64 \<Rightarrow> udp_registry \<Rightarrow> bool \<times> udp_registry" where
  "try_remove_now contended i r =
    (if contended then (False, r)
     else (map_of (associations r) i \<noteq> None, Registry_remove i r))"

definition Registry_get :: "u64 \<Rightarrow> udp_registry \<Rightarrow> udp_association option" where
  "Registry_get i r = map_option (\<lambda>k. reg_store r ! k) (map_of (associations r) i)"

definition active_count :: "udp_registry \<Rightarrow> nat" where
  "active_count r = length (associations r)"

definition active_count_for_listener :: "string \<Rightarrow> udp_registry \<Rightarrow> nat" where
  "active_count_for_listener listener r = listener_count listener r"

text \<open>A task's operation on an association it holds.\<close>

definition on_assoc :: "nat \<Rightarrow> (udp_association \<Rightarrow> udp_association) \<Rightarrow> udp_registry \<Rightarrow> udp_registry" where
  "on_assoc k f r = r\<lparr>reg_store := (reg_store r)[k := f (reg_store r ! k)]\<rparr>"

definition close_all :: "udp_registry \<Rightarrow> udp_registry" where
  "close_all r =
    fold (\<lambda>(_, k). on_assoc k UdpAssociation_close) (associations r) (r\<lparr>associations := []\<rparr>)"

subsection \<open>Codec and validation\<close>

definition decode_packet :: "u8 list \<Rightarrow> udp_limits \<Rightarrow> udp_error + (socks_addr \<times> u8 list)" where
  "decode_packet packet limits =
    (if max_datagram_size limits < length packet
     then Err (DatagramTooLarge (length packet) (max_datagram_size limits))
     else map_err Udp_Codec (decode_socks5_udp_datagram packet))"

fun validate_target_shape :: "socks_addr \<Rightarrow> bool \<Rightarrow> udp_error + unit" where
  "validate_target_shape (Socks_IPv4 ip port) reject_loopback =
    (if port = 0 then Err PortZero
     else if v4_is_multicast ip then Err MulticastTarget
     else if v4_is_broadcast ip then Err BroadcastTarget
     else if v4_is_unspecified ip then Err UnspecifiedTarget
     else if reject_loopback \<and> v4_is_loopback ip then Err (Udp_Other ''loopback target not allowed'')
     else Ok ())"
| "validate_target_shape (Socks_IPv6 ip port) reject_loopback =
    (if port = 0 then Err PortZero
     else if v6_is_multicast ip then Err MulticastTarget
     else if v6_is_unspecified ip then Err UnspecifiedTarget
     else if reject_loopback \<and> v6_is_loopback ip then Err (Udp_Other ''loopback target not allowed'')
     else Ok ())"
| "validate_target_shape (Socks_Domain _ port) reject_loopback =
    (if port = 0 then Err PortZero else Ok ())"

definition validate_target :: "socks_addr \<Rightarrow> udp_error + unit" where
  "validate_target target = validate_target_shape target True"

definition is_private_ipv4 :: "u8 list \<Rightarrow> bool" where
  "is_private_ipv4 ip \<longleftrightarrow> v4_is_private ip \<or> v4_is_loopback ip \<or> v4_is_link_local ip"

definition is_private_ipv6 :: "u8 list \<Rightarrow> bool" where
  "is_private_ipv6 ip =
    (case to_ipv4_mapped ip of
       Some v4 \<Rightarrow> is_private_ipv4 v4
     | None \<Rightarrow>
         if v6_is_loopback ip \<or> (ip ! 0 = 0xfe \<and> and (ip ! 1) 0xc0 = 0x80) then True
         else and (ip ! 0) 0xfe = 0xfc)"

definition validate_standalone_target :: "socks_addr \<Rightarrow> bool \<Rightarrow> udp_error + unit" where
  "validate_standalone_target target allow_private_egress =
    (case validate_target_shape target (\<not> allow_private_egress) of
       Inl e \<Rightarrow> Err e
     | Inr _ \<Rightarrow>
         if \<not> allow_private_egress \<and>
            (case target of
               Socks_IPv4 ip _ \<Rightarrow> is_private_ipv4 ip
             | Socks_IPv6 ip _ \<Rightarrow> is_private_ipv6 ip
             | Socks_Domain _ _ \<Rightarrow> False)
         then Err (Udp_Other ''private network egress not allowed'')
         else Ok ())"

definition validate_datagram_size :: "nat \<Rightarrow> nat \<Rightarrow> udp_error + unit" where
  "validate_datagram_size sz max_size =
    (if max_size < sz then Err (DatagramTooLarge sz max_size) else Ok ())"

subsection \<open>Address conversions\<close>

fun socks_to_target_addr :: "socks_addr \<Rightarrow> target_addr" where
  "socks_to_target_addr (Socks_IPv4 ip port) = \<lparr>tgt_host = Ip (V4 ip), tgt_port = port\<rparr>"
| "socks_to_target_addr (Socks_IPv6 ip port) = \<lparr>tgt_host = Ip (V6 ip), tgt_port = port\<rparr>"
| "socks_to_target_addr (Socks_Domain domain port) = \<lparr>tgt_host = Domain domain, tgt_port = port\<rparr>"

definition target_to_socks_addr :: "target_addr \<Rightarrow> socks_addr" where
  "target_to_socks_addr target =
    (case tgt_host target of
       Ip (V4 ip) \<Rightarrow> Socks_IPv4 ip (tgt_port target)
     | Ip (V6 ip) \<Rightarrow> Socks_IPv6 ip (tgt_port target)
     | Domain d \<Rightarrow> Socks_Domain d (tgt_port target))"

fun ip_addr_equivalent :: "ip_addr \<Rightarrow> ip_addr \<Rightarrow> bool" where
  "ip_addr_equivalent (V4 a) (V4 b) \<longleftrightarrow> a = b"
| "ip_addr_equivalent (V6 a) (V6 b) \<longleftrightarrow> a = b"
| "ip_addr_equivalent (V4 a) (V6 b) \<longleftrightarrow> to_ipv4_mapped b = Some a"
| "ip_addr_equivalent (V6 b) (V4 a) \<longleftrightarrow> to_ipv4_mapped b = Some a"

definition domain_equivalent :: "string \<Rightarrow> ip_addr \<Rightarrow> bool" where
  "domain_equivalent domain ip =
    (case parse_ip_addr domain of None \<Rightarrow> False | Some a \<Rightarrow> ip_addr_equivalent a ip)"

text \<open>The last two cases of the code call the function with the arguments swapped.\<close>

fun socks_addr_equivalent :: "socks_addr \<Rightarrow> socks_addr \<Rightarrow> bool" where
  "socks_addr_equivalent (Socks_IPv4 a p) (Socks_IPv4 b q) \<longleftrightarrow> a = b \<and> p = q"
| "socks_addr_equivalent (Socks_IPv6 a p) (Socks_IPv6 b q) \<longleftrightarrow> a = b \<and> p = q"
| "socks_addr_equivalent (Socks_IPv4 a p) (Socks_IPv6 b q) \<longleftrightarrow> p = q \<and> ip_addr_equivalent (V4 a) (V6 b)"
| "socks_addr_equivalent (Socks_IPv6 a p) (Socks_IPv4 b q) \<longleftrightarrow> p = q \<and> ip_addr_equivalent (V6 a) (V4 b)"
| "socks_addr_equivalent (Socks_Domain a p) (Socks_Domain b q) \<longleftrightarrow> a = b \<and> p = q"
| "socks_addr_equivalent (Socks_Domain a p) (Socks_IPv4 b q) \<longleftrightarrow> p = q \<and> domain_equivalent a (V4 b)"
| "socks_addr_equivalent (Socks_Domain a p) (Socks_IPv6 b q) \<longleftrightarrow> p = q \<and> domain_equivalent a (V6 b)"
| "socks_addr_equivalent (Socks_IPv4 b q) (Socks_Domain a p) \<longleftrightarrow> p = q \<and> domain_equivalent a (V4 b)"
| "socks_addr_equivalent (Socks_IPv6 b q) (Socks_Domain a p) \<longleftrightarrow> p = q \<and> domain_equivalent a (V6 b)"

subsection \<open>The registry in use\<close>

inductive reg_step :: "udp_registry \<Rightarrow> udp_registry \<Rightarrow> bool" where
  step_create: "reg_step r (snd (create_association now listener peer identity gen r))"
| step_remove: "reg_step r (Registry_remove i r)"
| step_try_remove: "reg_step r (snd (try_remove_now contended i r))"
| step_close: "k < length (reg_store r) \<Longrightarrow> reg_step r (on_assoc k UdpAssociation_close r)"
| step_touch: "k < length (reg_store r) \<Longrightarrow> reg_step r (on_assoc k (UdpAssociation_touch now) r)"
| step_pin: "k < length (reg_store r) \<Longrightarrow> reg_step r (on_assoc k (\<lambda>a. snd (pin_client_addr addr a)) r)"
| step_close_all: "reg_step r (close_all r)"

inductive_cases reg_stepE: "reg_step r r'"

text \<open>What no operation changes of an association, and what changes one way only.\<close>

definition assoc_le :: "udp_association \<Rightarrow> udp_association \<Rightarrow> bool" where
  "assoc_le a b \<longleftrightarrow>
    assoc_id b = assoc_id a \<and> assoc_listener b = assoc_listener a \<and> assoc_identity b = assoc_identity a \<and>
    (client_udp_addr a \<noteq> None \<longrightarrow> client_udp_addr b = client_udp_addr a) \<and>
    (\<not> assoc_open a \<longrightarrow> \<not> assoc_open b) \<and> (cancelled a \<longrightarrow> cancelled b)"

lemma assoc_le_refl [simp]: "assoc_le a a"
  by (simp add: assoc_le_def)

lemma assoc_le_trans: "assoc_le a b \<Longrightarrow> assoc_le b c \<Longrightarrow> assoc_le a c"
  by (auto simp: assoc_le_def)

lemma assoc_le_ops:
  "assoc_le a (UdpAssociation_close a)" "assoc_le a (UdpAssociation_touch now a)"
  "assoc_le a (snd (pin_client_addr addr a))"
  by (auto simp: assoc_le_def UdpAssociation_close_def UdpAssociation_touch_def pin_client_addr_def
      split: option.splits)

definition store_le :: "udp_association list \<Rightarrow> udp_association list \<Rightarrow> bool" where
  "store_le s t \<longleftrightarrow> length s \<le> length t \<and> (\<forall>k < length s. assoc_le (s ! k) (t ! k))"

lemma store_le_refl [simp]: "store_le s s"
  by (simp add: store_le_def)

lemma store_le_trans: "store_le s t \<Longrightarrow> store_le t u \<Longrightarrow> store_le s u"
  by (auto simp: store_le_def intro: assoc_le_trans)

lemma on_assoc_store_le:
  "(\<And>a. assoc_le a (f a)) \<Longrightarrow> store_le (reg_store r) (reg_store (on_assoc k f r))"
  by (cases "k < length (reg_store r)") (auto simp: store_le_def on_assoc_def nth_list_update)

lemma on_assoc_fields [simp]:
  "associations (on_assoc k f r) = associations r" "reg_limits (on_assoc k f r) = reg_limits r"
  "next_id (on_assoc k f r) = next_id r" "length (reg_store (on_assoc k f r)) = length (reg_store r)"
  by (simp_all add: on_assoc_def)

lemma fold_close:
  fixes ks :: "(u64 \<times> nat) list"
  assumes "r' = fold (\<lambda>(_, k). on_assoc k UdpAssociation_close) ks r"
  shows "associations r' = associations r \<and> reg_limits r' = reg_limits r \<and>
    length (reg_store r') = length (reg_store r) \<and> store_le (reg_store r) (reg_store r') \<and>
    (\<forall>k \<in> snd ` set ks. k < length (reg_store r) \<longrightarrow> \<not> assoc_open (reg_store r' ! k))"
  using assms
proof (induction ks arbitrary: r)
  case (Cons x ks)
  obtain i k where x: "x = (i, k)" by (cases x)
  let ?r1 = "on_assoc k UdpAssociation_close r"
  have le: "store_le (reg_store r) (reg_store ?r1)" by (rule on_assoc_store_le) (rule assoc_le_ops)
  have IH: "associations r' = associations ?r1 \<and> reg_limits r' = reg_limits ?r1 \<and>
    length (reg_store r') = length (reg_store ?r1) \<and> store_le (reg_store ?r1) (reg_store r') \<and>
    (\<forall>k \<in> snd ` set ks. k < length (reg_store ?r1) \<longrightarrow> \<not> assoc_open (reg_store r' ! k))"
    using Cons.prems by (intro Cons.IH) (simp add: x)
  have "\<not> assoc_open (reg_store r' ! k)" if "k < length (reg_store r)"
  proof -
    have "\<not> assoc_open (reg_store ?r1 ! k)" using that by (simp add: on_assoc_def UdpAssociation_close_def)
    moreover have "assoc_le (reg_store ?r1 ! k) (reg_store r' ! k)" using IH that by (simp add: store_le_def)
    ultimately show ?thesis by (simp add: assoc_le_def)
  qed
  with IH le show ?case by (auto simp: x intro: store_le_trans)
qed simp

lemma close_all_effect:
  "associations (close_all r) = [] \<and> reg_limits (close_all r) = reg_limits r \<and>
   length (reg_store (close_all r)) = length (reg_store r) \<and> store_le (reg_store r) (reg_store (close_all r)) \<and>
   (\<forall>k \<in> snd ` set (associations r). k < length (reg_store r) \<longrightarrow> \<not> assoc_open (reg_store (close_all r) ! k))"
  using fold_close [OF refl, of "associations r" "r\<lparr>associations := []\<rparr>"] by (simp add: close_all_def)

lemma reg_step_store_le: "reg_step r r' \<Longrightarrow> store_le (reg_store r) (reg_store r')"
  by (erule reg_stepE)
    (auto simp: create_association_def Registry_remove_def try_remove_now_def Let_def close_all_effect
      store_le_def [of _ "_ @ _"] nth_append intro!: on_assoc_store_le assoc_le_ops)

lemma reg_steps_store_le: "reg_step\<^sup>*\<^sup>* r r' \<Longrightarrow> store_le (reg_store r) (reg_store r')"
  by (induction rule: rtranclp_induct) (auto intro: store_le_trans reg_step_store_le)

text \<open>Each entry points to the association with its id; the limits hold.\<close>

definition reg_inv :: "udp_registry \<Rightarrow> bool" where
  "reg_inv r \<longleftrightarrow>
    distinct (map fst (associations r)) \<and>
    (\<forall>(i, k) \<in> set (associations r). k < length (reg_store r) \<and> assoc_id (reg_store r ! k) = i) \<and>
    length (associations r) \<le> max_associations_global (reg_limits r) \<and>
    (\<forall>listener. listener_count listener r \<le> max_associations_per_listener (reg_limits r))"

lemma listener_count_store_le:
  assumes "\<forall>(i, k) \<in> set (associations r). k < length (reg_store r)" "store_le (reg_store r) (reg_store r')"
    "associations r' = associations r"
  shows "listener_count listener r' = listener_count listener r"
  unfolding listener_count_def assms(3)
  by (rule arg_cong [where f = length], rule filter_cong)
    (use assms(1,2) in \<open>auto simp: store_le_def assoc_le_def\<close>)

text \<open>Operations on associations in the store keep the invariant.\<close>

lemma reg_inv_store:
  assumes "reg_inv r" "store_le (reg_store r) (reg_store r')"
    "associations r' = associations r" "reg_limits r' = reg_limits r"
  shows "reg_inv r'"
proof -
  have "\<forall>(i, k) \<in> set (associations r). k < length (reg_store r)" using assms(1) by (auto simp: reg_inv_def)
  from listener_count_store_le [OF this assms(2,3)] assms show ?thesis
    by (auto simp: reg_inv_def store_le_def assoc_le_def)
qed

lemma alist_update_new: "i \<notin> fst ` set es \<Longrightarrow> AList.update i k es = es @ [(i, k)]"
  by (induction es) auto

lemma filter_update_length:
  "length (filter P (AList.update i k es)) \<le> Suc (length (filter P es))"
  by (induction es) auto

lemma filter_update_keep:
  "\<not> P (i, k) \<Longrightarrow> length (filter P (AList.update i k es)) \<le> length (filter P es)"
  by (induction es) auto

lemma set_update_subset: "set (AList.update i k es) \<subseteq> insert (i, k) (set es)"
  by (induction es) auto

lemma length_update_le: "length (AList.update i k es) \<le> Suc (length es)"
  by (induction es) auto

lemma reg_inv_create: "reg_inv r \<Longrightarrow> reg_inv (snd (create_association now listener peer identity gen r))"
proof -
  assume inv: "reg_inv r"
  show ?thesis
  proof (cases "max_associations_global (reg_limits r) \<le> length (associations r) \<or>
      max_associations_per_listener (reg_limits r) \<le> listener_count listener r")
    case True
    with inv show ?thesis by (auto simp: create_association_def)
  next
    case False
    let ?a = "UdpAssociation_new now (next_id r) listener peer identity gen"
    let ?k = "length (reg_store r)" and ?st = "reg_store r @ [UdpAssociation_new now (next_id r) listener peer identity gen]"
    let ?es = "AList.update (next_id r) (length (reg_store r)) (associations r)"
    let ?r = "r\<lparr>next_id := next_id r + 1, reg_store := ?st, associations := ?es\<rparr>"
    have bound: "k < ?k" if "(i, k) \<in> set (associations r)" for i k
      using inv that by (auto simp: reg_inv_def)
    have cnt: "length (filter (\<lambda>(_, k). assoc_listener (?st ! k) = l) (associations r)) = listener_count l r" for l
      unfolding listener_count_def
      by (rule arg_cong [where f = length], rule filter_cong) (auto simp: nth_append dest: bound)
    have "listener_count l ?r \<le> max_associations_per_listener (reg_limits r)" for l
    proof (cases "l = listener")
      case True
      have "listener_count l ?r \<le> Suc (listener_count l r)"
        unfolding listener_count_def [of l ?r] by (simp add: cnt [symmetric] filter_update_length)
      with False True show ?thesis by simp
    next
      case l: False
      have "listener_count l ?r \<le> listener_count l r"
        unfolding listener_count_def [of l ?r] cnt [symmetric]
        using l by (simp add: filter_update_keep nth_append UdpAssociation_new_def)
      with inv show ?thesis by (auto simp: reg_inv_def intro: order_trans)
    qed
    moreover have "length ?es \<le> max_associations_global (reg_limits r)"
      using False length_update_le [of "next_id r" ?k "associations r"] by simp
    moreover have "k < length ?st \<and> assoc_id (?st ! k) = i" if "(i, k) \<in> set ?es" for i k
    proof (cases "(i, k) = (next_id r, ?k)")
      case True
      then show ?thesis by (simp add: UdpAssociation_new_def)
    next
      case False
      with that set_update_subset have "(i, k) \<in> set (associations r)" by fastforce
      with inv show ?thesis by (auto simp: reg_inv_def nth_append)
    qed
    moreover have "distinct (map fst ?es)" using inv by (simp add: reg_inv_def distinct_update)
    ultimately have "reg_inv ?r" by (auto simp: reg_inv_def)
    with False show ?thesis by (simp add: create_association_def Let_def)
  qed
qed

lemma length_filter_delete: "length (filter P (AList.delete i es)) \<le> length (filter P es)"
  by (induction es) (auto simp: AList.delete_eq)

lemma reg_inv_remove:
  assumes "reg_inv r"
  shows "reg_inv (Registry_remove i r)"
proof -
  have "listener_count l (Registry_remove i r) \<le> max_associations_per_listener (reg_limits r)" for l
  proof -
    have "listener_count l (Registry_remove i r) \<le> listener_count l r"
      by (simp add: listener_count_def Registry_remove_def length_filter_delete)
    with assms show ?thesis by (auto simp: reg_inv_def intro: order_trans)
  qed
  moreover have "length (AList.delete i (associations r)) \<le> max_associations_global (reg_limits r)"
    using assms length_delete_le [of i "associations r"] by (simp add: reg_inv_def)
  moreover have "set (AList.delete i (associations r)) \<subseteq> set (associations r)"
    by (auto simp: AList.delete_eq)
  ultimately show ?thesis
    using assms by (auto simp: reg_inv_def Registry_remove_def distinct_delete)
qed

lemma reg_step_inv: "reg_step r r' \<Longrightarrow> reg_inv r \<Longrightarrow> reg_inv r' \<and> reg_limits r' = reg_limits r"
proof (erule reg_stepE)
  fix now listener peer identity gen
  assume "r' = snd (create_association now listener peer identity gen r)" "reg_inv r"
  then show ?thesis by (simp add: reg_inv_create) (simp add: create_association_def Let_def)
next
  fix i assume "r' = Registry_remove i r" "reg_inv r"
  then show ?thesis by (simp add: reg_inv_remove) (simp add: Registry_remove_def)
next
  fix contended i assume "r' = snd (try_remove_now contended i r)" "reg_inv r"
  then show ?thesis by (simp add: try_remove_now_def reg_inv_remove) (simp add: Registry_remove_def)
next
  assume "r' = close_all r" "reg_inv r"
  then show ?thesis using close_all_effect [of r] by (simp add: reg_inv_def listener_count_def)
qed (use reg_inv_store [of r r'] reg_step_store_le [of r r'] in \<open>auto intro: reg_step.intros\<close>)

lemma reg_steps_inv: "reg_step\<^sup>*\<^sup>* r r' \<Longrightarrow> reg_inv r \<Longrightarrow> reg_inv r' \<and> reg_limits r' = reg_limits r"
  by (induction rule: rtranclp_induct) (auto dest: reg_step_inv)

lemma reg_inv_new [simp]: "reg_inv (UdpAssociationRegistry_new l)"
  by (simp add: reg_inv_def UdpAssociationRegistry_new_def listener_count_def)

text \<open>
  C33: the UDP registry keeps its limits. After any sequence of creations, removals (also failed
  ones), shutdowns and operations of the relay tasks on associations they hold, at most the global
  limit of associations is registered and at most the per-listener limit for each listener, and a
  lookup by id gives the association with that id, even when the id counter has wrapped around.
\<close>

theorem registry_limits_hold:
  assumes "reg_step\<^sup>*\<^sup>* (UdpAssociationRegistry_new l) r"
  shows "active_count r \<le> max_associations_global l \<and>
    active_count_for_listener listener r \<le> max_associations_per_listener l \<and>
    (case Registry_get i r of None \<Rightarrow> True | Some a \<Rightarrow> assoc_id a = i)"
proof -
  from reg_steps_inv [OF assms reg_inv_new] have inv: "reg_inv r" "reg_limits r = l"
    by (simp_all add: UdpAssociationRegistry_new_def)
  then show ?thesis
    by (auto simp: reg_inv_def active_count_def active_count_for_listener_def Registry_get_def
        split: option.splits dest!: map_of_SomeD)
qed

theorem registry_limits_hold_witness:
  "\<exists>r. reg_step\<^sup>*\<^sup>* (UdpAssociationRegistry_new (UdpLimits_default\<lparr>max_associations_global := 1\<rparr>)) r \<and>
     active_count r = 1 \<and>
     fst (create_association 5 ''b'' None Anonymous 0 r) = Err AssociationLimitExceeded"
proof -
  let ?l = "UdpLimits_default\<lparr>max_associations_global := 1\<rparr>"
  let ?r = "snd (create_association 0 ''a'' None Anonymous 0 (UdpAssociationRegistry_new ?l))"
  have s: "reg_step\<^sup>*\<^sup>* (UdpAssociationRegistry_new ?l) ?r" by (rule r_into_rtranclp) (rule step_create)
  have "active_count ?r = 1" "fst (create_association 5 ''b'' None Anonymous 0 ?r) = Err AssociationLimitExceeded"
    by (simp_all add: create_association_def UdpAssociationRegistry_new_def UdpLimits_default_def listener_count_def
        Let_def active_count_def)
  with registry_limits_hold [OF s, of "''a''" 1] s show ?thesis by blast
qed

text \<open>
  A pinned client address cannot be taken over, and closing is final. Whatever happens to the
  registry and to the other associations, once an association has a client address a datagram's
  source passes the pin check exactly if it is that address, and the address is never replaced;
  and once an association is closed it stays closed and its token stays cancelled.
\<close>

lemma association_pin_stable:
  assumes "reg_step\<^sup>*\<^sup>* r r'" "k < length (reg_store r)"
  shows "(client_udp_addr (reg_store r ! k) = Some addr \<longrightarrow>
      client_udp_addr (reg_store r' ! k) = Some addr \<and>
      (fst (pin_client_addr other (reg_store r' ! k)) = Ok () \<longleftrightarrow> other = addr)) \<and>
    (\<not> UdpAssociation_is_open (reg_store r ! k) \<longrightarrow> \<not> UdpAssociation_is_open (reg_store r' ! k)) \<and>
    (cancelled (reg_store r ! k) \<longrightarrow> cancelled (reg_store r' ! k))"
proof -
  have "assoc_le (reg_store r ! k) (reg_store r' ! k)"
    using reg_steps_store_le [OF assms(1)] assms(2) by (simp add: store_le_def)
  then show ?thesis
    by (auto simp: assoc_le_def pin_client_addr_def UdpAssociation_is_open_def split: option.splits if_splits)
qed

lemma association_pin_stable_witness:
  "let a = SocketAddr (V4 [10, 0, 0, 1]) 5000; b = SocketAddr (V4 [10, 0, 0, 2]) 5000;
       r = on_assoc 0 (\<lambda>x. snd (pin_client_addr a x))
             (snd (create_association 0 ''l'' None Anonymous 0 (UdpAssociationRegistry_new UdpLimits_default)));
       r' = on_assoc 0 (\<lambda>x. snd (pin_client_addr b x)) r
   in fst (pin_client_addr b (reg_store r' ! 0)) \<noteq> Ok () \<and> fst (pin_client_addr a (reg_store r' ! 0)) = Ok ()"
proof -
  let ?a = "SocketAddr (V4 [10, 0, 0, 1]) 5000" and ?b = "SocketAddr (V4 [10, 0, 0, 2]) 5000"
  let ?r = "on_assoc 0 (\<lambda>x. snd (pin_client_addr ?a x))
    (snd (create_association 0 ''l'' None Anonymous 0 (UdpAssociationRegistry_new UdpLimits_default)))"
  have k: "0 < length (reg_store ?r)" "client_udp_addr (reg_store ?r ! 0) = Some ?a"
    by (simp_all add: create_association_def UdpAssociationRegistry_new_def UdpLimits_default_def listener_count_def
        Let_def on_assoc_def pin_client_addr_def UdpAssociation_new_def)
  have "reg_step\<^sup>*\<^sup>* ?r (on_assoc 0 (\<lambda>x. snd (pin_client_addr ?b x)) ?r)"
    by (rule r_into_rtranclp) (rule step_pin [OF k(1)])
  from association_pin_stable [OF this k(1), of ?a ?b] association_pin_stable [OF this k(1), of ?a ?a] k(2)
  show ?thesis unfolding Let_def by simp
qed

text \<open>
  Shutdown closes every registered association. After \<^verbatim>\<open>close_all\<close> the registry is empty and
  every association that was registered is closed; the others are left as they were or closed.
\<close>

lemma close_all_closes:
  "active_count (close_all r) = 0 \<and>
   \<not> list_ex (\<lambda>(i, k). k < length (reg_store r) \<and> UdpAssociation_is_open (reg_store (close_all r) ! k))
       (associations r) \<and>
   store_le (reg_store r) (reg_store (close_all r))"
  using close_all_effect [of r]
  by (auto simp: active_count_def list_ex_iff UdpAssociation_is_open_def)

subsection \<open>Which targets are the same\<close>

text \<open>The canonical form of an address: IPv4-mapped IPv6 addresses and numeric domains as IPv4 or IPv6.\<close>

fun canonical_ip :: "ip_addr \<Rightarrow> ip_addr" where
  "canonical_ip (V4 a) = V4 a"
| "canonical_ip (V6 a) = (case to_ipv4_mapped a of Some v4 \<Rightarrow> V4 v4 | None \<Rightarrow> V6 a)"

fun canonical_host :: "socks_addr \<Rightarrow> ip_addr option" where
  "canonical_host (Socks_IPv4 a _) = Some (V4 a)"
| "canonical_host (Socks_IPv6 a _) = Some (canonical_ip (V6 a))"
| "canonical_host (Socks_Domain d _) = map_option canonical_ip (parse_ip_addr d)"

lemma to_ipv4_mapped_inj: "to_ipv4_mapped a = Some v \<Longrightarrow> to_ipv4_mapped b = Some v \<Longrightarrow> a = b"
  by (simp add: to_ipv4_mapped_iff)

lemma ip_addr_equivalent_canonical: "ip_addr_equivalent a b \<longleftrightarrow> canonical_ip a = canonical_ip b"
  by (cases a; cases b) (auto split: option.splits dest: to_ipv4_mapped_inj)

text \<open>
  When two UDP targets are the same. The equivalence that matches replies to flows is equality
  of ports together with equality of canonical hosts, where an IPv4-mapped IPv6 address counts as
  its IPv4 address and a numeric domain as the address it denotes; two domains are the same only
  if they are spelled the same. In particular it is symmetric, and transitive on addresses.
\<close>

lemma socks_addr_equivalent_canonical:
  "socks_addr_equivalent a b \<longleftrightarrow>
    socks_port a = socks_port b \<and>
    (case (a, b) of
       (Socks_Domain d _, Socks_Domain e _) \<Rightarrow> d = e
     | _ \<Rightarrow> canonical_host a \<noteq> None \<and> canonical_host a = canonical_host b)"
  by (cases a; cases b)
    (auto simp: domain_equivalent_def ip_addr_equivalent_canonical split: option.splits
      dest: to_ipv4_mapped_inj)

subsection \<open>Which targets a standalone relay refuses\<close>

text \<open>An address block: the network and the number of its leading bits.\<close>

definition ip_value :: "u8 list \<Rightarrow> nat" where
  "ip_value bs = foldl (\<lambda>v b. v * 256 + unat b) 0 bs"

definition in_block :: "u8 list \<Rightarrow> u8 list \<times> nat \<Rightarrow> bool" where
  "in_block ip block =
    (case block of (net, bits) \<Rightarrow>
       length net = length ip \<and>
       ip_value ip div 2 ^ (8 * length ip - bits) = ip_value net div 2 ^ (8 * length ip - bits))"

definition private_v4 :: "(u8 list \<times> nat) list" where
  "private_v4 =
    [([10, 0, 0, 0], 8), ([172, 16, 0, 0], 12), ([192, 168, 0, 0], 16), ([127, 0, 0, 0], 8),
     ([169, 254, 0, 0], 16)]"

definition special_v4 :: "(u8 list \<times> nat) list" where
  "special_v4 = [([0, 0, 0, 0], 32), ([224, 0, 0, 0], 4), ([255, 255, 255, 255], 32)]"

lemma div_16_eq_iff: "x div 16 = k \<longleftrightarrow> 16 * k \<le> x \<and> x \<le> 16 * k + (15 :: nat)"
proof
  assume "x div 16 = k"
  with div_mult_mod_eq [of x 16] mod_less_divisor [of 16 x] show "16 * k \<le> x \<and> x \<le> 16 * k + 15" by linarith
next
  assume "16 * k \<le> x \<and> x \<le> 16 * k + 15"
  then show "x div 16 = k" by (intro div_nat_eqI) auto
qed

lemma blocks_v4_iff:
  assumes "length ip = 4"
  shows "list_ex (in_block ip) private_v4 \<longleftrightarrow> is_private_ipv4 ip"
    and "list_ex (in_block ip) special_v4 \<longleftrightarrow> v4_is_unspecified ip \<or> v4_is_multicast ip \<or> v4_is_broadcast ip"
proof -
  obtain a b c d where ip: "ip = [a, b, c, d]" using assms by (auto simp: numeral_eq_Suc length_Suc_conv)
  have lt: "unat a < 256" "unat b < 256" "unat c < 256" "unat d < 256" by (simp_all add: unat_u8_less)
  define h1 where "h1 = unat a * 256 + unat b"
  define h2 where "h2 = h1 * 256 + unat c"
  define v where "v = h2 * 256 + unat d"
  have iv: "ip_value ip = v" by (simp add: ip_value_def ip h1_def h2_def v_def)
  have q: "(x * 256 + y) div 256 = x" if "y < 256" for x y :: nat using that by simp
  have s: "v div 256 = h2" "h2 div 256 = h1" "h1 div 256 = unat a"
    unfolding v_def h2_def h1_def by (rule q, rule lt)+
  have q2: "v div 65536 = h1" using s div_mult2_eq [of v 256 256] by simp
  have q3: "v div 16777216 = unat a" using s q2 div_mult2_eq [of v 65536 256] by simp
  have q4: "v div 1048576 = h1 div 16" using q2 div_mult2_eq [of v 65536 16] by simp
  have q5: "v div 268435456 = unat a div 16" using q3 div_mult2_eq [of v 16777216 16] by simp
  have zero: "v = 0 \<longleftrightarrow> v4_is_unspecified ip"
    by (auto simp: v_def h2_def h1_def ip v4_is_unspecified_def unat_eq_0)
  have e: "x = y \<longleftrightarrow> unat x = unat y" for x y :: u8 by (auto intro: unsigned_word_eqI)
  have bc: "v = 4294967295 \<longleftrightarrow> v4_is_broadcast ip"
  proof -
    have "v = 4294967295 \<longleftrightarrow> unat a = 255 \<and> unat b = 255 \<and> unat c = 255 \<and> unat d = 255"
    proof
      assume m: "v = 4294967295"
      have "unat a = 255" "h1 = 65535" "h2 = 16777215" using q3 q2 s(1) by (simp_all add: m)
      with m show "unat a = 255 \<and> unat b = 255 \<and> unat c = 255 \<and> unat d = 255"
        by (simp add: v_def h2_def h1_def)
    qed (simp add: v_def h2_def h1_def)
    then show ?thesis by (simp add: ip v4_is_broadcast_def e)
  qed
  have p: "h1 = 43518 \<longleftrightarrow> unat a = 169 \<and> unat b = 254" "h1 = 49320 \<longleftrightarrow> unat a = 192 \<and> unat b = 168"
    "h1 div 16 = 2753 \<longleftrightarrow> unat a = 172 \<and> 16 \<le> unat b \<and> unat b \<le> 31"
    "unat a div 16 = 14 \<longleftrightarrow> 224 \<le> unat a \<and> unat a \<le> 239"
  proof -
    have k2: "x * 256 + y = n \<longleftrightarrow> x = n div 256 \<and> y = n mod 256" if "y < 256" for x y n :: nat
      using that by auto
    show "h1 = 43518 \<longleftrightarrow> unat a = 169 \<and> unat b = 254" "h1 = 49320 \<longleftrightarrow> unat a = 192 \<and> unat b = 168"
      unfolding h1_def k2 [OF lt(2)] by simp_all
    show "unat a div 16 = 14 \<longleftrightarrow> 224 \<le> unat a \<and> unat a \<le> 239" by (simp add: div_16_eq_iff)
    have k: "x * 16 + y = 2753 \<longleftrightarrow> x = 172 \<and> y = 1" if "y < 16" for x y :: nat
    proof -
      have "x * 16 + y = n \<longleftrightarrow> x = n div 16 \<and> y = n mod 16" for n using that by auto
      from this [of 2753] show ?thesis by simp
    qed
    have l: "y div 16 < 16 \<and> (y div 16 = 1 \<longleftrightarrow> 16 \<le> y \<and> y \<le> 31)" if "y < 256" for y :: nat
    proof
      show "y div 16 < 16" using that by (intro less_mult_imp_div_less) simp
      show "y div 16 = 1 \<longleftrightarrow> 16 \<le> y \<and> y \<le> 31" by (simp add: div_16_eq_iff)
    qed
    have "h1 div 16 = unat a * 16 + unat b div 16" by (simp add: h1_def)
    with k [of "unat b div 16" "unat a"] l [OF lt(2)]
    show "h1 div 16 = 2753 \<longleftrightarrow> unat a = 172 \<and> 16 \<le> unat b \<and> unat b \<le> 31" by simp
  qed
  have "list_ex (in_block ip) private_v4 \<longleftrightarrow>
      unat a = 10 \<or> h1 div 16 = 2753 \<or> h1 = 49320 \<or> unat a = 127 \<or> h1 = 43518"
    by (simp add: private_v4_def in_block_def assms iv q2 q3 q4 q5) (simp add: ip_value_def)
  then show "list_ex (in_block ip) private_v4 \<longleftrightarrow> is_private_ipv4 ip"
    unfolding p is_private_ipv4_def v4_is_private_def v4_is_loopback_def v4_is_link_local_def ip
    by (auto simp: e word_le_nat_alt)
  have "list_ex (in_block ip) special_v4 \<longleftrightarrow> v = 0 \<or> unat a div 16 = 14 \<or> v = 4294967295"
    by (simp add: special_v4_def in_block_def assms iv q5) (simp add: ip_value_def)
  then show "list_ex (in_block ip) special_v4 \<longleftrightarrow> v4_is_unspecified ip \<or> v4_is_multicast ip \<or> v4_is_broadcast ip"
    unfolding p zero bc v4_is_multicast_def by (auto simp: ip word_le_nat_alt)
qed

text \<open>
  A standalone UDP relay without private egress sends nothing to local networks. For IPv4
  targets validation succeeds exactly when the port is not zero and the address lies outside the
  private, loopback and link-local blocks and outside the unspecified, multicast and broadcast
  ones, each given by its leading bits. An IPv4-mapped IPv6 target passes exactly when its port is
  not zero and the IPv4 address lies outside the private blocks; the special ones are not looked at.
\<close>

lemma standalone_target_blocks:
  assumes "length ip = 4"
  shows "(validate_standalone_target (Socks_IPv4 ip port) False = Ok () \<longleftrightarrow>
      port \<noteq> 0 \<and> \<not> list_ex (in_block ip) (private_v4 @ special_v4)) \<and>
    (validate_standalone_target (Socks_IPv6 (to_ipv6_mapped ip) port) False = Ok () \<longleftrightarrow>
      port \<noteq> 0 \<and> \<not> list_ex (in_block ip) private_v4)"
proof
  show "validate_standalone_target (Socks_IPv4 ip port) False = Ok () \<longleftrightarrow>
      port \<noteq> 0 \<and> \<not> list_ex (in_block ip) (private_v4 @ special_v4)"
    by (auto simp: list_ex_append blocks_v4_iff [OF assms] validate_standalone_target_def is_private_ipv4_def)
  have m: "to_ipv6_mapped ip ! 10 = 0xFF" by (simp add: to_ipv6_mapped_def nth_append)
  have "to_ipv6_mapped ip ! 0 = 0" by (simp add: to_ipv6_mapped_def nth_append)
  moreover have "\<not> v6_is_loopback (to_ipv6_mapped ip)" using m by (auto simp: v6_is_loopback_def nth_append)
  moreover have "\<not> v6_is_unspecified (to_ipv6_mapped ip)" using m by (auto simp: v6_is_unspecified_def)
  moreover have "to_ipv4_mapped (to_ipv6_mapped ip) = Some ip" by (simp add: to_ipv4_mapped_iff)
  ultimately show "validate_standalone_target (Socks_IPv6 (to_ipv6_mapped ip) port) False = Ok () \<longleftrightarrow>
      port \<noteq> 0 \<and> \<not> list_ex (in_block ip) private_v4"
    by (auto simp: blocks_v4_iff [OF assms] validate_standalone_target_def v6_is_multicast_def is_private_ipv6_def)
qed

lemma standalone_target_blocks_witness:
  "validate_standalone_target (Socks_IPv4 [172, 31, 0, 9] 53) False \<noteq> Ok () \<and>
   validate_standalone_target (Socks_IPv6 (to_ipv6_mapped [224, 0, 0, 1]) 53) False = Ok ()"
  using standalone_target_blocks [of "[172, 31, 0, 9]" 53] standalone_target_blocks [of "[224, 0, 0, 1]" 53]
  by (simp add: private_v4_def special_v4_def in_block_def ip_value_def)

end
