(* ===== verification/Shadowsocks.thy ===== *)
theory Shadowsocks
  imports Socks5_Codec Core_Types
begin

text \<open>
  Shadowsocks building blocks (\<^verbatim>\<open>eggress-protocol-shadowsocks\<close>): errors (\<^verbatim>\<open>error.rs\<close>), cipher
  methods and key derivation (\<^verbatim>\<open>method.rs\<close>), the address format (\<^verbatim>\<open>address.rs\<close>), nonce counters
  (\<^verbatim>\<open>nonce.rs\<close>), AEAD chunks (\<^verbatim>\<open>aead.rs\<close>) and the salt replay window of \<^verbatim>\<open>tcp.rs\<close>. The ciphers,
  HKDF-SHA1 and MD5 are library code: they are the fields of a record that the definitions take as
  an argument, and \<open>crypto_ok\<close> states the documented behaviour the results rely on. Texts of
  library errors are left out of error values.
\<close>

datatype shadowsocks_error =
  Ss_Io
| UnsupportedMethod string
| LegacyMethodUnsupported string
| SsrUnsupported
| DecryptionFailed string
| EncryptionFailed string
| InvalidAddress string
| FrameTooLarge
| InvalidKeyLength
| InvalidOtaHmac
| PasswordTooLong
| Ss_Other string

subsection \<open>Methods\<close>

datatype cipher_method = Aes128Gcm | Aes192Gcm | Aes256Gcm | ChaCha20IetfPoly1305

fun CipherMethod_fmt :: "cipher_method \<Rightarrow> string" where
  "CipherMethod_fmt Aes128Gcm = ''aes-128-gcm''"
| "CipherMethod_fmt Aes192Gcm = ''aes-192-gcm''"
| "CipherMethod_fmt Aes256Gcm = ''aes-256-gcm''"
| "CipherMethod_fmt ChaCha20IetfPoly1305 = ''chacha20-ietf-poly1305''"

definition legacy_methods :: "string list" where
  "legacy_methods =
    [''table'', ''aes-128-ctr'', ''aes-192-ctr'', ''aes-256-ctr'', ''aes-128-cfb'', ''aes-192-cfb'',
     ''aes-256-cfb'', ''aes-128-cfb1'', ''aes-192-cfb1'', ''aes-256-cfb1'', ''aes-128-cfb8'',
     ''aes-192-cfb8'', ''aes-256-cfb8'', ''aes-128-ofb'', ''aes-192-ofb'', ''aes-256-ofb'', ''rc4'',
     ''rc4-md5'', ''chacha20'', ''chacha20-ietf'', ''xchacha20'', ''xchacha20-ietf'', ''salsa20'',
     ''xsalsa20'', ''bf-cfb'', ''cast5-cfb'', ''des-cfb'', ''camellia-128-cfb'', ''camellia-192-cfb'',
     ''camellia-256-cfb'', ''idea-cfb'', ''rc2-cfb'', ''seed-cfb'']"

definition strip_suffix_str :: "string \<Rightarrow> string \<Rightarrow> string" where
  "strip_suffix_str suffix s = (if ends_with suffix s then take (length s - length suffix) s else s)"

definition is_legacy_method :: "string \<Rightarrow> bool" where
  "is_legacy_method name =
    (let lower = to_ascii_lowercase name;
         without_ota = strip_suffix_char CHR ''!'' lower;
         normalized = strip_suffix_str ''-py'' without_ota
     in normalized \<in> set legacy_methods)"

text \<open>
  \<^verbatim>\<open>to_lowercase\<close> is Unicode's, but no character outside ASCII has one of the letters of the four
  names as its lower case, so for the comparison it is the ASCII one.
\<close>

definition parse_method :: "string \<Rightarrow> shadowsocks_error + cipher_method" where
  "parse_method s =
    (let l = to_ascii_lowercase s in
     if l = ''aes-128-gcm'' then Ok Aes128Gcm
     else if l = ''aes-192-gcm'' then Ok Aes192Gcm
     else if l = ''aes-256-gcm'' then Ok Aes256Gcm
     else if l = ''chacha20-ietf-poly1305'' then Ok ChaCha20IetfPoly1305
     else if is_legacy_method s then Err (LegacyMethodUnsupported s)
     else Err (UnsupportedMethod s))"

fun key_size :: "cipher_method \<Rightarrow> nat" where
  "key_size Aes128Gcm = 16"
| "key_size Aes192Gcm = 24"
| "key_size Aes256Gcm = 32"
| "key_size ChaCha20IetfPoly1305 = 32"

definition salt_size :: "cipher_method \<Rightarrow> nat" where "salt_size m = key_size m"
definition nonce_size :: "cipher_method \<Rightarrow> nat" where "nonce_size m = 12"
definition tag_size :: "cipher_method \<Rightarrow> nat" where "tag_size m = 16"

subsection \<open>The cryptographic library\<close>

text \<open>
  Sealing and opening with a key, a nonce and a text; HKDF-SHA1 from a salt, key material and an
  info string to a number of bytes; MD5. \<open>None\<close> is the library's error.
\<close>

record crypto =
  aead_seal :: "cipher_method \<Rightarrow> u8 list \<Rightarrow> u8 list \<Rightarrow> u8 list \<Rightarrow> u8 list option"
  aead_open :: "cipher_method \<Rightarrow> u8 list \<Rightarrow> u8 list \<Rightarrow> u8 list \<Rightarrow> u8 list option"
  hkdf_sha1 :: "u8 list \<Rightarrow> u8 list \<Rightarrow> u8 list \<Rightarrow> nat \<Rightarrow> u8 list option"
  md5 :: "u8 list \<Rightarrow> u8 list"

text \<open>
  Documented behaviour: with a key of the method's size and a 12-byte nonce, texts of up to \<open>2 ^ 16\<close>
  bytes are sealed into a ciphertext that opens to the text; a ciphertext is 16 bytes longer than
  its text, for everything that seals or opens; HKDF expands to any of the key sizes; MD5
  digests have 16 bytes.
\<close>

definition crypto_ok :: "crypto \<Rightarrow> bool" where
  "crypto_ok cr \<longleftrightarrow>
    (\<forall>m k n p. length k = key_size m \<longrightarrow> length n = 12 \<longrightarrow> length p \<le> 65536 \<longrightarrow>
       (\<exists>c. aead_seal cr m k n p = Some c \<and> length c = length p + 16 \<and> aead_open cr m k n c = Some p)) \<and>
    (\<forall>m k n c p. aead_open cr m k n c = Some p \<longrightarrow> length c = length p + 16) \<and>
    (\<forall>m k n c p. aead_seal cr m k n p = Some c \<longrightarrow> length c = length p + 16) \<and>
    (\<forall>salt ikm info len. len \<le> 64 \<longrightarrow> (\<exists>k. hkdf_sha1 cr salt ikm info len = Some k \<and> length k = len)) \<and>
    (\<forall>bs. length (md5 cr bs) = 16)"

text \<open>\<^verbatim>\<open>while key.len() < 48\<close>: three rounds when digests have 16 bytes; a digest is never empty.\<close>

function evp_loop :: "crypto \<Rightarrow> u8 list \<Rightarrow> u8 list \<Rightarrow> u8 list \<Rightarrow> u8 list" where
  "evp_loop cr password key prev =
    (if length key < 48 then
       (let digest = md5 cr (prev @ password) in
        if digest = [] then key else evp_loop cr password (key @ digest) digest)
     else key)"
  by pat_completeness auto
termination
  by (relation "measure (\<lambda>(cr, password, key, prev). 48 - length key)") (auto simp: neq_Nil_conv)

declare evp_loop.simps [simp del]

definition evp_bytes_to_key :: "crypto \<Rightarrow> u8 list \<Rightarrow> u8 list" where
  "evp_bytes_to_key cr password = evp_loop cr password [] []"

definition password_key_material :: "crypto \<Rightarrow> u8 list \<Rightarrow> u8 list" where
  "password_key_material cr password = evp_bytes_to_key cr password"

definition derive_key_from_ikm :: "crypto \<Rightarrow> cipher_method \<Rightarrow> u8 list \<Rightarrow> u8 list \<Rightarrow> shadowsocks_error + u8 list" where
  "derive_key_from_ikm cr m full_ikm salt =
    (case hkdf_sha1 cr salt (take (key_size m) full_ikm) (as_bytes ''ss-subkey'') (key_size m) of
       None \<Rightarrow> Err (Ss_Other ''HKDF expand failed'')
     | Some k \<Rightarrow> Ok k)"

definition derive_key :: "crypto \<Rightarrow> cipher_method \<Rightarrow> u8 list \<Rightarrow> u8 list \<Rightarrow> shadowsocks_error + u8 list" where
  "derive_key cr m password salt = derive_key_from_ikm cr m (evp_bytes_to_key cr password) salt"

subsection \<open>Addresses\<close>

definition encode_address :: "target_addr \<Rightarrow> shadowsocks_error + u8 list" where
  "encode_address target =
    (let port = to_be_bytes (tgt_port target) in
     case tgt_host target of
       Ip (V4 ip) \<Rightarrow> Ok ([0x01] @ ip @ port)
     | Ip (V6 ip) \<Rightarrow> Ok ([0x04] @ ip @ port)
     | Domain domain \<Rightarrow>
         if 255 < length domain
         then Err (InvalidAddress (''domain too long: '' @ show_nat (length domain) @ '' bytes (max 255)''))
         else Ok ([0x03, word_of_nat (length domain)] @ as_bytes domain @ port))"

text \<open>The host and the position behind it.\<close>

definition decode_host :: "u8 list \<Rightarrow> shadowsocks_error + (target_host \<times> nat)" where
  "decode_host data =
    (let atyp = data ! 0 in
     if atyp = 0x01 then
       (if length data < 5 then Err (InvalidAddress ''truncated IPv4 address'')
        else Ok (Ip (V4 [data ! 1, data ! 2, data ! 3, data ! 4]), 5))
     else if atyp = 0x04 then
       (if length data < 17 then Err (InvalidAddress ''truncated IPv6 address'')
        else Ok (Ip (V6 (take 16 (drop 1 data))), 17))
     else if atyp = 0x03 then
       (if length data < 2 then Err (InvalidAddress ''truncated domain length'')
        else (let len = unat (data ! 1) in
              if length data < 2 + len then Err (InvalidAddress ''truncated domain'')
              else (case from_utf8 (take len (drop 2 data)) of
                      None \<Rightarrow> Err (InvalidAddress ''invalid UTF-8'')
                    | Some domain \<Rightarrow> Ok (Domain domain, 2 + len))))
     else Err (InvalidAddress (''unknown ATYP: 0x'' @ hex2 atyp)))"

definition decode_address :: "u8 list \<Rightarrow> shadowsocks_error + (target_addr \<times> nat)" where
  "decode_address data =
    (if data = [] then Err (InvalidAddress ''empty data'')
     else (case decode_host data of
             Inl e \<Rightarrow> Err e
           | Inr (host, pos) \<Rightarrow>
               if length data < pos + 2 then Err (InvalidAddress ''truncated port'')
               else Ok (\<lparr>tgt_host = host, tgt_port = from_be_bytes (data ! pos) (data ! (pos + 1))\<rparr>, pos + 2)))"

subsection \<open>Nonces\<close>

record nonce_counter =
  nc_size :: nat
  nc_counter :: u64

definition NonceCounter_starting_at :: "nat \<Rightarrow> u64 \<Rightarrow> nonce_counter" where
  "NonceCounter_starting_at n c = \<lparr>nc_size = n, nc_counter = c\<rparr>"

definition NonceCounter_new :: "nat \<Rightarrow> nonce_counter" where
  "NonceCounter_new n = \<lparr>nc_size = n, nc_counter = 0\<rparr>"

text \<open>\<^verbatim>\<open>current\<close> into a buffer of \<open>len\<close> bytes.\<close>

definition NonceCounter_current :: "nonce_counter \<Rightarrow> nat \<Rightarrow> shadowsocks_error + u8 list" where
  "NonceCounter_current nc len =
    (if len \<noteq> nc_size nc then Err (Ss_Other ''nonce size mismatch'')
     else (let end8 = min (nc_size nc) 8 in
           Ok (take end8 (to_le_bytes64 (nc_counter nc)) @ replicate (len - end8) 0)))"

definition NonceCounter_advance :: "nonce_counter \<Rightarrow> shadowsocks_error + nonce_counter" where
  "NonceCounter_advance nc =
    (if nc_counter nc = - 1 then Err (Ss_Other ''nonce counter overflow'')
     else Ok (nc\<lparr>nc_counter := nc_counter nc + 1\<rparr>))"

text \<open>The byte-wise increment of \<^verbatim>\<open>aead.rs\<close>: \<open>None\<close> when every byte carries.\<close>

fun increment_bytes :: "u8 list \<Rightarrow> u8 list option" where
  "increment_bytes [] = None"
| "increment_bytes (b # bs) =
    (if b + 1 \<noteq> 0 then Some ((b + 1) # bs) else map_option ((#) 0) (increment_bytes bs))"

definition nonce_increment :: "u8 list \<Rightarrow> nat \<Rightarrow> shadowsocks_error + u8 list" where
  "nonce_increment nonce len =
    (if length nonce \<noteq> len then Err (Ss_Other ''nonce size mismatch'')
     else (case increment_bytes nonce of
             None \<Rightarrow> Err (Ss_Other ''nonce increment overflow'')
           | Some n \<Rightarrow> Ok n))"

subsection \<open>AEAD chunks\<close>

definition MAX_CHUNK_PAYLOAD :: nat where "MAX_CHUNK_PAYLOAD = 16 * 1024 - 1"
definition AEAD_TAG_SIZE :: nat where "AEAD_TAG_SIZE = 16"

type_synonym aead_cipher = "cipher_method \<times> u8 list"

definition AeadCipher_new :: "cipher_method \<Rightarrow> u8 list \<Rightarrow> shadowsocks_error + aead_cipher" where
  "AeadCipher_new m key = (if length key = key_size m then Ok (m, key) else Err (Ss_Other ''Invalid Length''))"

definition AeadCipher_encrypt :: "crypto \<Rightarrow> aead_cipher \<Rightarrow> u8 list \<Rightarrow> u8 list \<Rightarrow> shadowsocks_error + u8 list" where
  "AeadCipher_encrypt cr cipher nonce plaintext =
    (case aead_seal cr (fst cipher) (snd cipher) nonce plaintext of
       None \<Rightarrow> Err (EncryptionFailed ''aead::Error'') | Some c \<Rightarrow> Ok c)"

definition AeadCipher_decrypt :: "crypto \<Rightarrow> aead_cipher \<Rightarrow> u8 list \<Rightarrow> u8 list \<Rightarrow> shadowsocks_error + u8 list" where
  "AeadCipher_decrypt cr cipher nonce ciphertext =
    (case aead_open cr (fst cipher) (snd cipher) nonce ciphertext of
       None \<Rightarrow> Err (DecryptionFailed ''aead::Error'') | Some p \<Rightarrow> Ok p)"

definition aead_encrypt_raw ::
  "crypto \<Rightarrow> cipher_method \<Rightarrow> u8 list \<Rightarrow> u8 list \<Rightarrow> u8 list \<Rightarrow> shadowsocks_error + u8 list" where
  "aead_encrypt_raw cr m key nonce plaintext =
    try_bind (AeadCipher_new m key) (\<lambda>cipher. AeadCipher_encrypt cr cipher nonce plaintext)"

definition aead_decrypt_raw ::
  "crypto \<Rightarrow> cipher_method \<Rightarrow> u8 list \<Rightarrow> u8 list \<Rightarrow> u8 list \<Rightarrow> shadowsocks_error + u8 list" where
  "aead_decrypt_raw cr m key nonce ciphertext =
    try_bind (AeadCipher_new m key) (\<lambda>cipher. AeadCipher_decrypt cr cipher nonce ciphertext)"

text \<open>A frame behind a salt; the salt drawn from the random source is an argument.\<close>

definition encrypt_frame ::
  "crypto \<Rightarrow> cipher_method \<Rightarrow> u8 list \<Rightarrow> u8 list \<Rightarrow> u8 list \<Rightarrow> shadowsocks_error + u8 list" where
  "encrypt_frame cr m key salt plaintext =
    try_bind (derive_key cr m key salt) (\<lambda>subkey.
    try_bind (aead_encrypt_raw cr m subkey (replicate (nonce_size m) 0) plaintext) (\<lambda>ciphertext.
      Ok (salt @ ciphertext)))"

definition decrypt_frame :: "crypto \<Rightarrow> cipher_method \<Rightarrow> u8 list \<Rightarrow> u8 list \<Rightarrow> shadowsocks_error + u8 list" where
  "decrypt_frame cr m key data =
    (if length data < salt_size m then Err (DecryptionFailed ''data too short for salt'')
     else try_bind (derive_key cr m key (take (salt_size m) data)) (\<lambda>subkey.
          aead_decrypt_raw cr m subkey (replicate (nonce_size m) 0) (drop (salt_size m) data)))"

text \<open>The one-block chunk: length and text sealed together.\<close>

definition encrypt_chunk ::
  "crypto \<Rightarrow> cipher_method \<Rightarrow> u8 list \<Rightarrow> u8 list \<Rightarrow> u8 list \<Rightarrow> shadowsocks_error + u8 list" where
  "encrypt_chunk cr m key nonce plaintext =
    (if MAX_CHUNK_PAYLOAD < length plaintext
     then Err (Ss_Other (''plaintext too large for AEAD chunk: '' @ show_nat (length plaintext) @
            '' bytes (max '' @ show_nat MAX_CHUNK_PAYLOAD @ '')''))
     else aead_encrypt_raw cr m key nonce (to_be_bytes (word_of_nat (length plaintext)) @ plaintext))"

definition decrypt_chunk ::
  "crypto \<Rightarrow> cipher_method \<Rightarrow> u8 list \<Rightarrow> u8 list \<Rightarrow> u8 list \<Rightarrow> shadowsocks_error + u8 list" where
  "decrypt_chunk cr m key nonce data =
    try_bind (aead_decrypt_raw cr m key nonce data) (\<lambda>plaintext.
      if length plaintext < 2 then Err (DecryptionFailed ''chunk too short'')
      else (let len = unat (from_be_bytes (plaintext ! 0) (plaintext ! 1)) in
            if length plaintext < 2 + len then Err (DecryptionFailed ''chunk length mismatch'')
            else Ok (take len (drop 2 plaintext))))"

text \<open>The standard chunk: a sealed length block and a sealed payload block with the next nonce.\<close>

definition encrypt_chunk_with :: "crypto \<Rightarrow> aead_cipher \<Rightarrow> u8 list \<Rightarrow> u8 list \<Rightarrow> shadowsocks_error + u8 list" where
  "encrypt_chunk_with cr cipher nonce payload =
    try_bind (AeadCipher_encrypt cr cipher nonce (to_be_bytes (word_of_nat (length payload)))) (\<lambda>len_ct.
    try_bind (nonce_increment nonce 12) (\<lambda>payload_nonce.
    try_bind (AeadCipher_encrypt cr cipher payload_nonce payload) (\<lambda>payload_ct.
      Ok (len_ct @ payload_ct))))"

definition encrypt_chunk_standard ::
  "crypto \<Rightarrow> cipher_method \<Rightarrow> u8 list \<Rightarrow> u8 list \<Rightarrow> u8 list \<Rightarrow> shadowsocks_error + u8 list" where
  "encrypt_chunk_standard cr m key nonce payload =
    (if MAX_CHUNK_PAYLOAD < length payload
     then Err (Ss_Other (''payload too large for standard AEAD chunk: '' @ show_nat (length payload) @
            '' bytes (max '' @ show_nat MAX_CHUNK_PAYLOAD @ '')''))
     else try_bind (AeadCipher_new m key) (\<lambda>cipher. encrypt_chunk_with cr cipher nonce payload))"

definition payload_too_long :: "nat \<Rightarrow> shadowsocks_error" where
  "payload_too_long n =
    DecryptionFailed (''payload length '' @ show_nat n @ '' exceeds maximum '' @ show_nat MAX_CHUNK_PAYLOAD)"

definition decrypt_chunk_with :: "crypto \<Rightarrow> aead_cipher \<Rightarrow> u8 list \<Rightarrow> u8 list \<Rightarrow> shadowsocks_error + u8 list" where
  "decrypt_chunk_with cr cipher nonce data =
    (let len_block_size = 2 + AEAD_TAG_SIZE in
     if length data < len_block_size then Err (DecryptionFailed ''data too short for length block'')
     else try_bind (AeadCipher_decrypt cr cipher nonce (take len_block_size data)) (\<lambda>len_plaintext.
       if length len_plaintext \<noteq> 2 then Err (DecryptionFailed ''length block plaintext invalid'')
       else (let payload_len = unat (from_be_bytes (len_plaintext ! 0) (len_plaintext ! 1)) in
             if MAX_CHUNK_PAYLOAD < payload_len then Err (payload_too_long payload_len)
             else (let expected_total = len_block_size + payload_len + AEAD_TAG_SIZE in
                   if length data < expected_total
                   then Err (DecryptionFailed (''insufficient data: expected '' @ show_nat expected_total @
                          '' bytes, got '' @ show_nat (length data)))
                   else try_bind (nonce_increment nonce 12) (\<lambda>payload_nonce.
                        AeadCipher_decrypt cr cipher payload_nonce
                          (take (payload_len + AEAD_TAG_SIZE) (drop len_block_size data)))))))"

definition decrypt_chunk_standard ::
  "crypto \<Rightarrow> cipher_method \<Rightarrow> u8 list \<Rightarrow> u8 list \<Rightarrow> u8 list \<Rightarrow> shadowsocks_error + u8 list" where
  "decrypt_chunk_standard cr m key nonce data =
    try_bind (AeadCipher_new m key) (\<lambda>cipher. decrypt_chunk_with cr cipher nonce data)"

text \<open>\<^verbatim>\<open>slice::chunks\<close>.\<close>

function chunks :: "nat \<Rightarrow> 'a list \<Rightarrow> 'a list list" where
  "chunks n xs = (if xs = [] \<or> n = 0 then [] else take n xs # chunks n (drop n xs))"
  by pat_completeness auto
termination
  by (relation "measure (\<lambda>(n, xs). length xs)") auto

declare chunks.simps [simp del]

fun encrypt_chunks_loop :: "crypto \<Rightarrow> aead_cipher \<Rightarrow> u8 list \<Rightarrow> u8 list list \<Rightarrow> shadowsocks_error + u8 list" where
  "encrypt_chunks_loop cr cipher nonce [] = Ok []"
| "encrypt_chunks_loop cr cipher nonce (c # cs) =
    try_bind (encrypt_chunk_with cr cipher nonce c) (\<lambda>wire.
    try_bind (nonce_increment nonce 12) (\<lambda>length_nonce.
    try_bind (nonce_increment length_nonce 12) (\<lambda>next_nonce.
    try_bind (encrypt_chunks_loop cr cipher next_nonce cs) (\<lambda>rest. Ok (wire @ rest)))))"

definition encrypt_standard_chunks ::
  "crypto \<Rightarrow> cipher_method \<Rightarrow> u8 list \<Rightarrow> u8 list \<Rightarrow> u8 list \<Rightarrow> shadowsocks_error + u8 list" where
  "encrypt_standard_chunks cr m key nonce plaintext =
    try_bind (AeadCipher_new m key) (\<lambda>cipher.
      encrypt_chunks_loop cr cipher nonce (chunks MAX_CHUNK_PAYLOAD plaintext))"

text \<open>The loop over the remaining data, which each round shortens.\<close>

function decrypt_chunks_loop :: "crypto \<Rightarrow> aead_cipher \<Rightarrow> u8 list \<Rightarrow> u8 list \<Rightarrow> shadowsocks_error + u8 list" where
  "decrypt_chunks_loop cr cipher nonce data =
    (if data = [] then Ok []
     else if length data < 2 + AEAD_TAG_SIZE
     then Err (DecryptionFailed ''data too short for pproxy length block'')
     else try_bind (AeadCipher_decrypt cr cipher nonce (take (2 + AEAD_TAG_SIZE) data)) (\<lambda>length_plaintext.
       let payload_len = unat (from_be_bytes (length_plaintext ! 0) (length_plaintext ! 1)) in
       if MAX_CHUNK_PAYLOAD < payload_len then Err (payload_too_long payload_len)
       else (let data1 = drop (2 + AEAD_TAG_SIZE) data; payload_wire_len = payload_len + AEAD_TAG_SIZE in
             if length data1 < payload_wire_len
             then Err (DecryptionFailed ''data too short for pproxy payload block'')
             else try_bind (nonce_increment nonce 12) (\<lambda>length_nonce.
                  try_bind (AeadCipher_decrypt cr cipher length_nonce (take payload_wire_len data1)) (\<lambda>payload.
                  try_bind (nonce_increment length_nonce 12) (\<lambda>next_nonce.
                  try_bind (decrypt_chunks_loop cr cipher next_nonce (drop payload_wire_len data1)) (\<lambda>rest.
                    Ok (payload @ rest))))))))"
  by pat_completeness auto
termination
  by (relation "measure (\<lambda>(cr, cipher, nonce, data). length data)") (auto simp: AEAD_TAG_SIZE_def)

declare decrypt_chunks_loop.simps [simp del]

definition decrypt_standard_chunks ::
  "crypto \<Rightarrow> cipher_method \<Rightarrow> u8 list \<Rightarrow> u8 list \<Rightarrow> u8 list \<Rightarrow> shadowsocks_error + u8 list" where
  "decrypt_standard_chunks cr m key nonce data =
    try_bind (AeadCipher_new m key) (\<lambda>cipher. decrypt_chunks_loop cr cipher nonce data)"

subsection \<open>The salt replay window\<close>

record salt_window =
  salt_seen :: "u8 list list"
  salt_order :: "u8 list list"

definition MAX_SEEN_TCP_SALTS :: nat where "MAX_SEEN_TCP_SALTS = 4096"

definition salt_window_empty :: salt_window where
  "salt_window_empty = \<lparr>salt_seen = [], salt_order = []\<rparr>"

text \<open>The set is a list without repetitions; \<open>removeAll\<close> and insertion in front are its operations.\<close>

definition check_tcp_salt_replay :: "u8 list \<Rightarrow> salt_window \<Rightarrow> bool \<times> salt_window" where
  "check_tcp_salt_replay salt w =
    (if salt \<in> set (salt_seen w) then (True, w)
     else (let w1 = (if MAX_SEEN_TCP_SALTS \<le> length (salt_order w) then
                       (case salt_order w of
                          [] \<Rightarrow> w
                        | oldest # order \<Rightarrow>
                            \<lparr>salt_seen = removeAll oldest (salt_seen w), salt_order = order\<rparr>)
                     else w)
           in (False, \<lparr>salt_seen = List.insert salt (salt_seen w1), salt_order = salt_order w1 @ [salt]\<rparr>)))"

subsection \<open>The address format is an address codec\<close>

text \<open>It is the SOCKS5 one; targets and SOCKS addresses are the same data.\<close>

definition socks_form :: "target_addr \<Rightarrow> socks_addr" where
  "socks_form t =
    (case tgt_host t of
       Ip (V4 a) \<Rightarrow> Socks_IPv4 a (tgt_port t)
     | Ip (V6 a) \<Rightarrow> Socks_IPv6 a (tgt_port t)
     | Domain d \<Rightarrow> Socks_Domain d (tgt_port t))"

lemma socks_form_inject: "socks_form s = socks_form t \<longleftrightarrow> s = t"
  by (cases s; cases t) (auto simp: socks_form_def split: target_host.splits ip_addr.splits)

lemma socks_form_surj: "\<exists>t. socks_form t = a"
proof (cases a)
  case (Socks_IPv4 x p)
  then show ?thesis by (intro exI [of _ "\<lparr>tgt_host = Ip (V4 x), tgt_port = p\<rparr>"]) (simp add: socks_form_def)
next
  case (Socks_Domain x p)
  then show ?thesis by (intro exI [of _ "\<lparr>tgt_host = Domain x, tgt_port = p\<rparr>"]) (simp add: socks_form_def)
next
  case (Socks_IPv6 x p)
  then show ?thesis by (intro exI [of _ "\<lparr>tgt_host = Ip (V6 x), tgt_port = p\<rparr>"]) (simp add: socks_form_def)
qed

lemma encode_address_socks: "result_ok (encode_address t) = result_ok (encode_reply (socks_form t))"
  by (auto simp: encode_address_def socks_form_def Let_def socks5_consts split: target_host.splits ip_addr.splits)

definition ss_dec :: "u8 list \<Rightarrow> (target_addr \<times> u8 list) option" where
  "ss_dec bs = (case decode_address bs of Inl _ \<Rightarrow> None | Inr (t, n) \<Rightarrow> Some (t, drop n bs))"

definition ss_enc :: "target_addr \<Rightarrow> u8 list option" where
  "ss_enc t = (if wf_socks_addr (socks_form t) then result_ok (encode_address t) else None)"

lemma decode_address_socks:
  "ss_dec bs = Some (t, rest) \<longleftrightarrow> socks_dec bs = Some (socks_form t, rest)"
proof (cases bs)
  case Nil
  then show ?thesis by (simp add: ss_dec_def decode_address_def)
next
  case (Cons ty body)
  consider (v4) "ty = 1" | (dom) "ty = 3" | (v6) "ty = 4" | (other) "ty \<noteq> 1" "ty \<noteq> 3" "ty \<noteq> 4" by blast
  then show ?thesis
  proof cases
    case v4
    show ?thesis
    proof (cases "6 \<le> length body")
      case True
      then obtain a b c d e f r where "body = a # b # c # d # e # f # r"
        by (auto simp: numeral_eq_Suc Suc_le_length_iff)
      then show ?thesis using v4 Cons
        by (cases t) (auto simp: ss_dec_def decode_address_def decode_host_def Let_def parse_addr_body_def socks_form_def
            socks5_consts split: target_host.splits ip_addr.splits)
    next
      case False
      with v4 Cons show ?thesis
        by (auto simp: ss_dec_def decode_address_def decode_host_def Let_def parse_addr_body_def socks5_consts)
    qed
  next
    case v6
    then show ?thesis using Cons
      by (cases t) (auto simp: ss_dec_def decode_address_def decode_host_def Let_def parse_addr_body_def socks_form_def
          socks5_consts split: target_host.splits ip_addr.splits)
  next
    case dom
    then show ?thesis using Cons
      by (cases t) (auto simp: ss_dec_def decode_address_def decode_host_def Let_def parse_addr_body_def socks_form_def
          socks5_consts nth_Cons' numeral_3_eq_3 split: target_host.splits ip_addr.splits option.splits)
  next
    case other
    with Cons show ?thesis
      by (auto simp: ss_dec_def decode_address_def decode_host_def Let_def parse_addr_body_def socks5_consts)
  qed
qed

interpretation ss: address_codec ss_enc ss_dec
proof unfold_locales
  fix t bs rest
  assume "ss_enc t = Some bs"
  then have "socks_enc (socks_form t) = Some bs"
    by (simp add: ss_enc_def socks_enc_def encode_address_socks split: if_splits)
  then show "ss_dec (bs @ rest) = Some (t, rest)" by (simp add: decode_address_socks socks.dec_enc)
next
  fix bs t rest
  assume "ss_dec bs = Some (t, rest)"
  then obtain pre where "socks_enc (socks_form t) = Some pre" "bs = pre @ rest"
    using socks.enc_dec decode_address_socks by blast
  then show "\<exists>pre. ss_enc t = Some pre \<and> bs = pre @ rest"
    by (auto simp: ss_enc_def socks_enc_def encode_address_socks split: if_splits)
qed

lemma decode_address_append:
  assumes "wf_socks_addr (socks_form t)" "encode_address t = Ok bs"
  shows "decode_address (bs @ rest) = Ok (t, length bs)"
proof -
  have "ss_enc t = Some bs" using assms by (simp add: ss_enc_def)
  then have "ss_dec (bs @ rest) = Some (t, rest)" by (rule ss.dec_enc)
  then obtain n where n: "decode_address (bs @ rest) = Ok (t, n)" and d: "drop n (bs @ rest) = rest"
    by (auto simp: ss_dec_def split: sum.splits)
  have "n \<le> length (bs @ rest)"
    using n by (auto simp: decode_address_def split: if_splits sum.splits)
  then have "n = length bs" using arg_cong [OF d, of length] by simp
  with n show ?thesis by simp
qed

subsection \<open>Sealed chunks open again\<close>

lemma crypto_okD:
  assumes "crypto_ok cr"
  shows "length k = key_size m \<Longrightarrow> length n = 12 \<Longrightarrow> length p \<le> 65536 \<Longrightarrow>
      \<exists>c. aead_seal cr m k n p = Some c \<and> length c = length p + 16 \<and> aead_open cr m k n c = Some p"
    and "aead_open cr m k n c = Some q \<Longrightarrow> length c = length q + 16"
    and "aead_seal cr m k n q = Some c \<Longrightarrow> length c = length q + 16"
    and "len \<le> 64 \<Longrightarrow> \<exists>k. hkdf_sha1 cr salt ikm info len = Some k \<and> length k = len"
    and "length (md5 cr bs) = 16"
  using assms unfolding crypto_ok_def by blast+

lemma AeadCipher_encrypt_ok:
  assumes "crypto_ok cr" "length (snd ci) = key_size (fst ci)" "length n = 12" "length p \<le> 65536"
  shows "\<exists>c. AeadCipher_encrypt cr ci n p = Ok c \<and> length c = length p + 16 \<and> AeadCipher_decrypt cr ci n c = Ok p"
  using crypto_okD(1) [OF assms] by (auto simp: AeadCipher_encrypt_def AeadCipher_decrypt_def)

lemma AeadCipher_encrypt_Ok:
  assumes "crypto_ok cr" "length (snd ci) = key_size (fst ci)" "length n = 12" "length p \<le> 65536"
    "AeadCipher_encrypt cr ci n p = Ok c"
  shows "length c = length p + 16" "AeadCipher_decrypt cr ci n c = Ok p"
  using AeadCipher_encrypt_ok [OF assms(1-4)] assms(5) by auto

lemma AeadCipher_new_Ok: "AeadCipher_new m key = Ok ci \<longleftrightarrow> length key = key_size m \<and> ci = (m, key)"
  by (auto simp: AeadCipher_new_def)

lemma derive_key_ok:
  assumes "crypto_ok cr"
  shows "\<exists>k. derive_key_from_ikm cr m ikm salt = Ok k \<and> length k = key_size m"
proof -
  have "key_size m \<le> 64" by (cases m) auto
  from crypto_okD(4) [OF assms this, of salt "take (key_size m) ikm" "as_bytes ''ss-subkey''"]
  show ?thesis by (auto simp: derive_key_from_ikm_def)
qed

lemma length_increment_bytes: "increment_bytes bs = Some cs \<Longrightarrow> length cs = length bs"
  by (induction bs arbitrary: cs) (auto split: if_splits)

lemma nonce_increment_Ok: "nonce_increment n len = Ok n' \<Longrightarrow> length n = len \<and> length n' = len"
  by (auto simp: nonce_increment_def length_increment_bytes split: if_splits option.splits)

lemma unat_length_u16: "n \<le> MAX_CHUNK_PAYLOAD \<Longrightarrow> unat (word_of_nat n :: u16) = n"
  by (simp add: unat_of_nat MAX_CHUNK_PAYLOAD_def)

lemma length_block_value:
  "n \<le> MAX_CHUNK_PAYLOAD \<Longrightarrow>
   unat (from_be_bytes (to_be_bytes (word_of_nat n) ! 0) (to_be_bytes (word_of_nat n) ! 1)) = n"
proof -
  assume "n \<le> MAX_CHUNK_PAYLOAD"
  moreover have "from_be_bytes (to_be_bytes p ! 0) (to_be_bytes p ! 1) = p" for p by (simp add: to_be_bytes_def)
  ultimately show ?thesis by (simp add: unat_length_u16)
qed

lemma encrypt_chunk_with_Ok:
  assumes "crypto_ok cr" "length (snd ci) = key_size (fst ci)" "length payload \<le> MAX_CHUNK_PAYLOAD"
    "encrypt_chunk_with cr ci nonce payload = Ok wire"
  obtains len_ct payload_ct n' where "wire = len_ct @ payload_ct" "length len_ct = 18"
    "length payload_ct = length payload + 16" "nonce_increment nonce 12 = Ok n'"
    "AeadCipher_decrypt cr ci nonce len_ct = Ok (to_be_bytes (word_of_nat (length payload)))"
    "AeadCipher_decrypt cr ci n' payload_ct = Ok payload"
proof -
  from assms(4) obtain len_ct n' payload_ct where
    a: "AeadCipher_encrypt cr ci nonce (to_be_bytes (word_of_nat (length payload))) = Ok len_ct" and
    b: "nonce_increment nonce 12 = Ok n'" and
    c: "AeadCipher_encrypt cr ci n' payload = Ok payload_ct" and w: "wire = len_ct @ payload_ct"
    by (auto simp: encrypt_chunk_with_def try_bind_Ok_iff)
  have n: "length nonce = 12" "length n' = 12" using nonce_increment_Ok [OF b] by auto
  have p: "length payload \<le> 65536" using assms(3) by (simp add: MAX_CHUNK_PAYLOAD_def)
  from AeadCipher_encrypt_Ok [OF assms(1,2) n(1) _ a] AeadCipher_encrypt_Ok [OF assms(1,2) n(2) p c] w b
  show thesis by (intro that [of len_ct payload_ct n']) auto
qed

lemma decrypt_encrypt_chunk_with:
  assumes "crypto_ok cr" "length (snd ci) = key_size (fst ci)" "length payload \<le> MAX_CHUNK_PAYLOAD"
    "encrypt_chunk_with cr ci nonce payload = Ok wire"
  shows "decrypt_chunk_with cr ci nonce (wire @ rest) = Ok payload"
proof -
  obtain len_ct payload_ct n' where e: "wire = len_ct @ payload_ct" "length len_ct = 18"
    "length payload_ct = length payload + 16" "nonce_increment nonce 12 = Ok n'"
    "AeadCipher_decrypt cr ci nonce len_ct = Ok (to_be_bytes (word_of_nat (length payload)))"
    "AeadCipher_decrypt cr ci n' payload_ct = Ok payload"
    by (rule encrypt_chunk_with_Ok [OF assms])
  show ?thesis
    unfolding decrypt_chunk_with_def Let_def AEAD_TAG_SIZE_def
    using e assms(3) length_block_value [OF assms(3)] by (simp add: not_less)
qed

lemma concat_chunks: "0 < n \<Longrightarrow> concat (chunks n xs) = xs"
  by (induction n xs rule: chunks.induct) (subst chunks.simps, simp)

lemma chunks_bounds: "c \<in> set (chunks n xs) \<Longrightarrow> c \<noteq> [] \<and> length c \<le> n"
proof (induction n xs rule: chunks.induct)
  case (1 n xs)
  show ?case
  proof (cases "xs = [] \<or> n = 0")
    case False
    with 1 show ?thesis by (auto simp: chunks.simps [of n xs])
  qed (use "1.prems" in \<open>auto simp: chunks.simps [of n xs]\<close>)
qed

lemma decrypt_encrypt_chunks_loop:
  assumes "crypto_ok cr" "length (snd ci) = key_size (fst ci)"
    "\<And>c. c \<in> set cs \<Longrightarrow> length c \<le> MAX_CHUNK_PAYLOAD" "encrypt_chunks_loop cr ci nonce cs = Ok wire"
  shows "decrypt_chunks_loop cr ci nonce wire = Ok (concat cs)"
  using assms(3,4)
proof (induction cs arbitrary: nonce wire)
  case Nil
  then show ?case by (simp add: decrypt_chunks_loop.simps)
next
  case (Cons c cs)
  then obtain w ln nn rest where
    w: "encrypt_chunk_with cr ci nonce c = Ok w" and ln: "nonce_increment nonce 12 = Ok ln" and
    nn: "nonce_increment ln 12 = Ok nn" and r: "encrypt_chunks_loop cr ci nn cs = Ok rest" and
    wire: "wire = w @ rest"
    by (auto simp: try_bind_Ok_iff)
  have le: "length c \<le> MAX_CHUNK_PAYLOAD" using Cons.prems(1) by simp
  obtain len_ct payload_ct n' where e: "w = len_ct @ payload_ct" "length len_ct = 18"
    "length payload_ct = length c + 16" "nonce_increment nonce 12 = Ok n'"
    "AeadCipher_decrypt cr ci nonce len_ct = Ok (to_be_bytes (word_of_nat (length c)))"
    "AeadCipher_decrypt cr ci n' payload_ct = Ok c"
    by (rule encrypt_chunk_with_Ok [OF assms(1,2) le w])
  have "n' = ln" using e(4) ln by simp
  moreover have "decrypt_chunks_loop cr ci nn rest = Ok (concat cs)" using Cons.IH [OF _ r] Cons.prems(1) by simp
  ultimately show ?case
    using e ln nn wire le length_block_value [OF le]
    by (subst decrypt_chunks_loop.simps) (auto simp: Let_def AEAD_TAG_SIZE_def)
qed

lemma standard_chunks_open:
  assumes "crypto_ok cr" "encrypt_standard_chunks cr m key nonce plaintext = Ok wire"
  shows "decrypt_standard_chunks cr m key nonce wire = Ok plaintext"
proof -
  from assms(2) have k: "length key = key_size m"
    and e: "encrypt_chunks_loop cr (m, key) nonce (chunks MAX_CHUNK_PAYLOAD plaintext) = Ok wire"
    by (auto simp: encrypt_standard_chunks_def try_bind_Ok_iff AeadCipher_new_Ok)
  have "decrypt_chunks_loop cr (m, key) nonce wire = Ok (concat (chunks MAX_CHUNK_PAYLOAD plaintext))"
    by (rule decrypt_encrypt_chunks_loop [OF assms(1) _ _ e]) (use k chunks_bounds in auto)
  then show ?thesis using k by (simp add: decrypt_standard_chunks_def AeadCipher_new_def concat_chunks MAX_CHUNK_PAYLOAD_def)
qed

text \<open>
  A sequence of sealed chunks decrypts to the text. Whatever the cipher library, as long as it
  opens what it sealed, data of any length that the chunker encrypts is recovered by the
  decrypting loop: cut into pieces of at most 16383 bytes, each with its sealed length and two
  consecutive nonces, and put together again; the loop ends for every input.
\<close>

lemma standard_chunks_roundtrip:
  assumes "crypto_ok cr" "encrypt_standard_chunks cr m key nonce plaintext = Ok wire"
  shows "decrypt_standard_chunks cr m key nonce wire = Ok plaintext"
  using assms by (rule standard_chunks_open)

text \<open>An instance that keeps the documented behaviour: text with a tag of zeros.\<close>

definition plain_crypto :: crypto where
  "plain_crypto =
    \<lparr>aead_seal = (\<lambda>m k n p. Some (p @ replicate 16 0)),
     aead_open = (\<lambda>m k n c. if 16 \<le> length c then Some (take (length c - 16) c) else None),
     hkdf_sha1 = (\<lambda>salt ikm info len. Some (replicate len 0)),
     md5 = (\<lambda>bs. replicate 16 0)\<rparr>"

lemma plain_crypto_ok: "crypto_ok plain_crypto"
  by (auto simp: crypto_ok_def plain_crypto_def split: if_splits)

lemma standard_chunks_roundtrip_witness:
  "\<exists>wire. encrypt_standard_chunks plain_crypto Aes128Gcm (replicate 16 7) (replicate 12 0) [1, 2, 3] = Ok wire \<and>
     length wire = 37 \<and>
     decrypt_standard_chunks plain_crypto Aes128Gcm (replicate 16 7) (replicate 12 0) wire = Ok [1, 2, 3]"
proof -
  let ?w = "[0, 3] @ replicate 16 0 @ [1, 2, 3] @ replicate 16 (0 :: u8)"
  have "encrypt_standard_chunks plain_crypto Aes128Gcm (replicate 16 7) (replicate 12 0) [1, 2, 3] = Ok ?w"
    by code_simp
  with standard_chunks_roundtrip [OF plain_crypto_ok this] show ?thesis by simp
qed

subsection \<open>Nonces never repeat\<close>

definition nonce_of :: "u64 \<Rightarrow> u8 list" where
  "nonce_of c = to_le_bytes64 c @ replicate 4 0"

lemma length_nonce_of [simp]: "length (nonce_of c) = 12"
  by (simp add: nonce_of_def)

lemma NonceCounter_current_12 [simp]: "nc_size nc = 12 \<Longrightarrow> NonceCounter_current nc 12 = Ok (nonce_of (nc_counter nc))"
  by (simp add: NonceCounter_current_def nonce_of_def)

lemma to_le_bytes64_nth: "i < 8 \<Longrightarrow> unat (to_le_bytes64 w ! i) = unat w div 256 ^ i mod 256"
  by (simp add: to_le_bytes64_def unat_of_nat)

lemma sum_base_256: "(\<Sum>i<n. x div 256 ^ i mod 256 * 256 ^ i) = x mod 256 ^ n" for x :: nat
proof (induction n)
  case (Suc n)
  have "x mod 256 ^ Suc n = 256 ^ n * (x div 256 ^ n mod 256) + x mod 256 ^ n"
    by (metis mod_mult2_eq power_Suc2)
  with Suc show ?case by (simp add: mult.commute)
qed simp

lemma to_le_bytes64_inject: "to_le_bytes64 v = to_le_bytes64 w \<longleftrightarrow> v = w"
proof
  assume eq: "to_le_bytes64 v = to_le_bytes64 w"
  have "unat v div 256 ^ i mod 256 = unat w div 256 ^ i mod 256" if "i < 8" for i
    using to_le_bytes64_nth [OF that, of v] to_le_bytes64_nth [OF that, of w] eq by simp
  then have "unat v mod 256 ^ 8 = unat w mod 256 ^ 8"
    unfolding sum_base_256 [symmetric] by (intro sum.cong) auto
  moreover have "unat u mod 256 ^ 8 = unat u" for u :: u64
    using unsigned_less [of u, where 'a = nat] by simp
  ultimately show "v = w" by (simp add: word_unat_eq_iff)
qed simp

lemma nonce_of_inject [simp]: "nonce_of v = nonce_of w \<longleftrightarrow> v = w"
  by (simp add: nonce_of_def to_le_bytes64_inject)

end
