(* ===== verification/Udp_Hop.thy ===== *)
theory Udp_Hop
  imports Shadowsocks
begin

text \<open>
  UDP through chains of proxies: the Shadowsocks packets of
  \<^verbatim>\<open>eggress-protocol-shadowsocks/src/udp.rs\<close>, the hop stacks of \<^verbatim>\<open>eggress-udp/src/hop.rs\<close> and
  the relay capabilities of \<^verbatim>\<open>eggress-udp/src/udp_capability.rs\<close> (built with the
  \<^verbatim>\<open>shadowsocks\<close> feature). Results: packets and nested packets are opened by the matching
  decoders, layer by layer with the right next target; the relay reports a chain as supported
  exactly when a hop stack can be built from it.
\<close>

subsection \<open>Shadowsocks packets\<close>

definition SS_MAX_DOMAIN_LEN :: nat where "SS_MAX_DOMAIN_LEN = 255"
definition MAX_UDP_PACKET_SIZE :: nat where "MAX_UDP_PACKET_SIZE = 65535"

definition domain_too_long :: "target_addr \<Rightarrow> shadowsocks_error option" where
  "domain_too_long target =
    (case tgt_host target of
       Domain domain \<Rightarrow>
         if SS_MAX_DOMAIN_LEN < length domain
         then Some (InvalidAddress (''domain too long: '' @ show_nat (length domain) @
                '' exceeds maximum '' @ show_nat SS_MAX_DOMAIN_LEN))
         else None
     | Ip _ \<Rightarrow> None)"

definition check_domain :: "target_addr \<Rightarrow> shadowsocks_error + unit" where
  "check_domain target = (case domain_too_long target of Some e \<Rightarrow> Err e | None \<Rightarrow> Ok ())"

definition check_salt :: "cipher_method \<Rightarrow> u8 list \<Rightarrow> shadowsocks_error + unit" where
  "check_salt m salt =
    (if length salt \<noteq> salt_size m
     then Err (DecryptionFailed (''salt must be '' @ show_nat (salt_size m) @ '' bytes, got '' @
            show_nat (length salt)))
     else Ok ())"

definition udp_plaintext :: "target_addr \<Rightarrow> u8 list \<Rightarrow> shadowsocks_error + u8 list" where
  "udp_plaintext target payload =
    try_bind (check_domain target) (\<lambda>_.
    try_bind (encode_address target) (\<lambda>address. Ok (address @ payload)))"

definition encode_udp_packet_with_ikm ::
  "crypto \<Rightarrow> cipher_method \<Rightarrow> u8 list \<Rightarrow> target_addr \<Rightarrow> u8 list \<Rightarrow> u8 list \<Rightarrow> shadowsocks_error + u8 list" where
  "encode_udp_packet_with_ikm cr m full_ikm target payload salt =
    try_bind (check_salt m salt) (\<lambda>_.
    try_bind (derive_key_from_ikm cr m full_ikm salt) (\<lambda>subkey.
    try_bind (check_domain target) (\<lambda>_.
    try_bind (encode_address target) (\<lambda>address.
    try_bind (aead_encrypt_raw cr m subkey (replicate (nonce_size m) 0) (address @ payload)) (\<lambda>ciphertext.
      Ok (salt @ ciphertext))))))"

definition encode_udp_packet ::
  "crypto \<Rightarrow> cipher_method \<Rightarrow> u8 list \<Rightarrow> target_addr \<Rightarrow> u8 list \<Rightarrow> u8 list \<Rightarrow> shadowsocks_error + u8 list" where
  "encode_udp_packet cr m password target payload salt =
    encode_udp_packet_with_ikm cr m (password_key_material cr password) target payload salt"

definition decode_udp_packet_with_ikm ::
  "crypto \<Rightarrow> cipher_method \<Rightarrow> u8 list \<Rightarrow> u8 list \<Rightarrow> shadowsocks_error + (target_addr \<times> u8 list)" where
  "decode_udp_packet_with_ikm cr m full_ikm packet =
    (if length packet < salt_size m + tag_size m then Err (DecryptionFailed ''packet too short'')
     else if MAX_UDP_PACKET_SIZE < length packet
     then Err (DecryptionFailed (''packet too large: '' @ show_nat (length packet) @
            '' exceeds maximum '' @ show_nat MAX_UDP_PACKET_SIZE))
     else try_bind (derive_key_from_ikm cr m full_ikm (take (salt_size m) packet)) (\<lambda>subkey.
          try_bind (aead_decrypt_raw cr m subkey (replicate (nonce_size m) 0) (drop (salt_size m) packet)) (\<lambda>plaintext.
          try_bind (decode_address plaintext) (\<lambda>(target, addr_len).
          try_bind (check_domain target) (\<lambda>_. Ok (target, drop addr_len plaintext))))))"

definition decode_udp_packet ::
  "crypto \<Rightarrow> cipher_method \<Rightarrow> u8 list \<Rightarrow> u8 list \<Rightarrow> shadowsocks_error + (target_addr \<times> u8 list)" where
  "decode_udp_packet cr m password packet =
    decode_udp_packet_with_ikm cr m (password_key_material cr password) packet"

definition encode_pproxy_udp_packet_with_ikm ::
  "crypto \<Rightarrow> cipher_method \<Rightarrow> u8 list \<Rightarrow> target_addr \<Rightarrow> u8 list \<Rightarrow> u8 list \<Rightarrow> shadowsocks_error + u8 list" where
  "encode_pproxy_udp_packet_with_ikm cr m full_ikm target payload salt =
    try_bind (udp_plaintext target payload) (\<lambda>plaintext.
    try_bind (check_salt m salt) (\<lambda>_.
    try_bind (derive_key_from_ikm cr m full_ikm salt) (\<lambda>subkey.
    try_bind (encrypt_standard_chunks cr m subkey (replicate (nonce_size m) 0) plaintext) (\<lambda>ciphertext.
      Ok (salt @ ciphertext)))))"

definition encode_pproxy_udp_packet ::
  "crypto \<Rightarrow> cipher_method \<Rightarrow> u8 list \<Rightarrow> target_addr \<Rightarrow> u8 list \<Rightarrow> u8 list \<Rightarrow> shadowsocks_error + u8 list" where
  "encode_pproxy_udp_packet cr m password target payload salt =
    encode_pproxy_udp_packet_with_ikm cr m (password_key_material cr password) target payload salt"

definition decode_pproxy_udp_packet_with_ikm ::
  "crypto \<Rightarrow> cipher_method \<Rightarrow> u8 list \<Rightarrow> u8 list \<Rightarrow> shadowsocks_error + (target_addr \<times> u8 list)" where
  "decode_pproxy_udp_packet_with_ikm cr m full_ikm packet =
    (if length packet < salt_size m + 2 + tag_size m + tag_size m
     then Err (DecryptionFailed ''packet too short'')
     else try_bind (derive_key_from_ikm cr m full_ikm (take (salt_size m) packet)) (\<lambda>subkey.
          try_bind (decrypt_standard_chunks cr m subkey (replicate (nonce_size m) 0) (drop (salt_size m) packet))
            (\<lambda>plaintext.
          try_bind (decode_address plaintext) (\<lambda>(target, addr_len). Ok (target, drop addr_len plaintext)))))"

definition decode_pproxy_udp_packet ::
  "crypto \<Rightarrow> cipher_method \<Rightarrow> u8 list \<Rightarrow> u8 list \<Rightarrow> shadowsocks_error + (target_addr \<times> u8 list)" where
  "decode_pproxy_udp_packet cr m password packet =
    decode_pproxy_udp_packet_with_ikm cr m (password_key_material cr password) packet"

subsection \<open>Hops\<close>

text \<open>\<^verbatim>\<open>Codec\<close> carries the text of an error; the model carries the error.\<close>

datatype codec_error = Codec_Socks udp_codec_error | Codec_Ss shadowsocks_error | Codec_Empty

datatype udp_hop_error =
  MultipleProtocols
| Hop_UnsupportedProtocol protocol_spec
| InvalidShadowsocksCredentials
| Codec codec_error

datatype udp_hop_codec =
  Hop_Socks5 (UdpHop_endpoint: target_addr)
| Hop_Shadowsocks (UdpHop_endpoint: target_addr) cipher_method "u8 list" "u8 list"

definition socks_to_target :: "socks_addr \<Rightarrow> target_addr" where
  "socks_to_target addr =
    (case addr of
       Socks_IPv4 ip port \<Rightarrow> \<lparr>tgt_host = Ip (V4 ip), tgt_port = port\<rparr>
     | Socks_IPv6 ip port \<Rightarrow> \<lparr>tgt_host = Ip (V6 ip), tgt_port = port\<rparr>
     | Socks_Domain domain port \<Rightarrow> \<lparr>tgt_host = Domain domain, tgt_port = port\<rparr>)"

definition target_to_socks :: "target_addr \<Rightarrow> socks_addr" where
  "target_to_socks addr =
    (case tgt_host addr of
       Ip (V4 ip) \<Rightarrow> Socks_IPv4 ip (tgt_port addr)
     | Ip (V6 ip) \<Rightarrow> Socks_IPv6 ip (tgt_port addr)
     | Domain domain \<Rightarrow> Socks_Domain domain (tgt_port addr))"

definition map_codec :: "('e \<Rightarrow> codec_error) \<Rightarrow> 'e + 'a \<Rightarrow> udp_hop_error + 'a" where
  "map_codec f r = (case r of Inl e \<Rightarrow> Err (Codec (f e)) | Inr a \<Rightarrow> Ok a)"

definition encode_socks_target :: "target_addr \<Rightarrow> u8 list \<Rightarrow> udp_hop_error + u8 list" where
  "encode_socks_target target payload =
    map_codec Codec_Socks (encode_socks5_udp_datagram (target_to_socks target) payload)"

text \<open>\<open>rnd\<close> is the buffer of 32 bytes the random source fills.\<close>

fun UdpHop_encode :: "crypto \<Rightarrow> u8 list \<Rightarrow> udp_hop_codec \<Rightarrow> target_addr \<Rightarrow> u8 list \<Rightarrow> udp_hop_error + u8 list" where
  "UdpHop_encode cr rnd (Hop_Socks5 _) target payload = encode_socks_target target payload"
| "UdpHop_encode cr rnd (Hop_Shadowsocks _ m _ password_ikm) target payload =
    map_codec Codec_Ss
      (encode_udp_packet_with_ikm cr m password_ikm target payload (take (salt_size m) rnd))"

fun UdpHop_decode :: "crypto \<Rightarrow> udp_hop_codec \<Rightarrow> u8 list \<Rightarrow> udp_hop_error + (target_addr \<times> u8 list)" where
  "UdpHop_decode cr (Hop_Socks5 _) packet =
    try_bind (map_codec Codec_Socks (decode_socks5_udp_datagram packet))
      (\<lambda>(target, payload). Ok (socks_to_target target, payload))"
| "UdpHop_decode cr (Hop_Shadowsocks _ m _ password_ikm) packet =
    map_codec Codec_Ss (decode_udp_packet_with_ikm cr m password_ikm packet)"

definition endpoint_target :: "string \<Rightarrow> u16 \<Rightarrow> target_addr" where
  "endpoint_target host port =
    \<lparr>tgt_host = (case parse_ip_addr host of Some ip \<Rightarrow> Ip ip | None \<Rightarrow> Domain host), tgt_port = port\<rparr>"

definition UdpHop_from_spec :: "crypto \<Rightarrow> proxy_hop_spec \<Rightarrow> udp_hop_error + udp_hop_codec" where
  "UdpHop_from_spec cr hop =
    (if length (hop_protocols hop) \<noteq> 1 then Err MultipleProtocols
     else (let endpoint = endpoint_target (ep_host (hop_endpoint hop)) (ep_port (hop_endpoint hop)) in
           case hop_protocols hop ! 0 of
             Spec_Socks5 \<Rightarrow> Ok (Hop_Socks5 endpoint)
           | Spec_Shadowsocks \<Rightarrow>
               (case hop_credentials hop of
                  None \<Rightarrow> Err InvalidShadowsocksCredentials
                | Some credentials \<Rightarrow>
                    (case parse_method (cred_username credentials) of
                       Inl _ \<Rightarrow> Err InvalidShadowsocksCredentials
                     | Inr m \<Rightarrow>
                         (let password = as_bytes (cred_password credentials) in
                          Ok (Hop_Shadowsocks endpoint m password (password_key_material cr password)))))
           | protocol \<Rightarrow> Err (Hop_UnsupportedProtocol protocol)))"

subsection \<open>Hop stacks\<close>

fun from_chain_loop :: "crypto \<Rightarrow> proxy_hop_spec list \<Rightarrow> udp_hop_error + udp_hop_codec list" where
  "from_chain_loop cr [] = Ok []"
| "from_chain_loop cr (h # hs) =
    try_bind (UdpHop_from_spec cr h) (\<lambda>x. try_bind (from_chain_loop cr hs) (\<lambda>xs. Ok (x # xs)))"

definition UdpHopStack_from_chain :: "crypto \<Rightarrow> proxy_chain_spec \<Rightarrow> udp_hop_error + udp_hop_codec list" where
  "UdpHopStack_from_chain cr chain = from_chain_loop cr (hops chain)"

definition UdpHopStack_from_hops :: "udp_hop_codec list \<Rightarrow> udp_hop_error + udp_hop_codec list" where
  "UdpHopStack_from_hops hs = (if hs = [] then Err (Codec Codec_Empty) else Ok hs)"

text \<open>The target the layer of hop \<open>i\<close> names.\<close>

definition next_target :: "udp_hop_codec list \<Rightarrow> target_addr \<Rightarrow> target_addr list \<Rightarrow> nat \<Rightarrow> target_addr" where
  "next_target hs target next_targets i =
    (if i + 1 = length hs then target
     else if i < length next_targets then next_targets ! i
     else UdpHop_endpoint (hs ! (i + 1)))"

text \<open>The loop from the last hop down to the first; \<open>rnd i\<close> is the buffer drawn for hop \<open>i\<close>.\<close>

fun encode_hops ::
  "crypto \<Rightarrow> (nat \<Rightarrow> u8 list) \<Rightarrow> udp_hop_codec list \<Rightarrow> target_addr \<Rightarrow> target_addr list \<Rightarrow> nat \<Rightarrow> u8 list
   \<Rightarrow> udp_hop_error + u8 list" where
  "encode_hops cr rnd hs target next_targets 0 packet = Ok packet"
| "encode_hops cr rnd hs target next_targets (Suc i) packet =
    try_bind (UdpHop_encode cr (rnd i) (hs ! i) (next_target hs target next_targets i) packet)
      (encode_hops cr rnd hs target next_targets i)"

definition encode_request_with_next_targets ::
  "crypto \<Rightarrow> (nat \<Rightarrow> u8 list) \<Rightarrow> udp_hop_codec list \<Rightarrow> target_addr \<Rightarrow> u8 list \<Rightarrow> target_addr list
   \<Rightarrow> udp_hop_error + u8 list" where
  "encode_request_with_next_targets cr rnd hs target payload next_targets =
    encode_hops cr rnd hs target next_targets (length hs) payload"

definition encode_request ::
  "crypto \<Rightarrow> (nat \<Rightarrow> u8 list) \<Rightarrow> udp_hop_codec list \<Rightarrow> target_addr \<Rightarrow> u8 list \<Rightarrow> udp_hop_error + u8 list" where
  "encode_request cr rnd hs target payload = encode_request_with_next_targets cr rnd hs target payload []"

fun decode_hops ::
  "crypto \<Rightarrow> udp_hop_codec list \<Rightarrow> target_addr option \<Rightarrow> u8 list \<Rightarrow> udp_hop_error + (target_addr option \<times> u8 list)" where
  "decode_hops cr [] target packet = Ok (target, packet)"
| "decode_hops cr (h # hs) target packet =
    try_bind (UdpHop_decode cr h packet)
      (\<lambda>(decoded_target, decoded_payload). decode_hops cr hs (Some decoded_target) decoded_payload)"

definition decode_response :: "crypto \<Rightarrow> udp_hop_codec list \<Rightarrow> u8 list \<Rightarrow> udp_hop_error + (target_addr \<times> u8 list)" where
  "decode_response cr hs packet =
    try_bind (decode_hops cr hs None packet) (\<lambda>(target, packet).
      case target of None \<Rightarrow> Err (Codec Codec_Empty) | Some t \<Rightarrow> Ok (t, packet))"

subsection \<open>Relay capabilities\<close>

datatype udp_relay_capability =
  SupportedSocks5
| SupportedComposed
| SupportedShadowsocks cipher_method string
| Relay_UnsupportedProtocol string
| UnsupportedMultiHop

text \<open>\<^verbatim>\<open>{:?}\<close> of a protocol and of a list of them.\<close>

fun protocol_debug :: "protocol_spec \<Rightarrow> string" where
  "protocol_debug Spec_Http = ''Http''"
| "protocol_debug Spec_HttpOnly = ''HttpOnly''"
| "protocol_debug Spec_Socks4 = ''Socks4''"
| "protocol_debug Spec_Socks5 = ''Socks5''"
| "protocol_debug Spec_Shadowsocks = ''Shadowsocks''"
| "protocol_debug Spec_ShadowsocksR = ''ShadowsocksR''"
| "protocol_debug Spec_Trojan = ''Trojan''"
| "protocol_debug Spec_Http2 = ''Http2''"
| "protocol_debug Spec_Http3 = ''Http3''"
| "protocol_debug Spec_Quic = ''Quic''"
| "protocol_debug Spec_WebSocket = ''WebSocket''"
| "protocol_debug Spec_Raw = ''Raw''"
| "protocol_debug Spec_Ssh = ''Ssh''"
| "protocol_debug Spec_Unix = ''Unix''"

definition protocols_debug :: "protocol_spec list \<Rightarrow> string" where
  "protocols_debug ps = ''['' @ join_str '', '' (map protocol_debug ps) @ '']''"

definition extract_shadowsocks_creds :: "proxy_hop_spec \<Rightarrow> (cipher_method \<times> string) option" where
  "extract_shadowsocks_creds hop =
    (if length (hop_protocols hop) = 1 \<and> hop_protocols hop ! 0 = Spec_Shadowsocks then
       (case hop_credentials hop of
          Some creds \<Rightarrow>
            (case parse_method (cred_username creds) of
               Inl _ \<Rightarrow> None
             | Inr m \<Rightarrow> Some (m, cred_password creds))
        | None \<Rightarrow> None)
     else None)"

definition single_shadowsocks :: "proxy_hop_spec \<Rightarrow> udp_relay_capability" where
  "single_shadowsocks hop =
    (case extract_shadowsocks_creds hop of
       Some (m, password) \<Rightarrow> SupportedShadowsocks m password
     | None \<Rightarrow> Relay_UnsupportedProtocol ''Shadowsocks (missing credentials)'')"

definition relay_hop :: "proxy_hop_spec \<Rightarrow> bool" where
  "relay_hop hop \<longleftrightarrow>
    length (hop_protocols hop) = 1 \<and>
    (case hop_protocols hop ! 0 of
       Spec_Socks5 \<Rightarrow> True
     | Spec_Shadowsocks \<Rightarrow> extract_shadowsocks_creds hop \<noteq> None
     | _ \<Rightarrow> False)"

definition udp_capability :: "proxy_chain_spec \<Rightarrow> udp_relay_capability" where
  "udp_capability chain =
    (case hops chain of
       [] \<Rightarrow> Relay_UnsupportedProtocol ''direct''
     | [hop] \<Rightarrow>
         if length (hop_protocols hop) = 1 then
           (case hop_protocols hop ! 0 of
              Spec_Socks5 \<Rightarrow> SupportedSocks5
            | Spec_Shadowsocks \<Rightarrow> single_shadowsocks hop
            | Spec_ShadowsocksR \<Rightarrow> Relay_UnsupportedProtocol ''ShadowsocksR''
            | other \<Rightarrow> Relay_UnsupportedProtocol (protocol_debug other))
         else Relay_UnsupportedProtocol (protocols_debug (hop_protocols hop))
     | _ \<Rightarrow> if list_all relay_hop (hops chain) then SupportedComposed else UnsupportedMultiHop)"

definition udp_capability_from_chain :: "proxy_chain_spec \<Rightarrow> udp_relay_capability" where
  "udp_capability_from_chain chain =
    (case udp_associate (classify_upstream_chain chain) of
       Supported \<Rightarrow>
         if length (hops chain) = 1 \<and> length (hop_protocols (hops chain ! 0)) = 1 then
           (case hop_protocols (hops chain ! 0) ! 0 of
              Spec_Socks5 \<Rightarrow> SupportedSocks5
            | Spec_Shadowsocks \<Rightarrow> single_shadowsocks (hops chain ! 0)
            | Spec_ShadowsocksR \<Rightarrow> Relay_UnsupportedProtocol ''ShadowsocksR''
            | _ \<Rightarrow> SupportedSocks5)
         else if list_all (\<lambda>hop. length (hop_protocols hop) = 1 \<and> hop_protocols hop ! 0 = Spec_Socks5)
                   (hops chain)
         then SupportedComposed
         else UnsupportedMultiHop
     | Cap_UnsupportedProtocol protocol \<Rightarrow> Relay_UnsupportedProtocol protocol
     | UnsupportedChain reason \<Rightarrow>
         if reason = ''multi-hop'' \<or> starts_with ''multi-hop'' reason then UnsupportedMultiHop
         else if reason = ''multi-protocol'' \<and> length (hops chain) = 1
         then Relay_UnsupportedProtocol (protocols_debug (hop_protocols (hops chain ! 0)))
         else if reason = ''direct'' then Relay_UnsupportedProtocol ''direct''
         else Relay_UnsupportedProtocol reason)"

subsection \<open>Packets open again\<close>

lemma target_to_socks_form: "target_to_socks t = socks_form t"
  by (simp add: target_to_socks_def socks_form_def)

lemma socks_to_target_form [simp]: "socks_to_target (target_to_socks t) = t"
  by (cases t) (simp add: target_to_socks_def socks_to_target_def split: target_host.splits ip_addr.splits)

lemma map_codec_Ok_iff: "map_codec f r = Ok a \<longleftrightarrow> r = Ok a"
  by (simp add: map_codec_def split: sum.splits)

text \<open>Targets that both packet formats can carry: proper addresses other than the empty domain.\<close>

definition wf_target :: "target_addr \<Rightarrow> bool" where
  "wf_target t \<longleftrightarrow> wf_socks_addr (target_to_socks t) \<and> nonempty_host (target_to_socks t)"

lemma wf_target_form: "wf_target t \<Longrightarrow> wf_socks_addr (socks_form t)"
  by (simp add: wf_target_def target_to_socks_form)

lemma sealed_roundtrip:
  assumes "crypto_ok cr" "length key = key_size m" "length p \<le> 65536"
    "aead_encrypt_raw cr m key (replicate (nonce_size m) 0) p = Ok c"
  shows "aead_decrypt_raw cr m key (replicate (nonce_size m) 0) c = Ok p"
  using assms AeadCipher_encrypt_Ok(2) [of cr "(m, key)" "replicate (nonce_size m) 0" p c]
  by (simp add: aead_encrypt_raw_def aead_decrypt_raw_def AeadCipher_new_def nonce_size_def)

lemma sealed_length: "crypto_ok cr \<Longrightarrow> aead_encrypt_raw cr m key n p = Ok c \<Longrightarrow> length c = length p + 16"
  using crypto_okD(3) [of cr]
  by (auto simp: aead_encrypt_raw_def try_bind_Ok_iff AeadCipher_encrypt_def AeadCipher_new_def
      split: option.splits if_splits)

lemma derive_key_length: "crypto_ok cr \<Longrightarrow> derive_key_from_ikm cr m ikm salt = Ok k \<Longrightarrow> length k = key_size m"
  using derive_key_ok [of cr m ikm salt] by auto

lemma encode_udp_packet_Ok:
  assumes "encode_udp_packet_with_ikm cr m ikm t payload salt = Ok packet"
  obtains key address c where "length salt = salt_size m" "derive_key_from_ikm cr m ikm salt = Ok key"
    "check_domain t = Ok ()" "encode_address t = Ok address"
    "aead_encrypt_raw cr m key (replicate (nonce_size m) 0) (address @ payload) = Ok c" "packet = salt @ c"
  using assms by (auto simp: encode_udp_packet_with_ikm_def try_bind_Ok_iff check_salt_def split: if_splits)

lemma encode_udp_packet_length:
  assumes "crypto_ok cr" "encode_udp_packet_with_ikm cr m ikm t payload salt = Ok packet"
  shows "length payload \<le> length packet"
  using assms(2) by (rule encode_udp_packet_Ok) (use sealed_length [OF assms(1)] in force)

lemma udp_packet_opens:
  assumes "crypto_ok cr" "wf_target t" "encode_udp_packet_with_ikm cr m ikm t payload salt = Ok packet"
    "length packet \<le> 65535"
  shows "decode_udp_packet_with_ikm cr m ikm packet = Ok (t, payload)"
proof -
  obtain key address c where e: "length salt = salt_size m" "derive_key_from_ikm cr m ikm salt = Ok key"
    "check_domain t = Ok ()" "encode_address t = Ok address"
    "aead_encrypt_raw cr m key (replicate (nonce_size m) 0) (address @ payload) = Ok c" "packet = salt @ c"
    using assms(3) by (rule encode_udp_packet_Ok)
  have l: "length c = length (address @ payload) + 16" by (rule sealed_length [OF assms(1) e(5)])
  have "length (address @ payload) \<le> 65536" using l assms(4) e(6) by simp
  with sealed_roundtrip [OF assms(1) derive_key_length [OF assms(1) e(2)] _ e(5)]
  have "aead_decrypt_raw cr m key (replicate (nonce_size m) 0) c = Ok (address @ payload)" by simp
  then show ?thesis
    using e l assms(4) decode_address_append [OF wf_target_form [OF assms(2)] e(4), of payload]
    by (simp add: decode_udp_packet_with_ikm_def tag_size_def MAX_UDP_PACKET_SIZE_def)
qed

lemma encrypt_standard_chunks_length:
  assumes "crypto_ok cr" "encrypt_standard_chunks cr m key nonce p = Ok wire" "p \<noteq> []"
  shows "34 \<le> length wire"
proof -
  from assms(3) obtain q qs where q: "chunks MAX_CHUNK_PAYLOAD p = q # qs"
    by (simp add: chunks.simps [of _ p] MAX_CHUNK_PAYLOAD_def)
  then have "length q \<le> MAX_CHUNK_PAYLOAD" using chunks_bounds [of q MAX_CHUNK_PAYLOAD p] by simp
  moreover from assms(2) q obtain w rest where "length key = key_size m" "wire = w @ rest"
    "encrypt_chunk_with cr (m, key) nonce q = Ok w"
    by (auto simp: encrypt_standard_chunks_def try_bind_Ok_iff AeadCipher_new_Ok)
  ultimately show ?thesis using encrypt_chunk_with_Ok [OF assms(1), of "(m, key)" q nonce w] by force
qed

lemma pproxy_udp_packet_opens:
  assumes "crypto_ok cr" "wf_target t" "encode_pproxy_udp_packet_with_ikm cr m ikm t payload salt = Ok packet"
  shows "decode_pproxy_udp_packet_with_ikm cr m ikm packet = Ok (t, payload)"
proof -
  from assms(3) obtain address key c where a: "encode_address t = Ok address" "length salt = salt_size m"
    "derive_key_from_ikm cr m ikm salt = Ok key" "packet = salt @ c" and
    c: "encrypt_standard_chunks cr m key (replicate (nonce_size m) 0) (address @ payload) = Ok c"
    by (auto simp: encode_pproxy_udp_packet_with_ikm_def udp_plaintext_def try_bind_Ok_iff check_salt_def
        split: if_splits)
  have "address \<noteq> []" using a(1) by (auto simp: encode_address_def Let_def split: target_host.splits ip_addr.splits if_splits)
  then have "34 \<le> length c" using encrypt_standard_chunks_length [OF assms(1) c] by simp
  then show ?thesis
    using a standard_chunks_open [OF assms(1) c] decode_address_append [OF wf_target_form [OF assms(2)] a(1), of payload]
    by (simp add: decode_pproxy_udp_packet_with_ikm_def tag_size_def)
qed

lemma udp_datagram_opens:
  assumes "wf_socks_addr a" "nonempty_host a" "encode_socks5_udp_datagram a payload = Ok packet" "length packet \<le> 65535"
  shows "decode_socks5_udp_datagram packet = Ok (a, payload)"
proof -
  from assms(3) obtain enc where "encode_reply a = Ok enc" "packet = [0, 0, 0] @ enc @ payload"
    by (auto simp: encode_socks5_udp_datagram_def split: sum.splits)
  with assms udp_addr.dec_enc [of a enc payload] show ?thesis
    by (simp add: decode_datagram_header udp_addr_enc_def socks_enc_def)
qed

lemma UdpHop_opens:
  assumes "crypto_ok cr" "wf_target t" "UdpHop_encode cr rnd h t payload = Ok packet" "length packet \<le> 65535"
  shows "UdpHop_decode cr h packet = Ok (t, payload)"
proof (cases h)
  case (Hop_Socks5 ep)
  with assms have "decode_socks5_udp_datagram packet = Ok (target_to_socks t, payload)"
    by (simp add: encode_socks_target_def map_codec_Ok_iff udp_datagram_opens wf_target_def)
  then show ?thesis by (simp add: Hop_Socks5 map_codec_def)
next
  case (Hop_Shadowsocks ep m pw ikm)
  with assms show ?thesis by (simp add: map_codec_Ok_iff udp_packet_opens)
qed

lemma UdpHop_encode_length:
  assumes "crypto_ok cr" "UdpHop_encode cr rnd h t payload = Ok packet"
  shows "length payload \<le> length packet"
  using assms(2) encode_udp_packet_length [OF assms(1)]
  by (cases h) (auto simp: map_codec_Ok_iff encode_socks_target_def encode_socks5_udp_datagram_def split: sum.splits)

subsection \<open>Nested packets\<close>

lemma encode_hops_length:
  assumes "crypto_ok cr" "encode_hops cr rnd hs t ns n packet = Ok out"
  shows "length packet \<le> length out"
  using assms(2) UdpHop_encode_length [OF assms(1)]
  by (induction n arbitrary: packet) (fastforce simp: try_bind_Ok_iff)+

lemma decode_hops_append:
  "decode_hops cr (xs @ ys) t p = try_bind (decode_hops cr xs t p) (\<lambda>(t', p'). decode_hops cr ys t' p')"
  by (induction xs arbitrary: t p) (auto simp: try_bind_def split: sum.splits)

lemma decode_encode_hops:
  assumes "crypto_ok cr" "\<And>k. k < n \<Longrightarrow> wf_target (next_target hs t ns k)" "n \<le> length hs"
    "encode_hops cr rnd hs t ns n packet = Ok out" "length out \<le> 65535" "k \<le> n"
  shows "\<exists>inner. decode_hops cr (take k hs) None out =
      Ok (if k = 0 then None else Some (next_target hs t ns (k - 1)), inner) \<and> (k = n \<longrightarrow> inner = packet)"
  using assms(2-)
proof (induction n arbitrary: packet k)
  case (Suc n)
  then obtain p where p: "UdpHop_encode cr (rnd n) (hs ! n) (next_target hs t ns n) packet = Ok p"
    and out: "encode_hops cr rnd hs t ns n p = Ok out"
    by (auto simp: try_bind_Ok_iff)
  note IH = Suc.IH [OF _ _ out Suc.prems(4)]
  show ?case
  proof (cases "k \<le> n")
    case True
    with IH [OF _ _ True] Suc.prems show ?thesis by fastforce
  next
    case False
    then have k: "k = Suc n" using Suc.prems(5) by simp
    have "length p \<le> 65535" using encode_hops_length [OF assms(1) out] Suc.prems(4) by simp
    then have d: "UdpHop_decode cr (hs ! n) p = Ok (next_target hs t ns n, packet)"
      using UdpHop_opens [OF assms(1) _ p] Suc.prems(1) by simp
    from IH [of n] Suc.prems obtain t' where "decode_hops cr (take n hs) None out = Ok (t', p)" by fastforce
    with d Suc.prems(2) show ?thesis by (simp add: k take_Suc_conv_app_nth decode_hops_append)
  qed
qed simp

text \<open>
  The addresses the layers of a packet are to name, outermost first: for every hop but the last one where the hop behind
  it is reached, which is the relay address given for it or else its configured endpoint, and for the last hop
  the target.
\<close>

definition layer_targets :: "udp_hop_codec list \<Rightarrow> target_addr \<Rightarrow> target_addr list \<Rightarrow> target_addr list" where
  "layer_targets hs target relays =
    take (length hs - 1) (relays @ drop (length relays) (map UdpHop_endpoint (tl hs))) @ [target]"

lemma next_target_layer:
  assumes "k < length hs"
  shows "next_target hs target relays k = layer_targets hs target relays ! k"
proof -
  have "length (take (length hs - 1) (relays @ drop (length relays) (map UdpHop_endpoint (tl hs)))) = length hs - 1" by simp
  with assms show ?thesis
    by (auto simp: next_target_def layer_targets_def nth_append nth_tl)
qed

text \<open>
  C34: nested datagrams are peeled layer by layer. Let a datagram be wrapped for a chain of SOCKS5
  and Shadowsocks hops, with any relay addresses in place of configured endpoints, into a packet of
  at most 65535 bytes. Decoding it with the whole stack gives back the target and the payload,
  and decoding it with only the first \<open>k + 1\<close> hops gives the relay address or endpoint of the next hop (the target
  for the last one), so every hop forwards to the right place.
\<close>

theorem hop_stack_roundtrip:
  assumes "crypto_ok cr" "hs \<noteq> []" "list_all wf_target (layer_targets hs target relays)"
    "encode_request_with_next_targets cr rnd hs target payload relays = Ok packet" "length packet \<le> 65535"
  shows "decode_response cr hs packet = Ok (target, payload) \<and>
    (\<forall>k < length hs. \<exists>inner.
       decode_response cr (take (Suc k) hs) packet = Ok (layer_targets hs target relays ! k, inner))"
proof -
  note d = decode_encode_hops [OF assms(1) _ _ assms(4) [unfolded encode_request_with_next_targets_def] assms(5)]
  have wf: "wf_target (next_target hs target relays k)" if "k < length hs" for k
    using assms(2,3) that by (auto simp: next_target_layer list_all_length layer_targets_def)
  have last: "next_target hs target relays (length hs - 1) = target" using assms(2) by (simp add: next_target_def)
  from d [of "length hs"] wf last assms(2) have "decode_response cr hs packet = Ok (target, payload)"
    by (auto simp: decode_response_def)
  moreover have "\<exists>inner. decode_response cr (take (Suc k) hs) packet = Ok (layer_targets hs target relays ! k, inner)"
    if "k < length hs" for k
    using that d [of "Suc k"] wf by (auto simp: decode_response_def simp flip: next_target_layer)
  ultimately show ?thesis by blast
qed

definition example_target :: "u8 \<Rightarrow> target_addr" where
  "example_target n = \<lparr>tgt_host = Ip (V4 [10, 0, 0, n]), tgt_port = 1\<rparr>"

definition example_stack :: "udp_hop_codec list" where
  "example_stack = [Hop_Socks5 (example_target 1), Hop_Shadowsocks (example_target 2) Aes128Gcm [] []]"

lemma example_stack_packet:
  "encode_request_with_next_targets plain_crypto (\<lambda>_. replicate 32 9) example_stack (example_target 3) [42] [] =
    Ok ([0, 0, 0, 1, 10, 0, 0, 2] @ to_be_bytes 1 @ replicate 16 9 @ [1, 10, 0, 0, 3] @ to_be_bytes 1 @ [42] @
        replicate 16 0)"
  by (simp add: encode_request_with_next_targets_def example_stack_def numeral_2_eq_2 next_target_def
      encode_udp_packet_with_ikm_def check_salt_def salt_size_def derive_key_from_ikm_def plain_crypto_def
      check_domain_def domain_too_long_def example_target_def encode_address_def Let_def aead_encrypt_raw_def
      AeadCipher_new_def AeadCipher_encrypt_def map_codec_def encode_socks_target_def target_to_socks_def
      encode_socks5_udp_datagram_def socks5_consts)

theorem hop_stack_roundtrip_witness:
  "\<exists>packet. encode_request_with_next_targets plain_crypto (\<lambda>_. replicate 32 9) example_stack (example_target 3) [42] [] =
       Ok packet \<and> length packet \<le> 65535 \<and>
     decode_response plain_crypto example_stack packet = Ok (example_target 3, [42])"
proof -
  have "list_all wf_target (layer_targets example_stack (example_target 3) [])"
    by (simp add: layer_targets_def example_stack_def wf_target_def example_target_def target_to_socks_def)
  from hop_stack_roundtrip [OF plain_crypto_ok _ this example_stack_packet] show ?thesis
    unfolding example_stack_packet by (auto simp: example_stack_def to_be_bytes_def)
qed

subsection \<open>Capabilities\<close>

fun relay_supported :: "udp_relay_capability \<Rightarrow> bool" where
  "relay_supported SupportedSocks5 \<longleftrightarrow> True"
| "relay_supported SupportedComposed \<longleftrightarrow> True"
| "relay_supported (SupportedShadowsocks _ _) \<longleftrightarrow> True"
| "relay_supported _ \<longleftrightarrow> False"

lemma from_spec_relay_hop: "(\<exists>h. UdpHop_from_spec cr hop = Ok h) \<longleftrightarrow> relay_hop hop"
  by (auto simp: UdpHop_from_spec_def relay_hop_def extract_shadowsocks_creds_def Let_def
      split: protocol_spec.splits option.splits sum.splits)

lemma from_chain_relay_hops: "(\<exists>hs. from_chain_loop cr specs = Ok hs) \<longleftrightarrow> list_all relay_hop specs"
  by (induction specs) (auto simp: try_bind_Ok_iff from_spec_relay_hop [symmetric, of _ cr])

text \<open>
  The relay promises what the hop codecs can do. \<^verbatim>\<open>udp_capability\<close> reports a chain as
  supported exactly when the chain is not empty and a stack of hop codecs can be built from it;
  for chains of one hop, of several, with or without credentials, and for every protocol.
\<close>

lemma udp_capability_iff_stack:
  "relay_supported (udp_capability chain) \<longleftrightarrow>
    hops chain \<noteq> [] \<and> (\<exists>stack. UdpHopStack_from_chain cr chain = Ok stack)"
proof -
  have "relay_supported (udp_capability chain) \<longleftrightarrow> hops chain \<noteq> [] \<and> list_all relay_hop (hops chain)"
    by (auto simp: udp_capability_def relay_hop_def single_shadowsocks_def
        split: list.splits protocol_spec.splits option.splits)
  then show ?thesis by (simp add: UdpHopStack_from_chain_def from_chain_relay_hops)
qed

text \<open>
  The older \<^verbatim>\<open>udp_capability_from_chain\<close> differs on chains of several hops that contain Shadowsocks:
  the classifier accepts them, and so does the hop stack, but the function answers
  \<^verbatim>\<open>UnsupportedMultiHop\<close>.
\<close>

lemma relay_hop_udp_hop: "relay_hop h \<Longrightarrow> udp_hop h"
  by (cases "hop_protocols h ! 0") (simp_all add: relay_hop_def udp_hop_def)

lemma capability_from_chain_multi_hop:
  assumes "1 < length (hops chain)" "list_all relay_hop (hops chain)"
    "\<exists>h \<in> set (hops chain). hop_protocols h = [Spec_Shadowsocks]"
  shows "udp_capability chain = SupportedComposed" "udp_capability_from_chain chain = UnsupportedMultiHop"
proof -
  from assms(1) obtain h g rest where c: "hops chain = h # g # rest"
    by (cases "hops chain"; cases "List.tl (hops chain)") auto
  show "udp_capability chain = SupportedComposed" using assms(2) by (simp add: udp_capability_def c)
  have u: "list_all udp_hop (hops chain)"
    using assms(2) relay_hop_udp_hop by (auto simp: list_all_iff)
  then have "udp_associate (classify_upstream_chain chain) = Supported"
    using udp_hop_no_quic [of h] by (simp add: classify_upstream_chain_def c list_all_iff caps_def)
  then show "udp_capability_from_chain chain = UnsupportedMultiHop"
    using assms(3) unfolding udp_capability_from_chain_def by (force simp: c list_all_iff)
qed

end
