(* ===== verification/Socks5_Handshake.thy ===== *)
theory Socks5_Handshake
  imports Socks5_Codec
begin

text \<open>
  The SOCKS5 handshake over a stream, server side (\<^verbatim>\<open>socks5/server.rs\<close>) and client side
  (\<^verbatim>\<open>socks5/client.rs\<close>), routine by routine. Results: the streaming request reader accepts what
  the buffer parser accepts; a server that requires a password completes only on the transcript
  that carries it; and the two sides complete a handshake with each other.
\<close>

definition AUTH_NONE :: u8 where "AUTH_NONE = 0x00"
definition AUTH_USERNAME_PASSWORD :: u8 where "AUTH_USERNAME_PASSWORD = 0x02"
definition AUTH_NO_ACCEPTABLE :: u8 where "AUTH_NO_ACCEPTABLE = 0xFF"
definition AUTH_VERSION :: u8 where "AUTH_VERSION = 0x01"
definition MAX_CRED_LEN :: nat where "MAX_CRED_LEN = 255"

lemmas auth_consts = AUTH_NONE_def AUTH_USERNAME_PASSWORD_def AUTH_NO_ACCEPTABLE_def
  AUTH_VERSION_def MAX_CRED_LEN_def

subsection \<open>Server\<close>

definition read_method_negotiation :: "(socks5_error, u8 list) io" where
  "read_method_negotiation =
    io_bind (read_u8 Socks5_Io) (\<lambda>version.
      if version \<noteq> 0x05 then io_fail (Socks5_UnsupportedVersion version)
      else io_bind (read_u8 Socks5_Io) (\<lambda>nmethods. read_exact Socks5_Io (unat nmethods)))"

definition select_method :: "u8 list \<Rightarrow> string option \<Rightarrow> u8" where
  "select_method methods password =
    (case password of
       Some _ \<Rightarrow> if AUTH_USERNAME_PASSWORD \<in> set methods then AUTH_USERNAME_PASSWORD else AUTH_NO_ACCEPTABLE
     | None \<Rightarrow> if AUTH_NONE \<in> set methods then AUTH_NONE else AUTH_NO_ACCEPTABLE)"

definition send_method_selection :: "u8 list \<Rightarrow> string option \<Rightarrow> (socks5_error, unit) io" where
  "send_method_selection methods password =
    (let method = select_method methods password in
     io_bind (write_all Socks5_Io [0x05, method]) (\<lambda>_.
     io_bind flush (\<lambda>_.
       if method = AUTH_NO_ACCEPTABLE then io_fail Socks5_MethodNegotiationFailed
       else io_return ())))"

text \<open>
  The user name is returned through \<^verbatim>\<open>from_utf8_lossy\<close>: here its bytes equal those of the
  expected user name, a valid string, on which the lossy conversion is the identity.
\<close>

definition read_auth_request :: "string \<Rightarrow> string \<Rightarrow> (socks5_error, string) io" where
  "read_auth_request expected_username expected_password =
    io_bind (read_u8 Socks5_Io) (\<lambda>version.
      if version \<noteq> AUTH_VERSION then io_fail (Socks5_UnsupportedVersion version)
      else io_bind (read_u8 Socks5_Io) (\<lambda>ulen.
        if unat ulen > MAX_CRED_LEN then io_fail Socks5_CredentialsTooLong
        else io_bind (read_exact Socks5_Io (unat ulen)) (\<lambda>username.
          io_bind (read_u8 Socks5_Io) (\<lambda>plen.
            if unat plen > MAX_CRED_LEN then io_fail Socks5_CredentialsTooLong
            else io_bind (read_exact Socks5_Io (unat plen)) (\<lambda>password_bytes.
              if username \<noteq> as_bytes expected_username \<or> password_bytes \<noteq> as_bytes expected_password
              then io_fail Socks5_AuthFailed
              else io_return (str_of_bytes username))))))"

definition send_auth_response :: "bool \<Rightarrow> (socks5_error, unit) io" where
  "send_auth_response success =
    io_bind (write_all Socks5_Io [AUTH_VERSION, if success then 0x00 else 0x01]) (\<lambda>_. flush)"

text \<open>The address after its type byte, as both request readers read it.\<close>

definition read_addr_body :: "u8 \<Rightarrow> (socks5_error, socks_addr) io" where
  "read_addr_body atyp =
    (if atyp = ATYP_IPV4 then
       io_bind (read_exact Socks5_Io 4) (\<lambda>buf.
       io_bind (read_u16 Socks5_Io) (\<lambda>port. io_return (Socks_IPv4 buf port)))
     else if atyp = ATYP_DOMAIN then
       io_bind (read_u8 Socks5_Io) (\<lambda>len.
       io_bind (read_exact Socks5_Io (unat len)) (\<lambda>domain.
         case from_utf8 domain of
           None \<Rightarrow> io_fail (Socks5_MalformedMessage ''invalid domain'')
         | Some d \<Rightarrow> io_bind (read_u16 Socks5_Io) (\<lambda>port. io_return (Socks_Domain d port))))
     else if atyp = ATYP_IPV6 then
       io_bind (read_exact Socks5_Io 16) (\<lambda>buf.
       io_bind (read_u16 Socks5_Io) (\<lambda>port. io_return (Socks_IPv6 buf port)))
     else io_fail (Socks5_UnsupportedAddressType atyp))"

definition read_connect_request :: "(socks5_error, socks_addr) io" where
  "read_connect_request =
    io_bind (read_u8 Socks5_Io) (\<lambda>version.
      if version \<noteq> 0x05 then io_fail (Socks5_UnsupportedVersion version)
      else io_bind (read_u8 Socks5_Io) (\<lambda>cmd.
        if cmd \<noteq> CMD_CONNECT then io_fail (Socks5_UnsupportedCommand cmd)
        else io_bind (read_u8 Socks5_Io) (\<lambda>rsv.
          if rsv \<noteq> 0 then io_fail (Socks5_InvalidReservedByte rsv)
          else io_bind (read_u8 Socks5_Io) read_addr_body)))"

definition read_socks5_request :: "(socks5_error, socks5_command \<times> socks_addr) io" where
  "read_socks5_request =
    io_bind (read_u8 Socks5_Io) (\<lambda>version.
      if version \<noteq> 0x05 then io_fail (Socks5_UnsupportedVersion version)
      else io_bind (read_u8 Socks5_Io) (\<lambda>cmd.
        io_bind (io_of_result (parse_command cmd)) (\<lambda>command.
          io_bind (read_u8 Socks5_Io) (\<lambda>rsv.
            if rsv \<noteq> 0 then io_fail (Socks5_InvalidReservedByte rsv)
            else io_bind (read_u8 Socks5_Io) (\<lambda>atyp.
              io_bind (read_addr_body atyp) (\<lambda>addr. io_return (command, addr)))))))"

definition send_connect_reply :: "u8 \<Rightarrow> socks_addr \<Rightarrow> (socks5_error, unit) io" where
  "send_connect_reply rep bind_addr =
    io_bind (io_of_result (encode_reply bind_addr)) (\<lambda>enc.
    io_bind (write_all Socks5_Io ([0x05, rep, 0x00] @ enc)) (\<lambda>_. flush))"

definition send_udp_associate_reply :: "socks_addr \<Rightarrow> (socks5_error, unit) io" where
  "send_udp_associate_reply bind_addr = send_connect_reply REP_SUCCESS bind_addr"

definition reject_command :: "socks_addr \<Rightarrow> (socks5_error, unit) io" where
  "reject_command target = send_connect_reply REP_COMMAND_NOT_SUPPORTED target"

text \<open>Step 2 of the handshake: a failed authentication is answered, and the answer's own result dropped.\<close>

definition server_auth :: "string \<Rightarrow> string \<Rightarrow> (socks5_error, unit) io" where
  "server_auth user pwd c =
    (case read_auth_request user pwd c of
       (Inl e, c') \<Rightarrow> (Err e, snd (send_auth_response False c'))
     | (Inr _, c') \<Rightarrow> send_auth_response True c')"

text \<open>Step 3: unsupported commands are acknowledged before the error is returned.\<close>

definition server_request :: "(socks5_error, socks_addr) io" where
  "server_request c =
    (case read_connect_request c of
       (Inl (Socks5_UnsupportedCommand cmd), c') \<Rightarrow>
         (Err (Socks5_UnsupportedCommand cmd),
          snd (send_connect_reply REP_COMMAND_NOT_SUPPORTED (Socks_IPv4 [0, 0, 0, 0] 0) c'))
     | r \<Rightarrow> r)"

definition handle_socks5_handshake ::
  "string option \<Rightarrow> string option \<Rightarrow> (socks5_error, socks_addr) io" where
  "handle_socks5_handshake username password =
    io_bind read_method_negotiation (\<lambda>methods.
    io_bind (send_method_selection methods password) (\<lambda>_.
    io_bind (case password of
               None \<Rightarrow> io_return ()
             | Some pwd \<Rightarrow> server_auth (case username of Some u \<Rightarrow> u | None \<Rightarrow> []) pwd) (\<lambda>_.
      server_request)))"

subsection \<open>Client\<close>

definition send_auth_request :: "string \<Rightarrow> string \<Rightarrow> (socks5_error, unit) io" where
  "send_auth_request username password =
    (if length username > MAX_CRED_LEN \<or> length password > MAX_CRED_LEN
     then io_fail Socks5_CredentialsTooLong
     else io_bind (write_all Socks5_Io [AUTH_VERSION, word_of_nat (length username)]) (\<lambda>_.
          io_bind (write_all Socks5_Io (as_bytes username)) (\<lambda>_.
          io_bind (write_all Socks5_Io [word_of_nat (length password)]) (\<lambda>_.
          io_bind (write_all Socks5_Io (as_bytes password)) (\<lambda>_. flush)))))"

definition read_auth_response :: "(socks5_error, unit) io" where
  "read_auth_response =
    io_bind (read_u8 Socks5_Io) (\<lambda>version.
      if version \<noteq> AUTH_VERSION then io_fail (Socks5_UnsupportedVersion version)
      else io_bind (read_u8 Socks5_Io) (\<lambda>status.
        if status \<noteq> 0x00 then io_fail Socks5_AuthFailed else io_return ()))"

definition send_connect_request :: "socks_addr \<Rightarrow> (socks5_error, unit) io" where
  "send_connect_request target =
    io_bind (write_all Socks5_Io [0x05, 0x01, 0x00]) (\<lambda>_.
    io_bind (case target of
        Socks_IPv4 addr port \<Rightarrow>
          io_bind (write_all Socks5_Io [ATYP_IPV4]) (\<lambda>_.
          io_bind (write_all Socks5_Io addr) (\<lambda>_. write_all Socks5_Io (to_be_bytes port)))
      | Socks_Domain domain port \<Rightarrow>
          if length domain > MAX_CRED_LEN then io_fail Socks5_AddressTooLong
          else io_bind (write_all Socks5_Io [ATYP_DOMAIN, word_of_nat (length domain)]) (\<lambda>_.
               io_bind (write_all Socks5_Io (as_bytes domain)) (\<lambda>_. write_all Socks5_Io (to_be_bytes port)))
      | Socks_IPv6 addr port \<Rightarrow>
          io_bind (write_all Socks5_Io [ATYP_IPV6]) (\<lambda>_.
          io_bind (write_all Socks5_Io addr) (\<lambda>_. write_all Socks5_Io (to_be_bytes port)))) (\<lambda>_. flush))"

definition connect_failure_for_rep :: "u8 \<Rightarrow> socks5_error" where
  "connect_failure_for_rep rep =
    (if rep = 0x05 then Socks5_ConnectionRefused
     else Socks5_ConnectionFailed (''SOCKS5 server returned error: 0x'' @ hex2 rep))"

definition read_connect_reply :: "(socks5_error, socks_addr) io" where
  "read_connect_reply =
    io_bind (read_u8 Socks5_Io) (\<lambda>version.
      if version \<noteq> 0x05 then io_fail (Socks5_UnsupportedVersion version)
      else io_bind (read_u8 Socks5_Io) (\<lambda>rep. io_bind (read_u8 Socks5_Io) (\<lambda>_.
        io_bind (read_u8 Socks5_Io) (\<lambda>atyp.
          if atyp = ATYP_IPV4 then
            io_bind (read_exact Socks5_Io 4) (\<lambda>addr. io_bind (read_u16 Socks5_Io) (\<lambda>port.
              if rep \<noteq> 0x00 then io_fail (connect_failure_for_rep rep)
              else io_return (Socks_IPv4 addr port)))
          else if atyp = ATYP_DOMAIN then
            io_bind (read_u8 Socks5_Io) (\<lambda>len. io_bind (read_exact Socks5_Io (unat len)) (\<lambda>domain.
              io_bind (read_u16 Socks5_Io) (\<lambda>port.
                if rep \<noteq> 0x00 then io_fail (connect_failure_for_rep rep)
                else (case from_utf8 domain of
                        None \<Rightarrow> io_fail (Socks5_MalformedMessage ''invalid domain in reply'')
                      | Some d \<Rightarrow> io_return (Socks_Domain d port)))))
          else if atyp = ATYP_IPV6 then
            io_bind (read_exact Socks5_Io 16) (\<lambda>addr. io_bind (read_u16 Socks5_Io) (\<lambda>port.
              if rep \<noteq> 0x00 then io_fail (connect_failure_for_rep rep)
              else io_return (Socks_IPv6 addr port)))
          else io_fail (Socks5_UnsupportedAddressType atyp)))))"

definition client_auth :: "u8 \<Rightarrow> (string \<times> string) option \<Rightarrow> (socks5_error, unit) io" where
  "client_auth selected_method auth =
    (if selected_method = AUTH_NONE then io_return ()
     else if selected_method = AUTH_USERNAME_PASSWORD then
       (case auth of
          Some (username, password) \<Rightarrow>
            io_bind (send_auth_request username password) (\<lambda>_. read_auth_response)
        | None \<Rightarrow> io_fail (Socks5_UnsupportedAuthMethod selected_method))
     else if selected_method = 0xFF then io_fail Socks5_MethodNegotiationFailed
     else io_fail (Socks5_UnsupportedAuthMethod selected_method))"

definition socks5_connect :: "socks_addr \<Rightarrow> (string \<times> string) option \<Rightarrow> (socks5_error, unit) io" where
  "socks5_connect target auth =
    (let methods = [AUTH_NONE] @ (if auth \<noteq> None then [AUTH_USERNAME_PASSWORD] else []) in
     io_bind (write_all Socks5_Io [0x05, word_of_nat (length methods)]) (\<lambda>_.
     io_bind (write_all Socks5_Io methods) (\<lambda>_.
     io_bind flush (\<lambda>_.
     io_bind (read_u8 Socks5_Io) (\<lambda>version.
       if version \<noteq> 0x05 then io_fail (Socks5_UnsupportedVersion version)
       else io_bind (read_u8 Socks5_Io) (\<lambda>selected_method.
         io_bind (client_auth selected_method auth) (\<lambda>_.
         io_bind (send_connect_request target) (\<lambda>_.
         io_bind read_connect_reply (\<lambda>_. io_return ())))))))))"

subsection \<open>Streaming and buffered readers agree\<close>

lemma parse_addr_body_iff:
  "parse_addr_body t body = Ok (a, rest) \<longleftrightarrow> encodable a \<and> t = addr_atyp a \<and> body = addr_body a @ rest"
  using parse_addr_body_Ok parse_addr_body_enc by blast

lemma domain_bytes_iff:
  "length bs = unat (n :: u8) \<and> from_utf8 bs = Some d \<longleftrightarrow>
    wf_str d \<and> length d \<le> 255 \<and> n = word_of_nat (length d) \<and> bs = as_bytes d"
proof
  assume "length bs = unat n \<and> from_utf8 bs = Some d"
  then have "length d = unat n" "wf_str d" "bs = as_bytes d" by (auto simp: from_utf8_Some_iff wf_str_def)
  moreover have "unat n \<le> 255" using unat_u8_less [of n] by linarith
  ultimately show "wf_str d \<and> length d \<le> 255 \<and> n = word_of_nat (length d) \<and> bs = as_bytes d" by simp
qed (auto simp: unat_of_nat_255)

lemma read_addr_body_Ok:
  "read_addr_body t c = (Ok a, c') \<longleftrightarrow>
    encodable a \<and> t = addr_atyp a \<and> rx c = addr_body a @ rx c' \<and> tx c' = tx c \<and> room c' = room c"
proof -
  consider (v4) "t = ATYP_IPV4" | (dom) "t = ATYP_DOMAIN" | (v6) "t = ATYP_IPV6"
    | (other) "t \<noteq> ATYP_IPV4" "t \<noteq> ATYP_DOMAIN" "t \<noteq> ATYP_IPV6" by blast
  then show ?thesis
  proof cases
    case dom
    have "read_addr_body t c = (Ok a, c') \<longleftrightarrow>
      (\<exists>d p n bs. a = Socks_Domain d p \<and> (length bs = unat n \<and> from_utf8 bs = Some d) \<and>
        rx c = n # bs @ to_be_bytes p @ rx c' \<and> tx c' = tx c \<and> room c' = room c)"
    proof
      assume "read_addr_body t c = (Ok a, c')"
      then show "\<exists>d p n bs. a = Socks_Domain d p \<and> (length bs = unat n \<and> from_utf8 bs = Some d) \<and>
        rx c = n # bs @ to_be_bytes p @ rx c' \<and> tx c' = tx c \<and> room c' = room c"
        using dom by (auto simp: read_addr_body_def io_Ok_iffs split: option.splits)
    next
      assume "\<exists>d p n bs. a = Socks_Domain d p \<and> (length bs = unat n \<and> from_utf8 bs = Some d) \<and>
        rx c = n # bs @ to_be_bytes p @ rx c' \<and> tx c' = tx c \<and> room c' = room c"
      then show "read_addr_body t c = (Ok a, c')"
        using dom by (cases c; cases c') (auto simp: read_addr_body_def)
    qed
    also have "\<dots> \<longleftrightarrow> encodable a \<and> t = addr_atyp a \<and> rx c = addr_body a @ rx c' \<and> tx c' = tx c \<and> room c' = room c"
      unfolding domain_bytes_iff using dom by (cases a) auto
    finally show ?thesis .
  next
    case v4
    show ?thesis
    proof (intro iffI)
      assume "read_addr_body t c = (Ok a, c')"
      with v4 show "encodable a \<and> t = addr_atyp a \<and> rx c = addr_body a @ rx c' \<and> tx c' = tx c \<and> room c' = room c"
        by (auto simp: read_addr_body_def io_Ok_iffs)
    next
      assume "encodable a \<and> t = addr_atyp a \<and> rx c = addr_body a @ rx c' \<and> tx c' = tx c \<and> room c' = room c"
      with v4 show "read_addr_body t c = (Ok a, c')"
        by (cases a; cases c; cases c') (auto simp: read_addr_body_def)
    qed
  next
    case v6
    show ?thesis
    proof (intro iffI)
      assume "read_addr_body t c = (Ok a, c')"
      with v6 show "encodable a \<and> t = addr_atyp a \<and> rx c = addr_body a @ rx c' \<and> tx c' = tx c \<and> room c' = room c"
        by (auto simp: read_addr_body_def io_Ok_iffs)
    next
      assume "encodable a \<and> t = addr_atyp a \<and> rx c = addr_body a @ rx c' \<and> tx c' = tx c \<and> room c' = room c"
      with v6 show "read_addr_body t c = (Ok a, c')"
        by (cases a; cases c; cases c') (auto simp: read_addr_body_def)
    qed
  next
    case other
    then show ?thesis by (cases a) (auto simp: read_addr_body_def)
  qed
qed

lemma read_connect_request_Ok:
  "read_connect_request c = (Ok a, c') \<longleftrightarrow>
    encodable a \<and> rx c = [0x05, 0x01, 0x00, addr_atyp a] @ addr_body a @ rx c' \<and>
    tx c' = tx c \<and> room c' = room c"
proof
  assume "read_connect_request c = (Ok a, c')"
  then show "encodable a \<and> rx c = [0x05, 0x01, 0x00, addr_atyp a] @ addr_body a @ rx c' \<and>
    tx c' = tx c \<and> room c' = room c"
    by (auto simp: read_connect_request_def io_Ok_iffs read_addr_body_Ok CMD_CONNECT_def split: if_splits)
next
  assume "encodable a \<and> rx c = [0x05, 0x01, 0x00, addr_atyp a] @ addr_body a @ rx c' \<and>
    tx c' = tx c \<and> room c' = room c"
  then show "read_connect_request c = (Ok a, c')"
    by (cases c; cases c') (simp add: read_connect_request_def CMD_CONNECT_def read_addr_body_Ok)
qed

text \<open>
  The two request readers are one. Reading a CONNECT request from a stream succeeds with a
  target exactly when the buffer parser accepts the bytes of the stream with that target, and
  then leaves in the stream exactly the parser's remainder, without writing anything.
\<close>

lemma read_connect_request_matches_parser:
  "read_connect_request c = (Ok a, c') \<longleftrightarrow>
    parse_connect_request (rx c) = Ok (a, rx c') \<and> tx c' = tx c \<and> room c' = room c"
proof -
  have "parse_connect_request (rx c) = Ok (a, rx c') \<longleftrightarrow>
      encodable a \<and> rx c = [0x05, 0x01, 0x00, addr_atyp a] @ addr_body a @ rx c'"
  proof (cases "length (rx c) < 4")
    case True
    then show ?thesis by (auto simp: parse_connect_request_def)
  next
    case False
    then obtain x y z t body where "rx c = x # y # z # t # body"
      by (auto simp: not_less numeral_eq_Suc Suc_le_length_iff)
    then show ?thesis
      by (auto simp: parse_connect_request_def parse_addr_body_iff CMD_CONNECT_def)
  qed
  then show ?thesis using read_connect_request_Ok by blast
qed

subsection \<open>Authentication\<close>

definition cred_bytes :: "string \<Rightarrow> string \<Rightarrow> u8 list" where
  "cred_bytes user pwd =
    [0x01, word_of_nat (length user)] @ as_bytes user @ [word_of_nat (length pwd)] @ as_bytes pwd"

lemma read_auth_request_Ok:
  assumes "read_auth_request user pwd c = (Ok u, c')"
  shows "length user \<le> 255 \<and> length pwd \<le> 255 \<and> rx c = cred_bytes user pwd @ rx c' \<and>
    tx c' = tx c \<and> room c' = room c"
proof -
  have le: "unat n \<le> 255" for n :: u8 using unat_u8_less [of n] by linarith
  obtain ulen plen where l: "length user = unat (ulen :: u8)" "length pwd = unat (plen :: u8)"
      "rx c = [1, ulen] @ as_bytes user @ [plen] @ as_bytes pwd @ rx c'" "tx c' = tx c" "room c' = room c"
    using assms
    by (auto simp: read_auth_request_def io_Ok_iffs AUTH_VERSION_def split: if_splits)
  then show ?thesis
    using le [of ulen] le [of plen] by (simp add: cred_bytes_def)
qed

lemma server_request_Ok: "server_request c = (Ok a, c') \<longleftrightarrow> read_connect_request c = (Ok a, c')"
  by (auto simp: server_request_def split: prod.splits sum.splits socks5_error.splits)

lemma server_auth_Ok:
  assumes "server_auth user pwd c = (Ok u, c')"
  shows "length user \<le> 255 \<and> length pwd \<le> 255 \<and> rx c = cred_bytes user pwd @ rx c' \<and>
    tx c' = tx c @ [0x01, 0x00]"
proof -
  from assms obtain v c1 where 1: "read_auth_request user pwd c = (Ok v, c1)"
      "send_auth_response True c1 = (Ok u, c')"
    by (auto simp: server_auth_def split: prod.splits sum.splits)
  with read_auth_request_Ok [OF 1(1)] show ?thesis
    by (auto simp: send_auth_response_def io_Ok_iffs AUTH_VERSION_def)
qed

text \<open>
  C28: authentication cannot be bypassed. When the server requires a password and the handshake
  succeeds, the client has sent, in this order and with nothing between: a method list that
  offers username/password, exactly the configured user name and password, and the CONNECT
  request for the returned target; the server has answered by selecting username/password and
  reporting success. No other byte of the stream was consumed.
\<close>

theorem socks5_auth_transcript:
  assumes "handle_socks5_handshake username (Some pwd) c = (Ok target, c')"
  shows "\<exists>methods enc. AUTH_USERNAME_PASSWORD \<in> set methods \<and> length methods \<le> 255 \<and>
    encode_reply target = Ok enc \<and>
    rx c = [0x05, word_of_nat (length methods)] @ methods @
      cred_bytes (case username of Some u \<Rightarrow> u | None \<Rightarrow> []) pwd @ [0x05, 0x01, 0x00] @ enc @ rx c' \<and>
    tx c' = tx c @ [0x05, AUTH_USERNAME_PASSWORD] @ [0x01, 0x00]"
proof -
  let ?u = "case username of Some u \<Rightarrow> u | None \<Rightarrow> []"
  from assms obtain methods c1 c2 c3 x where
    neg: "read_method_negotiation c = (Ok methods, c1)" and
    sel: "send_method_selection methods (Some pwd) c1 = (Ok (), c2)" and
    auth: "server_auth ?u pwd c2 = (Ok x, c3)" and
    req: "read_connect_request c3 = (Ok target, c')"
    by (auto simp: handle_socks5_handshake_def io_bind_Ok_iff server_request_Ok)
  from neg obtain n :: u8 where n: "length methods = unat n" "rx c = [5, n] @ methods @ rx c1" "tx c1 = tx c"
    by (auto simp: read_method_negotiation_def io_Ok_iffs split: if_splits)
  from sel have s: "AUTH_USERNAME_PASSWORD \<in> set methods" "rx c2 = rx c1"
      "tx c2 = tx c1 @ [5, AUTH_USERNAME_PASSWORD]"
    by (auto simp: send_method_selection_def select_method_def io_Ok_iffs Let_def AUTH_NO_ACCEPTABLE_def split: if_splits)
  have "unat n \<le> 255" using unat_u8_less [of n] by linarith
  moreover from req have "encode_reply target = Ok (addr_atyp target # addr_body target)"
      "rx c3 = [5, 1, 0, addr_atyp target] @ addr_body target @ rx c'" "tx c' = tx c3"
    by (auto simp: read_connect_request_Ok encode_reply_Ok_iff encodable_wf)
  ultimately show ?thesis
    using n s server_auth_Ok [OF auth]
    by (intro exI [of _ methods] exI [of _ "addr_atyp target # addr_body target"]) simp
qed

theorem socks5_auth_transcript_witness:
  "\<exists>methods. AUTH_USERNAME_PASSWORD \<in> set methods \<and>
    [5, 2, 0, 2, 1, 1, 0x75, 1, 0x70, 5, 1, 0, 1, 10, 0, 0, 1, 1, 0xBB, 0x47 :: u8] =
      [0x05, word_of_nat (length methods)] @ methods @ cred_bytes ''u'' ''p'' @
      [5, 1, 0, 1, 10, 0, 0, 1, 1, 0xBB] @ [0x47]"
proof -
  let ?c = "\<lparr>rx = [5, 2, 0, 2, 1, 1, 0x75, 1, 0x70, 5, 1, 0, 1, 10, 0, 0, 1, 1, 0xBB, 0x47],
             tx = [], room = 99\<rparr>"
  let ?c' = "\<lparr>rx = [0x47], tx = [5, 2, 1, 0], room = 95\<rparr>"
  have h: "handle_socks5_handshake (Some ''u'') (Some ''p'') ?c = (Ok (Socks_IPv4 [10, 0, 0, 1] 443), ?c')"
    by code_simp
  have e: "encode_reply (Socks_IPv4 [10, 0, 0, 1] 443) = Ok [1, 10, 0, 0, 1, 1, 0xBB]" by code_simp
  from socks5_auth_transcript [OF h] e show ?thesis by auto
qed

subsection \<open>Client and server together\<close>

definition addr_enc :: "socks_addr \<Rightarrow> u8 list" where
  "addr_enc a = addr_atyp a # addr_body a"

lemma length_addr_enc: "encodable a \<Longrightarrow> length (addr_enc a) \<le> 259"
  by (cases a) (auto simp: addr_enc_def)

lemma send_connect_request_eval:
  assumes "encodable a" "3 + length (addr_enc a) \<le> r"
  shows "send_connect_request a \<lparr>rx = x, tx = t, room = r\<rparr> =
    (Ok (), \<lparr>rx = x, tx = t @ [0x05, 0x01, 0x00] @ addr_enc a, room = r - (3 + length (addr_enc a))\<rparr>)"
  using assms by (cases a) (auto simp: send_connect_request_def addr_enc_def MAX_CRED_LEN_def io_simps)

lemma send_connect_reply_eval:
  assumes "encodable a" "3 + length (addr_enc a) \<le> r"
  shows "send_connect_reply rep a \<lparr>rx = x, tx = t, room = r\<rparr> =
    (Ok (), \<lparr>rx = x, tx = t @ [0x05, rep, 0x00] @ addr_enc a, room = r - (3 + length (addr_enc a))\<rparr>)"
proof -
  have "encode_reply a = Ok (addr_enc a)"
    using assms(1) by (simp add: encode_reply_Ok_iff encodable_wf addr_enc_def)
  then show ?thesis using assms(2) by (simp add: send_connect_reply_def)
qed

lemma read_connect_reply_eval:
  assumes "encodable a"
  shows "read_connect_reply \<lparr>rx = [0x05, 0x00, 0x00] @ addr_enc a @ rest, tx = t, room = r\<rparr> =
    (Ok a, \<lparr>rx = rest, tx = t, room = r\<rparr>)"
  using assms by (cases a) (auto simp: read_connect_reply_def addr_enc_def unat_of_nat_255)

lemma server_request_eval:
  "encodable a \<Longrightarrow>
   server_request \<lparr>rx = [0x05, 0x01, 0x00] @ addr_enc a @ rest, tx = t, room = r\<rparr> =
    (Ok a, \<lparr>rx = rest, tx = t, room = r\<rparr>)"
  by (simp add: server_request_Ok read_connect_request_Ok addr_enc_def)

lemma server_auth_eval:
  assumes "length user \<le> 255" "length pwd \<le> 255" "2 \<le> r"
  shows "server_auth user pwd \<lparr>rx = cred_bytes user pwd @ rest, tx = t, room = r\<rparr> =
    (Ok (), \<lparr>rx = rest, tx = t @ [0x01, 0x00], room = r - 2\<rparr>)"
proof -
  have u: "unat (word_of_nat (length user) :: u8) = length user"
      "unat (word_of_nat (length pwd) :: u8) = length pwd"
    using assms by (simp_all add: unat_of_nat_255)
  have "read_auth_request user pwd \<lparr>rx = cred_bytes user pwd @ rest, tx = t, room = r\<rparr> =
      (Ok user, \<lparr>rx = rest, tx = t, room = r\<rparr>)"
    using assms by (simp add: read_auth_request_def cred_bytes_def u AUTH_VERSION_def MAX_CRED_LEN_def)
  then show ?thesis using assms(3) by (simp add: server_auth_def send_auth_response_def AUTH_VERSION_def)
qed

lemma send_auth_request_eval:
  assumes "length user \<le> 255" "length pwd \<le> 255" "length (cred_bytes user pwd) \<le> r"
  shows "send_auth_request user pwd \<lparr>rx = x, tx = t, room = r\<rparr> =
    (Ok (), \<lparr>rx = x, tx = t @ cred_bytes user pwd, room = r - length (cred_bytes user pwd)\<rparr>)"
  using assms by (simp add: send_auth_request_def cred_bytes_def MAX_CRED_LEN_def AUTH_VERSION_def)

lemma read_auth_response_eval:
  "read_auth_response \<lparr>rx = [0x01, 0x00] @ rest, tx = t, room = r\<rparr> = (Ok (), \<lparr>rx = rest, tx = t, room = r\<rparr>)"
  by (simp add: read_auth_response_def AUTH_VERSION_def)

text \<open>The serving side: handshake, then the success reply with the bound address.\<close>

definition serve_connect ::
  "string option \<Rightarrow> string option \<Rightarrow> socks_addr \<Rightarrow> (socks5_error, socks_addr) io" where
  "serve_connect username password bind_addr =
    io_bind (handle_socks5_handshake username password) (\<lambda>target.
    io_bind (send_connect_reply REP_SUCCESS bind_addr) (\<lambda>_. io_return target))"

text \<open>The credentials of the client satisfy what the server requires.\<close>

definition auth_agrees :: "(string \<times> string) option \<Rightarrow> string option \<Rightarrow> string option \<Rightarrow> bool" where
  "auth_agrees auth username password \<longleftrightarrow>
    (case password of
       None \<Rightarrow> True
     | Some pwd \<Rightarrow>
        (case auth of
           None \<Rightarrow> False
         | Some (u, p) \<Rightarrow> username = Some u \<and> p = pwd \<and> length u \<le> 255 \<and> length p \<le> 255))"

definition client_bytes :: "socks_addr \<Rightarrow> (string \<times> string) option \<Rightarrow> string option \<Rightarrow> u8 list" where
  "client_bytes target auth password =
    (if auth = None then [5, 1, 0] else [5, 2, 0, 2]) @
    (case (auth, password) of (Some (u, p), Some _) \<Rightarrow> cred_bytes u p | _ \<Rightarrow> []) @
    [0x05, 0x01, 0x00] @ addr_enc target"

definition server_bytes :: "socks_addr \<Rightarrow> string option \<Rightarrow> u8 list" where
  "server_bytes bind_addr password =
    (if password = None then [5, 0] else [5, 2, 1, 0]) @ [0x05, 0x00, 0x00] @ addr_enc bind_addr"

lemma length_client_bytes:
  "encodable target \<Longrightarrow> auth_agrees auth username password \<Longrightarrow>
   length (client_bytes target auth password) \<le> 1024"
  using length_addr_enc [of target]
  by (auto simp: client_bytes_def auth_agrees_def cred_bytes_def split: option.splits prod.splits)

lemma length_server_bytes: "encodable b \<Longrightarrow> length (server_bytes b password) \<le> 1024"
  using length_addr_enc [of b] by (auto simp: server_bytes_def)

lemma negotiation_eval:
  "read_method_negotiation \<lparr>rx = 5 # 1 # 0 # x, tx = t, room = r\<rparr> = (Ok [0], \<lparr>rx = x, tx = t, room = r\<rparr>)"
  "read_method_negotiation \<lparr>rx = 5 # 2 # 0 # 2 # x, tx = t, room = r\<rparr> = (Ok [0, 2], \<lparr>rx = x, tx = t, room = r\<rparr>)"
  by (simp_all add: read_method_negotiation_def read_exact_def)

lemma selection_eval:
  "2 \<le> r \<Longrightarrow> select_method ms pw \<noteq> 0xFF \<Longrightarrow>
   send_method_selection ms pw \<lparr>rx = x, tx = t, room = r\<rparr> =
    (Ok (), \<lparr>rx = x, tx = t @ [5, select_method ms pw], room = r - 2\<rparr>)"
  by (simp add: send_method_selection_def Let_def AUTH_NO_ACCEPTABLE_def)

lemma select_method_simps [simp]:
  "select_method [0] None = 0" "select_method [0, 2] None = 0" "select_method [0, 2] (Some p) = 2"
  by (simp_all add: select_method_def AUTH_NONE_def AUTH_USERNAME_PASSWORD_def)

lemmas interop_evals = negotiation_eval selection_eval server_auth_eval
  server_request_eval [simplified] send_connect_reply_eval [simplified]
  send_connect_request_eval [simplified] read_connect_reply_eval [simplified]
  send_auth_request_eval read_auth_response_eval [simplified]

lemma server_interop:
  assumes "encodable target" "encodable b" "auth_agrees auth username password" "1024 \<le> r"
  shows "serve_connect username password b
      \<lparr>rx = client_bytes target auth password @ up, tx = [], room = r\<rparr> =
    (Ok target, \<lparr>rx = up, tx = server_bytes b password, room = r - length (server_bytes b password)\<rparr>)"
proof -
  note la = length_addr_enc [OF assms(2)]
  show ?thesis
  proof (cases password)
    case None
    then show ?thesis
      using assms la
      by (cases auth) (simp_all add: serve_connect_def handle_socks5_handshake_def client_bytes_def
          server_bytes_def REP_SUCCESS_def interop_evals split_beta)
  next
    case (Some pwd)
    with assms(3) obtain u where u: "auth = Some (u, pwd)" "username = Some u" "length u \<le> 255" "length pwd \<le> 255"
      by (auto simp: auth_agrees_def split: option.splits)
    then show ?thesis
      using assms la Some
      by (simp add: serve_connect_def handle_socks5_handshake_def client_bytes_def
          server_bytes_def REP_SUCCESS_def interop_evals)
  qed
qed

lemma client_interop:
  assumes "encodable target" "encodable b" "auth_agrees auth username password" "1024 \<le> r"
  shows "socks5_connect target auth \<lparr>rx = server_bytes b password @ down, tx = t, room = r\<rparr> =
    (Ok (), \<lparr>rx = down, tx = t @ client_bytes target auth password,
             room = r - length (client_bytes target auth password)\<rparr>)"
proof -
  note la = length_addr_enc [OF assms(1)]
  show ?thesis
  proof (cases password)
    case None
    then show ?thesis
      using assms la
      by (cases auth) (simp_all add: socks5_connect_def client_auth_def client_bytes_def
          server_bytes_def auth_consts interop_evals split_beta)
  next
    case (Some pwd)
    with assms(3) obtain u where u: "auth = Some (u, pwd)" "username = Some u" "length u \<le> 255" "length pwd \<le> 255"
      by (auto simp: auth_agrees_def split: option.splits)
    moreover have "length (cred_bytes u pwd) \<le> 513" using u by (simp add: cred_bytes_def)
    ultimately show ?thesis
      using assms la Some
      by (simp add: socks5_connect_def client_auth_def client_bytes_def
          server_bytes_def auth_consts interop_evals)
  qed
qed

text \<open>
  C29: client and server interoperate. For every encodable target and bound address, and client
  credentials that satisfy the server (any when it requires none), the two sides complete the
  handshake with each other: the server, fed the client's bytes and then any data, returns the
  client's target and leaves the data unread; the client, fed the server's bytes and then any
  data, succeeds and leaves its data unread; and each writes exactly what the other was fed.
\<close>

theorem socks5_interop:
  assumes "encodable target" "encodable b" "auth_agrees auth username password" "1024 \<le> r"
  shows "serve_connect username password b
      \<lparr>rx = client_bytes target auth password @ up, tx = [], room = r\<rparr> =
    (Ok target, \<lparr>rx = up, tx = server_bytes b password, room = r - length (server_bytes b password)\<rparr>) \<and>
    socks5_connect target auth \<lparr>rx = server_bytes b password @ down, tx = [], room = r\<rparr> =
    (Ok (), \<lparr>rx = down, tx = client_bytes target auth password,
             room = r - length (client_bytes target auth password)\<rparr>)"
  using server_interop [OF assms] client_interop [OF assms, where t = "[]"] by simp

theorem socks5_interop_witness:
  "fst (serve_connect (Some ''u'') (Some ''p'') (Socks_IPv4 [0, 0, 0, 0] 0)
     \<lparr>rx = client_bytes (Socks_Domain ''example.com'' 443) (Some (''u'', ''p'')) (Some ''p'') @ [1, 2, 3],
      tx = [], room = 2000\<rparr>) = Ok (Socks_Domain ''example.com'' 443)"
proof -
  have "wf_str ''example.com''" by code_simp
  then have "encodable (Socks_Domain ''example.com'' 443)" "encodable (Socks_IPv4 [0, 0, 0, 0] 0)"
    by simp_all
  moreover have "auth_agrees (Some (''u'', ''p'')) (Some ''u'') (Some ''p'')" by (simp add: auth_agrees_def)
  ultimately show ?thesis
    using socks5_interop [of "Socks_Domain ''example.com'' 443" "Socks_IPv4 [0, 0, 0, 0] 0"
        "Some (''u'', ''p'')" "Some ''u''" "Some ''p''" 2000 "[1, 2, 3]" "[]"] by simp
qed

end
