(* ===== verification/Udp_Upstream.thy ===== *)
theory Udp_Upstream
  imports Udp_Assoc Udp_Hop Socks5_Handshake
begin

text \<open>
  Opening a UDP upstream: the SOCKS5 \<^verbatim>\<open>UDP ASSOCIATE\<close> client of
  \<^verbatim>\<open>crates/eggress-udp/src/upstream_socks5.rs\<close> with its buffer codecs, and the construction of a composed
  stack of hops of \<^verbatim>\<open>composed.rs\<close>. The control connection is a byte stream; name resolution, connecting and
  binding are parameters. Results: the exact transcript the client writes and the relay address it returns on
  every answer of a proxy, the family of the local bind, and that a composed stack that cannot be opened leaves
  no control connection behind.
\<close>

subsection \<open>Errors and addresses\<close>

text \<open>The two I/O errors carry the text of the operating system.\<close>

datatype udp_upstream_error =
  UU_UnsupportedProtocol
| UU_UnsupportedMultiHop
| UU_TcpConnect string
| SocksMethodRejected
| SocksAuthFailed
| SocksAssociateRejected u8
| MalformedSocksReply
| UdpRelayAddressInvalid
| UU_Timeout
| UU_CredentialTooLong
| UU_DomainTooLong
| UU_Io string

fun reason_label :: "udp_upstream_error \<Rightarrow> string" where
  "reason_label UU_UnsupportedProtocol = ''unsupported_protocol''"
| "reason_label UU_UnsupportedMultiHop = ''unsupported_multi_hop''"
| "reason_label (UU_TcpConnect _) = ''tcp_connect''"
| "reason_label SocksMethodRejected = ''method_rejected''"
| "reason_label SocksAuthFailed = ''auth_failed''"
| "reason_label (SocksAssociateRejected _) = ''associate_rejected''"
| "reason_label MalformedSocksReply = ''malformed_reply''"
| "reason_label UdpRelayAddressInvalid = ''bad_relay_addr''"
| "reason_label UU_Timeout = ''timeout''"
| "reason_label UU_CredentialTooLong = ''credential_too_long''"
| "reason_label UU_DomainTooLong = ''domain_too_long''"
| "reason_label (UU_Io _) = ''io''"

fun UdpUpstreamError_fmt :: "udp_upstream_error \<Rightarrow> string" where
  "UdpUpstreamError_fmt UU_UnsupportedProtocol = ''unsupported protocol''"
| "UdpUpstreamError_fmt UU_UnsupportedMultiHop = ''unsupported multi-hop chain''"
| "UdpUpstreamError_fmt (UU_TcpConnect e) = ''TCP connect failed: '' @ e"
| "UdpUpstreamError_fmt SocksMethodRejected = ''SOCKS5 method negotiation rejected''"
| "UdpUpstreamError_fmt SocksAuthFailed = ''SOCKS5 authentication failed''"
| "UdpUpstreamError_fmt (SocksAssociateRejected rep) = ''SOCKS5 UDP ASSOCIATE rejected: '' @ show_nat (unat rep)"
| "UdpUpstreamError_fmt MalformedSocksReply = ''malformed SOCKS5 reply''"
| "UdpUpstreamError_fmt UdpRelayAddressInvalid = ''UDP relay address invalid''"
| "UdpUpstreamError_fmt UU_Timeout = ''handshake timed out''"
| "UdpUpstreamError_fmt UU_CredentialTooLong = ''credential too long for SOCKS5 encoding''"
| "UdpUpstreamError_fmt UU_DomainTooLong = ''domain too long for SOCKS5 encoding''"
| "UdpUpstreamError_fmt (UU_Io e) = ''I/O error: '' @ e"

fun wildcard_udp_bind_for_relay :: "socket_addr \<Rightarrow> socket_addr" where
  "wildcard_udp_bind_for_relay (SocketAddr (V4 _) _) = SocketAddr (V4 [0, 0, 0, 0]) 0"
| "wildcard_udp_bind_for_relay (SocketAddr (V6 _) _) = SocketAddr (V6 (replicate 16 0)) 0"

fun same_family :: "ip_addr \<Rightarrow> ip_addr \<Rightarrow> bool" where
  "same_family (V4 _) (V4 _) = True"
| "same_family (V6 _) (V6 _) = True"
| "same_family _ _ = False"

definition effective_udp_bind :: "socket_addr \<Rightarrow> socket_addr \<Rightarrow> socket_addr" where
  "effective_udp_bind requested relay =
    (if same_family (sock_ip requested) (sock_ip relay) then requested else wildcard_udp_bind_for_relay relay)"

fun is_unspecified :: "socket_addr \<Rightarrow> bool" where
  "is_unspecified (SocketAddr (V4 os) _) \<longleftrightarrow> os = [0, 0, 0, 0]"
| "is_unspecified (SocketAddr (V6 os) _) \<longleftrightarrow> os = replicate 16 0"

definition substitute_unspecified :: "socket_addr \<Rightarrow> ip_addr \<Rightarrow> socket_addr" where
  "substitute_unspecified addr peer_ip = (if is_unspecified addr then SocketAddr peer_ip (sock_port addr) else addr)"

subsection \<open>Messages\<close>

text \<open>\<^verbatim>\<open>checked_u8_len\<close>, with the error of the field it is called for.\<close>

definition checked_u8_len :: "udp_upstream_error \<Rightarrow> string \<Rightarrow> udp_upstream_error + u8" where
  "checked_u8_len e s = (if 255 < length s then Err e else Ok (word_of_nat (length s)))"

fun encode_socks_addr :: "socks_addr \<Rightarrow> udp_upstream_error + u8 list" where
  "encode_socks_addr (Socks_IPv4 addr port) = Ok ([ATYP_IPV4] @ addr @ to_be_bytes port)"
| "encode_socks_addr (Socks_Domain domain port) =
    try_bind (checked_u8_len UU_DomainTooLong domain) (\<lambda>n.
    Ok ([ATYP_DOMAIN, n] @ as_bytes domain @ to_be_bytes port))"
| "encode_socks_addr (Socks_IPv6 addr port) = Ok ([ATYP_IPV6] @ addr @ to_be_bytes port)"

definition encode_method_negotiation :: "u8 list \<Rightarrow> u8 list" where
  "encode_method_negotiation methods = [0x05, word_of_nat (length methods)] @ methods"

definition encode_auth_request :: "string \<Rightarrow> string \<Rightarrow> udp_upstream_error + u8 list" where
  "encode_auth_request username password =
    try_bind (checked_u8_len UU_CredentialTooLong username) (\<lambda>u_len.
    try_bind (checked_u8_len UU_CredentialTooLong password) (\<lambda>p_len.
    Ok ([AUTH_VERSION, u_len] @ as_bytes username @ [p_len] @ as_bytes password)))"

definition encode_udp_associate_request :: "socks_addr \<Rightarrow> udp_upstream_error + u8 list" where
  "encode_udp_associate_request target =
    try_bind (encode_socks_addr target) (\<lambda>addr. Ok ([0x05, CMD_UDP_ASSOCIATE, 0x00] @ addr))"

definition decode_method_selection :: "u8 list \<Rightarrow> udp_upstream_error + u8" where
  "decode_method_selection buf =
    (if length buf < 2 \<or> buf ! 0 \<noteq> 0x05 then Err MalformedSocksReply else Ok (buf ! 1))"

definition decode_auth_response :: "u8 list \<Rightarrow> udp_upstream_error + unit" where
  "decode_auth_response buf =
    (if length buf < 2 \<or> buf ! 0 \<noteq> AUTH_VERSION then Err MalformedSocksReply
     else if buf ! 1 \<noteq> 0x00 then Err SocksAuthFailed
     else Ok ())"

text \<open>
  The environment: the resolver and the sockets. \<open>ue_in_time\<close> says whether opening a hop ends within its
  time limit, \<open>ue_connect\<close> gives the control connection and the address of its peer.
\<close>

record udp_env =
  ue_lookup :: "string \<Rightarrow> u16 \<Rightarrow> string + socket_addr list"
  ue_connect :: "socket_addr \<Rightarrow> string + (conn \<times> ip_addr)"
  ue_nodelay :: "string + unit"
  ue_peer_addr :: "string + unit"
  ue_bind :: "socket_addr \<Rightarrow> string + unit"
  ue_in_time :: "proxy_hop_spec \<Rightarrow> bool"
  ue_io_text :: "io_error \<Rightarrow> string"

definition first_addr :: "'e \<Rightarrow> (string \<Rightarrow> 'e) \<Rightarrow> string + socket_addr list \<Rightarrow> 'e + socket_addr" where
  "first_addr none_found failed r =
    (case r of Inl e \<Rightarrow> Err (failed e) | Inr [] \<Rightarrow> Err none_found | Inr (a # _) \<Rightarrow> Ok a)"

definition resolve_endpoint :: "udp_env \<Rightarrow> endpoint_spec \<Rightarrow> udp_upstream_error + socket_addr" where
  "resolve_endpoint env endpoint =
    first_addr (UU_TcpConnect ''no addresses found'') UU_TcpConnect
      (ue_lookup env (if ep_host endpoint = [] then ''127.0.0.1'' else ep_host endpoint) (ep_port endpoint))"

definition resolve_domain_relay :: "udp_env \<Rightarrow> string \<Rightarrow> u16 \<Rightarrow> udp_upstream_error + socket_addr" where
  "resolve_domain_relay env domain port = first_addr UdpRelayAddressInvalid UU_Io (ue_lookup env domain port)"

definition decode_udp_associate_reply :: "udp_env \<Rightarrow> u8 list \<Rightarrow> udp_upstream_error + socket_addr" where
  "decode_udp_associate_reply env buf =
    (if length buf < 4 \<or> buf ! 0 \<noteq> 0x05 then Err MalformedSocksReply
     else if buf ! 1 \<noteq> 0x00 then Err (SocksAssociateRejected (buf ! 1))
     else if buf ! 3 = ATYP_IPV4 then
       (if length buf < 10 then Err MalformedSocksReply
        else Ok (SocketAddr (V4 (take 4 (drop 4 buf))) (from_be_bytes (buf ! 8) (buf ! 9))))
     else if buf ! 3 = ATYP_IPV6 then
       (if length buf < 22 then Err MalformedSocksReply
        else Ok (SocketAddr (V6 (take 16 (drop 4 buf))) (from_be_bytes (buf ! 20) (buf ! 21))))
     else if buf ! 3 = ATYP_DOMAIN then
       (if length buf < 5 then Err MalformedSocksReply
        else let len = unat (buf ! 4) in
             if len = 0 \<or> length buf < 5 + len + 2 then Err MalformedSocksReply
             else (case from_utf8 (take len (drop 5 buf)) of
                     None \<Rightarrow> Err UdpRelayAddressInvalid
                   | Some domain \<Rightarrow>
                       resolve_domain_relay env domain (from_be_bytes (buf ! (5 + len)) (buf ! (6 + len)))))
     else Err UdpRelayAddressInvalid)"

subsection \<open>The handshake\<close>

definition uu_io :: "udp_env \<Rightarrow> io_error \<Rightarrow> udp_upstream_error" where
  "uu_io env e = UU_Io (ue_io_text env e)"

definition socks5_method_negotiate :: "udp_env \<Rightarrow> (string \<times> string) option \<Rightarrow> (udp_upstream_error, unit) io" where
  "socks5_method_negotiate env auth =
    (let methods = AUTH_NONE # (if auth \<noteq> None then [AUTH_USERNAME_PASSWORD] else []) in
     io_bind (write_all (uu_io env) ([0x05, word_of_nat (length methods)] @ methods)) (\<lambda>_.
     io_bind flush (\<lambda>_.
     io_bind (read_u8 (uu_io env)) (\<lambda>version.
       if version \<noteq> 0x05 then io_fail SocksMethodRejected
       else io_bind (read_u8 (uu_io env)) (\<lambda>selected.
         if selected = AUTH_NONE then io_return ()
         else if selected = AUTH_USERNAME_PASSWORD \<and> auth \<noteq> None then io_return ()
         else io_fail SocksMethodRejected)))))"

definition socks5_auth :: "udp_env \<Rightarrow> string \<Rightarrow> string \<Rightarrow> (udp_upstream_error, unit) io" where
  "socks5_auth env username password =
    io_bind (io_of_result (checked_u8_len UU_CredentialTooLong username)) (\<lambda>u_len.
    io_bind (io_of_result (checked_u8_len UU_CredentialTooLong password)) (\<lambda>p_len.
    io_bind (write_all (uu_io env) ([AUTH_VERSION, u_len] @ as_bytes username @ [p_len] @ as_bytes password)) (\<lambda>_.
    io_bind flush (\<lambda>_.
    io_bind (read_u8 (uu_io env)) (\<lambda>version.
      if version \<noteq> AUTH_VERSION then io_fail SocksAuthFailed
      else io_bind (read_u8 (uu_io env)) (\<lambda>status.
        if status \<noteq> 0x00 then io_fail SocksAuthFailed else io_return ()))))))"

definition read_relay_addr :: "udp_env \<Rightarrow> u8 \<Rightarrow> (udp_upstream_error, socket_addr) io" where
  "read_relay_addr env atyp =
    (if atyp = ATYP_IPV4 then
       io_bind (read_exact (uu_io env) 4) (\<lambda>addr.
       io_bind (read_u16 (uu_io env)) (\<lambda>port. io_return (SocketAddr (V4 addr) port)))
     else if atyp = ATYP_IPV6 then
       io_bind (read_exact (uu_io env) 16) (\<lambda>addr.
       io_bind (read_u16 (uu_io env)) (\<lambda>port. io_return (SocketAddr (V6 addr) port)))
     else if atyp = ATYP_DOMAIN then
       io_bind (read_u8 (uu_io env)) (\<lambda>len.
         if len = 0 then io_fail UdpRelayAddressInvalid
         else io_bind (read_exact (uu_io env) (unat len)) (\<lambda>domain.
           io_bind (read_u16 (uu_io env)) (\<lambda>port.
             case from_utf8 domain of
               None \<Rightarrow> io_fail UdpRelayAddressInvalid
             | Some d \<Rightarrow> io_of_result (resolve_domain_relay env d port))))
     else io_fail UdpRelayAddressInvalid)"

definition socks5_udp_associate :: "udp_env \<Rightarrow> socks_addr \<Rightarrow> (udp_upstream_error, socket_addr) io" where
  "socks5_udp_associate env target =
    io_bind (io_of_result (encode_udp_associate_request target)) (\<lambda>request.
    io_bind (write_all (uu_io env) request) (\<lambda>_.
    io_bind flush (\<lambda>_.
    io_bind (read_u8 (uu_io env)) (\<lambda>version.
      if version \<noteq> 0x05 then io_fail MalformedSocksReply
      else io_bind (read_u8 (uu_io env)) (\<lambda>rep.
        if rep \<noteq> 0x00 then io_fail (SocksAssociateRejected rep)
        else io_bind (read_u8 (uu_io env)) (\<lambda>_. io_bind (read_u8 (uu_io env)) (read_relay_addr env)))))))"

definition udp_handshake :: "udp_env \<Rightarrow> (string \<times> string) option \<Rightarrow> socks_addr \<Rightarrow> (udp_upstream_error, socket_addr) io" where
  "udp_handshake env auth hint =
    io_bind (socks5_method_negotiate env auth) (\<lambda>_.
    io_bind (case auth of Some (username, password) \<Rightarrow> socks5_auth env username password | None \<Rightarrow> io_return ()) (\<lambda>_.
    socks5_udp_associate env hint))"

text \<open>The association that is handed out: the relay's address and the local bind of its socket.\<close>

record udp_upstream_association =
  uua_relay_addr :: socket_addr
  uua_bind :: socket_addr

definition open_socks5_udp_upstream_inner ::
  "udp_env \<Rightarrow> proxy_hop_spec \<Rightarrow> socket_addr \<Rightarrow> socks_addr option \<Rightarrow> udp_upstream_error + udp_upstream_association" where
  "open_socks5_udp_upstream_inner env hop udp_bind target_hint =
    (if 1 < length (hop_protocols hop) then Err UU_UnsupportedMultiHop
     else if Spec_Socks5 \<notin> set (hop_protocols hop) then Err UU_UnsupportedProtocol
     else
       try_bind (resolve_endpoint env (hop_endpoint hop)) (\<lambda>connect_addr.
       try_bind (map_err UU_TcpConnect (ue_connect env connect_addr)) (\<lambda>(stream, peer_ip).
       try_bind (map_err UU_Io (ue_nodelay env)) (\<lambda>_.
       try_bind (fst (udp_handshake env (map_option (\<lambda>c. (cred_username c, cred_password c)) (hop_credentials hop))
                   (case target_hint of Some h \<Rightarrow> h | None \<Rightarrow> Socks_IPv4 [0, 0, 0, 0] 0) stream)) (\<lambda>addr.
       try_bind (if is_unspecified addr
                 then map_sum UU_Io (\<lambda>_. SocketAddr peer_ip (sock_port addr)) (ue_peer_addr env) else Ok addr) (\<lambda>relay_addr.
       let effective_bind = effective_udp_bind udp_bind relay_addr in
       try_bind (map_err UU_Io (ue_bind env effective_bind)) (\<lambda>_.
       Ok \<lparr>uua_relay_addr = relay_addr, uua_bind = effective_bind\<rparr>)))))))"

definition open_socks5_udp_upstream ::
  "udp_env \<Rightarrow> proxy_hop_spec \<Rightarrow> socket_addr \<Rightarrow> socks_addr option \<Rightarrow> udp_upstream_error + udp_upstream_association" where
  "open_socks5_udp_upstream env hop udp_bind target_hint =
    (if ue_in_time env hop then open_socks5_udp_upstream_inner env hop udp_bind target_hint else Err UU_Timeout)"

subsection \<open>Composed stacks\<close>

record composed_flow =
  cf_stack :: "udp_hop_codec list"
  cf_outer_relay_addr :: socket_addr
  cf_relay_targets :: "target_addr list"
  cf_controls :: nat

definition resolve_hop_target :: "udp_env \<Rightarrow> target_addr \<Rightarrow> udp_error + socket_addr" where
  "resolve_hop_target env target =
    (case tgt_host target of
       Ip ip \<Rightarrow> Ok (SocketAddr ip (tgt_port target))
     | Domain domain \<Rightarrow> first_addr UnresolvedTarget Udp_Other (ue_lookup env domain (tgt_port target)))"

definition socket_target :: "socket_addr \<Rightarrow> target_addr" where
  "socket_target addr = \<lparr>tgt_host = Ip (sock_ip addr), tgt_port = sock_port addr\<rparr>"

text \<open>
  The loop over the hops: the transport addresses of the hops so far and the number of open control
  connections. On a failure the control connections are cancelled; the second component of the result is
  the number that stay open.
\<close>

fun open_hops ::
  "udp_env \<Rightarrow> socket_addr \<Rightarrow> (udp_hop_codec \<times> proxy_hop_spec) list \<Rightarrow> socket_addr list \<Rightarrow> nat
   \<Rightarrow> (udp_error + socket_addr list) \<times> nat" where
  "open_hops env udp_bind [] targets controls = (Ok targets, controls)"
| "open_hops env udp_bind ((Hop_Socks5 ep, spec) # rest) targets controls =
    (case open_socks5_udp_upstream env spec udp_bind None of
       Inl e \<Rightarrow> (Err (Udp_Other (UdpUpstreamError_fmt e)), 0)
     | Inr assoc \<Rightarrow> open_hops env udp_bind rest (targets @ [uua_relay_addr assoc]) (controls + 1))"
| "open_hops env udp_bind ((Hop_Shadowsocks ep m pw ikm, spec) # rest) targets controls =
    (case resolve_hop_target env ep of
       Inl e \<Rightarrow> (Err e, 0)
     | Inr endpoint \<Rightarrow>
         (case (if targets = [] then ue_bind env udp_bind else Ok ()) of
            Inl e \<Rightarrow> (Err (Udp_Other e), 0)
          | Inr _ \<Rightarrow> open_hops env udp_bind rest (targets @ [endpoint]) controls))"

definition open_composed_udp_upstream ::
  "udp_env \<Rightarrow> crypto \<Rightarrow> (udp_hop_error \<Rightarrow> string) \<Rightarrow> proxy_chain_spec \<Rightarrow> socket_addr \<Rightarrow> (udp_error + composed_flow) \<times> nat" where
  "open_composed_udp_upstream env cr hop_error_fmt chain udp_bind =
    (case UdpHopStack_from_chain cr chain of
       Inl e \<Rightarrow> (Err (Udp_Other (''invalid UDP hop stack: '' @ hop_error_fmt e)), 0)
     | Inr stack \<Rightarrow>
         (case open_hops env udp_bind (zip stack (hops chain)) [] 0 of
            (Inl e, controls) \<Rightarrow> (Err e, controls)
          | (Inr [], controls) \<Rightarrow> (Err (Udp_Other ''empty UDP hop stack''), 0)
          | (Inr (outer # inner), controls) \<Rightarrow>
              (Ok \<lparr>cf_stack = stack, cf_outer_relay_addr = outer, cf_relay_targets = map socket_target inner,
                   cf_controls = controls\<rparr>, controls)))"

subsection \<open>The transcript\<close>

lemma checked_u8_len_Ok [simp]:
  "checked_u8_len e s = Ok n \<longleftrightarrow> length s \<le> 255 \<and> n = word_of_nat (length s)"
  by (auto simp: checked_u8_len_def not_less)

definition offered_methods :: "(string \<times> string) option \<Rightarrow> u8 list" where
  "offered_methods auth = (if auth = None then [0x05, 1, AUTH_NONE] else [0x05, 2, AUTH_NONE, AUTH_USERNAME_PASSWORD])"

lemma method_negotiate_done:
  assumes "socks5_method_negotiate env auth c = (Ok u, c')"
  shows "\<exists>sel. (sel = AUTH_NONE \<or> sel = AUTH_USERNAME_PASSWORD \<and> auth \<noteq> None) \<and> rx c = [0x05, sel] @ rx c' \<and>
      tx c' = tx c @ offered_methods auth \<and> length (offered_methods auth) \<le> room c \<and>
      room c' = room c - length (offered_methods auth)"
  using assms
  by (cases auth)
    (auto simp: socks5_method_negotiate_def offered_methods_def Let_def io_Ok_iffs auth_consts split: if_splits)

lemma method_negotiate_runs:
  "sel = AUTH_NONE \<or> sel = AUTH_USERNAME_PASSWORD \<and> auth \<noteq> None \<Longrightarrow> length (offered_methods auth) \<le> r \<Longrightarrow>
    socks5_method_negotiate env auth \<lparr>rx = 0x05 # sel # x, tx = t, room = r\<rparr> =
      (Ok (), \<lparr>rx = x, tx = t @ offered_methods auth, room = r - length (offered_methods auth)\<rparr>)"
  by (cases auth) (auto simp: socks5_method_negotiate_def offered_methods_def Let_def)

lemma socks5_auth_done:
  assumes "socks5_auth env username password c = (Ok u, c')"
  shows "\<exists>request. encode_auth_request username password = Ok request \<and> rx c = [AUTH_VERSION, 0x00] @ rx c' \<and>
      tx c' = tx c @ request \<and> length request \<le> room c \<and> room c' = room c - length request"
  using assms by (auto simp: socks5_auth_def encode_auth_request_def io_Ok_iffs try_bind_Ok_iff split: if_splits)

lemma socks5_auth_runs:
  "encode_auth_request username password = Ok request \<Longrightarrow> length request \<le> r \<Longrightarrow>
    socks5_auth env username password \<lparr>rx = AUTH_VERSION # 0x00 # x, tx = t, room = r\<rparr> =
      (Ok (), \<lparr>rx = x, tx = t @ request, room = r - length request\<rparr>)"
  by (auto simp: socks5_auth_def encode_auth_request_def try_bind_Ok_iff checked_u8_len_def)

text \<open>The answers to a request that name a relay address, and the address they name.\<close>

definition relay_reply :: "udp_env \<Rightarrow> u8 list \<Rightarrow> socket_addr \<Rightarrow> bool" where
  "relay_reply env bytes addr \<longleftrightarrow>
    (\<exists>os port. length os = 4 \<and> bytes = [ATYP_IPV4] @ os @ to_be_bytes port \<and> addr = SocketAddr (V4 os) port) \<or>
    (\<exists>os port. length os = 16 \<and> bytes = [ATYP_IPV6] @ os @ to_be_bytes port \<and> addr = SocketAddr (V6 os) port) \<or>
    (\<exists>len domain d port. len \<noteq> 0 \<and> length domain = unat len \<and> from_utf8 domain = Some d \<and>
       bytes = [ATYP_DOMAIN, len] @ domain @ to_be_bytes port \<and> resolve_domain_relay env d port = Ok addr)"

lemma read_relay_addr_done:
  assumes "read_relay_addr env atyp c = (Ok addr, c')"
  shows "\<exists>body. relay_reply env (atyp # body) addr \<and> rx c = body @ rx c' \<and> tx c' = tx c \<and> room c' = room c"
proof -
  consider "atyp = ATYP_IPV4" | "atyp = ATYP_IPV6" | "atyp = ATYP_DOMAIN"
    using assms by (auto simp: read_relay_addr_def split: if_splits)
  then show ?thesis
  proof cases
    case 1
    with assms obtain os port where "length os = 4" "rx c = os @ to_be_bytes port @ rx c'" "tx c' = tx c" "room c' = room c"
      "addr = SocketAddr (V4 os) port"
      by (auto simp: read_relay_addr_def io_Ok_iffs)
    with 1 show ?thesis by (intro exI [of _ "os @ to_be_bytes port"]) (auto simp: relay_reply_def)
  next
    case 2
    with assms obtain os port where "length os = 16" "rx c = os @ to_be_bytes port @ rx c'" "tx c' = tx c" "room c' = room c"
      "addr = SocketAddr (V6 os) port"
      by (auto simp: read_relay_addr_def io_Ok_iffs)
    with 2 show ?thesis by (intro exI [of _ "os @ to_be_bytes port"]) (auto simp: relay_reply_def)
  next
    case 3
    with assms obtain len domain d port where "len \<noteq> 0" "length domain = unat len" "from_utf8 domain = Some d"
      "rx c = [len] @ domain @ to_be_bytes port @ rx c'" "tx c' = tx c" "room c' = room c" "resolve_domain_relay env d port = Ok addr"
      by (auto simp: read_relay_addr_def io_Ok_iffs split: if_splits option.splits)
    with 3 show ?thesis by (intro exI [of _ "[len] @ domain @ to_be_bytes port"]) (auto simp: relay_reply_def)
  qed
qed

lemma read_relay_addr_runs:
  assumes "relay_reply env (atyp # body) addr"
  shows "read_relay_addr env atyp \<lparr>rx = body @ x, tx = t, room = r\<rparr> = (Ok addr, \<lparr>rx = x, tx = t, room = r\<rparr>)"
  using assms by (auto simp: relay_reply_def read_relay_addr_def)

lemma udp_associate_done:
  assumes "socks5_udp_associate env target c = (Ok addr, c')"
  shows "\<exists>request rsv reply. encode_udp_associate_request target = Ok request \<and> relay_reply env reply addr \<and>
      rx c = [0x05, 0x00, rsv] @ reply @ rx c' \<and> tx c' = tx c @ request \<and> length request \<le> room c \<and>
      room c' = room c - length request"
  using assms
  by (fastforce simp: socks5_udp_associate_def io_Ok_iffs split: if_splits dest: read_relay_addr_done)

lemma udp_associate_runs:
  assumes "encode_udp_associate_request target = Ok request" "relay_reply env reply addr" "length request \<le> r"
  shows "socks5_udp_associate env target \<lparr>rx = 0x05 # 0x00 # rsv # reply @ x, tx = t, room = r\<rparr> =
      (Ok addr, \<lparr>rx = x, tx = t @ request, room = r - length request\<rparr>)"
proof -
  obtain atyp body where "reply = atyp # body" using assms(2) by (auto simp: relay_reply_def)
  with assms show ?thesis
    by (simp add: socks5_udp_associate_def io_bind_def [of "io_of_result _"] read_relay_addr_runs)
qed

text \<open>What the client writes when it is done, and what it has read.\<close>

definition auth_transcript :: "(string \<times> string) option \<Rightarrow> udp_upstream_error + u8 list" where
  "auth_transcript auth = (case auth of Some (username, password) \<Rightarrow> encode_auth_request username password | None \<Rightarrow> Ok [])"

lemma udp_handshake_done:
  assumes "udp_handshake env auth hint c = (Ok addr, c')"
  shows "\<exists>sel credentials request rsv reply.
      (sel = AUTH_NONE \<or> sel = AUTH_USERNAME_PASSWORD \<and> auth \<noteq> None) \<and> auth_transcript auth = Ok credentials \<and>
      encode_udp_associate_request hint = Ok request \<and> relay_reply env reply addr \<and>
      rx c = [0x05, sel] @ (if auth = None then [] else [AUTH_VERSION, 0x00]) @ [0x05, 0x00, rsv] @ reply @ rx c' \<and>
      tx c' = tx c @ offered_methods auth @ credentials @ request \<and>
      length (offered_methods auth @ credentials @ request) \<le> room c \<and>
      room c' = room c - length (offered_methods auth @ credentials @ request)"
proof -
  from assms obtain c1 c2 where 1: "socks5_method_negotiate env auth c = (Ok (), c1)"
    and 2: "(case auth of Some (username, password) \<Rightarrow> socks5_auth env username password | None \<Rightarrow> io_return ()) c1 = (Ok (), c2)"
    and 3: "socks5_udp_associate env hint c2 = (Ok addr, c')"
    by (auto simp: udp_handshake_def io_bind_Ok_iff)
  have "\<exists>credentials. auth_transcript auth = Ok credentials \<and>
      rx c1 = (if auth = None then [] else [AUTH_VERSION, 0x00]) @ rx c2 \<and> tx c2 = tx c1 @ credentials \<and>
      length credentials \<le> room c1 \<and> room c2 = room c1 - length credentials"
    using 2 socks5_auth_done [of env _ _ c1 "()" c2] by (cases auth) (auto simp: auth_transcript_def)
  with method_negotiate_done [OF 1] udp_associate_done [OF 3] show ?thesis by fastforce
qed

text \<open>
  C16: the exact behaviour of the UDP ASSOCIATE client. The handshake returns an address, leaving a connection
  behind, exactly when the proxy selected a method that was offered, answered success to the credentials when
  there are any, and granted the association naming that address (a domain name through the resolver); the
  client has then written its offer, its credentials and its request and nothing else, and has read exactly
  these answers.
\<close>

theorem udp_handshake_transcript:
  "udp_handshake env auth hint c = (Ok addr, c') \<longleftrightarrow>
    (\<exists>sel credentials request rsv reply.
      (sel = AUTH_NONE \<or> sel = AUTH_USERNAME_PASSWORD \<and> auth \<noteq> None) \<and> auth_transcript auth = Ok credentials \<and>
      encode_udp_associate_request hint = Ok request \<and> relay_reply env reply addr \<and>
      rx c = [0x05, sel] @ (if auth = None then [] else [AUTH_VERSION, 0x00]) @ [0x05, 0x00, rsv] @ reply @ rx c' \<and>
      tx c' = tx c @ offered_methods auth @ credentials @ request \<and>
      length (offered_methods auth @ credentials @ request) \<le> room c \<and>
      room c' = room c - length (offered_methods auth @ credentials @ request))"
    (is "?l \<longleftrightarrow> ?r")
proof
  assume ?l
  then show ?r by (rule udp_handshake_done)
next
  assume ?r
  then obtain sel credentials request rsv reply where
    r: "sel = AUTH_NONE \<or> sel = AUTH_USERNAME_PASSWORD \<and> auth \<noteq> None" "auth_transcript auth = Ok credentials"
      "encode_udp_associate_request hint = Ok request" "relay_reply env reply addr"
      "rx c = [0x05, sel] @ (if auth = None then [] else [AUTH_VERSION, 0x00]) @ [0x05, 0x00, rsv] @ reply @ rx c'"
      "tx c' = tx c @ offered_methods auth @ credentials @ request"
      "length (offered_methods auth @ credentials @ request) \<le> room c"
      "room c' = room c - length (offered_methods auth @ credentials @ request)" by blast
  obtain x t m where c: "c = \<lparr>rx = x, tx = t, room = m\<rparr>" by (cases c)
  obtain x' t' m' where c': "c' = \<lparr>rx = x', tx = t', room = m'\<rparr>" by (cases c')
  show ?l
  proof (cases auth)
    case None
    with r show ?thesis
      by (simp add: c c' udp_handshake_def method_negotiate_runs udp_associate_runs auth_transcript_def)
  next
    case (Some a)
    obtain username password where a: "a = (username, password)" by (cases a)
    with Some r(2) have e: "encode_auth_request username password = Ok credentials" by (simp add: auth_transcript_def)
    from Some r a e show ?thesis
      by (simp add: c c' udp_handshake_def method_negotiate_runs udp_associate_runs socks5_auth_runs)
  qed
qed

definition quiet_env :: udp_env where
  "quiet_env =
    \<lparr>ue_lookup = \<lambda>_ _. Ok [], ue_connect = \<lambda>_. Err ''refused'', ue_nodelay = Ok (), ue_peer_addr = Ok (), ue_bind = \<lambda>_. Ok (),
     ue_in_time = \<lambda>_. True, ue_io_text = \<lambda>_. ''closed''\<rparr>"

theorem udp_handshake_transcript_witness:
  "udp_handshake quiet_env (Some (''u'', ''p'')) (Socks_IPv4 [0, 0, 0, 0] 0)
      \<lparr>rx = [0x05, 0x02, 0x01, 0x00, 0x05, 0x00, 0x00, 0x01, 10, 0, 0, 1, 0, 53], tx = [], room = 100\<rparr> =
    (Ok (SocketAddr (V4 [10, 0, 0, 1]) 53),
     \<lparr>rx = [], tx = [0x05, 2, 0, 2] @ [0x01, 1, 117, 1, 112] @ [0x05, 0x03, 0x00, 0x01, 0, 0, 0, 0, 0, 0], room = 81\<rparr>)"
proof -
  have reply: "relay_reply quiet_env [0x01, 10, 0, 0, 1, 0, 53] (SocketAddr (V4 [10, 0, 0, 1]) 53)"
    unfolding relay_reply_def
    by (rule disjI1) (intro exI [of _ "[10, 0, 0, 1]"] exI [of _ 53], simp add: socks5_consts to_be_bytes_def)
  show ?thesis
    unfolding udp_handshake_transcript
    by (rule exI [of _ AUTH_USERNAME_PASSWORD], rule exI [of _ "[0x01, 1, 117, 1, 112]"],
        rule exI [of _ "[0x05, 0x03, 0x00, 0x01, 0, 0, 0, 0, 0, 0]"], rule exI [of _ 0],
        rule exI [of _ "[0x01, 10, 0, 0, 1, 0, 53]"])
      (simp add: auth_consts socks5_consts offered_methods_def auth_transcript_def encode_auth_request_def
        encode_udp_associate_request_def checked_u8_len_def to_be_bytes_def as_bytes_def byte_of_char_def
        reply [simplified])
qed

text \<open>
  With credentials the client authenticates even when the proxy selected no authentication. A proxy that
  goes on with the request then reads the version of the credentials, as the server of this code base does.
\<close>

lemma auth_sent_unrequested:
  assumes "udp_handshake env (Some (username, password)) hint c = (Ok addr, c')" "rx c = 0x05 # AUTH_NONE # rest"
  shows "\<exists>tail. tx c' = tx c @ offered_methods (Some (username, password)) @ [AUTH_VERSION] @ tail \<and>
    fst (read_socks5_request \<lparr>rx = [AUTH_VERSION] @ tail, tx = [], room = n\<rparr>) = Err (Socks5_UnsupportedVersion AUTH_VERSION)"
proof -
  from assms(1) obtain credentials request where
    "auth_transcript (Some (username, password)) = Ok credentials"
    "tx c' = tx c @ offered_methods (Some (username, password)) @ credentials @ request"
    using udp_handshake_done by blast
  moreover from this(1) obtain more_bytes where "credentials = AUTH_VERSION # more_bytes"
    by (auto simp: auth_transcript_def encode_auth_request_def try_bind_Ok_iff)
  ultimately show ?thesis
    by (intro exI [of _ "more_bytes @ request"]) (simp add: read_socks5_request_def auth_consts)
qed

subsection \<open>Sockets and stacks\<close>

lemma effective_udp_bind_family: "same_family (sock_ip (effective_udp_bind requested relay)) (sock_ip relay)"
  by (cases relay rule: wildcard_udp_bind_for_relay.cases) (simp_all add: effective_udp_bind_def)

lemma open_hops_failed: "fst (open_hops env b hs ts n) = Err e \<Longrightarrow> snd (open_hops env b hs ts n) = 0"
  by (induction env b hs ts n rule: open_hops.induct) (auto split: sum.splits if_splits)

lemma open_composed_failed:
  "fst (open_composed_udp_upstream env cr f chain b) = Err e \<Longrightarrow> snd (open_composed_udp_upstream env cr f chain b) = 0"
  using open_hops_failed [of env b]
  by (auto simp: open_composed_udp_upstream_def split: sum.splits prod.splits list.splits) (metis fst_conv snd_conv)+

end
