(* ===== verification/Udp_Metrics.thy ===== *)
theory Udp_Metrics
  imports Eggress_Prelude
begin

text \<open>
  The counters of the UDP subsystem (\<^verbatim>\<open>crates/eggress-udp/src/metrics.rs\<close>): one field per atomic counter and
  one operation per recording method. Additions wrap at 64 bits, the gauges go down by \<^verbatim>\<open>checked_sub\<close> and
  stay at zero.
\<close>

record udp_metrics =
  um_associations_active :: u64
  um_associations_total :: u64
  um_association_failures :: u64
  um_association_timeouts :: u64
  um_packets_up :: u64
  um_packets_down :: u64
  um_bytes_up :: u64
  um_bytes_down :: u64
  um_dropped_packets :: u64
  um_dropped_encode_errors :: u64
  um_dropped_send_errors :: u64
  um_dropped_response_channel_full :: u64
  um_target_flows_active :: u64
  um_target_flows_total :: u64
  um_decode_errors :: u64
  um_upstream_associations_total :: u64
  um_upstream_associations_active :: u64
  um_upstream_packets_up :: u64
  um_upstream_packets_down :: u64
  um_upstream_bytes_up :: u64
  um_upstream_bytes_down :: u64
  um_upstream_failures :: u64
  um_unsupported_upstream_total :: u64
  um_standalone_flows_active :: u64
  um_standalone_flows_total :: u64
  um_standalone_packets_in :: u64
  um_standalone_packets_out :: u64
  um_standalone_bytes_in :: u64
  um_standalone_bytes_out :: u64
  um_standalone_malformed_datagrams :: u64
  um_standalone_rejected_datagrams :: u64
  um_standalone_flow_reaps :: u64

definition UdpMetrics_new :: udp_metrics where
  "UdpMetrics_new =
    \<lparr>um_associations_active = 0, um_associations_total = 0, um_association_failures = 0, um_association_timeouts = 0,
     um_packets_up = 0, um_packets_down = 0, um_bytes_up = 0, um_bytes_down = 0,
     um_dropped_packets = 0, um_dropped_encode_errors = 0, um_dropped_send_errors = 0, um_dropped_response_channel_full = 0,
     um_target_flows_active = 0, um_target_flows_total = 0, um_decode_errors = 0, um_upstream_associations_total = 0,
     um_upstream_associations_active = 0, um_upstream_packets_up = 0, um_upstream_packets_down = 0, um_upstream_bytes_up = 0,
     um_upstream_bytes_down = 0, um_upstream_failures = 0, um_unsupported_upstream_total = 0, um_standalone_flows_active = 0,
     um_standalone_flows_total = 0, um_standalone_packets_in = 0, um_standalone_packets_out = 0, um_standalone_bytes_in = 0,
     um_standalone_bytes_out = 0, um_standalone_malformed_datagrams = 0, um_standalone_rejected_datagrams = 0, um_standalone_flow_reaps = 0\<rparr>"

definition decr_active :: "u64 \<Rightarrow> u64" where
  "decr_active v = (if v = 0 then v else v - 1)"

definition record_association_created :: "udp_metrics \<Rightarrow> udp_metrics" where
  "record_association_created m = m\<lparr>um_associations_active := um_associations_active m + 1, um_associations_total := um_associations_total m + 1\<rparr>"

definition record_association_closed :: "udp_metrics \<Rightarrow> udp_metrics" where
  "record_association_closed m = m\<lparr>um_associations_active := decr_active (um_associations_active m)\<rparr>"

definition record_association_failure :: "udp_metrics \<Rightarrow> udp_metrics" where
  "record_association_failure m = m\<lparr>um_association_failures := um_association_failures m + 1\<rparr>"

definition record_packet_up :: "u64 \<Rightarrow> udp_metrics \<Rightarrow> udp_metrics" where
  "record_packet_up bytes m = m\<lparr>um_packets_up := um_packets_up m + 1, um_bytes_up := um_bytes_up m + bytes\<rparr>"

definition record_packet_down :: "u64 \<Rightarrow> udp_metrics \<Rightarrow> udp_metrics" where
  "record_packet_down bytes m = m\<lparr>um_packets_down := um_packets_down m + 1, um_bytes_down := um_bytes_down m + bytes\<rparr>"

definition record_dropped :: "udp_metrics \<Rightarrow> udp_metrics" where
  "record_dropped m = m\<lparr>um_dropped_packets := um_dropped_packets m + 1\<rparr>"

definition record_dropped_encode_error :: "udp_metrics \<Rightarrow> udp_metrics" where
  "record_dropped_encode_error m = m\<lparr>um_dropped_encode_errors := um_dropped_encode_errors m + 1, um_dropped_packets := um_dropped_packets m + 1\<rparr>"

definition record_dropped_send_error :: "udp_metrics \<Rightarrow> udp_metrics" where
  "record_dropped_send_error m = m\<lparr>um_dropped_send_errors := um_dropped_send_errors m + 1, um_dropped_packets := um_dropped_packets m + 1\<rparr>"

definition record_dropped_response_channel_full :: "udp_metrics \<Rightarrow> udp_metrics" where
  "record_dropped_response_channel_full m = m\<lparr>um_dropped_response_channel_full := um_dropped_response_channel_full m + 1, um_dropped_packets := um_dropped_packets m + 1\<rparr>"

definition record_target_flow_created :: "udp_metrics \<Rightarrow> udp_metrics" where
  "record_target_flow_created m = m\<lparr>um_target_flows_active := um_target_flows_active m + 1, um_target_flows_total := um_target_flows_total m + 1\<rparr>"

definition record_target_flow_closed :: "udp_metrics \<Rightarrow> udp_metrics" where
  "record_target_flow_closed m = m\<lparr>um_target_flows_active := decr_active (um_target_flows_active m)\<rparr>"

definition record_decode_error :: "udp_metrics \<Rightarrow> udp_metrics" where
  "record_decode_error m = m\<lparr>um_decode_errors := um_decode_errors m + 1\<rparr>"

definition record_association_timeout :: "udp_metrics \<Rightarrow> udp_metrics" where
  "record_association_timeout m = m\<lparr>um_association_timeouts := um_association_timeouts m + 1\<rparr>"

definition record_target_flow_timeout :: "udp_metrics \<Rightarrow> udp_metrics" where
  "record_target_flow_timeout m = m\<lparr>um_target_flows_active := decr_active (um_target_flows_active m)\<rparr>"

definition record_upstream_association_created :: "udp_metrics \<Rightarrow> udp_metrics" where
  "record_upstream_association_created m = m\<lparr>um_upstream_associations_active := um_upstream_associations_active m + 1, um_upstream_associations_total := um_upstream_associations_total m + 1\<rparr>"

definition record_upstream_association_closed :: "udp_metrics \<Rightarrow> udp_metrics" where
  "record_upstream_association_closed m = m\<lparr>um_upstream_associations_active := decr_active (um_upstream_associations_active m)\<rparr>"

definition record_upstream_failure :: "udp_metrics \<Rightarrow> udp_metrics" where
  "record_upstream_failure m = m\<lparr>um_upstream_failures := um_upstream_failures m + 1\<rparr>"

definition record_upstream_packet_up :: "u64 \<Rightarrow> udp_metrics \<Rightarrow> udp_metrics" where
  "record_upstream_packet_up bytes m = m\<lparr>um_upstream_packets_up := um_upstream_packets_up m + 1, um_upstream_bytes_up := um_upstream_bytes_up m + bytes\<rparr>"

definition record_upstream_packet_down :: "u64 \<Rightarrow> udp_metrics \<Rightarrow> udp_metrics" where
  "record_upstream_packet_down bytes m = m\<lparr>um_upstream_packets_down := um_upstream_packets_down m + 1, um_upstream_bytes_down := um_upstream_bytes_down m + bytes\<rparr>"

definition record_unsupported_upstream :: "udp_metrics \<Rightarrow> udp_metrics" where
  "record_unsupported_upstream m = m\<lparr>um_unsupported_upstream_total := um_unsupported_upstream_total m + 1\<rparr>"

definition record_standalone_flow_created :: "udp_metrics \<Rightarrow> udp_metrics" where
  "record_standalone_flow_created m = m\<lparr>um_standalone_flows_active := um_standalone_flows_active m + 1, um_standalone_flows_total := um_standalone_flows_total m + 1\<rparr>"

definition record_standalone_flow_closed :: "udp_metrics \<Rightarrow> udp_metrics" where
  "record_standalone_flow_closed m = m\<lparr>um_standalone_flows_active := decr_active (um_standalone_flows_active m)\<rparr>"

definition record_standalone_packet_in :: "u64 \<Rightarrow> udp_metrics \<Rightarrow> udp_metrics" where
  "record_standalone_packet_in bytes m = m\<lparr>um_standalone_packets_in := um_standalone_packets_in m + 1, um_standalone_bytes_in := um_standalone_bytes_in m + bytes\<rparr>"

definition record_standalone_packet_out :: "u64 \<Rightarrow> udp_metrics \<Rightarrow> udp_metrics" where
  "record_standalone_packet_out bytes m = m\<lparr>um_standalone_packets_out := um_standalone_packets_out m + 1, um_standalone_bytes_out := um_standalone_bytes_out m + bytes\<rparr>"

definition record_standalone_malformed :: "udp_metrics \<Rightarrow> udp_metrics" where
  "record_standalone_malformed m = m\<lparr>um_standalone_malformed_datagrams := um_standalone_malformed_datagrams m + 1\<rparr>"

definition record_standalone_rejected :: "udp_metrics \<Rightarrow> udp_metrics" where
  "record_standalone_rejected m = m\<lparr>um_standalone_rejected_datagrams := um_standalone_rejected_datagrams m + 1\<rparr>"

definition record_standalone_flow_reap :: "udp_metrics \<Rightarrow> udp_metrics" where
  "record_standalone_flow_reap m = m\<lparr>um_standalone_flows_active := decr_active (um_standalone_flows_active m), um_standalone_flow_reaps := um_standalone_flow_reaps m + 1\<rparr>"

lemmas record_defs = record_association_created_def record_association_closed_def
  record_association_failure_def record_packet_up_def record_packet_down_def record_dropped_def
  record_dropped_encode_error_def record_dropped_send_error_def record_dropped_response_channel_full_def
  record_target_flow_created_def record_target_flow_closed_def record_decode_error_def
  record_association_timeout_def record_target_flow_timeout_def record_upstream_association_created_def
  record_upstream_association_closed_def record_upstream_failure_def record_upstream_packet_up_def
  record_upstream_packet_down_def record_unsupported_upstream_def record_standalone_flow_created_def
  record_standalone_flow_closed_def record_standalone_packet_in_def record_standalone_packet_out_def
  record_standalone_malformed_def record_standalone_rejected_def record_standalone_flow_reap_def

subsection \<open>Shadowsocks\<close>

text \<open>The counters of \<^verbatim>\<open>crates/eggress-protocol-shadowsocks/src/metrics.rs\<close>.\<close>

record shadowsocks_metrics =
  sm_tcp_sessions_active :: u64
  sm_tcp_sessions_total :: u64
  sm_tcp_upstream_sessions_total :: u64
  sm_tcp_decrypt_failures_total :: u64
  sm_tcp_frame_parse_failures_total :: u64
  sm_tcp_unsupported_method_rejects_total :: u64
  sm_tcp_active_flows :: u64
  sm_udp_packets_in_total :: u64
  sm_udp_packets_out_total :: u64
  sm_udp_bytes_in_total :: u64
  sm_udp_bytes_out_total :: u64
  sm_udp_decrypt_failures_total :: u64
  sm_udp_unsupported_method_rejects_total :: u64
  sm_udp_active_flows :: u64

definition ShadowsocksMetrics_new :: shadowsocks_metrics where
  "ShadowsocksMetrics_new =
    \<lparr>sm_tcp_sessions_active = 0, sm_tcp_sessions_total = 0, sm_tcp_upstream_sessions_total = 0, sm_tcp_decrypt_failures_total = 0,
     sm_tcp_frame_parse_failures_total = 0, sm_tcp_unsupported_method_rejects_total = 0, sm_tcp_active_flows = 0, sm_udp_packets_in_total = 0,
     sm_udp_packets_out_total = 0, sm_udp_bytes_in_total = 0, sm_udp_bytes_out_total = 0, sm_udp_decrypt_failures_total = 0,
     sm_udp_unsupported_method_rejects_total = 0, sm_udp_active_flows = 0\<rparr>"

definition record_tcp_session_accepted :: "shadowsocks_metrics \<Rightarrow> shadowsocks_metrics" where
  "record_tcp_session_accepted m = m\<lparr>sm_tcp_sessions_active := sm_tcp_sessions_active m + 1, sm_tcp_sessions_total := sm_tcp_sessions_total m + 1\<rparr>"

definition record_tcp_session_closed :: "shadowsocks_metrics \<Rightarrow> shadowsocks_metrics" where
  "record_tcp_session_closed m = m\<lparr>sm_tcp_sessions_active := decr_active (sm_tcp_sessions_active m)\<rparr>"

definition record_tcp_upstream_session :: "shadowsocks_metrics \<Rightarrow> shadowsocks_metrics" where
  "record_tcp_upstream_session m = m\<lparr>sm_tcp_upstream_sessions_total := sm_tcp_upstream_sessions_total m + 1\<rparr>"

definition record_tcp_decrypt_failure :: "shadowsocks_metrics \<Rightarrow> shadowsocks_metrics" where
  "record_tcp_decrypt_failure m = m\<lparr>sm_tcp_decrypt_failures_total := sm_tcp_decrypt_failures_total m + 1\<rparr>"

definition record_tcp_frame_parse_failure :: "shadowsocks_metrics \<Rightarrow> shadowsocks_metrics" where
  "record_tcp_frame_parse_failure m = m\<lparr>sm_tcp_frame_parse_failures_total := sm_tcp_frame_parse_failures_total m + 1\<rparr>"

definition record_tcp_unsupported_method_reject :: "shadowsocks_metrics \<Rightarrow> shadowsocks_metrics" where
  "record_tcp_unsupported_method_reject m = m\<lparr>sm_tcp_unsupported_method_rejects_total := sm_tcp_unsupported_method_rejects_total m + 1\<rparr>"

definition record_tcp_flow_open :: "shadowsocks_metrics \<Rightarrow> shadowsocks_metrics" where
  "record_tcp_flow_open m = m\<lparr>sm_tcp_active_flows := sm_tcp_active_flows m + 1\<rparr>"

definition record_tcp_flow_close :: "shadowsocks_metrics \<Rightarrow> shadowsocks_metrics" where
  "record_tcp_flow_close m = m\<lparr>sm_tcp_active_flows := decr_active (sm_tcp_active_flows m)\<rparr>"

definition record_udp_packet_in :: "u64 \<Rightarrow> shadowsocks_metrics \<Rightarrow> shadowsocks_metrics" where
  "record_udp_packet_in bytes m = m\<lparr>sm_udp_packets_in_total := sm_udp_packets_in_total m + 1, sm_udp_bytes_in_total := sm_udp_bytes_in_total m + bytes\<rparr>"

definition record_udp_packet_out :: "u64 \<Rightarrow> shadowsocks_metrics \<Rightarrow> shadowsocks_metrics" where
  "record_udp_packet_out bytes m = m\<lparr>sm_udp_packets_out_total := sm_udp_packets_out_total m + 1, sm_udp_bytes_out_total := sm_udp_bytes_out_total m + bytes\<rparr>"

definition record_udp_decrypt_failure :: "shadowsocks_metrics \<Rightarrow> shadowsocks_metrics" where
  "record_udp_decrypt_failure m = m\<lparr>sm_udp_decrypt_failures_total := sm_udp_decrypt_failures_total m + 1\<rparr>"

definition record_udp_unsupported_method_reject :: "shadowsocks_metrics \<Rightarrow> shadowsocks_metrics" where
  "record_udp_unsupported_method_reject m = m\<lparr>sm_udp_unsupported_method_rejects_total := sm_udp_unsupported_method_rejects_total m + 1\<rparr>"

definition record_udp_flow_open :: "shadowsocks_metrics \<Rightarrow> shadowsocks_metrics" where
  "record_udp_flow_open m = m\<lparr>sm_udp_active_flows := sm_udp_active_flows m + 1\<rparr>"

definition record_udp_flow_close :: "shadowsocks_metrics \<Rightarrow> shadowsocks_metrics" where
  "record_udp_flow_close m = m\<lparr>sm_udp_active_flows := decr_active (sm_udp_active_flows m)\<rparr>"

end
