(* ===== verification/Udp_Relay.thy ===== *)
theory Udp_Relay
  imports Udp_Upstream Udp_Metrics Router
begin

text \<open>
  The relay of a SOCKS5 UDP association (\<^verbatim>\<open>crates/eggress-udp/src/relay.rs\<close>, with the flows of \<^verbatim>\<open>flow.rs\<close> and
  \<^verbatim>\<open>direct.rs\<close>): the table of flows, the handling of a client datagram with routing, limits and leases, the
  receiving tasks and the response queue, the select loop as a step function over its events, and the
  clean-up. Clock, sockets, resolver, random source and cryptography are the record \<open>udp_relay_env\<close>, given afresh
  to every event.
\<close>

subsection \<open>Flows\<close>

datatype udp_flow_key =
  Key_Direct (key_target: socks_addr)
| Key_Socks5 (key_target: socks_addr) upstream_id
| Key_Shadowsocks (key_target: socks_addr) upstream_id
| Key_Composed (key_target: socks_addr) upstream_id

record udp_target_flow =
  utf_peer :: socket_addr
  utf_packets_up :: u64
  utf_bytes_up :: u64

datatype udp_flow_kind =
  Flow_Direct udp_target_flow
| Flow_Socks5 socket_addr active_lease
| Flow_Shadowsocks socket_addr cipher_method "u8 list" active_lease
| Flow_Composed composed_flow active_lease

text \<open>An entry of the table; \<open>tfe_receiving\<close> says that its receiving task still runs.\<close>

record target_flow_entry =
  tfe_flow :: udp_flow_kind
  tfe_target :: socks_addr
  tfe_last_activity :: nanos
  tfe_receiving :: bool

definition TargetFlowEntry_touch :: "nanos \<Rightarrow> target_flow_entry \<Rightarrow> target_flow_entry" where
  "TargetFlowEntry_touch now e = e\<lparr>tfe_last_activity := now\<rparr>"

fun flow_lease :: "udp_flow_kind \<Rightarrow> active_lease option" where
  "flow_lease (Flow_Direct _) = None"
| "flow_lease (Flow_Socks5 _ l) = Some l"
| "flow_lease (Flow_Shadowsocks _ _ _ l) = Some l"
| "flow_lease (Flow_Composed _ l) = Some l"

text \<open>Dropping an entry drops its lease.\<close>

definition drop_entry :: "target_flow_entry \<Rightarrow> up_heap \<Rightarrow> up_heap" where
  "drop_entry e h = (case flow_lease (tfe_flow e) of Some l \<Rightarrow> ActiveLease_drop l h | None \<Rightarrow> h)"

fun kind_matches :: "udp_flow_key \<Rightarrow> udp_flow_kind \<Rightarrow> bool" where
  "kind_matches (Key_Direct _) (Flow_Direct _) = True"
| "kind_matches (Key_Socks5 _ _) (Flow_Socks5 _ _) = True"
| "kind_matches (Key_Shadowsocks _ _) (Flow_Shadowsocks _ _ _ _) = True"
| "kind_matches (Key_Composed _ _) (Flow_Composed _ _) = True"
| "kind_matches _ _ = False"

subsection \<open>Environment, configuration and state\<close>

record ('re, 'net, 'r) udp_relay_env =
  rv_now :: nanos
  rv_is_match :: "'re \<Rightarrow> string \<Rightarrow> bool"
  rv_cidr_contains :: "'net \<Rightarrow> ip_addr \<Rightarrow> bool"
  rv_index :: "'r rng_index"
  rv_udp :: udp_env
  rv_crypto :: crypto
  rv_hop_error_fmt :: "udp_hop_error \<Rightarrow> string"
  rv_lookup :: "string \<Rightarrow> string + socket_addr list"
  rv_connect :: "socket_addr \<Rightarrow> bool"
  rv_send :: "socket_addr \<Rightarrow> u8 list \<Rightarrow> bool"
  rv_random :: "nat \<Rightarrow> u8 list"

record ('re, 'net) relay_config =
  rc_routing :: "('re, 'net) shared_routing_service"
  rc_limits :: udp_limits
  rc_listener :: string
  rc_identity :: client_identity
  rc_allow_private_egress :: bool
  rc_upstream_udp_bind :: socket_addr
  rc_assoc :: nat

text \<open>
  The association is the one at index \<open>rc_assoc\<close> of the registry's store. \<open>rs_sent\<close> and \<open>rs_to_client\<close> are the
  datagrams sent to targets and upstreams and to the client.
\<close>

record 'r relay_state =
  rs_flows :: "(udp_flow_key \<times> target_flow_entry) list"
  rs_registry :: udp_registry
  rs_metrics :: udp_metrics
  rs_world :: "'r route_world"
  rs_queue :: "(socks_addr \<times> u8 list) list"
  rs_sent :: "(socket_addr \<times> u8 list) list"
  rs_to_client :: "(socket_addr \<times> u8 list) list"

definition RESPONSE_CHANNEL_CAPACITY :: nat where "RESPONSE_CHANNEL_CAPACITY = 256"

definition meter :: "(udp_metrics \<Rightarrow> udp_metrics) \<Rightarrow> 'r relay_state \<Rightarrow> 'r relay_state" where
  "meter f st = st\<lparr>rs_metrics := f (rs_metrics st)\<rparr>"

definition on_relay_heap :: "(up_heap \<Rightarrow> up_heap) \<Rightarrow> 'r relay_state \<Rightarrow> 'r relay_state" where
  "on_relay_heap f st = st\<lparr>rs_world := (rs_world st)\<lparr>w_heap := f (w_heap (rs_world st))\<rparr>\<rparr>"

definition drop_pending :: "pending_lease option \<Rightarrow> 'r relay_state \<Rightarrow> 'r relay_state" where
  "drop_pending pending st = (case pending of Some l \<Rightarrow> on_relay_heap (PendingLease_drop l) st | None \<Rightarrow> st)"

definition association :: "('re, 'net) relay_config \<Rightarrow> 'r relay_state \<Rightarrow> udp_association" where
  "association config st = reg_store (rs_registry st) ! rc_assoc config"

definition on_association ::
  "('re, 'net) relay_config \<Rightarrow> (udp_association \<Rightarrow> udp_association) \<Rightarrow> 'r relay_state \<Rightarrow> 'r relay_state" where
  "on_association config f st = st\<lparr>rs_registry := on_assoc (rc_assoc config) f (rs_registry st)\<rparr>"

subsection \<open>Sending\<close>

definition UdpTargetFlow_new ::
  "('re, 'net, 'r) udp_relay_env \<Rightarrow> socks_addr \<Rightarrow> socket_addr \<Rightarrow> udp_error + udp_target_flow" where
  "UdpTargetFlow_new env target local_bind =
    try_bind (map_err (\<lambda>_. Udp_Io) (ue_bind (rv_udp env) local_bind)) (\<lambda>_.
    try_bind (first_addr UnresolvedTarget (\<lambda>_. Udp_Io)
        (rv_lookup env (host_str target @ '':'' @ show_nat (unat (socks_port target))))) (\<lambda>resolved.
    if rv_connect env resolved then Ok \<lparr>utf_peer = resolved, utf_packets_up = 0, utf_bytes_up = 0\<rparr> else Err Udp_Io))"

text \<open>The packet a flow sends for a target, and where to.\<close>

definition flow_packet ::
  "('re, 'net, 'r) udp_relay_env \<Rightarrow> udp_flow_kind \<Rightarrow> socks_addr \<Rightarrow> u8 list \<Rightarrow> (socket_addr \<times> u8 list) option" where
  "flow_packet env flow target payload =
    (case flow of
       Flow_Direct f \<Rightarrow> Some (utf_peer f, payload)
     | Flow_Socks5 relay_addr _ \<Rightarrow>
         (case encode_socks5_udp_datagram target payload of Inr out \<Rightarrow> Some (relay_addr, out) | Inl _ \<Rightarrow> None)
     | Flow_Shadowsocks addr m ikm _ \<Rightarrow>
         (case encode_udp_packet_with_ikm (rv_crypto env) m ikm (socks_to_target_addr target) payload
                 (take (salt_size m) (rv_random env 0)) of
            Inr packet \<Rightarrow> Some (addr, packet) | Inl _ \<Rightarrow> None)
     | Flow_Composed f _ \<Rightarrow>
         (case encode_request_with_next_targets (rv_crypto env) (rv_random env) (cf_stack f) (socks_to_target_addr target)
                 payload (cf_relay_targets f) of
            Inr packet \<Rightarrow> Some (cf_outer_relay_addr f, packet) | Inl _ \<Rightarrow> None))"

fun count_sent :: "nat \<Rightarrow> udp_flow_kind \<Rightarrow> udp_flow_kind" where
  "count_sent n (Flow_Direct f) =
    Flow_Direct (f\<lparr>utf_packets_up := utf_packets_up f + 1, utf_bytes_up := utf_bytes_up f + word_of_nat n\<rparr>)"
| "count_sent n flow = flow"

text \<open>
  The end of \<^verbatim>\<open>handle_client_datagram\<close>, for an entry that is in the table. A flow of another kind under the key
  is an error for the upstream flows and passed over for a direct one.
\<close>

definition send_flow ::
  "('re, 'net, 'r) udp_relay_env \<Rightarrow> udp_flow_key \<Rightarrow> target_flow_entry \<Rightarrow> socks_addr \<Rightarrow> u8 list \<Rightarrow> 'r relay_state \<Rightarrow> 'r relay_state" where
  "send_flow env key e target payload st =
    (if kind_matches key (tfe_flow e) then
       (case flow_packet env (tfe_flow e) target payload of
          Some (dest, packet) \<Rightarrow>
            if rv_send env dest packet then
              meter (record_packet_up (word_of_nat (length payload)))
                (st\<lparr>rs_sent := rs_sent st @ [(dest, packet)],
                    rs_flows := AList.update key (e\<lparr>tfe_flow := count_sent (length payload) (tfe_flow e)\<rparr>) (rs_flows st)\<rparr>)
            else meter record_dropped st
        | None \<Rightarrow> meter record_dropped st)
     else (case key of
             Key_Direct _ \<Rightarrow> meter (record_packet_up (word_of_nat (length payload))) st
           | _ \<Rightarrow> meter record_dropped st))"

subsection \<open>Opening\<close>

datatype open_result = Opened udp_flow_kind | Open_Dropped | Open_Failed udp_error

type_synonym 'r opener = "'r relay_state \<Rightarrow> open_result \<times> 'r relay_state"

definition open_direct_flow ::
  "('re, 'net, 'r) udp_relay_env \<Rightarrow> ('re, 'net) relay_config \<Rightarrow> socks_addr \<Rightarrow> 'r opener" where
  "open_direct_flow env config target st =
    (case UdpTargetFlow_new env target (rc_upstream_udp_bind config) of
       Inl e \<Rightarrow> (Open_Failed e, st)
     | Inr f \<Rightarrow> (Opened (Flow_Direct f), st))"

definition establish :: "pending_lease \<Rightarrow> 'r relay_state \<Rightarrow> active_lease \<times> 'r relay_state" where
  "establish pending st =
    (let (l, h) = established pending (w_heap (rs_world st)) in (l, on_relay_heap (\<lambda>_. h) st))"

definition open_socks5_flow ::
  "('re, 'net, 'r) udp_relay_env \<Rightarrow> ('re, 'net) relay_config \<Rightarrow> proxy_chain_spec \<Rightarrow> pending_lease \<Rightarrow> 'r opener" where
  "open_socks5_flow env config chain pending st =
    (case open_socks5_udp_upstream (rv_udp env) (hd (hops chain)) (rc_upstream_udp_bind config) None of
       Inl e \<Rightarrow> (Open_Dropped, drop_pending (Some pending) st)
     | Inr assoc \<Rightarrow> (let (l, st') = establish pending st in (Opened (Flow_Socks5 (uua_relay_addr assoc) l), st')))"

definition loopback_ephemeral :: socket_addr where
  "loopback_ephemeral = SocketAddr (V4 [127, 0, 0, 1]) 0"

definition open_shadowsocks_flow ::
  "('re, 'net, 'r) udp_relay_env \<Rightarrow> proxy_chain_spec \<Rightarrow> cipher_method \<Rightarrow> string \<Rightarrow> pending_lease \<Rightarrow> 'r opener" where
  "open_shadowsocks_flow env chain m password pending st =
    (let ep = hop_endpoint (hd (hops chain)) in
     case parse_socket_addr (ep_host ep @ '':'' @ show_nat (unat (ep_port ep))) of
       None \<Rightarrow> (Open_Failed (Udp_Other ''invalid shadowsocks upstream address''), drop_pending (Some pending) st)
     | Some addr \<Rightarrow>
         (case ue_bind (rv_udp env) loopback_ephemeral of
            Inl e \<Rightarrow> (Open_Failed (Udp_Other e), drop_pending (Some pending) st)
          | Inr _ \<Rightarrow>
              (let (l, st') = establish pending st in
               (Opened (Flow_Shadowsocks addr m (password_key_material (rv_crypto env) (as_bytes password)) l), st'))))"

definition open_composed_flow ::
  "('re, 'net, 'r) udp_relay_env \<Rightarrow> ('re, 'net) relay_config \<Rightarrow> proxy_chain_spec \<Rightarrow> pending_lease \<Rightarrow> 'r opener" where
  "open_composed_flow env config chain pending st =
    (let (l, st') = establish pending st in
     case fst (open_composed_udp_upstream (rv_udp env) (rv_crypto env) (rv_hop_error_fmt env) chain (rc_upstream_udp_bind config)) of
       Inl e \<Rightarrow> (Open_Dropped, on_relay_heap (ActiveLease_drop l) st')
     | Inr f \<Rightarrow> (Opened (Flow_Composed f l), st'))"

subsection \<open>A datagram from the client\<close>

definition table_full :: "udp_limits \<Rightarrow> udp_flow_key \<Rightarrow> 'r relay_state \<Rightarrow> bool" where
  "table_full limits key st \<longleftrightarrow>
    max_targets_per_association limits \<le> length (rs_flows st) \<and> map_of (rs_flows st) key = None"

text \<open>
  The part the four kinds of flows share: the limit, the lookup that touches an entry or opens a flow, and
  the sending. The lease of a datagram on an existing flow is dropped when the handler returns.
\<close>

definition use_flow ::
  "('re, 'net, 'r) udp_relay_env \<Rightarrow> ('re, 'net) relay_config \<Rightarrow> udp_flow_key \<Rightarrow> u8 list \<Rightarrow> pending_lease option \<Rightarrow> 'r opener
   \<Rightarrow> 'r relay_state \<Rightarrow> (udp_error + unit) \<times> 'r relay_state" where
  "use_flow env config key payload pending open_flow st =
    (let target = key_target key in
     if table_full (rc_limits config) key st then (Ok (), drop_pending pending (meter record_dropped st))
     else case map_of (rs_flows st) key of
            Some e \<Rightarrow>
              (let e' = TargetFlowEntry_touch (rv_now env) e in
               (Ok (), drop_pending pending
                 (send_flow env key e' target payload (st\<lparr>rs_flows := AList.update key e' (rs_flows st)\<rparr>))))
          | None \<Rightarrow>
              (case open_flow st of
                 (Opened flow, st') \<Rightarrow>
                   (let e = \<lparr>tfe_flow = flow, tfe_target = target, tfe_last_activity = rv_now env, tfe_receiving = True\<rparr> in
                    (Ok (), send_flow env key e target payload
                      (meter record_target_flow_created (st'\<lparr>rs_flows := AList.update key e (rs_flows st')\<rparr>))))
               | (Open_Dropped, st') \<Rightarrow> (Ok (), meter record_dropped st')
               | (Open_Failed e, st') \<Rightarrow> (Err e, st')))"

definition datagram_request ::
  "('re, 'net) relay_config \<Rightarrow> socket_addr \<Rightarrow> socks_addr \<Rightarrow> route_request" where
  "datagram_request config client_addr target =
    \<lparr>req_target = socks_to_target_addr target, req_source = Some client_addr, req_listener = rc_listener config,
     inbound_protocol = Id_Socks5, req_identity = rc_identity config, req_transport = Udp\<rparr>"

definition use_upstream ::
  "('re, 'net, 'r) udp_relay_env \<Rightarrow> ('re, 'net) relay_config \<Rightarrow> socks_addr \<Rightarrow> u8 list \<Rightarrow> upstream_id \<Rightarrow> proxy_chain_spec
   \<Rightarrow> pending_lease \<Rightarrow> 'r relay_state \<Rightarrow> (udp_error + unit) \<times> 'r relay_state" where
  "use_upstream env config target payload upstream chain pending st =
    (case udp_capability chain of
       SupportedSocks5 \<Rightarrow>
         use_flow env config (Key_Socks5 target upstream) payload (Some pending) (open_socks5_flow env config chain pending) st
     | SupportedShadowsocks m password \<Rightarrow>
         use_flow env config (Key_Shadowsocks target upstream) payload (Some pending)
           (open_shadowsocks_flow env chain m password pending) st
     | SupportedComposed \<Rightarrow>
         use_flow env config (Key_Composed target upstream) payload (Some pending) (open_composed_flow env config chain pending) st
     | _ \<Rightarrow> (Ok (), drop_pending (Some pending) (meter record_dropped st)))"

definition handle_client_datagram ::
  "('re, 'net, 'r) udp_relay_env \<Rightarrow> ('re, 'net) relay_config \<Rightarrow> u8 list \<Rightarrow> socket_addr \<Rightarrow> 'r relay_state
   \<Rightarrow> (udp_error + unit) \<times> 'r relay_state" where
  "handle_client_datagram env config packet client_addr st =
    (case decode_packet packet (rc_limits config) of
       Inl _ \<Rightarrow> (Ok (), meter record_decode_error st)
     | Inr (target, payload) \<Rightarrow>
         (case validate_standalone_target target (rc_allow_private_egress config) of
            Inl _ \<Rightarrow> (Ok (), meter record_dropped st)
          | Inr _ \<Rightarrow>
              (let (selected, w) = service_route (rv_is_match env) (rv_cidr_contains env) (rv_index env) (rc_routing config)
                     (datagram_request config client_addr target) (rs_world st);
                   st' = st\<lparr>rs_world := w\<rparr>
               in case selected of
                    Inl _ \<Rightarrow> (Ok (), meter record_dropped st')
                  | Inr (Selected_Direct _ _) \<Rightarrow>
                      use_flow env config (Key_Direct target) payload None (open_direct_flow env config target) st'
                  | Inr (Selected_Upstream _ _ upstream chain pending _) \<Rightarrow>
                      use_upstream env config target payload upstream chain pending st')))"

subsection \<open>Receiving\<close>

text \<open>What the receiving task of a flow makes of a datagram: the response, or nothing.\<close>

definition flow_response ::
  "('re, 'net, 'r) udp_relay_env \<Rightarrow> target_flow_entry \<Rightarrow> socket_addr \<Rightarrow> u8 list \<Rightarrow> (socks_addr \<times> u8 list) option" where
  "flow_response env e peer bytes =
    (case tfe_flow e of
       Flow_Direct f \<Rightarrow> if peer = utf_peer f then Some (tfe_target e, bytes) else None
     | Flow_Socks5 relay_addr _ \<Rightarrow>
         if peer \<noteq> relay_addr then None
         else (case decode_socks5_udp_datagram bytes of
                 Inl _ \<Rightarrow> None
               | Inr (target, payload) \<Rightarrow>
                   if socks_addr_equivalent target (tfe_target e) then Some (target, payload) else None)
     | Flow_Shadowsocks _ m ikm _ \<Rightarrow>
         (case decode_udp_packet_with_ikm (rv_crypto env) m ikm bytes of
            Inl _ \<Rightarrow> None
          | Inr (target, payload) \<Rightarrow>
              if socks_addr_equivalent (target_to_socks_addr target) (tfe_target e)
              then Some (target_to_socks_addr target, payload) else None)
     | Flow_Composed f _ \<Rightarrow>
         (case decode_response (rv_crypto env) (cf_stack f) bytes of
            Inl _ \<Rightarrow> None
          | Inr (target, payload) \<Rightarrow> Some (target_to_socks_addr target, payload)))"

definition try_send_response :: "socks_addr \<times> u8 list \<Rightarrow> 'r relay_state \<Rightarrow> 'r relay_state" where
  "try_send_response msg st =
    (if length (rs_queue st) < RESPONSE_CHANNEL_CAPACITY then st\<lparr>rs_queue := rs_queue st @ [msg]\<rparr>
     else meter record_dropped_response_channel_full st)"

text \<open>The receive buffer holds 65535 bytes; what is longer is cut off.\<close>

definition flow_datagram ::
  "('re, 'net, 'r) udp_relay_env \<Rightarrow> udp_flow_key \<Rightarrow> socket_addr \<Rightarrow> u8 list \<Rightarrow> 'r relay_state \<Rightarrow> 'r relay_state" where
  "flow_datagram env key peer bytes st =
    (case map_of (rs_flows st) key of
       Some e \<Rightarrow>
         if tfe_receiving e then
           (case flow_response env e peer (take 65535 bytes) of Some msg \<Rightarrow> try_send_response msg st | None \<Rightarrow> st)
         else st
     | None \<Rightarrow> st)"

text \<open>Nothing was received for \<^verbatim>\<open>target_idle_timeout\<close>, or the socket failed: the receiving task ends.\<close>

definition flow_quiet :: "udp_flow_key \<Rightarrow> 'r relay_state \<Rightarrow> 'r relay_state" where
  "flow_quiet key st =
    (case map_of (rs_flows st) key of
       Some e \<Rightarrow> st\<lparr>rs_flows := AList.update key (e\<lparr>tfe_receiving := False\<rparr>) (rs_flows st)\<rparr>
     | None \<Rightarrow> st)"

definition send_response :: "('re, 'net, 'r) udp_relay_env \<Rightarrow> ('re, 'net) relay_config \<Rightarrow> socks_addr \<times> u8 list \<Rightarrow> 'r relay_state \<Rightarrow> 'r relay_state" where
  "send_response env config msg st =
    (case client_udp_addr (association config st) of
       None \<Rightarrow> st
     | Some client_addr \<Rightarrow>
         (case encode_socks5_udp_datagram (fst msg) (snd msg) of
            Inl _ \<Rightarrow> meter record_dropped_encode_error st
          | Inr packet \<Rightarrow>
              if rv_send env client_addr packet
              then meter (record_packet_down (word_of_nat (length (snd msg))))
                     (st\<lparr>rs_to_client := rs_to_client st @ [(client_addr, packet)]\<rparr>)
              else meter record_dropped_send_error st))"

subsection \<open>The loop\<close>

definition flow_kept :: "nanos \<Rightarrow> nanos \<Rightarrow> target_flow_entry \<Rightarrow> bool" where
  "flow_kept now timeout e \<longleftrightarrow> now - tfe_last_activity e < timeout"

definition reap_idle_flows :: "nanos \<Rightarrow> nanos \<Rightarrow> 'r relay_state \<Rightarrow> 'r relay_state" where
  "reap_idle_flows now timeout st =
    (let reaped = filter (\<lambda>(_, e). \<not> flow_kept now timeout e) (rs_flows st) in
     on_relay_heap (fold (\<lambda>(_, e). drop_entry e) reaped)
       (meter (record_target_flow_timeout ^^ length reaped)
         (st\<lparr>rs_flows := filter (\<lambda>(_, e). flow_kept now timeout e) (rs_flows st)\<rparr>)))"

datatype relay_event =
  Idle_Tick
| Cleanup_Tick
| Client_Datagram socket_addr "u8 list"
| Recv_Failed
| Response_Ready
| Cancelled
| Flow_Datagram udp_flow_key socket_addr "u8 list"
| Flow_Quiet udp_flow_key

text \<open>The buffer the client's datagram is received into has exactly the configured size.\<close>

definition client_datagram ::
  "('re, 'net, 'r) udp_relay_env \<Rightarrow> ('re, 'net) relay_config \<Rightarrow> socket_addr \<Rightarrow> u8 list \<Rightarrow> 'r relay_state \<Rightarrow> 'r relay_state" where
  "client_datagram env config client_addr bytes st =
    (let handle = (\<lambda>st. case handle_client_datagram env config (take (max_datagram_size (rc_limits config)) bytes) client_addr st of
                          (Inl _, st') \<Rightarrow> st'
                        | (Inr _, st') \<Rightarrow> on_association config (UdpAssociation_touch (rv_now env)) st')
     in if client_pin (rc_limits config) then
          (case pin_client_addr client_addr (association config st) of
             (Inl _, _) \<Rightarrow> meter record_dropped st
           | (Inr _, a) \<Rightarrow> handle (on_association config (\<lambda>_. a) st))
        else handle st)"

definition relay_step ::
  "('re, 'net, 'r) udp_relay_env \<Rightarrow> ('re, 'net) relay_config \<Rightarrow> relay_event \<Rightarrow> 'r relay_state
   \<Rightarrow> (udp_error + unit) option \<times> 'r relay_state" where
  "relay_step env config ev st =
    (case ev of
       Idle_Tick \<Rightarrow>
         if idle_timeout (rc_limits config) \<le> rv_now env - last_activity (association config st)
         then (Some (Ok ()), meter record_association_timeout st)
         else (None, st)
     | Cleanup_Tick \<Rightarrow> (None, reap_idle_flows (rv_now env) (target_idle_timeout (rc_limits config)) st)
     | Client_Datagram client_addr bytes \<Rightarrow> (None, client_datagram env config client_addr bytes st)
     | Recv_Failed \<Rightarrow> (Some (Err Udp_Io), st)
     | Response_Ready \<Rightarrow>
         (None, case rs_queue st of [] \<Rightarrow> st | msg # q \<Rightarrow> send_response env config msg (st\<lparr>rs_queue := q\<rparr>))
     | Cancelled \<Rightarrow> (Some (Ok ()), st)
     | Flow_Datagram key peer bytes \<Rightarrow> (None, flow_datagram env key peer bytes st)
     | Flow_Quiet key \<Rightarrow> (None, flow_quiet key st))"

fun relay_run ::
  "('re, 'net) relay_config \<Rightarrow> (('re, 'net, 'r) udp_relay_env \<times> relay_event) list \<Rightarrow> 'r relay_state
   \<Rightarrow> (udp_error + unit) option \<times> 'r relay_state" where
  "relay_run config [] st = (None, st)"
| "relay_run config ((env, ev) # evs) st =
    (case relay_step env config ev st of
       (None, st') \<Rightarrow> relay_run config evs st'
     | (Some r, st') \<Rightarrow> (Some r, st'))"

text \<open>The clean-up behind the loop, and that of the guard when the task is aborted.\<close>

definition close_association :: "('re, 'net) relay_config \<Rightarrow> 'r relay_state \<Rightarrow> 'r relay_state" where
  "close_association config st =
    (let st' = on_association config UdpAssociation_close st in
     st'\<lparr>rs_registry := Registry_remove (assoc_id (association config st)) (rs_registry st')\<rparr>)"

definition drop_flows :: "'r relay_state \<Rightarrow> 'r relay_state" where
  "drop_flows st = on_relay_heap (fold (\<lambda>(_, e). drop_entry e) (rs_flows st)) (st\<lparr>rs_flows := []\<rparr>)"

definition relay_finish :: "('re, 'net) relay_config \<Rightarrow> 'r relay_state \<Rightarrow> 'r relay_state" where
  "relay_finish config st =
    drop_flows (close_association config
      (meter (record_target_flow_closed ^^ length (rs_flows st)) (meter record_association_closed st)))"

text \<open>
  The guard's removal: a task of its own, which may or may not have run yet, or, without a runtime, an attempt that
  fails when the lock is contended.
\<close>

datatype guard_removal = Remove_Spawned bool | Remove_Now bool

fun guard_remove :: "guard_removal \<Rightarrow> u64 \<Rightarrow> udp_registry \<Rightarrow> udp_registry" where
  "guard_remove (Remove_Spawned has_run) i r = (if has_run then Registry_remove i r else r)"
| "guard_remove (Remove_Now contended) i r = snd (try_remove_now contended i r)"

definition relay_aborted :: "guard_removal \<Rightarrow> ('re, 'net) relay_config \<Rightarrow> 'r relay_state \<Rightarrow> 'r relay_state" where
  "relay_aborted removal config st =
    (let st' = on_association config UdpAssociation_close (meter record_association_closed st) in
     drop_flows (st'\<lparr>rs_registry := guard_remove removal (assoc_id (association config st)) (rs_registry st')\<rparr>))"

text \<open>\<^verbatim>\<open>udp_relay_loop\<close> on the events up to the one that ends it; without one the loop is still running.\<close>

definition udp_relay_loop ::
  "('re, 'net) relay_config \<Rightarrow> (('re, 'net, 'r) udp_relay_env \<times> relay_event) list \<Rightarrow> 'r relay_state
   \<Rightarrow> (udp_error + unit) option \<times> 'r relay_state" where
  "udp_relay_loop config evs st =
    (case relay_run config evs (meter record_association_created st) of
       (None, st') \<Rightarrow> (None, st')
     | (Some r, st') \<Rightarrow> (Some r, relay_finish config st'))"

end
