(* ===== verification/Udp_Standalone.thy ===== *)
theory Udp_Standalone
  imports Udp_Relay
begin

text \<open>
  The standalone UDP listeners (\<^verbatim>\<open>crates/eggress-udp/src/standalone.rs\<close>, \<^verbatim>\<open>standalone_shadowsocks.rs\<close>, with the client
  tables of \<^verbatim>\<open>flow.rs\<close>): datagrams of many clients on one socket, in SOCKS5 or in Shadowsocks format, with a
  table of flows per client. The two listeners have the same loop over different codecs, which is how they are modelled;
  flows, environment and events are those of \<open>Udp_Relay\<close>.
\<close>

subsection \<open>Codecs, configuration and state\<close>

datatype standalone_inbound =
  Inbound_Socks5
| Inbound_Shadowsocks cipher_method string

record ('re, 'net) standalone_config =
  sc_inbound :: standalone_inbound
  sc_routing :: "('re, 'net) shared_routing_service"
  sc_limits :: udp_limits
  sc_listener :: string
  sc_allow_private_egress :: bool

record client_flow_state =
  cfs_last_activity :: nanos
  cfs_target_flows :: "(udp_flow_key \<times> target_flow_entry) list"

definition ClientFlowState_new :: "nanos \<Rightarrow> client_flow_state" where
  "ClientFlowState_new now = \<lparr>cfs_last_activity = now, cfs_target_flows = []\<rparr>"

definition ClientFlowState_touch :: "nanos \<Rightarrow> client_flow_state \<Rightarrow> client_flow_state" where
  "ClientFlowState_touch now s = s\<lparr>cfs_last_activity := now\<rparr>"

record standalone_response =
  sr_client :: socket_addr
  sr_target :: socks_addr
  sr_payload :: "u8 list"

text \<open>\<open>ss_shadowsocks\<close> are the optional counters of the Shadowsocks listener.\<close>

record 'r standalone_state =
  ss_clients :: "(socket_addr \<times> client_flow_state) list"
  ss_total :: nat
  ss_metrics :: udp_metrics
  ss_shadowsocks :: "shadowsocks_metrics option"
  ss_world :: "'r route_world"
  ss_queue :: "standalone_response list"
  ss_sent :: "(socket_addr \<times> u8 list) list"
  ss_to_client :: "(socket_addr \<times> u8 list) list"

definition ss_meter :: "(udp_metrics \<Rightarrow> udp_metrics) \<Rightarrow> 'r standalone_state \<Rightarrow> 'r standalone_state" where
  "ss_meter f st = st\<lparr>ss_metrics := f (ss_metrics st)\<rparr>"

definition ss_cipher_meter :: "(shadowsocks_metrics \<Rightarrow> shadowsocks_metrics) \<Rightarrow> 'r standalone_state \<Rightarrow> 'r standalone_state" where
  "ss_cipher_meter f st = st\<lparr>ss_shadowsocks := map_option f (ss_shadowsocks st)\<rparr>"

definition on_ss_heap :: "(up_heap \<Rightarrow> up_heap) \<Rightarrow> 'r standalone_state \<Rightarrow> 'r standalone_state" where
  "on_ss_heap f st = st\<lparr>ss_world := (ss_world st)\<lparr>w_heap := f (w_heap (ss_world st))\<rparr>\<rparr>"

definition local_udp_bind_addr :: socket_addr where
  "local_udp_bind_addr = SocketAddr (V4 [127, 0, 0, 1]) 0"

definition max_standalone_flows :: "udp_limits \<Rightarrow> nat" where
  "max_standalone_flows limits =
    (if 0 < max_standalone_flows_limit limits then max_standalone_flows_limit limits else max_associations_global limits)"

definition can_use_flow :: "client_flow_state \<Rightarrow> udp_flow_key \<Rightarrow> nat \<Rightarrow> udp_limits \<Rightarrow> bool" where
  "can_use_flow s key total_flows limits \<longleftrightarrow>
    map_of (cfs_target_flows s) key \<noteq> None \<or>
    (length (cfs_target_flows s) < max_targets_per_association limits \<and> total_flows < max_standalone_flows limits)"

subsection \<open>Flows\<close>

text \<open>An opener settles the lease of the datagram, whether it gives a flow or not.\<close>

type_synonym flow_opener = "up_heap \<Rightarrow> udp_flow_kind option \<times> up_heap"

definition drop_lease :: "pending_lease option \<Rightarrow> up_heap \<Rightarrow> up_heap" where
  "drop_lease pending h = (case pending of Some l \<Rightarrow> PendingLease_drop l h | None \<Rightarrow> h)"

definition build_direct_flow :: "('re, 'net, 'r) udp_relay_env \<Rightarrow> socks_addr \<Rightarrow> flow_opener" where
  "build_direct_flow env target h =
    (case UdpTargetFlow_new env target local_udp_bind_addr of Inl _ \<Rightarrow> (None, h) | Inr f \<Rightarrow> (Some (Flow_Direct f), h))"

definition build_socks5_flow :: "('re, 'net, 'r) udp_relay_env \<Rightarrow> proxy_chain_spec \<Rightarrow> pending_lease \<Rightarrow> flow_opener" where
  "build_socks5_flow env chain pending h =
    (case open_socks5_udp_upstream (rv_udp env) (hd (hops chain)) local_udp_bind_addr None of
       Inl _ \<Rightarrow> (None, PendingLease_drop pending h)
     | Inr assoc \<Rightarrow> (let (l, h') = established pending h in (Some (Flow_Socks5 (uua_relay_addr assoc) l), h')))"

definition resolve_flow_endpoint :: "('re, 'net, 'r) udp_relay_env \<Rightarrow> endpoint_spec \<Rightarrow> udp_error + socket_addr" where
  "resolve_flow_endpoint env ep = first_addr UnresolvedTarget (\<lambda>_. Udp_Io) (ue_lookup (rv_udp env) (ep_host ep) (ep_port ep))"

definition build_shadowsocks_flow ::
  "('re, 'net, 'r) udp_relay_env \<Rightarrow> proxy_chain_spec \<Rightarrow> cipher_method \<Rightarrow> string \<Rightarrow> pending_lease \<Rightarrow> flow_opener" where
  "build_shadowsocks_flow env chain m password pending h =
    (case resolve_flow_endpoint env (hop_endpoint (hd (hops chain))) of
       Inl _ \<Rightarrow> (None, PendingLease_drop pending h)
     | Inr addr \<Rightarrow>
         (case ue_bind (rv_udp env) local_udp_bind_addr of
            Inl _ \<Rightarrow> (None, PendingLease_drop pending h)
          | Inr _ \<Rightarrow>
              (let (l, h') = established pending h in
               (Some (Flow_Shadowsocks addr m (password_key_material (rv_crypto env) (as_bytes password)) l), h'))))"

definition build_composed_flow :: "('re, 'net, 'r) udp_relay_env \<Rightarrow> proxy_chain_spec \<Rightarrow> active_lease \<Rightarrow> flow_opener" where
  "build_composed_flow env chain l h =
    (case fst (open_composed_udp_upstream (rv_udp env) (rv_crypto env) (rv_hop_error_fmt env) chain local_udp_bind_addr) of
       Inl _ \<Rightarrow> (None, ActiveLease_drop l h)
     | Inr f \<Rightarrow> (Some (Flow_Composed f l), h))"

text \<open>The flows of a client, which is in the table when they are changed.\<close>

definition set_flows ::
  "socket_addr \<Rightarrow> client_flow_state \<Rightarrow> (udp_flow_key \<times> target_flow_entry) list \<Rightarrow> 'r standalone_state \<Rightarrow> 'r standalone_state" where
  "set_flows client s flows st = st\<lparr>ss_clients := AList.update client (s\<lparr>cfs_target_flows := flows\<rparr>) (ss_clients st)\<rparr>"

definition standalone_send ::
  "('re, 'net, 'r) udp_relay_env \<Rightarrow> socket_addr \<Rightarrow> client_flow_state \<Rightarrow> (udp_flow_key \<times> target_flow_entry) list \<Rightarrow> udp_flow_key
   \<Rightarrow> target_flow_entry \<Rightarrow> u8 list \<Rightarrow> 'r standalone_state \<Rightarrow> 'r standalone_state" where
  "standalone_send env client s flows key e payload st =
    (let st' = set_flows client s flows st in
     if kind_matches key (tfe_flow e) then
       (case flow_packet env (tfe_flow e) (key_target key) payload of
          Some (dest, packet) \<Rightarrow>
            if rv_send env dest packet then
              (set_flows client s (AList.update key (e\<lparr>tfe_flow := count_sent (length payload) (tfe_flow e)\<rparr>) flows) st)
                \<lparr>ss_sent := ss_sent st @ [(dest, packet)]\<rparr>
            else ss_meter record_standalone_rejected st'
        | None \<Rightarrow> ss_meter record_standalone_rejected st')
     else ss_meter record_standalone_rejected st')"

text \<open>
  The part the four kinds of flows share. \<open>settle\<close> is what becomes of the lease of a datagram on an
  existing flow, at the end of the turn.
\<close>

definition use_client_flow ::
  "('re, 'net, 'r) udp_relay_env \<Rightarrow> ('re, 'net) standalone_config \<Rightarrow> socket_addr \<Rightarrow> client_flow_state \<Rightarrow> udp_flow_key \<Rightarrow> u8 list
   \<Rightarrow> pending_lease option \<Rightarrow> (up_heap \<Rightarrow> up_heap) \<Rightarrow> flow_opener \<Rightarrow> 'r standalone_state \<Rightarrow> 'r standalone_state" where
  "use_client_flow env config client s key payload pending settle opener st =
    (let flows = cfs_target_flows s in
     if \<not> can_use_flow s key (ss_total st) (sc_limits config)
     then on_ss_heap (drop_lease pending) (ss_meter record_standalone_rejected st)
     else case map_of flows key of
            Some e \<Rightarrow>
              (let e' = TargetFlowEntry_touch (rv_now env) e in
               on_ss_heap settle (standalone_send env client s (AList.update key e' flows) key e' payload st))
          | None \<Rightarrow>
              (case opener (w_heap (ss_world st)) of
                 (None, h) \<Rightarrow> ss_meter record_standalone_rejected (on_ss_heap (\<lambda>_. h) st)
               | (Some flow, h) \<Rightarrow>
                   (let e = \<lparr>tfe_flow = flow, tfe_target = key_target key, tfe_last_activity = rv_now env, tfe_receiving = True\<rparr> in
                    standalone_send env client s (AList.update key e flows) key e payload
                      (ss_meter record_standalone_flow_created ((on_ss_heap (\<lambda>_. h) st)\<lparr>ss_total := ss_total st + 1\<rparr>)))))"

definition use_client_upstream ::
  "('re, 'net, 'r) udp_relay_env \<Rightarrow> ('re, 'net) standalone_config \<Rightarrow> socket_addr \<Rightarrow> client_flow_state \<Rightarrow> socks_addr \<Rightarrow> u8 list
   \<Rightarrow> upstream_id \<Rightarrow> proxy_chain_spec \<Rightarrow> pending_lease \<Rightarrow> 'r standalone_state \<Rightarrow> 'r standalone_state" where
  "use_client_upstream env config client s target payload upstream chain pending st =
    (case udp_capability chain of
       SupportedSocks5 \<Rightarrow>
         use_client_flow env config client s (Key_Socks5 target upstream) payload (Some pending) (PendingLease_drop pending)
           (build_socks5_flow env chain pending) st
     | SupportedShadowsocks m password \<Rightarrow>
         use_client_flow env config client s (Key_Shadowsocks target upstream) payload (Some pending) (PendingLease_drop pending)
           (build_shadowsocks_flow env chain m password pending) st
     | SupportedComposed \<Rightarrow>
         use_client_flow env config client s (Key_Composed target upstream) payload (Some pending)
           (\<lambda>h. case established pending h of (l, h') \<Rightarrow> ActiveLease_drop l h')
           (\<lambda>h. case established pending h of (l, h') \<Rightarrow> build_composed_flow env chain l h') st
     | _ \<Rightarrow> on_ss_heap (PendingLease_drop pending) (ss_meter record_standalone_rejected st))"

subsection \<open>A datagram from a client\<close>

definition standalone_decode ::
  "crypto \<Rightarrow> standalone_inbound \<Rightarrow> udp_limits \<Rightarrow> u8 list \<Rightarrow> (target_addr \<times> socks_addr \<times> u8 list) option" where
  "standalone_decode cr inbound limits packet =
    (case inbound of
       Inbound_Socks5 \<Rightarrow>
         (case decode_packet packet limits of
            Inl _ \<Rightarrow> None
          | Inr (target, payload) \<Rightarrow> Some (socks_to_target_addr target, target, payload))
     | Inbound_Shadowsocks m password \<Rightarrow>
         (case decode_pproxy_udp_packet_with_ikm cr m (password_key_material cr (as_bytes password)) packet of
            Inl _ \<Rightarrow> None
          | Inr (target, payload) \<Rightarrow> Some (target, target_to_socks_addr target, payload)))"

definition standalone_request ::
  "('re, 'net) standalone_config \<Rightarrow> socket_addr \<Rightarrow> target_addr \<Rightarrow> route_request" where
  "standalone_request config client target =
    \<lparr>req_target = target, req_source = Some client, req_listener = sc_listener config,
     inbound_protocol = (case sc_inbound config of Inbound_Socks5 \<Rightarrow> Id_Socks5 | Inbound_Shadowsocks _ _ \<Rightarrow> Id_Shadowsocks),
     req_identity = Anonymous, req_transport = Udp\<rparr>"

text \<open>The part after the route is selected; a lease that is not used is dropped with the selection.\<close>

definition standalone_forward ::
  "('re, 'net, 'r) udp_relay_env \<Rightarrow> ('re, 'net) standalone_config \<Rightarrow> socket_addr \<Rightarrow> socks_addr \<Rightarrow> u8 list \<Rightarrow> selected_route
   \<Rightarrow> 'r standalone_state \<Rightarrow> 'r standalone_state" where
  "standalone_forward env config client target payload selected st =
    (if map_of (ss_clients st) client = None \<and> max_standalone_flows (sc_limits config) \<le> length (ss_clients st)
     then on_ss_heap (drop_lease (case selected of Selected_Upstream _ _ _ _ pending _ \<Rightarrow> Some pending | _ \<Rightarrow> None))
            (ss_meter record_standalone_rejected st)
     else
       (let s = ClientFlowState_touch (rv_now env)
              (case map_of (ss_clients st) client of Some s \<Rightarrow> s | None \<Rightarrow> ClientFlowState_new (rv_now env));
            st' = st\<lparr>ss_clients := AList.update client s (ss_clients st)\<rparr> in
        case selected of
          Selected_Direct _ _ \<Rightarrow>
            use_client_flow env config client s (Key_Direct target) payload None id (build_direct_flow env target) st'
        | Selected_Upstream _ _ upstream chain pending _ \<Rightarrow>
            use_client_upstream env config client s target payload upstream chain pending st'))"

definition standalone_datagram ::
  "('re, 'net, 'r) udp_relay_env \<Rightarrow> ('re, 'net) standalone_config \<Rightarrow> socket_addr \<Rightarrow> u8 list \<Rightarrow> 'r standalone_state \<Rightarrow> 'r standalone_state" where
  "standalone_datagram env config client bytes st =
    (let packet = take (max_datagram_size (sc_limits config)) bytes;
         n = word_of_nat (length packet);
         cipher = (\<lambda>f. case sc_inbound config of Inbound_Socks5 \<Rightarrow> (\<lambda>st. st) | Inbound_Shadowsocks _ _ \<Rightarrow> ss_cipher_meter f) in
     case standalone_decode (rv_crypto env) (sc_inbound config) (sc_limits config) packet of
       None \<Rightarrow> cipher record_udp_decrypt_failure (ss_meter record_standalone_malformed st)
     | Some (target_addr, target, payload) \<Rightarrow>
         if \<not> is_ok (validate_standalone_target target (sc_allow_private_egress config))
         then ss_meter record_standalone_rejected st
         else
           (let st1 = cipher (record_udp_packet_in n) (ss_meter (record_standalone_packet_in n) st);
                (selected, w) = service_route (rv_is_match env) (rv_cidr_contains env) (rv_index env) (sc_routing config)
                  (standalone_request config client target_addr) (ss_world st1);
                st2 = st1\<lparr>ss_world := w\<rparr>
            in case selected of
                 Inl _ \<Rightarrow> ss_meter record_standalone_rejected st2
               | Inr route_taken \<Rightarrow> standalone_forward env config client target payload route_taken st2))"

subsection \<open>Receiving and answering\<close>

definition standalone_try_send :: "standalone_response \<Rightarrow> 'r standalone_state \<Rightarrow> 'r standalone_state" where
  "standalone_try_send msg st =
    (if length (ss_queue st) < RESPONSE_CHANNEL_CAPACITY then st\<lparr>ss_queue := ss_queue st @ [msg]\<rparr>
     else ss_meter record_dropped_response_channel_full st)"

definition find_flow :: "socket_addr \<Rightarrow> udp_flow_key \<Rightarrow> 'r standalone_state \<Rightarrow> (client_flow_state \<times> target_flow_entry) option" where
  "find_flow client key st =
    (case map_of (ss_clients st) client of
       None \<Rightarrow> None
     | Some s \<Rightarrow> (case map_of (cfs_target_flows s) key of None \<Rightarrow> None | Some e \<Rightarrow> Some (s, e)))"

definition standalone_flow_datagram ::
  "('re, 'net, 'r) udp_relay_env \<Rightarrow> socket_addr \<Rightarrow> udp_flow_key \<Rightarrow> socket_addr \<Rightarrow> u8 list \<Rightarrow> 'r standalone_state \<Rightarrow> 'r standalone_state" where
  "standalone_flow_datagram env client key peer bytes st =
    (case find_flow client key st of
       Some (_, e) \<Rightarrow>
         if tfe_receiving e then
           (case flow_response env e peer (take 65535 bytes) of
              Some (target, payload) \<Rightarrow> standalone_try_send \<lparr>sr_client = client, sr_target = target, sr_payload = payload\<rparr> st
            | None \<Rightarrow> st)
         else st
     | None \<Rightarrow> st)"

definition standalone_flow_quiet :: "socket_addr \<Rightarrow> udp_flow_key \<Rightarrow> 'r standalone_state \<Rightarrow> 'r standalone_state" where
  "standalone_flow_quiet client key st =
    (case find_flow client key st of
       Some (s, e) \<Rightarrow> set_flows client s (AList.update key (e\<lparr>tfe_receiving := False\<rparr>) (cfs_target_flows s)) st
     | None \<Rightarrow> st)"

definition standalone_encode ::
  "('re, 'net, 'r) udp_relay_env \<Rightarrow> standalone_inbound \<Rightarrow> standalone_response \<Rightarrow> u8 list option" where
  "standalone_encode env inbound msg =
    (case inbound of
       Inbound_Socks5 \<Rightarrow>
         (case encode_socks5_udp_datagram (sr_target msg) (sr_payload msg) of Inl _ \<Rightarrow> None | Inr out \<Rightarrow> Some out)
     | Inbound_Shadowsocks m password \<Rightarrow>
         (case encode_pproxy_udp_packet_with_ikm (rv_crypto env) m (password_key_material (rv_crypto env) (as_bytes password))
                 (socks_to_target_addr (sr_target msg)) (sr_payload msg) (take (salt_size m) (rv_random env 0)) of
            Inl _ \<Rightarrow> None | Inr out \<Rightarrow> Some out))"

definition standalone_respond ::
  "('re, 'net, 'r) udp_relay_env \<Rightarrow> ('re, 'net) standalone_config \<Rightarrow> standalone_response \<Rightarrow> 'r standalone_state \<Rightarrow> 'r standalone_state" where
  "standalone_respond env config msg st =
    (let plain = (sc_inbound config = Inbound_Socks5) in
     case standalone_encode env (sc_inbound config) msg of
       None \<Rightarrow> ss_meter (if plain then record_dropped_encode_error else record_dropped) st
     | Some out \<Rightarrow>
         if rv_send env (sr_client msg) out then
           (let n = word_of_nat (length out);
                st' = ss_meter (record_standalone_packet_out n) (st\<lparr>ss_to_client := ss_to_client st @ [(sr_client msg, out)]\<rparr>) in
            if plain then st' else ss_cipher_meter (record_udp_packet_out n) st')
         else ss_meter (if plain then record_dropped_send_error else record_dropped) st)"

subsection \<open>Reaping and the loop\<close>

definition all_flows :: "(socket_addr \<times> client_flow_state) list \<Rightarrow> (udp_flow_key \<times> target_flow_entry) list" where
  "all_flows clients = concat (map (cfs_target_flows \<circ> snd) clients)"

definition drop_flow_leases :: "(udp_flow_key \<times> target_flow_entry) list \<Rightarrow> up_heap \<Rightarrow> up_heap" where
  "drop_flow_leases flows = fold (\<lambda>(_, e). drop_entry e) flows"

definition keep_flows :: "nanos \<Rightarrow> nanos \<Rightarrow> client_flow_state \<Rightarrow> client_flow_state" where
  "keep_flows now timeout s = s\<lparr>cfs_target_flows := filter (\<lambda>(_, e). flow_kept now timeout e) (cfs_target_flows s)\<rparr>"

text \<open>\<^verbatim>\<open>reap_idle_flows\<close>: first the idle flows of every client, then the idle clients with what is left of theirs.\<close>

definition reap_clients :: "nanos \<Rightarrow> udp_limits \<Rightarrow> 'r standalone_state \<Rightarrow> nat \<times> 'r standalone_state" where
  "reap_clients now limits st =
    (let idle = filter (\<lambda>(_, e). \<not> flow_kept now (target_idle_timeout limits) e) (all_flows (ss_clients st));
         kept = map (\<lambda>(c, s). (c, keep_flows now (target_idle_timeout limits) s)) (ss_clients st);
         gone = filter (\<lambda>(_, s). \<not> now - cfs_last_activity s < idle_timeout limits) kept
     in (length idle + length (all_flows gone),
         on_ss_heap (drop_flow_leases (all_flows gone) \<circ> drop_flow_leases idle)
           (ss_meter (record_standalone_flow_reap ^^ length idle)
             (st\<lparr>ss_clients := filter (\<lambda>(_, s). now - cfs_last_activity s < idle_timeout limits) kept\<rparr>))))"

definition close_all_flows :: "'r standalone_state \<Rightarrow> nat \<times> 'r standalone_state" where
  "close_all_flows st =
    (let flows = all_flows (ss_clients st) in
     (length flows,
      on_ss_heap (drop_flow_leases flows)
        (ss_meter (record_standalone_flow_closed ^^ length flows)
          (st\<lparr>ss_clients := map (\<lambda>(c, s). (c, s\<lparr>cfs_target_flows := []\<rparr>)) (ss_clients st)\<rparr>))))"

datatype standalone_event =
  St_Datagram socket_addr "u8 list"
| St_Recv_Failed
| St_Tick
| St_Cancelled
| St_Respond
| St_Flow_Datagram socket_addr udp_flow_key socket_addr "u8 list"
| St_Flow_Quiet socket_addr udp_flow_key

definition standalone_step ::
  "('re, 'net, 'r) udp_relay_env \<Rightarrow> ('re, 'net) standalone_config \<Rightarrow> standalone_event \<Rightarrow> 'r standalone_state
   \<Rightarrow> (udp_error + unit) option \<times> 'r standalone_state" where
  "standalone_step env config ev st =
    (case ev of
       St_Datagram client bytes \<Rightarrow> (None, standalone_datagram env config client bytes st)
     | St_Recv_Failed \<Rightarrow> (Some (Err Udp_Io), st)
     | St_Tick \<Rightarrow>
         (case reap_clients (rv_now env) (sc_limits config) st of (removed, st') \<Rightarrow> (None, st'\<lparr>ss_total := ss_total st' - removed\<rparr>))
     | St_Cancelled \<Rightarrow> (Some (Ok ()), st)
     | St_Respond \<Rightarrow>
         (None, case ss_queue st of [] \<Rightarrow> st | msg # q \<Rightarrow> standalone_respond env config msg (st\<lparr>ss_queue := q\<rparr>))
     | St_Flow_Datagram client key peer bytes \<Rightarrow> (None, standalone_flow_datagram env client key peer bytes st)
     | St_Flow_Quiet client key \<Rightarrow> (None, standalone_flow_quiet client key st))"

fun standalone_run ::
  "('re, 'net) standalone_config \<Rightarrow> (('re, 'net, 'r) udp_relay_env \<times> standalone_event) list \<Rightarrow> 'r standalone_state
   \<Rightarrow> (udp_error + unit) option \<times> 'r standalone_state" where
  "standalone_run config [] st = (None, st)"
| "standalone_run config ((env, ev) # evs) st =
    (case standalone_step env config ev st of
       (None, st') \<Rightarrow> standalone_run config evs st'
     | (Some r, st') \<Rightarrow> (Some r, st'))"

text \<open>
  The whole listener on the events up to the one that ends it. Behind the loop all flows are closed, and
  the total must come out as zero (\<^verbatim>\<open>debug_assert_eq!\<close>; a violation is \<open>Panicked\<close>); an error of the socket returns at once
  and drops the tables.
\<close>

datatype 'a standalone_exit = Running | Panicked | Exited "udp_error + 'a"

definition standalone_udp_relay ::
  "('re, 'net) standalone_config \<Rightarrow> (('re, 'net, 'r) udp_relay_env \<times> standalone_event) list \<Rightarrow> 'r standalone_state
   \<Rightarrow> unit standalone_exit \<times> 'r standalone_state" where
  "standalone_udp_relay config evs st =
    (case standalone_run config evs st of
       (None, st') \<Rightarrow> (Running, st')
     | (Some (Inl e), st') \<Rightarrow>
         (Exited (Err e), on_ss_heap (drop_flow_leases (all_flows (ss_clients st'))) (st'\<lparr>ss_clients := []\<rparr>))
     | (Some (Inr _), st') \<Rightarrow>
         (case close_all_flows st' of
            (removed, st'') \<Rightarrow>
              (if ss_total st'' - removed = 0 then Exited (Ok ()) else Panicked, st''\<lparr>ss_total := ss_total st'' - removed, ss_clients := []\<rparr>)))"

end
