(* ===== verification/Udp_Relay_Facts.thy ===== *)
theory Udp_Relay_Facts
  imports Udp_Relay
begin

text \<open>
  Facts of the relay of a UDP association: the table of flows keeps its bound and its keys, every lease is held
  by exactly one flow of the table and given back on every way out, what is sent outside is for a target that
  passed the validation, and the client is answered only at its pinned address.
\<close>

subsection \<open>Leases held by the table\<close>

text \<open>The number of flows that hold a lease on an upstream, and the heap with exactly these leases added.\<close>

definition leased :: "up_ref \<Rightarrow> (udp_flow_key \<times> target_flow_entry) list \<Rightarrow> nat" where
  "leased r flows = length (filter (\<lambda>(_, e). flow_lease (tfe_flow e) = Some (ActiveLease r)) flows)"

definition with_leases :: "(udp_flow_key \<times> target_flow_entry) list \<Rightarrow> up_heap \<Rightarrow> up_heap" where
  "with_leases flows h = (\<lambda>r. (h r)\<lparr>active := active (h r) + of_nat (leased r flows)\<rparr>)"

lemma with_leases_Nil [simp]: "with_leases [] h = h"
  by (simp add: with_leases_def leased_def)

lemma leased_append: "leased r (xs @ ys) = leased r xs + leased r ys"
  by (simp add: leased_def)

lemma leased_filter_split:
  "leased r flows = leased r (filter P flows) + leased r (filter (\<lambda>x. \<not> P x) flows)"
  by (induction flows) (auto simp: leased_def)

lemma with_leases_update:
  assumes "map_of flows key = Some e" "flow_lease (tfe_flow e') = flow_lease (tfe_flow e)"
  shows "with_leases (AList.update key e' flows) h = with_leases flows h"
proof -
  have "leased r (AList.update key e' flows) = leased r flows" for r
    using assms by (induction flows) (auto simp: leased_def)
  then show ?thesis by (simp add: with_leases_def)
qed

lemma alist_update_none: "map_of xs k = None \<Longrightarrow> AList.update k v xs = xs @ [(k, v)]"
  by (induction xs) auto

definition add_lease :: "active_lease option \<Rightarrow> up_heap \<Rightarrow> up_heap" where
  "add_lease l h = (case l of Some (ActiveLease r) \<Rightarrow> active_inc r h | None \<Rightarrow> h)"

lemma with_leases_insert:
  assumes "map_of flows key = None"
  shows "with_leases (AList.update key e flows) h = add_lease (flow_lease (tfe_flow e)) (with_leases flows h)"
proof -
  have "leased r [(key, e)] = (if flow_lease (tfe_flow e) = Some (ActiveLease r) then 1 else 0)" for r
    by (simp add: leased_def)
  with assms show ?thesis
    by (cases "flow_lease (tfe_flow e)"; cases "the (flow_lease (tfe_flow e))")
      (auto simp: alist_update_none with_leases_def add_lease_def leased_append counter_defs fun_eq_iff)
qed

lemma drop_entries:
  "fold (\<lambda>(_, e). drop_entry e) xs (\<lambda>r. (h r)\<lparr>active := active (h r) + of_nat (leased r xs) + n r\<rparr>) =
    (\<lambda>r. (h r)\<lparr>active := active (h r) + n r\<rparr>)"
proof (induction xs arbitrary: n)
  case Nil
  then show ?case by (simp add: leased_def)
next
  case (Cons x xs)
  obtain k e where x: "x = (k, e)" by (cases x)
  have "drop_entry e (\<lambda>r. (h r)\<lparr>active := active (h r) + of_nat (leased r (x # xs)) + n r\<rparr>) =
      (\<lambda>r. (h r)\<lparr>active := active (h r) + of_nat (leased r xs) + n r\<rparr>)"
    by (cases "flow_lease (tfe_flow e)"; cases "the (flow_lease (tfe_flow e))")
      (auto simp: x drop_entry_def ActiveLease_drop_def counter_defs leased_def fun_eq_iff)
  with Cons.IH [of n] show ?case by (simp add: x)
qed

lemma drop_all_entries: "fold (\<lambda>(_, e). drop_entry e) flows (with_leases flows h) = h"
  using drop_entries [of flows h "\<lambda>_. 0"] by (simp add: with_leases_def)

lemma drop_some_entries:
  "fold (\<lambda>(_, e). drop_entry e) (filter (\<lambda>x. \<not> P x) flows) (with_leases flows h) = with_leases (filter P flows) h"
  using drop_entries [of "filter (\<lambda>x. \<not> P x) flows" h "\<lambda>r. of_nat (leased r (filter P flows))"]
  by (simp add: with_leases_def leased_filter_split [of _ flows P] add.commute add.left_commute)

subsection \<open>The invariant of the relay\<close>

definition flow_ok :: "udp_flow_key \<times> target_flow_entry \<Rightarrow> bool" where
  "flow_ok x \<longleftrightarrow> kind_matches (fst x) (tfe_flow (snd x)) \<and> tfe_target (snd x) = key_target (fst x)"

definition table_ok :: "udp_limits \<Rightarrow> (udp_flow_key \<times> target_flow_entry) list \<Rightarrow> bool" where
  "table_ok limits flows \<longleftrightarrow>
    distinct (map fst flows) \<and> length flows \<le> max_targets_per_association limits \<and> (\<forall>x \<in> set flows. flow_ok x)"

abbreviation relay_heap :: "'r relay_state \<Rightarrow> up_heap" where
  "relay_heap st \<equiv> w_heap (rs_world st)"

text \<open>Every counter of the heap is the original one plus the leases of the flows.\<close>

definition relay_ok :: "udp_limits \<Rightarrow> up_heap \<Rightarrow> 'r relay_state \<Rightarrow> bool" where
  "relay_ok limits h st \<longleftrightarrow> table_ok limits (rs_flows st) \<and> relay_heap st = with_leases (rs_flows st) h"

lemma relay_state_frame [simp]:
  "rs_flows (meter f st) = rs_flows st" "rs_world (meter f st) = rs_world st"
  "rs_flows (on_relay_heap g st) = rs_flows st" "relay_heap (on_relay_heap g st) = g (relay_heap st)"
  "rs_flows (on_association c a st) = rs_flows st" "rs_world (on_association c a st) = rs_world st"
  by (simp_all add: meter_def on_relay_heap_def on_association_def)

lemma relay_ok_frame [simp]:
  "relay_ok limits h (meter f st) = relay_ok limits h st"
  "relay_ok limits h (on_association c a st) = relay_ok limits h st"
  "relay_ok limits h (st\<lparr>rs_queue := q\<rparr>) = relay_ok limits h st"
  "relay_ok limits h (st\<lparr>rs_to_client := x\<rparr>) = relay_ok limits h st"
  by (simp_all add: relay_ok_def)

lemma table_ok_update:
  assumes "table_ok limits flows" "map_of flows key = Some e" "kind_matches key (tfe_flow e')" "tfe_target e' = key_target key"
  shows "table_ok limits (AList.update key e' flows)"
proof -
  have "length (AList.update key e' flows) = length flows"
    using assms(2) by (induction flows) auto
  moreover have "set (AList.update key e' flows) \<subseteq> insert (key, e') (set flows)"
    by (induction flows) auto
  ultimately show ?thesis
    using assms by (auto simp: table_ok_def flow_ok_def distinct_update)
qed

lemma table_ok_insert:
  assumes "table_ok limits flows" "map_of flows key = None" "length flows < max_targets_per_association limits"
    "kind_matches key (tfe_flow e)" "tfe_target e = key_target key"
  shows "table_ok limits (AList.update key e flows)"
  using assms by (auto simp: table_ok_def flow_ok_def alist_update_none map_of_eq_None_iff)

lemma table_ok_lookup: "table_ok limits flows \<Longrightarrow> map_of flows key = Some e \<Longrightarrow> flow_ok (key, e)"
  by (auto simp: table_ok_def dest: map_of_SomeD)

lemma count_sent_keeps [simp]:
  "kind_matches key (count_sent n f) = kind_matches key f" "flow_lease (count_sent n f) = flow_lease f"
  by (cases f; cases key; simp)+

lemma send_flow_flows:
  assumes "map_of (rs_flows st) key = Some e"
  shows "\<exists>e'. rs_flows (send_flow env key e target payload st) = AList.update key e' (rs_flows st) \<and>
    kind_matches key (tfe_flow e') = kind_matches key (tfe_flow e) \<and> flow_lease (tfe_flow e') = flow_lease (tfe_flow e) \<and>
    tfe_target e' = tfe_target e"
proof (cases "rs_flows (send_flow env key e target payload st) = rs_flows st")
  case True
  with assms show ?thesis by (intro exI [of _ e]) (simp add: update_triv)
next
  case False
  then show ?thesis
    by (intro exI [of _ "e\<lparr>tfe_flow := count_sent (length payload) (tfe_flow e)\<rparr>"])
      (auto simp: send_flow_def split: if_splits option.splits prod.splits udp_flow_key.splits)
qed

lemma send_flow_world [simp]: "rs_world (send_flow env key e target payload st) = rs_world st"
  by (auto simp: send_flow_def split: option.splits prod.splits udp_flow_key.splits)

lemma send_flow_ok:
  assumes "table_ok limits (rs_flows st)" "map_of (rs_flows st) key = Some e"
  shows "table_ok limits (rs_flows (send_flow env key e target payload st))"
    "with_leases (rs_flows (send_flow env key e target payload st)) h = with_leases (rs_flows st) h"
proof -
  obtain e' where e': "rs_flows (send_flow env key e target payload st) = AList.update key e' (rs_flows st)"
    "kind_matches key (tfe_flow e') = kind_matches key (tfe_flow e)" "flow_lease (tfe_flow e') = flow_lease (tfe_flow e)"
    "tfe_target e' = tfe_target e" using send_flow_flows [OF assms(2)] by blast
  with table_ok_lookup [OF assms] show "table_ok limits (rs_flows (send_flow env key e target payload st))"
    by (simp add: table_ok_update [OF assms] flow_ok_def)
  show "with_leases (rs_flows (send_flow env key e target payload st)) h = with_leases (rs_flows st) h"
    unfolding e'(1) by (rule with_leases_update [OF assms(2) e'(3)])
qed

text \<open>A pending lease on top of the heap.\<close>

definition held :: "pending_lease option \<Rightarrow> up_heap \<Rightarrow> up_heap" where
  "held pending h = (case pending of Some l \<Rightarrow> in_flight_inc (lease_upstream l) h | None \<Rightarrow> h)"

definition is_pending :: "pending_lease option \<Rightarrow> bool" where
  "is_pending pending \<longleftrightarrow> (case pending of Some l \<Rightarrow> lease_state l = Pending | None \<Rightarrow> True)"

lemma drop_pending_held:
  "is_pending pending \<Longrightarrow> relay_heap st = held pending h \<Longrightarrow> relay_heap (drop_pending pending st) = h"
  by (auto simp: drop_pending_def held_def is_pending_def PendingLease_drop_def split: option.splits)

lemma drop_pending_flows [simp]: "rs_flows (drop_pending pending st) = rs_flows st"
  by (simp add: drop_pending_def split: option.split)

definition opener_ok :: "udp_flow_key \<Rightarrow> pending_lease option \<Rightarrow> 'r opener \<Rightarrow> bool" where
  "opener_ok key pending open_flow \<longleftrightarrow>
    (\<forall>st h. relay_heap st = held pending h \<longrightarrow>
      (case open_flow st of (res, st') \<Rightarrow> rs_flows st' = rs_flows st \<and>
         (case res of
            Opened flow \<Rightarrow> kind_matches key flow \<and> relay_heap st' = add_lease (flow_lease flow) h
          | _ \<Rightarrow> relay_heap st' = h)))"

lemma establish_held:
  assumes "lease_state l = Pending" "relay_heap st = held (Some l) h" "establish l st = (a, st')"
  shows "a = ActiveLease (lease_upstream l)" "relay_heap st' = active_inc (lease_upstream l) h" "rs_flows st' = rs_flows st"
  using assms by (auto simp: establish_def established_defs PendingLease_drop_def held_def Let_def)

lemma opener_okI:
  assumes "\<And>st h res st'. relay_heap st = held pending h \<Longrightarrow> open_flow st = (res, st') \<Longrightarrow> rs_flows st' = rs_flows st \<and>
    (case res of
       Opened flow \<Rightarrow> kind_matches key flow \<and> relay_heap st' = add_lease (flow_lease flow) h
     | _ \<Rightarrow> relay_heap st' = h)"
  shows "opener_ok key pending open_flow"
  unfolding opener_ok_def using assms by blast

lemma open_direct_ok: "opener_ok (Key_Direct t) None (open_direct_flow env config target)"
  by (rule opener_okI) (auto simp: open_direct_flow_def held_def add_lease_def split: sum.splits)

text \<open>The three upstream openers settle the pending lease: it is dropped, or becomes the lease of the flow.\<close>

lemma opener_ok_upstream:
  assumes "lease_state l = Pending"
    "\<And>st a st1. establish l st = (a, st1) \<Longrightarrow>
      (\<exists>flow. open_flow st = (Opened flow, st1) \<and> kind_matches key flow \<and> flow_lease flow = Some a) \<or>
      (\<exists>res. open_flow st = (res, drop_pending (Some l) st) \<and> (\<forall>flow. res \<noteq> Opened flow)) \<or>
      (\<exists>res. open_flow st = (res, on_relay_heap (ActiveLease_drop a) st1) \<and> (\<forall>flow. res \<noteq> Opened flow))"
  shows "opener_ok key (Some l) open_flow"
proof (rule opener_okI)
  fix st h res st' assume h: "relay_heap st = held (Some l) h" and o: "open_flow st = (res, st')"
  obtain a st1 where e: "establish l st = (a, st1)" by fastforce
  note est = establish_held [OF assms(1) h e]
  have d: "relay_heap (drop_pending (Some l) st) = h"
    using assms(1) h by (intro drop_pending_held) (simp_all add: is_pending_def)
  from assms(2) [OF e] o est d show "rs_flows st' = rs_flows st \<and>
    (case res of
       Opened flow \<Rightarrow> kind_matches key flow \<and> relay_heap st' = add_lease (flow_lease flow) h
     | _ \<Rightarrow> relay_heap st' = h)"
    by (auto simp: add_lease_def ActiveLease_drop_def split: open_result.split)
qed

lemma open_socks5_ok:
  "lease_state l = Pending \<Longrightarrow> opener_ok (Key_Socks5 t u) (Some l) (open_socks5_flow env config chain l)"
  by (rule opener_ok_upstream) (simp_all add: open_socks5_flow_def split: sum.split)

lemma open_shadowsocks_ok:
  "lease_state l = Pending \<Longrightarrow> opener_ok (Key_Shadowsocks t u) (Some l) (open_shadowsocks_flow env chain m pw l)"
  by (rule opener_ok_upstream) (simp_all add: open_shadowsocks_flow_def Let_def split: option.split sum.split)

lemma open_composed_ok:
  "lease_state l = Pending \<Longrightarrow> opener_ok (Key_Composed t u) (Some l) (open_composed_flow env config chain l)"
  by (rule opener_ok_upstream) (simp_all add: open_composed_flow_def split: sum.split)

lemma use_flow_ok:
  assumes table: "table_ok (rc_limits config) (rs_flows st)" and heap: "relay_heap st = held pending (with_leases (rs_flows st) h)"
    and pending: "is_pending pending" and opener: "opener_ok key pending open_flow"
  shows "relay_ok (rc_limits config) h (snd (use_flow env config key payload pending open_flow st))"
proof (cases "table_full (rc_limits config) key st")
  case True
  with table drop_pending_held [OF pending, of "meter record_dropped st"] heap show ?thesis
    by (simp add: use_flow_def Let_def relay_ok_def)
next
  case not_full: False
  show ?thesis
  proof (cases "map_of (rs_flows st) key")
    case (Some e)
    let ?e = "TargetFlowEntry_touch (rv_now env) e" and ?flows = "AList.update key (TargetFlowEntry_touch (rv_now env) e) (rs_flows st)"
    let ?st = "send_flow env key ?e (key_target key) payload (st\<lparr>rs_flows := ?flows\<rparr>)"
    have keep: "kind_matches key (tfe_flow ?e)" "tfe_target ?e = key_target key" "flow_lease (tfe_flow ?e) = flow_lease (tfe_flow e)"
      using table_ok_lookup [OF table Some] by (simp_all add: flow_ok_def TargetFlowEntry_touch_def)
    have m: "map_of ?flows key = Some ?e" by (simp add: update_conv')
    note sent = send_flow_ok [of _ "st\<lparr>rs_flows := ?flows\<rparr>" key ?e env "key_target key" payload]
    have "relay_heap (drop_pending pending ?st) = with_leases (rs_flows st) h"
      using heap by (intro drop_pending_held [OF pending]) simp
    then show ?thesis
      using not_full Some sent m table_ok_update [OF table Some keep(1,2)] with_leases_update [OF Some keep(3)]
      by (simp add: use_flow_def Let_def relay_ok_def)
  next
    case None
    obtain res st' where o: "open_flow st = (res, st')" by fastforce
    with opener heap have os: "rs_flows st' = rs_flows st" "case res of
        Opened flow \<Rightarrow> kind_matches key flow \<and> relay_heap st' = add_lease (flow_lease flow) (with_leases (rs_flows st) h)
      | _ \<Rightarrow> relay_heap st' = with_leases (rs_flows st) h"
      unfolding opener_ok_def by fastforce+
    have room: "length (rs_flows st) < max_targets_per_association (rc_limits config)"
      using not_full None by (simp add: table_full_def)
    show ?thesis
    proof (cases res)
      case (Opened flow)
      let ?e = "\<lparr>tfe_flow = flow, tfe_target = key_target key, tfe_last_activity = rv_now env, tfe_receiving = True\<rparr>"
      let ?flows = "AList.update key ?e (rs_flows st)"
      let ?st = "meter record_target_flow_created (st'\<lparr>rs_flows := ?flows\<rparr>)"
      have ok: "kind_matches key (tfe_flow ?e)" "tfe_target ?e = key_target key" using os(2) Opened by simp_all
      have m: "map_of (rs_flows ?st) key = Some ?e" by (simp add: update_conv')
      have t: "table_ok (rc_limits config) (rs_flows ?st)"
        using table_ok_insert [OF table None room ok] by simp
      note sent = send_flow_ok [OF t m, of env "key_target key" payload]
      show ?thesis
        using not_full None o os Opened sent with_leases_insert [OF None, of ?e h]
        by (simp add: use_flow_def Let_def relay_ok_def)
    qed (use not_full None o os table in \<open>simp_all add: use_flow_def Let_def relay_ok_def\<close>)
  qed
qed

lemma use_upstream_ok:
  assumes "table_ok (rc_limits config) (rs_flows st)" "relay_heap st = held (Some l) (with_leases (rs_flows st) h)" "lease_state l = Pending"
  shows "relay_ok (rc_limits config) h (snd (use_upstream env config target payload u chain l st))"
proof -
  have p: "is_pending (Some l)" using assms(3) by (simp add: is_pending_def)
  have "relay_ok (rc_limits config) h (drop_pending (Some l) (meter record_dropped st))"
    using assms(1,2) drop_pending_held [OF p, of "meter record_dropped st"] by (simp add: relay_ok_def)
  then show ?thesis
    by (cases "udp_capability chain")
      (simp_all add: use_upstream_def use_flow_ok [OF assms(1,2) p] open_socks5_ok open_shadowsocks_ok open_composed_ok assms(3))
qed

lemma handle_client_datagram_ok:
  assumes "relay_ok (rc_limits config) h st"
  shows "relay_ok (rc_limits config) h (snd (handle_client_datagram env config packet client st))"
proof (cases "decode_packet packet (rc_limits config)")
  case (Inr tp)
  obtain target payload where tp: "tp = (target, payload)" by (cases tp)
  obtain sel w where r: "service_route (rv_is_match env) (rv_cidr_contains env) (rv_index env) (rc_routing config)
      (datagram_request config client target) (rs_world st) = (sel, w)" by fastforce
  then have sr: "case sel of
      Inr (Selected_Upstream _ _ _ _ lease _) \<Rightarrow> lease_state lease = Pending \<and> w_heap w = in_flight_inc (lease_upstream lease) (relay_heap st)
    | _ \<Rightarrow> w_heap w = relay_heap st"
    by (intro Router_select_heap) (simp add: service_route_def Let_def)
  have t: "table_ok (rc_limits config) (rs_flows (st\<lparr>rs_world := w\<rparr>))" using assms by (simp add: relay_ok_def)
  have direct: "relay_ok (rc_limits config) h
      (snd (use_flow env config (Key_Direct target) payload None (open_direct_flow env config target) (st\<lparr>rs_world := w\<rparr>)))"
    if "w_heap w = relay_heap st"
    using that assms by (intro use_flow_ok [OF t]) (simp_all add: held_def is_pending_def relay_ok_def open_direct_ok)
  have upstream: "relay_ok (rc_limits config) h (snd (use_upstream env config target payload u chain l (st\<lparr>rs_world := w\<rparr>)))"
    if "lease_state l = Pending" "w_heap w = in_flight_inc (lease_upstream l) (relay_heap st)" for u chain l
    using that assms by (intro use_upstream_ok [OF t]) (simp_all add: held_def relay_ok_def)
  show ?thesis
    using sr assms direct upstream
    by (simp add: handle_client_datagram_def Inr tp r relay_ok_def split: sum.splits selected_route.splits)
qed (use assms in \<open>simp add: handle_client_datagram_def\<close>)

lemma handled_ok:
  assumes "relay_ok (rc_limits config) h st" "handle_client_datagram env config packet client st = (res, st')"
  shows "relay_ok (rc_limits config) h st'"
  using handle_client_datagram_ok [OF assms(1), of env packet client] assms(2) by simp

lemma client_datagram_ok:
  assumes "relay_ok (rc_limits config) h st"
  shows "relay_ok (rc_limits config) h (client_datagram env config client bytes st)"
  using assms by (auto simp: client_datagram_def Let_def split: prod.split sum.split
    intro: handled_ok [where st = st] handled_ok [where st = "on_association config f st" for f])

lemma reap_idle_flows_ok:
  assumes "relay_ok limits h st"
  shows "relay_ok limits h (reap_idle_flows now timeout st)"
proof -
  let ?P = "\<lambda>(_, e). flow_kept now timeout e"
  have "table_ok limits (filter ?P (rs_flows st))"
    using assms by (auto simp: relay_ok_def table_ok_def distinct_map_filter intro: le_trans [OF length_filter_le])
  moreover have "fold (\<lambda>(_, e). drop_entry e) (filter (\<lambda>(_, e). \<not> flow_kept now timeout e) (rs_flows st)) (with_leases (rs_flows st) h) =
      with_leases (filter ?P (rs_flows st)) h"
    using drop_some_entries [of ?P "rs_flows st" h] by (simp add: case_prod_unfold)
  ultimately show ?thesis
    using assms by (simp add: reap_idle_flows_def Let_def relay_ok_def)
qed

lemma flow_quiet_ok:
  assumes "relay_ok limits h st"
  shows "relay_ok limits h (flow_quiet key st)"
proof (cases "map_of (rs_flows st) key")
  case (Some e)
  have t: "table_ok limits (rs_flows st)" using assms by (simp add: relay_ok_def)
  have "flow_ok (key, e)" using table_ok_lookup [OF t Some] .
  then show ?thesis
    using assms Some table_ok_update [OF t Some, of "e\<lparr>tfe_receiving := False\<rparr>"]
      with_leases_update [OF Some, of "e\<lparr>tfe_receiving := False\<rparr>" h]
    by (simp add: flow_quiet_def relay_ok_def flow_ok_def)
qed (use assms in \<open>simp add: flow_quiet_def\<close>)

lemma relay_step_ok:
  assumes "relay_ok (rc_limits config) h st"
  shows "relay_ok (rc_limits config) h (snd (relay_step env config ev st))"
proof (cases ev)
  case Response_Ready
  with assms show ?thesis
    by (auto simp: relay_step_def send_response_def split: list.splits option.splits sum.splits)
next
  case (Flow_Datagram key peer bytes)
  with assms show ?thesis
    by (auto simp: relay_step_def flow_datagram_def try_send_response_def split: option.splits)
qed (use assms in \<open>simp_all add: relay_step_def client_datagram_ok reap_idle_flows_ok flow_quiet_ok\<close>)

lemma relay_run_ok:
  "relay_ok (rc_limits config) h st \<Longrightarrow> relay_ok (rc_limits config) h (snd (relay_run config evs st))"
proof (induction config evs st rule: relay_run.induct)
  case (2 config env ev evs st)
  have "relay_ok (rc_limits config) h (snd (relay_step env config ev st))" using 2 by (simp add: relay_step_ok)
  with 2 show ?case by (auto split: prod.splits option.splits)
qed simp

lemma relay_finish_flows [simp]:
  "rs_flows (relay_finish config st) = []" "rs_flows (relay_aborted removal config st) = []"
  by (simp_all add: relay_finish_def relay_aborted_def drop_flows_def Let_def)

lemma drop_flows_heap: "relay_ok limits h st \<Longrightarrow> relay_heap (drop_flows (close_association config (meter f st))) = h"
  by (simp add: drop_flows_def close_association_def relay_ok_def drop_all_entries Let_def)

lemma finish_heap:
  assumes "relay_ok limits h st"
  shows "relay_heap (relay_finish config st) = h" "relay_heap (relay_aborted removal config st) = h"
  using drop_flows_heap [of limits h "meter record_association_closed st"] drop_flows_heap [OF assms] assms
  by (simp_all add: relay_finish_def relay_aborted_def drop_flows_def relay_ok_def drop_all_entries Let_def)

subsection \<open>What leaves the relay\<close>

text \<open>The part of the state that the handling of a client datagram leaves alone.\<close>

definition client_side :: "'r relay_state \<Rightarrow> udp_registry \<times> (socks_addr \<times> u8 list) list \<times> (socket_addr \<times> u8 list) list" where
  "client_side st = (rs_registry st, rs_queue st, rs_to_client st)"

lemma client_side_frame [simp]:
  "client_side (meter f st) = client_side st" "client_side (on_relay_heap g st) = client_side st"
  "client_side (drop_pending p st) = client_side st" "client_side (st\<lparr>rs_flows := flows\<rparr>) = client_side st"
  "client_side (st\<lparr>rs_world := w\<rparr>) = client_side st" "client_side (st\<lparr>rs_sent := out\<rparr>) = client_side st"
  by (simp_all add: client_side_def meter_def on_relay_heap_def drop_pending_def split: option.split)

lemma sent_frame [simp]:
  "rs_sent (meter f st) = rs_sent st" "rs_sent (on_relay_heap g st) = rs_sent st" "rs_sent (drop_pending p st) = rs_sent st"
  "rs_sent (on_association c a st) = rs_sent st"
  by (simp_all add: meter_def on_relay_heap_def drop_pending_def on_association_def split: option.split)

lemma establish_frame:
  "establish l st = (a, st') \<Longrightarrow> client_side st' = client_side st \<and> rs_sent st' = rs_sent st"
  by (auto simp: establish_def Let_def split: prod.splits)

definition quiet_opener :: "'r opener \<Rightarrow> bool" where
  "quiet_opener open_flow \<longleftrightarrow>
    (\<forall>st. client_side (snd (open_flow st)) = client_side st \<and> rs_sent (snd (open_flow st)) = rs_sent st)"

lemma openers_quiet [simp]:
  "quiet_opener (open_direct_flow env config target)" "quiet_opener (open_socks5_flow env config chain l)"
  "quiet_opener (open_shadowsocks_flow env chain m pw l)" "quiet_opener (open_composed_flow env config chain l)"
  by (auto simp: quiet_opener_def open_direct_flow_def open_socks5_flow_def open_shadowsocks_flow_def open_composed_flow_def Let_def
      dest: establish_frame split: sum.splits option.splits prod.splits)

text \<open>The packets an environment makes for a target and a payload.\<close>

definition packets_for :: "('re, 'net, 'r) udp_relay_env \<Rightarrow> socks_addr \<Rightarrow> u8 list \<Rightarrow> (socket_addr \<times> u8 list) set" where
  "packets_for env target payload = {x. \<exists>flow. flow_packet env flow target payload = Some x}"

lemma send_flow_sent:
  "set (rs_sent (send_flow env key e target payload st)) \<subseteq> set (rs_sent st) \<union> packets_for env target payload"
  by (auto simp: send_flow_def packets_for_def split: option.splits prod.splits udp_flow_key.splits if_splits)

lemma send_flow_client_side [simp]: "client_side (send_flow env key e target payload st) = client_side st"
  by (auto simp: send_flow_def split: option.splits prod.splits udp_flow_key.splits)

lemma use_flow_frame:
  assumes "quiet_opener open_flow" "use_flow env config key payload pending open_flow st = (res, st')"
  shows "client_side st' = client_side st \<and> set (rs_sent st') \<subseteq> set (rs_sent st) \<union> packets_for env (key_target key) payload"
proof -
  obtain r s where o: "open_flow st = (r, s)" by fastforce
  with assms(1) have s: "client_side s = client_side st" "rs_sent s = rs_sent st"
    unfolding quiet_opener_def by (metis snd_conv)+
  have send: "set (rs_sent (send_flow env key e t payload u)) \<subseteq> set (rs_sent st) \<union> packets_for env t payload"
    if "rs_sent u = rs_sent st" for e t u using send_flow_sent [of env key e t payload u] that by simp
  show ?thesis
    using assms(2) o s
    by (auto simp: use_flow_def Let_def split: if_splits option.splits open_result.splits dest!: send [THEN subsetD, rotated])
qed


text \<open>What the datagram of an event may send: packets for the target it carries, if that is allowed.\<close>

definition allowed_packets ::
  "('re, 'net, 'r) udp_relay_env \<Rightarrow> ('re, 'net) relay_config \<Rightarrow> u8 list \<Rightarrow> (socket_addr \<times> u8 list) set" where
  "allowed_packets env config packet =
    {x. \<exists>target payload. decode_packet packet (rc_limits config) = Ok (target, payload) \<and>
      validate_standalone_target target (rc_allow_private_egress config) = Ok () \<and> x \<in> packets_for env target payload}"

lemma use_upstream_frame:
  assumes "use_upstream env config target payload u chain l st = (res, st')"
  shows "client_side st' = client_side st \<and> set (rs_sent st') \<subseteq> set (rs_sent st) \<union> packets_for env target payload"
  using assms use_flow_frame [OF openers_quiet(2) [of env config chain l], of env config "Key_Socks5 target u" payload]
    use_flow_frame [OF openers_quiet(3) [of env chain _ _ l], of env config "Key_Shadowsocks target u" payload]
    use_flow_frame [OF openers_quiet(4) [of env config chain l], of env config "Key_Composed target u" payload]
  by (cases "udp_capability chain") (fastforce simp: use_upstream_def)+

lemma handle_client_datagram_frame:
  assumes "handle_client_datagram env config packet client st = (res, st')"
  shows "client_side st' = client_side st \<and> set (rs_sent st') \<subseteq> set (rs_sent st) \<union> allowed_packets env config packet"
proof -
  obtain r where d: "decode_packet packet (rc_limits config) = r" by simp
  have a: "packets_for env target payload \<subseteq> allowed_packets env config packet"
    if "r = Inr (target, payload)" "validate_standalone_target target (rc_allow_private_egress config) = Inr ()" for target payload
    using that d by (auto simp: allowed_packets_def)
  have direct: "client_side st' = client_side s \<and> set (rs_sent st') \<subseteq> set (rs_sent s) \<union> packets_for env target payload"
    if "use_flow env config (Key_Direct target) payload None (open_direct_flow env config target) s = (res, st')" for s target payload
    using use_flow_frame [OF openers_quiet(1) that] by simp
  note up = use_upstream_frame [where st' = st' and res = res]
  show ?thesis
    using assms
    by (cases r) (auto simp: handle_client_datagram_def d Let_def split: sum.splits prod.splits selected_route.splits
      dest!: direct up dest: a [THEN subsetD, rotated 2] subsetD)
qed

text \<open>The datagram is dropped for its sender, or handled behind the pinning.\<close>

lemma client_datagram_cases:
  obtains (dropped) "client_datagram env config client bytes st = meter record_dropped st"
  | (handled) s res st' where
      "s = st \<and> \<not> client_pin (rc_limits config) \<or> client_pin (rc_limits config) \<and> (\<exists>a. pin_client_addr client (association config st) = (Ok (), a) \<and>
         s = on_association config (\<lambda>_. a) st)"
      "handle_client_datagram env config (take (max_datagram_size (rc_limits config)) bytes) client s = (res, st')"
      "client_datagram env config client bytes st =
        (if is_ok res then on_association config (UdpAssociation_touch (rv_now env)) st' else st')"
proof (cases "client_pin (rc_limits config)")
  case True
  obtain r a where p: "pin_client_addr client (association config st) = (r, a)" by fastforce
  let ?s = "on_association config (\<lambda>_. a) st"
  obtain res st' where h: "handle_client_datagram env config (take (max_datagram_size (rc_limits config)) bytes) client ?s = (res, st')"
    by fastforce
  show thesis
  proof (cases r)
    case (Inl e)
    with True p show thesis by (intro dropped) (simp add: client_datagram_def)
  next
    case (Inr x)
    with True p h show thesis by (intro handled [OF _ h]) (auto simp: client_datagram_def is_ok_def split: sum.split)
  qed
next
  case False
  obtain res st' where h: "handle_client_datagram env config (take (max_datagram_size (rc_limits config)) bytes) client st = (res, st')"
    by fastforce
  with False show thesis by (intro handled [OF _ h]) (auto simp: client_datagram_def is_ok_def split: sum.split)
qed

subsection \<open>Answers\<close>

definition event_clients :: "('re, 'net, 'r) udp_relay_env \<times> relay_event \<Rightarrow> socket_addr set" where
  "event_clients x = (case x of (_, Client_Datagram client _) \<Rightarrow> {client} | _ \<Rightarrow> {})"

text \<open>What a datagram received on a flow may make of it, for any entry the table may hold under its key.\<close>

definition event_responses :: "('re, 'net, 'r) udp_relay_env \<times> relay_event \<Rightarrow> (socks_addr \<times> u8 list) set" where
  "event_responses x =
    (case x of
       (env, Flow_Datagram key peer bytes) \<Rightarrow>
         {msg. \<exists>e. flow_ok (key, e) \<and> flow_response env e peer (take 65535 bytes) = Some msg}
     | _ \<Rightarrow> {})"

definition client_ok :: "('re, 'net) relay_config \<Rightarrow> socket_addr set \<Rightarrow> (socks_addr \<times> u8 list) set \<Rightarrow> 'r relay_state \<Rightarrow> bool" where
  "client_ok config A R st \<longleftrightarrow>
    rc_assoc config < length (reg_store (rs_registry st)) \<and> set (rs_queue st) \<subseteq> R \<and>
    set_option (client_udp_addr (association config st)) \<subseteq> A \<and>
    (\<forall>(a, packet) \<in> set (rs_to_client st). client_udp_addr (association config st) = Some a \<and>
       (\<exists>(target, payload) \<in> R. encode_socks5_udp_datagram target payload = Ok packet))"

lemma association_frame: "client_side st' = client_side st \<Longrightarrow> association config st' = association config st"
  by (simp add: client_side_def association_def)

lemma client_ok_cong: "client_side st' = client_side st \<Longrightarrow> client_ok config A R st' = client_ok config A R st"
  using association_frame [of st' st config] by (simp add: client_ok_def client_side_def)

lemma client_ok_meter [simp]: "client_ok config A R (meter f st) = client_ok config A R st"
  by (rule client_ok_cong) simp

lemma association_on [simp]:
  "rc_assoc config < length (reg_store (rs_registry st)) \<Longrightarrow> association config (on_association config f st) = f (association config st)"
  by (simp add: association_def on_association_def on_assoc_def)

lemma on_association_client [simp]:
  "rs_queue (on_association config f st) = rs_queue st" "rs_to_client (on_association config f st) = rs_to_client st"
  "length (reg_store (rs_registry (on_association config f st))) = length (reg_store (rs_registry st))"
  by (simp_all add: on_association_def)

lemma client_ok_touch:
  "client_ok config A R st \<Longrightarrow> client_ok config A R (on_association config (UdpAssociation_touch now) st)"
  by (simp add: client_ok_def UdpAssociation_touch_def)

lemma client_ok_pin:
  assumes "client_ok config A R st" "pin_client_addr client (association config st) = (Ok (), a)" "client \<in> A"
  shows "client_ok config A R (on_association config (\<lambda>_. a) st)"
proof -
  have "client_udp_addr a = Some client" "client_udp_addr (association config st) \<in> {None, Some client}"
    using assms(2) by (auto simp: pin_client_addr_def split: option.splits if_splits)
  with assms show ?thesis by (auto simp: client_ok_def)
qed

lemma client_ok_datagram:
  assumes "client_ok config A R st" "client \<in> A"
  shows "client_ok config A R (client_datagram env config client bytes st)"
proof (cases rule: client_datagram_cases [of env config client bytes st])
  case (handled s res st')
  then have "client_ok config A R s" using assms client_ok_pin by fastforce
  then have "client_ok config A R st'"
    using client_ok_cong [of st' s config A R] handle_client_datagram_frame [OF handled(2)] by simp
  with handled(3) show ?thesis by (simp add: client_ok_touch)
qed (simp add: assms)

lemma client_ok_response:
  assumes "client_ok config A R st" "rs_queue st = msg # q"
  shows "client_ok config A R (send_response env config msg (st\<lparr>rs_queue := q\<rparr>))"
proof -
  have a: "association config (st\<lparr>rs_queue := q\<rparr>) = association config st"
    "association config (meter f (st\<lparr>rs_queue := q, rs_to_client := y\<rparr>)) = association config st" for f y
    by (simp_all add: association_def meter_def)
  have q: "client_ok config A R (st\<lparr>rs_queue := q\<rparr>)" "msg \<in> R" using assms a by (auto simp: client_ok_def)
  have "client_ok config A R (st\<lparr>rs_queue := q, rs_to_client := rs_to_client st @ [(client, packet)]\<rparr>)"
    if "client_udp_addr (association config st) = Some client" "encode_socks5_udp_datagram (fst msg) (snd msg) = Ok packet" for client packet
    using q that by (cases msg) (auto simp: client_ok_def association_def)
  with q show ?thesis by (auto simp: send_response_def a split: option.split sum.split)
qed

lemma client_ok_flow_datagram:
  assumes "client_ok config A R st" "table_ok limits (rs_flows st)" "event_responses (env, Flow_Datagram key peer bytes) \<subseteq> R"
  shows "client_ok config A R (flow_datagram env key peer bytes st)"
proof -
  have "client_ok config A R (st\<lparr>rs_queue := rs_queue st @ [msg]\<rparr>)" if "msg \<in> R" for msg
    using that assms(1) by (auto simp: client_ok_def association_def)
  moreover have "msg \<in> R" if "map_of (rs_flows st) key = Some e" "flow_response env e peer (take 65535 bytes) = Some msg" for e msg
    using that assms(3) table_ok_lookup [OF assms(2) that(1)] by (auto simp: event_responses_def)
  ultimately show ?thesis
    using assms(1) by (auto simp: flow_datagram_def try_send_response_def split: option.split)
qed

lemma relay_step_client_ok:
  assumes "client_ok config A R st" "relay_ok (rc_limits config) h st" "event_clients (env, ev) \<subseteq> A" "event_responses (env, ev) \<subseteq> R"
  shows "client_ok config A R (snd (relay_step env config ev st))"
proof (cases ev)
  case (Client_Datagram client bytes)
  with assms client_ok_datagram show ?thesis by (auto simp: relay_step_def event_clients_def)
next
  case Response_Ready
  with assms client_ok_response show ?thesis by (auto simp: relay_step_def split: list.split)
next
  case (Flow_Datagram key peer bytes)
  with assms client_ok_flow_datagram show ?thesis by (fastforce simp: relay_step_def relay_ok_def)
next
  case Cleanup_Tick
  have "client_side (reap_idle_flows now t st) = client_side st" for now t by (simp add: reap_idle_flows_def Let_def)
  then show ?thesis using assms(1) Cleanup_Tick client_ok_cong [of "snd (relay_step env config ev st)" st config A R] by (simp add: relay_step_def)
next
  case (Flow_Quiet key)
  have "client_side (flow_quiet key st) = client_side st" by (simp add: flow_quiet_def split: option.split)
  then show ?thesis using assms(1) Flow_Quiet client_ok_cong [of "snd (relay_step env config ev st)" st config A R] by (simp add: relay_step_def)
qed (use assms(1) in \<open>simp_all add: relay_step_def\<close>)

lemma relay_run_client_ok:
  assumes "client_ok config A R st" "relay_ok (rc_limits config) h st" "\<And>x. x \<in> set evs \<Longrightarrow> event_clients x \<subseteq> A \<and> event_responses x \<subseteq> R"
  shows "client_ok config A R (snd (relay_run config evs st))"
  using assms
proof (induction config evs st rule: relay_run.induct)
  case (2 config env ev evs st)
  have "client_ok config A R (snd (relay_step env config ev st))" "relay_ok (rc_limits config) h (snd (relay_step env config ev st))"
    using 2(2,3) 2(4) [of "(env, ev)"] by (simp_all add: relay_step_ok relay_step_client_ok)
  then show ?case
    using 2(1) 2(4) by (auto split: prod.splits option.splits)
qed simp


subsection \<open>Where a datagram goes\<close>

text \<open>
  A client's datagram, handled in a state, names a target that is allowed, and the routing selects a flow for it: the
  direct one of the target, or the one through the selected upstream, of the kind its chain supports.
\<close>

definition upstream_flow_key :: "socks_addr \<Rightarrow> upstream_id \<Rightarrow> proxy_chain_spec \<Rightarrow> udp_flow_key option" where
  "upstream_flow_key target u chain =
    (case udp_capability chain of
       SupportedSocks5 \<Rightarrow> Some (Key_Socks5 target u)
     | SupportedShadowsocks _ _ \<Rightarrow> Some (Key_Shadowsocks target u)
     | SupportedComposed \<Rightarrow> Some (Key_Composed target u)
     | _ \<Rightarrow> None)"

definition selects ::
  "('re, 'net, 'r) udp_relay_env \<Rightarrow> ('re, 'net) relay_config \<Rightarrow> socket_addr \<Rightarrow> u8 list \<Rightarrow> 'r relay_state \<Rightarrow>
   socks_addr \<Rightarrow> u8 list \<Rightarrow> udp_flow_key \<Rightarrow> proxy_chain_spec \<Rightarrow> bool" where
  "selects env config client bytes s target payload key chain \<longleftrightarrow>
    decode_packet (take (max_datagram_size (rc_limits config)) bytes) (rc_limits config) = Ok (target, payload) \<and>
    validate_standalone_target target (rc_allow_private_egress config) = Ok () \<and>
    (case fst (service_route (rv_is_match env) (rv_cidr_contains env) (rv_index env) (rc_routing config)
            (datagram_request config client target) (rs_world s)) of
       Inl _ \<Rightarrow> False
     | Inr (Selected_Direct _ _) \<Rightarrow> key = Key_Direct target
     | Inr (Selected_Upstream _ _ u chain' _ _) \<Rightarrow> chain' = chain \<and> upstream_flow_key target u chain = Some key)"

text \<open>
  A flow that was opened for a key: a direct one is connected to the first address its target was looked up to, one through
  an upstream talks to the relay its chain's proxies named, or to the configured server.
\<close>

definition opened_for ::
  "('re, 'net, 'r) udp_relay_env \<Rightarrow> ('re, 'net) relay_config \<Rightarrow> udp_flow_key \<Rightarrow> proxy_chain_spec \<Rightarrow> udp_flow_kind \<Rightarrow> bool" where
  "opened_for env config key chain flow \<longleftrightarrow>
    (case key of
       Key_Direct target \<Rightarrow>
         (\<exists>f others. flow = Flow_Direct f \<and>
            rv_lookup env (host_str target @ '':'' @ show_nat (unat (socks_port target))) = Ok (utf_peer f # others))
     | Key_Socks5 _ _ \<Rightarrow>
         (\<exists>assoc l. flow = Flow_Socks5 (uua_relay_addr assoc) l \<and>
            open_socks5_udp_upstream (rv_udp env) (hd (hops chain)) (rc_upstream_udp_bind config) None = Ok assoc)
     | Key_Shadowsocks _ _ \<Rightarrow>
         (\<exists>addr m password l. flow = Flow_Shadowsocks addr m (password_key_material (rv_crypto env) (as_bytes password)) l \<and>
            udp_capability chain = SupportedShadowsocks m password \<and>
            parse_socket_addr (ep_host (hop_endpoint (hd (hops chain))) @ '':'' @
              show_nat (unat (ep_port (hop_endpoint (hd (hops chain)))))) = Some addr)
     | Key_Composed _ _ \<Rightarrow>
         (\<exists>f l. flow = Flow_Composed f l \<and>
            fst (open_composed_udp_upstream (rv_udp env) (rv_crypto env) (rv_hop_error_fmt env) chain (rc_upstream_udp_bind config)) =
              Ok f))"

text \<open>Behind some of the events, the flow was opened for the key by a datagram among them.\<close>

definition flow_origin ::
  "('re, 'net) relay_config \<Rightarrow> 'r relay_state \<Rightarrow> (('re, 'net, 'r) udp_relay_env \<times> relay_event) list \<Rightarrow> udp_flow_key \<Rightarrow>
   udp_flow_kind \<Rightarrow> bool" where
  "flow_origin config st evs key flow \<longleftrightarrow>
    (\<exists>pre env client bytes post target payload chain. evs = pre @ (env, Client_Datagram client bytes) # post \<and>
      selects env config client bytes (snd (relay_run config pre st)) target payload key chain \<and>
      opened_for env config key chain flow)"

definition sent_for ::
  "('re, 'net) relay_config \<Rightarrow> 'r relay_state \<Rightarrow> (('re, 'net, 'r) udp_relay_env \<times> relay_event) list \<Rightarrow>
   socket_addr \<times> u8 list \<Rightarrow> bool" where
  "sent_for config st evs x \<longleftrightarrow>
    (\<exists>pre env client bytes post target payload key chain flow. evs = pre @ (env, Client_Datagram client bytes) # post \<and>
      selects env config client bytes (snd (relay_run config pre st)) target payload key chain \<and>
      flow_origin config st (pre @ [(env, Client_Datagram client bytes)]) key flow \<and>
      flow_packet env flow target payload = Some x)"

lemma flow_originI:
  "selects env config client bytes (snd (relay_run config evs st)) target payload key chain \<Longrightarrow>
    opened_for env config key chain flow \<Longrightarrow> flow_origin config st (evs @ [(env, Client_Datagram client bytes)]) key flow"
  unfolding flow_origin_def by blast

lemma sent_forI:
  "selects env config client bytes (snd (relay_run config evs st)) target payload key chain \<Longrightarrow>
    flow_origin config st (evs @ [(env, Client_Datagram client bytes)]) key flow \<Longrightarrow> flow_packet env flow target payload = Some x \<Longrightarrow>
    sent_for config st (evs @ [(env, Client_Datagram client bytes)]) x"
  unfolding sent_for_def by blast

lemma flow_origin_mono: "flow_origin config st evs key flow \<Longrightarrow> flow_origin config st (evs @ ys) key flow"
  unfolding flow_origin_def by (metis append.assoc append_Cons)

lemma sent_for_mono: "sent_for config st evs x \<Longrightarrow> sent_for config st (evs @ ys) x"
  unfolding sent_for_def by (metis append.assoc append_Cons)

lemma opened_for_count_sent [simp]: "opened_for env config key chain (count_sent n flow) = opened_for env config key chain flow"
  by (cases flow; cases key) (auto simp: opened_for_def)

lemma flow_origin_count_sent: "flow_origin config st evs key flow \<Longrightarrow> flow_origin config st evs key (count_sent n flow)"
  by (simp add: flow_origin_def)

text \<open>Tables whose flows all have a property that counting does not change.\<close>

definition flows_have :: "(udp_flow_key \<Rightarrow> udp_flow_kind \<Rightarrow> bool) \<Rightarrow> 'r relay_state \<Rightarrow> bool" where
  "flows_have Q st \<longleftrightarrow> (\<forall>(key, e) \<in> set (rs_flows st). Q key (tfe_flow e))"

lemma flows_have_frame [simp]:
  "flows_have Q (meter f st) = flows_have Q st" "flows_have Q (on_association config g st) = flows_have Q st"
  "flows_have Q (drop_pending pending st) = flows_have Q st" "flows_have Q (on_relay_heap h st) = flows_have Q st"
  "flows_have Q (st\<lparr>rs_world := w\<rparr>) = flows_have Q st" "flows_have Q (st\<lparr>rs_queue := q\<rparr>) = flows_have Q st"
  "flows_have Q (st\<lparr>rs_sent := xs\<rparr>) = flows_have Q st" "flows_have Q (st\<lparr>rs_to_client := ys\<rparr>) = flows_have Q st"
  by (simp_all add: flows_have_def)

lemma flows_have_mono: "flows_have Q st \<Longrightarrow> (\<And>k f. Q k f \<Longrightarrow> Q' k f) \<Longrightarrow> flows_have Q' st"
  by (auto simp: flows_have_def)

lemma alist_update_set: "set (AList.update k v xs) \<subseteq> insert (k, v) (set xs)"
  by (induction xs) auto

lemma flows_have_update: "flows_have Q st \<Longrightarrow> Q key (tfe_flow e) \<Longrightarrow> flows_have Q (st\<lparr>rs_flows := AList.update key e (rs_flows st)\<rparr>)"
  using alist_update_set [of key e "rs_flows st"] by (fastforce simp: flows_have_def)

lemma flows_have_lookup: "flows_have Q st \<Longrightarrow> map_of (rs_flows st) key = Some e \<Longrightarrow> Q key (tfe_flow e)"
  by (auto simp: flows_have_def dest!: map_of_SomeD)

definition opener_gives :: "(udp_flow_kind \<Rightarrow> bool) \<Rightarrow> 'r opener \<Rightarrow> bool" where
  "opener_gives P open_flow \<longleftrightarrow>
    (\<forall>s. rs_flows (snd (open_flow s)) = rs_flows s \<and> rs_sent (snd (open_flow s)) = rs_sent s \<and>
      (\<forall>flow. fst (open_flow s) = Opened flow \<longrightarrow> P flow))"

lemma openers_give [simp]:
  "opener_gives (opened_for env config (Key_Direct target) chain) (open_direct_flow env config target)"
  "opener_gives (opened_for env config (Key_Socks5 target u) chain) (open_socks5_flow env config chain l)"
  "udp_capability chain = SupportedShadowsocks m pw \<Longrightarrow>
    opener_gives (opened_for env config (Key_Shadowsocks target u) chain) (open_shadowsocks_flow env chain m pw l)"
  "opener_gives (opened_for env config (Key_Composed target u) chain) (open_composed_flow env config chain l)"
  by (auto simp: opener_gives_def opened_for_def open_direct_flow_def open_socks5_flow_def open_shadowsocks_flow_def
      open_composed_flow_def UdpTargetFlow_new_def first_addr_def establish_def try_bind_Ok_iff drop_pending_def on_relay_heap_def Let_def
      split: sum.splits option.splits prod.splits list.splits if_splits)

text \<open>Sending over a flow of the table, and over one that is opened.\<close>

lemma send_flow_gives:
  assumes "\<And>k f n. Q k f \<Longrightarrow> Q k (count_sent n f)" "flows_have Q st" "Q key (tfe_flow e)"
  shows "flows_have Q (send_flow env key e target payload st)"
    "x \<in> set (rs_sent (send_flow env key e target payload st)) \<Longrightarrow>
      x \<in> set (rs_sent st) \<or> (\<exists>flow. Q key flow \<and> flow_packet env flow target payload = Some x)"
  using assms flows_have_update [OF assms(2), of key "e\<lparr>tfe_flow := count_sent (length payload) (tfe_flow e)\<rparr>"]
  by (auto simp: send_flow_def flows_have_def split: if_splits option.splits udp_flow_key.splits)

lemma use_flow_gives:
  assumes Q: "\<And>k f n. Q k f \<Longrightarrow> Q k (count_sent n f)" "flows_have Q st" "opener_gives (Q key) open_flow"
    and u: "use_flow env config key payload pending open_flow st = (res, st')"
  shows "flows_have Q st' \<and>
    (\<forall>x \<in> set (rs_sent st'). x \<in> set (rs_sent st) \<or> (\<exists>flow. Q key flow \<and> flow_packet env flow (key_target key) payload = Some x))"
proof -
  obtain r s where o: "open_flow st = (r, s)" by fastforce
  with Q(3) have s: "rs_flows s = rs_flows st" "rs_sent s = rs_sent st" "\<And>flow. r = Opened flow \<Longrightarrow> Q key flow"
    unfolding opener_gives_def by (metis fst_conv snd_conv)+
  have fs: "flows_have Q s" using Q(2) s(1) by (simp add: flows_have_def)
  consider (full) "table_full (rc_limits config) key st" "st' = drop_pending pending (meter record_dropped st)"
    | (found) e where "map_of (rs_flows st) key = Some e"
        "st' = drop_pending pending (send_flow env key (TargetFlowEntry_touch (rv_now env) e) (key_target key) payload
          (st\<lparr>rs_flows := AList.update key (TargetFlowEntry_touch (rv_now env) e) (rs_flows st)\<rparr>))"
    | (new) flow e where "r = Opened flow"
        "e = \<lparr>tfe_flow = flow, tfe_target = key_target key, tfe_last_activity = rv_now env, tfe_receiving = True\<rparr>"
        "st' = send_flow env key e (key_target key) payload (meter record_target_flow_created (s\<lparr>rs_flows := AList.update key e (rs_flows s)\<rparr>))"
    | (other) "st' = s \<or> st' = meter record_dropped s"
    using u o by (auto simp: use_flow_def Let_def split: if_splits option.splits open_result.splits)
  then show ?thesis
  proof cases
    case full
    with Q(2) show ?thesis by simp
  next
    case found
    let ?e = "TargetFlowEntry_touch (rv_now env) e"
    have q: "Q key (tfe_flow ?e)" using flows_have_lookup [OF Q(2) found(1)] by (simp add: TargetFlowEntry_touch_def)
    show ?thesis
      using send_flow_gives [OF Q(1) flows_have_update [OF Q(2) q] q, where env = env and target = "key_target key" and payload = payload] found(2) by simp
  next
    case new
    have q: "Q key (tfe_flow e)" using s(3) new by simp
    have "flows_have Q (meter record_target_flow_created (s\<lparr>rs_flows := AList.update key e (rs_flows s)\<rparr>))"
      using flows_have_update [OF fs q] by simp
    from send_flow_gives [OF Q(1) this q, where env = env and target = "key_target key" and payload = payload] new(3) s(2) show ?thesis by simp
  next
    case other
    with fs s show ?thesis by auto
  qed
qed

lemma use_upstream_gives:
  assumes Q: "\<And>k f n. Q k f \<Longrightarrow> Q k (count_sent n f)" "flows_have Q st"
    "\<And>key flow. upstream_flow_key target u chain = Some key \<Longrightarrow> opened_for env config key chain flow \<Longrightarrow> Q key flow"
    and up: "use_upstream env config target payload u chain l st = (res, st')"
  shows "flows_have Q st' \<and> (\<forall>x \<in> set (rs_sent st'). x \<in> set (rs_sent st) \<or>
    (\<exists>key flow. upstream_flow_key target u chain = Some key \<and> Q key flow \<and> flow_packet env flow target payload = Some x))"
proof -
  have use: ?thesis
    if "upstream_flow_key target u chain = Some key" "key_target key = target" "opener_gives (opened_for env config key chain) open_flow"
      "use_flow env config key payload pending open_flow st = (res, st')" for key open_flow pending
  proof -
    have "opener_gives (Q key) open_flow" using that(3) Q(3) [OF that(1)] by (auto simp: opener_gives_def)
    from use_flow_gives [OF Q(1,2) this that(4)] that(1) show ?thesis unfolding that(2) by blast
  qed
  show ?thesis
  proof (cases "udp_capability chain")
    case SupportedSocks5
    with up show ?thesis
      by (intro use [where key = "Key_Socks5 target u", OF _ _ openers_give(2)]) (simp_all add: use_upstream_def upstream_flow_key_def)
  next
    case (SupportedShadowsocks m pw)
    with up show ?thesis
      by (intro use [where key = "Key_Shadowsocks target u", OF _ _ openers_give(3) [OF SupportedShadowsocks]])
        (simp_all add: use_upstream_def upstream_flow_key_def)
  next
    case SupportedComposed
    with up show ?thesis
      by (intro use [where key = "Key_Composed target u", OF _ _ openers_give(4)]) (simp_all add: use_upstream_def upstream_flow_key_def)
  qed (use up Q(2) in \<open>auto simp: use_upstream_def\<close>)
qed

lemma handle_client_datagram_gives:
  assumes Q: "\<And>k f n. Q k f \<Longrightarrow> Q k (count_sent n f)" "flows_have Q st"
    "\<And>target payload key chain flow. selects env config client bytes st target payload key chain \<Longrightarrow>
      opened_for env config key chain flow \<Longrightarrow> Q key flow"
    and h: "handle_client_datagram env config (take (max_datagram_size (rc_limits config)) bytes) client st = (res, st')"
  shows "flows_have Q st' \<and> (\<forall>x \<in> set (rs_sent st'). x \<in> set (rs_sent st) \<or>
    (\<exists>target payload key chain flow. selects env config client bytes st target payload key chain \<and> Q key flow \<and>
      flow_packet env flow target payload = Some x))"
proof (cases "decode_packet (take (max_datagram_size (rc_limits config)) bytes) (rc_limits config)")
  case (Inr d)
  obtain target payload where d: "d = (target, payload)" by fastforce
  obtain sel w where r: "service_route (rv_is_match env) (rv_cidr_contains env) (rv_index env) (rc_routing config)
      (datagram_request config client target) (rs_world st) = (sel, w)" by fastforce
  have fs: "flows_have Q (st\<lparr>rs_world := w\<rparr>)" using Q(2) by simp
  note eval = Inr d r h [unfolded handle_client_datagram_def Inr d sum.case prod.case Let_def r]
  consider (kept) "st' = meter record_dropped st \<or> st' = meter record_dropped (st\<lparr>rs_world := w\<rparr>)"
    | (direct) "\<And>chain. selects env config client bytes st target payload (Key_Direct target) chain"
        "use_flow env config (Key_Direct target) payload None (open_direct_flow env config target) (st\<lparr>rs_world := w\<rparr>) = (res, st')"
    | (upstream) u chain l where
        "\<And>key. upstream_flow_key target u chain = Some key \<Longrightarrow> selects env config client bytes st target payload key chain"
        "use_upstream env config target payload u chain l (st\<lparr>rs_world := w\<rparr>) = (res, st')"
    using eval by (auto simp: selects_def split: sum.splits selected_route.splits)
  then show ?thesis
  proof cases
    case kept
    with Q(2) show ?thesis by auto
  next
    case direct
    have "opener_gives (Q (Key_Direct target)) (open_direct_flow env config target)"
      using openers_give(1) [of env config target] Q(3) [OF direct(1)] by (auto simp: opener_gives_def)
    from use_flow_gives [OF Q(1) fs this direct(2)] direct(1) show ?thesis by fastforce
  next
    case upstream
    from use_upstream_gives [OF Q(1) fs Q(3) [OF upstream(1)] upstream(2)] upstream(1) show ?thesis by fastforce
  qed
qed (use h Q(2) in \<open>auto simp: handle_client_datagram_def\<close>)

lemma selects_frame:
  "rs_world s = rs_world s' \<Longrightarrow> selects env config client bytes s = selects env config client bytes s'"
  by (intro ext) (simp add: selects_def)

lemma relay_step_gives:
  assumes Q: "\<And>k f n. Q k f \<Longrightarrow> Q k (count_sent n f)" "flows_have Q st"
    "\<And>client bytes target payload key chain flow. ev = Client_Datagram client bytes \<Longrightarrow>
      selects env config client bytes st target payload key chain \<Longrightarrow> opened_for env config key chain flow \<Longrightarrow> Q key flow"
  shows "flows_have Q (snd (relay_step env config ev st)) \<and>
    (\<forall>x \<in> set (rs_sent (snd (relay_step env config ev st))). x \<in> set (rs_sent st) \<or>
      (\<exists>client bytes target payload key chain flow. ev = Client_Datagram client bytes \<and>
        selects env config client bytes st target payload key chain \<and> Q key flow \<and> flow_packet env flow target payload = Some x))"
proof (cases ev)
  case (Client_Datagram client bytes)
  show ?thesis
  proof (cases rule: client_datagram_cases [of env config client bytes st])
    case dropped
    with Client_Datagram Q(2) show ?thesis by (simp add: relay_step_def)
  next
    case (handled s res st')
    have s: "rs_world s = rs_world st" "rs_sent s = rs_sent st" "flows_have Q s"
      using handled(1) Q(2) by (auto simp: on_association_def flows_have_def)
    have "flows_have Q st' \<and> (\<forall>x \<in> set (rs_sent st'). x \<in> set (rs_sent st) \<or>
        (\<exists>target payload key chain flow. selects env config client bytes st target payload key chain \<and> Q key flow \<and>
          flow_packet env flow target payload = Some x))"
      using handle_client_datagram_gives [OF Q(1) s(3) Q(3) [OF Client_Datagram] handled(2)] unfolding selects_frame [OF s(1)] s(2) .
    moreover have "snd (relay_step env config ev st) = (if is_ok res then on_association config (UdpAssociation_touch (rv_now env)) st' else st')"
      using Client_Datagram handled(3) by (simp add: relay_step_def)
    ultimately show ?thesis using Client_Datagram by (simp del: split_paired_All split_paired_Ex)
  qed
next
  case Cleanup_Tick
  with Q(2) show ?thesis by (auto simp: relay_step_def reap_idle_flows_def flows_have_def Let_def)
next
  case (Flow_Quiet key)
  have "flows_have Q (flow_quiet key st)"
    using flows_have_lookup [OF Q(2)] flows_have_update [OF Q(2)] Q(2) by (auto simp: flow_quiet_def split: option.split)
  with Flow_Quiet show ?thesis by (auto simp: relay_step_def flow_quiet_def split: option.split)
qed (use Q(2) in \<open>auto simp: relay_step_def send_response_def flow_datagram_def try_send_response_def Let_def
      split: list.splits option.splits sum.splits\<close>)

lemma relay_run_snoc:
  "relay_run config (evs @ [(env, ev)]) st =
    (case relay_run config evs st of (None, s) \<Rightarrow> relay_step env config ev s | (Some r, s) \<Rightarrow> (Some r, s))"
  by (induction evs arbitrary: st) (auto split: prod.splits option.splits)

lemma relay_run_gives:
  assumes "rs_flows st = []" "rs_sent st = []"
  shows "flows_have (flow_origin config st evs) (snd (relay_run config evs st)) \<and>
    (\<forall>x \<in> set (rs_sent (snd (relay_run config evs st))). sent_for config st evs x)"
proof (induction evs rule: rev_induct)
  case Nil
  with assms show ?case by (simp add: flows_have_def)
next
  case (snoc y evs)
  obtain env ev where y: "y = (env, ev)" by fastforce
  obtain r s where s: "relay_run config evs st = (r, s)" by fastforce
  have old: "flows_have (flow_origin config st (evs @ [y])) s" "\<And>x. x \<in> set (rs_sent s) \<Longrightarrow> sent_for config st (evs @ [y]) x"
    using snoc unfolding s snd_conv by (blast intro: flows_have_mono flow_origin_mono sent_for_mono)+
  show ?case
  proof (cases r)
    case None
    have origin: "flow_origin config st (evs @ [y]) key flow"
      if "ev = Client_Datagram client bytes" "selects env config client bytes s target payload key chain" "opened_for env config key chain flow"
      for client bytes target payload key chain flow
      using flow_originI [of env config client bytes evs st, unfolded s snd_conv, OF that(2,3)] that(1) y by simp
    have step: "flows_have (flow_origin config st (evs @ [y])) (snd (relay_step env config ev s)) \<and>
      (\<forall>x \<in> set (rs_sent (snd (relay_step env config ev s))). x \<in> set (rs_sent s) \<or>
        (\<exists>client bytes target payload key chain flow. ev = Client_Datagram client bytes \<and>
          selects env config client bytes s target payload key chain \<and> flow_origin config st (evs @ [y]) key flow \<and>
          flow_packet env flow target payload = Some x))"
      by (rule relay_step_gives) (fact old(1) | erule flow_origin_count_sent | erule (2) origin)+
    have sent: "sent_for config st (evs @ [y]) x"
      if "ev = Client_Datagram client bytes" "selects env config client bytes s target payload key chain"
        "flow_origin config st (evs @ [y]) key flow" "flow_packet env flow target payload = Some x"
      for client bytes target payload key chain flow x
      using sent_forI [of env config client bytes evs st, unfolded s snd_conv, OF that(2) _ that(4)] that(1,3) y by simp
    have "snd (relay_run config (evs @ [y]) st) = snd (relay_step env config ev s)"
      using None s y by (simp add: relay_run_snoc)
    then show ?thesis using step old(2) sent by metis
  qed (use old s y in \<open>simp add: relay_run_snoc\<close>)
qed

subsection \<open>Properties\<close>

lemma relay_ok_start: "rs_flows st = [] \<Longrightarrow> relay_ok limits (relay_heap st) st"
  by (simp add: relay_ok_def table_ok_def)

lemma socks_addr_equivalent_refl [simp]: "socks_addr_equivalent a a"
  by (cases a) simp_all

lemma flow_response_target:
  assumes "flow_ok (key, e)" "flow_response env e peer bytes = Some (target, payload)"
  shows "case key of Key_Composed _ _ \<Rightarrow> True | _ \<Rightarrow> socks_addr_equivalent target (key_target key)"
  using assms by (cases "(key, tfe_flow e)" rule: kind_matches.cases)
    (auto simp: flow_ok_def flow_response_def split: if_splits sum.splits)

subsection \<open>The registry\<close>

text \<open>The relay changes the registry by steps of the registry only.\<close>

lemma registry_frame:
  "client_side st' = client_side st \<Longrightarrow> rs_registry st' = rs_registry st"
  by (simp add: client_side_def)

lemma on_association_touch_step:
  assumes "rc_assoc config < length (reg_store (rs_registry st))"
  shows "reg_step (rs_registry st) (rs_registry (on_association config (UdpAssociation_touch now) st))"
  using step_touch [OF assms, of now] by (simp add: on_association_def)

lemma on_association_pin_step:
  assumes "rc_assoc config < length (reg_store (rs_registry st))" "pin_client_addr client (association config st) = (r, a)"
  shows "reg_step (rs_registry st) (rs_registry (on_association config (\<lambda>_. a) st))"
  using step_pin [OF assms(1), of client] assms(2) by (simp add: on_association_def association_def on_assoc_def)

lemma client_datagram_steps:
  assumes "rc_assoc config < length (reg_store (rs_registry st))"
  shows "reg_step\<^sup>*\<^sup>* (rs_registry st) (rs_registry (client_datagram env config client bytes st))"
proof (cases rule: client_datagram_cases [of env config client bytes st])
  case dropped
  then show ?thesis by (simp add: meter_def)
next
  case (handled s res st')
  have s: "reg_step\<^sup>*\<^sup>* (rs_registry st) (rs_registry s)" "rc_assoc config < length (reg_store (rs_registry s))"
    using handled(1) assms by (auto intro: r_into_rtranclp on_association_pin_step)
  have st': "rs_registry st' = rs_registry s"
    using handle_client_datagram_frame [OF handled(2)] registry_frame by blast
  have "reg_step (rs_registry st') (rs_registry (on_association config (UdpAssociation_touch (rv_now env)) st'))"
    using s(2) st' by (intro on_association_touch_step) simp
  with s st' handled(3) show ?thesis by (auto intro: rtranclp.rtrancl_into_rtrancl)
qed

lemma relay_step_steps:
  assumes "rc_assoc config < length (reg_store (rs_registry st))"
  shows "reg_step\<^sup>*\<^sup>* (rs_registry st) (rs_registry (snd (relay_step env config ev st)))"
proof (cases ev)
  case (Client_Datagram client bytes)
  with client_datagram_steps [OF assms] show ?thesis by (simp add: relay_step_def)
qed (auto simp: relay_step_def reap_idle_flows_def send_response_def flow_datagram_def try_send_response_def flow_quiet_def
      meter_def on_relay_heap_def Let_def split: list.splits option.splits sum.splits)

lemma reg_steps_index: "reg_step\<^sup>*\<^sup>* r r' \<Longrightarrow> k < length (reg_store r) \<Longrightarrow> k < length (reg_store r')"
  using reg_steps_store_le [of r r'] by (simp add: store_le_def)

lemma relay_run_steps:
  "rc_assoc config < length (reg_store (rs_registry st)) \<Longrightarrow> reg_step\<^sup>*\<^sup>* (rs_registry st) (rs_registry (snd (relay_run config evs st)))"
proof (induction config evs st rule: relay_run.induct)
  case (2 config env ev evs st)
  note s = relay_step_steps [OF 2(2), of env ev]
  show ?case
    using s 2(1) reg_steps_index [OF s 2(2)] by (auto split: prod.splits option.splits intro: rtranclp_trans)
qed simp

lemma relay_run_assoc_id:
  assumes "rc_assoc config < length (reg_store (rs_registry st))"
  shows "assoc_id (association config (snd (relay_run config evs st))) = assoc_id (association config st)"
  using reg_steps_store_le [OF relay_run_steps [OF assms]] assms by (simp add: store_le_def assoc_le_def association_def)

lemma drop_flows_registry [simp]: "rs_registry (drop_flows st) = rs_registry st"
  by (simp add: drop_flows_def on_relay_heap_def)

lemma close_association_steps:
  assumes "rc_assoc config < length (reg_store (rs_registry st))"
  shows "reg_step\<^sup>*\<^sup>* (rs_registry st) (rs_registry (close_association config st))"
    "map_of (associations (rs_registry (close_association config st))) (assoc_id (association config st)) = None"
    "\<not> assoc_open (association config (close_association config st))"
proof -
  have "reg_step (rs_registry st) (on_assoc (rc_assoc config) UdpAssociation_close (rs_registry st))"
    using assms by (rule step_close)
  then show "reg_step\<^sup>*\<^sup>* (rs_registry st) (rs_registry (close_association config st))"
    by (auto simp: close_association_def on_association_def Let_def intro: step_remove rtranclp.rtrancl_into_rtrancl)
  show "map_of (associations (rs_registry (close_association config st))) (assoc_id (association config st)) = None"
    by (simp add: close_association_def Registry_remove_def delete_conv' Let_def)
  show "\<not> assoc_open (association config (close_association config st))"
    using assms by (simp add: close_association_def association_def on_association_def on_assoc_def Registry_remove_def
        UdpAssociation_close_def Let_def)
qed

lemma relay_finish_eq:
  "relay_finish config st = drop_flows (close_association config
     (meter (\<lambda>m. (record_target_flow_closed ^^ length (rs_flows st)) (record_association_closed m)) st))"
  by (simp add: relay_finish_def meter_def)

lemma ended_steps:
  assumes "rc_assoc config < length (reg_store (rs_registry st))"
    "st' = drop_flows (close_association config (meter f st))"
  shows "reg_step\<^sup>*\<^sup>* (rs_registry st) (rs_registry st')"
    "map_of (associations (rs_registry st')) (assoc_id (association config st)) = None" "\<not> assoc_open (association config st')"
proof -
  have m: "rs_registry (meter f st) = rs_registry st" "association config (meter f st) = association config st"
    by (simp_all add: meter_def association_def)
  note c = close_association_steps [of config "meter f st", unfolded m, OF assms(1)]
  show "reg_step\<^sup>*\<^sup>* (rs_registry st) (rs_registry st')"
    "map_of (associations (rs_registry st')) (assoc_id (association config st)) = None" "\<not> assoc_open (association config st')"
    using c assms(2) by (simp_all add: association_def)
qed


lemma udp_relay_loop_cases:
  assumes "udp_relay_loop config evs st = (r, st')"
  obtains (running) "r = None" "snd (relay_run config evs (meter record_association_created st)) = st'"
  | (ended) "r \<noteq> None" "st' = relay_finish config (snd (relay_run config evs (meter record_association_created st)))"
  using assms by (auto simp: udp_relay_loop_def split: prod.splits option.splits)

lemma event_clients_iff: "client \<in> event_clients x \<longleftrightarrow> (\<exists>env bytes. x = (env, Client_Datagram client bytes))"
  by (cases x; cases "snd x") (auto simp: event_clients_def)

subsection \<open>Properties\<close>

text \<open>
  C7: Whatever happens to a UDP association, its table of flows has one entry per key, at most the
  configured number of them, each of the kind its key says. The upstreams' counters are the ones before the association,
  with one active lease for every flow of the table that goes through the upstream, and nothing in flight.
  When the loop has ended, and also when its task is aborted, all counters are back at their values before.
\<close>

theorem relay_leases_accounted:
  assumes "rs_flows st = []" "snd (relay_run config evs st) = st'"
  shows "distinct (map fst (rs_flows st')) \<and> length (rs_flows st') \<le> max_targets_per_association (rc_limits config) \<and>
    (\<forall>(key, e) \<in> set (rs_flows st'). kind_matches key (tfe_flow e) \<and> tfe_target e = key_target key) \<and>
    (\<forall>r. active (relay_heap st' r) = active (relay_heap st r) + of_nat (leased r (rs_flows st')) \<and>
      in_flight (relay_heap st' r) = in_flight (relay_heap st r)) \<and>
    relay_heap (relay_finish config st') = relay_heap st \<and> relay_heap (relay_aborted removal config st') = relay_heap st"
proof -
  have ok: "relay_ok (rc_limits config) (relay_heap st) st'"
    using relay_run_ok [OF relay_ok_start [OF assms(1), of "rc_limits config"], of evs] assms(2) by simp
  then show ?thesis
    using finish_heap(1) [OF ok, of config] finish_heap(2) [OF ok, of removal config]
    by (auto simp: relay_ok_def table_ok_def flow_ok_def with_leases_def)
qed

text \<open>
  C10: The relay loop refines the registry of associations: everything it does to the registry is a sequence of the
  registry's own steps, whose invariant therefore holds. When the loop has ended, the association is closed
  and its identifier is no longer registered, so that its slot is free again.
\<close>

theorem relay_loop_refines_registry:
  assumes "udp_relay_loop config evs st = (r, st')" "rc_assoc config < length (reg_store (rs_registry st))"
  shows "reg_step\<^sup>*\<^sup>* (rs_registry st) (rs_registry st') \<and> (reg_inv (rs_registry st) \<longrightarrow> reg_inv (rs_registry st')) \<and>
    (r \<noteq> None \<longrightarrow> map_of (associations (rs_registry st')) (assoc_id (association config st)) = None \<and>
      \<not> assoc_open (association config st'))"
proof -
  let ?s = "meter record_association_created st" and ?run = "snd (relay_run config evs (meter record_association_created st))"
  have m: "rs_registry ?s = rs_registry st" "association config ?s = association config st"
    by (simp_all add: meter_def association_def)
  note run = relay_run_steps [of config ?s evs, unfolded m, OF assms(2)]
  note i = reg_steps_index [OF run assms(2)]
  have inv: "reg_inv (rs_registry st) \<longrightarrow> reg_inv (rs_registry st')" if "reg_step\<^sup>*\<^sup>* (rs_registry st) (rs_registry st')"
    using that by (induction rule: rtranclp_induct) (auto dest: reg_step_inv)
  show ?thesis
  proof (cases rule: udp_relay_loop_cases [OF assms(1)])
    case 1
    with run inv show ?thesis by simp
  next
    case 2
    note e = ended_steps [OF i 2(2) [unfolded relay_finish_eq]]
    have "reg_step\<^sup>*\<^sup>* (rs_registry st) (rs_registry st')" using run e(1) by (rule rtranclp_trans)
    with inv e(2,3) relay_run_assoc_id [of config ?s evs, unfolded m, OF assms(2)] show ?thesis by simp
  qed
qed

text \<open>
  C9: Every packet the relay sends to a target or an upstream was made for a datagram the client sent,
  and goes where that datagram was routed. The datagram decodes to a target and a payload, the target passes the
  validation of the relay (no port 0, no unspecified, multicast or broadcast address and, unless allowed, no
  private one), and the routing, in the state the relay was in when the datagram came, selects a flow key for
  this target: the direct one, or the one through the selected upstream. The packet is what a flow opened for this
  very key makes of the target and the payload. Such a flow was opened by this datagram or an earlier one of
  the run that was routed to the same key: a direct one is connected to the first address its target was looked up
  to, the others talk to the relay that the proxies of the selected chain named, or to its server.
\<close>

theorem relay_sends_validated:
  assumes "rs_flows st = []" "rs_sent st = []" "(dest, packet) \<in> set (rs_sent (snd (relay_run config evs st)))"
  shows "\<exists>pre env client bytes post target payload key chain flow. evs = pre @ (env, Client_Datagram client bytes) # post \<and>
    selects env config client bytes (snd (relay_run config pre st)) target payload key chain \<and>
    flow_origin config st (pre @ [(env, Client_Datagram client bytes)]) key flow \<and>
    flow_packet env flow target payload = Some (dest, packet)"
  using relay_run_gives [OF assms(1,2), of config evs] assms(3) unfolding sent_for_def by blast

text \<open>
  C8: The client is answered at one address only, the one its first datagram came from (or that was pinned before),
  and every packet sent there encodes what a flow received: for a direct flow, and one through a
  SOCKS5 or a Shadowsocks upstream, under an address that stands for the target the flow was opened for.
\<close>

theorem relay_answers_pinned:
  assumes "rs_flows st = []" "rs_queue st = []" "rs_to_client st = []" "rc_assoc config < length (reg_store (rs_registry st))"
    "snd (relay_run config evs st) = st'" "(client, packet) \<in> set (rs_to_client st')"
  shows "client_udp_addr (association config st') = Some client \<and>
    (client_udp_addr (association config st) = Some client \<or> (\<exists>env bytes. (env, Client_Datagram client bytes) \<in> set evs)) \<and>
    (\<exists>env key e peer bytes target payload. (env, Flow_Datagram key peer bytes) \<in> set evs \<and>
      flow_response env e peer (take 65535 bytes) = Some (target, payload) \<and> kind_matches key (tfe_flow e) \<and>
      (case key of Key_Composed _ _ \<Rightarrow> True | _ \<Rightarrow> socks_addr_equivalent target (key_target key)) \<and>
      encode_socks5_udp_datagram target payload = Ok packet)"
proof -
  let ?A = "set_option (client_udp_addr (association config st)) \<union> (\<Union>x \<in> set evs. event_clients x)"
  let ?R = "\<Union>x \<in> set evs. event_responses x"
  have "client_ok config ?A ?R st" using assms(1-4) by (simp add: client_ok_def)
  then have ok: "client_ok config ?A ?R st'"
    using relay_run_client_ok [of config ?A ?R st "relay_heap st" evs] relay_ok_start [OF assms(1)] assms(5) by blast
  with assms(6) have c: "client_udp_addr (association config st') = Some client" "client \<in> ?A"
    by (auto simp: client_ok_def)
  from ok assms(6) obtain x target payload where
    x: "x \<in> set evs" "(target, payload) \<in> event_responses x" "encode_socks5_udp_datagram target payload = Ok packet"
    unfolding client_ok_def by fastforce
  then obtain env key peer bytes e where
    "x = (env, Flow_Datagram key peer bytes)" "flow_ok (key, e)" "flow_response env e peer (take 65535 bytes) = Some (target, payload)"
    by (auto simp: event_responses_def split: relay_event.splits prod.splits)
  moreover have "client_udp_addr (association config st) = Some client \<or> (\<exists>env bytes. (env, Client_Datagram client bytes) \<in> set evs)"
    using c(2) by (auto simp: event_clients_iff)
  ultimately show ?thesis
    using c(1) x flow_response_target by (fastforce simp: flow_ok_def)
qed


subsection \<open>A run\<close>

text \<open>A resolver sends a query to 8.8.8.8:53 and gets the answer, over a direct flow.\<close>

definition demo_relay_env :: "(unit, unit, deterministic_random) udp_relay_env" where
  "demo_relay_env =
    \<lparr>rv_now = 5, rv_is_match = (\<lambda>_ _. False), rv_cidr_contains = (\<lambda>_ _. False), rv_index = DeterministicRandom_index,
     rv_udp = quiet_env, rv_crypto = plain_crypto, rv_hop_error_fmt = (\<lambda>_. []),
     rv_lookup = (\<lambda>_. Ok [SocketAddr (V4 [8, 8, 8, 8]) 53]), rv_connect = (\<lambda>_. True), rv_send = (\<lambda>_ _. True), rv_random = (\<lambda>_. [])\<rparr>"

definition demo_relay_config :: "(unit, unit) relay_config" where
  "demo_relay_config =
    \<lparr>rc_routing = SharedRoutingService_new (Router_new [] Action_Direct), rc_limits = UdpLimits_default, rc_listener = ''main'',
     rc_identity = Anonymous, rc_allow_private_egress = False, rc_upstream_udp_bind = SocketAddr (V4 [0, 0, 0, 0]) 0, rc_assoc = 0\<rparr>"

definition demo_relay_state :: "deterministic_random relay_state" where
  "demo_relay_state =
    \<lparr>rs_flows = [], rs_registry = snd (create_association 0 ''main'' None Anonymous 0 (UdpAssociationRegistry_new UdpLimits_default)),
     rs_metrics = UdpMetrics_new, rs_world = sample_world Kind_FirstAvailable, rs_queue = [], rs_sent = [], rs_to_client = []\<rparr>"

definition demo_client :: socket_addr where "demo_client = SocketAddr (V4 [10, 0, 0, 7]) 4000"

definition demo_events :: "((unit, unit, deterministic_random) udp_relay_env \<times> relay_event) list" where
  "demo_events =
    [(demo_relay_env, Client_Datagram demo_client [0, 0, 0, 1, 8, 8, 8, 8, 0, 53, 1, 2]),
     (demo_relay_env, Flow_Datagram (Key_Direct (Socks_IPv4 [8, 8, 8, 8] 53)) (SocketAddr (V4 [8, 8, 8, 8]) 53) [9]),
     (demo_relay_env, Response_Ready), (demo_relay_env, Cancelled)]"

lemma demo_encode: "encode_socks5_udp_datagram (Socks_IPv4 [8, 8, 8, 8] 53) payload = Ok ([0, 0, 0, 1, 8, 8, 8, 8, 0, 53] @ payload)"
  by (simp add: encode_socks5_udp_datagram_def socks5_consts to_be_bytes_def)

lemma demo_decode: "decode_packet [0, 0, 0, 1, 8, 8, 8, 8, 0, 53, 1, 2] UdpLimits_default = Ok (Socks_IPv4 [8, 8, 8, 8] 53, [1, 2])"
  by (simp add: decode_packet_def UdpLimits_default_def decode_socks5_udp_datagram_def decode_udp_target_def from_be_bytes_def socks5_consts MAX_UDP_DATAGRAM_SIZE_def)

lemma demo_valid: "validate_standalone_target (Socks_IPv4 [8, 8, 8, 8] 53) False = Ok ()"
  by (simp add: validate_standalone_target_def v4_is_multicast_def v4_is_broadcast_def v4_is_unspecified_def is_private_ipv4_def
      v4_is_loopback_def v4_is_private_def v4_is_link_local_def)

lemma demo_route:
  "service_route m c i (rc_routing demo_relay_config) request w = (Ok (Selected_Direct (Decision_Direct DEFAULT_RULE_ID) Normal), w)"
  by (simp add: demo_relay_config_def service_route_def SharedRoutingService_new_def decide_def Router_new_def Router_select_def Let_def)


lemma demo_direct: "UdpTargetFlow_new demo_relay_env target bind = Ok \<lparr>utf_peer = SocketAddr (V4 [8, 8, 8, 8]) 53, utf_packets_up = 0, utf_bytes_up = 0\<rparr>"
  by (simp add: UdpTargetFlow_new_def demo_relay_env_def quiet_env_def first_addr_def)

lemma demo_config [simp]:
  "rc_limits demo_relay_config = UdpLimits_default" "rc_allow_private_egress demo_relay_config = False"
  "rc_assoc demo_relay_config = 0" "max_datagram_size UdpLimits_default = 65535" "client_pin UdpLimits_default"
  "max_targets_per_association UdpLimits_default = 64"
  by (simp_all add: demo_relay_config_def UdpLimits_default_def)

lemma demo_env [simp]:
  "rv_now demo_relay_env = 5" "rv_send demo_relay_env dest packet"
  by (simp_all add: demo_relay_env_def)

lemma demo_state [simp]:
  "rs_flows demo_relay_state = []" "rs_queue demo_relay_state = []" "rs_to_client demo_relay_state = []" "rs_sent demo_relay_state = []"
  "reg_store (rs_registry demo_relay_state) = [UdpAssociation_new 0 1 ''main'' None Anonymous 0]"
  by (simp_all add: demo_relay_state_def create_association_def UdpAssociationRegistry_new_def UdpLimits_default_def listener_count_def)

lemmas demo_defs = demo_decode demo_valid demo_route demo_direct demo_encode relay_step_def client_datagram_def handle_client_datagram_def
  use_flow_def table_full_def open_direct_flow_def send_flow_def flow_packet_def flow_datagram_def flow_response_def try_send_response_def
  send_response_def RESPONSE_CHANNEL_CAPACITY_def TargetFlowEntry_touch_def association_def on_association_def on_assoc_def meter_def
  pin_client_addr_def UdpAssociation_touch_def UdpAssociation_new_def

lemma demo_run:
  "rs_sent (snd (relay_run demo_relay_config demo_events demo_relay_state)) = [(SocketAddr (V4 [8, 8, 8, 8]) 53, [1, 2])]"
  "rs_to_client (snd (relay_run demo_relay_config demo_events demo_relay_state)) = [(demo_client, [0, 0, 0, 1, 8, 8, 8, 8, 0, 53, 9])]"
  "fst (udp_relay_loop demo_relay_config demo_events demo_relay_state) = Some (Ok ())"
  by (simp_all add: demo_defs demo_events_def Let_def udp_relay_loop_def)


theorem relay_leases_accounted_witness:
  "relay_heap (relay_finish demo_relay_config (snd (relay_run demo_relay_config demo_events demo_relay_state))) = relay_heap demo_relay_state"
  using relay_leases_accounted [of demo_relay_state demo_relay_config demo_events] by simp

theorem relay_loop_refines_registry_witness:
  "map_of (associations (rs_registry (snd (udp_relay_loop demo_relay_config demo_events demo_relay_state)))) 1 = None"
proof -
  obtain r st' where e: "udp_relay_loop demo_relay_config demo_events demo_relay_state = (r, st')" by fastforce
  have "r \<noteq> None" using demo_run(3) e by simp
  with relay_loop_refines_registry [OF e] e show ?thesis by (simp add: association_def UdpAssociation_new_def)
qed

theorem relay_sends_validated_witness:
  "\<exists>pre env client bytes post target payload key chain flow. demo_events = pre @ (env, Client_Datagram client bytes) # post \<and>
    selects env demo_relay_config client bytes (snd (relay_run demo_relay_config pre demo_relay_state)) target payload key chain \<and>
    flow_origin demo_relay_config demo_relay_state (pre @ [(env, Client_Datagram client bytes)]) key flow \<and>
    flow_packet env flow target payload = Some (SocketAddr (V4 [8, 8, 8, 8]) 53, [1, 2])"
  by (rule relay_sends_validated) (simp_all add: demo_run(1))

theorem relay_answers_pinned_witness:
  "client_udp_addr (association demo_relay_config (snd (relay_run demo_relay_config demo_events demo_relay_state))) = Some demo_client"
  using relay_answers_pinned [of demo_relay_state demo_relay_config demo_events _ demo_client] demo_run(2) by simp

subsection \<open>What the relay does not do\<close>

text \<open>
  The client's address is only known through pinning: an association without \<^verbatim>\<open>client_pin\<close> that starts
  with no address never answers.
\<close>

lemma unpinned_step:
  assumes "\<not> client_pin (rc_limits config)" "client_udp_addr (association config st) = None"
    "rc_assoc config < length (reg_store (rs_registry st))"
  shows "client_udp_addr (association config (snd (relay_step env config ev st))) = None \<and>
    rs_to_client (snd (relay_step env config ev st)) = rs_to_client st"
proof (cases ev)
  case (Client_Datagram client bytes)
  show ?thesis
  proof (cases rule: client_datagram_cases [of env config client bytes st])
    case dropped
    with assms Client_Datagram show ?thesis by (simp add: relay_step_def association_def meter_def)
  next
    case (handled s res st')
    then have "client_side st' = client_side st" using assms(1) handle_client_datagram_frame [OF handled(2)] by simp
    then have "rs_registry st' = rs_registry st" "rs_to_client st' = rs_to_client st" by (simp_all add: client_side_def)
    with handled(3) assms Client_Datagram show ?thesis
      by (auto simp: relay_step_def association_def on_association_def on_assoc_def UdpAssociation_touch_def)
  qed
next
  case Response_Ready
  have "association config (st\<lparr>rs_queue := q\<rparr>) = association config st" for q by (simp add: association_def)
  with Response_Ready assms show ?thesis by (simp add: relay_step_def send_response_def split: list.split)
qed (use assms in \<open>auto simp: relay_step_def reap_idle_flows_def flow_datagram_def try_send_response_def flow_quiet_def association_def
      meter_def on_relay_heap_def Let_def split: option.splits\<close>)

lemma unpinned_never_answered:
  assumes "\<not> client_pin (rc_limits config)" "client_udp_addr (association config st) = None"
    "rc_assoc config < length (reg_store (rs_registry st))"
  shows "rs_to_client (snd (relay_run config evs st)) = rs_to_client st"
  using assms
proof (induction config evs st rule: relay_run.induct)
  case (2 config env ev evs st)
  then show ?case
    using unpinned_step [OF 2(2-4), of env ev] reg_steps_index [OF relay_step_steps [OF 2(4)] 2(4), of env ev]
    by (auto split: prod.splits option.splits)
qed simp

text \<open>The buffer already has the configured size, so that the size check of the handler never fires.\<close>

lemma oversized_truncated:
  "decode_packet (take (max_datagram_size limits) bytes) limits \<noteq> Err (DatagramTooLarge n m)"
  by (simp add: decode_packet_def map_err_def split: sum.split)

text \<open>A flow to a domain through a SOCKS5 proxy drops what the proxy reports under the address it resolved.\<close>

lemma domain_answer_dropped:
  assumes "tfe_flow e = Flow_Socks5 relay_addr l" "tfe_target e = Socks_Domain d port" "parse_ip_addr d = None"
    "decode_socks5_udp_datagram bytes = Ok (Socks_IPv4 ip port', payload)"
  shows "flow_response env e peer bytes = None"
  using assms by (simp add: flow_response_def domain_equivalent_def)

text \<open>A composed flow takes answers from any sender and for any target.\<close>

lemma composed_answer_unchecked:
  assumes "tfe_flow e = Flow_Composed f l" "decode_response (rv_crypto env) (cf_stack f) bytes = Ok (target, payload)"
  shows "flow_response env e peer bytes = Some (target_to_socks_addr target, payload)"
  using assms by (simp add: flow_response_def)

text \<open>
  The receiving task ends when nothing comes for the idle time, but sending keeps the entry: later answers on
  such a flow are lost.
\<close>

lemma quiet_flow_deaf:
  assumes "map_of (rs_flows st) key = Some e"
  shows "flow_datagram env key peer bytes (flow_quiet key st) = flow_quiet key st"
  using assms by (simp add: flow_datagram_def flow_quiet_def update_conv')

lemma touched_flow_stays_deaf: "tfe_receiving (TargetFlowEntry_touch now e) = tfe_receiving e"
  by (simp add: TargetFlowEntry_touch_def)

text \<open>The guard of an aborted relay leaves the gauge of the target flows where it was.\<close>

lemma abort_keeps_flow_gauge: "um_target_flows_active (rs_metrics (relay_aborted removal config st)) = um_target_flows_active (rs_metrics st)"
  by (simp add: relay_aborted_def drop_flows_def close_association_def on_association_def on_relay_heap_def meter_def
      record_association_closed_def Let_def)

end
