(* ===== verification/Udp_Standalone_Facts.thy ===== *)
theory Udp_Standalone_Facts
  imports Udp_Standalone Udp_Relay_Facts
begin

text \<open>
  Facts of the standalone UDP listeners: clients and flows stay within their limits, the running total and the leases of
  the upstreams are exact, everything is given back at the end, and a client is answered only by the flows it
  opened itself.
\<close>

subsection \<open>Counting over the clients\<close>

lemma leased_Nil [simp]: "leased r [] = 0"
  by (simp add: leased_def)

lemma sum_update:
  fixes f :: "'b \<Rightarrow> nat"
  assumes "map_of xs k = Some v"
  shows "sum_list (map (f \<circ> snd) (AList.update k v' xs)) + f v = sum_list (map (f \<circ> snd) xs) + f v'"
  using assms by (induction xs) auto

lemma leased_all_flows: "leased r (all_flows cs) = sum_list (map ((leased r \<circ> cfs_target_flows) \<circ> snd) cs)"
  by (induction cs) (simp_all add: all_flows_def leased_append)

lemma length_all_flows: "length (all_flows cs) = sum_list (map ((length \<circ> cfs_target_flows) \<circ> snd) cs)"
  by (induction cs) (simp_all add: all_flows_def)

lemma leased_client_update:
  assumes "map_of cs c = Some s"
  shows "leased r (all_flows (AList.update c s' cs)) + leased r (cfs_target_flows s) =
    leased r (all_flows cs) + leased r (cfs_target_flows s')"
  using sum_update [OF assms, of "leased r \<circ> cfs_target_flows" s'] by (simp add: leased_all_flows)

lemma length_client_update:
  assumes "map_of cs c = Some s"
  shows "length (all_flows (AList.update c s' cs)) + length (cfs_target_flows s) = length (all_flows cs) + length (cfs_target_flows s')"
  using sum_update [OF assms, of "length \<circ> cfs_target_flows" s'] by (simp add: length_all_flows)

lemma leased_same:
  assumes "map_of flows key = Some e" "flow_lease (tfe_flow e') = flow_lease (tfe_flow e)"
  shows "leased r (AList.update key e' flows) = leased r flows"
  using assms by (induction flows) (auto simp: leased_def)

lemma leased_new:
  "map_of flows key = None \<Longrightarrow> leased r (AList.update key e flows) =
    leased r flows + (if flow_lease (tfe_flow e) = Some (ActiveLease r) then 1 else 0)"
  by (simp add: alist_update_none leased_append) (simp add: leased_def)

lemma length_update_same: "map_of flows key \<noteq> None \<Longrightarrow> length (AList.update key e flows) = length flows"
  by (induction flows) auto

lemma clients_same:
  assumes "map_of cs c = Some s" "\<And>r. leased r (cfs_target_flows s') = leased r (cfs_target_flows s)"
  shows "with_leases (all_flows (AList.update c s' cs)) h = with_leases (all_flows cs) h"
proof -
  have "leased r (all_flows (AList.update c s' cs)) = leased r (all_flows cs)" for r
    using leased_client_update [OF assms(1), of r s'] assms(2) by simp
  then show ?thesis by (simp add: with_leases_def)
qed

lemma clients_leased:
  assumes "map_of cs c = Some s"
    "\<And>r. leased r (cfs_target_flows s') = leased r (cfs_target_flows s) + (if l = Some (ActiveLease r) then 1 else 0)"
  shows "with_leases (all_flows (AList.update c s' cs)) h = add_lease l (with_leases (all_flows cs) h)"
proof -
  have "leased r (all_flows (AList.update c s' cs)) = leased r (all_flows cs) + (if l = Some (ActiveLease r) then 1 else 0)" for r
    using leased_client_update [OF assms(1), of r s'] assms(2) by simp
  then show ?thesis
    by (cases l; cases "the l") (auto simp: with_leases_def add_lease_def counter_defs fun_eq_iff)
qed

subsection \<open>The invariant of a listener\<close>

definition clients_ok :: "udp_limits \<Rightarrow> (socket_addr \<times> client_flow_state) list \<Rightarrow> bool" where
  "clients_ok limits cs \<longleftrightarrow>
    distinct (map fst cs) \<and> length cs \<le> max_standalone_flows limits \<and> length (all_flows cs) \<le> max_standalone_flows limits \<and>
    (\<forall>x \<in> set cs. table_ok limits (cfs_target_flows (snd x)))"

abbreviation ss_heap :: "'r standalone_state \<Rightarrow> up_heap" where
  "ss_heap st \<equiv> w_heap (ss_world st)"

definition standalone_ok :: "udp_limits \<Rightarrow> up_heap \<Rightarrow> 'r standalone_state \<Rightarrow> bool" where
  "standalone_ok limits h st \<longleftrightarrow>
    clients_ok limits (ss_clients st) \<and> ss_total st = length (all_flows (ss_clients st)) \<and>
    ss_heap st = with_leases (all_flows (ss_clients st)) h"

lemma ss_frame [simp]:
  "ss_clients (ss_meter f st) = ss_clients st" "ss_total (ss_meter f st) = ss_total st" "ss_world (ss_meter f st) = ss_world st"
  "ss_clients (ss_cipher_meter g st) = ss_clients st" "ss_total (ss_cipher_meter g st) = ss_total st"
  "ss_world (ss_cipher_meter g st) = ss_world st" "ss_clients (on_ss_heap k st) = ss_clients st" "ss_total (on_ss_heap k st) = ss_total st"
  "ss_heap (on_ss_heap k st) = k (ss_heap st)" "ss_total (set_flows c s flows st) = ss_total st" "ss_world (set_flows c s flows st) = ss_world st"
  "ss_clients (set_flows c s flows st) = AList.update c (s\<lparr>cfs_target_flows := flows\<rparr>) (ss_clients st)"
  by (simp_all add: ss_meter_def ss_cipher_meter_def on_ss_heap_def set_flows_def)

lemma standalone_ok_frame [simp]:
  "standalone_ok limits h (ss_meter f st) = standalone_ok limits h st"
  "standalone_ok limits h (ss_cipher_meter g st) = standalone_ok limits h st"
  "standalone_ok limits h (st\<lparr>ss_queue := q\<rparr>) = standalone_ok limits h st"
  "standalone_ok limits h (st\<lparr>ss_to_client := x\<rparr>) = standalone_ok limits h st"
  by (simp_all add: standalone_ok_def)

lemma clients_ok_lookup: "clients_ok limits cs \<Longrightarrow> map_of cs c = Some s \<Longrightarrow> table_ok limits (cfs_target_flows s)"
  by (auto simp: clients_ok_def dest: map_of_SomeD)

lemma clients_ok_update:
  assumes "clients_ok limits cs" "map_of cs c = Some s" "table_ok limits (cfs_target_flows s')"
    "length (all_flows (AList.update c s' cs)) \<le> max_standalone_flows limits"
  shows "clients_ok limits (AList.update c s' cs)"
proof -
  have "set (AList.update c s' cs) \<subseteq> insert (c, s') (set cs)" by (induction cs) auto
  then show ?thesis
    using assms length_update_same [of cs c s'] by (auto simp: clients_ok_def distinct_update length_update_same)
qed


lemma standalone_send_frame [simp]:
  "ss_total (standalone_send env c s flows key e payload st) = ss_total st"
  "ss_world (standalone_send env c s flows key e payload st) = ss_world st"
  by (auto simp: standalone_send_def Let_def split: option.split prod.split)

lemma standalone_send_clients:
  assumes "table_ok limits flows" "map_of flows key = Some e"
  obtains flows' where "ss_clients (standalone_send env c s flows key e payload st) = AList.update c (s\<lparr>cfs_target_flows := flows'\<rparr>) (ss_clients st)"
    "table_ok limits flows'" "\<And>r. leased r flows' = leased r flows" "length flows' = length flows" "fst ` set flows' = fst ` set flows"
proof -
  let ?flows = "AList.update key (e\<lparr>tfe_flow := count_sent (length payload) (tfe_flow e)\<rparr>) flows"
  have "ss_clients (standalone_send env c s flows key e payload st) \<in>
      {AList.update c (s\<lparr>cfs_target_flows := flows\<rparr>) (ss_clients st), AList.update c (s\<lparr>cfs_target_flows := ?flows\<rparr>) (ss_clients st)}"
    by (auto simp: standalone_send_def Let_def split: option.split prod.split)
  moreover have "table_ok limits ?flows"
    using table_ok_lookup [OF assms] by (intro table_ok_update [OF assms]) (simp_all add: flow_ok_def)
  moreover have "fst ` set ?flows = fst ` set flows"
    using assms(2) by (force simp: dom_update dest: map_of_SomeD)
  moreover have "leased r ?flows = leased r flows" for r by (rule leased_same [OF assms(2)]) simp
  moreover have "length ?flows = length flows" using assms(2) by (simp add: length_update_same)
  ultimately show thesis using that [of flows] that [of ?flows] assms(1) by blast
qed

definition settles :: "udp_flow_key \<Rightarrow> pending_lease option \<Rightarrow> flow_opener \<Rightarrow> bool" where
  "settles key pending opener \<longleftrightarrow>
    (\<forall>h. case opener (held pending h) of
       (None, h') \<Rightarrow> h' = h
     | (Some flow, h') \<Rightarrow> kind_matches key flow \<and> h' = add_lease (flow_lease flow) h)"

lemma settlesD:
  assumes "settles key pending opener"
  shows "opener (held pending h) = (None, h') \<Longrightarrow> h' = h"
    "opener (held pending h) = (Some flow, h') \<Longrightarrow> kind_matches key flow \<and> h' = add_lease (flow_lease flow) h"
  using spec [OF assms [unfolded settles_def], of h] by simp_all

lemma pending_dropped [simp]: "lease_state l = Pending \<Longrightarrow> PendingLease_drop l (held (Some l) h) = h"
  by (simp add: held_def PendingLease_drop_def)

lemma established_held:
  "lease_state l = Pending \<Longrightarrow> established l (held (Some l) h) = (ActiveLease (lease_upstream l), active_inc (lease_upstream l) h)"
  by (simp add: held_def established_defs PendingLease_drop_def)

lemma drop_lease_held: "is_pending pending \<Longrightarrow> drop_lease pending (held pending h) = h"
  by (auto simp: drop_lease_def is_pending_def held_def PendingLease_drop_def split: option.split)

lemma builders_settle:
  "settles (Key_Direct t) None (build_direct_flow env target)"
  "lease_state l = Pending \<Longrightarrow> settles (Key_Socks5 t u) (Some l) (build_socks5_flow env chain l)"
  "lease_state l = Pending \<Longrightarrow> settles (Key_Shadowsocks t u) (Some l) (build_shadowsocks_flow env chain m pw l)"
  "lease_state l = Pending \<Longrightarrow>
    settles (Key_Composed t u) (Some l) (\<lambda>h. case established l h of (a, h') \<Rightarrow> build_composed_flow env chain a h')"
  by (auto simp: settles_def build_direct_flow_def held_def [of None] add_lease_def build_socks5_flow_def build_shadowsocks_flow_def
      build_composed_flow_def established_held ActiveLease_drop_def split: sum.split)

lemma use_client_flow_ok:
  assumes ok: "clients_ok (sc_limits config) (ss_clients st)" "ss_total st = length (all_flows (ss_clients st))"
      "ss_heap st = held pending (with_leases (all_flows (ss_clients st)) h)"
    and client: "map_of (ss_clients st) c = Some s" and pending: "is_pending pending"
    and settle: "\<And>h. settle (held pending h) = h" and opener: "settles key pending opener"
  shows "standalone_ok (sc_limits config) h (use_client_flow env config c s key payload pending settle opener st)"
proof (cases "can_use_flow s key (ss_total st) (sc_limits config)")
  case False
  with ok drop_lease_held [OF pending] show ?thesis
    by (simp add: use_client_flow_def Let_def standalone_ok_def)
next
  case usable: True
  let ?flows = "cfs_target_flows s"
  have t: "table_ok (sc_limits config) ?flows" using clients_ok_lookup [OF ok(1) client] .
  have finish: "standalone_ok (sc_limits config) h st'"
    if "ss_clients st' = AList.update c (s\<lparr>cfs_target_flows := flows'\<rparr>) (ss_clients st)" "table_ok (sc_limits config) flows'"
      "\<And>r. leased r flows' = leased r ?flows + (if l = Some (ActiveLease r) then 1 else 0)" "length flows' = length ?flows + n"
      "ss_total st + n \<le> max_standalone_flows (sc_limits config)" "ss_total st' = ss_total st + n"
      "ss_heap st' = add_lease l (with_leases (all_flows (ss_clients st)) h)" for st' flows' l n
  proof -
    let ?s = "s\<lparr>cfs_target_flows := flows'\<rparr>"
    have len: "length (all_flows (AList.update c ?s (ss_clients st))) = ss_total st + n"
      using length_client_update [OF client, of ?s] that(4) ok(2) by simp
    have "clients_ok (sc_limits config) (AList.update c ?s (ss_clients st))"
      using clients_ok_update [OF ok(1) client, of ?s] that(2,5) len by simp
    with that len clients_leased [OF client, of ?s l h] show ?thesis by (simp add: standalone_ok_def)
  qed
  show ?thesis
  proof (cases "map_of ?flows key")
    case (Some e)
    let ?e = "TargetFlowEntry_touch (rv_now env) e"
    have keep: "kind_matches key (tfe_flow ?e)" "tfe_target ?e = key_target key" "flow_lease (tfe_flow ?e) = flow_lease (tfe_flow e)"
      using table_ok_lookup [OF t Some] by (simp_all add: flow_ok_def TargetFlowEntry_touch_def)
    have t': "table_ok (sc_limits config) (AList.update key ?e ?flows)" by (rule table_ok_update [OF t Some keep(1,2)])
    have m: "map_of (AList.update key ?e ?flows) key = Some ?e" by (simp add: update_conv')
    obtain flows' where f: "ss_clients (standalone_send env c s (AList.update key ?e ?flows) key ?e payload st) =
        AList.update c (s\<lparr>cfs_target_flows := flows'\<rparr>) (ss_clients st)" "table_ok (sc_limits config) flows'"
      "\<And>r. leased r flows' = leased r (AList.update key ?e ?flows)" "length flows' = length (AList.update key ?e ?flows)"
      by (rule standalone_send_clients [OF t' m, of env c s payload st]) (rule that)
    have "ss_total st \<le> max_standalone_flows (sc_limits config)" using ok(1,2) by (simp add: clients_ok_def)
    then show ?thesis
      using usable Some ok(3) f leased_same [OF Some keep(3)] settle
      by (simp add: use_client_flow_def Let_def finish [of _ flows' None 0] length_update_same add_lease_def)
  next
    case None
    obtain res h' where o: "opener (ss_heap st) = (res, h')" by fastforce
    show ?thesis
    proof (cases res)
      case None2: None
      with settlesD(1) [OF opener] o ok(3) have "h' = with_leases (all_flows (ss_clients st)) h" by auto
      with usable None None2 o ok show ?thesis by (simp add: use_client_flow_def Let_def standalone_ok_def)
    next
      case (Some flow)
      with settlesD(2) [OF opener] o ok(3) have fl: "kind_matches key flow" "h' = add_lease (flow_lease flow) (with_leases (all_flows (ss_clients st)) h)"
        by auto
      let ?e = "\<lparr>tfe_flow = flow, tfe_target = key_target key, tfe_last_activity = rv_now env, tfe_receiving = True\<rparr>"
      have room: "length ?flows < max_targets_per_association (sc_limits config)" "ss_total st < max_standalone_flows (sc_limits config)"
        using usable None by (simp_all add: can_use_flow_def)
      have t': "table_ok (sc_limits config) (AList.update key ?e ?flows)"
        using fl by (intro table_ok_insert [OF t None room(1)]) simp_all
      have m: "map_of (AList.update key ?e ?flows) key = Some ?e" by (simp add: update_conv')
      let ?st = "ss_meter record_standalone_flow_created ((on_ss_heap (\<lambda>_. h') st)\<lparr>ss_total := ss_total st + 1\<rparr>)"
      obtain flows' where f: "ss_clients (standalone_send env c s (AList.update key ?e ?flows) key ?e payload ?st) =
          AList.update c (s\<lparr>cfs_target_flows := flows'\<rparr>) (ss_clients ?st)" "table_ok (sc_limits config) flows'"
        "\<And>r. leased r flows' = leased r (AList.update key ?e ?flows)" "length flows' = length (AList.update key ?e ?flows)"
        by (rule standalone_send_clients [OF t' m, of env c s payload ?st]) (rule that)
      show ?thesis
        using usable None Some o fl f leased_new [OF None, of _ ?e] room
        by (simp add: use_client_flow_def Let_def finish [of _ flows' "flow_lease flow" 1] alist_update_none)
    qed
  qed
qed

lemma use_client_upstream_ok:
  assumes ok: "clients_ok (sc_limits config) (ss_clients st)" "ss_total st = length (all_flows (ss_clients st))"
      "ss_heap st = held (Some l) (with_leases (all_flows (ss_clients st)) h)"
    and client: "map_of (ss_clients st) c = Some s" and l: "lease_state l = Pending"
  shows "standalone_ok (sc_limits config) h (use_client_upstream env config c s target payload u chain l st)"
proof -
  have p: "is_pending (Some l)" using l by (simp add: is_pending_def)
  note use = use_client_flow_ok [OF ok client p]
  have "standalone_ok (sc_limits config) h (on_ss_heap (PendingLease_drop l) (ss_meter record_standalone_rejected st))"
    using ok l by (simp add: standalone_ok_def)
  then show ?thesis
    using l by (cases "udp_capability chain")
      (simp_all add: use_client_upstream_def use builders_settle established_held ActiveLease_drop_def)
qed

lemma all_flows_client_same:
  assumes "map_of cs c = Some s" "cfs_target_flows s' = cfs_target_flows s"
  shows "all_flows (AList.update c s' cs) = all_flows cs"
  using assms by (induction cs) (auto simp: all_flows_def)

lemma all_flows_new: "cfs_target_flows s = [] \<Longrightarrow> all_flows (cs @ [(c, s)]) = all_flows cs"
  by (simp add: all_flows_def)

lemma clients_ok_new:
  assumes "clients_ok limits cs" "map_of cs c = None" "cfs_target_flows s = []" "length cs < max_standalone_flows limits"
  shows "clients_ok limits (cs @ [(c, s)])"
  using assms by (auto simp: clients_ok_def all_flows_new table_ok_def map_of_eq_None_iff)

lemma standalone_forward_ok:
  assumes ok: "clients_ok (sc_limits config) (ss_clients st)" "ss_total st = length (all_flows (ss_clients st))"
    and heap: "case selected of
      Selected_Upstream _ _ _ _ l _ \<Rightarrow> lease_state l = Pending \<and> ss_heap st = held (Some l) (with_leases (all_flows (ss_clients st)) h)
    | _ \<Rightarrow> ss_heap st = with_leases (all_flows (ss_clients st)) h"
  shows "standalone_ok (sc_limits config) h (standalone_forward env config c target payload selected st)"
proof (cases "map_of (ss_clients st) c = None \<and> max_standalone_flows (sc_limits config) \<le> length (ss_clients st)")
  case True
  then show ?thesis
    using assms by (simp add: standalone_forward_def standalone_ok_def drop_lease_def split: selected_route.splits)
next
  case False
  let ?s = "ClientFlowState_touch (rv_now env) (case map_of (ss_clients st) c of Some s \<Rightarrow> s | None \<Rightarrow> ClientFlowState_new (rv_now env))"
  let ?cs = "AList.update c ?s (ss_clients st)" and ?st = "st\<lparr>ss_clients := AList.update c ?s (ss_clients st)\<rparr>"
  have flows: "all_flows ?cs = all_flows (ss_clients st)" and cok: "clients_ok (sc_limits config) ?cs"
  proof (atomize (full), cases "map_of (ss_clients st) c")
    case None
    have fl: "cfs_target_flows ?s = []" using None by (simp add: ClientFlowState_touch_def ClientFlowState_new_def)
    from False None clients_ok_new [OF ok(1) None fl] all_flows_new [OF fl]
    show "all_flows ?cs = all_flows (ss_clients st) \<and> clients_ok (sc_limits config) ?cs" by (simp add: alist_update_none)
  next
    case (Some s)
    have fl: "cfs_target_flows ?s = cfs_target_flows s" using Some by (simp add: ClientFlowState_touch_def)
    have "all_flows ?cs = all_flows (ss_clients st)" using all_flows_client_same [OF Some fl] by simp
    moreover from this have "clients_ok (sc_limits config) ?cs"
      using clients_ok_update [OF ok(1) Some, of ?s] clients_ok_lookup [OF ok(1) Some] fl ok(1) by (simp add: clients_ok_def)
    ultimately show "all_flows ?cs = all_flows (ss_clients st) \<and> clients_ok (sc_limits config) ?cs" by blast
  qed
  have total: "ss_total ?st = length (all_flows (ss_clients ?st))" using ok(2) flows by simp
  have m: "map_of (ss_clients ?st) c = Some ?s" by (simp add: update_conv')
  have direct: "standalone_ok (sc_limits config) h
      (use_client_flow env config c ?s (Key_Direct target) payload None id (build_direct_flow env target) ?st)"
    if "ss_heap st = with_leases (all_flows (ss_clients st)) h"
    using cok total m that flows
    by (intro use_client_flow_ok) (simp_all add: held_def is_pending_def builders_settle)
  have up: "standalone_ok (sc_limits config) h (use_client_upstream env config c ?s target payload u chain l ?st)"
    if "lease_state l = Pending" "ss_heap st = held (Some l) (with_leases (all_flows (ss_clients st)) h)" for u chain l
    using use_client_upstream_ok [of config ?st l h c ?s env target payload u chain] cok total m that flows by simp
  show ?thesis
    using False heap direct up by (auto simp: standalone_forward_def Let_def split: selected_route.splits)
qed

lemma standalone_datagram_ok:
  assumes "standalone_ok (sc_limits config) h st"
  shows "standalone_ok (sc_limits config) h (standalone_datagram env config c bytes st)"
proof (cases "standalone_decode (rv_crypto env) (sc_inbound config) (sc_limits config) (take (max_datagram_size (sc_limits config)) bytes)")
  case None
  with assms show ?thesis by (simp add: standalone_datagram_def Let_def split: standalone_inbound.split)
next
  case (Some d)
  obtain ta target payload where d: "d = (ta, target, payload)" by (cases d)
  let ?n = "word_of_nat (length (take (max_datagram_size (sc_limits config)) bytes)) :: u64"
  define st1 where "st1 = (case sc_inbound config of Inbound_Socks5 \<Rightarrow> \<lambda>st. st | Inbound_Shadowsocks _ _ \<Rightarrow> ss_cipher_meter (record_udp_packet_in ?n))
    (ss_meter (record_standalone_packet_in ?n) st)"
  have s1: "standalone_ok (sc_limits config) h st1" "ss_world st1 = ss_world st"
    using assms by (simp_all add: st1_def split: standalone_inbound.split)
  obtain sel w where r: "service_route (rv_is_match env) (rv_cidr_contains env) (rv_index env) (sc_routing config)
      (standalone_request config c ta) (ss_world st1) = (sel, w)" by fastforce
  then have sr: "case sel of
      Inr (Selected_Upstream _ _ _ _ lease _) \<Rightarrow> lease_state lease = Pending \<and> w_heap w = in_flight_inc (lease_upstream lease) (ss_heap st1)
    | _ \<Rightarrow> w_heap w = ss_heap st1"
    by (intro Router_select_heap) (simp add: service_route_def Let_def)
  have fwd: "standalone_ok (sc_limits config) h (standalone_forward env config c target payload sel' (st1\<lparr>ss_world := w\<rparr>))"
    if "sel = Inr sel'" for sel'
    using that sr s1(1) by (intro standalone_forward_ok) (auto simp: standalone_ok_def held_def split: selected_route.splits)
  have rej: "standalone_ok (sc_limits config) h (st1\<lparr>ss_world := w\<rparr>)" if "sel = Inl e" for e
    using that sr s1(1) by (simp add: standalone_ok_def)
  have "standalone_datagram env config c bytes st =
      (if \<not> is_ok (validate_standalone_target target (sc_allow_private_egress config)) then ss_meter record_standalone_rejected st
       else case sel of Inl _ \<Rightarrow> ss_meter record_standalone_rejected (st1\<lparr>ss_world := w\<rparr>)
            | Inr route_taken \<Rightarrow> standalone_forward env config c target payload route_taken (st1\<lparr>ss_world := w\<rparr>))"
    using r Some d by (cases "sc_inbound config") (simp_all add: standalone_datagram_def Let_def st1_def del: length_take split: sum.split)
  with assms fwd rej show ?thesis by (simp split: sum.split)
qed

subsection \<open>Reaping and closing\<close>

lemma all_flows_Cons: "all_flows (x # cs) = cfs_target_flows (snd x) @ all_flows cs"
  by (simp add: all_flows_def)

lemma all_flows_Nil [simp]: "all_flows [] = []"
  by (simp add: all_flows_def)

lemma all_flows_kept:
  "all_flows (map (\<lambda>(c, s). (c, keep_flows now t s)) cs) = filter (\<lambda>(_, e). flow_kept now t e) (all_flows cs)"
  by (induction cs) (auto simp: all_flows_Cons keep_flows_def)

lemma split_flows:
  "leased r (all_flows cs) = leased r (all_flows (filter P cs)) + leased r (all_flows (filter (\<lambda>x. \<not> P x) cs))"
  "length (all_flows cs) = length (all_flows (filter P cs)) + length (all_flows (filter (\<lambda>x. \<not> P x) cs))"
  by (induction cs) (simp_all add: all_flows_Cons leased_append)

lemma drop_gone:
  "drop_flow_leases (all_flows (filter (\<lambda>x. \<not> P x) cs)) (with_leases (all_flows cs) h) = with_leases (all_flows (filter P cs)) h"
  using drop_entries [of "all_flows (filter (\<lambda>x. \<not> P x) cs)" h "\<lambda>r. of_nat (leased r (all_flows (filter P cs)))"]
  by (simp add: with_leases_def split_flows(1) [of _ cs P] drop_flow_leases_def add.commute add.left_commute)

lemma clients_ok_filter: "clients_ok limits cs \<Longrightarrow> clients_ok limits (filter P cs)"
  using split_flows(2) [of cs P]
  by (auto simp: clients_ok_def distinct_map_filter intro: le_trans [OF length_filter_le])

lemma clients_ok_kept:
  assumes "clients_ok limits cs"
  shows "clients_ok limits (map (\<lambda>(c, s). (c, keep_flows now t s)) cs)"
proof -
  have "table_ok limits (cfs_target_flows (keep_flows now t s))" if "(c, s) \<in> set cs" for c s
    using assms that by (fastforce simp: clients_ok_def table_ok_def keep_flows_def distinct_map_filter intro: le_trans [OF length_filter_le])
  moreover have "length (filter (\<lambda>(_, e). flow_kept now t e) (all_flows cs)) \<le> max_standalone_flows limits"
    using assms by (auto simp: clients_ok_def intro: le_trans [OF length_filter_le])
  moreover have "distinct (map fst (map (\<lambda>(c, s). (c, keep_flows now t s)) cs))"
    using assms by (simp add: clients_ok_def comp_def case_prod_unfold)
  ultimately show ?thesis
    using assms unfolding clients_ok_def all_flows_kept by auto
qed

lemma reap_clients_ok:
  assumes "standalone_ok limits h st" "reap_clients now limits st = (removed, st')"
  shows "standalone_ok limits h (st'\<lparr>ss_total := ss_total st' - removed\<rparr>)"
proof -
  let ?P = "\<lambda>(_, e). flow_kept now (target_idle_timeout limits) e"
  let ?Q = "\<lambda>(_, s). now - cfs_last_activity s < idle_timeout limits"
  let ?cs = "ss_clients st" and ?kept = "map (\<lambda>(c, s). (c, keep_flows now (target_idle_timeout limits) s)) (ss_clients st)"
  let ?idle = "filter (\<lambda>(_, e). \<not> flow_kept now (target_idle_timeout limits) e) (all_flows ?cs)"
  let ?gone = "filter (\<lambda>(_, s). \<not> now - cfs_last_activity s < idle_timeout limits) ?kept"
  have r: "removed = length ?idle + length (all_flows ?gone)" "ss_clients st' = filter ?Q ?kept" "ss_total st' = ss_total st"
    "ss_heap st' = drop_flow_leases (all_flows ?gone) (drop_flow_leases ?idle (ss_heap st))"
    using assms(2) by (auto simp: reap_clients_def Let_def)
  have n: "?idle = filter (\<lambda>x. \<not> ?P x) (all_flows ?cs)" "?gone = filter (\<lambda>x. \<not> ?Q x) ?kept"
    by (auto simp: case_prod_unfold)
  have heap: "ss_heap st' = with_leases (all_flows (filter ?Q ?kept)) h"
    using assms(1) drop_some_entries [of ?P "all_flows ?cs" h] drop_gone [of ?Q ?kept h]
    by (simp add: r(4) n standalone_ok_def drop_flow_leases_def all_flows_kept)
  have "length (all_flows ?cs) = length (all_flows (filter ?Q ?kept)) + removed"
    using split_flows(2) [of ?kept ?Q] sum_length_filter_compl [of ?P "all_flows ?cs"] by (simp add: r(1) n all_flows_kept)
  then show ?thesis
    using assms(1) heap r(2,3) clients_ok_filter [OF clients_ok_kept, of limits ?cs ?Q] by (simp add: standalone_ok_def)
qed

lemma closed_flows: "all_flows (map (\<lambda>(c, s). (c, s\<lparr>cfs_target_flows := []\<rparr>)) cs) = []"
  by (induction cs) (auto simp: all_flows_Cons)

lemma close_all_flows_ok:
  assumes "standalone_ok limits h st" "close_all_flows st = (removed, st')"
  shows "ss_total st' = removed" "ss_heap st' = h"
  using assms drop_all_entries [of "all_flows (ss_clients st)" h]
  by (auto simp: close_all_flows_def Let_def standalone_ok_def drop_flow_leases_def)

lemma find_flowD: "find_flow c key st = Some (s, e) \<Longrightarrow> map_of (ss_clients st) c = Some s \<and> map_of (cfs_target_flows s) key = Some e"
  by (auto simp: find_flow_def split: option.splits)

lemma standalone_flow_quiet_ok:
  assumes "standalone_ok limits h st"
  shows "standalone_ok limits h (standalone_flow_quiet c key st)"
proof (cases "find_flow c key st")
  case (Some se)
  obtain s e where se: "se = (s, e)" by (cases se)
  let ?e = "e\<lparr>tfe_receiving := False\<rparr>"
  let ?s = "s\<lparr>cfs_target_flows := AList.update key ?e (cfs_target_flows s)\<rparr>"
  have m: "map_of (ss_clients st) c = Some s" "map_of (cfs_target_flows s) key = Some e"
    using find_flowD Some se by blast+
  have cok: "clients_ok limits (ss_clients st)" using assms by (simp add: standalone_ok_def)
  note t = clients_ok_lookup [OF cok m(1)]
  have "table_ok limits (cfs_target_flows ?s)"
    using table_ok_update [OF t m(2), of ?e] table_ok_lookup [OF t m(2)] by (simp add: flow_ok_def)
  moreover have "length (all_flows (AList.update c ?s (ss_clients st))) = length (all_flows (ss_clients st))"
    using length_client_update [OF m(1), of ?s] m(2) by (simp add: length_update_same)
  moreover have "with_leases (all_flows (AList.update c ?s (ss_clients st))) h = with_leases (all_flows (ss_clients st)) h"
    using clients_same [OF m(1), of ?s] leased_same [OF m(2), of ?e] by simp
  ultimately show ?thesis
    using assms clients_ok_update [OF cok m(1), of ?s]
    by (simp add: standalone_flow_quiet_def Some se standalone_ok_def clients_ok_def)
qed (use assms in \<open>simp add: standalone_flow_quiet_def\<close>)

lemma standalone_step_ok:
  assumes "standalone_ok (sc_limits config) h st"
  shows "standalone_ok (sc_limits config) h (snd (standalone_step env config ev st))"
proof (cases ev)
  case (St_Tick)
  with assms reap_clients_ok show ?thesis by (auto simp: standalone_step_def split: prod.split)
next
  case St_Respond
  with assms show ?thesis
    by (auto simp: standalone_step_def standalone_respond_def Let_def split: list.split option.split)
next
  case (St_Flow_Datagram c key peer bytes)
  with assms show ?thesis
    by (auto simp: standalone_step_def standalone_flow_datagram_def standalone_try_send_def split: option.split)
qed (use assms in \<open>simp_all add: standalone_step_def standalone_datagram_ok standalone_flow_quiet_ok\<close>)

lemma standalone_run_ok:
  "standalone_ok (sc_limits config) h st \<Longrightarrow> standalone_ok (sc_limits config) h (snd (standalone_run config evs st))"
proof (induction config evs st rule: standalone_run.induct)
  case (2 config env ev evs st)
  have "standalone_ok (sc_limits config) h (snd (standalone_step env config ev st))" using 2 by (simp add: standalone_step_ok)
  with 2 show ?case by (auto split: prod.splits option.splits)
qed simp

subsection \<open>Who is answered\<close>

definition flow_keys :: "(socket_addr \<times> client_flow_state) list \<Rightarrow> (socket_addr \<times> udp_flow_key) set" where
  "flow_keys cs = {(c, key). \<exists>s. (c, s) \<in> set cs \<and> key \<in> fst ` set (cfs_target_flows s)}"

lemma set_alist_update: "set (AList.update k v xs) \<subseteq> insert (k, v) (set xs)"
  by (induction xs) auto

lemma flow_keys_update: "flow_keys (AList.update c s cs) \<subseteq> flow_keys cs \<union> {c} \<times> fst ` set (cfs_target_flows s)"
  using set_alist_update [of c s cs] by (auto simp: flow_keys_def)

text \<open>What the handling of a datagram leaves alone.\<close>

definition answer_side :: "'r standalone_state \<Rightarrow> standalone_response list \<times> (socket_addr \<times> u8 list) list" where
  "answer_side st = (ss_queue st, ss_to_client st)"

lemma answer_side_frame [simp]:
  "answer_side (ss_meter f st) = answer_side st" "answer_side (ss_cipher_meter g st) = answer_side st"
  "answer_side (on_ss_heap k st) = answer_side st" "answer_side (set_flows c s flows st) = answer_side st"
  "answer_side (st\<lparr>ss_total := n\<rparr>) = answer_side st" "answer_side (st\<lparr>ss_world := w\<rparr>) = answer_side st"
  "answer_side (st\<lparr>ss_clients := cs\<rparr>) = answer_side st" "answer_side (st\<lparr>ss_sent := xs\<rparr>) = answer_side st"
  by (simp_all add: answer_side_def ss_meter_def ss_cipher_meter_def on_ss_heap_def set_flows_def)

lemma standalone_send_keys:
  "answer_side (standalone_send env c s flows key e payload st) = answer_side st"
  "flow_keys (ss_clients (standalone_send env c s flows key e payload st)) \<subseteq>
    flow_keys (ss_clients st) \<union> {c} \<times> insert key (fst ` set flows)"
proof -
  show "answer_side (standalone_send env c s flows key e payload st) = answer_side st"
    by (simp add: standalone_send_def Let_def split: option.split prod.split)
  have "flow_keys (AList.update c (s\<lparr>cfs_target_flows := flows\<rparr>) (ss_clients st)) \<subseteq> flow_keys (ss_clients st) \<union> {c} \<times> insert key (fst ` set flows)"
    "flow_keys (AList.update c (s\<lparr>cfs_target_flows := AList.update key e' flows\<rparr>) (ss_clients st)) \<subseteq>
      flow_keys (ss_clients st) \<union> {c} \<times> insert key (fst ` set flows)" for e'
    using flow_keys_update [of c "s\<lparr>cfs_target_flows := flows\<rparr>" "ss_clients st"]
      flow_keys_update [of c "s\<lparr>cfs_target_flows := AList.update key e' flows\<rparr>" "ss_clients st"]
    by (auto simp: dom_update)
  then show "flow_keys (ss_clients (standalone_send env c s flows key e payload st)) \<subseteq>
    flow_keys (ss_clients st) \<union> {c} \<times> insert key (fst ` set flows)"
    by (simp add: standalone_send_def Let_def split: option.split prod.split)
qed

lemma use_client_flow_keys:
  assumes "(c, s) \<in> set (ss_clients st)"
  shows "answer_side (use_client_flow env config c s key payload pending settle opener st) = answer_side st"
    "flow_keys (ss_clients (use_client_flow env config c s key payload pending settle opener st)) \<subseteq> insert (c, key) (flow_keys (ss_clients st))"
proof -
  show "answer_side (use_client_flow env config c s key payload pending settle opener st) = answer_side st"
    by (simp add: use_client_flow_def Let_def standalone_send_keys(1) split: option.split prod.split)
  have old: "(c, k) \<in> flow_keys (ss_clients st)" if "k \<in> fst ` set (cfs_target_flows s)" for k
    using assms that by (auto simp: flow_keys_def)
  have "flow_keys (ss_clients (standalone_send env c s (AList.update key e (cfs_target_flows s)) key e payload st')) \<subseteq>
      insert (c, key) (flow_keys (ss_clients st))" if "ss_clients st' = ss_clients st" for e st'
    using standalone_send_keys(2) [of env c s "AList.update key e (cfs_target_flows s)" key e payload st'] that old
    by (fastforce simp: dom_update)
  then show "flow_keys (ss_clients (use_client_flow env config c s key payload pending settle opener st)) \<subseteq> insert (c, key) (flow_keys (ss_clients st))"
    by (simp add: use_client_flow_def Let_def split: option.split prod.split) blast
qed

lemma use_client_upstream_keys:
  assumes "(c, s) \<in> set (ss_clients st)"
  shows "answer_side (use_client_upstream env config c s target payload u chain l st) = answer_side st"
    "flow_keys (ss_clients (use_client_upstream env config c s target payload u chain l st)) \<subseteq>
      flow_keys (ss_clients st) \<union> {c} \<times> {key. key_target key = target}"
proof -
  show "answer_side (use_client_upstream env config c s target payload u chain l st) = answer_side st"
    by (cases "udp_capability chain") (simp_all add: use_client_upstream_def use_client_flow_keys(1) [OF assms])
  show "flow_keys (ss_clients (use_client_upstream env config c s target payload u chain l st)) \<subseteq>
      flow_keys (ss_clients st) \<union> {c} \<times> {key. key_target key = target}"
    by (cases "udp_capability chain")
      (auto simp: use_client_upstream_def dest!: use_client_flow_keys(2) [OF assms, THEN subsetD])
qed

lemma standalone_forward_keys:
  "answer_side (standalone_forward env config c target payload selected st) = answer_side st"
  "flow_keys (ss_clients (standalone_forward env config c target payload selected st)) \<subseteq>
    flow_keys (ss_clients st) \<union> {c} \<times> {key. key_target key = target}"
proof -
  let ?s = "ClientFlowState_touch (rv_now env) (case map_of (ss_clients st) c of Some s \<Rightarrow> s | None \<Rightarrow> ClientFlowState_new (rv_now env))"
  let ?st = "st\<lparr>ss_clients := AList.update c ?s (ss_clients st)\<rparr>"
  have m: "(c, ?s) \<in> set (ss_clients ?st)"
    using map_of_SomeD [of "ss_clients ?st" c ?s] by (simp add: update_conv')
  have old: "{c} \<times> fst ` set (cfs_target_flows ?s) \<subseteq> flow_keys (ss_clients st)"
    by (cases "map_of (ss_clients st) c") (auto simp: ClientFlowState_touch_def ClientFlowState_new_def flow_keys_def dest!: map_of_SomeD)
  have k: "flow_keys (ss_clients ?st) \<subseteq> flow_keys (ss_clients st)"
    using flow_keys_update [of c ?s "ss_clients st"] old by auto
  show "answer_side (standalone_forward env config c target payload selected st) = answer_side st"
    by (simp add: standalone_forward_def Let_def use_client_flow_keys(1) [OF m] use_client_upstream_keys(1) [OF m] split: selected_route.split)
  have "flow_keys (ss_clients (use_client_flow env config c ?s (Key_Direct target) payload None id (build_direct_flow env target) ?st)) \<subseteq>
      flow_keys (ss_clients st) \<union> {c} \<times> {key. key_target key = target}"
    using use_client_flow_keys(2) [OF m, of env config "Key_Direct target"] k by fastforce
  moreover have "flow_keys (ss_clients (use_client_upstream env config c ?s target payload u chain l ?st)) \<subseteq>
      flow_keys (ss_clients st) \<union> {c} \<times> {key. key_target key = target}" for u chain l
    using use_client_upstream_keys(2) [OF m, of env config target] k by fastforce
  ultimately show "flow_keys (ss_clients (standalone_forward env config c target payload selected st)) \<subseteq>
    flow_keys (ss_clients st) \<union> {c} \<times> {key. key_target key = target}"
    by (simp add: standalone_forward_def Let_def split: selected_route.split)
qed


type_synonym ('re, 'net, 'r) standalone_trace = "(('re, 'net, 'r) udp_relay_env \<times> standalone_event) list"

text \<open>The targets a client has asked for, and the answers that the flows opened for them may have got.\<close>

definition solicited :: "('re, 'net) standalone_config \<Rightarrow> ('re, 'net, 'r) standalone_trace \<Rightarrow> socket_addr \<Rightarrow> socks_addr set" where
  "solicited config evs c =
    {t. \<exists>env bytes ta payload. (env, St_Datagram c bytes) \<in> set evs \<and>
      standalone_decode (rv_crypto env) (sc_inbound config) (sc_limits config) (take (max_datagram_size (sc_limits config)) bytes) =
        Some (ta, t, payload) \<and>
      validate_standalone_target t (sc_allow_private_egress config) = Ok ()}"

definition answers :: "('re, 'net) standalone_config \<Rightarrow> ('re, 'net, 'r) standalone_trace \<Rightarrow> standalone_response set" where
  "answers config evs =
    {msg. \<exists>env key peer bytes e. (env, St_Flow_Datagram (sr_client msg) key peer bytes) \<in> set evs \<and> flow_ok (key, e) \<and>
      key_target key \<in> solicited config evs (sr_client msg) \<and>
      flow_response env e peer (take 65535 bytes) = Some (sr_target msg, sr_payload msg)}"

definition answered :: "('re, 'net) standalone_config \<Rightarrow> ('re, 'net, 'r) standalone_trace \<Rightarrow> 'r standalone_state \<Rightarrow> bool" where
  "answered config evs st \<longleftrightarrow>
    (\<forall>(c, key) \<in> flow_keys (ss_clients st). key_target key \<in> solicited config evs c) \<and> set (ss_queue st) \<subseteq> answers config evs \<and>
    (\<forall>(c, packet) \<in> set (ss_to_client st). \<exists>msg \<in> answers config evs. sr_client msg = c \<and>
      (\<exists>env. (env, St_Respond) \<in> set evs \<and> standalone_encode env (sc_inbound config) msg = Some packet))"

lemma answered_cong:
  assumes "answered config evs st" "answer_side st' = answer_side st"
    "\<And>c key. (c, key) \<in> flow_keys (ss_clients st') \<Longrightarrow> (c, key) \<in> flow_keys (ss_clients st) \<or> key_target key \<in> solicited config evs c"
  shows "answered config evs st'"
  using assms by (fastforce simp: answered_def answer_side_def)

lemma standalone_datagram_answered:
  assumes "answered config evs st" "(env, St_Datagram c bytes) \<in> set evs"
  shows "answered config evs (standalone_datagram env config c bytes st)"
proof (cases "standalone_decode (rv_crypto env) (sc_inbound config) (sc_limits config) (take (max_datagram_size (sc_limits config)) bytes)")
  case None
  then show ?thesis
    by (intro answered_cong [OF assms(1)]) (auto simp: standalone_datagram_def Let_def split: standalone_inbound.splits)
next
  case (Some d)
  obtain ta target payload where d: "d = (ta, target, payload)" by (cases d)
  show ?thesis
  proof (cases "is_ok (validate_standalone_target target (sc_allow_private_egress config))")
    case True
    then have sol: "target \<in> solicited config evs c"
      using assms(2) Some d by (auto simp: solicited_def is_ok_def split: sum.splits)
    show ?thesis
      using True Some d sol
      by (intro answered_cong [OF assms(1)])
        (auto simp: standalone_datagram_def Let_def standalone_forward_keys(1) split: standalone_inbound.splits sum.splits prod.splits
          dest!: standalone_forward_keys(2) [THEN subsetD])
  next
    case False
    with Some d show ?thesis
      by (intro answered_cong [OF assms(1)]) (auto simp: standalone_datagram_def Let_def split: standalone_inbound.splits)
  qed
qed


lemma standalone_flow_datagram_answered:
  assumes "answered config evs st" "clients_ok limits (ss_clients st)" "(env, St_Flow_Datagram c key peer bytes) \<in> set evs"
  shows "answered config evs (standalone_flow_datagram env c key peer bytes st)"
proof -
  have "\<lparr>sr_client = c, sr_target = target, sr_payload = payload\<rparr> \<in> answers config evs"
    if "find_flow c key st = Some (s, e)" "flow_response env e peer (take 65535 bytes) = Some (target, payload)" for s e target payload
  proof -
    note m = find_flowD [OF that(1)]
    have "flow_ok (key, e)" using table_ok_lookup clients_ok_lookup [OF assms(2)] m by blast
    moreover have "(c, key) \<in> flow_keys (ss_clients st)" using m by (force simp: flow_keys_def dest: map_of_SomeD)
    then have "key_target key \<in> solicited config evs c" using assms(1) by (auto simp: answered_def)
    ultimately show ?thesis using assms(3) that(2) by (simp add: answers_def) blast
  qed
  moreover have "answered config evs (standalone_try_send msg st)" if "msg \<in> answers config evs" for msg
    using assms(1) that by (auto simp: answered_def standalone_try_send_def ss_meter_def)
  ultimately show ?thesis using assms(1) by (simp add: standalone_flow_datagram_def split: option.split prod.split)
qed

lemma standalone_respond_answered:
  assumes "answered config evs st" "ss_queue st = msg # q" "(env, St_Respond) \<in> set evs"
  shows "answered config evs (standalone_respond env config msg (st\<lparr>ss_queue := q\<rparr>))"
proof -
  let ?r = "standalone_respond env config msg (st\<lparr>ss_queue := q\<rparr>)"
  have "msg \<in> answers config evs" "set q \<subseteq> answers config evs" using assms by (auto simp: answered_def)
  moreover have "ss_clients ?r = ss_clients st" "ss_queue ?r = q"
    "set (ss_to_client ?r) \<subseteq> set (ss_to_client st) \<union> {(sr_client msg, packet) |packet. standalone_encode env (sc_inbound config) msg = Some packet}"
    by (auto simp: standalone_respond_def Let_def ss_meter_def ss_cipher_meter_def split: option.splits)
  ultimately show ?thesis using assms(1,3) unfolding answered_def by fastforce
qed

lemma flow_keys_filtered:
  "flow_keys (filter P (map (\<lambda>(c, s). (c, keep_flows now t s)) cs)) \<subseteq> flow_keys cs"
  by (fastforce simp: flow_keys_def keep_flows_def)

lemma standalone_step_answered:
  assumes "answered config evs st" "standalone_ok (sc_limits config) h st" "(env, ev) \<in> set evs"
  shows "answered config evs (snd (standalone_step env config ev st))"
proof (cases ev)
  case (St_Datagram c bytes)
  with assms standalone_datagram_answered show ?thesis by (simp add: standalone_step_def)
next
  case St_Tick
  have "answer_side (snd (standalone_step env config ev st)) = answer_side st"
    "flow_keys (ss_clients (snd (standalone_step env config ev st))) \<subseteq> flow_keys (ss_clients st)"
    using flow_keys_filtered by (simp_all add: St_Tick standalone_step_def reap_clients_def Let_def)
  then show ?thesis by (intro answered_cong [OF assms(1)]) auto
next
  case St_Respond
  with assms(1,3) standalone_respond_answered show ?thesis by (auto simp: standalone_step_def split: list.split)
next
  case (St_Flow_Datagram c key peer bytes)
  with assms standalone_flow_datagram_answered show ?thesis by (fastforce simp: standalone_step_def standalone_ok_def)
next
  case (St_Flow_Quiet c key)
  have "answer_side (standalone_flow_quiet c key st) = answer_side st"
    by (simp add: standalone_flow_quiet_def split: option.split prod.split)
  moreover have "flow_keys (ss_clients (standalone_flow_quiet c key st)) \<subseteq> flow_keys (ss_clients st)"
  proof (cases "find_flow c key st")
    case (Some se)
    obtain s e where se: "se = (s, e)" by (cases se)
    let ?s = "s\<lparr>cfs_target_flows := AList.update key (e\<lparr>tfe_receiving := False\<rparr>) (cfs_target_flows s)\<rparr>"
    have "(c, s) \<in> set (ss_clients st)" "(key, e) \<in> set (cfs_target_flows s)"
      using find_flowD [of c key st s e] Some se by (auto dest: map_of_SomeD)
    then have "(c, key) \<in> flow_keys (ss_clients st)" by (force simp: flow_keys_def)
    moreover have "{c} \<times> fst ` set (cfs_target_flows ?s) \<subseteq> insert (c, key) (flow_keys (ss_clients st))"
      using \<open>(c, s) \<in> set (ss_clients st)\<close> by (auto simp: dom_update flow_keys_def)
    ultimately have "{c} \<times> fst ` set (cfs_target_flows ?s) \<subseteq> flow_keys (ss_clients st)" by blast
    with flow_keys_update [of c ?s "ss_clients st"] show ?thesis by (simp add: standalone_flow_quiet_def Some se) blast
  qed (simp add: standalone_flow_quiet_def)
  ultimately show ?thesis using St_Flow_Quiet by (intro answered_cong [OF assms(1)]) (auto simp: standalone_step_def)
qed (use assms(1) in \<open>simp_all add: standalone_step_def\<close>)

lemma standalone_run_answered:
  assumes "answered config all st" "standalone_ok (sc_limits config) h st" "set evs \<subseteq> set all"
  shows "answered config all (snd (standalone_run config evs st))"
  using assms
proof (induction config evs st rule: standalone_run.induct)
  case (2 config env ev evs st)
  have "answered config all (snd (standalone_step env config ev st))" "standalone_ok (sc_limits config) h (snd (standalone_step env config ev st))"
    using 2(2-4) by (auto intro: standalone_step_answered standalone_step_ok)
  with 2(1,4) show ?case by (auto split: prod.splits option.splits)
qed simp


subsection \<open>Properties\<close>

lemma standalone_ok_start:
  "ss_clients st = [] \<Longrightarrow> ss_total st = 0 \<Longrightarrow> standalone_ok limits (ss_heap st) st"
  by (simp add: standalone_ok_def clients_ok_def)

text \<open>
  C11: A standalone UDP listener, SOCKS5 or Shadowsocks, stays within its limits and keeps exact books under every
  sequence of datagrams, ticks, answers and failures: the number of clients and the number of flows
  stay within the configured maximum, no client has more flows than allowed per association, the running total is
  the number of flows (so that the assertion at the end never fails), and every upstream counts exactly one active
  lease per flow through it. When the listener has ended, all counters of the upstreams are as they were.
\<close>

theorem standalone_accounted:
  assumes "ss_clients st = []" "ss_total st = 0" "standalone_udp_relay config evs st = (result, st')"
  shows "result \<noteq> Panicked \<and>
    (result = Running \<longrightarrow>
      distinct (map fst (ss_clients st')) \<and> length (ss_clients st') \<le> max_standalone_flows (sc_limits config) \<and>
      ss_total st' = length (all_flows (ss_clients st')) \<and> ss_total st' \<le> max_standalone_flows (sc_limits config) \<and>
      (\<forall>(c, s) \<in> set (ss_clients st'). distinct (map fst (cfs_target_flows s)) \<and>
        length (cfs_target_flows s) \<le> max_targets_per_association (sc_limits config)) \<and>
      (\<forall>r. active (ss_heap st' r) = active (ss_heap st r) + of_nat (leased r (all_flows (ss_clients st'))) \<and>
        in_flight (ss_heap st' r) = in_flight (ss_heap st r))) \<and>
    (result \<noteq> Running \<longrightarrow> ss_heap st' = ss_heap st)"
proof -
  obtain r st1 where run: "standalone_run config evs st = (r, st1)" by fastforce
  have ok: "standalone_ok (sc_limits config) (ss_heap st) st1"
    using standalone_run_ok [OF standalone_ok_start [OF assms(1,2), of "sc_limits config"], of evs] run by simp
  show ?thesis
  proof (cases r)
    case None
    with assms(3) run ok show ?thesis
      by (auto simp: standalone_udp_relay_def standalone_ok_def clients_ok_def table_ok_def with_leases_def)
  next
    case (Some res)
    obtain removed st2 where c: "close_all_flows st1 = (removed, st2)" by fastforce
    have "drop_flow_leases (all_flows (ss_clients st1)) (ss_heap st1) = ss_heap st"
      using ok drop_all_entries [of "all_flows (ss_clients st1)" "ss_heap st"] by (simp add: standalone_ok_def drop_flow_leases_def)
    with assms(3) run Some c close_all_flows_ok [OF ok c] show ?thesis
      by (auto simp: standalone_udp_relay_def split: sum.splits)
  qed
qed

text \<open>
  C12: A standalone listener answers only what was asked. Every packet sent to a client encodes what a flow of this very
  client received, and the flow was opened for a target that this client had sent an acceptable datagram to; unless the flow is
  a composed one, the answer is also for an address that stands for this target. No client gets another one's answers.
\<close>

theorem standalone_answers_solicited:
  assumes "ss_clients st = []" "ss_total st = 0" "ss_queue st = []" "ss_to_client st = []"
    "(client, packet) \<in> set (ss_to_client (snd (standalone_run config evs st)))"
  shows "\<exists>env key e peer bytes msg. (env, St_Flow_Datagram client key peer bytes) \<in> set evs \<and>
    key_target key \<in> solicited config evs client \<and> kind_matches key (tfe_flow e) \<and>
    flow_response env e peer (take 65535 bytes) = Some (sr_target msg, sr_payload msg) \<and>
    (case key of Key_Composed _ _ \<Rightarrow> True | _ \<Rightarrow> socks_addr_equivalent (sr_target msg) (key_target key)) \<and>
    (\<exists>env'. (env', St_Respond) \<in> set evs \<and> standalone_encode env' (sc_inbound config) msg = Some packet)"
proof -
  have "answered config evs st" using assms(1-4) by (simp add: answered_def flow_keys_def)
  then have "answered config evs (snd (standalone_run config evs st))"
    using standalone_run_answered [of config evs st "ss_heap st" evs] standalone_ok_start [OF assms(1,2)] by blast
  with assms(5) obtain msg env where
    m: "(env, St_Respond) \<in> set evs" "msg \<in> answers config evs" "sr_client msg = client" "standalone_encode env (sc_inbound config) msg = Some packet"
    unfolding answered_def by fastforce
  then obtain env' key peer bytes e where "(env', St_Flow_Datagram client key peer bytes) \<in> set evs" "flow_ok (key, e)"
    "key_target key \<in> solicited config evs client" "flow_response env' e peer (take 65535 bytes) = Some (sr_target msg, sr_payload msg)"
    by (auto simp: answers_def)
  moreover from this have "kind_matches key (tfe_flow e)" by (simp add: flow_ok_def)
  ultimately show ?thesis using m(1,4) flow_response_target by blast
qed

subsection \<open>A run\<close>

definition demo_standalone_config :: "(unit, unit) standalone_config" where
  "demo_standalone_config =
    \<lparr>sc_inbound = Inbound_Socks5, sc_routing = rc_routing demo_relay_config, sc_limits = UdpLimits_default, sc_listener = ''udp'',
     sc_allow_private_egress = False\<rparr>"

definition demo_standalone_state :: "deterministic_random standalone_state" where
  "demo_standalone_state =
    \<lparr>ss_clients = [], ss_total = 0, ss_metrics = UdpMetrics_new, ss_shadowsocks = None, ss_world = sample_world Kind_FirstAvailable,
     ss_queue = [], ss_sent = [], ss_to_client = []\<rparr>"

definition demo_standalone_events :: "(unit, unit, deterministic_random) standalone_trace" where
  "demo_standalone_events =
    [(demo_relay_env, St_Datagram demo_client [0, 0, 0, 1, 8, 8, 8, 8, 0, 53, 1, 2]),
     (demo_relay_env, St_Flow_Datagram demo_client (Key_Direct (Socks_IPv4 [8, 8, 8, 8] 53)) (SocketAddr (V4 [8, 8, 8, 8]) 53) [9]),
     (demo_relay_env, St_Respond)]"

lemma demo_standalone_config_simps [simp]:
  "sc_inbound demo_standalone_config = Inbound_Socks5" "sc_routing demo_standalone_config = rc_routing demo_relay_config"
  "sc_limits demo_standalone_config = UdpLimits_default" "sc_allow_private_egress demo_standalone_config = False"
  "max_standalone_flows UdpLimits_default = 1024"
  by (simp_all add: demo_standalone_config_def max_standalone_flows_def UdpLimits_default_def)

lemma demo_standalone_state_simps [simp]:
  "ss_clients demo_standalone_state = []" "ss_total demo_standalone_state = 0" "ss_queue demo_standalone_state = []"
  "ss_to_client demo_standalone_state = []"
  by (simp_all add: demo_standalone_state_def)

lemmas demo_standalone_defs = demo_decode demo_valid demo_route demo_direct demo_encode standalone_step_def standalone_datagram_def
  standalone_decode_def standalone_forward_def use_client_flow_def can_use_flow_def build_direct_flow_def standalone_send_def flow_packet_def
  standalone_flow_datagram_def find_flow_def flow_response_def standalone_try_send_def standalone_respond_def standalone_encode_def
  RESPONSE_CHANNEL_CAPACITY_def ClientFlowState_new_def ClientFlowState_touch_def set_flows_def ss_meter_def on_ss_heap_def

lemma demo_standalone_run:
  "ss_to_client (snd (standalone_run demo_standalone_config demo_standalone_events demo_standalone_state)) =
    [(demo_client, [0, 0, 0, 1, 8, 8, 8, 8, 0, 53, 9])]"
  by (simp add: demo_standalone_defs demo_standalone_events_def Let_def)

theorem standalone_accounted_witness:
  "fst (standalone_udp_relay demo_standalone_config demo_standalone_events demo_standalone_state) \<noteq> Panicked"
  using standalone_accounted [of demo_standalone_state demo_standalone_config demo_standalone_events] by (simp add: prod_eq_iff)

theorem standalone_answers_solicited_witness:
  "\<exists>key. key_target key \<in> solicited demo_standalone_config demo_standalone_events demo_client"
  using standalone_answers_solicited [of demo_standalone_state demo_client "[0, 0, 0, 1, 8, 8, 8, 8, 0, 53, 9]" demo_standalone_config
      demo_standalone_events] demo_standalone_run by auto

subsection \<open>What the listener does not do\<close>

text \<open>Flows that go because their client was idle leave the gauge of standalone flows where it was.\<close>

lemma idle_client_keeps_gauge:
  assumes "ss_clients st = [(c, s)]" "\<forall>(_, e) \<in> set (cfs_target_flows s). flow_kept now (target_idle_timeout limits) e"
    "idle_timeout limits \<le> now - cfs_last_activity s"
  shows "fst (reap_clients now limits st) = length (cfs_target_flows s)"
    "ss_metrics (snd (reap_clients now limits st)) = ss_metrics st"
proof -
  have n: "filter (\<lambda>(_, e). \<not> flow_kept now (target_idle_timeout limits) e) (cfs_target_flows s) = []"
    "filter (\<lambda>(_, e). flow_kept now (target_idle_timeout limits) e) (cfs_target_flows s) = cfs_target_flows s"
    using assms(2) by (auto simp: filter_empty_conv filter_id_conv)
  show "fst (reap_clients now limits st) = length (cfs_target_flows s)"
    using assms(1,3) n by (simp add: reap_clients_def all_flows_def keep_flows_def Let_def)
  show "ss_metrics (snd (reap_clients now limits st)) = ss_metrics st"
    using assms(1,3) n by (simp add: reap_clients_def all_flows_def keep_flows_def on_ss_heap_def ss_meter_def Let_def)
qed

text \<open>An error of the socket ends the listener without counting its flows as closed.\<close>

lemma socket_error_keeps_gauge:
  assumes "standalone_run config evs st = (Some (Err e), st')"
  shows "ss_metrics (snd (standalone_udp_relay config evs st)) = ss_metrics st'"
  using assms by (simp add: standalone_udp_relay_def on_ss_heap_def)

end
