(* ===== verification/Chain.thy ===== *)
theory Chain
  imports Connector
begin

text \<open>
  The chain executor (\<^verbatim>\<open>eggress-core/src/chain.rs\<close>): one connection through an ordered list of proxies.
  The handlers of the protocols, the TLS wrapper and the transports are arguments, the stream type is a
  type variable, so that the executor's own logic is all there is here: validation, the check
  that every hop has a handler before anything is opened, the opening of the first hop, and the loop that
  wraps in TLS and asks each hop for the next one. Results: what a successful execution did hop by
  hop, what an error says, and that a chain that fails its checks touches no transport.
\<close>

subsection \<open>Errors and handlers\<close>

datatype 'e chain_error =
  ConnectFailed nat string connect_error
| HandshakeFailed nat string 'e
| EmptyChain
| InvalidChain string

record ('s, 'e) hop_handler =
  hh_protocol :: protocol_spec
  hh_open :: "endpoint_spec \<Rightarrow> proxy_hop_spec \<Rightarrow> target_addr \<Rightarrow> ('e + 's) option"
  hh_handshake :: "'s \<Rightarrow> target_addr \<Rightarrow> proxy_hop_spec \<Rightarrow> nat \<Rightarrow> 'e + 's"

type_synonym ('s, 'e) tls_wrapper = "'s \<Rightarrow> string \<Rightarrow> string list option \<Rightarrow> bool \<Rightarrow> 'e + 's"

record ('s, 'e) chain_executor =
  ce_handlers :: "('s, 'e) hop_handler list"
  ce_tls_wrapper :: "('s, 'e) tls_wrapper option"
  ce_shared_tls_config :: bool
  ce_insecure_shared_tls_config :: bool

definition ChainExecutor_new :: "('s, 'e) hop_handler list \<Rightarrow> ('s, 'e) chain_executor" where
  "ChainExecutor_new handlers =
    \<lparr>ce_handlers = handlers, ce_tls_wrapper = None, ce_shared_tls_config = False, ce_insecure_shared_tls_config = False\<rparr>"

definition with_tls_wrapper :: "('s, 'e) tls_wrapper \<Rightarrow> ('s, 'e) chain_executor \<Rightarrow> ('s, 'e) chain_executor" where
  "with_tls_wrapper wrapper ex = ex\<lparr>ce_tls_wrapper := Some wrapper\<rparr>"

definition with_shared_tls_config :: "bool \<Rightarrow> ('s, 'e) chain_executor \<Rightarrow> ('s, 'e) chain_executor" where
  "with_shared_tls_config present ex = ex\<lparr>ce_shared_tls_config := present\<rparr>"

definition with_insecure_shared_tls_config :: "bool \<Rightarrow> ('s, 'e) chain_executor \<Rightarrow> ('s, 'e) chain_executor" where
  "with_insecure_shared_tls_config present ex = ex\<lparr>ce_insecure_shared_tls_config := present\<rparr>"

text \<open>The derived \<^verbatim>\<open>Debug\<close> text of a protocol.\<close>

fun ProtocolSpec_debug :: "protocol_spec \<Rightarrow> string" where
  "ProtocolSpec_debug Spec_Http = ''Http''"
| "ProtocolSpec_debug Spec_HttpOnly = ''HttpOnly''"
| "ProtocolSpec_debug Spec_Socks4 = ''Socks4''"
| "ProtocolSpec_debug Spec_Socks5 = ''Socks5''"
| "ProtocolSpec_debug Spec_Shadowsocks = ''Shadowsocks''"
| "ProtocolSpec_debug Spec_ShadowsocksR = ''ShadowsocksR''"
| "ProtocolSpec_debug Spec_Trojan = ''Trojan''"
| "ProtocolSpec_debug Spec_Http2 = ''Http2''"
| "ProtocolSpec_debug Spec_Http3 = ''Http3''"
| "ProtocolSpec_debug Spec_Quic = ''Quic''"
| "ProtocolSpec_debug Spec_WebSocket = ''WebSocket''"
| "ProtocolSpec_debug Spec_Raw = ''Raw''"
| "ProtocolSpec_debug Spec_Ssh = ''Ssh''"
| "ProtocolSpec_debug Spec_Unix = ''Unix''"

fun join_with :: "string \<Rightarrow> string list \<Rightarrow> string" where
  "join_with sep [] = []"
| "join_with sep [s] = s"
| "join_with sep (s # ss) = s @ sep @ join_with sep ss"

definition endpoint_to_target_addr :: "endpoint_spec \<Rightarrow> target_addr" where
  "endpoint_to_target_addr endpoint =
    \<lparr>tgt_host = (case parse_ip_addr (ep_host endpoint) of Some ip \<Rightarrow> Ip ip | None \<Rightarrow> Domain (ep_host endpoint)),
     tgt_port = ep_port endpoint\<rparr>"

definition application_protocols :: "protocol_spec list \<Rightarrow> protocol_spec list" where
  "application_protocols protocols = filter (\<lambda>p. p \<noteq> Spec_Http3 \<and> p \<noteq> Spec_Quic) protocols"

definition format_protocols :: "protocol_spec list \<Rightarrow> string" where
  "format_protocols protocols = join_with ''+'' (map ProtocolSpec_debug protocols)"

definition no_handler_text :: "protocol_spec list \<Rightarrow> string" where
  "no_handler_text protocols = ''no handler for protocols: ['' @ join_with '', '' (map ProtocolSpec_debug protocols) @ '']''"

text \<open>The first protocol that has a handler decides.\<close>

fun find_handler :: "('s, 'e) hop_handler list \<Rightarrow> protocol_spec list \<Rightarrow> ('s, 'e) hop_handler option" where
  "find_handler handlers [] = None"
| "find_handler handlers (p # ps) =
    (case find (\<lambda>h. hh_protocol h = p) handlers of Some h \<Rightarrow> Some h | None \<Rightarrow> find_handler handlers ps)"

subsection \<open>Checks before connecting\<close>

definition hop_text :: "nat \<Rightarrow> string \<Rightarrow> string" where
  "hop_text i reason = ''hop '' @ show_nat i @ '': '' @ reason"

fun validate_chain :: "nat \<Rightarrow> proxy_hop_spec list \<Rightarrow> 'e chain_error + unit" where
  "validate_chain i [] = Ok ()"
| "validate_chain i (hop # rest) =
    (if hop_protocols hop = [] then Err (InvalidChain (hop_text i ''no protocols specified''))
     else if ep_host (hop_endpoint hop) = [] then Err (InvalidChain (hop_text i ''empty endpoint host''))
     else if ep_port (hop_endpoint hop) = 0 \<and> Spec_Unix \<notin> set (hop_protocols hop)
     then Err (InvalidChain (hop_text i ''port cannot be 0''))
     else if hop_insecure hop \<and> \<not> hop_tls hop then Err (InvalidChain (hop_text i ''insecure=true requires tls=true''))
     else validate_chain (Suc i) rest)"

fun check_handlers :: "('s, 'e) hop_handler list \<Rightarrow> nat \<Rightarrow> proxy_hop_spec list \<Rightarrow> 'e chain_error + unit" where
  "check_handlers handlers i [] = Ok ()"
| "check_handlers handlers i (hop # rest) =
    (let protocols = application_protocols (hop_protocols hop) in
     if protocols \<noteq> [] \<and> find_handler handlers protocols = None
     then Err (InvalidChain (hop_text i (no_handler_text protocols)))
     else check_handlers handlers (Suc i) rest)"

subsection \<open>The first hop\<close>

text \<open>The transports: the network of the direct connector and Unix sockets by path.\<close>

record 's transports =
  tr_network :: "'s network"
  tr_unix :: "string \<Rightarrow> os_error + 's"

definition hop_bind_addr :: "string option \<Rightarrow> string + socket_addr option" where
  "hop_bind_addr v =
    (case v of
       None \<Rightarrow> Ok None
     | Some value \<Rightarrow>
         (case parse_socket_addr value of
            Some a \<Rightarrow> Ok (Some a)
          | None \<Rightarrow> Err (''invalid local bind '' @ quoted value @ '': invalid socket address syntax'')))"

definition open_first_hop ::
  "'s transports \<Rightarrow> ('s, 'e) chain_executor \<Rightarrow> proxy_hop_spec \<Rightarrow> target_addr \<Rightarrow>
   'e chain_error + 's \<times> connection_metadata" where
  "open_first_hop tr ex hop first_target =
    (let ps = set (hop_protocols hop); addr = endpoint_to_target_addr (hop_endpoint hop) in
     if Spec_Http3 \<in> ps \<or> Spec_Quic \<in> ps then
       (let transport = (if Spec_Http3 \<in> ps then Spec_Http3 else Spec_Quic) in
        case find_handler (ce_handlers ex) [transport] of
          None \<Rightarrow> Err (InvalidChain (no_handler_text [transport]))
        | Some h \<Rightarrow>
            (case hh_open h (hop_endpoint hop) hop first_target of
               None \<Rightarrow> Err (InvalidChain (hop_text 0 (''transport '' @ ProtocolSpec_debug transport @ '' cannot be opened'')))
             | Some (Inl e) \<Rightarrow> Err (HandshakeFailed 0 (ProtocolSpec_debug transport) e)
             | Some (Inr s) \<Rightarrow> Ok (s, ConnectionMetadata_default)))
     else if Spec_Unix \<in> ps then
       (case tr_unix tr (ep_host (hop_endpoint hop)) of
          Inl e \<Rightarrow> Err (ConnectFailed 0 (ep_host (hop_endpoint hop)) (Connect_Io e))
        | Inr s \<Rightarrow> Ok (s, ConnectionMetadata_default))
     else
       (case hop_bind_addr (hop_local_bind hop) of
          Inl e \<Rightarrow> Err (InvalidChain (hop_text 0 e))
        | Inr local_bind \<Rightarrow>
            (case connect_with_options_and_metadata (tr_network tr) addr (ConnectOptions_default\<lparr>co_local_bind := local_bind\<rparr>) of
               Inl e \<Rightarrow> Err (ConnectFailed 0 (TargetAddr_fmt addr) e)
             | Inr r \<Rightarrow> Ok r)))"

subsection \<open>The hops\<close>

definition hop_alpn :: "proxy_hop_spec \<Rightarrow> string list option" where
  "hop_alpn hop = (if Spec_Http2 \<in> set (hop_protocols hop) then Some [''h2'', ''http/1.1''] else None)"

definition hop_server_name_or_host :: "proxy_hop_spec \<Rightarrow> string" where
  "hop_server_name_or_host hop = (case hop_server_name hop of Some n \<Rightarrow> n | None \<Rightarrow> ep_host (hop_endpoint hop))"

text \<open>The TLS stage of the build without the feature \<^verbatim>\<open>insecure-tls\<close>, which alone can switch certificate checks off.\<close>

definition tls_stage :: "('s, 'e) chain_executor \<Rightarrow> nat \<Rightarrow> proxy_hop_spec \<Rightarrow> 's \<Rightarrow> 'e chain_error + 's" where
  "tls_stage ex i hop s =
    (if hop_tls hop then
       (case ce_tls_wrapper ex of
          None \<Rightarrow> Err (InvalidChain (hop_text i ''tls=true but no tls_wrapper configured''))
        | Some wrapper \<Rightarrow>
            if hop_insecure hop \<and> \<not> ce_insecure_shared_tls_config ex
            then Err (InvalidChain (hop_text i ''insecure=true requires the insecure-tls feature''))
            else (case wrapper s (hop_server_name_or_host hop) (hop_alpn hop) (hop_insecure hop) of
                    Inl e \<Rightarrow> Err (HandshakeFailed i ''tls'' e)
                  | Inr s1 \<Rightarrow> Ok s1))
     else if hop_insecure hop then Err (InvalidChain (hop_text i ''insecure=true requires tls=true''))
     else Ok s)"

definition handshake_stage ::
  "('s, 'e) chain_executor \<Rightarrow> nat \<Rightarrow> proxy_hop_spec \<Rightarrow> target_addr \<Rightarrow> 's \<Rightarrow> 'e chain_error + 's" where
  "handshake_stage ex i hop hop_next_target s =
    (let protocols = application_protocols (hop_protocols hop) in
     if protocols = [] then Ok s
     else (case find_handler (ce_handlers ex) protocols of
             None \<Rightarrow> Err (InvalidChain (no_handler_text protocols))
           | Some h \<Rightarrow>
               (case hh_handshake h s hop_next_target hop i of
                  Inl e \<Rightarrow> Err (HandshakeFailed i (format_protocols (hop_protocols hop)) e)
                | Inr s1 \<Rightarrow> Ok s1)))"

text \<open>A cached session of the first hop does not run over the new socket: its addresses are dropped.\<close>

definition hop_metadata :: "nat \<Rightarrow> proxy_hop_spec \<Rightarrow> connection_metadata \<Rightarrow> connection_metadata" where
  "hop_metadata i hop metadata =
    (if application_protocols (hop_protocols hop) \<noteq> [] \<and> i = 0 \<and>
        (Spec_Ssh \<in> set (hop_protocols hop) \<or> Spec_Http2 \<in> set (hop_protocols hop))
     then ConnectionMetadata_default else metadata)"

definition hop_next_target :: "proxy_hop_spec list \<Rightarrow> target_addr \<Rightarrow> target_addr" where
  "hop_next_target rest target = (case rest of [] \<Rightarrow> target | h # _ \<Rightarrow> endpoint_to_target_addr (hop_endpoint h))"

fun run_hops ::
  "('s, 'e) chain_executor \<Rightarrow> target_addr \<Rightarrow> nat \<Rightarrow> proxy_hop_spec list \<Rightarrow> 's \<Rightarrow> connection_metadata \<Rightarrow>
   'e chain_error + 's \<times> connection_metadata" where
  "run_hops ex target i [] s metadata = Ok (s, metadata)"
| "run_hops ex target i (hop # rest) s metadata =
    (case tls_stage ex i hop s of
       Inl e \<Rightarrow> Err e
     | Inr s1 \<Rightarrow>
         (case handshake_stage ex i hop (hop_next_target rest target) s1 of
            Inl e \<Rightarrow> Err e
          | Inr s2 \<Rightarrow> run_hops ex target (Suc i) rest s2 (hop_metadata i hop metadata)))"

definition execute_with_metadata ::
  "'s transports \<Rightarrow> ('s, 'e) chain_executor \<Rightarrow> proxy_hop_spec list \<Rightarrow> target_addr \<Rightarrow>
   'e chain_error + 's \<times> connection_metadata" where
  "execute_with_metadata tr ex chain target =
    (case chain of
       [] \<Rightarrow> Err EmptyChain
     | first_hop # rest \<Rightarrow>
         (case validate_chain 0 chain of
            Inl e \<Rightarrow> Err e
          | Inr _ \<Rightarrow>
              (case check_handlers (ce_handlers ex) 0 chain of
                 Inl e \<Rightarrow> Err e
               | Inr _ \<Rightarrow>
                   (case open_first_hop tr ex first_hop (hop_next_target rest target) of
                      Inl e \<Rightarrow> Err e
                    | Inr (s, metadata) \<Rightarrow> run_hops ex target 0 chain s metadata))))"

definition execute_chain ::
  "'s transports \<Rightarrow> ('s, 'e) chain_executor \<Rightarrow> proxy_hop_spec list \<Rightarrow> target_addr \<Rightarrow> 'e chain_error + 's" where
  "execute_chain tr ex chain target = map_sum id fst (execute_with_metadata tr ex chain target)"

subsection \<open>What an execution does\<close>

definition hop_goal :: "proxy_hop_spec list \<Rightarrow> target_addr \<Rightarrow> nat \<Rightarrow> target_addr" where
  "hop_goal chain target i =
    (if Suc i < length chain then endpoint_to_target_addr (hop_endpoint (chain ! Suc i)) else target)"

lemma hop_next_target_goal: "hop_next_target (drop (Suc i) chain) target = hop_goal chain target i"
proof (cases "Suc i < length chain")
  case True
  then have "drop (Suc i) chain = chain ! Suc i # drop (Suc (Suc i)) chain" by (simp add: Cons_nth_drop_Suc)
  with True show ?thesis by (simp add: hop_next_target_def hop_goal_def)
qed (simp add: hop_next_target_def hop_goal_def)

text \<open>Hop \<open>i\<close> of the chain, from the stream that reaches it to the stream that reaches what it was asked for.\<close>

definition hop_passes :: "('s, 'e) chain_executor \<Rightarrow> proxy_hop_spec list \<Rightarrow> target_addr \<Rightarrow> nat \<Rightarrow> 's \<Rightarrow> 's \<Rightarrow> bool" where
  "hop_passes ex chain target i s s' \<longleftrightarrow>
    (\<exists>s1. tls_stage ex i (chain ! i) s = Ok s1 \<and> handshake_stage ex i (chain ! i) (hop_goal chain target i) s1 = Ok s')"

lemma run_hops_Ok_path:
  assumes "run_hops ex target i (drop i chain) s m = Ok (s', m')" "i \<le> length chain"
  shows "\<exists>ss. length ss = Suc (length chain - i) \<and> ss ! 0 = s \<and> last ss = s' \<and>
    (\<forall>k < length chain - i. hop_passes ex chain target (i + k) (ss ! k) (ss ! Suc k))"
  using assms
proof (induction "length chain - i" arbitrary: i s m)
  case 0
  then show ?case by (intro exI [of _ "[s]"]) auto
next
  case (Suc n)
  then have d: "drop i chain = chain ! i # drop (Suc i) chain" by (simp add: Cons_nth_drop_Suc)
  obtain s1 s2 where st: "tls_stage ex i (chain ! i) s = Ok s1"
    "handshake_stage ex i (chain ! i) (hop_next_target (drop (Suc i) chain) target) s1 = Ok s2"
    "run_hops ex target (Suc i) (drop (Suc i) chain) s2 (hop_metadata i (chain ! i) m) = Ok (s', m')"
    using Suc.prems(1) unfolding d by (auto split: sum.splits)
  have "n = length chain - Suc i" "Suc i \<le> length chain" using Suc.hyps(2) by simp_all
  from Suc.hyps(1) [OF this(1) st(3) this(2)] obtain ss where ss: "length ss = Suc (length chain - Suc i)" "ss ! 0 = s2" "last ss = s'"
    "\<forall>k < length chain - Suc i. hop_passes ex chain target (Suc i + k) (ss ! k) (ss ! Suc k)" by blast
  have first: "hop_passes ex chain target i s s2"
    using st(1,2) unfolding hop_passes_def hop_next_target_goal by blast
  have "hop_passes ex chain target (i + k) ((s # ss) ! k) ((s # ss) ! Suc k)" if "k < length chain - i" for k
    using that first ss(2,4) Suc.hyps(2) by (cases k) auto
  with ss show ?case using Suc.hyps(2) by (intro exI [of _ "s # ss"]) (auto simp: length_0_conv [symmetric] simp del: length_0_conv)
qed

lemma execute_Ok_path:
  fixes ex :: "('s, 'e) chain_executor"
  assumes "execute_with_metadata tr ex chain target = Ok (s', m')"
  shows "validate_chain 0 chain = (Ok () :: 'e chain_error + unit) \<and> check_handlers (ce_handlers ex) 0 chain = Ok () \<and>
    (\<exists>ss m. length ss = Suc (length chain) \<and> open_first_hop tr ex (chain ! 0) (hop_goal chain target 0) = Ok (ss ! 0, m) \<and>
      last ss = s' \<and> (\<forall>i < length chain. hop_passes ex chain target i (ss ! i) (ss ! Suc i)))"
proof (cases chain)
  case (Cons h rest)
  have ng: "hop_next_target rest target = hop_goal chain target 0"
    using hop_next_target_goal [of 0 chain target] Cons by simp
  obtain s m where o: "validate_chain 0 chain = (Ok () :: 'e chain_error + unit)" "check_handlers (ce_handlers ex) 0 chain = Ok ()"
    "open_first_hop tr ex h (hop_goal chain target 0) = Ok (s, m)" "run_hops ex target 0 chain s m = Ok (s', m')"
    using assms Cons ng by (auto simp: execute_with_metadata_def split: sum.splits)
  from run_hops_Ok_path [of ex target 0 chain s m s' m'] o(4) obtain ss where
    "length ss = Suc (length chain)" "ss ! 0 = s" "last ss = s'" "\<forall>i < length chain. hop_passes ex chain target i (ss ! i) (ss ! Suc i)"
    by auto
  with o Cons show ?thesis by (auto intro!: exI [of _ ss] exI [of _ m])
qed (use assms in \<open>simp add: execute_with_metadata_def\<close>)

subsection \<open>What an error says\<close>

lemma run_hops_Err:
  assumes "run_hops ex target i (drop i chain) s m = Err e" "i \<le> length chain"
  shows "\<exists>k ss. i \<le> k \<and> k < length chain \<and> length ss = Suc (k - i) \<and> ss ! 0 = s \<and>
    (\<forall>j < k - i. hop_passes ex chain target (i + j) (ss ! j) (ss ! Suc j)) \<and>
    (tls_stage ex k (chain ! k) (last ss) = Err e \<or>
     (\<exists>s1. tls_stage ex k (chain ! k) (last ss) = Ok s1 \<and> handshake_stage ex k (chain ! k) (hop_goal chain target k) s1 = Err e))"
  using assms
proof (induction "length chain - i" arbitrary: i s m)
  case 0
  then show ?case by auto
next
  case (Suc n)
  then have d: "drop i chain = chain ! i # drop (Suc i) chain" by (simp add: Cons_nth_drop_Suc)
  have le: "n = length chain - Suc i" "Suc i \<le> length chain" "i < length chain" using Suc.hyps(2) by simp_all
  show ?case
  proof (cases "\<exists>s2. hop_passes ex chain target i s s2")
    case True
    then obtain s2 where h: "hop_passes ex chain target i s s2" by blast
    then have r: "run_hops ex target (Suc i) (drop (Suc i) chain) s2 (hop_metadata i (chain ! i) m) = Err e"
      using Suc.prems(1) unfolding d by (auto simp: hop_passes_def hop_next_target_goal)
    from Suc.hyps(1) [OF le(1) r le(2)] obtain k ss where
      k: "Suc i \<le> k" "k < length chain" "length ss = Suc (k - Suc i)" "ss ! 0 = s2"
      "\<forall>j < k - Suc i. hop_passes ex chain target (Suc i + j) (ss ! j) (ss ! Suc j)"
      "tls_stage ex k (chain ! k) (last ss) = Err e \<or>
       (\<exists>s1. tls_stage ex k (chain ! k) (last ss) = Ok s1 \<and> handshake_stage ex k (chain ! k) (hop_goal chain target k) s1 = Err e)"
      by blast
    have "hop_passes ex chain target (i + j) ((s # ss) ! j) ((s # ss) ! Suc j)" if "j < k - i" for j
      using that h k(1,4,5) by (cases j) auto
    with k show ?thesis by (intro exI [of _ k] exI [of _ "s # ss"]) auto
  next
    case False
    then have "tls_stage ex i (chain ! i) s = Err e \<or>
     (\<exists>s1. tls_stage ex i (chain ! i) s = Ok s1 \<and> handshake_stage ex i (chain ! i) (hop_goal chain target i) s1 = Err e)"
      using Suc.prems(1) unfolding d by (auto simp: hop_passes_def hop_next_target_goal split: sum.splits)
    with le(3) show ?thesis by (intro exI [of _ i] exI [of _ "[s]"]) auto
  qed
qed

lemma find_handler_checked:
  "check_handlers handlers j chain = Ok () \<Longrightarrow> i < length chain \<Longrightarrow> application_protocols (hop_protocols (chain ! i)) \<noteq> [] \<Longrightarrow>
   find_handler handlers (application_protocols (hop_protocols (chain ! i))) \<noteq> None"
  by (induction chain arbitrary: i j) (auto simp: Let_def nth_Cons split: if_splits nat.splits)

text \<open>Past the checks a hop fails only in TLS or in its handshake, and the error names the hop.\<close>

lemma handshake_stage_Err:
  assumes "handshake_stage ex i hop t s = Err e" "application_protocols (hop_protocols hop) \<noteq> [] \<Longrightarrow>
    find_handler (ce_handlers ex) (application_protocols (hop_protocols hop)) \<noteq> None"
  shows "\<exists>source. e = HandshakeFailed i (format_protocols (hop_protocols hop)) source"
  using assms by (auto simp: handshake_stage_def Let_def split: if_splits option.splits sum.splits)

text \<open>
  A hop that is not the first and speaks HTTP/3 or QUIC only is passed over: the stream that reaches it is
  handed on as it is, and neither the next hop nor the target is asked for.
\<close>

lemma quic_hop_passed_over:
  assumes "set (hop_protocols (chain ! i)) \<subseteq> {Spec_Http3, Spec_Quic}" "\<not> hop_tls (chain ! i)" "\<not> hop_insecure (chain ! i)"
  shows "hop_passes ex chain target i s s' \<longleftrightarrow> s' = s"
proof -
  have "application_protocols (hop_protocols (chain ! i)) = []"
    using assms(1) by (auto simp: application_protocols_def filter_empty_conv)
  with assms show ?thesis by (auto simp: hop_passes_def tls_stage_def handshake_stage_def)
qed

text \<open>
  A failed handshake names the hop that failed: all hops before it were passed, with the requests in order,
  and it was asked for the right next address.
\<close>

lemma handshake_failure_located:
  assumes "execute_with_metadata tr ex chain target = Err (HandshakeFailed k p source)" "k \<noteq> 0"
  shows "k < length chain \<and> (\<exists>ss m. length ss = Suc k \<and> open_first_hop tr ex (chain ! 0) (hop_goal chain target 0) = Ok (ss ! 0, m) \<and>
    (\<forall>i < k. hop_passes ex chain target i (ss ! i) (ss ! Suc i)) \<and> \<not> (\<exists>s'. hop_passes ex chain target k (last ss) s'))"
proof (cases chain)
  case (Cons h rest)
  have ng: "hop_next_target rest target = hop_goal chain target 0"
    using hop_next_target_goal [of 0 chain target] Cons by simp
  have no: "validate_chain j hs \<noteq> Err (HandshakeFailed k p source)" "check_handlers (ce_handlers ex) j hs \<noteq> Err (HandshakeFailed k p source)" for j hs
    by (induction hs arbitrary: j) (auto simp: Let_def)
  have "open_first_hop tr ex h (hop_goal chain target 0) \<noteq> Err (HandshakeFailed k p source)"
    using assms(2) by (auto simp: open_first_hop_def Let_def split: if_splits option.splits sum.splits)
  with assms(1) obtain s m where r: "open_first_hop tr ex h (hop_goal chain target 0) = Ok (s, m)"
    "run_hops ex target 0 chain s m = Err (HandshakeFailed k p source)"
    using Cons ng no by (auto simp: execute_with_metadata_def simp del: validate_chain.simps check_handlers.simps run_hops.simps split: sum.splits)
  from run_hops_Err [of ex target 0 chain s m] r(2) obtain k' ss where
    e: "k' < length chain" "length ss = Suc k'" "ss ! 0 = s" "\<forall>j < k'. hop_passes ex chain target j (ss ! j) (ss ! Suc j)"
    "tls_stage ex k' (chain ! k') (last ss) = Err (HandshakeFailed k p source) \<or>
     (\<exists>s1. tls_stage ex k' (chain ! k') (last ss) = Ok s1 \<and>
       handshake_stage ex k' (chain ! k') (hop_goal chain target k') s1 = Err (HandshakeFailed k p source))" by auto
  have "k' = k" "\<not> (\<exists>s'. hop_passes ex chain target k' (last ss) s')"
    using e(5) by (auto simp: tls_stage_def handshake_stage_def hop_passes_def Let_def split: if_splits option.splits sum.splits)
  with e r(1) Cons show ?thesis by (auto intro!: exI [of _ ss] exI [of _ m])
qed (use assms in \<open>simp add: execute_with_metadata_def\<close>)

end
