(* ===== verification/Socks4.thy ===== *)
theory Socks4
  imports Byte_Io Core_Types
begin

text \<open>
  SOCKS4 and SOCKS4a (\<^verbatim>\<open>eggress-protocol-socks/src/socks4\<close>): the request reader and reply writer
  of the server and the client routine. Results: the reader accepts exactly the well-formed
  requests, field by field; the server reads from the client's bytes the target the client was
  asked for, and the client completes exactly on a granted reply; and the two classes of targets
  for which the sides disagree, because the client writes them without a check.
\<close>

datatype socks4_error =
  Socks4_Io io_error
| Socks4_InvalidVersion u8
| Socks4_UnsupportedCommand u8
| Socks4_ConnectionRefused
| Socks4_ConnectionFailed
| Socks4_FailedNoIdent
| Socks4_FailedDifferentUser
| Socks4_UnknownStatus u8
| Socks4_UserIdTooLong
| Socks4_MalformedRequest string
| Socks4_DomainTooLong
| Socks4_UnsupportedAddressType

definition MAX_USER_ID_LEN :: nat where "MAX_USER_ID_LEN = 255"
definition MAX_DOMAIN_LEN :: nat where "MAX_DOMAIN_LEN = 255"

lemmas socks4_consts = MAX_USER_ID_LEN_def MAX_DOMAIN_LEN_def

datatype socks4_status = Granted | Failed | FailedNoIdent | FailedDifferentUser

fun socks4_status_byte :: "socks4_status \<Rightarrow> u8" where
  "socks4_status_byte Granted = 90"
| "socks4_status_byte Failed = 91"
| "socks4_status_byte FailedNoIdent = 92"
| "socks4_status_byte FailedDifferentUser = 93"

definition Socks4Status_from_u8 :: "u8 \<Rightarrow> socks4_status option" where
  "Socks4Status_from_u8 v =
    (if v = 90 then Some Granted else if v = 91 then Some Failed
     else if v = 92 then Some FailedNoIdent else if v = 93 then Some FailedDifferentUser else None)"

record socks4_request =
  s4_command :: u8
  s4_port :: u16
  s4_addr :: socket_addr
  s4_user_id :: string
  s4_domain :: "string option"

subsection \<open>The server\<close>

text \<open>
  The byte-at-a-time scan for a NUL: the length test comes before each read. The loop is a
  recursion on the bytes that are left to read.
\<close>

fun scan_nul :: "socks4_error \<Rightarrow> socks4_error \<Rightarrow> nat \<Rightarrow> u8 list \<Rightarrow> u8 list \<Rightarrow> (socks4_error + u8 list) \<times> u8 list"
where
  "scan_nul too_long eof limit acc [] =
    (if limit < length acc then (Err too_long, []) else (Err eof, []))"
| "scan_nul too_long eof limit acc (b # bs) =
    (if limit < length acc then (Err too_long, b # bs)
     else if b = 0 then (Ok acc, bs)
     else scan_nul too_long eof limit (acc @ [b]) bs)"

definition read_nul :: "socks4_error \<Rightarrow> socks4_error \<Rightarrow> nat \<Rightarrow> (socks4_error, u8 list) io" where
  "read_nul too_long eof limit c =
    (case scan_nul too_long eof limit [] (rx c) of (r, rest) \<Rightarrow> (r, c\<lparr>rx := rest\<rparr>))"

definition utf8_field :: "string \<Rightarrow> u8 list \<Rightarrow> socks4_error + string" where
  "utf8_field msg bs = (case from_utf8 bs of None \<Rightarrow> Err (Socks4_MalformedRequest msg) | Some s \<Rightarrow> Ok s)"

definition socks4a_marker :: "u8 list \<Rightarrow> bool" where
  "socks4a_marker ip \<longleftrightarrow> ip ! 0 = 0 \<and> ip ! 1 = 0 \<and> ip ! 2 = 0 \<and> ip ! 3 \<noteq> 0"

definition read_socks4a_domain :: "u8 list \<Rightarrow> (socks4_error, string option) io" where
  "read_socks4a_domain ip =
    (if socks4a_marker ip then
       io_bind (read_nul Socks4_DomainTooLong
                 (Socks4_MalformedRequest ''unexpected EOF reading domain'') MAX_DOMAIN_LEN) (\<lambda>domain_bytes.
       io_bind (io_of_result (utf8_field ''invalid UTF-8 in domain'' domain_bytes)) (\<lambda>domain.
         if domain = [] then io_fail (Socks4_MalformedRequest ''empty domain in SOCKS4a request'')
         else io_return (Some domain)))
     else io_return None)"

definition read_socks4_request :: "(socks4_error, socks4_request) io" where
  "read_socks4_request =
    io_bind (read_exact Socks4_Io 8) (\<lambda>header.
      let version = header ! 0; command = header ! 1 in
      if version \<noteq> 0x04 then io_fail (Socks4_InvalidVersion version)
      else if command \<noteq> 0x01 then io_fail (Socks4_UnsupportedCommand command)
      else let port = from_be_bytes (header ! 2) (header ! 3);
               ip = [header ! 4, header ! 5, header ! 6, header ! 7] in
        io_bind (read_nul Socks4_UserIdTooLong
                  (Socks4_MalformedRequest ''unexpected EOF reading user ID'') MAX_USER_ID_LEN) (\<lambda>user_id_bytes.
        io_bind (io_of_result (utf8_field ''invalid UTF-8 in user ID'' user_id_bytes)) (\<lambda>user_id.
        io_bind (read_socks4a_domain ip) (\<lambda>domain.
        io_return \<lparr>s4_command = command, s4_port = port, s4_addr = SocketAddr (V4 ip) port,
                   s4_user_id = user_id, s4_domain = domain\<rparr>))))"

definition socks4_reply_bytes :: "socks4_status \<Rightarrow> socket_addr \<Rightarrow> u8 list" where
  "socks4_reply_bytes status addr =
    (let ip = (case sock_ip addr of V4 bs \<Rightarrow> bs | V6 _ \<Rightarrow> [0, 0, 0, 0]);
         port = to_be_bytes (sock_port addr) in
     [0x00, socks4_status_byte status, port ! 0, port ! 1, ip ! 0, ip ! 1, ip ! 2, ip ! 3])"

definition write_socks4_reply :: "socks4_status \<Rightarrow> socket_addr \<Rightarrow> (socks4_error, unit) io" where
  "write_socks4_reply status addr =
    io_bind (write_all Socks4_Io (socks4_reply_bytes status addr)) (\<lambda>_. io_bind flush (\<lambda>_. io_return ()))"

text \<open>The target a session is opened to (\<^verbatim>\<open>accept_socks4\<close>).\<close>

definition socks4_target :: "socks4_request \<Rightarrow> target_addr" where
  "socks4_target req =
    (case s4_domain req of
       Some d \<Rightarrow> \<lparr>tgt_host = Domain d, tgt_port = s4_port req\<rparr>
     | None \<Rightarrow> \<lparr>tgt_host = Ip (sock_ip (s4_addr req)), tgt_port = sock_port (s4_addr req)\<rparr>)"

subsection \<open>The client\<close>

definition user_id_bytes :: "string option \<Rightarrow> u8 list" where
  "user_id_bytes user_id = (case user_id of None \<Rightarrow> [] | Some uid \<Rightarrow> as_bytes uid)"

text \<open>The request the client sends, or the error it stops with before writing.\<close>

definition socks4_request_bytes :: "target_addr \<Rightarrow> string option \<Rightarrow> socks4_error + u8 list" where
  "socks4_request_bytes target user_id =
    (if (case user_id of None \<Rightarrow> False | Some uid \<Rightarrow> MAX_USER_ID_LEN < length uid) then Err Socks4_UserIdTooLong
     else if (case tgt_host target of Domain d \<Rightarrow> MAX_DOMAIN_LEN < length d | Ip _ \<Rightarrow> False)
       then Err Socks4_DomainTooLong
     else (let prefix = [0x04, 0x01] @ to_be_bytes (tgt_port target) in
           case tgt_host target of
             Ip (V4 ip) \<Rightarrow> Ok (prefix @ ip @ user_id_bytes user_id @ [0x00])
           | Ip (V6 _) \<Rightarrow> Err Socks4_UnsupportedAddressType
           | Domain d \<Rightarrow> Ok (prefix @ [0, 0, 0, 1] @ user_id_bytes user_id @ [0x00] @ as_bytes d @ [0x00])))"

definition read_socks4_reply :: "(socks4_error, unit) io" where
  "read_socks4_reply =
    io_bind (read_exact Socks4_Io 8) (\<lambda>reply.
      let version = reply ! 0; status = reply ! 1 in
      if version \<noteq> 0x00 then io_fail (Socks4_InvalidVersion version)
      else (case Socks4Status_from_u8 status of
              Some Granted \<Rightarrow> io_return ()
            | Some Failed \<Rightarrow> io_fail Socks4_ConnectionFailed
            | Some FailedNoIdent \<Rightarrow> io_fail Socks4_FailedNoIdent
            | Some FailedDifferentUser \<Rightarrow> io_fail Socks4_FailedDifferentUser
            | None \<Rightarrow> io_fail (Socks4_UnknownStatus status)))"

definition socks4_connect :: "target_addr \<Rightarrow> string option \<Rightarrow> (socks4_error, unit) io" where
  "socks4_connect target user_id =
    io_bind (io_of_result (socks4_request_bytes target user_id)) (\<lambda>request.
    io_bind (write_all Socks4_Io request) (\<lambda>_. read_socks4_reply))"

subsection \<open>What the reader accepts\<close>

lemma scan_nul_Ok_iff:
  "scan_nul long eof limit acc bs = (Ok out, rest) \<longleftrightarrow>
    (\<exists>s. bs = s @ 0 # rest \<and> out = acc @ s \<and> 0 \<notin> set s \<and> length out \<le> limit)"
proof (induction bs arbitrary: acc)
  case (Cons b bs)
  show ?case
  proof (cases "b = 0 \<or> limit < length acc")
    case True
    then show ?thesis by (auto simp: Cons_eq_append_conv)
  next
    case False
    have "(\<exists>s. bs = s @ 0 # rest \<and> out = (acc @ [b]) @ s \<and> 0 \<notin> set s \<and> length out \<le> limit) \<longleftrightarrow>
        (\<exists>s. b # bs = s @ 0 # rest \<and> out = acc @ s \<and> 0 \<notin> set s \<and> length out \<le> limit)"
      using False by (auto simp: Cons_eq_append_conv)
    with False Cons.IH [of "acc @ [b]"] show ?thesis by simp
  qed
qed simp

lemma read_nul_Ok_iff:
  "read_nul long eof limit c = (Ok s, c') \<longleftrightarrow>
    rx c = s @ 0 # rx c' \<and> 0 \<notin> set s \<and> length s \<le> limit \<and> tx c' = tx c \<and> room c' = room c"
proof -
  have "read_nul long eof limit c = (Ok s, c') \<longleftrightarrow>
      scan_nul long eof limit [] (rx c) = (Ok s, rx c') \<and> tx c' = tx c \<and> room c' = room c"
    by (cases c; cases c') (auto simp: read_nul_def split: prod.splits)
  then show ?thesis by (auto simp: scan_nul_Ok_iff)
qed

lemma read_nul_eval [io_simps]:
  "0 \<notin> set s \<Longrightarrow> length s \<le> limit \<Longrightarrow>
   read_nul long eof limit \<lparr>rx = s @ 0 # rest, tx = t, room = r\<rparr> = (Ok s, \<lparr>rx = rest, tx = t, room = r\<rparr>)"
  by (simp add: read_nul_Ok_iff)

lemma utf8_field_Ok_iff: "utf8_field m bs = Ok s \<longleftrightarrow> wf_str s \<and> bs = as_bytes s"
  by (auto simp: utf8_field_def from_utf8_Some_iff wf_str_def split: option.splits)

text \<open>Well-formed requests and their wire form, as the comment of \<^verbatim>\<open>read_socks4_request\<close> draws it.\<close>

definition wf_field :: "nat \<Rightarrow> string \<Rightarrow> bool" where
  "wf_field limit s \<longleftrightarrow> wf_str s \<and> 0 \<notin> set (as_bytes s) \<and> length s \<le> limit"

definition wf_socks4_request :: "socks4_request \<Rightarrow> bool" where
  "wf_socks4_request req \<longleftrightarrow>
    s4_command req = 0x01 \<and> sock_port (s4_addr req) = s4_port req \<and>
    wf_ip (sock_ip (s4_addr req)) \<and> (\<exists>ip. sock_ip (s4_addr req) = V4 ip) \<and>
    wf_field MAX_USER_ID_LEN (s4_user_id req) \<and>
    (case s4_domain req of
       None \<Rightarrow> \<not> socks4a_marker (octets (sock_ip (s4_addr req)))
     | Some d \<Rightarrow> socks4a_marker (octets (sock_ip (s4_addr req))) \<and> d \<noteq> [] \<and> wf_field MAX_DOMAIN_LEN d)"

definition encode_socks4_request :: "socks4_request \<Rightarrow> u8 list" where
  "encode_socks4_request req =
    [0x04, s4_command req] @ to_be_bytes (s4_port req) @ octets (sock_ip (s4_addr req)) @
    as_bytes (s4_user_id req) @ [0x00] @
    (case s4_domain req of None \<Rightarrow> [] | Some d \<Rightarrow> as_bytes d @ [0x00])"

lemma length_4_cases: "length ip = 4 \<longleftrightarrow> (\<exists>a b c d. ip = [a, b, c, d])"
  by (auto simp: numeral_eq_Suc length_Suc_conv)

lemma length_8_cases: "length xs = 8 \<longleftrightarrow> (\<exists>a b c d e f g h. xs = [a, b, c, d, e, f, g, h])"
  by (auto simp: numeral_eq_Suc length_Suc_conv)

definition domain_bytes :: "string option \<Rightarrow> u8 list" where
  "domain_bytes d = (case d of None \<Rightarrow> [] | Some s \<Rightarrow> as_bytes s @ [0])"

definition wf_domain :: "u8 list \<Rightarrow> string option \<Rightarrow> bool" where
  "wf_domain ip d =
    (case d of
       None \<Rightarrow> \<not> socks4a_marker ip
     | Some s \<Rightarrow> socks4a_marker ip \<and> s \<noteq> [] \<and> wf_field MAX_DOMAIN_LEN s)"

lemma utf8_field_eval [io_simps]: "wf_str s \<Longrightarrow> utf8_field m (as_bytes s) = Ok s"
  by (simp add: utf8_field_Ok_iff)

lemma socks4_domain_Ok:
  "read_socks4a_domain ip c = (Ok d, c') \<Longrightarrow>
   tx c' = tx c \<and> room c' = room c \<and> rx c = domain_bytes d @ rx c' \<and> wf_domain ip d"
  by (auto simp: read_socks4a_domain_def io_Ok_iffs read_nul_Ok_iff utf8_field_Ok_iff domain_bytes_def
      wf_domain_def wf_field_def split: if_splits)

lemma socks4_domain_eval [io_simps]:
  "wf_domain ip d \<Longrightarrow>
   read_socks4a_domain ip \<lparr>rx = domain_bytes d @ rest, tx = t, room = r\<rparr> = (Ok d, \<lparr>rx = rest, tx = t, room = r\<rparr>)"
  by (cases d) (auto simp: read_socks4a_domain_def domain_bytes_def wf_domain_def wf_field_def io_simps)

lemma read_socks4_request_eval [io_simps]:
  assumes "wf_socks4_request req"
  shows "read_socks4_request \<lparr>rx = encode_socks4_request req @ rest, tx = t, room = r\<rparr> =
    (Ok req, \<lparr>rx = rest, tx = t, room = r\<rparr>)"
proof -
  obtain cmd port ad uid dom where req: "req = \<lparr>s4_command = cmd, s4_port = port, s4_addr = ad,
    s4_user_id = uid, s4_domain = dom\<rparr>" by (cases req)
  obtain ip where ad: "ad = SocketAddr (V4 ip) port" "length ip = 4"
    using assms by (cases ad) (auto simp: wf_socks4_request_def req)
  then obtain a b c d where ip: "ip = [a, b, c, d]" by (auto simp: length_4_cases)
  have wf: "cmd = 1" "wf_field MAX_USER_ID_LEN uid" "wf_domain ip dom"
    using assms by (auto simp: wf_socks4_request_def req ad wf_domain_def split: option.splits)
  let ?h = "[4, 1] @ to_be_bytes port @ ip"
  have enc: "encode_socks4_request req @ rest = ?h @ as_bytes uid @ 0 # domain_bytes dom @ rest"
    using wf(1) by (simp add: encode_socks4_request_def req ad domain_bytes_def)
  have h: "read_exact Socks4_Io 8 \<lparr>rx = ?h @ xs, tx = t, room = r\<rparr> = (Ok ?h, \<lparr>rx = xs, tx = t, room = r\<rparr>)" for xs
    by (intro read_exact_append) (simp add: ip to_be_bytes_def)
  have ix: "?h ! 0 = 4" "?h ! 1 = 1" "from_be_bytes (?h ! 2) (?h ! 3) = port"
    "[?h ! 4, ?h ! 5, ?h ! 6, ?h ! 7] = ip"
    by (simp_all add: ip to_be_bytes_def)
  show ?thesis
    unfolding enc read_socks4_request_def
    by (subst io_bind_Ok, rule h, unfold Let_def ix)
      (use wf in \<open>simp add: io_simps wf_field_def req ad\<close>)
qed

lemma read_socks4_request_Ok:
  assumes "read_socks4_request c = (Ok req, c')"
  shows "wf_socks4_request req \<and> rx c = encode_socks4_request req @ rx c' \<and> tx c' = tx c \<and> room c' = room c"
proof -
  from assms obtain header uid d c1 where h: "length header = 8" "header ! 0 = 4" "header ! 1 = 1"
    "rx c = header @ as_bytes uid @ 0 # rx c1" "wf_field MAX_USER_ID_LEN uid"
    "tx c1 = tx c" "room c1 = room c"
    and d: "read_socks4a_domain [header ! 4, header ! 5, header ! 6, header ! 7] c1 = (Ok d, c')"
    and req: "req = \<lparr>s4_command = 1, s4_port = from_be_bytes (header ! 2) (header ! 3),
              s4_addr = SocketAddr (V4 [header ! 4, header ! 5, header ! 6, header ! 7])
                          (from_be_bytes (header ! 2) (header ! 3)),
              s4_user_id = uid, s4_domain = d\<rparr>"
    by (auto simp: read_socks4_request_def Let_def io_Ok_iffs read_nul_Ok_iff utf8_field_Ok_iff wf_field_def
        split: if_splits)
  have "header = [4, 1] @ to_be_bytes (from_be_bytes (header ! 2) (header ! 3)) @
      [header ! 4, header ! 5, header ! 6, header ! 7]"
    using h(1-3) by (auto simp: length_8_cases)
  with socks4_domain_Ok [OF d] h req show ?thesis
    by (cases d) (auto simp: wf_socks4_request_def encode_socks4_request_def wf_domain_def domain_bytes_def)
qed

text \<open>
  The SOCKS4 request reader accepts exactly the well-formed requests. It returns a request and
  leaves the rest of the stream untouched if and only if the stream begins with that request's
  wire form and the request is well formed: CONNECT, an IPv4 address, a user id and, precisely when
  the address is 0.0.0.x with x not 0, a non-empty domain, both valid UTF-8 without NUL and of at
  most 255 bytes.
\<close>

lemma read_socks4_request_iff:
  "read_socks4_request c = (Ok req, c') \<longleftrightarrow>
    wf_socks4_request req \<and> rx c = encode_socks4_request req @ rx c' \<and> tx c' = tx c \<and> room c' = room c"
  using read_socks4_request_Ok [of c req c'] read_socks4_request_eval [of req "rx c'" "tx c" "room c"]
  by (cases c; cases c') auto

subsection \<open>Client and server together\<close>

text \<open>The targets and user ids the wire format can carry.\<close>

definition socks4_expressible :: "target_addr \<Rightarrow> string option \<Rightarrow> bool" where
  "socks4_expressible target user_id \<longleftrightarrow>
    (case user_id of None \<Rightarrow> True | Some uid \<Rightarrow> wf_field MAX_USER_ID_LEN uid) \<and>
    (case tgt_host target of
       Ip (V4 ip) \<Rightarrow> length ip = 4 \<and> \<not> socks4a_marker ip
     | Ip (V6 _) \<Rightarrow> False
     | Domain d \<Rightarrow> d \<noteq> [] \<and> wf_field MAX_DOMAIN_LEN d)"

definition socks4_request_of :: "target_addr \<Rightarrow> string option \<Rightarrow> socks4_request" where
  "socks4_request_of target user_id =
    \<lparr>s4_command = 1, s4_port = tgt_port target,
     s4_addr = SocketAddr (case tgt_host target of Ip ip \<Rightarrow> ip | Domain _ \<Rightarrow> V4 [0, 0, 0, 1]) (tgt_port target),
     s4_user_id = (case user_id of None \<Rightarrow> [] | Some uid \<Rightarrow> uid),
     s4_domain = (case tgt_host target of Ip _ \<Rightarrow> None | Domain d \<Rightarrow> Some d)\<rparr>"

lemma socks4_request_bytes_encode:
  assumes "socks4_expressible target user_id"
  shows "socks4_request_bytes target user_id = Ok (encode_socks4_request (socks4_request_of target user_id)) \<and>
    wf_socks4_request (socks4_request_of target user_id) \<and>
    socks4_target (socks4_request_of target user_id) = target"
  using assms
  by (cases target; cases user_id)
    (auto simp: socks4_expressible_def socks4_request_bytes_def encode_socks4_request_def socks4_request_of_def
      wf_socks4_request_def socks4_target_def user_id_bytes_def wf_field_def socks4a_marker_def wf_str_def
      split: target_host.splits ip_addr.splits)

fun socks4_outcome :: "socks4_status \<Rightarrow> socks4_error + unit" where
  "socks4_outcome Granted = Ok ()"
| "socks4_outcome Failed = Err Socks4_ConnectionFailed"
| "socks4_outcome FailedNoIdent = Err Socks4_FailedNoIdent"
| "socks4_outcome FailedDifferentUser = Err Socks4_FailedDifferentUser"

lemma read_socks4_reply_eval [io_simps]:
  "read_socks4_reply \<lparr>rx = socks4_reply_bytes status addr @ rest, tx = t, room = r\<rparr> =
    (socks4_outcome status, \<lparr>rx = rest, tx = t, room = r\<rparr>)"
proof -
  have "read_exact Socks4_Io 8 \<lparr>rx = socks4_reply_bytes status addr @ rest, tx = t, room = r\<rparr> =
      (Ok (socks4_reply_bytes status addr), \<lparr>rx = rest, tx = t, room = r\<rparr>)"
    by (intro read_exact_append) (simp add: socks4_reply_bytes_def Let_def)
  moreover have "socks4_reply_bytes status addr ! 0 = 0"
      "socks4_reply_bytes status addr ! 1 = socks4_status_byte status"
    by (simp_all add: socks4_reply_bytes_def Let_def)
  ultimately show ?thesis
    by (cases status) (simp_all add: read_socks4_reply_def Let_def Socks4Status_from_u8_def)
qed

text \<open>
  SOCKS4 client and server agree. For every target and user id the wire format can carry, the
  client's request is read by the server as that target and user id, with nothing read beyond it;
  the server's reply of any status, to any bound address, is read by the client as that status,
  success exactly for a grant, with the tunnelled bytes behind it left in the stream.
\<close>

lemma socks4_interop:
  assumes "socks4_expressible target user_id"
    and "length (encode_socks4_request (socks4_request_of target user_id)) \<le> room_c"
  shows "\<exists>request req.
    socks4_connect target user_id \<lparr>rx = socks4_reply_bytes status addr @ payload, tx = [], room = room_c\<rparr> =
      (socks4_outcome status, \<lparr>rx = payload, tx = request, room = room_c - length request\<rparr>) \<and>
    read_socks4_request \<lparr>rx = request @ extra, tx = [], room = room_s\<rparr> =
      (Ok req, \<lparr>rx = extra, tx = [], room = room_s\<rparr>) \<and>
    socks4_target req = target \<and> s4_user_id req = (case user_id of None \<Rightarrow> [] | Some uid \<Rightarrow> uid)"
proof -
  let ?req = "socks4_request_of target user_id"
  note r = socks4_request_bytes_encode [OF assms(1)]
  have "socks4_connect target user_id \<lparr>rx = socks4_reply_bytes status addr @ payload, tx = [], room = room_c\<rparr> =
      (socks4_outcome status,
       \<lparr>rx = payload, tx = encode_socks4_request ?req, room = room_c - length (encode_socks4_request ?req)\<rparr>)"
    using r assms(2) by (simp add: socks4_connect_def io_simps)
  moreover have "s4_user_id ?req = (case user_id of None \<Rightarrow> [] | Some uid \<Rightarrow> uid)"
    by (simp add: socks4_request_of_def)
  ultimately show ?thesis using r read_socks4_request_eval by blast
qed

lemma socks4_interop_witness:
  "\<exists>request req.
    socks4_connect \<lparr>tgt_host = Domain ''a.b'', tgt_port = 443\<rparr> (Some ''u'')
      \<lparr>rx = socks4_reply_bytes Granted (SocketAddr (V4 [0, 0, 0, 0]) 0) @ [7], tx = [], room = 64\<rparr> =
      (Ok (), \<lparr>rx = [7], tx = request, room = 64 - length request\<rparr>) \<and>
    read_socks4_request \<lparr>rx = request @ [9], tx = [], room = 0\<rparr> = (Ok req, \<lparr>rx = [9], tx = [], room = 0\<rparr>) \<and>
    socks4_target req = \<lparr>tgt_host = Domain ''a.b'', tgt_port = 443\<rparr> \<and> s4_user_id req = ''u''"
  using socks4_interop [of "\<lparr>tgt_host = Domain ''a.b'', tgt_port = 443\<rparr>" "Some ''u''" 64 Granted
    "SocketAddr (V4 [0, 0, 0, 0]) 0" "[7]" "[9]" 0]
  by (simp add: socks4_expressible_def wf_field_def wf_str_def socks4_consts encode_socks4_request_def
      socks4_request_of_def as_bytes_def byte_of_char_def)

text \<open>
  The client does not check what it writes. A domain with a NUL in it is read as its first part,
  and what follows becomes tunnelled data; an IPv4 target 0.0.0.x is read as a SOCKS4a request
  whose domain never comes.
\<close>

lemma socks4_nul_domain_misread:
  assumes "wf_field MAX_DOMAIN_LEN a" "a \<noteq> []" "length a + length b < MAX_DOMAIN_LEN"
  shows "\<exists>request req.
    socks4_request_bytes \<lparr>tgt_host = Domain (a @ CHR 0x00 # b), tgt_port = p\<rparr> None = Ok request \<and>
    read_socks4_request \<lparr>rx = request, tx = [], room = 0\<rparr> =
      (Ok req, \<lparr>rx = as_bytes b @ [0], tx = [], room = 0\<rparr>) \<and>
    socks4_target req = \<lparr>tgt_host = Domain a, tgt_port = p\<rparr>"
proof -
  let ?t = "\<lparr>tgt_host = Domain a, tgt_port = p\<rparr>"
  have e: "socks4_expressible ?t None" using assms by (simp add: socks4_expressible_def)
  have "socks4_request_bytes \<lparr>tgt_host = Domain (a @ CHR 0x00 # b), tgt_port = p\<rparr> None =
      Ok (encode_socks4_request (socks4_request_of ?t None) @ as_bytes b @ [0])"
    using assms(3) by (simp add: socks4_request_bytes_def encode_socks4_request_def socks4_request_of_def
        user_id_bytes_def as_bytes_def byte_of_char_def)
  then show ?thesis
    using read_socks4_request_eval [of "socks4_request_of ?t None" "as_bytes b @ [0]" "[]" 0]
      socks4_request_bytes_encode [OF e] by auto
qed

lemma socks4_zero_net_rejected:
  assumes "x \<noteq> 0"
  shows "\<exists>request. socks4_request_bytes \<lparr>tgt_host = Ip (V4 [0, 0, 0, x]), tgt_port = p\<rparr> None = Ok request \<and>
    read_socks4_request \<lparr>rx = request, tx = [], room = 0\<rparr> =
      (Err (Socks4_MalformedRequest ''unexpected EOF reading domain''), \<lparr>rx = [], tx = [], room = 0\<rparr>)"
  using assms
  by (simp add: socks4_request_bytes_def user_id_bytes_def read_socks4_request_def read_socks4a_domain_def
      read_exact_def read_nul_def io_bind_def to_be_bytes_def socks4a_marker_def utf8_field_def from_utf8_def
      socks4_consts str_of_bytes_def)

end
