(* ===== verification/Http_Body.thy ===== *)
theory Http_Body
  imports Http_Text
begin

text \<open>
  Request bodies of the forward proxy (\<^verbatim>\<open>eggress-protocol-http/src/forward/server.rs\<close>): how a body
  is framed and how it is copied from one connection to another. Results: the framing decision
  is unambiguous; a copied body is forwarded byte for byte, it is exactly one body of the framing
  that was decided, it stays within the limits, and every such body is copied.
\<close>

type_synonym header = "string \<times> string"

record body_copy_limits =
  max_chunk_size_line :: nat
  max_chunk_size :: nat
  max_decoded_body :: nat
  max_trailer_line :: nat
  max_trailer_bytes :: nat

definition BodyCopyLimits_default :: body_copy_limits where
  "BodyCopyLimits_default =
    \<lparr>max_chunk_size_line = 1024, max_chunk_size = 64 * 1024 * 1024, max_decoded_body = 64 * 1024 * 1024,
     max_trailer_line = 8192, max_trailer_bytes = 32 * 1024\<rparr>"

record body_copy_report =
  wire_bytes :: nat
  decoded_bytes :: nat

datatype request_body_kind = Body_None | ContentLength nat | Chunked

subsection \<open>The framing of a request\<close>

text \<open>The loop over the headers: the lengths and the transfer codings, in order.\<close>

fun collect_framing :: "header list \<Rightarrow> http_error + (nat list \<times> string list)" where
  "collect_framing [] = Ok ([], [])"
| "collect_framing ((name, value) # hs) =
    (if eq_ignore_ascii_case name ''Content-Length'' then
       (case parse_u64_radix 10 (trim value) of
          Inl _ \<Rightarrow> Err InvalidContentLength
        | Inr len \<Rightarrow> try_bind (collect_framing hs) (\<lambda>(ls, ts). Ok (len # ls, ts)))
     else if eq_ignore_ascii_case name ''Transfer-Encoding'' then
       try_bind (collect_framing hs)
         (\<lambda>(ls, ts). Ok (ls, filter (\<lambda>c. c \<noteq> []) (map trim (split_on CHR '','' value)) @ ts))
     else collect_framing hs)"

definition is_chunked_coding :: "string \<Rightarrow> bool" where
  "is_chunked_coding c \<longleftrightarrow> eq_ignore_ascii_case c ''chunked''"

definition determine_request_body_kind :: "header list \<Rightarrow> http_error + request_body_kind" where
  "determine_request_body_kind headers =
    try_bind (collect_framing headers) (\<lambda>(content_lengths, transfer_encodings).
      if content_lengths \<noteq> [] \<and> (\<exists>cl \<in> set content_lengths. cl \<noteq> hd content_lengths)
      then Err ConflictingContentLength
      else if transfer_encodings \<noteq> [] then
        (if content_lengths \<noteq> [] then Err TransferEncodingWithContentLength
         else if (\<exists>c \<in> set transfer_encodings. is_chunked_coding c) \<and>
                 \<not> is_chunked_coding (last transfer_encodings)
         then Err ChunkedNotFinal
         else (case find (\<lambda>c. \<not> is_chunked_coding c) transfer_encodings of
                 Some coding \<Rightarrow> Err (UnsupportedTransferEncoding coding)
               | None \<Rightarrow> Ok Chunked))
      else (case content_lengths of len # _ \<Rightarrow> Ok (ContentLength len) | [] \<Rightarrow> Ok Body_None))"

subsection \<open>Lines\<close>

definition CRLF_bytes :: "u8 list" where "CRLF_bytes = [13, 10]"

definition ends_crlf :: "u8 list \<Rightarrow> bool" where
  "ends_crlf line \<longleftrightarrow> 2 \<le> length line \<and> drop (length line - 2) line = CRLF_bytes"

text \<open>
  \<^verbatim>\<open>read_bounded_line\<close> and \<^verbatim>\<open>read_bounded_line_into\<close>, which differ in the kind of error \<open>mk\<close>: the
  bytes read so far, and the bytes the connection still has.
\<close>

fun read_line_loop ::
  "(string \<Rightarrow> http_error) \<Rightarrow> nat \<Rightarrow> u8 list \<Rightarrow> u8 list \<Rightarrow> (http_error + u8 list) \<times> u8 list" where
  "read_line_loop mk max_len line [] =
    (if max_len \<le> length line then (Err (mk ''line too long''), [])
     else if line = [] then (Err (mk ''unexpected EOF''), [])
     else (Err (mk ''incomplete line''), []))"
| "read_line_loop mk max_len line (b # bs) =
    (if max_len \<le> length line then (Err (mk ''line too long''), b # bs)
     else if ends_crlf (line @ [b]) then (Ok (line @ [b]), bs)
     else read_line_loop mk max_len (line @ [b]) bs)"

definition read_bounded_line :: "nat \<Rightarrow> (http_error, u8 list) io" where
  "read_bounded_line max_len c =
    (case read_line_loop MalformedRequest max_len [] (rx c) of (r, rest) \<Rightarrow> (r, c\<lparr>rx := rest\<rparr>))"

definition read_bounded_line_into :: "nat \<Rightarrow> (http_error, u8 list) io" where
  "read_bounded_line_into max_len c =
    (case read_line_loop MalformedResponse max_len [] (rx c) of (r, rest) \<Rightarrow> (r, c\<lparr>rx := rest\<rparr>))"

definition parse_chunk_size :: "u8 list \<Rightarrow> http_error + nat" where
  "parse_chunk_size line =
    (let size_field = takeWhile (\<lambda>b. b \<noteq> 0x3B) line in
     if size_field = [] then Err (MalformedRequest ''empty chunk size'')
     else (case from_utf8 size_field of
             None \<Rightarrow> Err (MalformedRequest ''invalid chunk size encoding'')
           | Some size_str \<Rightarrow>
               (case parse_u64_radix 16 (trim size_str) of
                  Inl _ \<Rightarrow> Err (MalformedRequest ''invalid chunk size'')
                | Inr n \<Rightarrow> Ok n)))"

subsection \<open>Copying\<close>

text \<open>
  \<^verbatim>\<open>read\<close> into a buffer of \<open>n\<close> bytes gives what is there, at most \<open>n\<close> bytes; the loops below only
  accumulate, so how the transport splits the bytes does not matter to their result.
\<close>

definition read_some :: "nat \<Rightarrow> conn \<Rightarrow> u8 list \<times> conn" where
  "read_some n c = (take n (rx c), c\<lparr>rx := drop n (rx c)\<rparr>)"

text \<open>The reader \<open>r\<close> and the writer \<open>w\<close> of a copy are two connections.\<close>

function copy_exact :: "http_error \<Rightarrow> nat \<Rightarrow> conn \<Rightarrow> conn \<Rightarrow> (http_error + unit) \<times> conn \<times> conn" where
  "copy_exact eof remaining r w =
    (if remaining = 0 then (Ok (), r, w)
     else (case read_some (min remaining 8192) r of (bs, r1) \<Rightarrow>
       if bs = [] then (Err eof, r1, w)
       else (case write_all http_io bs w of
               (Inl e, w1) \<Rightarrow> (Err e, r1, w1)
             | (Inr _, w1) \<Rightarrow> copy_exact eof (remaining - length bs) r1 w1)))"
  by pat_completeness auto
termination
  by (relation "measure (\<lambda>(eof, remaining, r, w). remaining)") auto

declare copy_exact.simps [simp del]

definition copy_content_length_body :: "nat \<Rightarrow> conn \<Rightarrow> conn \<Rightarrow> (http_error + body_copy_report) \<times> conn \<times> conn" where
  "copy_content_length_body len r w =
    (case copy_exact (MalformedRequest ''unexpected EOF in body'') len r w of
       (Inl e, r1, w1) \<Rightarrow> (Err e, r1, w1)
     | (Inr _, r1, w1) \<Rightarrow> (Ok \<lparr>wire_bytes = len, decoded_bytes = len\<rparr>, r1, w1))"

lemma read_line_loop_shorter:
  "read_line_loop mk m line bs = (r, rest) \<Longrightarrow> length rest \<le> length bs \<and> (r = Ok l \<longrightarrow> length rest < length bs)"
  by (induction bs arbitrary: line) (auto split: if_splits, fastforce+)

lemma read_bounded_line_shorter:
  "read_bounded_line m c = (r, c') \<Longrightarrow> length (rx c') \<le> length (rx c) \<and> (r = Ok l \<longrightarrow> length (rx c') < length (rx c))"
  using read_line_loop_shorter [of MalformedRequest m "[]" "rx c" r "rx c'" l]
  by (auto simp: read_bounded_line_def split: prod.splits)

text \<open>The trailer lines behind the last chunk.\<close>

function copy_trailers ::
  "body_copy_limits \<Rightarrow> nat \<Rightarrow> nat \<Rightarrow> conn \<Rightarrow> conn \<Rightarrow> (http_error + nat) \<times> conn \<times> conn" where
  "copy_trailers limits wire trailer_bytes r w =
    (case read_bounded_line (max_trailer_line limits) r of
       (Inl e, r1) \<Rightarrow> (Err e, r1, w)
     | (Inr trailer, r1) \<Rightarrow>
         (let wire1 = wire + length trailer; trailer_bytes1 = trailer_bytes + length trailer in
          if max_trailer_bytes limits < trailer_bytes1
          then (Err (MalformedRequest ''trailers too large''), r1, w)
          else (case write_all http_io trailer w of
                  (Inl e, w1) \<Rightarrow> (Err e, r1, w1)
                | (Inr _, w1) \<Rightarrow>
                    if trailer = CRLF_bytes then (Ok wire1, r1, w1)
                    else copy_trailers limits wire1 trailer_bytes1 r1 w1)))"
  by pat_completeness auto
termination
  by (relation "measure (\<lambda>(limits, wire, t, r, w). length (rx r))") (auto dest!: read_bounded_line_shorter [OF sym])

declare copy_trailers.simps [simp del]

lemma copy_exact_step:
  "n \<noteq> 0 \<Longrightarrow> copy_exact eof n r w =
    (let bs = take (min n 8192) (rx r); r1 = r\<lparr>rx := drop (min n 8192) (rx r)\<rparr> in
     if bs = [] then (Err eof, r1, w)
     else (case write_all http_io bs w of
             (Inl e, w1) \<Rightarrow> (Err e, r1, w1)
           | (Inr _, w1) \<Rightarrow> copy_exact eof (n - length bs) r1 w1))"
  by (simp add: copy_exact.simps [of eof n] read_some_def Let_def)

lemma copy_exact_suffix: "copy_exact eof n r w = (x, r', w') \<Longrightarrow> \<exists>got. rx r = got @ rx r'"
proof (induction n arbitrary: r w rule: less_induct)
  case (less n)
  show ?case
  proof (cases "n = 0")
    case True
    with less.prems show ?thesis by (simp add: copy_exact.simps)
  next
    case False
    define bs where "bs = take (min n 8192) (rx r)"
    define r1 where "r1 = r\<lparr>rx := drop (min n 8192) (rx r)\<rparr>"
    have r: "rx r = bs @ rx r1" by (simp add: bs_def r1_def)
    note p = less.prems [unfolded copy_exact_step [OF False], folded bs_def r1_def, unfolded Let_def]
    show ?thesis
    proof (cases "bs \<noteq> [] \<and> (\<exists>u w1. write_all http_io bs w = (Ok u, w1))")
      case True
      then obtain w1 where "copy_exact eof (n - length bs) r1 w1 = (x, r', w')" using p by auto
      with less.IH [of "n - length bs" r1 w1] True False r show ?thesis by force
    qed (use p r in \<open>auto split: if_splits prod.splits sum.splits\<close>)
  qed
qed

lemma copy_exact_shorter: "copy_exact eof n r w = (x, r', w') \<Longrightarrow> length (rx r') \<le> length (rx r)"
  using copy_exact_suffix by fastforce

lemma read_exact_shorter: "read_exact e n c = (x, c') \<Longrightarrow> length (rx c') \<le> length (rx c)"
  by (auto simp: read_exact_def split: if_splits)

text \<open>The loop over the chunks; the counters are 64 bits wide, and the sum of sizes is checked.\<close>

function copy_chunks ::
  "body_copy_limits \<Rightarrow> nat \<Rightarrow> nat \<Rightarrow> conn \<Rightarrow> conn \<Rightarrow> (http_error + body_copy_report) \<times> conn \<times> conn" where
  "copy_chunks limits wire decoded r w =
    (case read_bounded_line (max_chunk_size_line limits) r of
       (Inl e, r1) \<Rightarrow> (Err e, r1, w)
     | (Inr size_line, r1) \<Rightarrow>
         (case parse_chunk_size size_line of
            Inl e \<Rightarrow> (Err e, r1, w)
          | Inr chunk_size \<Rightarrow>
              (case write_all http_io size_line w of
                 (Inl e, w1) \<Rightarrow> (Err e, r1, w1)
               | (Inr _, w1) \<Rightarrow>
                   (let wire1 = wire + length size_line in
                    if chunk_size = 0 then
                      (case copy_trailers limits wire1 0 r1 w1 of
                         (Inl e, r2, w2) \<Rightarrow> (Err e, r2, w2)
                       | (Inr wire2, r2, w2) \<Rightarrow> (Ok \<lparr>wire_bytes = wire2, decoded_bytes = decoded\<rparr>, r2, w2))
                    else if max_chunk_size limits < chunk_size
                    then (Err (MalformedRequest ''chunk too large''), r1, w1)
                    else if U64_MAX < decoded + chunk_size \<or> max_decoded_body limits < decoded + chunk_size
                    then (Err (MalformedRequest ''decoded body too large''), r1, w1)
                    else (case copy_exact (MalformedRequest ''unexpected EOF in chunk data'') chunk_size r1 w1 of
                            (Inl e, r2, w2) \<Rightarrow> (Err e, r2, w2)
                          | (Inr _, r2, w2) \<Rightarrow>
                              (case read_exact http_io 2 r2 of
                                 (Inl e, r3) \<Rightarrow> (Err e, r3, w2)
                               | (Inr end_of_chunk, r3) \<Rightarrow>
                                   if end_of_chunk \<noteq> CRLF_bytes
                                   then (Err (MalformedRequest ''missing CRLF after chunk data''), r3, w2)
                                   else (case write_all http_io end_of_chunk w2 of
                                           (Inl e, w3) \<Rightarrow> (Err e, r3, w3)
                                         | (Inr _, w3) \<Rightarrow>
                                             copy_chunks limits (wire1 + chunk_size + 2) (decoded + chunk_size) r3 w3)))))))"
  by pat_completeness auto
termination
proof (relation "measure (\<lambda>(limits, wire, d, r, w). length (rx r))", goal_cases)
  case (2 limits wire decoded r w)
  then show ?case
    by (auto dest!: read_bounded_line_shorter [OF sym] copy_exact_shorter [OF sym] read_exact_shorter [OF sym])
qed simp

declare copy_chunks.simps [simp del]

definition copy_chunked_body ::
  "body_copy_limits \<Rightarrow> conn \<Rightarrow> conn \<Rightarrow> (http_error + body_copy_report) \<times> conn \<times> conn" where
  "copy_chunked_body limits r w = copy_chunks limits 0 0 r w"

definition copy_request_body ::
  "request_body_kind \<Rightarrow> body_copy_limits \<Rightarrow> conn \<Rightarrow> conn \<Rightarrow> (http_error + body_copy_report) \<times> conn \<times> conn" where
  "copy_request_body kind limits r w =
    (case kind of
       Body_None \<Rightarrow> (Ok \<lparr>wire_bytes = 0, decoded_bytes = 0\<rparr>, r, w)
     | ContentLength len \<Rightarrow>
         if max_decoded_body limits < len then (Err (MalformedRequest ''decoded body too large''), r, w)
         else copy_content_length_body len r w
     | Chunked \<Rightarrow> copy_chunked_body limits r w)"

subsection \<open>What lines are read\<close>

definition crlf_line :: "u8 list \<Rightarrow> bool" where
  "crlf_line l \<longleftrightarrow> ends_crlf l \<and> (\<forall>k < length l. \<not> ends_crlf (take k l))"

lemma read_line_loop_Ok_iff:
  "read_line_loop mk m line bs = (Ok l, rest) \<longleftrightarrow>
    (\<exists>more. more \<noteq> [] \<and> l = line @ more \<and> bs = more @ rest \<and> length l \<le> m \<and> ends_crlf l \<and>
      (\<forall>k. length line < k \<longrightarrow> k < length l \<longrightarrow> \<not> ends_crlf (take k l)))"
proof (induction bs arbitrary: line)
  case (Cons b bs)
  have take1: "take (Suc (length line)) (line @ b # more) = line @ [b]" for more by simp
  show ?case
  proof (cases "m \<le> length line \<or> ends_crlf (line @ [b])")
    case True
    show ?thesis
    proof (cases "m \<le> length line")
      case False
      with True have e: "ends_crlf (line @ [b])" by simp
      have u: "more = [b]" if m: "more \<noteq> []" "b # bs = more @ rest'" "\<forall>k. length line < k \<longrightarrow> k < length (line @ more) \<longrightarrow>
          \<not> ends_crlf (take k (line @ more))" for more rest'
      proof -
        from m(1,2) obtain more' where more: "more = b # more'" by (cases more) auto
        with m(3) e take1 [of more'] have "\<not> Suc (length line) < length (line @ more)" by (metis lessI)
        with more show ?thesis by simp
      qed
      have "read_line_loop mk m line (b # bs) = (Ok (line @ [b]), bs)" using False e by simp
      moreover have "(\<exists>more. more \<noteq> [] \<and> l = line @ more \<and> b # bs = more @ rest \<and> length l \<le> m \<and> ends_crlf l \<and>
          (\<forall>k. length line < k \<longrightarrow> k < length l \<longrightarrow> \<not> ends_crlf (take k l))) \<longleftrightarrow> l = line @ [b] \<and> rest = bs" (is "?L = ?R")
      proof
        assume ?L
        then obtain more where m: "more \<noteq> []" "l = line @ more" "b # bs = more @ rest"
          "\<forall>k. length line < k \<longrightarrow> k < length l \<longrightarrow> \<not> ends_crlf (take k l)" by blast
        then show ?R using u [of more rest] by simp
      next
        assume ?R
        with False e show ?L by (intro exI [of _ "[b]"]) auto
      qed
      ultimately show ?thesis by auto
    next
      case True
      have no: False if "more \<noteq> []" "l = line @ more" "length l \<le> m" for more
        using True that by (cases more) auto
      show ?thesis using True no by (simp only: read_line_loop.simps if_True) blast
    qed
  next
    case False
    have "(\<exists>more. more \<noteq> [] \<and> l = line @ more \<and> b # bs = more @ rest \<and> length l \<le> m \<and> ends_crlf l \<and>
        (\<forall>k. length line < k \<longrightarrow> k < length l \<longrightarrow> \<not> ends_crlf (take k l))) \<longleftrightarrow>
      (\<exists>more. more \<noteq> [] \<and> l = (line @ [b]) @ more \<and> bs = more @ rest \<and> length l \<le> m \<and> ends_crlf l \<and>
        (\<forall>k. length (line @ [b]) < k \<longrightarrow> k < length l \<longrightarrow> \<not> ends_crlf (take k l)))"
      (is "?L \<longleftrightarrow> ?R")
    proof
      assume ?L
      then obtain more where m: "more \<noteq> []" "l = line @ more" "b # bs = more @ rest" "length l \<le> m" "ends_crlf l"
        "\<And>k. length line < k \<Longrightarrow> k < length l \<Longrightarrow> \<not> ends_crlf (take k l)" by blast
      then obtain more' where "more = b # more'" by (cases more) auto
      with m False show ?R by (intro exI [of _ more']) auto
    next
      assume ?R
      then obtain more where m: "more \<noteq> []" "l = (line @ [b]) @ more" "bs = more @ rest" "length l \<le> m" "ends_crlf l"
        "\<And>k. length (line @ [b]) < k \<Longrightarrow> k < length l \<Longrightarrow> \<not> ends_crlf (take k l)" by blast
      have "\<not> ends_crlf (take k l)" if k: "length line < k" "k < length l" for k
      proof (cases "k = Suc (length line)")
        case True
        then show ?thesis using False m(2) take1 [of more] by simp
      qed (use m(6) [of k] k in simp)
      with m show ?L by (intro exI [of _ "b # more"]) simp
    qed
    with Cons.IH [of "line @ [b]"] False show ?thesis by simp
  qed
qed auto

lemma read_line_Ok_iff:
  "read_line_loop mk m [] bs = (Ok l, rest) \<longleftrightarrow> bs = l @ rest \<and> crlf_line l \<and> length l \<le> m"
proof -
  have "\<not> ends_crlf (take 0 l)" and "ends_crlf l \<Longrightarrow> l \<noteq> []" by (auto simp: ends_crlf_def)
  then show ?thesis unfolding read_line_loop_Ok_iff crlf_line_def by (metis append_Nil gr0I length_0_conv list.size(3))
qed

lemma read_bounded_line_Ok_iff:
  "read_bounded_line m c = (Ok l, c') \<longleftrightarrow>
    rx c = l @ rx c' \<and> tx c' = tx c \<and> room c' = room c \<and> crlf_line l \<and> length l \<le> m"
proof -
  obtain x rest where r: "read_line_loop MalformedRequest m [] (rx c) = (x, rest)" by fastforce
  show ?thesis
    using read_line_Ok_iff [of MalformedRequest m "rx c" l "rx c'"] r
    by (cases c; cases c') (auto simp: read_bounded_line_def)
qed

text \<open>A line is determined by what it is a prefix of.\<close>

lemma crlf_line_unique:
  assumes "crlf_line l" "crlf_line l'" "l @ r = l' @ r'"
  shows "l = l' \<and> r = r'"
proof -
  have "length l = length l'"
  proof (rule ccontr)
    assume "length l \<noteq> length l'"
    then consider "length l < length l'" | "length l' < length l" by linarith
    then show False
    proof cases
      case 1
      then have "take (length l) l' = l" using arg_cong [OF assms(3), of "take (length l)"] by simp
      with 1 assms(1,2) show False by (metis crlf_line_def)
    next
      case 2
      then have "take (length l') l = l'" using arg_cong [OF assms(3), of "take (length l')"] by simp
      with 2 assms(1,2) show False by (metis crlf_line_def)
    qed
  qed
  with assms(3) show ?thesis by simp
qed

lemma crlf_line_CRLF [simp]: "crlf_line CRLF_bytes"
  by (auto simp: crlf_line_def CRLF_bytes_def ends_crlf_def less_Suc_eq)

subsection \<open>Chunked bodies\<close>

text \<open>The lines behind the last chunk, up to and including the empty one.\<close>

inductive trailer_lines :: "body_copy_limits \<Rightarrow> u8 list \<Rightarrow> bool" for limits where
  trailers_end: "length CRLF_bytes \<le> max_trailer_line limits \<Longrightarrow> trailer_lines limits CRLF_bytes"
| trailers_line: "crlf_line l \<Longrightarrow> l \<noteq> CRLF_bytes \<Longrightarrow> length l \<le> max_trailer_line limits \<Longrightarrow> trailer_lines limits ts \<Longrightarrow>
    trailer_lines limits (l @ ts)"

text \<open>A chunked body and the data it carries.\<close>

inductive chunked_body :: "body_copy_limits \<Rightarrow> u8 list \<Rightarrow> u8 list \<Rightarrow> bool" for limits where
  last_chunk: "crlf_line l \<Longrightarrow> length l \<le> max_chunk_size_line limits \<Longrightarrow> parse_chunk_size l = Ok 0 \<Longrightarrow>
    trailer_lines limits ts \<Longrightarrow> length ts \<le> max_trailer_bytes limits \<Longrightarrow> chunked_body limits (l @ ts) []"
| a_chunk: "crlf_line l \<Longrightarrow> length l \<le> max_chunk_size_line limits \<Longrightarrow> parse_chunk_size l = Ok (length d) \<Longrightarrow> d \<noteq> [] \<Longrightarrow>
    length d \<le> max_chunk_size limits \<Longrightarrow> chunked_body limits body data \<Longrightarrow>
    chunked_body limits (l @ d @ CRLF_bytes @ body) (d @ data)"

inductive_cases trailer_linesE: "trailer_lines limits ts"
inductive_cases chunked_bodyE: "chunked_body limits body data"

lemma copy_exact_Ok_iff:
  "copy_exact eof n r w = (Ok u, r', w') \<longleftrightarrow>
    n \<le> length (rx r) \<and> n \<le> room w \<and> r' = r\<lparr>rx := drop n (rx r)\<rparr> \<and>
    w' = w\<lparr>tx := tx w @ take n (rx r), room := room w - n\<rparr>"
proof (induction n arbitrary: r w rule: less_induct)
  case (less n)
  show ?case
  proof (cases "n = 0")
    case True
    then show ?thesis by (auto simp: copy_exact.simps)
  next
    case False
    define bs where "bs = take (min n 8192) (rx r)"
    define r1 where "r1 = r\<lparr>rx := drop (min n 8192) (rx r)\<rparr>"
    have step: "copy_exact eof n r w = (if bs = [] then (Err eof, r1, w)
       else (case write_all http_io bs w of
             (Inl e, w1) \<Rightarrow> (Err e, r1, w1)
           | (Inr _, w1) \<Rightarrow> copy_exact eof (n - length bs) r1 w1))"
      unfolding copy_exact_step [OF False] Let_def bs_def [symmetric] r1_def [symmetric] ..
    show ?thesis
    proof (cases "bs \<noteq> [] \<and> length bs \<le> room w")
      case True
      define w1 where "w1 = w\<lparr>tx := tx w @ bs, room := room w - length bs\<rparr>"
      have "copy_exact eof n r w = copy_exact eof (n - length bs) r1 w1"
        using True by (simp add: step write_all_def w1_def)
      moreover have le: "length bs \<le> n" "rx r = bs @ rx r1" by (auto simp: bs_def r1_def)
      moreover have dr: "take n (rx r) = bs @ take (n - length bs) (rx r1)" "drop n (rx r) = drop (n - length bs) (rx r1)"
        using le by simp_all
      moreover have "n - length bs < n" using True False by simp
      moreover have "r\<lparr>rx := drop n (rx r)\<rparr> = r1\<lparr>rx := drop (n - length bs) (rx r1)\<rparr>"
        unfolding dr(2) by (simp add: r1_def)
      moreover have "w\<lparr>tx := tx w @ bs @ take (n - length bs) (rx r1), room := room w - n\<rparr> =
          w1\<lparr>tx := tx w1 @ take (n - length bs) (rx r1), room := room w1 - (n - length bs)\<rparr>"
        using le by (simp add: w1_def)
      moreover have "n \<le> length (rx r) \<and> n \<le> room w \<longleftrightarrow> n - length bs \<le> length (rx r1) \<and> n - length bs \<le> room w1"
        using le True by (auto simp: w1_def)
      ultimately show ?thesis using less.IH [of "n - length bs" r1 w1] by metis
    next
      case no: False
      then have "\<not> (n \<le> length (rx r) \<and> n \<le> room w)" using False by (auto simp: bs_def)
      moreover have "copy_exact eof n r w \<noteq> (Ok u, r', w')"
        using no by (auto simp: step write_all_def)
      ultimately show ?thesis by blast
    qed
  qed
qed

text \<open>\<open>moved bs r w r' w'\<close>: the bytes \<open>bs\<close> went from the reader \<open>r\<close> to the writer \<open>w\<close>.\<close>

definition moved :: "u8 list \<Rightarrow> conn \<Rightarrow> conn \<Rightarrow> conn \<Rightarrow> conn \<Rightarrow> bool" where
  "moved bs r w r' w' \<longleftrightarrow>
    rx r = bs @ rx r' \<and> tx r' = tx r \<and> room r' = room r \<and>
    length bs \<le> room w \<and> rx w' = rx w \<and> tx w' = tx w @ bs \<and> room w' = room w - length bs"

lemma moved_append: "moved (a @ b) r w r' w' \<longleftrightarrow> (\<exists>r1 w1. moved a r w r1 w1 \<and> moved b r1 w1 r' w')"
proof
  assume m: "moved (a @ b) r w r' w'"
  let ?r = "r\<lparr>rx := b @ rx r'\<rparr>" and ?w = "w\<lparr>tx := tx w @ a, room := room w - length a\<rparr>"
  have "moved a r w ?r ?w \<and> moved b ?r ?w r' w'" using m by (auto simp: moved_def)
  then show "\<exists>r1 w1. moved a r w r1 w1 \<and> moved b r1 w1 r' w'" by blast
qed (auto simp: moved_def)

lemma moved_line:
  "read_bounded_line m r = (Ok l, r1) \<and> write_all http_io l w = (Ok u, w1) \<longleftrightarrow>
    moved l r w r1 w1 \<and> crlf_line l \<and> length l \<le> m"
  by (auto simp: moved_def read_bounded_line_Ok_iff write_all_Ok_iff)

lemma moved_data: "copy_exact eof n r w = (Ok u, r1, w1) \<longleftrightarrow> (\<exists>d. length d = n \<and> moved d r w r1 w1)"
proof -
  have "(\<exists>d. length d = n \<and> moved d r w r1 w1) \<longleftrightarrow> n \<le> length (rx r) \<and> moved (take n (rx r)) r w r1 w1"
    by (auto simp: moved_def)
  moreover have "n \<le> length (rx r) \<and> moved (take n (rx r)) r w r1 w1 \<longleftrightarrow> n \<le> length (rx r) \<and> n \<le> room w \<and>
      r1 = r\<lparr>rx := drop n (rx r)\<rparr> \<and> w1 = w\<lparr>tx := tx w @ take n (rx r), room := room w - n\<rparr>"
    by (cases r; cases w; cases r1; cases w1) (auto simp: moved_def min_absorb2, metis append_take_drop_id same_append_eq)
  ultimately show ?thesis unfolding copy_exact_Ok_iff by blast
qed

lemma moved_crlf:
  "read_exact http_io 2 r = (Ok CRLF_bytes, r1) \<and> write_all http_io CRLF_bytes w = (Ok u, w1) \<longleftrightarrow>
    moved CRLF_bytes r w r1 w1"
  by (auto simp: moved_def read_exact_Ok_iff write_all_Ok_iff) (simp_all add: CRLF_bytes_def)

lemma copy_trailers_sound:
  assumes "copy_trailers limits wire t r w = (Ok n, r', w')"
  shows "\<exists>ts. trailer_lines limits ts \<and> moved ts r w r' w' \<and> t + length ts \<le> max_trailer_bytes limits \<and> n = wire + length ts"
  using assms
proof (induction limits wire t r w rule: copy_trailers.induct)
  case (1 limits wire t r w)
  from "1.prems" obtain l r1 w1 where l: "read_bounded_line (max_trailer_line limits) r = (Ok l, r1)"
    and w: "write_all http_io l w = (Ok (), w1)" and b: "t + length l \<le> max_trailer_bytes limits"
    and more: "l = CRLF_bytes \<and> n = wire + length l \<and> r' = r1 \<and> w' = w1 \<or>
      l \<noteq> CRLF_bytes \<and> copy_trailers limits (wire + length l) (t + length l) r1 w1 = (Ok n, r', w')"
    by (auto simp: copy_trailers.simps [of limits wire t r w] Let_def split: prod.splits sum.splits if_splits)
  from l w have m: "moved l r w r1 w1" "crlf_line l" "length l \<le> max_trailer_line limits" using moved_line by blast+
  show ?case
  proof (cases "l = CRLF_bytes")
    case True
    with more m b show ?thesis by (auto intro: trailers_end)
  next
    case False
    with more obtain ts where ts: "trailer_lines limits ts" "moved ts r1 w1 r' w'"
      "t + length l + length ts \<le> max_trailer_bytes limits" "n = wire + length l + length ts"
      using "1.IH" [OF l [symmetric] refl refl refl _ w [symmetric] refl False] b by auto
    with m False show ?thesis
      by (intro exI [of _ "l @ ts"]) (auto simp: moved_append intro: trailers_line)
  qed
qed

lemma copy_trailers_complete:
  assumes "trailer_lines limits ts" "moved ts r w r' w'" "t + length ts \<le> max_trailer_bytes limits"
  shows "copy_trailers limits wire t r w = (Ok (wire + length ts), r', w')"
  using assms
proof (induction arbitrary: wire t r w rule: trailer_lines.induct)
  case trailers_end
  with moved_line [of "max_trailer_line limits" r CRLF_bytes r' w "()" w'] show ?case
    by (simp add: copy_trailers.simps [of limits wire t r w])
next
  case (trailers_line l ts)
  from trailers_line.prems(1) obtain r1 w1 where m: "moved l r w r1 w1" "moved ts r1 w1 r' w'" by (auto simp: moved_append)
  with moved_line [of "max_trailer_line limits" r l r1 w "()" w1] trailers_line show ?case
    by (simp add: copy_trailers.simps [of limits wire t r w] add.assoc)
qed

lemma copy_chunks_sound:
  assumes "copy_chunks limits wire decoded r w = (Ok rep, r', w')"
  shows "\<exists>body data. chunked_body limits body data \<and> moved body r w r' w' \<and>
    (data = [] \<or> decoded + length data \<le> max_decoded_body limits \<and> decoded + length data \<le> U64_MAX) \<and>
    rep = \<lparr>wire_bytes = wire + length body, decoded_bytes = decoded + length data\<rparr>"
  using assms
proof (induction limits wire decoded r w rule: copy_chunks.induct)
  case (1 limits wire decoded r w)
  from "1.prems" obtain l r1 n w1 where l: "read_bounded_line (max_chunk_size_line limits) r = (Ok l, r1)"
    and n: "parse_chunk_size l = Ok n" and w: "write_all http_io l w = (Ok (), w1)"
    by (auto simp: copy_chunks.simps [of limits wire decoded r w] split: prod.splits sum.splits)
  from l w have m: "moved l r w r1 w1" "crlf_line l" "length l \<le> max_chunk_size_line limits" using moved_line by blast+
  show ?case
  proof (cases "n = 0")
    case True
    with "1.prems" l n w obtain wire2 where t: "copy_trailers limits (wire + length l) 0 r1 w1 = (Ok wire2, r', w')"
      and rep: "rep = \<lparr>wire_bytes = wire2, decoded_bytes = decoded\<rparr>"
      by (auto simp: copy_chunks.simps [of limits wire decoded r w] split: prod.splits sum.splits)
    from copy_trailers_sound [OF t] obtain ts where "trailer_lines limits ts" "moved ts r1 w1 r' w'"
      "length ts \<le> max_trailer_bytes limits" "wire2 = wire + length l + length ts" by auto
    with m n True rep show ?thesis
      by (intro exI [of _ "l @ ts"] exI [of _ "[]"]) (auto simp: moved_append intro: last_chunk)
  next
    case False
    with "1.prems" l n w obtain r2 w2 r3 w3 where
      lim: "n \<le> max_chunk_size limits" "decoded + n \<le> U64_MAX" "decoded + n \<le> max_decoded_body limits" and
      d: "copy_exact (MalformedRequest ''unexpected EOF in chunk data'') n r1 w1 = (Ok (), r2, w2)" and
      e: "read_exact http_io 2 r2 = (Ok CRLF_bytes, r3)" "write_all http_io CRLF_bytes w2 = (Ok (), w3)" and
      rec: "copy_chunks limits (wire + length l + n + 2) (decoded + n) r3 w3 = (Ok rep, r', w')"
      by (auto simp: copy_chunks.simps [of limits wire decoded r w] Let_def not_less split: prod.splits sum.splits if_splits)
    from d obtain da where da: "length da = n" "moved da r1 w1 r2 w2" unfolding moved_data by blast
    have c: "moved CRLF_bytes r2 w2 r3 w3" using e moved_crlf by blast
    obtain body data where IH: "chunked_body limits body data" "moved body r3 w3 r' w'"
      "data = [] \<or> decoded + n + length data \<le> max_decoded_body limits \<and> decoded + n + length data \<le> U64_MAX"
      "rep = \<lparr>wire_bytes = wire + length l + n + 2 + length body, decoded_bytes = decoded + n + length data\<rparr>"
      using "1.IH" [OF l [symmetric] refl n w [symmetric] refl refl False _ _ d [symmetric] refl refl e(1) [symmetric] refl _ e(2) [symmetric] refl rec] lim
      by auto
    have "chunked_body limits (l @ da @ CRLF_bytes @ body) (da @ data)"
      using m da n False lim(1) IH(1) by (intro a_chunk) auto
    moreover have "moved (l @ da @ CRLF_bytes @ body) r w r' w'"
      using m da c IH(2) unfolding moved_append by blast
    ultimately show ?thesis
      using da IH(3,4) lim by (intro exI [of _ "l @ da @ CRLF_bytes @ body"] exI [of _ "da @ data"])
        (auto simp: CRLF_bytes_def)
  qed
qed

lemma copy_chunks_complete:
  assumes "chunked_body limits body data" "moved body r w r' w'"
    "decoded + length data \<le> max_decoded_body limits" "decoded + length data \<le> U64_MAX"
  shows "copy_chunks limits wire decoded r w =
    (Ok \<lparr>wire_bytes = wire + length body, decoded_bytes = decoded + length data\<rparr>, r', w')"
  using assms
proof (induction arbitrary: wire decoded r w rule: chunked_body.induct)
  case (last_chunk l ts)
  from last_chunk.prems(1) obtain r1 w1 where m: "moved l r w r1 w1" "moved ts r1 w1 r' w'" by (auto simp: moved_append)
  have "copy_trailers limits (wire + length l) 0 r1 w1 = (Ok (wire + length l + length ts), r', w')"
    using last_chunk m(2) by (intro copy_trailers_complete) auto
  with m(1) last_chunk moved_line [of "max_chunk_size_line limits" r l r1 w "()" w1] show ?case
    by (simp add: copy_chunks.simps [of limits wire decoded r w])
next
  case (a_chunk l d body data)
  from a_chunk.prems(1) obtain r1 w1 r2 w2 r3 w3 where m: "moved l r w r1 w1" "moved d r1 w1 r2 w2"
    "moved CRLF_bytes r2 w2 r3 w3" "moved body r3 w3 r' w'" by (auto simp: moved_append)
  have ce: "copy_exact (MalformedRequest ''unexpected EOF in chunk data'') (length d) r1 w1 = (Ok (), r2, w2)"
    using m(2) moved_data by blast
  have "copy_chunks limits (wire + length l + length d + 2) (decoded + length d) r3 w3 =
      (Ok \<lparr>wire_bytes = wire + length l + length d + 2 + length body, decoded_bytes = decoded + length d + length data\<rparr>, r', w')"
    using a_chunk m(4) by (intro a_chunk.IH) auto
  with m(1) ce a_chunk.hyps a_chunk.prems moved_line [of "max_chunk_size_line limits" r l r1 w "()" w1]
    moved_crlf [of r2 r3 w2 "()" w3] m(3)
  show ?case by (simp add: copy_chunks.simps [of limits wire decoded r w] add.assoc CRLF_bytes_def)
qed

subsection \<open>The copy is exact\<close>

lemma trailer_lines_unique:
  assumes "trailer_lines limits ts" "trailer_lines limits us" "ts @ x = us @ y"
  shows "ts = us"
  using assms
proof (induction arbitrary: us x y rule: trailer_lines.induct)
  case trailers_end
  from trailers_end(2) show ?case
  proof (rule trailer_linesE)
    fix l ts
    assume "us = l @ ts" "crlf_line l" "l \<noteq> CRLF_bytes"
    then show ?thesis using crlf_line_unique [of CRLF_bytes l x "ts @ y"] trailers_end(3) by simp
  qed simp
next
  case (trailers_line l ts)
  from trailers_line.prems(1) show ?case
  proof (rule trailer_linesE)
    assume "us = CRLF_bytes"
    then show ?thesis using crlf_line_unique [of l CRLF_bytes "ts @ x" y] trailers_line by simp
  next
    fix l' ts'
    assume e: "us = l' @ ts'" "crlf_line l'" "trailer_lines limits ts'"
    then have "l = l' \<and> ts @ x = ts' @ y"
      using crlf_line_unique [of l l' "ts @ x" "ts' @ y"] trailers_line by simp
    with trailers_line.IH [of ts' x y] e show ?thesis by simp
  qed
qed

lemma chunked_body_unique:
  assumes "chunked_body limits b d" "chunked_body limits b' d'" "b @ x = b' @ y"
  shows "b = b' \<and> d = d'"
  using assms
proof (induction arbitrary: b' d' x y rule: chunked_body.induct)
  case (last_chunk l ts)
  from last_chunk.prems(1) show ?case
  proof (rule chunked_bodyE)
    fix l' ts'
    assume "b' = l' @ ts'" "d' = []" "crlf_line l'" "trailer_lines limits ts'"
    then show ?thesis
      using crlf_line_unique [of l l' "ts @ x" "ts' @ y"] trailer_lines_unique [of limits ts ts' x y] last_chunk by auto
  next
    fix l' da body data
    assume e: "b' = l' @ da @ CRLF_bytes @ body" "crlf_line l'" "parse_chunk_size l' = Ok (length da)" "da \<noteq> []"
    then have "l = l'"
      using crlf_line_unique [of l l' "ts @ x" "da @ CRLF_bytes @ body @ y"] last_chunk.hyps(1) last_chunk.prems(2) by simp
    with e(3,4) last_chunk.hyps(3) show ?thesis by simp
  qed
next
  case (a_chunk l da body data)
  from a_chunk.prems(1) show ?case
  proof (rule chunked_bodyE)
    fix l' ts'
    assume e: "b' = l' @ ts'" "crlf_line l'" "parse_chunk_size l' = Ok 0"
    then have "l = l'"
      using crlf_line_unique [of l l' "da @ CRLF_bytes @ body @ x" "ts' @ y"] a_chunk.hyps(1) a_chunk.prems(2) by simp
    with e(3) a_chunk.hyps(3,4) show ?thesis by simp
  next
    fix l' da' body' data'
    assume e: "b' = l' @ da' @ CRLF_bytes @ body'" "d' = da' @ data'" "crlf_line l'"
      "parse_chunk_size l' = Ok (length da')" "chunked_body limits body' data'"
    have eq: "l @ da @ CRLF_bytes @ body @ x = l' @ da' @ CRLF_bytes @ body' @ y"
      using a_chunk.prems(2) unfolding e(1) by (simp only: append_assoc)
    have l: "l = l'" "da @ CRLF_bytes @ body @ x = da' @ CRLF_bytes @ body' @ y"
      using crlf_line_unique [OF a_chunk.hyps(1) e(3) eq] by blast+
    have "length da = length da'" using e(4) a_chunk.hyps(3) unfolding l(1) by simp
    then have "da = da'" "CRLF_bytes @ body @ x = CRLF_bytes @ body' @ y"
      using l(2) append_eq_append_conv by blast+
    then have "l = l'" "da = da'" "body @ x = body' @ y" using l(1) by (auto simp only: same_append_eq)
    with a_chunk.IH [of body' data' x y] e show ?thesis by simp
  qed
qed

text \<open>One body of a given framing, and the data it carries.\<close>

fun framed :: "body_copy_limits \<Rightarrow> request_body_kind \<Rightarrow> u8 list \<Rightarrow> u8 list \<Rightarrow> bool" where
  "framed limits Body_None body data \<longleftrightarrow> body = [] \<and> data = []"
| "framed limits (ContentLength n) body data \<longleftrightarrow> length body = n \<and> data = body"
| "framed limits Chunked body data \<longleftrightarrow> chunked_body limits body data"

lemma framed_unique:
  "framed limits kind b d \<Longrightarrow> framed limits kind b' d' \<Longrightarrow> b @ x = b' @ y \<Longrightarrow> b = b' \<and> d = d'"
  by (cases kind) (auto dest: chunked_body_unique)

text \<open>
  C37: a request body is copied exactly. For each of the three framings, copying succeeds with a
  report exactly when the reader's bytes begin with one body of that framing, within the limits
  on lines, chunks and data, and the writer takes it all; then this body, with its size lines and
  trailers, has been forwarded byte for byte, the reader stands right behind it, and the report
  has its length and the length of its data. Where the body ends is not a matter of choice: the
  loops over chunks and trailers always stop there.
\<close>

theorem copy_request_body_exact:
  assumes "max_decoded_body limits \<le> U64_MAX"
  shows "copy_request_body kind limits r w = (Ok rep, r', w') \<longleftrightarrow>
    (\<exists>!(body, data). framed limits kind body data \<and> moved body r w r' w' \<and> length data \<le> max_decoded_body limits \<and>
       rep = \<lparr>wire_bytes = length body, decoded_bytes = length data\<rparr>)"
proof -
  let ?P = "\<lambda>body data. framed limits kind body data \<and> moved body r w r' w' \<and> length data \<le> max_decoded_body limits \<and>
       rep = \<lparr>wire_bytes = length body, decoded_bytes = length data\<rparr>"
  have "copy_request_body kind limits r w = (Ok rep, r', w') \<longleftrightarrow> (\<exists>body data. ?P body data)"
  proof (cases kind)
    case Body_None
    have "moved [] r w r' w' \<longleftrightarrow> r' = r \<and> w' = w" by (cases r; cases r'; cases w; cases w') (auto simp: moved_def)
    with Body_None show ?thesis by (auto simp: copy_request_body_def)
  next
    case (ContentLength n)
    have "copy_content_length_body n r w = (Ok rep, r', w') \<longleftrightarrow>
        rep = \<lparr>wire_bytes = n, decoded_bytes = n\<rparr> \<and> copy_exact (MalformedRequest ''unexpected EOF in body'') n r w = (Ok (), r', w')"
      by (auto simp: copy_content_length_body_def split: prod.splits sum.splits)
    with ContentLength show ?thesis unfolding moved_data by (auto simp: copy_request_body_def)
  next
    case Chunked
    have "copy_chunks limits 0 0 r w = (Ok rep, r', w') \<longleftrightarrow> (\<exists>body data. ?P body data)"
    proof
      assume "copy_chunks limits 0 0 r w = (Ok rep, r', w')"
      from copy_chunks_sound [OF this] Chunked show "\<exists>body data. ?P body data" by fastforce
    next
      assume "\<exists>body data. ?P body data"
      then show "copy_chunks limits 0 0 r w = (Ok rep, r', w')"
        using copy_chunks_complete [of limits _ _ r w r' w' 0 0] assms Chunked by fastforce
    qed
    with Chunked show ?thesis by (simp add: copy_request_body_def copy_chunked_body_def)
  qed
  moreover have "(\<exists>body data. ?P body data) \<longleftrightarrow> (\<exists>!(body, data). ?P body data)"
  proof -
    have "body = body' \<and> data = data'" if "?P body data" "?P body' data'" for body data body' data'
      using that framed_unique [of limits kind body data body' data' "rx r'" "rx r'"] by (auto simp: moved_def)
    note u = this
    show ?thesis
    proof
      assume "\<exists>body data. ?P body data"
      then obtain body data where p: "?P body data" by blast
      show "\<exists>!(body, data). ?P body data"
        using u [OF _ p] by (intro ex1I [of _ "(body, data)"]) (use p in auto)
    qed blast
  qed
  ultimately show ?thesis by simp
qed

theorem copy_request_body_exact_witness:
  "fst (copy_request_body (ContentLength 3) BodyCopyLimits_default
     \<lparr>rx = [1, 2, 3, 4], tx = [], room = 0\<rparr> \<lparr>rx = [], tx = [], room = 10\<rparr>) = Ok \<lparr>wire_bytes = 3, decoded_bytes = 3\<rparr>"
proof -
  have "max_decoded_body BodyCopyLimits_default \<le> U64_MAX" by (simp add: BodyCopyLimits_default_def U64_MAX_def)
  from copy_request_body_exact [OF this, of "ContentLength 3" "\<lparr>rx = [1, 2, 3, 4], tx = [], room = 0\<rparr>"
      "\<lparr>rx = [], tx = [], room = 10\<rparr>" "\<lparr>wire_bytes = 3, decoded_bytes = 3\<rparr>" "\<lparr>rx = [4], tx = [], room = 0\<rparr>"
      "\<lparr>rx = [], tx = [1, 2, 3], room = 7\<rparr>"]
  show ?thesis by (force simp: moved_def BodyCopyLimits_default_def Ex1_def)
qed

end
