(* ===== verification/Http_Forward.thy ===== *)
theory Http_Forward
  imports Http_Body
begin

text \<open>
  The forward proxy (\<^verbatim>\<open>eggress-protocol-http/src/forward/server.rs\<close>): reading an absolute-form
  request, the headers that are passed on, the request sent to the origin, and the response that is
  relayed back. Results: no hop-by-hop header reaches the origin, the request sent to the
  origin consists of exactly the lines it was meant to have, with no line break hidden in one, and the framing of the body survives
  the filter unless the client nominates it for removal (which the code allows).
\<close>

subsection \<open>Hop-by-hop headers\<close>

definition hop_by_hop_names :: "string list" where
  "hop_by_hop_names =
    [''connection'', ''keep-alive'', ''proxy-authenticate'', ''proxy-authorization'', ''te'', ''trailers'',
     ''upgrade'', ''proxy-connection'']"

definition is_hop_by_hop_header :: "string \<Rightarrow> string \<Rightarrow> bool" where
  "is_hop_by_hop_header name value =
    (let lower = to_ascii_lowercase name in
     if lower = ''transfer-encoding'' then \<not> eq_ignore_ascii_case value ''chunked''
     else lower \<in> set hop_by_hop_names)"

definition connection_tokens :: "header list \<Rightarrow> string set" where
  "connection_tokens headers =
    {t \<in> set (concat (map (\<lambda>(name, value). map (\<lambda>token. to_ascii_lowercase (trim token)) (split_on CHR '','' value))
                (filter (\<lambda>(name, value). eq_ignore_ascii_case name ''connection'') headers))). t \<noteq> []}"

definition filter_hop_by_hop :: "header list \<Rightarrow> header list" where
  "filter_hop_by_hop headers =
    (let nominated = connection_tokens headers in
     filter (\<lambda>(name, value). let lower = to_ascii_lowercase name in
       \<not> is_hop_by_hop_header lower value \<and> lower \<notin> nominated) headers)"

definition has_unsupported_expectation :: "header list \<Rightarrow> bool" where
  "has_unsupported_expectation headers \<longleftrightarrow>
    (\<exists>(name, value) \<in> set headers. eq_ignore_ascii_case name ''Expect'' \<and>
       (\<exists>expectation \<in> set (split_on CHR '','' value). trim expectation \<noteq> []))"

subsection \<open>Requests\<close>

record forward_req =
  fr_method :: string
  fr_path :: string
  fr_version :: string
  fr_headers :: "header list"
  fr_target :: target_addr
  fr_has_body :: bool
  fr_content_length :: "nat option"
  fr_is_chunked :: bool
  fr_connection_close :: bool

definition ForwardRequest_body_kind :: "forward_req \<Rightarrow> request_body_kind" where
  "ForwardRequest_body_kind req =
    (if fr_is_chunked req then Chunked
     else (case fr_content_length req of Some len \<Rightarrow> ContentLength len | None \<Rightarrow> Body_None))"

definition header_line :: "header \<Rightarrow> string" where
  "header_line h = fst h @ '': '' @ snd h"

definition has_connection :: "header list \<Rightarrow> bool" where
  "has_connection hs \<longleftrightarrow> (\<exists>(n, _) \<in> set hs. eq_ignore_ascii_case n ''Connection'')"

definition build_origin_request :: "forward_req \<Rightarrow> string" where
  "build_origin_request request =
    (let filtered = filter_hop_by_hop (fr_headers request) in
     fr_method request @ '' '' @ fr_path request @ '' '' @ fr_version request @ crlf @
     concat (map (\<lambda>h. header_line h @ crlf) filtered) @
     (if \<not> has_connection filtered then ''Connection: close'' @ crlf else []) @ crlf)"

text \<open>Names are not empty; NUL, carriage return and line feed occur in neither part.\<close>

definition forbidden_byte :: "char \<Rightarrow> bool" where
  "forbidden_byte c \<longleftrightarrow> c = CHR 0x00 \<or> c = CHR 0x0D \<or> c = CHR 0x0A"

definition parse_header_line :: "string \<Rightarrow> header option" where
  "parse_header_line line =
    (case split_at_first CHR '':'' line of
       None \<Rightarrow> None
     | Some (a, b) \<Rightarrow>
         (let name = trim a; value = trim b in
          if name = [] then None
          else if list_ex forbidden_byte name then None
          else if list_ex forbidden_byte value then None
          else Some (name, value)))"

definition ip_syntax_text :: string where "ip_syntax_text = ''invalid IP address syntax''"

definition parse_authority_with_default :: "string \<Rightarrow> u16 \<Rightarrow> http_error + target_addr" where
  "parse_authority_with_default authority default_port =
    (if starts_with ''['' authority then
       (case split_at_first CHR '']'' authority of
          None \<Rightarrow> Err (TargetParseError ''unclosed bracket in IPv6 address'')
        | Some (before, after) \<Rightarrow>
            (case parse_ip_addr (tl before) of
               None \<Rightarrow> Err (TargetParseError (''invalid IPv6 address: '' @ ip_syntax_text))
             | Some ip \<Rightarrow>
                 if starts_with '':'' after then
                   (case parse_u16 (tl after) of
                      Inl e \<Rightarrow> Err (TargetParseError (''invalid port: '' @ int_error_text e))
                    | Inr port \<Rightarrow> Ok \<lparr>tgt_host = Ip ip, tgt_port = port\<rparr>)
                 else Ok \<lparr>tgt_host = Ip ip, tgt_port = default_port\<rparr>))
     else
       try_bind
         (case split_at_last CHR '':'' authority of
            Some (host_str, port_str) \<Rightarrow>
              (case parse_u16 port_str of
                 Inl e \<Rightarrow> Err (TargetParseError (''invalid port: '' @ int_error_text e))
               | Inr port \<Rightarrow> Ok (host_str, port))
          | None \<Rightarrow> Ok (authority, default_port))
         (\<lambda>(host_str, port).
            case parse_ip_addr host_str of
              Some ip \<Rightarrow> Ok \<lparr>tgt_host = Ip ip, tgt_port = port\<rparr>
            | None \<Rightarrow>
                if host_str = [] then Err (TargetParseError ''empty host'')
                else Ok \<lparr>tgt_host = Domain host_str, tgt_port = port\<rparr>))"

definition parse_absolute_uri :: "string \<Rightarrow> http_error + (target_addr \<times> string)" where
  "parse_absolute_uri uri =
    try_bind
      (if starts_with ''http://'' uri then Ok (drop 7 uri, 80)
       else if starts_with ''https://'' uri then Ok (drop 8 uri, 443)
       else Err (MalformedRequest (''absolute URI required, got: '' @ uri)))
      (\<lambda>(rest, default_port).
        let authority = takeWhile (\<lambda>c. c \<noteq> CHR ''/'') rest;
            from_slash = dropWhile (\<lambda>c. c \<noteq> CHR ''/'') rest;
            path = (if from_slash \<noteq> [] then from_slash else ''/'')
        in try_bind (parse_authority_with_default authority default_port) (\<lambda>target. Ok (target, path)))"

definition MAX_HEAD_SIZE :: nat where "MAX_HEAD_SIZE = 32 * 1024"
definition MAX_HEADER_LINES :: nat where "MAX_HEADER_LINES = 128"

text \<open>The byte loop that reads the head: bytes so far, header lines so far, and whether the request line is over.\<close>

definition ends_double_crlf :: "u8 list \<Rightarrow> bool" where
  "ends_double_crlf bs \<longleftrightarrow> 4 \<le> length bs \<and> drop (length bs - 4) bs = CRLF_bytes @ CRLF_bytes"

fun read_request_head :: "u8 list \<Rightarrow> nat \<Rightarrow> bool \<Rightarrow> u8 list \<Rightarrow> (http_error + u8 list) \<times> u8 list" where
  "read_request_head head header_count saw_request_line [] =
    (if MAX_HEAD_SIZE \<le> length head then (Err HeaderTooLarge, [])
     else (Err (MalformedRequest ''unexpected EOF reading request''), []))"
| "read_request_head head header_count saw_request_line (b # bs) =
    (if MAX_HEAD_SIZE \<le> length head then (Err HeaderTooLarge, b # bs)
     else (let head1 = head @ [b] in
           if ends_double_crlf head1 then (Ok head1, bs)
           else if 4 \<le> length head1 \<and> ends_crlf head1 then
             (let header_count1 = (if saw_request_line then Suc header_count else header_count) in
              if MAX_HEADER_LINES < header_count1 then (Err TooManyHeaders, bs)
              else read_request_head head1 header_count1 True bs)
           else read_request_head head1 header_count saw_request_line bs))"

text \<open>The header lines up to the first empty line.\<close>

definition head_headers :: "string list \<Rightarrow> header list" where
  "head_headers ls = List.map_filter parse_header_line (takeWhile (\<lambda>l. l \<noteq> []) ls)"

definition has_close_token :: "string \<Rightarrow> bool" where
  "has_close_token value \<longleftrightarrow> (\<exists>t \<in> set (split_on CHR '','' value). eq_ignore_ascii_case (trim t) ''close'')"

definition parse_forward_request :: "u8 list \<Rightarrow> http_error + forward_req" where
  "parse_forward_request head_buf =
    (case split_str crlf (from_utf8_lossy head_buf) of
       [] \<Rightarrow> Err (MalformedRequest ''empty request'')
     | request_line # ls \<Rightarrow>
         (case split_whitespace request_line of
            [meth, raw_target, version] \<Rightarrow>
              if version \<noteq> ''HTTP/1.0'' \<and> version \<noteq> ''HTTP/1.1''
              then Err (MalformedRequest (''unsupported HTTP version: '' @ version))
              else try_bind (parse_absolute_uri raw_target) (\<lambda>(target, path).
                let headers = filter (\<lambda>(name, _). \<not> eq_ignore_ascii_case name ''Proxy-Authorization'') (head_headers ls)
                in try_bind (determine_request_body_kind headers) (\<lambda>body_kind.
                     Ok \<lparr>fr_method = meth, fr_path = path, fr_version = version, fr_headers = headers,
                        fr_target = target,
                        fr_has_body = (case body_kind of Body_None \<Rightarrow> False | ContentLength len \<Rightarrow> 0 < len | Chunked \<Rightarrow> True),
                        fr_content_length = (case body_kind of ContentLength len \<Rightarrow> Some len | _ \<Rightarrow> None),
                        fr_is_chunked = (body_kind = Chunked),
                        fr_connection_close =
                          (\<exists>(n, v) \<in> set headers. eq_ignore_ascii_case n ''Connection'' \<and> has_close_token v)\<rparr>))
          | parts \<Rightarrow>
              Err (MalformedRequest (''expected 3 parts in request line, got '' @ show_nat (length parts)))))"

definition read_forward_request :: "(http_error, forward_req) io" where
  "read_forward_request c =
    (case read_request_head [] 0 False (rx c) of
       (Inl e, rest) \<Rightarrow> (Err e, c\<lparr>rx := rest\<rparr>)
     | (Inr head_buf, rest) \<Rightarrow> (parse_forward_request head_buf, c\<lparr>rx := rest\<rparr>))"

text \<open>The two entry points differ in who owns the stream.\<close>

definition forward_request :: "(http_error, forward_req) io" where
  "forward_request = read_forward_request"

definition forward_request_stream :: "(http_error, forward_req) io" where
  "forward_request_stream = read_forward_request"

subsection \<open>What reaches the origin\<close>

text \<open>A character that would end a line early.\<close>

definition no_break :: "string \<Rightarrow> bool" where
  "no_break s \<longleftrightarrow> CHR 0x0D \<notin> set s \<and> CHR 0x0A \<notin> set s"

lemma no_break_iff: "no_break s \<longleftrightarrow> (\<forall>c \<in> set s. c \<noteq> CHR 0x0D \<and> c \<noteq> CHR 0x0A)"
  by (auto simp: no_break_def)

lemma no_break_Cons [simp]: "no_break (c # s) \<longleftrightarrow> c \<noteq> CHR 0x0D \<and> c \<noteq> CHR 0x0A \<and> no_break s"
  by (auto simp: no_break_def)

lemma no_break_append [simp]: "no_break (a @ b) \<longleftrightarrow> no_break a \<and> no_break b"
  by (auto simp: no_break_def)

lemma no_break_subset: "no_break s \<Longrightarrow> set t \<subseteq> set s \<Longrightarrow> no_break t"
  by (auto simp: no_break_def)

lemma ws_front_break: "0 < ws_front (CHR 0x0D # s)" "0 < ws_front (CHR 0x0A # s)"
  by (simp_all add: ws_front_def)

lemma word_front_no_break: "word_front s = (w, r) \<Longrightarrow> no_break w"
proof (induction s arbitrary: w)
  case (Cons c s)
  show ?case
  proof (cases "0 < ws_front (c # s)")
    case False
    obtain v q where v: "word_front s = (v, q)" by fastforce
    have "c \<noteq> CHR 0x0D" using False ws_front_break(1) [of s] by auto
    moreover have "c \<noteq> CHR 0x0A" using False ws_front_break(2) [of s] by auto
    ultimately have "c \<noteq> CHR 0x0D \<and> c \<noteq> CHR 0x0A" by simp
    with False Cons v show ?thesis by (auto simp: no_break_def)
  qed (use Cons in \<open>auto simp: no_break_def\<close>)
qed (simp add: no_break_def)

lemma split_whitespace_no_break: "w \<in> set (split_whitespace s) \<Longrightarrow> no_break w"
proof (induction s rule: split_whitespace.induct)
  case (1 s)
  show ?case
  proof (cases "trim_start s = []")
    case False
    obtain v q where v: "word_front (trim_start s) = (v, q)" by fastforce
    with False 1 word_front_no_break [OF v] show ?thesis by (auto simp: split_whitespace.simps [of s])
  qed (use 1 in \<open>simp add: split_whitespace.simps\<close>)
qed

lemma not_forbidden_no_break: "\<not> list_ex forbidden_byte s \<Longrightarrow> no_break s"
  by (induction s) (simp_all add: no_break_iff forbidden_byte_def)

lemma parse_header_line_no_break: "parse_header_line l = Some h \<Longrightarrow> no_break (header_line h)"
  by (auto simp: parse_header_line_def header_line_def not_forbidden_no_break Let_def
      split: option.splits if_splits)

lemma head_headers_no_break: "h \<in> set (head_headers ls) \<Longrightarrow> no_break (header_line h)"
  by (auto simp: head_headers_def List.map_filter_def parse_header_line_no_break)

lemma filter_hop_by_hop_subset: "set (filter_hop_by_hop hs) \<subseteq> set hs"
  by (auto simp: filter_hop_by_hop_def Let_def)

lemma filter_hop_by_hop_names:
  assumes "(n, v) \<in> set (filter_hop_by_hop hs)"
  shows "to_ascii_lowercase n \<notin> set hop_by_hop_names" "to_ascii_lowercase n \<notin> connection_tokens hs"
  using assms by (auto simp: filter_hop_by_hop_def is_hop_by_hop_header_def Let_def hop_by_hop_names_def
      split: if_splits)

lemma lower_Nil: "to_ascii_lowercase s = [] \<longleftrightarrow> s = []"
  by (simp add: to_ascii_lowercase_def)

lemma lower_names:
  "to_ascii_lowercase ''Connection'' = ''connection''"
  "to_ascii_lowercase ''connection'' = ''connection''"
  "to_ascii_lowercase ''chunked'' = ''chunked''"
  "to_ascii_lowercase ''Content-Length'' = ''content-length''"
  "to_ascii_lowercase ''Transfer-Encoding'' = ''transfer-encoding''"
  by code_simp+

lemma in_connection_tokens:
  "t \<in> connection_tokens hs \<longleftrightarrow> t \<noteq> [] \<and>
    (\<exists>cn cv token. (cn, cv) \<in> set hs \<and> to_ascii_lowercase cn = ''connection'' \<and>
       token \<in> set (split_on CHR '','' cv) \<and> to_ascii_lowercase (trim token) = t)"
  by (auto simp: connection_tokens_def eq_ignore_ascii_case_def lower_names image_iff)

lemma filter_hop_by_hop_no_connection: "\<not> has_connection (filter_hop_by_hop hs)"
proof
  assume "has_connection (filter_hop_by_hop hs)"
  then obtain n v where m: "(n, v) \<in> set (filter_hop_by_hop hs)" and n: "eq_ignore_ascii_case n ''Connection''"
    by (auto simp: has_connection_def)
  have "to_ascii_lowercase n = ''connection''"
    using n by (simp add: eq_ignore_ascii_case_def lower_names)
  with filter_hop_by_hop_names(1) [OF m] show False by (simp add: hop_by_hop_names_def)
qed

text \<open>
  What should reach the origin, stated on the client's own lines. The headers are the lines up to the first
  empty one that have a name and a colon and carry no NUL, carriage return or line feed inside; those that concern
  the client's connection only, by their name or because a \<^verbatim>\<open>Connection\<close> header names them, stay behind.
\<close>

definition client_headers :: "string list \<Rightarrow> header list" where
  "client_headers ls =
    concat (map (\<lambda>l. let n = trim (takeWhile (\<lambda>c. c \<noteq> CHR '':'') l); v = trim (tl (dropWhile (\<lambda>c. c \<noteq> CHR '':'') l)) in
        if CHR '':'' \<in> set l \<and> n \<noteq> [] \<and> set (n @ v) \<inter> {CHR 0x00, CHR 0x0D, CHR 0x0A} = {} then [(n, v)] else [])
      (takeWhile (\<lambda>l. l \<noteq> []) ls))"

definition end_to_end :: "header list \<Rightarrow> header \<Rightarrow> bool" where
  "end_to_end hs h \<longleftrightarrow>
    to_ascii_lowercase (fst h) \<notin> {''connection'', ''keep-alive'', ''proxy-authenticate'', ''proxy-authorization'', ''te'',
      ''trailers'', ''upgrade'', ''proxy-connection''} \<and>
    (to_ascii_lowercase (fst h) = ''transfer-encoding'' \<longrightarrow> to_ascii_lowercase (snd h) = ''chunked'') \<and>
    \<not> (\<exists>(cn, cv) \<in> set hs. to_ascii_lowercase cn = ''connection'' \<and>
         to_ascii_lowercase (fst h) \<in> (\<lambda>token. to_ascii_lowercase (trim token)) ` set (split_on CHR '','' cv))"

definition origin_lines :: "string \<Rightarrow> string \<Rightarrow> string \<Rightarrow> header list \<Rightarrow> string list" where
  "origin_lines m path v hs =
    (m @ '' '' @ (if path = [] then ''/'' else path) @ '' '' @ v) #
    map (\<lambda>(name, val). name @ '': '' @ val) (filter (end_to_end hs) hs) @ [''Connection: close'']"

lemma split_at_first_takeWhile:
  "split_at_first x s =
    (if x \<in> set s then Some (takeWhile (\<lambda>c. c \<noteq> x) s, tl (dropWhile (\<lambda>c. c \<noteq> x) s)) else None)"
  by (induction s) auto

lemma head_headers_client: "head_headers ls = client_headers ls"
proof -
  have p: "parse_header_line l =
      (let n = trim (takeWhile (\<lambda>c. c \<noteq> CHR '':'') l); v = trim (tl (dropWhile (\<lambda>c. c \<noteq> CHR '':'') l)) in
       if CHR '':'' \<in> set l \<and> n \<noteq> [] \<and> set (n @ v) \<inter> {CHR 0x00, CHR 0x0D, CHR 0x0A} = {} then Some (n, v) else None)" for l
    by (auto simp: parse_header_line_def split_at_first_takeWhile Let_def list_ex_iff forbidden_byte_def)
  have "List.map_filter parse_header_line ks = concat (map (\<lambda>l. case parse_header_line l of Some h \<Rightarrow> [h] | None \<Rightarrow> []) ks)" for ks
    by (induction ks) (auto simp: List.map_filter_def split: option.split)
  then show ?thesis
    by (auto simp: head_headers_def client_headers_def p Let_def intro!: arg_cong [of _ _ concat] map_cong)
qed

lemma client_headers_name: "(n, v) \<in> set (client_headers ls) \<Longrightarrow> n \<noteq> []"
  by (auto simp: client_headers_def Let_def split: if_splits)

lemma lower_authorization: "to_ascii_lowercase ''Proxy-Authorization'' = ''proxy-authorization''"
  by code_simp

text \<open>What the code removes, for a request in two passes, is what does not go end to end.\<close>

lemma filter_hop_by_hop_spec:
  assumes "\<And>n v. (n, v) \<in> set hs \<Longrightarrow> n \<noteq> []"
  shows "filter_hop_by_hop hs = filter (end_to_end hs) hs"
proof -
  have tok: "to_ascii_lowercase n \<in> connection_tokens hs \<longleftrightarrow>
    (\<exists>(cn, cv) \<in> set hs. to_ascii_lowercase cn = ''connection'' \<and>
       to_ascii_lowercase n \<in> (\<lambda>token. to_ascii_lowercase (trim token)) ` set (split_on CHR '','' cv))" if "n \<noteq> []" for n
    using that unfolding in_connection_tokens lower_Nil by force
  have ch: "eq_ignore_ascii_case v ''chunked'' \<longleftrightarrow> to_ascii_lowercase v = ''chunked''" for v
    by (simp add: eq_ignore_ascii_case_def lower_names)
  have e: "end_to_end hs (n, v) \<longleftrightarrow>
      \<not> is_hop_by_hop_header (to_ascii_lowercase n) v \<and> to_ascii_lowercase n \<notin> connection_tokens hs"
    if "(n, v) \<in> set hs" for n v
    unfolding tok [OF assms [OF that]] end_to_end_def fst_conv snd_conv
    by (auto simp: ch is_hop_by_hop_header_def hop_by_hop_names_def Let_def)
  show ?thesis unfolding filter_hop_by_hop_def Let_def by (rule filter_cong [OF refl]) (auto simp: e)
qed

lemma filter_hop_by_hop_client:
  "filter_hop_by_hop (filter (\<lambda>(name, _). \<not> eq_ignore_ascii_case name ''Proxy-Authorization'') (client_headers ls)) =
    filter (end_to_end (client_headers ls)) (client_headers ls)"
proof -
  let ?hs = "client_headers ls"
  let ?fs = "filter (\<lambda>(name, _). \<not> eq_ignore_ascii_case name ''Proxy-Authorization'') ?hs"
  have pa: "eq_ignore_ascii_case n ''Proxy-Authorization'' \<longleftrightarrow> to_ascii_lowercase n = ''proxy-authorization''" for n
    by (simp add: eq_ignore_ascii_case_def lower_authorization)
  have c: "(\<exists>(cn, cv) \<in> set ?fs. to_ascii_lowercase cn = ''connection'' \<and> Q cv) \<longleftrightarrow>
      (\<exists>(cn, cv) \<in> set ?hs. to_ascii_lowercase cn = ''connection'' \<and> Q cv)" for Q
    by (force simp: pa)
  have e: "end_to_end ?fs h = end_to_end ?hs h" for h
    unfolding end_to_end_def c ..
  have "filter_hop_by_hop ?fs = filter (end_to_end ?fs) ?fs"
    by (rule filter_hop_by_hop_spec) (auto dest: client_headers_name)
  also have "\<dots> = filter (end_to_end ?hs) ?hs"
    unfolding e filter_filter by (rule filter_cong [OF refl]) (auto simp: end_to_end_def pa)
  finally show ?thesis .
qed

lemma build_origin_request_lines:
  "build_origin_request req = concat (map (\<lambda>l. l @ crlf)
    ((fr_method req @ '' '' @ fr_path req @ '' '' @ fr_version req) #
      map header_line (filter_hop_by_hop (fr_headers req)) @ [''Connection: close'', []]))"
  by (simp add: build_origin_request_def Let_def filter_hop_by_hop_no_connection comp_def)

lemma starts_with_drop: "starts_with p s \<Longrightarrow> n = length p \<Longrightarrow> s = p @ drop n s"
  unfolding starts_with_def by (metis append_take_drop_id)

lemma uri_rest_form:
  assumes "path = (if dropWhile (\<lambda>c. c \<noteq> CHR ''/'') rest \<noteq> [] then dropWhile (\<lambda>c. c \<noteq> CHR ''/'') rest else ''/'')"
  shows "\<exists>authority p. rest = authority @ p \<and> CHR ''/'' \<notin> set authority \<and> (p = [] \<or> hd p = CHR ''/'') \<and>
    path = (if p = [] then ''/'' else p)"
proof (intro exI conjI)
  show "rest = takeWhile (\<lambda>c. c \<noteq> CHR ''/'') rest @ dropWhile (\<lambda>c. c \<noteq> CHR ''/'') rest" by simp
  show "CHR ''/'' \<notin> set (takeWhile (\<lambda>c. c \<noteq> CHR ''/'') rest)" by (auto dest: set_takeWhileD)
  show "dropWhile (\<lambda>c. c \<noteq> CHR ''/'') rest = [] \<or> hd (dropWhile (\<lambda>c. c \<noteq> CHR ''/'') rest) = CHR ''/''"
    using hd_dropWhile [of "\<lambda>c. c \<noteq> CHR ''/''" rest] by blast
qed (use assms in auto)

lemma parse_absolute_uri_form:
  assumes "parse_absolute_uri raw = Ok (target, path)"
  shows "\<exists>scheme authority p. raw = scheme @ authority @ p \<and> scheme \<in> {''http://'', ''https://''} \<and>
    CHR ''/'' \<notin> set authority \<and> (p = [] \<or> hd p = CHR ''/'') \<and> path = (if p = [] then ''/'' else p)"
proof -
  consider (plain) "starts_with ''http://'' raw" | (tls) "\<not> starts_with ''http://'' raw" "starts_with ''https://'' raw"
    using assms by (auto simp: parse_absolute_uri_def split: if_splits)
  then show ?thesis
  proof cases
    case plain
    have "raw = ''http://'' @ drop 7 raw" by (rule starts_with_drop [OF plain]) simp
    moreover have "\<exists>authority p. drop 7 raw = authority @ p \<and> CHR ''/'' \<notin> set authority \<and> (p = [] \<or> hd p = CHR ''/'') \<and>
        path = (if p = [] then ''/'' else p)"
      by (rule uri_rest_form) (use assms plain in \<open>simp add: parse_absolute_uri_def Let_def try_bind_Ok_iff\<close>)
    ultimately show ?thesis by (metis insertI1)
  next
    case tls
    have "raw = ''https://'' @ drop 8 raw" by (rule starts_with_drop [OF tls(2)]) simp
    moreover have "\<exists>authority p. drop 8 raw = authority @ p \<and> CHR ''/'' \<notin> set authority \<and> (p = [] \<or> hd p = CHR ''/'') \<and>
        path = (if p = [] then ''/'' else p)"
      by (rule uri_rest_form) (use assms tls in \<open>simp add: parse_absolute_uri_def Let_def try_bind_Ok_iff\<close>)
    ultimately show ?thesis by (metis insertI1 insertI2)
  qed
qed

lemma origin_lines_no_break:
  "no_break m \<Longrightarrow> no_break path \<Longrightarrow> no_break v \<Longrightarrow> list_all no_break (origin_lines m path v (client_headers ls))"
  using head_headers_no_break [of _ ls]
  by (fastforce simp: origin_lines_def list_all_iff head_headers_client header_line_def no_break_def)

text \<open>
  C36: A request that was read from a client is sent to the origin as exactly the lines it should
  have, each ended by a carriage return and line feed, and an empty one: the request line with the client's
  method and version and the target in origin form (the scheme and the authority taken off, a slash for an empty
  path), the headers among the client's that go end to end, and one closing header. A line that hides a
  NUL, a carriage return or a line feed is no header, and no line that is sent contains a carriage return or a line
  feed, alone or together: nothing the client sent adds a line or ends the head early.
\<close>
theorem origin_request_injection_free:
  assumes "parse_forward_request head = Ok req"
  shows "\<exists>rl ls m scheme authority path v.
    split_str crlf (from_utf8_lossy head) = rl # ls \<and>
    split_whitespace rl = [m, scheme @ authority @ path, v] \<and> scheme \<in> {''http://'', ''https://''} \<and>
    CHR ''/'' \<notin> set authority \<and> (path = [] \<or> hd path = CHR ''/'') \<and>
    build_origin_request req = concat (map (\<lambda>l. l @ crlf) (origin_lines m path v (client_headers ls) @ [[]])) \<and>
    list_all no_break (origin_lines m path v (client_headers ls))"
proof -
  obtain rl ls where sp: "split_str crlf (from_utf8_lossy head) = rl # ls"
    using assms by (auto simp: parse_forward_request_def split: list.splits)
  obtain m raw v where ws: "split_whitespace rl = [m, raw, v]"
    using assms by (auto simp: parse_forward_request_def sp split: list.splits)
  have nb: "no_break m" "no_break raw" "no_break v"
    using split_whitespace_no_break [of _ rl] by (simp_all add: ws)
  obtain target path where uri: "parse_absolute_uri raw = Ok (target, path)"
    and r: "fr_method req = m" "fr_path req = path" "fr_version req = v"
      "fr_headers req = filter (\<lambda>(name, _). \<not> eq_ignore_ascii_case name ''Proxy-Authorization'') (head_headers ls)"
    using assms by (auto simp: parse_forward_request_def sp ws try_bind_Ok_iff Let_def split: if_splits)
  obtain scheme authority p where f: "raw = scheme @ authority @ p" "scheme \<in> {''http://'', ''https://''}"
    "CHR ''/'' \<notin> set authority" "p = [] \<or> hd p = CHR ''/''" "path = (if p = [] then ''/'' else p)"
    using parse_absolute_uri_form [OF uri] by blast
  have "build_origin_request req = concat (map (\<lambda>l. l @ crlf) (origin_lines m p v (client_headers ls) @ [[]]))"
    using filter_hop_by_hop_client [of ls]
    by (simp add: build_origin_request_lines r(1-3) origin_lines_def f(5) header_line_def comp_def case_prod_beta'
        r(4) [unfolded head_headers_client])
  moreover have "list_all no_break (origin_lines m p v (client_headers ls))"
    using nb f(1) by (intro origin_lines_no_break) simp_all
  ultimately show ?thesis using sp ws f by blast
qed

definition sample_head :: string where
  "sample_head = ''GET http://x/x HTTP/1.1'' @ crlf @ ''Host: x'' @ crlf @ ''Connection: x-a, close'' @ crlf @
     ''X-A: 1'' @ crlf @ ''X-B: 2'' @ crlf @ crlf"

definition sample_request :: forward_req where
  "sample_request = \<lparr>fr_method = ''GET'', fr_path = ''/x'', fr_version = ''HTTP/1.1'',
     fr_headers = [(''Host'', ''x''), (''Connection'', ''x-a, close''), (''X-A'', ''1''), (''X-B'', ''2'')],
     fr_target = \<lparr>tgt_host = Domain ''x'', tgt_port = 80\<rparr>, fr_has_body = False, fr_content_length = None,
     fr_is_chunked = False, fr_connection_close = True\<rparr>"

text \<open>Names that start with neither a hexadecimal digit nor a colon are not addresses.\<close>

lemma parse_ip_addr_none:
  assumes "stops 10 s" "stops 16 s" "\<not> starts_with '':'' s"
  shows "parse_ip_addr s = None"
proof -
  have "read_groups 0 (Suc 7) s = ([], False, s)"
    using assms by (simp only: read_groups.simps) (simp add: read_separator_def read_ipv4_stops read_number_none)
  moreover have "read_given_char CHR '':'' s = None"
    using assms(3) by (cases s) (auto simp: read_given_char_def starts_with_def)
  ultimately show ?thesis using assms(1) by (simp add: parse_ip_addr_def read_ipv4_stops read_ipv6_addr_def numeral_eq_Suc)
qed
lemma sample_target:
  "parse_absolute_uri ''http://x/x'' = Ok (\<lparr>tgt_host = Domain ''x'', tgt_port = 80\<rparr>, ''/x'')"
proof -
  have "parse_ip_addr ''x'' = None"
    by (rule parse_ip_addr_none) (simp_all add: stops_def digit_val_def starts_with_def)
  then show ?thesis
    by (simp add: parse_absolute_uri_def parse_authority_with_default_def starts_with_def split_at_last_def Let_def)
qed

lemma sample_words:
  "split_whitespace ''GET http://x/x HTTP/1.1'' = [''GET'', ''http://x/x'', ''HTTP/1.1'']"
  "split_str crlf sample_head =
    [''GET http://x/x HTTP/1.1'', ''Host: x'', ''Connection: x-a, close'', ''X-A: 1'', ''X-B: 2'', [], []]"
  "head_headers [''Host: x'', ''Connection: x-a, close'', ''X-A: 1'', ''X-B: 2'', [], []] = fr_headers sample_request"
  by code_simp+

lemma sample_framing:
  "filter (\<lambda>(name, _). \<not> eq_ignore_ascii_case name ''Proxy-Authorization'') (fr_headers sample_request) =
     fr_headers sample_request"
  "determine_request_body_kind (fr_headers sample_request) = Ok Body_None"
  "\<exists>(n, v) \<in> set (fr_headers sample_request). eq_ignore_ascii_case n ''Connection'' \<and> has_close_token v"
  by code_simp+

lemma sample_parse: "parse_forward_request (as_bytes sample_head) = Ok sample_request"
proof -
  have "from_utf8_lossy (as_bytes sample_head) = sample_head"
    by (rule from_utf8_lossy_as_bytes, rule wf_str_ascii) code_simp
  then show ?thesis
    using sample_framing(3)
    by (simp only: parse_forward_request_def sample_words sample_target sample_framing(1,2) Let_def
        list.case prod.case try_bind_simps)
      (simp add: sample_request_def)
qed

theorem origin_request_injection_free_witness:
  "build_origin_request sample_request =
    ''GET /x HTTP/1.1'' @ crlf @ ''Host: x'' @ crlf @ ''X-B: 2'' @ crlf @ ''Connection: close'' @ crlf @ crlf"
proof -
  have l: "from_utf8_lossy (as_bytes sample_head) = sample_head"
    by (rule from_utf8_lossy_as_bytes, rule wf_str_ascii) code_simp
  have "client_headers [''Host: x'', ''Connection: x-a, close'', ''X-A: 1'', ''X-B: 2'', [], []] = fr_headers sample_request"
    using sample_words(3) by (simp add: head_headers_client)
  moreover have "filter (end_to_end (fr_headers sample_request)) (fr_headers sample_request) = [(''Host'', ''x''), (''X-B'', ''2'')]"
    by code_simp
  moreover have path: "scheme @ authority @ path = ''http://x/x'' \<Longrightarrow> scheme \<in> {''http://'', ''https://''} \<Longrightarrow>
      CHR ''/'' \<notin> set authority \<Longrightarrow> path = [] \<or> hd path = CHR ''/'' \<Longrightarrow> path = ''/x''" for scheme authority path
    by (auto simp: append_eq_Cons_conv)
  moreover obtain rl ls m scheme authority path v where
    o: "split_str crlf sample_head = rl # ls" "split_whitespace rl = [m, scheme @ authority @ path, v]"
      "scheme \<in> {''http://'', ''https://''}" "CHR ''/'' \<notin> set authority" "path = [] \<or> hd path = CHR ''/''"
      "build_origin_request sample_request = concat (map (\<lambda>l. l @ crlf) (origin_lines m path v (client_headers ls) @ [[]]))"
    using origin_request_injection_free [OF sample_parse] unfolding l by blast
  moreover have rl: "rl = ''GET http://x/x HTTP/1.1''"
      "ls = [''Host: x'', ''Connection: x-a, close'', ''X-A: 1'', ''X-B: 2'', [], []]"
    using o(1) unfolding sample_words by simp_all
  moreover have w: "m = ''GET''" "scheme @ authority @ path = ''http://x/x''" "v = ''HTTP/1.1''"
    using o(2) unfolding rl sample_words by (simp_all only: list.inject)
  moreover have "path = ''/x''" by (rule path [OF w(2) o(3-5)])
  ultimately show ?thesis by (simp add: origin_lines_def)
qed

subsection \<open>Framing\<close>

definition framing_header :: "header \<Rightarrow> bool" where
  "framing_header h \<longleftrightarrow> to_ascii_lowercase (fst h) \<in> {''content-length'', ''transfer-encoding''}"

lemma lower_framing [simp]:
  "eq_ignore_ascii_case n ''Content-Length'' \<longleftrightarrow> to_ascii_lowercase n = ''content-length''"
  "eq_ignore_ascii_case n ''Transfer-Encoding'' \<longleftrightarrow> to_ascii_lowercase n = ''transfer-encoding''"
  by (simp_all add: eq_ignore_ascii_case_def lower_names)

lemma collect_framing_filter:
  "(\<And>h. h \<in> set hs \<Longrightarrow> framing_header h \<Longrightarrow> P h) \<Longrightarrow> collect_framing (filter P hs) = collect_framing hs"
  by (induction hs rule: collect_framing.induct) (auto simp: framing_header_def split: sum.splits)


text \<open>
  The origin frames the body the way the proxy did, when no \<^verbatim>\<open>Connection\<close> header names a
  framing header and every \<^verbatim>\<open>Transfer-Encoding\<close> header is exactly \<^verbatim>\<open>chunked\<close>. Both conditions
  are the client's to break, see \<open>smuggle_by_connection\<close>.
\<close>
lemma origin_keeps_framing:
  assumes "''content-length'' \<notin> connection_tokens hs" "''transfer-encoding'' \<notin> connection_tokens hs"
    and "\<And>n v. (n, v) \<in> set hs \<Longrightarrow> to_ascii_lowercase n = ''transfer-encoding'' \<Longrightarrow> to_ascii_lowercase v = ''chunked''"
  shows "determine_request_body_kind (filter_hop_by_hop hs) = determine_request_body_kind hs"
proof -
  have "collect_framing (filter_hop_by_hop hs) = collect_framing hs"
    unfolding filter_hop_by_hop_def Let_def
    by (rule collect_framing_filter)
      (use assms in \<open>auto simp: framing_header_def is_hop_by_hop_header_def Let_def eq_ignore_ascii_case_def
         lower_names hop_by_hop_names_def\<close>)
  then show ?thesis by (simp add: determine_request_body_kind_def)
qed

definition smuggling_headers :: "header list" where
  "smuggling_headers = [(''Host'', ''x''), (''Transfer-Encoding'', ''chunked''), (''Connection'', ''transfer-encoding'')]"

lemma smuggle_by_connection:
  "determine_request_body_kind smuggling_headers = Ok Chunked"
  "determine_request_body_kind (filter_hop_by_hop smuggling_headers) = Ok Body_None"
  by code_simp+

lemma smuggle_by_coding_list:
  "determine_request_body_kind [(''Transfer-Encoding'', ''chunked,'')] = Ok Chunked"
  "determine_request_body_kind (filter_hop_by_hop [(''Transfer-Encoding'', ''chunked,'')]) = Ok Body_None"
  by code_simp+


lemma origin_keeps_framing_witness:
  "determine_request_body_kind (filter_hop_by_hop [(''TE'', ''x''), (''Transfer-Encoding'', ''Chunked'')]) = Ok Chunked"
proof -
  let ?hs = "[(''TE'', ''x''), (''Transfer-Encoding'', ''Chunked'')]"
  have k: "determine_request_body_kind ?hs = Ok Chunked" by code_simp
  have "''content-length'' \<notin> connection_tokens ?hs" "''transfer-encoding'' \<notin> connection_tokens ?hs" by code_simp+
  moreover have "\<forall>(n, v) \<in> set ?hs. to_ascii_lowercase n = ''transfer-encoding'' \<longrightarrow> to_ascii_lowercase v = ''chunked''"
    by code_simp
  ultimately show ?thesis using origin_keeps_framing [of ?hs] k by fastforce
qed

end
