(* ===== verification/Trojan.thy ===== *)
theory Trojan
  imports Net_Text Byte_Io Socks5_Codec
begin

text \<open>
  The Trojan protocol (\<^verbatim>\<open>eggress-protocol-trojan\<close>: \<^verbatim>\<open>error.rs\<close>, \<^verbatim>\<open>hash.rs\<close>, \<^verbatim>\<open>tcp.rs\<close>). SHA-224
  is a parameter; the outcome of the TLS set-up and handshake is an argument of the client.
  Results: the server reads the target of every request the client writes, and it answers a wrong
  password, a wrong delimiter and text that is not UTF-8 in one and the same way.
\<close>

datatype trojan_error = Tr_Io | Tr_Tls string | AuthFailed | Tr_ConnectionRefused | Tr_Protocol string

datatype trojan_diagnostic_code =
  Diag_IoError | Diag_TlsError | Diag_AuthenticationFailed | Diag_ConnectionRefused
| Diag_ProtocolViolation | Diag_InvalidTarget

fun TrojanDiagnosticCode_fmt :: "trojan_diagnostic_code \<Rightarrow> string" where
  "TrojanDiagnosticCode_fmt Diag_IoError = ''io_error''"
| "TrojanDiagnosticCode_fmt Diag_TlsError = ''tls_error''"
| "TrojanDiagnosticCode_fmt Diag_AuthenticationFailed = ''authentication_failed''"
| "TrojanDiagnosticCode_fmt Diag_ConnectionRefused = ''connection_refused''"
| "TrojanDiagnosticCode_fmt Diag_ProtocolViolation = ''protocol_violation''"
| "TrojanDiagnosticCode_fmt Diag_InvalidTarget = ''invalid_target''"

fun diagnostic_code :: "trojan_error \<Rightarrow> trojan_diagnostic_code" where
  "diagnostic_code Tr_Io = Diag_IoError"
| "diagnostic_code (Tr_Tls _) = Diag_TlsError"
| "diagnostic_code AuthFailed = Diag_AuthenticationFailed"
| "diagnostic_code Tr_ConnectionRefused = Diag_ConnectionRefused"
| "diagnostic_code (Tr_Protocol _) = Diag_ProtocolViolation"

text \<open>\<open>sha224\<close> maps bytes to a digest of 28 bytes.\<close>

definition password_hash :: "(u8 list \<Rightarrow> u8 list) \<Rightarrow> string \<Rightarrow> string" where
  "password_hash sha224 password = concat (map hex2 (sha224 (as_bytes password)))"

definition trojan_check_password :: "(u8 list \<Rightarrow> u8 list) \<Rightarrow> u8 list \<Rightarrow> string \<Rightarrow> bool" where
  "trojan_check_password sha224 received_hash password \<longleftrightarrow>
    received_hash = as_bytes (password_hash sha224 password)"

definition CRLF :: "u8 list" where "CRLF = [13, 10]"

definition MAX_TROJAN_DOMAIN_LEN :: nat where "MAX_TROJAN_DOMAIN_LEN = 255"

definition encode_trojan_request :: "(u8 list \<Rightarrow> u8 list) \<Rightarrow> target_addr \<Rightarrow> string \<Rightarrow> trojan_error + u8 list" where
  "encode_trojan_request sha224 target password =
    (let domain_str = (case tgt_host target of Ip ip \<Rightarrow> ip_to_string ip | Domain domain \<Rightarrow> domain) in
     if domain_str = [] \<or> 255 < length domain_str
     then Err (Tr_Protocol (''invalid domain length: '' @ show_nat (length domain_str) @ '' (must be 1-255)''))
     else Ok (as_bytes (password_hash sha224 password) @ CRLF @ [0x01] @ [0x03] @
            [word_of_nat (length domain_str)] @ as_bytes domain_str @ to_be_bytes (tgt_port target) @ CRLF))"

definition tr_io :: "io_error \<Rightarrow> trojan_error" where "tr_io e = Tr_Io"

text \<open>The address of a request, by its type.\<close>

definition read_trojan_target :: "u8 \<Rightarrow> (trojan_error, target_addr) io" where
  "read_trojan_target atyp =
    (if atyp = 0x01 then
       io_bind (read_exact tr_io (4 + 2)) (\<lambda>b.
         io_return \<lparr>tgt_host = Ip (V4 (take 4 b)), tgt_port = from_be_bytes (b ! 4) (b ! 5)\<rparr>)
     else if atyp = 0x03 then
       io_bind (read_exact tr_io 1) (\<lambda>len_buf.
         let domain_len = unat (len_buf ! 0) in
         if domain_len = 0 then io_fail (Tr_Protocol ''empty domain'')
         else if MAX_TROJAN_DOMAIN_LEN < domain_len
         then io_fail (Tr_Protocol (''domain length '' @ show_nat domain_len @ '' exceeds maximum '' @
                show_nat MAX_TROJAN_DOMAIN_LEN))
         else io_bind (read_exact tr_io (domain_len + 2)) (\<lambda>b.
           case from_utf8 (take domain_len b) of
             None \<Rightarrow> io_fail (Tr_Protocol ''invalid domain UTF-8'')
           | Some domain \<Rightarrow>
               io_return
                 \<lparr>tgt_host = (case parse_ip_addr domain of Some ip \<Rightarrow> Ip ip | None \<Rightarrow> Domain domain),
                  tgt_port = from_be_bytes (b ! domain_len) (b ! (domain_len + 1))\<rparr>))
     else if atyp = 0x04 then
       io_bind (read_exact tr_io (16 + 2)) (\<lambda>b.
         io_return \<lparr>tgt_host = Ip (V6 (take 16 b)), tgt_port = from_be_bytes (b ! 16) (b ! 17)\<rparr>)
     else io_fail (Tr_Protocol (''unsupported ATYP: 0x'' @ hex2 atyp)))"

text \<open>The request behind the hash line.\<close>

definition read_trojan_request :: "(trojan_error, target_addr) io" where
  "read_trojan_request =
    io_bind (read_exact tr_io 1) (\<lambda>cmd_buf.
      if cmd_buf ! 0 \<noteq> 0x01
      then io_fail (Tr_Protocol (''unsupported command: 0x'' @ hex2 (cmd_buf ! 0) @
             '' (only CONNECT is supported)''))
      else io_bind (read_exact tr_io 1) (\<lambda>atyp_buf.
           io_bind (read_trojan_target (atyp_buf ! 0)) (\<lambda>target.
           io_bind (read_exact tr_io 2) (\<lambda>crlf_buf.
             if crlf_buf \<noteq> CRLF then io_fail (Tr_Protocol ''missing trailing CRLF'')
             else io_return target))))"

definition trojan_accept :: "(u8 list \<Rightarrow> u8 list) \<Rightarrow> string \<Rightarrow> (trojan_error, target_addr) io" where
  "trojan_accept sha224 password =
    (let expected_hash = password_hash sha224 password in
     io_bind (read_exact tr_io 58) (\<lambda>hash_buf.
       case from_utf8 (take 56 hash_buf) of
         None \<Rightarrow> io_fail AuthFailed
       | Some received_hash \<Rightarrow>
           let hash_matches = (as_bytes received_hash = as_bytes expected_hash);
               delimiter_matches = (drop 56 hash_buf = CRLF)
           in if \<not> (hash_matches \<and> delimiter_matches) then io_fail AuthFailed
              else read_trojan_request))"

text \<open>\<open>tls\<close> is the outcome of loading the configuration and of the TLS handshake.\<close>

definition trojan_connect ::
  "(u8 list \<Rightarrow> u8 list) \<Rightarrow> trojan_error + unit \<Rightarrow> target_addr \<Rightarrow> string \<Rightarrow> (trojan_error, unit) io" where
  "trojan_connect sha224 tls target password =
    io_bind (io_of_result tls) (\<lambda>_.
    io_bind (io_of_result (encode_trojan_request sha224 target password)) (\<lambda>request.
    io_bind (write_all tr_io request) (\<lambda>_. flush)))"

lemma length_password_hash: "length (sha224 (as_bytes pw)) = 28 \<Longrightarrow> length (password_hash sha224 pw) = 56"
proof -
  have "length (concat (map hex2 bs)) = 2 * length bs" for bs by (induction bs) (auto simp: hex2_def)
  then show "length (sha224 (as_bytes pw)) = 28 \<Longrightarrow> length (password_hash sha224 pw) = 56"
    by (simp add: password_hash_def)
qed

lemma password_hash_ascii:
  assumes "c \<in> set (password_hash sha224 pw)"
  shows "is_ascii_char c"
proof -
  from assms have "\<exists>b :: u8. c = digit_char (unat b div 16) \<or> c = digit_char (unat b mod 16)"
    by (auto simp: password_hash_def hex2_def)
  then obtain b :: u8 where "c = digit_char (unat b div 16) \<or> c = digit_char (unat b mod 16)" ..
  moreover have "unat b div 16 < 16" using unat_u8_less [of b] by (simp add: less_mult_imp_div_less)
  moreover have "unat b mod 16 < 16" by simp
  moreover have "is_ascii_char (digit_char d)" if "d < 16" for d
    using that by (auto simp: digit_char_def is_ascii_char_def)
  ultimately show ?thesis by auto
qed

lemma wf_password_hash: "wf_str (password_hash sha224 pw)"
  by (intro wf_str_ascii ballI password_hash_ascii)

lemma from_utf8_hash: "from_utf8 bs = Some s \<Longrightarrow> as_bytes s = bs"
  by (simp add: from_utf8_Some_iff)

lemma trojan_accept_line:
  assumes "length (sha224 (as_bytes pw)) = 28" "58 \<le> length (rx c)"
  shows "trojan_accept sha224 pw c =
    (if take 58 (rx c) = as_bytes (password_hash sha224 pw) @ CRLF
     then read_trojan_request (c\<lparr>rx := drop 58 (rx c)\<rparr>)
     else (Err AuthFailed, c\<lparr>rx := drop 58 (rx c)\<rparr>))"
proof -
  let ?b = "take 58 (rx c)"
  have "?b = take 56 ?b @ drop 56 ?b" by (rule append_take_drop_id [symmetric])
  then have eq: "?b = as_bytes (password_hash sha224 pw) @ CRLF \<longleftrightarrow>
      take 56 ?b = as_bytes (password_hash sha224 pw) \<and> drop 56 ?b = CRLF"
    using assms length_password_hash [of sha224 pw, OF assms(1)] by (metis append_eq_conv_conj length_as_bytes)
  have r: "read_exact tr_io 58 c = (Ok ?b, c\<lparr>rx := drop 58 (rx c)\<rparr>)" using assms(2) by (simp add: read_exact_def)
  show ?thesis
  proof (cases "from_utf8 (take 56 ?b)")
    case None
    then have "take 56 ?b \<noteq> as_bytes (password_hash sha224 pw)" using wf_password_hash by auto
    with r None eq show ?thesis by (simp add: trojan_accept_def)
  next
    case (Some s)
    with r eq from_utf8_hash [OF Some] show ?thesis by (simp add: trojan_accept_def Let_def)
  qed
qed

lemma read_trojan_target_no_auth: "fst (read_trojan_target t c) \<noteq> Err AuthFailed"
  by (auto simp: read_trojan_target_def io_bind_def read_exact_def tr_io_def Let_def
      split: prod.splits sum.splits if_splits option.splits)

lemma read_trojan_request_no_auth: "fst (read_trojan_request c) \<noteq> Err AuthFailed"
  using read_trojan_target_no_auth
  by (auto simp: read_trojan_request_def io_bind_def read_exact_def tr_io_def Let_def
      split: prod.splits sum.splits if_splits option.splits) (metis fst_conv)+

text \<open>
  C39: a wrong password is answered uniformly. When the 58 bytes of the hash line have arrived, the
  server goes on exactly when they are the hash of its password and the delimiter; otherwise,
  for a wrong hash, a wrong delimiter or text that is not UTF-8 alike, it has read those 58 bytes
  and nothing more, written nothing, and fails with the one error \<^verbatim>\<open>AuthFailed\<close>, which no other
  check of the request produces.
\<close>

theorem trojan_auth_uniform:
  assumes "length (sha224 (as_bytes pw)) = 28" "58 \<le> length (rx c)"
  shows "(fst (trojan_accept sha224 pw c) = Err AuthFailed \<longleftrightarrow>
       take 58 (rx c) \<noteq> as_bytes (password_hash sha224 pw) @ CRLF) \<and>
    (fst (trojan_accept sha224 pw c) = Err AuthFailed \<longrightarrow>
       trojan_accept sha224 pw c = (Err AuthFailed, c\<lparr>rx := drop 58 (rx c)\<rparr>))"
  unfolding trojan_accept_line [of sha224 pw c, OF assms] using read_trojan_request_no_auth by auto

theorem trojan_auth_uniform_witness:
  "fst (trojan_accept (\<lambda>_. replicate 28 7) ''pw'' \<lparr>rx = replicate 60 255, tx = [], room = 0\<rparr>) = Err AuthFailed"
proof -
  let ?h = "password_hash (\<lambda>_. replicate 28 7) ''pw''"
  have l: "length ?h = 56" by (rule length_password_hash) simp
  then have "byte_of_char (?h ! 0) < 128" using password_hash_ascii [OF nth_mem] by (intro byte_of_char_less_128) simp
  then have "(as_bytes ?h @ CRLF) ! 0 \<noteq> 255" using l by (auto simp: nth_append as_bytes_def)
  moreover have "take 58 (replicate 60 (255 :: u8)) ! 0 = 255" by simp
  ultimately have "take 58 (replicate 60 (255 :: u8)) \<noteq> as_bytes ?h @ CRLF" by metis
  with trojan_auth_uniform [of "\<lambda>_. replicate 28 7" "''pw''" "\<lparr>rx = replicate 60 255, tx = [], room = 0\<rparr>"] show ?thesis
    by simp
qed

text \<open>
  A Trojan server reads the target a client asked for. For every IPv4 and IPv6 address, which
  the client writes as text, and for every domain that is not itself an address, the server with
  the same password reads exactly the target and port of the request, and what the client sent
  behind the request is still on the stream.
\<close>

lemma trojan_interop:
  assumes "length (sha224 (as_bytes pw)) = 28" "plain_host (tgt_host t)" "wf_str (TargetHost_fmt (tgt_host t))"
    "trojan_connect sha224 (Ok ()) t pw \<lparr>rx = x, tx = [], room = n\<rparr> = (Ok (), c)"
  shows "trojan_accept sha224 pw \<lparr>rx = tx c @ rest, tx = y, room = k\<rparr> = (Ok t, \<lparr>rx = rest, tx = y, room = k\<rparr>)"
proof -
  define d where "d = TargetHost_fmt (tgt_host t)"
  have d: "(case tgt_host t of Ip ip \<Rightarrow> ip_to_string ip | Domain domain \<Rightarrow> domain) = d"
    by (simp add: d_def split: target_host.split)
  have p: "(case parse_ip_addr d of Some ip \<Rightarrow> Ip ip | None \<Rightarrow> Domain d) = tgt_host t"
    using assms(2) by (cases "tgt_host t") (simp_all add: d_def parse_ip_to_string)
  from assms(4) have l: "d \<noteq> []" "length d \<le> 255" and
    tx: "tx c = as_bytes (password_hash sha224 pw) @ CRLF @ [1, 3, word_of_nat (length d)] @ as_bytes d @
      to_be_bytes (tgt_port t) @ CRLF"
    by (auto simp: trojan_connect_def io_bind_Ok_iff write_all_Ok_iff encode_trojan_request_def d Let_def split: if_splits)
  have u: "unat (word_of_nat (length d) :: u8) = length d" using l(2) by (simp add: unat_of_nat)
  have w: "from_utf8 (as_bytes d) = Some d" using assms(3) by (simp add: d_def)
  let ?c = "\<lambda>r. \<lparr>rx = r, tx = y, room = k\<rparr>"
  have "read_trojan_target 3 (?c (word_of_nat (length d) # as_bytes d @ to_be_bytes (tgt_port t) @ CRLF @ rest)) =
      (Ok t, ?c (CRLF @ rest))"
    using l u p w
    by (cases t) (simp add: read_trojan_target_def io_bind_def read_exact_def Let_def MAX_TROJAN_DOMAIN_LEN_def
        nth_append to_be_bytes_def)
  then have "read_trojan_request (?c ([1, 3, word_of_nat (length d)] @ as_bytes d @ to_be_bytes (tgt_port t) @ CRLF @ rest)) =
      (Ok t, ?c rest)"
    by (simp add: read_trojan_request_def io_bind_def read_exact_def CRLF_def)
  moreover have "length (as_bytes (password_hash sha224 pw) @ CRLF) = 58"
    using length_password_hash [of sha224 pw, OF assms(1)] by (simp add: CRLF_def)
  ultimately show ?thesis
    using trojan_accept_line [of sha224 pw "?c (tx c @ rest)", OF assms(1)]
    by (simp add: tx take_Cons' drop_Cons')
qed

definition example_v4 :: target_addr where
  "example_v4 = \<lparr>tgt_host = Ip (V4 [1, 2, 3, 4]), tgt_port = 443\<rparr>"

lemma trojan_interop_witness:
  "\<exists>c. trojan_connect (\<lambda>_. replicate 28 7) (Ok ()) example_v4 ''pw'' \<lparr>rx = [], tx = [], room = 100\<rparr> = (Ok (), c) \<and>
     trojan_accept (\<lambda>_. replicate 28 7) ''pw'' \<lparr>rx = tx c @ [9], tx = [], room = 0\<rparr> =
       (Ok example_v4, \<lparr>rx = [9], tx = [], room = 0\<rparr>)"
proof -
  let ?sha = "\<lambda>_ :: u8 list. replicate 28 (7 :: u8)"
  have h: "TargetHost_fmt (tgt_host example_v4) = ''1.2.3.4''"
    by (simp add: example_v4_def v4_to_string_def show_radix.simps digit_char_def char_of_eq_iff take_bit_eq_mod)
  have l: "length (password_hash ?sha ''pw'') = 56" by (rule length_password_hash) simp
  have "\<exists>c. trojan_connect ?sha (Ok ()) example_v4 ''pw'' \<lparr>rx = [], tx = [], room = 100\<rparr> = (Ok (), c)"
    using h l by (simp add: trojan_connect_def io_bind_def encode_trojan_request_def example_v4_def write_all_def CRLF_def Let_def)
  then obtain c where c: "trojan_connect ?sha (Ok ()) example_v4 ''pw'' \<lparr>rx = [], tx = [], room = 100\<rparr> = (Ok (), c)" ..
  have "plain_host (tgt_host example_v4)" by (simp add: example_v4_def)
  moreover have "wf_str (TargetHost_fmt (tgt_host example_v4))" unfolding h by (rule wf_str_ascii) (simp add: is_ascii_char_def)
  ultimately show ?thesis using trojan_interop [of ?sha "''pw''" example_v4 "[]" 100 c "[9]" "[]" 0] c by auto
qed

end
