(* ===== verification/Hops.thy ===== *)
theory Hops
  imports Chain Socks5_Handshake Socks4 Http_Connect Trojan Shadowsocks
begin

text \<open>
  The handlers of the upstream hops (\<^verbatim>\<open>eggress-outbound/src/hops.rs\<close>) whose result is the same byte stream, HTTP
  CONNECT, SOCKS5, SOCKS4, raw and Unix, as handlers of the chain executor over connections, and the
  classification of their failures (\<^verbatim>\<open>classify.rs\<close>). Result: a chain of SOCKS5 proxies is driven so that every
  proxy on the way is asked for the next one and the last one for the target, in order, and the bytes that
  follow are the user's.
\<close>

subsection \<open>Failures\<close>

datatype handshake_error =
  Hs_Io os_kind | Hs_Protocol string | Hs_ConnectionRefused | Hs_AuthFailed | Hs_Other string

datatype h2_connect_error =
  H2_Io os_kind | H2_Protocol string | H2_Http http_error | H2_PoolExhausted | H2_DnsRebinding ip_addr

text \<open>The concrete types a boxed handshake error can have; those of the WebSocket, SSH and QUIC crates are left out.\<close>

datatype boxed_error =
  Boxed_Io os_kind
| Boxed_Connect connect_error
| Boxed_Handshake handshake_error
| Boxed_Http http_error
| Boxed_H2 h2_connect_error
| Boxed_Socks5 socks5_error
| Boxed_Socks4 socks4_error
| Boxed_Tls string
| Boxed_Trojan trojan_error
| Boxed_Shadowsocks shadowsocks_error
| Boxed_Text string

datatype classified_kind =
  Class_Timeout | Class_Dns | Class_Refused | Class_NetworkUnreachable | Class_HostUnreachable
| Class_Auth | Class_Tls | Class_Protocol | Class_Policy | Class_Other

fun classify_io_kind :: "os_kind \<Rightarrow> classified_kind" where
  "classify_io_kind Os_ConnectionRefused = Class_Refused"
| "classify_io_kind Os_TimedOut = Class_Timeout"
| "classify_io_kind Os_NetworkUnreachable = Class_NetworkUnreachable"
| "classify_io_kind Os_HostUnreachable = Class_HostUnreachable"
| "classify_io_kind _ = Class_Other"

fun classify_connect_error :: "connect_error \<Rightarrow> classified_kind" where
  "classify_connect_error Connect_ConnectionRefused = Class_Refused"
| "classify_connect_error Connect_Timeout = Class_Timeout"
| "classify_connect_error (DnsResolution _) = Class_Dns"
| "classify_connect_error (Connect_TlsHandshake _) = Class_Tls"
| "classify_connect_error (ReservedTarget _) = Class_Policy"
| "classify_connect_error (Connect_Io io) = classify_io_kind (os_kind io)"

text \<open>The kinds of the stream errors of the byte-level routines, an early end and a broken pipe, are not mapped.\<close>

definition io_error_kind :: "io_error \<Rightarrow> os_kind" where
  "io_error_kind e = Os_Other"

fun classify_http_error :: "http_error \<Rightarrow> classified_kind" where
  "classify_http_error Http_AuthRequired = Class_Auth"
| "classify_http_error Http_AuthFailed = Class_Auth"
| "classify_http_error Http_ConnectionRefused = Class_Refused"
| "classify_http_error GatewayTimeout = Class_Timeout"
| "classify_http_error Http_Io = classify_io_kind Os_Other"
| "classify_http_error _ = Class_Protocol"

fun classify_handshake_source :: "boxed_error \<Rightarrow> classified_kind" where
  "classify_handshake_source (Boxed_Io k) = classify_io_kind k"
| "classify_handshake_source (Boxed_Connect e) = classify_connect_error e"
| "classify_handshake_source (Boxed_Handshake e) =
    (case e of
       Hs_Io k \<Rightarrow> classify_io_kind k
     | Hs_ConnectionRefused \<Rightarrow> Class_Refused
     | Hs_AuthFailed \<Rightarrow> Class_Auth
     | Hs_Protocol _ \<Rightarrow> Class_Protocol
     | Hs_Other _ \<Rightarrow> Class_Other)"
| "classify_handshake_source (Boxed_Http e) = classify_http_error e"
| "classify_handshake_source (Boxed_H2 e) =
    (case e of
       H2_Io k \<Rightarrow> classify_io_kind k
     | H2_Http inner \<Rightarrow> classify_http_error inner
     | H2_DnsRebinding _ \<Rightarrow> Class_Policy
     | H2_Protocol _ \<Rightarrow> Class_Protocol
     | H2_PoolExhausted \<Rightarrow> Class_Other)"
| "classify_handshake_source (Boxed_Socks5 e) =
    (case e of
       Socks5_AuthFailed \<Rightarrow> Class_Auth
     | Socks5_ConnectionRefused \<Rightarrow> Class_Refused
     | Socks5_Io io \<Rightarrow> classify_io_kind (io_error_kind io)
     | _ \<Rightarrow> Class_Protocol)"
| "classify_handshake_source (Boxed_Socks4 e) =
    (case e of
       Socks4_ConnectionRefused \<Rightarrow> Class_Refused
     | Socks4_ConnectionFailed \<Rightarrow> Class_Protocol
     | Socks4_FailedNoIdent \<Rightarrow> Class_Auth
     | Socks4_FailedDifferentUser \<Rightarrow> Class_Auth
     | Socks4_Io io \<Rightarrow> classify_io_kind (io_error_kind io)
     | _ \<Rightarrow> Class_Protocol)"
| "classify_handshake_source (Boxed_Tls _) = Class_Tls"
| "classify_handshake_source (Boxed_Trojan e) =
    (case e of
       AuthFailed \<Rightarrow> Class_Auth
     | Tr_ConnectionRefused \<Rightarrow> Class_Refused
     | Tr_Tls _ \<Rightarrow> Class_Tls
     | Tr_Io \<Rightarrow> classify_io_kind Os_Other
     | Tr_Protocol _ \<Rightarrow> Class_Protocol)"
| "classify_handshake_source (Boxed_Shadowsocks e) =
    (case e of Ss_Io \<Rightarrow> classify_io_kind Os_Other | _ \<Rightarrow> Class_Protocol)"
| "classify_handshake_source (Boxed_Text _) = Class_Other"

subsection \<open>Handlers\<close>

fun hop_socks_addr :: "target_addr \<Rightarrow> socks_addr" where
  "hop_socks_addr \<lparr>tgt_host = Ip (V4 os), tgt_port = p\<rparr> = Socks_IPv4 os p"
| "hop_socks_addr \<lparr>tgt_host = Ip (V6 os), tgt_port = p\<rparr> = Socks_IPv6 os p"
| "hop_socks_addr \<lparr>tgt_host = Domain d, tgt_port = p\<rparr> = Socks_Domain d p"

definition hop_auth :: "proxy_hop_spec \<Rightarrow> (string \<times> string) option" where
  "hop_auth hop = map_option (\<lambda>c. (cred_username c, cred_password c)) (hop_credentials hop)"

text \<open>A handshake that works on the connection and hands it on.\<close>

definition upgraded :: "('e \<Rightarrow> boxed_error) \<Rightarrow> ('e, unit) io \<Rightarrow> conn \<Rightarrow> boxed_error + conn" where
  "upgraded box m s = (case m s of (Inl e, _) \<Rightarrow> Err (box e) | (Inr _, s') \<Rightarrow> Ok s')"

definition tcp_handler ::
  "protocol_spec \<Rightarrow> (conn \<Rightarrow> target_addr \<Rightarrow> proxy_hop_spec \<Rightarrow> nat \<Rightarrow> boxed_error + conn) \<Rightarrow> (conn, boxed_error) hop_handler" where
  "tcp_handler protocol handshake = \<lparr>hh_protocol = protocol, hh_open = (\<lambda>_ _ _. None), hh_handshake = handshake\<rparr>"

definition HttpHopHandler :: "eggfetch \<Rightarrow> (u8 list \<Rightarrow> string) \<Rightarrow> (conn, boxed_error) hop_handler" where
  "HttpHopHandler ef enc =
    tcp_handler Spec_Http
      (\<lambda>s target hop _. upgraded Boxed_Http (http_connect ef enc target (hop_auth hop) HttpConnectLimits_default) s)"

definition Socks5HopHandler :: "(conn, boxed_error) hop_handler" where
  "Socks5HopHandler =
    tcp_handler Spec_Socks5 (\<lambda>s target hop _. upgraded Boxed_Socks5 (socks5_connect (hop_socks_addr target) (hop_auth hop)) s)"

definition Socks4HopHandler :: "(conn, boxed_error) hop_handler" where
  "Socks4HopHandler =
    tcp_handler Spec_Socks4
      (\<lambda>s target hop _. upgraded Boxed_Socks4 (socks4_connect target (map_option cred_username (hop_credentials hop))) s)"

definition RawHopHandler :: "(conn, boxed_error) hop_handler" where
  "RawHopHandler = tcp_handler Spec_Raw (\<lambda>s _ _ _. Ok s)"

definition UnixHopHandler :: "(conn, boxed_error) hop_handler" where
  "UnixHopHandler = tcp_handler Spec_Unix (\<lambda>s _ _ _. Ok s)"

text \<open>These handlers in the order of the registry of \<^verbatim>\<open>executor.rs\<close>.\<close>

definition stream_handlers :: "eggfetch \<Rightarrow> (u8 list \<Rightarrow> string) \<Rightarrow> (conn, boxed_error) hop_handler list" where
  "stream_handlers ef enc = [HttpHopHandler ef enc, Socks5HopHandler, Socks4HopHandler, RawHopHandler, UnixHopHandler]"

subsection \<open>A chain of SOCKS5 proxies\<close>

text \<open>A server of the chain: user name and password it requires and the address it reports as bound.\<close>

type_synonym socks5_server = "string option \<times> string option \<times> socks_addr"

text \<open>
  The servers one behind the other: each reads its handshake from what the client wrote and passes the rest
  on to the next one. The result is what each was asked for, and the bytes that go through.
\<close>

fun serve_chain :: "socks5_server list \<Rightarrow> u8 list \<Rightarrow> (socks_addr list \<times> u8 list) option" where
  "serve_chain [] bs = Some ([], bs)"
| "serve_chain ((u, p, b) # rest) bs =
    (case serve_connect u p b \<lparr>rx = bs, tx = [], room = 1024\<rparr> of
       (Inl _, _) \<Rightarrow> None
     | (Inr t, c) \<Rightarrow> map_option (\<lambda>(ts, r). (t # ts, r)) (serve_chain rest (rx c)))"

definition socks5_hop :: "proxy_hop_spec \<Rightarrow> bool" where
  "socks5_hop hop \<longleftrightarrow> hop_protocols hop = [Spec_Socks5] \<and> \<not> hop_tls hop \<and> \<not> hop_insecure hop \<and>
    ep_host (hop_endpoint hop) \<noteq> [] \<and> ep_port (hop_endpoint hop) \<noteq> 0"

definition server_fits :: "proxy_hop_spec \<Rightarrow> socks5_server \<Rightarrow> bool" where
  "server_fits hop server = (case server of (u, p, b) \<Rightarrow> auth_agrees (hop_auth hop) u p \<and> encodable b)"

text \<open>
  What the proxies of a chain are to be asked for, from the configuration alone: an endpoint is an address when
  its host is one and a name otherwise, each proxy is asked for the endpoint behind it, and the last one
  for the target.
\<close>

definition dial_address :: "endpoint_spec \<Rightarrow> target_addr" where
  "dial_address ep =
    \<lparr>tgt_host = (case parse_ip_addr (ep_host ep) of None \<Rightarrow> Domain (ep_host ep) | Some ip \<Rightarrow> Ip ip), tgt_port = ep_port ep\<rparr>"

definition request_address :: "target_addr \<Rightarrow> socks_addr" where
  "request_address t =
    (case tgt_host t of
       Domain d \<Rightarrow> Socks_Domain d (tgt_port t)
     | Ip (V4 os) \<Rightarrow> Socks_IPv4 os (tgt_port t)
     | Ip (V6 os) \<Rightarrow> Socks_IPv6 os (tgt_port t))"

definition chain_requests :: "proxy_hop_spec list \<Rightarrow> target_addr \<Rightarrow> socks_addr list" where
  "chain_requests chain target = map request_address (map (dial_address \<circ> hop_endpoint) (tl chain) @ [target])"

text \<open>What the executor asks for, hop by hop.\<close>

fun hop_requests :: "proxy_hop_spec list \<Rightarrow> target_addr \<Rightarrow> socks_addr list" where
  "hop_requests [] target = []"
| "hop_requests (hop # rest) target = hop_socks_addr (hop_next_target rest target) # hop_requests rest target"

lemma hop_socks_addr_eq: "hop_socks_addr t = request_address t"
  by (cases t rule: hop_socks_addr.cases) (simp_all add: request_address_def)

lemma endpoint_to_target_addr_eq: "endpoint_to_target_addr ep = dial_address ep"
  by (simp add: endpoint_to_target_addr_def dial_address_def split: option.split)

lemma hop_requests_eq: "chain \<noteq> [] \<Longrightarrow> hop_requests chain target = chain_requests chain target"
proof (induction chain)
  case (Cons hop rest)
  then show ?case
    by (cases rest) (simp_all add: chain_requests_def hop_next_target_def hop_socks_addr_eq endpoint_to_target_addr_eq)
qed simp

definition chain_replies :: "socks5_server list \<Rightarrow> u8 list" where
  "chain_replies servers = concat (map (\<lambda>(u, p, b). server_bytes b p) servers)"

lemma find_socks5 [simp]: "find_handler (stream_handlers ef enc) [Spec_Socks5] = Some Socks5HopHandler"
  by (simp add: stream_handlers_def HttpHopHandler_def Socks5HopHandler_def tcp_handler_def)

lemma run_socks5_hops:
  assumes "list_all2 server_fits hs servers" "list_all socks5_hop hs" "list_all encodable (hop_requests hs target)"
    "ce_handlers ex = stream_handlers ef enc" "1024 * length hs \<le> r"
  shows "\<exists>out r'. run_hops ex target i hs \<lparr>rx = chain_replies servers @ down, tx = t, room = r\<rparr> m =
      Ok (\<lparr>rx = down, tx = t @ out, room = r'\<rparr>, m) \<and>
    (\<forall>data. serve_chain servers (out @ data) = Some (hop_requests hs target, data))"
  using assms
proof (induction hs arbitrary: servers i t r)
  case Nil
  then show ?case by (intro exI [of _ "[]"]) (simp add: chain_replies_def)
next
  case (Cons hop rest)
  from Cons.prems(1) obtain sv0 ss where "servers = sv0 # ss" "server_fits hop sv0" "list_all2 server_fits rest ss"
    by (auto simp: list_all2_Cons1)
  then obtain u p b where sv: "servers = (u, p, b) # ss" "list_all2 server_fits rest ss"
    "auth_agrees (hop_auth hop) u p" "encodable b"
    by (cases sv0) (auto simp: server_fits_def)
  let ?t = "hop_socks_addr (hop_next_target rest target)"
  have enc: "encodable ?t" "list_all encodable (hop_requests rest target)" using Cons.prems(3) by simp_all
  have hop: "hop_protocols hop = [Spec_Socks5]" "\<not> hop_tls hop" "\<not> hop_insecure hop" using Cons.prems(2) by (simp_all add: socks5_hop_def)
  let ?cb = "client_bytes ?t (hop_auth hop) p"
  have len: "length ?cb \<le> 1024" by (rule length_client_bytes [OF enc(1) sv(3)])
  have r: "1024 \<le> r" "1024 * length rest \<le> r - length ?cb" using Cons.prems(5) len by simp_all
  note cl = client_interop [OF enc(1) sv(4,3) r(1), of "chain_replies ss @ down" t]
  have st: "tls_stage ex i hop s = Ok s" "hop_metadata i hop m = m"
    "handshake_stage ex i hop (hop_next_target rest target) \<lparr>rx = chain_replies servers @ down, tx = t, room = r\<rparr> =
     Ok \<lparr>rx = chain_replies ss @ down, tx = t @ ?cb, room = r - length ?cb\<rparr>" for s
    using hop cl Cons.prems(4)
    by (simp_all add: tls_stage_def hop_metadata_def handshake_stage_def application_protocols_def Socks5HopHandler_def
        tcp_handler_def upgraded_def sv(1) chain_replies_def del: find_handler.simps)
  from Cons.IH [OF sv(2) _ enc(2) Cons.prems(4) r(2), of "Suc i" "t @ ?cb"] Cons.prems(2) obtain out r' where
    ih: "run_hops ex target (Suc i) rest \<lparr>rx = chain_replies ss @ down, tx = t @ ?cb, room = r - length ?cb\<rparr> m =
      Ok (\<lparr>rx = down, tx = (t @ ?cb) @ out, room = r'\<rparr>, m)"
    "\<forall>data. serve_chain ss (out @ data) = Some (hop_requests rest target, data)" by auto
  have "serve_chain servers ((?cb @ out) @ data) = Some (hop_requests (hop # rest) target, data)" for data
    using server_interop [OF enc(1) sv(4,3), of 1024 "out @ data"] ih(2) by (simp add: sv(1))
  with ih(1) st show ?case by (intro exI [of _ "?cb @ out"]) auto
qed

lemma validate_socks5: "list_all socks5_hop hs \<Longrightarrow> validate_chain i hs = Ok ()"
  by (induction hs arbitrary: i) (auto simp: socks5_hop_def)

lemma check_socks5: "list_all socks5_hop hs \<Longrightarrow> check_handlers (stream_handlers ef enc) i hs = Ok ()"
  by (induction hs arbitrary: i) (auto simp: socks5_hop_def application_protocols_def Let_def simp del: find_handler.simps)

text \<open>
  C17: A chain of SOCKS5 proxies reaches its target. Take any chain of plain SOCKS5 hops, servers that
  require credentials the hops have (or none), and a network on which connecting to the endpoint of the first hop
  gives a connection on which the servers answer one behind the other. The executor succeeds, leaves the payload after the last reply unread, and
  what it wrote is read by the servers as: the first is asked for the second hop's endpoint, and so on, the last
  for the target; every byte the user sends afterwards passes all of them untouched.
\<close>
theorem socks5_chain_reaches_target:
  assumes "chain \<noteq> []" "list_all socks5_hop chain" "list_all2 server_fits chain servers"
    "list_all encodable (chain_requests chain target)" "ce_handlers ex = stream_handlers ef enc"
    "hop_bind_addr (hop_local_bind (hd chain)) = Ok bind"
    "connect_with_options_and_metadata (tr_network tr) (dial_address (hop_endpoint (hd chain)))
      (ConnectOptions_default\<lparr>co_local_bind := bind\<rparr>) =
      Ok (\<lparr>rx = chain_replies servers @ down, tx = [], room = r\<rparr>, m)" "1024 * length chain \<le> r"
  shows "\<exists>c. execute_with_metadata tr ex chain target = Ok (c, m) \<and> rx c = down \<and>
    (\<forall>data. serve_chain servers (tx c @ data) = Some (chain_requests chain target, data))"
proof -
  have enc: "list_all encodable (hop_requests chain target)" using assms(1,4) by (simp add: hop_requests_eq)
  from run_socks5_hops [OF assms(3,2) enc assms(5,8), of 0 down "[]" m] obtain out r' where
    o: "run_hops ex target 0 chain \<lparr>rx = chain_replies servers @ down, tx = [], room = r\<rparr> m =
      Ok (\<lparr>rx = down, tx = out, room = r'\<rparr>, m)"
    "\<forall>data. serve_chain servers (out @ data) = Some (chain_requests chain target, data)"
    using hop_requests_eq [OF assms(1)] by auto
  obtain h rest where c: "chain = h # rest" using assms(1) by (cases chain) auto
  have op: "open_first_hop tr ex h t = Ok (\<lparr>rx = chain_replies servers @ down, tx = [], room = r\<rparr>, m)" for t
    using assms(2,6,7) by (simp add: c open_first_hop_def socks5_hop_def endpoint_to_target_addr_eq Let_def)
  have "execute_with_metadata tr ex chain target = Ok (\<lparr>rx = down, tx = out, room = r'\<rparr>, m)"
    using op o(1) check_socks5 [OF assms(2), of ef enc 0] assms(5)
    by (simp add: execute_with_metadata_def c validate_socks5 [OF assms(2) [unfolded c]] del: validate_chain.simps check_handlers.simps run_hops.simps)
  with o(2) show ?thesis by auto
qed

definition demo_hop :: "string \<Rightarrow> credential_spec option \<Rightarrow> proxy_hop_spec" where
  "demo_hop host cred =
    \<lparr>hop_protocols = [Spec_Socks5], hop_endpoint = \<lparr>ep_host = host, ep_port = 1080\<rparr>, hop_credentials = cred, hop_rule = None,
     hop_local_bind = None, hop_tls = False, hop_server_name = None, hop_insecure = False, hop_plugins = [], hop_auth_prefix = None\<rparr>"

definition demo_transports :: "u8 list \<Rightarrow> conn transports" where
  "demo_transports bytes =
    \<lparr>tr_network = \<lparr>net_lookup = (\<lambda>_. Answered (Ok [SocketAddr (V4 [93, 184, 216, 34]) 1080])),
       net_socket = (\<lambda>_. Ok ()), net_bind = (\<lambda>_ _. Ok ()),
       net_connect = (\<lambda>_ a. Answered (Ok (\<lparr>rx = bytes, tx = [], room = 4096\<rparr>, ConnectionMetadata_default)))\<rparr>,
     tr_unix = (\<lambda>_. Err \<lparr>os_kind = Os_Other, os_text = ''no such file''\<rparr>)\<rparr>"

definition demo_eggfetch :: eggfetch where
  "demo_eggfetch = \<lparr>ef_authority = (\<lambda>_ _. None), ef_encode = (\<lambda>_ _ _. Err Connect_Other)\<rparr>"

definition demo_executor :: "(conn, boxed_error) chain_executor" where
  "demo_executor = ChainExecutor_new (stream_handlers demo_eggfetch (\<lambda>_. []))"

theorem socks5_chain_reaches_target_witness:
  "let chain = [demo_hop ''x.test'' None, demo_hop ''y.test'' (Some \<lparr>cred_username = ''u'', cred_password = ''p''\<rparr>)];
       servers = [(None, None, Socks_IPv4 [0, 0, 0, 0] 0), (Some ''u'', Some ''p'', Socks_IPv4 [0, 0, 0, 0] 0)];
       ex = demo_executor;
       target = \<lparr>tgt_host = Domain ''z.test'', tgt_port = 443\<rparr>
   in \<exists>c. execute_with_metadata (demo_transports (chain_replies servers @ [72, 105])) ex chain target = Ok (c, ConnectionMetadata_default) \<and>
     rx c = [72, 105] \<and>
     (\<forall>data. serve_chain servers (tx c @ data) = Some ([Socks_Domain ''y.test'' 1080, Socks_Domain ''z.test'' 443], data))"
proof -
  let ?c = "Some \<lparr>cred_username = ''u'', cred_password = ''p''\<rparr>"
  let ?chain = "[demo_hop ''x.test'' None, demo_hop ''y.test'' ?c]"
  let ?servers = "[(None, None, Socks_IPv4 [0, 0, 0, 0] 0), (Some ''u'', Some ''p'', Socks_IPv4 [0, 0, 0, 0] 0)] :: socks5_server list"
  let ?ex = "demo_executor"
  let ?t = "\<lparr>tgt_host = Domain ''z.test'', tgt_port = 443\<rparr>"
  have ip: "parse_ip_addr ''x.test'' = None" "parse_ip_addr ''y.test'' = None"
    by (rule parse_ip_addr_none; simp add: stops_def digit_val_def starts_with_def)+
  have wf: "wf_str ''y.test''" "wf_str ''z.test''" by code_simp+
  have res: "\<not> is_reserved_v4 [93, 184, 216, 34]" by code_simp
  have req: "chain_requests ?chain ?t = [Socks_Domain ''y.test'' 1080, Socks_Domain ''z.test'' 443]"
    by (simp add: chain_requests_def request_address_def dial_address_def demo_hop_def ip)
  have bind: "hop_bind_addr (hop_local_bind (hd ?chain)) = Ok None" by (simp add: hop_bind_addr_def demo_hop_def)
  have op: "connect_with_options_and_metadata (tr_network (demo_transports (chain_replies ?servers @ [72, 105])))
      (dial_address (hop_endpoint (hd ?chain))) (ConnectOptions_default\<lparr>co_local_bind := None\<rparr>) =
    Ok (\<lparr>rx = chain_replies ?servers @ [72, 105], tx = [], room = 4096\<rparr>, ConnectionMetadata_default)"
    by (simp add: dial_address_def demo_hop_def demo_transports_def connect_with_options_and_metadata_def
        resolve_target_def ip ConnectOptions_default_def is_dns_rebinding_risk_def res
        connect_to_addrs_def connect_to_addr_def Let_def)
  have ok: "list_all socks5_hop ?chain" "list_all2 server_fits ?chain ?servers"
    by (simp_all add: socks5_hop_def demo_hop_def server_fits_def auth_agrees_def hop_auth_def)
  have enc: "list_all encodable (chain_requests ?chain ?t)" unfolding req using wf by simp
  have h: "ce_handlers ?ex = stream_handlers demo_eggfetch (\<lambda>_. [])" by (simp add: demo_executor_def ChainExecutor_new_def)
  show ?thesis
    using socks5_chain_reaches_target [OF _ ok enc h bind op] unfolding req Let_def by simp
qed

end
