(* ===== verification/Auth_Cache.thy ===== *)
theory Auth_Cache
  imports Core_Types "HOL-Library.AList" "HOL-Library.Multiset"
begin

text \<open>
  The authentication policy of inbound listeners and the per-source-IP reuse cache
  (\<^verbatim>\<open>eggress-server/src/accept/mod.rs\<close>). The hash map is an association list with distinct keys, in
  the map's iteration order, which the code relies on nowhere but for ties: the step relation lets
  it change at any moment. The clock is an argument of each operation. Results: the cache never
  grows beyond its bound, and it vouches for an address only on the strength of a recorded
  authentication of that address within the timeout, with the identity recorded last.
\<close>

record auth_reuse_entry =
  are_identity :: client_identity
  last_authenticated :: nanos

record auth_reuse_cache =
  cache_timeout :: nanos
  cache_entries :: "(ip_addr \<times> auth_reuse_entry) list"
  max_entries :: nat
  last_sweep_nanos :: nat

definition DEFAULT_MAX_ENTRIES :: nat where "DEFAULT_MAX_ENTRIES = 4096"

definition SWEEP_INTERVAL :: nanos where "SWEEP_INTERVAL = 30 * 10 ^ 9"

definition U64_MAX :: nat where "U64_MAX = 2 ^ 64 - 1"

definition AuthReuseCache_new :: "nanos \<Rightarrow> auth_reuse_cache" where
  "AuthReuseCache_new t =
    \<lparr>cache_timeout = t, cache_entries = [], max_entries = DEFAULT_MAX_ENTRIES, last_sweep_nanos = 0\<rparr>"

text \<open>\<^verbatim>\<open>Instant::duration_since\<close> saturates at zero, as subtraction of naturals does.\<close>

definition AuthReuseCache_lookup ::
  "nanos \<Rightarrow> ip_addr \<Rightarrow> auth_reuse_cache \<Rightarrow> client_identity option \<times> auth_reuse_cache" where
  "AuthReuseCache_lookup now peer_ip cache =
    (case map_of (cache_entries cache) peer_ip of
       None \<Rightarrow> (None, cache)
     | Some entry \<Rightarrow>
         if now - last_authenticated entry > cache_timeout cache
         then (None, cache\<lparr>cache_entries := AList.delete peer_ip (cache_entries cache)\<rparr>)
         else (Some (are_identity entry), cache))"

text \<open>\<^verbatim>\<open>iter().min_by_key(..)\<close>: the first entry in iteration order with the least time stamp.\<close>

fun oldest_entry :: "(ip_addr \<times> auth_reuse_entry) list \<Rightarrow> (ip_addr \<times> auth_reuse_entry) option" where
  "oldest_entry [] = None"
| "oldest_entry (x # xs) =
    (case oldest_entry xs of
       None \<Rightarrow> Some x
     | Some y \<Rightarrow> if last_authenticated (snd y) < last_authenticated (snd x) then Some y else Some x)"

definition sweep_expired :: "nanos \<Rightarrow> nanos \<Rightarrow> auth_reuse_cache \<Rightarrow> auth_reuse_cache" where
  "sweep_expired epoch now cache =
    (if max_entries cache \<le> length (cache_entries cache) then
       (let now_nanos = min (now - epoch) U64_MAX in
        if min SWEEP_INTERVAL U64_MAX \<le> now_nanos - last_sweep_nanos cache then
          cache\<lparr>last_sweep_nanos := now_nanos,
                cache_entries := filter (\<lambda>(_, e). now - last_authenticated e \<le> cache_timeout cache)
                                   (cache_entries cache)\<rparr>
        else cache)
     else cache)"

definition evict_oldest :: "ip_addr \<Rightarrow> auth_reuse_cache \<Rightarrow> auth_reuse_cache" where
  "evict_oldest peer_ip cache =
    (if max_entries cache \<le> length (cache_entries cache) \<and> map_of (cache_entries cache) peer_ip = None
     then (case oldest_entry (cache_entries cache) of
             None \<Rightarrow> cache
           | Some (ip, _) \<Rightarrow> cache\<lparr>cache_entries := AList.delete ip (cache_entries cache)\<rparr>)
     else cache)"

definition AuthReuseCache_record ::
  "nanos \<Rightarrow> nanos \<Rightarrow> ip_addr \<Rightarrow> client_identity \<Rightarrow> auth_reuse_cache \<Rightarrow> auth_reuse_cache" where
  "AuthReuseCache_record epoch now peer_ip identity cache =
    (let cache' = evict_oldest peer_ip (sweep_expired epoch now cache) in
     cache'\<lparr>cache_entries :=
       AList.update peer_ip \<lparr>are_identity = identity, last_authenticated = now\<rparr> (cache_entries cache')\<rparr>)"

definition AuthReuseCache_len :: "auth_reuse_cache \<Rightarrow> nat" where
  "AuthReuseCache_len cache = length (cache_entries cache)"

definition AuthReuseCache_is_empty :: "auth_reuse_cache \<Rightarrow> bool" where
  "AuthReuseCache_is_empty cache \<longleftrightarrow> AuthReuseCache_len cache = 0"

subsection \<open>Policies\<close>

text \<open>The cache is shared behind an \<^verbatim>\<open>Arc\<close>; a policy is passed on with its updated cache.\<close>

datatype inbound_authentication =
  Auth_None
| UsernamePassword string string
| UsernamePasswordWithReuse string string auth_reuse_cache

fun auth_credentials :: "inbound_authentication \<Rightarrow> (string \<times> string \<times> auth_reuse_cache option) option" where
  "auth_credentials Auth_None = None"
| "auth_credentials (UsernamePassword u p) = Some (u, p, None)"
| "auth_credentials (UsernamePasswordWithReuse u p c) = Some (u, p, Some c)"

fun with_cache :: "inbound_authentication \<Rightarrow> auth_reuse_cache \<Rightarrow> inbound_authentication" where
  "with_cache (UsernamePasswordWithReuse u p _) c = UsernamePasswordWithReuse u p c"
| "with_cache auth _ = auth"

definition cached_identity ::
  "nanos \<Rightarrow> inbound_authentication \<Rightarrow> ip_addr option \<Rightarrow> client_identity option \<times> inbound_authentication" where
  "cached_identity now auth peer_ip =
    (case auth_credentials auth of
       None \<Rightarrow> (None, auth)
     | Some (_, _, reuse) \<Rightarrow>
         (case peer_ip of
            None \<Rightarrow> (None, auth)
          | Some ip \<Rightarrow>
              (case reuse of
                 None \<Rightarrow> (None, auth)
               | Some cache \<Rightarrow>
                   (case AuthReuseCache_lookup now ip cache of (r, cache') \<Rightarrow> (r, with_cache auth cache')))))"

definition record_authenticated ::
  "nanos \<Rightarrow> nanos \<Rightarrow> inbound_authentication \<Rightarrow> ip_addr option \<Rightarrow> client_identity \<Rightarrow> inbound_authentication" where
  "record_authenticated epoch now auth peer_ip identity =
    (case auth_credentials auth of
       Some (_, _, Some cache) \<Rightarrow>
         (case peer_ip of
            Some ip \<Rightarrow> with_cache auth (AuthReuseCache_record epoch now ip identity cache)
          | None \<Rightarrow> auth)
     | _ \<Rightarrow> auth)"

fun InboundAuthentication_fmt :: "inbound_authentication \<Rightarrow> string" where
  "InboundAuthentication_fmt Auth_None = ''none''"
| "InboundAuthentication_fmt (UsernamePassword _ _) = ''username/password''"
| "InboundAuthentication_fmt (UsernamePasswordWithReuse _ _ _) = ''username/password with IP reuse''"

subsection \<open>The cache in use\<close>

text \<open>
  A run of the cache: the time, the authentications recorded so far (latest first) and the cache.
  Time advances, the map may be reordered, addresses are looked up and recorded.
\<close>

type_synonym auth_log = "(nanos \<times> ip_addr \<times> client_identity) list"

inductive cache_run ::
  "nanos \<Rightarrow> auth_reuse_cache \<Rightarrow> nanos \<Rightarrow> auth_log \<Rightarrow> auth_reuse_cache \<Rightarrow> bool"
  for epoch :: nanos and init :: auth_reuse_cache where
  cache_start: "cache_entries init = [] \<Longrightarrow> cache_run epoch init now [] init"
| cache_tick: "cache_run epoch init now log c \<Longrightarrow> now \<le> now' \<Longrightarrow> cache_run epoch init now' log c"
| cache_rehash: "cache_run epoch init now log c \<Longrightarrow> mset es = mset (cache_entries c) \<Longrightarrow>
    cache_run epoch init now log (c\<lparr>cache_entries := es\<rparr>)"
| cache_lookup: "cache_run epoch init now log c \<Longrightarrow>
    cache_run epoch init now log (snd (AuthReuseCache_lookup now ip c))"
| cache_record: "cache_run epoch init now log c \<Longrightarrow>
    cache_run epoch init now ((now, ip, i) # log) (AuthReuseCache_record epoch now ip i c)"

text \<open>The latest recorded authentication of an address.\<close>

fun latest_auth :: "ip_addr \<Rightarrow> auth_log \<Rightarrow> (nanos \<times> client_identity) option" where
  "latest_auth ip [] = None"
| "latest_auth ip ((t, ip', i) # log) = (if ip' = ip then Some (t, i) else latest_auth ip log)"

text \<open>Entries agree with the log, keys are distinct, the bound holds.\<close>

definition cache_inv :: "auth_log \<Rightarrow> auth_reuse_cache \<Rightarrow> bool" where
  "cache_inv log c \<longleftrightarrow>
    distinct (map fst (cache_entries c)) \<and>
    (0 < max_entries c \<longrightarrow> length (cache_entries c) \<le> max_entries c) \<and>
    (\<forall>ip e. map_of (cache_entries c) ip = Some e \<longrightarrow>
       latest_auth ip log = Some (last_authenticated e, are_identity e))"

lemma cache_inv_mono:
  assumes "cache_inv log c" "distinct (map fst es)" "length es \<le> length (cache_entries c)"
    and "map_of es \<subseteq>\<^sub>m map_of (cache_entries c)" "max_entries c' = max_entries c" "cache_entries c' = es"
  shows "cache_inv log c'"
  using assms by (auto simp: cache_inv_def map_le_def dom_def)

lemma map_of_delete_le: "map_of (AList.delete k es) \<subseteq>\<^sub>m map_of es"
  by (auto simp: map_le_def delete_conv' )

lemma cache_inv_delete: "cache_inv log c \<Longrightarrow> cache_inv log (c\<lparr>cache_entries := AList.delete ip (cache_entries c)\<rparr>)"
  by (rule cache_inv_mono [where es = "AList.delete ip (cache_entries c)"])
    (auto simp: cache_inv_def distinct_delete length_delete_le map_of_delete_le)

lemma length_alist_update:
  "length (AList.update k v es) = (if k \<in> fst ` set es then length es else Suc (length es))"
  by (induction es) auto

lemma length_alist_delete_less: "k \<in> fst ` set es \<Longrightarrow> length (AList.delete k es) < length es"
  by (induction es) (auto simp: AList.delete_eq le_imp_less_Suc)

lemma oldest_entry_in: "oldest_entry es = Some x \<Longrightarrow> x \<in> set es"
  by (induction es arbitrary: x) (auto split: option.splits if_splits)

lemma oldest_entry_None: "oldest_entry es = None \<longleftrightarrow> es = []"
  by (cases es) (auto split: option.splits)

lemma oldest_entry_min:
  "oldest_entry es = Some x \<Longrightarrow> y \<in> set es \<Longrightarrow> last_authenticated (snd x) \<le> last_authenticated (snd y)"
proof (induction es arbitrary: x)
  case (Cons z es)
  show ?case
  proof (cases "oldest_entry es")
    case None
    with Cons.prems show ?thesis by (simp add: oldest_entry_None)
  next
    case (Some w)
    with Cons show ?thesis by (fastforce split: if_splits)
  qed
qed simp

lemma map_of_filter_le:
  "distinct (map fst es) \<Longrightarrow> map_of (filter P es) \<subseteq>\<^sub>m map_of es"
proof (induction es)
  case (Cons x es)
  then have "fst x \<notin> dom (map_of (filter P es))" by (auto simp: dom_map_of_conv_image_fst)
  with Cons show ?case by (cases x) (auto simp: map_le_def dom_def)
qed simp

lemma sweep_expired_inv:
  assumes "cache_inv log c"
  shows "cache_inv log (sweep_expired epoch now c) \<and> max_entries (sweep_expired epoch now c) = max_entries c"
proof -
  have d: "distinct (map fst (cache_entries c))" using assms by (simp add: cache_inv_def)
  let ?es = "filter (\<lambda>(_, e). now - last_authenticated e \<le> cache_timeout c) (cache_entries c)"
  have "cache_inv log (c\<lparr>last_sweep_nanos := n, cache_entries := ?es\<rparr>)" for n
    by (rule cache_inv_mono [OF assms, where es = ?es])
      (auto simp: distinct_map_filter d map_of_filter_le)
  with assms show ?thesis by (simp add: sweep_expired_def Let_def)
qed

lemma evict_oldest_inv:
  assumes "cache_inv log c"
  shows "cache_inv log (evict_oldest ip c) \<and> max_entries (evict_oldest ip c) = max_entries c \<and>
    (0 < max_entries c \<longrightarrow> ip \<in> fst ` set (cache_entries (evict_oldest ip c)) \<or>
       length (cache_entries (evict_oldest ip c)) < max_entries c)"
proof (cases "max_entries c \<le> length (cache_entries c) \<and> map_of (cache_entries c) ip = None")
  case True
  show ?thesis
  proof (cases "oldest_entry (cache_entries c)")
    case None
    with assms True show ?thesis by (auto simp: evict_oldest_def oldest_entry_None)
  next
    case (Some x)
    obtain k e where x: "x = (k, e)" by (cases x)
    with oldest_entry_in [OF Some] have "k \<in> fst ` set (cache_entries c)" by force
    from length_alist_delete_less [OF this] assms True x Some show ?thesis
      by (auto simp: evict_oldest_def cache_inv_delete) (auto simp: cache_inv_def)
  qed
next
  case False
  then have "evict_oldest ip c = c" by (auto simp: evict_oldest_def)
  with assms False show ?thesis by (auto simp: map_of_eq_None_iff)
qed

lemma record_inv:
  assumes "cache_inv log c"
  shows "cache_inv ((now, ip, i) # log) (AuthReuseCache_record epoch now ip i c)"
proof -
  let ?c = "evict_oldest ip (sweep_expired epoch now c)"
  have s: "cache_inv log (sweep_expired epoch now c)" using sweep_expired_inv [OF assms] by simp
  from evict_oldest_inv [OF s, of ip] have e: "cache_inv log ?c"
    "0 < max_entries ?c \<Longrightarrow> ip \<in> fst ` set (cache_entries ?c) \<or> length (cache_entries ?c) < max_entries ?c"
    by auto
  then show ?thesis
    by (auto simp: AuthReuseCache_record_def Let_def cache_inv_def distinct_update length_alist_update
        update_conv' )
qed

lemma lookup_inv: "cache_inv log c \<Longrightarrow> cache_inv log (snd (AuthReuseCache_lookup now ip c))"
  by (auto simp: AuthReuseCache_lookup_def cache_inv_delete split: option.splits)

lemma rehash_inv:
  assumes "cache_inv log c" "mset es = mset (cache_entries c)"
  shows "cache_inv log (c\<lparr>cache_entries := es\<rparr>)"
proof -
  have d: "distinct (map fst es)"
    using assms by (metis cache_inv_def mset_eq_imp_distinct_iff mset_map)
  have "map_of es = map_of (cache_entries c)"
    using d assms by (metis cache_inv_def map_of_inject_set set_mset_mset)
  with d assms mset_eq_length [OF assms(2)] show ?thesis by (simp add: cache_inv_def)
qed

lemma cache_run_inv: "cache_run epoch init now log c \<Longrightarrow> cache_inv log c"
  by (induction rule: cache_run.induct)
    (auto simp: cache_inv_def [of "[]"] lookup_inv rehash_inv record_inv)

lemma cache_params [simp]:
  "cache_timeout (sweep_expired epoch now c) = cache_timeout c"
  "max_entries (sweep_expired epoch now c) = max_entries c"
  "cache_timeout (evict_oldest ip c) = cache_timeout c"
  "max_entries (evict_oldest ip c) = max_entries c"
  "cache_timeout (AuthReuseCache_record epoch now ip i c) = cache_timeout c"
  "max_entries (AuthReuseCache_record epoch now ip i c) = max_entries c"
  "cache_timeout (snd (AuthReuseCache_lookup now ip c)) = cache_timeout c"
  "max_entries (snd (AuthReuseCache_lookup now ip c)) = max_entries c"
proof -
  show s: "cache_timeout (sweep_expired epoch now c) = cache_timeout c"
    "max_entries (sweep_expired epoch now c) = max_entries c" for c
    by (simp_all add: sweep_expired_def Let_def)
  show e: "cache_timeout (evict_oldest ip c) = cache_timeout c"
    "max_entries (evict_oldest ip c) = max_entries c" for c
    by (simp_all add: evict_oldest_def split: option.split)
  show "cache_timeout (AuthReuseCache_record epoch now ip i c) = cache_timeout c"
    "max_entries (AuthReuseCache_record epoch now ip i c) = max_entries c"
    by (simp_all add: AuthReuseCache_record_def Let_def s e)
  show "cache_timeout (snd (AuthReuseCache_lookup now ip c)) = cache_timeout c"
    "max_entries (snd (AuthReuseCache_lookup now ip c)) = max_entries c"
    by (simp_all add: AuthReuseCache_lookup_def split: option.split)
qed

lemma cache_run_params: "cache_run epoch init now log c \<Longrightarrow>
  cache_timeout c = cache_timeout init \<and> max_entries c = max_entries init"
  by (induction rule: cache_run.induct) auto

lemma record_entry:
  "map_of (cache_entries (AuthReuseCache_record epoch now ip i c)) ip =
    Some \<lparr>are_identity = i, last_authenticated = now\<rparr>"
  by (simp add: AuthReuseCache_record_def Let_def update_conv')

lemma record_lookup:
  "now' - now \<le> cache_timeout c \<Longrightarrow>
   fst (AuthReuseCache_lookup now' ip (AuthReuseCache_record epoch now ip i c)) = Some i"
  by (simp add: AuthReuseCache_lookup_def record_entry)

text \<open>
  C31: the reuse cache vouches only for recent authentications. After any sequence of records and
  lookups at any times, with the hash map in any iteration order, the cache holds no more entries
  than its bound; whenever a lookup answers, the address was authenticated at most the timeout
  ago, and the identity is the one recorded at its latest authentication; and an address just
  recorded is answered until the timeout has passed.
\<close>

theorem auth_cache_sound:
  assumes "cache_run epoch init now log c" "0 < max_entries init"
  shows "AuthReuseCache_len c \<le> max_entries init \<and>
    (\<forall>i. fst (AuthReuseCache_lookup now ip c) = Some i \<longrightarrow>
      (\<exists>t. latest_auth ip log = Some (t, i) \<and> now - t \<le> cache_timeout init)) \<and>
    (now' - now \<le> cache_timeout init \<longrightarrow>
      fst (AuthReuseCache_lookup now' ip (AuthReuseCache_record epoch now ip j c)) = Some j)"
proof (intro conjI allI impI)
  note p = cache_run_params [OF assms(1)] and inv = cache_run_inv [OF assms(1)]
  show "AuthReuseCache_len c \<le> max_entries init"
    using p inv assms(2) by (simp add: cache_inv_def AuthReuseCache_len_def)
  show "\<exists>t. latest_auth ip log = Some (t, i) \<and> now - t \<le> cache_timeout init"
    if "fst (AuthReuseCache_lookup now ip c) = Some i" for i
    using that p inv by (auto simp: AuthReuseCache_lookup_def cache_inv_def split: option.splits if_splits)
  show "fst (AuthReuseCache_lookup now' ip (AuthReuseCache_record epoch now ip j c)) = Some j"
    if "now' - now \<le> cache_timeout init"
    using record_lookup that p by simp
qed

theorem auth_cache_sound_witness:
  "\<exists>c. cache_run 0 (AuthReuseCache_new 60) 30 [(10, V4 [10, 0, 0, 1], Username ''u'')] c \<and>
     fst (AuthReuseCache_lookup 30 (V4 [10, 0, 0, 1]) c) = Some (Username ''u'') \<and>
     AuthReuseCache_len c \<le> 4096"
proof -
  let ?ip = "V4 [10, 0, 0, 1]" and ?new = "AuthReuseCache_new 60"
  let ?c = "AuthReuseCache_record 0 10 ?ip (Username ''u'') ?new"
  have "cache_run 0 ?new 10 [] ?new" by (rule cache_start) (simp add: AuthReuseCache_new_def)
  then have "cache_run 0 ?new 30 [(10, ?ip, Username ''u'')] ?c"
    by (rule cache_tick [OF cache_record]) simp
  moreover have "fst (AuthReuseCache_lookup 30 ?ip ?c) = Some (Username ''u'')"
    by (rule record_lookup) (simp add: AuthReuseCache_new_def)
  ultimately show ?thesis
    using auth_cache_sound [of 0 ?new 30 "[(10, ?ip, Username ''u'')]" ?c]
    by (auto simp: AuthReuseCache_new_def DEFAULT_MAX_ENTRIES_def)
qed

end
