(* ===== verification/Detect.thy ===== *)
theory Detect
  imports Core_Types "HOL-Library.Sublist"
begin

text \<open>
  Protocol detection: the detectors (\<^verbatim>\<open>eggress-core/src/detect.rs\<close>, \<^verbatim>\<open>eggress-protocol-http\<close>'s and
  \<^verbatim>\<open>eggress-protocol-socks\<close>'s), the sniffing stream wrapper (\<^verbatim>\<open>eggress-core/src/replay.rs\<close>) and the
  dispatcher (\<^verbatim>\<open>eggress-core/src/dispatch.rs\<close>). The stream below is a sequence of poll events of
  any sizes, so every segmentation of the data by the network is covered. The locale
  \<open>protocol_detector\<close> says what a detector's answers mean; it is interpreted on the three
  detectors. Results: the wrapper neither loses nor repeats a byte, and what dispatch answers
  depends on the bytes alone, not on how they arrive.
\<close>

subsection \<open>Detectors\<close>

datatype detect_result = Match u8 | NeedMore nat | NoMatch

type_synonym detector = "protocol_id \<times> (u8 list \<Rightarrow> detect_result)"

record prefix_detector =
  pd_id :: protocol_id
  pd_prefix :: "u8 list"
  pd_min_length :: nat

definition PrefixDetector_new :: "protocol_id \<Rightarrow> u8 list \<Rightarrow> prefix_detector" where
  "PrefixDetector_new i p = \<lparr>pd_id = i, pd_prefix = p, pd_min_length = length p\<rparr>"

definition PrefixDetector_with_min_length :: "protocol_id \<Rightarrow> u8 list \<Rightarrow> nat \<Rightarrow> prefix_detector" where
  "PrefixDetector_with_min_length i p n = \<lparr>pd_id = i, pd_prefix = p, pd_min_length = n\<rparr>"

definition PrefixDetector_detect :: "prefix_detector \<Rightarrow> u8 list \<Rightarrow> detect_result" where
  "PrefixDetector_detect d data =
    (if length data < pd_min_length d then NeedMore (pd_min_length d)
     else if prefix (pd_prefix d) data then Match 100
     else NoMatch)"

definition Socks4Detector_detect :: "u8 list \<Rightarrow> detect_result" where
  "Socks4Detector_detect p = (if p = [] then NeedMore 1 else if p ! 0 = 0x04 then Match 100 else NoMatch)"

definition Socks5Detector_detect :: "u8 list \<Rightarrow> detect_result" where
  "Socks5Detector_detect p = (if p = [] then NeedMore 1 else if p ! 0 = 0x05 then Match 100 else NoMatch)"

definition HTTP_METHODS :: "u8 list list" where
  "HTTP_METHODS = map as_bytes
    [''GET '', ''POST '', ''PUT '', ''DELETE '', ''HEAD '', ''OPTIONS '', ''PATCH '', ''CONNECT '', ''TRACE '']"

fun detect_methods :: "u8 list list \<Rightarrow> u8 list \<Rightarrow> detect_result" where
  "detect_methods [] p = NoMatch"
| "detect_methods (m # ms) p =
    (if prefix m p then Match 100 else if prefix p m then NeedMore (length m) else detect_methods ms p)"

definition HttpDetector_detect :: "u8 list \<Rightarrow> detect_result" where
  "HttpDetector_detect p =
    (if p = [] then NeedMore 1
     else if prefix (as_bytes ''HTTP/'') p then (if 5 \<le> length p then Match 95 else NeedMore 5)
     else if prefix p (as_bytes ''HTTP/'') then NeedMore 5
     else detect_methods HTTP_METHODS p)"

subsection \<open>The underlying stream\<close>

text \<open>
  What successive polls of the inner stream see: data, pending polls (which may already have
  filled some bytes), a failure, or silence until the handshake timer fires. The empty sequence
  is end of stream.
\<close>

datatype inner_event = Chunk "u8 list" | Pend "u8 list" | Fail | Stall

type_synonym inner = "inner_event list"

datatype poll_error = QuotaExceeded | InnerError

datatype poll_status = PollOk | PollPending | PollErr poll_error

fun put_back :: "u8 list \<Rightarrow> inner \<Rightarrow> inner" where
  "put_back [] es = es"
| "put_back (b # bs) es = Chunk (b # bs) # es"

fun inner_poll :: "inner \<Rightarrow> nat \<Rightarrow> poll_status \<times> u8 list \<times> inner" where
  "inner_poll [] cap = (PollOk, [], [])"
| "inner_poll (Chunk bs # es) cap = (PollOk, take cap bs, put_back (drop cap bs) es)"
| "inner_poll (Pend bs # es) cap = (PollPending, take cap bs, put_back (drop cap bs) es)"
| "inner_poll (Fail # es) cap = (PollErr InnerError, [], es)"
| "inner_poll (Stall # es) cap = (PollPending, [], Stall # es)"

fun inner_bytes :: "inner \<Rightarrow> u8 list" where
  "inner_bytes [] = []"
| "inner_bytes (Chunk bs # es) = bs @ inner_bytes es"
| "inner_bytes (Pend bs # es) = bs @ inner_bytes es"
| "inner_bytes (Fail # es) = inner_bytes es"
| "inner_bytes (Stall # es) = inner_bytes es"

subsection \<open>The sniffing wrapper\<close>

definition DEFAULT_MAX_BUFFER :: nat where "DEFAULT_MAX_BUFFER = 8 * 1024"
definition SNIFF_READ_CHUNK :: nat where "SNIFF_READ_CHUNK = 2048"

record replay_stream =
  rs_inner :: inner
  rs_buffer :: "u8 list"
  read_pos :: nat
  sniffing :: bool
  max_buffer :: nat

definition ReplayStream_with_max_buffer :: "inner \<Rightarrow> nat \<Rightarrow> replay_stream" where
  "ReplayStream_with_max_buffer s n =
    \<lparr>rs_inner = s, rs_buffer = [], read_pos = 0, sniffing = True, max_buffer = n\<rparr>"

definition ReplayStream_new :: "inner \<Rightarrow> replay_stream" where
  "ReplayStream_new s = ReplayStream_with_max_buffer s DEFAULT_MAX_BUFFER"

definition finish_sniff :: "replay_stream \<Rightarrow> replay_stream" where
  "finish_sniff r = r\<lparr>sniffing := False\<rparr>"

definition buffered_remaining :: "replay_stream \<Rightarrow> nat" where
  "buffered_remaining r = length (rs_buffer r) - read_pos r"

text \<open>The bytes polled into the temporary chunk go to the buffer and, as far as they fit, to the caller.\<close>

definition absorb :: "nat \<Rightarrow> u8 list \<Rightarrow> replay_stream \<Rightarrow> u8 list \<times> replay_stream" where
  "absorb cap filled r =
    (let buffer' = rs_buffer r @ filled; to_copy = min (length filled) cap in
     (take to_copy (drop (read_pos r) buffer'),
      r\<lparr>rs_buffer := buffer', read_pos := read_pos r + to_copy\<rparr>))"

text \<open>\<^verbatim>\<open>poll_read\<close> into a caller buffer with \<open>cap\<close> free bytes: status, bytes put there, new state.\<close>

definition replay_poll_read :: "replay_stream \<Rightarrow> nat \<Rightarrow> poll_status \<times> u8 list \<times> replay_stream" where
  "replay_poll_read r cap =
    (let remaining = length (rs_buffer r) - read_pos r in
     if 0 < remaining then
       (let to_copy = min remaining cap in
        (PollOk, take to_copy (drop (read_pos r) (rs_buffer r)), r\<lparr>read_pos := read_pos r + to_copy\<rparr>))
     else if sniffing r then
       (if max_buffer r \<le> length (rs_buffer r) then (PollErr QuotaExceeded, [], r)
        else (let space = max_buffer r - length (rs_buffer r);
                  read_size = min (min space cap) SNIFF_READ_CHUNK;
                  (st, filled, inner') = inner_poll (rs_inner r) read_size;
                  r' = r\<lparr>rs_inner := inner'\<rparr>
              in case st of
                   PollOk \<Rightarrow>
                     if filled = [] then (PollOk, [], r')
                     else (let (out, r'') = absorb cap filled r' in (PollOk, out, r''))
                 | PollErr e \<Rightarrow> (PollErr e, [], r')
                 | PollPending \<Rightarrow>
                     if filled \<noteq> [] then (let (out, r'') = absorb cap filled r' in (PollOk, out, r''))
                     else (PollPending, [], r')))
     else (let (st, filled, inner') = inner_poll (rs_inner r) cap in (st, filled, r\<lparr>rs_inner := inner'\<rparr>)))"

text \<open>What the wrapper still has to deliver, in order.\<close>

definition stream_bytes :: "replay_stream \<Rightarrow> u8 list" where
  "stream_bytes r = drop (read_pos r) (rs_buffer r) @ inner_bytes (rs_inner r)"

text \<open>\<^verbatim>\<open>into_inner\<close>: the stream handed on is the inner one once the buffer is drained.\<close>

definition into_inner_bytes :: "replay_stream \<Rightarrow> u8 list" where
  "into_inner_bytes r =
    (let r' = finish_sniff r in
     if buffered_remaining r' = 0 then inner_bytes (rs_inner r') else stream_bytes r')"

definition wf_replay :: "replay_stream \<Rightarrow> bool" where
  "wf_replay r \<longleftrightarrow> read_pos r \<le> length (rs_buffer r) \<and> length (rs_buffer r) \<le> max_buffer r"

lemma inner_bytes_put_back [simp]: "inner_bytes (put_back bs es) = bs @ inner_bytes es"
  by (cases bs) auto

lemma inner_poll_bytes:
  "inner_poll es cap = (st, bs, es') \<Longrightarrow> inner_bytes es = bs @ inner_bytes es' \<and> length bs \<le> cap"
  by (induction es cap rule: inner_poll.induct) auto

subsection \<open>The wrapper loses nothing\<close>

lemma absorb_bytes:
  assumes "absorb cap filled r = (out, r')" "read_pos r = length (rs_buffer r)" "length filled \<le> cap"
    "length (rs_buffer r) + length filled \<le> max_buffer r"
  shows "filled @ inner_bytes (rs_inner r) = out @ stream_bytes r' \<and> wf_replay r' \<and>
    length out \<le> cap \<and> max_buffer r' = max_buffer r \<and> rs_inner r' = rs_inner r \<and> sniffing r' = sniffing r"
  using assms by (auto simp: absorb_def Let_def stream_bytes_def wf_replay_def)

lemma inner_poll_err: "inner_poll es cap = (PollErr e, bs, es') \<Longrightarrow> bs = []"
  by (induction es cap rule: inner_poll.induct) auto

lemma replay_poll_read_bytes:
  assumes "replay_poll_read r cap = (st, out, r')" "wf_replay r"
  shows "stream_bytes r = out @ stream_bytes r' \<and> wf_replay r' \<and> length out \<le> cap \<and>
    max_buffer r' = max_buffer r"
proof (cases "0 < length (rs_buffer r) - read_pos r")
  case True
  then have "out = take (min (length (rs_buffer r) - read_pos r) cap) (drop (read_pos r) (rs_buffer r))"
      "r' = r\<lparr>read_pos := read_pos r + min (length (rs_buffer r) - read_pos r) cap\<rparr>"
    using assms by (auto simp: replay_poll_read_def Let_def)
  then show ?thesis
    using assms(2) append_take_drop_id [of "min (length (rs_buffer r) - read_pos r) cap" "drop (read_pos r) (rs_buffer r)"]
    by (auto simp: stream_bytes_def wf_replay_def add.commute)
next
  case False
  with assms(2) have full: "read_pos r = length (rs_buffer r)" by (simp add: wf_replay_def)
  show ?thesis
  proof (cases "sniffing r")
    case sn: True
    show ?thesis
    proof (cases "max_buffer r \<le> length (rs_buffer r)")
      case True
      with assms False sn show ?thesis by (auto simp: replay_poll_read_def)
    next
      case lt: False
      let ?n = "min (min (max_buffer r - length (rs_buffer r)) cap) SNIFF_READ_CHUNK"
      obtain st0 filled inner' where p: "inner_poll (rs_inner r) ?n = (st0, filled, inner')"
        by (cases "inner_poll (rs_inner r) ?n") auto
      from inner_poll_bytes [OF p] have b: "inner_bytes (rs_inner r) = filled @ inner_bytes inner'"
        "length filled \<le> cap" "length (rs_buffer r) + length filled \<le> max_buffer r" using lt by auto
      have e: "replay_poll_read r cap =
          (case st0 of
             PollOk \<Rightarrow> if filled = [] then (PollOk, [], r\<lparr>rs_inner := inner'\<rparr>)
               else (let (out, r'') = absorb cap filled (r\<lparr>rs_inner := inner'\<rparr>) in (PollOk, out, r''))
           | PollErr e \<Rightarrow> (PollErr e, [], r\<lparr>rs_inner := inner'\<rparr>)
           | PollPending \<Rightarrow> if filled \<noteq> []
               then (let (out, r'') = absorb cap filled (r\<lparr>rs_inner := inner'\<rparr>) in (PollOk, out, r''))
               else (PollPending, [], r\<lparr>rs_inner := inner'\<rparr>))"
        using False sn lt p by (simp add: replay_poll_read_def Let_def)
      have err: "filled = []" if "st0 = PollErr x" for x
        using p that inner_poll_err by blast
      have abs: "stream_bytes r = o' @ stream_bytes r'' \<and> wf_replay r'' \<and> length o' \<le> cap \<and>
          max_buffer r'' = max_buffer r"
        if "absorb cap filled (r\<lparr>rs_inner := inner'\<rparr>) = (o', r'')" for o' r''
        using absorb_bytes [OF that] b full by (simp add: stream_bytes_def)
      have nil: "stream_bytes r = stream_bytes (r\<lparr>rs_inner := inner'\<rparr>) \<and> wf_replay (r\<lparr>rs_inner := inner'\<rparr>)"
        if "filled = []"
        using b that assms(2) by (simp add: stream_bytes_def wf_replay_def)
      show ?thesis
        using assms(1) abs nil err
        by (cases st0; cases "filled = []") (auto simp: e split: prod.splits)
    qed
  next
    case ns: False
    obtain st0 filled inner' where p: "inner_poll (rs_inner r) cap = (st0, filled, inner')"
      by (cases "inner_poll (rs_inner r) cap") auto
    with assms False ns inner_poll_bytes [OF p] show ?thesis
      by (auto simp: replay_poll_read_def stream_bytes_def wf_replay_def full)
  qed
qed

text \<open>A use of the wrapper: reads with caller buffers of any size, and the end of sniffing.\<close>

datatype replay_op = Read nat | Finish

fun run_replay :: "replay_op list \<Rightarrow> replay_stream \<Rightarrow> u8 list \<times> replay_stream" where
  "run_replay [] r = ([], r)"
| "run_replay (Read cap # ops) r =
    (case replay_poll_read r cap of
       (_, out, r') \<Rightarrow> (let (rest, r'') = run_replay ops r' in (out @ rest, r'')))"
| "run_replay (Finish # ops) r = run_replay ops (finish_sniff r)"

lemma finish_sniff_bytes [simp]:
  "stream_bytes (finish_sniff r) = stream_bytes r" "wf_replay (finish_sniff r) = wf_replay r"
  "max_buffer (finish_sniff r) = max_buffer r"
  by (simp_all add: finish_sniff_def stream_bytes_def wf_replay_def)

lemma run_replay_bytes:
  "run_replay ops r = (out, r') \<Longrightarrow> wf_replay r \<Longrightarrow>
   stream_bytes r = out @ stream_bytes r' \<and> wf_replay r' \<and> max_buffer r' = max_buffer r"
proof (induction ops arbitrary: r out)
  case (Cons op ops)
  show ?case
  proof (cases op)
    case (Read cap)
    obtain st o1 r1 where 1: "replay_poll_read r cap = (st, o1, r1)" by (cases "replay_poll_read r cap") auto
    obtain o2 where 2: "run_replay ops r1 = (o2, r')" "out = o1 @ o2"
      using Cons.prems(1) by (auto simp: Read 1 split: prod.splits)
    from replay_poll_read_bytes [OF 1 Cons.prems(2)] Cons.IH [OF 2(1)] 2(2) show ?thesis by auto
  next
    case Finish
    with Cons.prems Cons.IH [of "finish_sniff r" out] show ?thesis by simp
  qed
qed simp

text \<open>
  Sniffing is transparent. Over any sequence of reads with caller buffers of any size, any
  arrival of the underlying data (partial, pending, failing), and wherever sniffing is ended,
  the bytes handed to the caller followed by what \<^verbatim>\<open>into_inner\<close> still delivers are exactly the
  bytes of the underlying stream: none lost, repeated or reordered. The sniff buffer never
  exceeds its bound.
\<close>

lemma replay_transparent:
  "case run_replay ops (ReplayStream_with_max_buffer s n) of
     (out, r) \<Rightarrow> out @ into_inner_bytes r = inner_bytes s \<and> length (rs_buffer r) \<le> n"
proof -
  obtain out r where r: "run_replay ops (ReplayStream_with_max_buffer s n) = (out, r)" by fastforce
  have "wf_replay (ReplayStream_with_max_buffer s n)"
      "stream_bytes (ReplayStream_with_max_buffer s n) = inner_bytes s"
      "max_buffer (ReplayStream_with_max_buffer s n) = n"
    by (simp_all add: ReplayStream_with_max_buffer_def wf_replay_def stream_bytes_def)
  with run_replay_bytes [OF r] have *: "inner_bytes s = out @ stream_bytes r" "wf_replay r" "max_buffer r = n"
    by auto
  have "into_inner_bytes r = stream_bytes r"
    by (auto simp: into_inner_bytes_def buffered_remaining_def finish_sniff_def stream_bytes_def Let_def)
  with * r show ?thesis by (simp add: wf_replay_def)
qed

subsection \<open>The dispatcher\<close>

datatype dispatch_error = Dispatch_Timeout | BufferOverflow nat | Dispatch_NoMatch | Dispatch_Io

definition DEFAULT_MAX_SNIFF :: nat where "DEFAULT_MAX_SNIFF = 8 * 1024"

record protocol_dispatcher =
  detectors :: "detector list"
  max_sniff :: nat
  handshake_timeout :: nanos

definition ProtocolDispatcher_with_defaults :: "detector list \<Rightarrow> nanos \<Rightarrow> protocol_dispatcher" where
  "ProtocolDispatcher_with_defaults ds t =
    \<lparr>detectors = ds, max_sniff = DEFAULT_MAX_SNIFF, handshake_timeout = t\<rparr>"

definition protocol_ids :: "protocol_dispatcher \<Rightarrow> protocol_id list" where
  "protocol_ids d = map fst (detectors d)"

text \<open>
  \<^verbatim>\<open>replay.read(..).await\<close>: poll until ready. \<open>None\<close> is a read that is still waiting when the
  handshake timer fires.
\<close>

definition stalled :: "replay_stream \<Rightarrow> bool" where
  "stalled r \<longleftrightarrow> buffered_remaining r = 0 \<and> rs_inner r \<noteq> [] \<and> hd (rs_inner r) = Stall"

fun is_pend :: "inner_event \<Rightarrow> bool" where
  "is_pend (Pend bs) = True"
| "is_pend _ = False"

definition pends :: "replay_stream \<Rightarrow> nat" where
  "pends r = length (filter is_pend (rs_inner r))"

lemma filter_pend_put_back [simp]: "filter is_pend (put_back bs es) = filter is_pend es"
  by (cases bs) auto

lemma inner_poll_pends:
  "inner_poll es cap = (PollPending, bs, es') \<Longrightarrow> \<not> (es \<noteq> [] \<and> hd es = Stall) \<Longrightarrow>
   length (filter is_pend es') < length (filter is_pend es)"
  by (induction es cap rule: inner_poll.induct) auto

lemma replay_poll_read_pends:
  assumes "replay_poll_read r cap = (PollPending, out, r')" "\<not> stalled r"
  shows "pends r' < pends r"
proof -
  have "buffered_remaining r = 0"
    using assms(1) by (auto simp: replay_poll_read_def buffered_remaining_def Let_def split: if_splits)
  then have ns: "\<not> (rs_inner r \<noteq> [] \<and> hd (rs_inner r) = Stall)" using assms(2) by (simp add: stalled_def)
  obtain k bs es where "inner_poll (rs_inner r) k = (PollPending, bs, es)" "rs_inner r' = es"
    using assms(1) by (auto simp: replay_poll_read_def Let_def split: if_splits prod.splits poll_status.splits)
  with inner_poll_pends [OF _ ns] show ?thesis by (auto simp: pends_def)
qed

function read_await :: "replay_stream \<Rightarrow> nat \<Rightarrow> (poll_status \<times> u8 list \<times> replay_stream) option" where
  "read_await r cap =
    (if stalled r then None
     else (case replay_poll_read r cap of
             (PollPending, out, r') \<Rightarrow> read_await r' cap
           | (PollOk, out, r') \<Rightarrow> Some (PollOk, out, r')
           | (PollErr e, out, r') \<Rightarrow> Some (PollErr e, out, r')))"
  by pat_completeness auto
termination
  by (relation "measure (\<lambda>(r, cap). pends r)") (auto dest: replay_poll_read_pends [OF sym])

declare read_await.simps [simp del]

text \<open>One pass over the detectors: the first match, or the smallest number of bytes asked for.\<close>

fun scan_detectors :: "detector list \<Rightarrow> u8 list \<Rightarrow> nat option \<Rightarrow> protocol_id option \<times> nat option" where
  "scan_detectors [] p need = (None, need)"
| "scan_detectors ((i, detect) # ds) p need =
    (case detect p of
       Match _ \<Rightarrow> (Some i, need)
     | NeedMore m \<Rightarrow>
         scan_detectors ds p
           (case need of None \<Rightarrow> Some m | Some k \<Rightarrow> if m < k then Some m else Some k)
     | NoMatch \<Rightarrow> scan_detectors ds p need)"

function dispatch_loop ::
  "detector list \<Rightarrow> nat \<Rightarrow> nat \<Rightarrow> replay_stream \<Rightarrow> dispatch_error + (protocol_id \<times> replay_stream)" where
  "dispatch_loop ds limit rd r =
    (if limit \<le> rd then Err (BufferOverflow limit)
     else (case read_await r (min (limit - rd) 4096) of
             None \<Rightarrow> Err Dispatch_Timeout
           | Some (PollErr e, _, _) \<Rightarrow>
               Err (if e = QuotaExceeded then BufferOverflow limit else Dispatch_Io)
           | Some (_, out, r') \<Rightarrow>
               if length out = 0 then Err Dispatch_NoMatch
               else (let rd' = rd + length out in
                     case scan_detectors ds (take rd' (rs_buffer r')) None of
                       (Some i, _) \<Rightarrow> Ok (i, finish_sniff r')
                     | (None, Some _) \<Rightarrow>
                         if rd' < limit then dispatch_loop ds limit rd' r'
                         else Err (BufferOverflow limit)
                     | (None, None) \<Rightarrow> Err Dispatch_NoMatch)))"
  by pat_completeness auto
termination
  by (relation "measure (\<lambda>(ds, limit, rd, r). limit - rd)") (auto simp: neq_Nil_conv)

declare dispatch_loop.simps [simp del]

definition dispatch :: "protocol_dispatcher \<Rightarrow> inner \<Rightarrow> dispatch_error + (protocol_id \<times> replay_stream)" where
  "dispatch d stream =
    dispatch_loop (detectors d) (max_sniff d) 0 (ReplayStream_with_max_buffer stream (max_sniff d))"

text \<open>The dispatcher takes any list of detectors; this is the list of the three that the protocol crates provide.\<close>

definition standard_detectors :: "detector list" where
  "standard_detectors =
    [(Id_Http, HttpDetector_detect), (Id_Socks4, Socks4Detector_detect), (Id_Socks5, Socks5Detector_detect)]"

subsection \<open>What a detector's answers mean\<close>

text \<open>
  \<open>accepts\<close> is the set of streams that begin like the protocol. A match is only given to such
  streams and is never wrong later, a rejection is final, and more bytes are only asked for while
  the answer is open and never beyond \<open>bound\<close>.
\<close>

locale protocol_detector =
  fixes detect :: "u8 list \<Rightarrow> detect_result"
    and accepts :: "u8 list \<Rightarrow> bool"
    and bound :: nat
  assumes detect_match: "detect p = Match c \<Longrightarrow> accepts (p @ q)"
    and detect_nomatch: "detect p = NoMatch \<Longrightarrow> \<not> accepts (p @ q)"
    and detect_need: "detect p = NeedMore m \<Longrightarrow> length p < m \<and> m \<le> bound \<and> \<not> accepts p"
begin

lemma accepts_iff_match: "accepts p \<longleftrightarrow> (\<exists>c. detect p = Match c)"
proof
  assume "accepts p"
  then show "\<exists>c. detect p = Match c"
    using detect_nomatch [of p "[]"] detect_need [of p] by (cases "detect p") auto
qed (use detect_match [of p _ "[]"] in auto)

lemma accepts_append: "accepts p \<Longrightarrow> accepts (p @ q)"
  using accepts_iff_match detect_match by blast

lemma need_short: "detect p = NeedMore m \<Longrightarrow> length p < bound"
  using detect_need by fastforce

end

definition http_tokens :: "u8 list list" where
  "http_tokens = as_bytes ''HTTP/'' # HTTP_METHODS"

definition http_accepts :: "u8 list \<Rightarrow> bool" where
  "http_accepts p \<longleftrightarrow> (\<exists>t \<in> set http_tokens. prefix t p)"

definition first_byte :: "u8 \<Rightarrow> u8 list \<Rightarrow> bool" where
  "first_byte b p \<longleftrightarrow> p \<noteq> [] \<and> p ! 0 = b"

lemma detect_methods_cases:
  "(\<exists>c. detect_methods ms p = Match c) \<Longrightarrow> \<exists>t \<in> set ms. prefix t p"
  "detect_methods ms p = NoMatch \<Longrightarrow> t \<in> set ms \<Longrightarrow> \<not> prefix t p \<and> \<not> prefix p t"
  "detect_methods ms p = NeedMore m \<Longrightarrow> \<exists>t \<in> set ms. m = length t \<and> strict_prefix p t"
  by (induction ms p rule: detect_methods.induct) (auto split: if_splits simp: strict_prefix_def)

text \<open>No method is a prefix of another token, so an open prefix of one method decides the others.\<close>

lemma http_tokens_prefix_free:
  "s \<in> set http_tokens \<Longrightarrow> t \<in> set http_tokens \<Longrightarrow> prefix s t \<Longrightarrow> s = t"
proof -
  have "\<forall>s \<in> set http_tokens. \<forall>t \<in> set http_tokens. prefix s t \<longrightarrow> s = t" by code_simp
  then show "s \<in> set http_tokens \<Longrightarrow> t \<in> set http_tokens \<Longrightarrow> prefix s t \<Longrightarrow> s = t" by blast
qed

lemma http_tokens_length: "t \<in> set http_tokens \<Longrightarrow> 4 \<le> length t \<and> length t \<le> 8"
  by (auto simp: http_tokens_def HTTP_METHODS_def)

lemma open_token_not_accepted:
  assumes "t \<in> set http_tokens" "strict_prefix p t"
  shows "\<not> http_accepts p"
proof
  assume "http_accepts p"
  then obtain s where s: "s \<in> set http_tokens" "prefix s p" by (auto simp: http_accepts_def)
  with assms(2) have "prefix s t" by (meson prefix_order.order_trans strict_prefixE prefix_order.less_imp_le)
  with http_tokens_prefix_free [OF s(1) assms(1)] s(2) assms(2) show False by auto
qed

lemma prefix_append_cases: "prefix t (p @ q) \<Longrightarrow> prefix t p \<or> prefix p t"
  by (metis prefix_append prefixI prefix_same_cases)

interpretation http: protocol_detector HttpDetector_detect http_accepts 8
proof
  fix p c q
  assume m: "HttpDetector_detect p = Match c"
  then have "\<exists>t \<in> set http_tokens. prefix t p"
    using detect_methods_cases(1) [of HTTP_METHODS p]
    by (auto simp: HttpDetector_detect_def http_tokens_def split: if_splits)
  then show "http_accepts (p @ q)" unfolding http_accepts_def by (meson prefix_prefix)
next
  fix p q
  assume n: "HttpDetector_detect p = NoMatch"
  then have "\<not> prefix t p \<and> \<not> prefix p t" if "t \<in> set http_tokens" for t
    using that detect_methods_cases(2) [of HTTP_METHODS p t]
    by (auto simp: HttpDetector_detect_def http_tokens_def split: if_splits)
  then show "\<not> http_accepts (p @ q)" unfolding http_accepts_def using prefix_append_cases by blast
next
  fix p m
  assume n: "HttpDetector_detect p = NeedMore m"
  show "length p < m \<and> m \<le> 8 \<and> \<not> http_accepts p"
  proof (cases "p = []")
    case True
    with n have "m = 1" by (simp add: HttpDetector_detect_def)
    moreover have "strict_prefix p (as_bytes ''HTTP/'')" using True by (simp add: as_bytes_def)
    ultimately show ?thesis
      using True open_token_not_accepted [of "as_bytes ''HTTP/''" p] by (simp add: http_tokens_def)
  next
    case False
    have "\<exists>t \<in> set http_tokens. m = length t \<and> strict_prefix p t"
    proof (cases "prefix p (as_bytes ''HTTP/'')")
      case True
      then have "p = as_bytes ''HTTP/'' \<or> strict_prefix p (as_bytes ''HTTP/'')" by (auto simp: strict_prefix_def)
      with n False True show ?thesis
        by (auto simp: HttpDetector_detect_def http_tokens_def split: if_splits)
    next
      case False
      with n \<open>p \<noteq> []\<close> have "detect_methods HTTP_METHODS p = NeedMore m \<or> False"
        by (auto simp: HttpDetector_detect_def dest: prefix_length_le split: if_splits)
      then show ?thesis using detect_methods_cases(3) [of HTTP_METHODS p m] by (auto simp: http_tokens_def)
    qed
    then show ?thesis
      using http_tokens_length open_token_not_accepted prefix_length_less by blast
  qed
qed

interpretation socks4d: protocol_detector Socks4Detector_detect "first_byte 4" 1
  by unfold_locales (auto simp: Socks4Detector_detect_def first_byte_def nth_append split: if_splits)

interpretation socks5d: protocol_detector Socks5Detector_detect "first_byte 5" 1
  by unfold_locales (auto simp: Socks5Detector_detect_def first_byte_def nth_append split: if_splits)

lemma prefix_append_long: "length t \<le> length p \<Longrightarrow> prefix t (p @ q) \<Longrightarrow> prefix t p"
  by (rule prefix_length_prefix [of t "p @ q"]) simp_all

interpretation prefixd: protocol_detector "PrefixDetector_detect (PrefixDetector_new i t)" "prefix t" "length t"
  for i t
proof
  fix p q
  assume "PrefixDetector_detect (PrefixDetector_new i t) p = NoMatch"
  then have "length t \<le> length p" "\<not> prefix t p"
    by (auto simp: PrefixDetector_detect_def PrefixDetector_new_def split: if_splits)
  then show "\<not> prefix t (p @ q)" using prefix_append_long by blast
qed (auto simp: PrefixDetector_detect_def PrefixDetector_new_def split: if_splits dest: prefix_length_le)

subsection \<open>Dispatch over a set of detectors\<close>

lemma scan_Some: "fst (scan_detectors ds p n) = Some i \<Longrightarrow> \<exists>d c. (i, d) \<in> set ds \<and> d p = Match c"
  by (induction ds p n rule: scan_detectors.induct) (auto split: detect_result.splits)

lemma scan_None: "fst (scan_detectors ds p n) = None \<Longrightarrow> (i, d) \<in> set ds \<Longrightarrow> d p \<noteq> Match c"
  by (induction ds p n rule: scan_detectors.induct) (auto split: detect_result.splits)

lemma scan_keeps: "n \<noteq> None \<Longrightarrow> snd (scan_detectors ds p n) \<noteq> None"
  by (induction ds p n rule: scan_detectors.induct) (auto split: detect_result.splits option.splits)

lemma scan_None_None:
  "scan_detectors ds p n = (None, None) \<Longrightarrow> (i, d) \<in> set ds \<Longrightarrow> d p = NoMatch"
proof (induction ds p n rule: scan_detectors.induct)
  case (2 j e ds p n)
  show ?case
  proof (cases "e p")
    case (NeedMore m)
    with "2.prems" scan_keeps [of "case n of None \<Rightarrow> Some m | Some k \<Rightarrow> if m < k then Some m else Some k" ds p]
    show ?thesis by (auto split: option.splits if_splits)
  qed (use 2 in auto)
qed simp

lemma scan_None_Some:
  "scan_detectors ds p None = (None, Some k) \<Longrightarrow> \<exists>i d m. (i, d) \<in> set ds \<and> d p = NeedMore m"
proof (induction ds)
  case (Cons x ds)
  obtain i d where x: "x = (i, d)" by (cases x)
  show ?case
  proof (cases "d p")
    case (NeedMore m)
    then show ?thesis by (auto simp: x)
  next
    case NoMatch
    with Cons show ?thesis by (auto simp: x)
  qed (use Cons.prems in \<open>simp add: x\<close>)
qed simp

text \<open>Streams on which every poll makes progress and nothing fails, in pieces of any size.\<close>

fun clean_event :: "inner_event \<Rightarrow> bool" where
  "clean_event (Chunk bs) \<longleftrightarrow> bs \<noteq> []"
| "clean_event (Pend bs) \<longleftrightarrow> True"
| "clean_event _ \<longleftrightarrow> False"

definition sniff_state :: "nat \<Rightarrow> replay_stream \<Rightarrow> bool" where
  "sniff_state limit r \<longleftrightarrow> list_all clean_event (rs_inner r) \<and> read_pos r = length (rs_buffer r) \<and>
    sniffing r \<and> max_buffer r = limit"

lemma clean_put_back: "list_all clean_event es \<Longrightarrow> list_all clean_event (put_back bs es)"
  by (cases bs) auto

lemma replay_poll_data:
  assumes "sniff_state limit r" "length (rs_buffer r) < limit"
    and "inner_poll (rs_inner r) (min (min (limit - length (rs_buffer r)) cap) SNIFF_READ_CHUNK) = (st, filled, es)"
    and "st = PollOk \<or> st = PollPending" "filled \<noteq> []"
  shows "replay_poll_read r cap = (PollOk, filled,
    r\<lparr>rs_inner := es, rs_buffer := rs_buffer r @ filled, read_pos := length (rs_buffer r @ filled)\<rparr>)"
proof -
  have "length filled \<le> cap" using inner_poll_bytes [OF assms(3)] by simp
  then have a: "absorb cap filled (r\<lparr>rs_inner := es\<rparr>) = (filled,
      r\<lparr>rs_inner := es, rs_buffer := rs_buffer r @ filled, read_pos := length (rs_buffer r @ filled)\<rparr>)"
    using assms(1) by (simp add: absorb_def sniff_state_def Let_def min_absorb1)
  show ?thesis
    using assms a by (auto simp: replay_poll_read_def sniff_state_def Let_def)
qed

lemma read_await_clean:
  assumes "sniff_state limit r" "length (rs_buffer r) < limit" "0 < cap" "cap \<le> limit - length (rs_buffer r)"
  shows "\<exists>out r'. read_await r cap = Some (PollOk, out, r') \<and> sniff_state limit r' \<and>
    rs_buffer r' = rs_buffer r @ out \<and> length out \<le> cap \<and>
    inner_bytes (rs_inner r) = out @ inner_bytes (rs_inner r') \<and>
    (out = [] \<longrightarrow> inner_bytes (rs_inner r) = [])"
  using assms
proof (induction r cap rule: read_await.induct)
  case (1 r cap)
  let ?n = "min (min (limit - length (rs_buffer r)) cap) SNIFF_READ_CHUNK"
  have n: "0 < ?n" "max_buffer r = limit"
    using "1.prems" by (auto simp: sniff_state_def SNIFF_READ_CHUNK_def)
  have st: "\<not> stalled r" using "1.prems"(1) by (cases "rs_inner r") (auto simp: stalled_def sniff_state_def)
  show ?case
  proof (cases "rs_inner r")
    case Nil
    have "replay_poll_read r cap = (PollOk, [], r)"
      using "1.prems" n Nil by (simp add: replay_poll_read_def sniff_state_def Let_def)
    with "1.prems" st Nil show ?thesis by (simp add: read_await.simps [of r])
  next
    case (Cons ev es)
    show ?thesis
    proof (cases "ev = Pend []")
      case True
      let ?r = "r\<lparr>rs_inner := es\<rparr>"
      have p: "replay_poll_read r cap = (PollPending, [], ?r)"
        using "1.prems" n by (simp add: replay_poll_read_def sniff_state_def Let_def Cons True)
      have "sniff_state limit ?r" using "1.prems"(1) by (simp add: sniff_state_def Cons)
      with "1.IH" [OF st p [symmetric] refl refl] "1.prems" obtain out r' where
        "read_await ?r cap = Some (PollOk, out, r') \<and> sniff_state limit r' \<and>
         rs_buffer r' = rs_buffer r @ out \<and> length out \<le> cap \<and>
         inner_bytes es = out @ inner_bytes (rs_inner r') \<and> (out = [] \<longrightarrow> inner_bytes es = [])" by auto
      moreover have "read_await r cap = read_await ?r cap" using st by (simp add: read_await.simps [of r] p)
      ultimately show ?thesis by (auto simp: Cons True)
    next
      case False
      then obtain bs where bs: "bs \<noteq> []" "ev = Chunk bs \<or> ev = Pend bs"
        using "1.prems"(1) Cons by (cases ev) (auto simp: sniff_state_def)
      let ?es = "put_back (drop ?n bs) es"
      let ?r = "r\<lparr>rs_inner := ?es, rs_buffer := rs_buffer r @ take ?n bs,
                 read_pos := length (rs_buffer r @ take ?n bs)\<rparr>"
      obtain s where s: "inner_poll (rs_inner r) ?n = (s, take ?n bs, ?es)" "s = PollOk \<or> s = PollPending"
        using bs(2) Cons by auto
      have t: "take ?n bs \<noteq> []" using n bs(1) by simp
      have "replay_poll_read r cap = (PollOk, take ?n bs, ?r)"
        using replay_poll_data [OF "1.prems"(1,2) s t] .
      then have "read_await r cap = Some (PollOk, take ?n bs, ?r)" using st by (simp add: read_await.simps [of r])
      moreover have "sniff_state limit ?r"
        using "1.prems"(1) by (simp add: sniff_state_def Cons clean_put_back)
      moreover have "inner_bytes (rs_inner r) = take ?n bs @ inner_bytes ?es" "length (take ?n bs) \<le> cap"
        using inner_poll_bytes [OF s(1)] by auto
      ultimately show ?thesis using t by (intro exI [of _ "take ?n bs"] exI [of _ ?r]) simp
    qed
  qed
qed


subsection \<open>What dispatch answers\<close>

text \<open>
  A set of registered detectors, each keeping the detector contract with a common bound. What the
  dispatcher answers then follows from the data alone.
\<close>

locale dispatch_set =
  fixes ds :: "detector list"
    and accepts :: "protocol_id \<Rightarrow> u8 list \<Rightarrow> bool"
    and bound :: nat
  assumes members: "(i, d) \<in> set ds \<Longrightarrow> protocol_detector d (accepts i) bound"
    and open_at_start: "(i, d) \<in> set ds \<Longrightarrow> \<not> accepts i []"
begin

lemma loop_answer:
  assumes "sniff_state limit r" "rd = length (rs_buffer r)" "rd < limit" "bound \<le> limit"
    and "\<And>i d. (i, d) \<in> set ds \<Longrightarrow> \<not> accepts i (rs_buffer r)"
    and "data = rs_buffer r @ inner_bytes (rs_inner r)"
  shows "case dispatch_loop ds limit rd r of
           Ok (i, r') \<Rightarrow> (\<exists>d. (i, d) \<in> set ds) \<and> accepts i data \<and> rs_buffer r' @ inner_bytes (rs_inner r') = data \<and>
             read_pos r' = length (rs_buffer r') \<and> \<not> sniffing r'
         | Err e \<Rightarrow> e = Dispatch_NoMatch \<and> (\<forall>(i, d) \<in> set ds. \<not> accepts i data)"
  using assms
proof (induction "limit - rd" arbitrary: rd r rule: less_induct)
  case less
  let ?cap = "min (limit - rd) 4096"
  have "0 < ?cap" "?cap \<le> limit - length (rs_buffer r)" "length (rs_buffer r) < limit" using less.prems by auto
  then obtain out r' where ra: "read_await r ?cap = Some (PollOk, out, r')" "sniff_state limit r'"
    "rs_buffer r' = rs_buffer r @ out" "length out \<le> ?cap"
    "inner_bytes (rs_inner r) = out @ inner_bytes (rs_inner r')" "out = [] \<Longrightarrow> inner_bytes (rs_inner r) = []"
    using read_await_clean [OF less.prems(1)] by blast
  have data: "data = rs_buffer r' @ inner_bytes (rs_inner r')" using less.prems(6) ra by simp
  let ?rd = "rd + length out"
  have len: "take ?rd (rs_buffer r') = rs_buffer r'" "?rd = length (rs_buffer r')" using ra(3) less.prems(2) by auto
  note unf = dispatch_loop.simps [of ds limit rd r]
  show ?case
  proof (cases "out = []")
    case True
    then have "dispatch_loop ds limit rd r = Err Dispatch_NoMatch"
      using ra(1) less.prems(3) by (simp add: unf)
    moreover have "data = rs_buffer r" using ra(6) less.prems(6) True by simp
    ultimately show ?thesis using less.prems(5) by auto
  next
    case False
    obtain f n where sc: "scan_detectors ds (rs_buffer r') None = (f, n)" by fastforce
    show ?thesis
    proof (cases f)
      case (Some i)
      then obtain d c where d: "(i, d) \<in> set ds" "d (rs_buffer r') = Match c" using scan_Some [of ds "rs_buffer r'" None i] sc by auto
      have "accepts i data" using protocol_detector.detect_match [OF members [OF d(1)] d(2)] data by simp
      moreover have "dispatch_loop ds limit rd r = Ok (i, finish_sniff r')"
        using ra(1) less.prems(3) False sc Some len by (simp add: unf)
      ultimately show ?thesis using d(1) data ra(2) by (auto simp: finish_sniff_def sniff_state_def)
    next
      case None
      show ?thesis
      proof (cases n)
        case nn: None
        have "\<not> accepts i data" if "(i, d) \<in> set ds" for i d
          using protocol_detector.detect_nomatch [OF members [OF that]] scan_None_None [of ds] sc None nn that data by auto
        moreover have "dispatch_loop ds limit rd r = Err Dispatch_NoMatch"
          using ra(1) less.prems(3) False sc None nn len by (simp add: unf)
        ultimately show ?thesis by auto
      next
        case (Some k)
        then obtain i d m where d: "(i, d) \<in> set ds" "d (rs_buffer r') = NeedMore m"
          using scan_None_Some [of ds] sc None by blast
        have lt: "?rd < limit"
          using protocol_detector.need_short [OF members [OF d(1)] d(2)] less.prems(4) len(2) by simp
        have dec: "limit - ?rd < limit - rd" using False lt less.prems(3) by (cases out) auto
        have "\<not> accepts j (rs_buffer r')" if "(j, e) \<in> set ds" for j e
          using protocol_detector.accepts_iff_match [OF members [OF that]] scan_None [of ds "rs_buffer r'" None j e] sc None that by auto
        then have "case dispatch_loop ds limit ?rd r' of
           Ok (i, r') \<Rightarrow> (\<exists>d. (i, d) \<in> set ds) \<and> accepts i data \<and> rs_buffer r' @ inner_bytes (rs_inner r') = data \<and>
             read_pos r' = length (rs_buffer r') \<and> \<not> sniffing r'
         | Err e \<Rightarrow> e = Dispatch_NoMatch \<and> (\<forall>(i, d) \<in> set ds. \<not> accepts i data)"
          using less.hyps [OF dec ra(2) len(2) lt less.prems(4) _ data] by blast
        moreover have "dispatch_loop ds limit rd r = dispatch_loop ds limit ?rd r'"
          using ra(1) less.prems(3) False sc None Some len lt by (simp add: unf)
        ultimately show ?thesis by simp
      qed
    qed
  qed
qed

lemma dispatch_answer:
  assumes "detectors disp = ds" "bound \<le> max_sniff disp" "0 < max_sniff disp" "list_all clean_event s"
  shows "case dispatch disp s of
           Ok (i, r) \<Rightarrow> (\<exists>d. (i, d) \<in> set ds) \<and> accepts i (inner_bytes s) \<and>
             rs_buffer r @ inner_bytes (rs_inner r) = inner_bytes s \<and>
             read_pos r = length (rs_buffer r) \<and> \<not> sniffing r
         | Err e \<Rightarrow> e = Dispatch_NoMatch \<and> (\<forall>(i, d) \<in> set ds. \<not> accepts i (inner_bytes s))"
  unfolding dispatch_def assms(1)
  by (rule loop_answer)
    (use assms open_at_start in \<open>auto simp: sniff_state_def ReplayStream_with_max_buffer_def\<close>)

end

definition standard_accepts :: "protocol_id \<Rightarrow> u8 list \<Rightarrow> bool" where
  "standard_accepts i =
    (if i = Id_Http then http_accepts else if i = Id_Socks4 then first_byte 4
     else if i = Id_Socks5 then first_byte 5 else (\<lambda>_. False))"

lemma detector_bound_mono:
  assumes "protocol_detector d a m" "m \<le> n"
  shows "protocol_detector d a n"
  by unfold_locales
    (use protocol_detector.detect_match [OF assms(1)] protocol_detector.detect_nomatch [OF assms(1)]
      protocol_detector.detect_need [OF assms(1)] assms(2) in fastforce)+

interpretation std: dispatch_set standard_detectors standard_accepts 8
proof (rule dispatch_set.intro)
  fix i :: protocol_id and d :: "u8 list \<Rightarrow> detect_result"
  assume "(i, d) \<in> set standard_detectors"
  then show "protocol_detector d (standard_accepts i) 8"
    using http.protocol_detector_axioms detector_bound_mono [OF socks4d.protocol_detector_axioms, of 8]
      detector_bound_mono [OF socks5d.protocol_detector_axioms, of 8]
    by (auto simp: standard_detectors_def standard_accepts_def)
next
  fix i :: protocol_id and d :: "u8 list \<Rightarrow> detect_result"
  assume "(i, d) \<in> set standard_detectors"
  show "\<not> standard_accepts i []"
    by (auto simp: standard_accepts_def http_accepts_def first_byte_def http_tokens_def HTTP_METHODS_def
        as_bytes_def)
qed


text \<open>What a connection is, by its bytes.\<close>

definition classify_stream :: "u8 list \<Rightarrow> dispatch_error + protocol_id" where
  "classify_stream data =
    (if list_ex (\<lambda>t. prefix t data) http_tokens then Ok Id_Http
     else if data \<noteq> [] \<and> hd data = 4 then Ok Id_Socks4
     else if data \<noteq> [] \<and> hd data = 5 then Ok Id_Socks5
     else Err Dispatch_NoMatch)"

lemma http_first_byte: "http_accepts p \<Longrightarrow> \<not> first_byte 4 p \<and> \<not> first_byte 5 p"
  by (auto simp: http_accepts_def http_tokens_def HTTP_METHODS_def first_byte_def as_bytes_def prefix_def
      byte_of_char_def)

lemma classify_stream_accepts:
  "classify_stream data =
    (if standard_accepts Id_Http data then Ok Id_Http
     else if standard_accepts Id_Socks4 data then Ok Id_Socks4
     else if standard_accepts Id_Socks5 data then Ok Id_Socks5
     else Err Dispatch_NoMatch)"
  by (auto simp: classify_stream_def standard_accepts_def http_accepts_def first_byte_def hd_conv_nth list_ex_iff)

text \<open>
  C32: protocol dispatch depends on the bytes alone. With the three detectors and a sniff limit of
  at least eight bytes, for every segmentation of the client's data into reads and pending polls,
  the dispatcher's answer is the class of the whole byte stream (an HTTP token, the SOCKS version
  byte, or no match; never an overflow or a wrong protocol), and the stream it hands on holds,
  in the sniff buffer and behind it, exactly the client's bytes.
\<close>

theorem dispatch_segmentation_independent:
  assumes "detectors d = standard_detectors" "8 \<le> max_sniff d" "list_all clean_event s"
  shows "map_sum id fst (dispatch d s) = classify_stream (inner_bytes s) \<and>
    (case dispatch d s of
       Err _ \<Rightarrow> True
     | Ok (_, r) \<Rightarrow> rs_buffer r @ into_inner_bytes r = inner_bytes s)"
proof -
  have "0 < max_sniff d" using assms(2) by simp
  note ans = std.dispatch_answer [OF assms(1,2) this assms(3)]
  show ?thesis
  proof (cases "dispatch d s")
    case (Inl e)
    with ans show ?thesis by (simp add: classify_stream_accepts standard_detectors_def)
  next
    case (Inr a)
    obtain i r where a: "a = (i, r)" by (cases a)
    have i: "i \<in> {Id_Http, Id_Socks4, Id_Socks5}" "standard_accepts i (inner_bytes s)"
      "rs_buffer r @ inner_bytes (rs_inner r) = inner_bytes s" "read_pos r = length (rs_buffer r)"
      using ans Inr a by (auto simp: standard_detectors_def)
    have "classify_stream (inner_bytes s) = Ok i"
      using i(1,2) http_first_byte [of "inner_bytes s"]
      by (auto simp: classify_stream_accepts standard_accepts_def first_byte_def)
    moreover have "into_inner_bytes r = inner_bytes (rs_inner r)"
      using i(4) by (simp add: into_inner_bytes_def buffered_remaining_def finish_sniff_def)
    ultimately show ?thesis using i(3) by (simp add: Inr a)
  qed
qed

theorem dispatch_segmentation_independent_witness:
  "map_sum id fst (dispatch (ProtocolDispatcher_with_defaults standard_detectors 5)
     [Pend [], Chunk (as_bytes ''CON''), Pend (as_bytes ''NEC''), Chunk (as_bytes ''T x'')]) = Ok Id_Http"
  using dispatch_segmentation_independent
    [of "ProtocolDispatcher_with_defaults standard_detectors 5"
        "[Pend [], Chunk (as_bytes ''CON''), Pend (as_bytes ''NEC''), Chunk (as_bytes ''T x'')]"]
  by (simp add: ProtocolDispatcher_with_defaults_def DEFAULT_MAX_SNIFF_def classify_stream_def http_tokens_def
      HTTP_METHODS_def as_bytes_def)

end
