(* ===== verification/Ss_Stream.thy ===== *)
theory Ss_Stream
  imports Shadowsocks Detect Byte_Io
begin

text \<open>
  Shadowsocks over TCP (\<^verbatim>\<open>eggress-protocol-shadowsocks\<close>): the two handshakes of \<^verbatim>\<open>tcp.rs\<close> and the
  encrypting stream adapter of \<^verbatim>\<open>tcp_stream.rs\<close>, a state machine driven by polls. What the inner
  stream answers to polls is explicit: the read side is the event sequence of the detector's
  replay stream, the write side a sequence of answers to \<^verbatim>\<open>poll_write\<close>. Salts drawn from the
  random source are arguments; metrics counters are left out. Results: what one end writes is what
  the other end reads, for every segmentation and every schedule of partial writes and pending
  polls, and the server accepts the target a client asked for, once.
\<close>

subsection \<open>State\<close>

datatype read_state = PeerSalt | LengthBlock | Payload nat | Closed

record ss_stream =
  ss_method :: cipher_method
  ss_write_subkey :: "u8 list"
  ss_write_cipher :: "aead_cipher option"
  ss_read_subkey :: "u8 list option"
  ss_read_cipher :: "aead_cipher option"
  ss_password_ikm :: "u8 list option"
  ss_send_write_salt :: bool
  ss_write_nonce :: nonce_counter
  ss_read_nonce :: nonce_counter
  ss_read_plain :: "u8 list"
  ss_read_buf :: "u8 list"
  ss_read_state :: read_state
  ss_write_buf :: "u8 list"

definition ss_new_with_nonces :: "cipher_method \<Rightarrow> u8 list \<Rightarrow> u64 \<Rightarrow> u64 \<Rightarrow> shadowsocks_error + ss_stream" where
  "ss_new_with_nonces m subkey write_start read_start =
    try_bind (AeadCipher_new m subkey) (\<lambda>write_cipher.
    try_bind (AeadCipher_new m subkey) (\<lambda>read_cipher.
      Ok \<lparr>ss_method = m, ss_write_subkey = subkey, ss_write_cipher = Some write_cipher,
         ss_read_subkey = Some subkey, ss_read_cipher = Some read_cipher, ss_password_ikm = None,
         ss_send_write_salt = False,
         ss_write_nonce = NonceCounter_starting_at (nonce_size m) write_start,
         ss_read_nonce = NonceCounter_starting_at (nonce_size m) read_start,
         ss_read_plain = [], ss_read_buf = [], ss_read_state = LengthBlock, ss_write_buf = []\<rparr>))"

definition ss_new :: "cipher_method \<Rightarrow> u8 list \<Rightarrow> shadowsocks_error + ss_stream" where
  "ss_new m subkey =
    try_bind (AeadCipher_new m subkey) (\<lambda>write_cipher.
    try_bind (AeadCipher_new m subkey) (\<lambda>read_cipher.
      Ok \<lparr>ss_method = m, ss_write_subkey = subkey, ss_write_cipher = Some write_cipher,
         ss_read_subkey = Some subkey, ss_read_cipher = Some read_cipher, ss_password_ikm = None,
         ss_send_write_salt = False,
         ss_write_nonce = NonceCounter_starting_at (nonce_size m) 0,
         ss_read_nonce = NonceCounter_starting_at (nonce_size m) 0,
         ss_read_plain = [], ss_read_buf = [], ss_read_state = LengthBlock, ss_write_buf = []\<rparr>))"

definition ss_new_client :: "crypto \<Rightarrow> cipher_method \<Rightarrow> u8 list \<Rightarrow> u8 list \<Rightarrow> shadowsocks_error + ss_stream" where
  "ss_new_client cr m write_subkey password =
    try_bind (AeadCipher_new m write_subkey) (\<lambda>write_cipher.
      Ok \<lparr>ss_method = m, ss_write_subkey = write_subkey, ss_write_cipher = Some write_cipher,
         ss_read_subkey = None, ss_read_cipher = None,
         ss_password_ikm = Some (password_key_material cr password), ss_send_write_salt = False,
         ss_write_nonce = NonceCounter_starting_at (nonce_size m) 2,
         ss_read_nonce = NonceCounter_starting_at (nonce_size m) 0,
         ss_read_plain = [], ss_read_buf = [], ss_read_state = PeerSalt, ss_write_buf = []\<rparr>)"

definition ss_new_server ::
  "crypto \<Rightarrow> cipher_method \<Rightarrow> u8 list \<Rightarrow> bool \<Rightarrow> u8 list \<Rightarrow> shadowsocks_error + ss_stream" where
  "ss_new_server cr m read_subkey send_write_salt password =
    (if \<not> send_write_salt then Err (Ss_Other ''server streams must send a write salt'')
     else try_bind (AeadCipher_new m read_subkey) (\<lambda>read_cipher.
      Ok \<lparr>ss_method = m, ss_write_subkey = [], ss_write_cipher = None,
         ss_read_subkey = Some read_subkey, ss_read_cipher = Some read_cipher,
         ss_password_ikm = Some (password_key_material cr password), ss_send_write_salt = send_write_salt,
         ss_write_nonce = NonceCounter_starting_at (nonce_size m) 0,
         ss_read_nonce = NonceCounter_starting_at (nonce_size m) 2,
         ss_read_plain = [], ss_read_buf = [], ss_read_state = LengthBlock, ss_write_buf = []\<rparr>))"

definition prepend_read_plaintext :: "u8 list \<Rightarrow> ss_stream \<Rightarrow> ss_stream" where
  "prepend_read_plaintext plaintext s =
    (if plaintext \<noteq> [] then s\<lparr>ss_read_plain := ss_read_plain s @ plaintext\<rparr> else s)"

text \<open>The kinds of \<^verbatim>\<open>io::Error\<close> the adapter makes, and errors of the inner stream.\<close>

datatype ss_io_error = Io_Other | Io_InvalidData | Io_WriteZero | Io_Eof | Io_Inner

datatype 'a poll = Ready 'a | Ready_Err ss_io_error | Pending

subsection \<open>Reading\<close>

datatype read_outcome = Read_Done | Read_Eof | Read_Err | Read_Pending

lemma read_until_progress:
  "(PollOk, bs, es') = inner_poll es (target - length buf) \<Longrightarrow> bs \<noteq> [] \<Longrightarrow>
   target - length (buf @ bs) < target - length buf"
  using inner_poll_bytes [of es "target - length buf" PollOk bs es'] by (cases bs) auto

text \<open>Bytes a pending poll may have filled are dropped (\<^verbatim>\<open>buf.truncate(start)\<close>).\<close>

function read_until :: "inner \<Rightarrow> u8 list \<Rightarrow> nat \<Rightarrow> read_outcome \<times> u8 list \<times> inner" where
  "read_until es buf target =
    (if length buf < target then
       (case inner_poll es (target - length buf) of
          (PollOk, bs, es') \<Rightarrow> if bs = [] then (Read_Eof, buf, es') else read_until es' (buf @ bs) target
        | (PollErr e, bs, es') \<Rightarrow> (Read_Err, buf, es')
        | (PollPending, bs, es') \<Rightarrow> (Read_Pending, buf, es'))
     else (Read_Done, buf, es))"
  by pat_completeness auto
termination
  by (relation "measure (\<lambda>(es, buf, target). target - length buf)") (auto dest: read_until_progress)

declare read_until.simps [simp del]

text \<open>One sealed block with the current nonce, which is then advanced.\<close>

definition open_block :: "crypto \<Rightarrow> aead_cipher \<Rightarrow> nonce_counter \<Rightarrow> u8 list \<Rightarrow> ss_io_error + (u8 list \<times> nonce_counter)" where
  "open_block cr cipher nc block =
    (case NonceCounter_current nc 12 of
       Inl _ \<Rightarrow> Err Io_Other
     | Inr nonce \<Rightarrow>
         (case AeadCipher_decrypt cr cipher nonce block of
            Inl _ \<Rightarrow> Err Io_InvalidData
          | Inr plaintext \<Rightarrow>
              (case NonceCounter_advance nc of Inl _ \<Rightarrow> Err Io_Other | Inr nc' \<Rightarrow> Ok (plaintext, nc'))))"

text \<open>
  The iterations of the loop in \<^verbatim>\<open>poll_read\<close>, by read state: from the salt on to the length block,
  from there on to the payload, which returns. A result is the answer, the bytes put into the caller's
  buffer of \<open>cap\<close> free bytes, the state and the rest of the inner stream.
\<close>

definition poll_payload ::
  "crypto \<Rightarrow> nat \<Rightarrow> nat \<Rightarrow> ss_stream \<Rightarrow> inner \<Rightarrow> unit poll \<times> u8 list \<times> ss_stream \<times> inner" where
  "poll_payload cr cap len s es =
    (case read_until es (ss_read_buf s) (len + tag_size (ss_method s)) of
       (Read_Pending, buf, es') \<Rightarrow> (Pending, [], s\<lparr>ss_read_buf := buf\<rparr>, es')
     | (Read_Done, buf, es') \<Rightarrow>
         (case ss_read_cipher s of
            None \<Rightarrow> (Ready_Err Io_Other, [], s\<lparr>ss_read_buf := buf\<rparr>, es')
          | Some cipher \<Rightarrow>
              (case open_block cr cipher (ss_read_nonce s) buf of
                 Inl e \<Rightarrow> (Ready_Err e, [], s\<lparr>ss_read_buf := buf\<rparr>, es')
               | Inr (plaintext, nc) \<Rightarrow>
                   (let s1 = s\<lparr>ss_read_nonce := nc, ss_read_buf := [], ss_read_state := LengthBlock\<rparr> in
                    if length plaintext \<le> cap then (Ready (), plaintext, s1, es')
                    else (let plain = ss_read_plain s1 @ plaintext; n = min (length plain) cap in
                          (Ready (), take n plain, s1\<lparr>ss_read_plain := drop n plain\<rparr>, es')))))
     | (_, buf, es') \<Rightarrow>
         (Ready_Err Io_Eof, [], s\<lparr>ss_read_buf := [], ss_read_state := LengthBlock\<rparr>, es'))"

definition poll_length ::
  "crypto \<Rightarrow> nat \<Rightarrow> ss_stream \<Rightarrow> inner \<Rightarrow> unit poll \<times> u8 list \<times> ss_stream \<times> inner" where
  "poll_length cr cap s es =
    (let len_block_size = 2 + tag_size (ss_method s) in
     case read_until es (ss_read_buf s) len_block_size of
       (Read_Pending, buf, es') \<Rightarrow> (Pending, [], s\<lparr>ss_read_buf := buf\<rparr>, es')
     | (Read_Eof, buf, es') \<Rightarrow> (Ready (), [], s\<lparr>ss_read_buf := []\<rparr>, es')
     | (Read_Err, buf, es') \<Rightarrow> (Ready_Err Io_Inner, [], s\<lparr>ss_read_buf := []\<rparr>, es')
     | (Read_Done, buf, es') \<Rightarrow>
         (case ss_read_cipher s of
            None \<Rightarrow> (Ready_Err Io_Other, [], s\<lparr>ss_read_buf := buf\<rparr>, es')
          | Some cipher \<Rightarrow>
              (case open_block cr cipher (ss_read_nonce s) (take len_block_size buf) of
                 Inl e \<Rightarrow> (Ready_Err e, [], s\<lparr>ss_read_buf := buf\<rparr>, es')
               | Inr (len_plaintext, nc) \<Rightarrow>
                   (let s1 = s\<lparr>ss_read_nonce := nc, ss_read_buf := []\<rparr> in
                    if length len_plaintext \<noteq> 2 then (Ready_Err Io_InvalidData, [], s1, es')
                    else (let payload_len = unat (from_be_bytes (len_plaintext ! 0) (len_plaintext ! 1)) in
                          if MAX_CHUNK_PAYLOAD < payload_len then (Ready_Err Io_InvalidData, [], s1, es')
                          else if payload_len = 0 then (Ready (), [], s1\<lparr>ss_read_state := Closed\<rparr>, es')
                          else poll_payload cr cap payload_len
                                 (s1\<lparr>ss_read_state := Payload payload_len\<rparr>) es')))))"

definition poll_salt ::
  "crypto \<Rightarrow> nat \<Rightarrow> ss_stream \<Rightarrow> inner \<Rightarrow> unit poll \<times> u8 list \<times> ss_stream \<times> inner" where
  "poll_salt cr cap s es =
    (case read_until es (ss_read_buf s) (salt_size (ss_method s)) of
       (Read_Pending, buf, es') \<Rightarrow> (Pending, [], s\<lparr>ss_read_buf := buf\<rparr>, es')
     | (Read_Eof, buf, es') \<Rightarrow> (Ready (), [], s\<lparr>ss_read_buf := []\<rparr>, es')
     | (Read_Err, buf, es') \<Rightarrow> (Ready_Err Io_Inner, [], s\<lparr>ss_read_buf := []\<rparr>, es')
     | (Read_Done, buf, es') \<Rightarrow>
         (let salt = take (salt_size (ss_method s)) buf;
              s1 = s\<lparr>ss_read_buf := drop (salt_size (ss_method s)) buf\<rparr> in
          case ss_password_ikm s of
            None \<Rightarrow> (Ready_Err Io_Other, [], s1, es')
          | Some ikm \<Rightarrow>
              (case try_bind (derive_key_from_ikm cr (ss_method s) ikm salt)
                      (\<lambda>key. try_bind (AeadCipher_new (ss_method s) key) (\<lambda>cipher. Ok (key, cipher))) of
                 Inl _ \<Rightarrow> (Ready_Err Io_InvalidData, [], s1, es')
               | Inr (key, cipher) \<Rightarrow>
                   poll_length cr cap
                     (s1\<lparr>ss_read_subkey := Some key, ss_read_cipher := Some cipher, ss_read_buf := [],
                         ss_read_state := LengthBlock\<rparr>) es')))"

definition ss_poll_read ::
  "crypto \<Rightarrow> nat \<Rightarrow> ss_stream \<Rightarrow> inner \<Rightarrow> unit poll \<times> u8 list \<times> ss_stream \<times> inner" where
  "ss_poll_read cr cap s es =
    (if ss_read_plain s \<noteq> [] then
       (let n = min (length (ss_read_plain s)) cap in
        (Ready (), take n (ss_read_plain s), s\<lparr>ss_read_plain := drop n (ss_read_plain s)\<rparr>, es))
     else (case ss_read_state s of
             Closed \<Rightarrow> (Ready (), [], s, es)
           | PeerSalt \<Rightarrow> poll_salt cr cap s es
           | LengthBlock \<Rightarrow> poll_length cr cap s es
           | Payload len \<Rightarrow> poll_payload cr cap len s es))"

subsection \<open>Writing\<close>

text \<open>
  The inner stream's answers to \<^verbatim>\<open>poll_write\<close>: up to \<open>n\<close> bytes taken, pending, or a failure; when the
  sequence is over it stays pending. A sink also records the bytes taken.
\<close>

datatype write_event = Take nat | W_Pend | W_Fail

record sink =
  sink_events :: "write_event list"
  sink_out :: "u8 list"

datatype drain = Drained | Drain_Pending | Drain_Err ss_io_error

text \<open>The loop \<^verbatim>\<open>while !write_buf.is_empty()\<close>, which occurs four times.\<close>

fun drain_loop :: "write_event list \<Rightarrow> u8 list \<Rightarrow> u8 list \<Rightarrow> drain \<times> u8 list \<times> sink" where
  "drain_loop es out [] = (Drained, [], \<lparr>sink_events = es, sink_out = out\<rparr>)"
| "drain_loop [] out (b # bs) = (Drain_Pending, b # bs, \<lparr>sink_events = [], sink_out = out\<rparr>)"
| "drain_loop (Take n # es) out (b # bs) =
    (if n = 0 then (Drain_Err Io_WriteZero, b # bs, \<lparr>sink_events = es, sink_out = out\<rparr>)
     else drain_loop es (out @ take n (b # bs)) (drop n (b # bs)))"
| "drain_loop (W_Pend # es) out (b # bs) = (Drain_Pending, b # bs, \<lparr>sink_events = es, sink_out = out\<rparr>)"
| "drain_loop (W_Fail # es) out (b # bs) = (Drain_Err Io_Inner, b # bs, \<lparr>sink_events = es, sink_out = out\<rparr>)"

definition drain_write_buf :: "ss_stream \<Rightarrow> sink \<Rightarrow> drain \<times> ss_stream \<times> sink" where
  "drain_write_buf s k =
    (case drain_loop (sink_events k) (sink_out k) (ss_write_buf s) of
       (d, buf, k') \<Rightarrow> (d, s\<lparr>ss_write_buf := buf\<rparr>, k'))"

definition seal_block :: "crypto \<Rightarrow> aead_cipher \<Rightarrow> nonce_counter \<Rightarrow> u8 list \<Rightarrow> ss_io_error + (u8 list \<times> nonce_counter)" where
  "seal_block cr cipher nc plaintext =
    (case NonceCounter_current nc 12 of
       Inl _ \<Rightarrow> Err Io_Other
     | Inr nonce \<Rightarrow>
         (case AeadCipher_encrypt cr cipher nonce plaintext of
            Inl _ \<Rightarrow> Err Io_InvalidData
          | Inr ct \<Rightarrow>
              (case NonceCounter_advance nc of Inl _ \<Rightarrow> Err Io_Other | Inr nc' \<Rightarrow> Ok (ct, nc'))))"

text \<open>The salt a server sends in front of its first chunk; \<open>rnd\<close> is the random buffer.\<close>

definition prepare_salt :: "crypto \<Rightarrow> u8 list \<Rightarrow> ss_stream \<Rightarrow> (ss_io_error + unit) \<times> ss_stream" where
  "prepare_salt cr rnd s =
    (if ss_send_write_salt s then
       (let salt = take (salt_size (ss_method s)) rnd in
        case ss_password_ikm s of
          None \<Rightarrow> (Err Io_Other, s)
        | Some ikm \<Rightarrow>
            (case try_bind (derive_key_from_ikm cr (ss_method s) ikm salt)
                    (\<lambda>key. try_bind (AeadCipher_new (ss_method s) key) (\<lambda>cipher. Ok (key, cipher))) of
               Inl _ \<Rightarrow> (Err Io_InvalidData, s)
             | Inr (key, cipher) \<Rightarrow>
                 (Ok (), s\<lparr>ss_write_subkey := key, ss_write_cipher := Some cipher,
                           ss_write_buf := ss_write_buf s @ salt, ss_send_write_salt := False\<rparr>)))
     else (Ok (), s))"

text \<open>Sealing at most one chunk of \<open>buf\<close> and the best-effort flush.\<close>

definition write_chunk :: "crypto \<Rightarrow> u8 list \<Rightarrow> ss_stream \<Rightarrow> sink \<Rightarrow> nat poll \<times> ss_stream \<times> sink" where
  "write_chunk cr buf s k =
    (let chunk_size = min (length buf) MAX_CHUNK_PAYLOAD in
     if chunk_size = 0 then (Ready 0, s, k)
     else (case ss_write_cipher s of
             None \<Rightarrow> (Ready_Err Io_Other, s, k)
           | Some cipher \<Rightarrow>
               (case seal_block cr cipher (ss_write_nonce s) (to_be_bytes (word_of_nat chunk_size)) of
                  Inl e \<Rightarrow> (Ready_Err e, s, k)
                | Inr (len_ct, nc1) \<Rightarrow>
                    (case seal_block cr cipher nc1 (take chunk_size buf) of
                       Inl e \<Rightarrow> (Ready_Err e, s\<lparr>ss_write_nonce := nc1\<rparr>, k)
                     | Inr (payload_ct, nc2) \<Rightarrow>
                         (case drain_write_buf
                                 (s\<lparr>ss_write_nonce := nc2,
                                    ss_write_buf := ss_write_buf s @ len_ct @ payload_ct\<rparr>) k of
                            (Drain_Err e, s', k') \<Rightarrow> (Ready_Err e, s', k')
                          | (_, s', k') \<Rightarrow> (Ready chunk_size, s', k'))))))"

definition ss_poll_write ::
  "crypto \<Rightarrow> u8 list \<Rightarrow> u8 list \<Rightarrow> ss_stream \<Rightarrow> sink \<Rightarrow> nat poll \<times> ss_stream \<times> sink" where
  "ss_poll_write cr rnd buf s k =
    (case prepare_salt cr rnd s of
       (Inl e, s1) \<Rightarrow> (Ready_Err e, s1, k)
     | (Inr _, s1) \<Rightarrow>
         (case drain_write_buf s1 k of
            (Drain_Err e, s2, k2) \<Rightarrow> (Ready_Err e, s2, k2)
          | (Drain_Pending, s2, k2) \<Rightarrow> (Pending, s2, k2)
          | (Drained, s2, k2) \<Rightarrow> write_chunk cr buf s2 k2))"

text \<open>\<open>inner\<close> is the inner stream's answer to \<^verbatim>\<open>poll_flush\<close> or \<^verbatim>\<open>poll_shutdown\<close>.\<close>

definition ss_poll_flush :: "unit poll \<Rightarrow> ss_stream \<Rightarrow> sink \<Rightarrow> unit poll \<times> ss_stream \<times> sink" where
  "ss_poll_flush inner s k =
    (case drain_write_buf s k of
       (Drain_Err e, s', k') \<Rightarrow> (Ready_Err e, s', k')
     | (Drain_Pending, s', k') \<Rightarrow> (Pending, s', k')
     | (Drained, s', k') \<Rightarrow> (inner, s', k'))"

definition ss_poll_shutdown :: "unit poll \<Rightarrow> ss_stream \<Rightarrow> sink \<Rightarrow> unit poll \<times> ss_stream \<times> sink" where
  "ss_poll_shutdown inner s k =
    (case drain_write_buf s k of
       (Drain_Err e, s', k') \<Rightarrow> (Ready_Err e, s', k')
     | (Drain_Pending, s', k') \<Rightarrow> (Pending, s', k')
     | (Drained, s', k') \<Rightarrow> (inner, s', k'))"

subsection \<open>Handshakes\<close>

definition ss_io :: "io_error \<Rightarrow> shadowsocks_error" where "ss_io e = Ss_Io"

definition shadowsocks_connect ::
  "crypto \<Rightarrow> u8 list \<Rightarrow> target_addr \<Rightarrow> cipher_method \<Rightarrow> string \<Rightarrow> (shadowsocks_error, ss_stream) io" where
  "shadowsocks_connect cr rnd target m password =
    (let salt = take (salt_size m) rnd in
     io_bind (io_of_result (derive_key cr m (as_bytes password) salt)) (\<lambda>subkey.
     io_bind (io_of_result (encode_address target)) (\<lambda>address.
     io_bind (io_of_result (encrypt_chunk_standard cr m subkey (replicate (nonce_size m) 0) address)) (\<lambda>addr_wire.
     io_bind (write_all ss_io (salt @ addr_wire)) (\<lambda>_.
     io_bind flush (\<lambda>_.
       io_of_result (ss_new_client cr m subkey (as_bytes password))))))))"

fun ShadowsocksError_fmt :: "shadowsocks_error \<Rightarrow> string" where
  "ShadowsocksError_fmt Ss_Io = ''IO error''"
| "ShadowsocksError_fmt (UnsupportedMethod s) = ''unsupported method: '' @ s"
| "ShadowsocksError_fmt (LegacyMethodUnsupported s) =
    ''legacy stream cipher '' @ [CHR 0x27] @ s @ [CHR 0x27] @ '' is not supported; use an AEAD method (aes-128-gcm, aes-256-gcm, chacha20-ietf-poly1305)''"
| "ShadowsocksError_fmt SsrUnsupported = ''ShadowsocksR (SSR) compatibility is unavailable in this build''"
| "ShadowsocksError_fmt (DecryptionFailed s) = ''decryption failed: '' @ s"
| "ShadowsocksError_fmt (EncryptionFailed s) = ''encryption failed: '' @ s"
| "ShadowsocksError_fmt (InvalidAddress s) = ''invalid address: '' @ s"
| "ShadowsocksError_fmt FrameTooLarge = ''frame too large''"
| "ShadowsocksError_fmt InvalidKeyLength = ''invalid key length''"
| "ShadowsocksError_fmt InvalidOtaHmac = ''invalid legacy Shadowsocks OTA HMAC''"
| "ShadowsocksError_fmt PasswordTooLong = ''password too long''"
| "ShadowsocksError_fmt (Ss_Other s) = s"

definition decrypt_header ::
  "crypto \<Rightarrow> cipher_method \<Rightarrow> u8 list \<Rightarrow> u8 list \<Rightarrow> u8 list \<Rightarrow> (shadowsocks_error, u8 list) io" where
  "decrypt_header cr m subkey nonce block =
    (case aead_decrypt_raw cr m subkey nonce block of
       Inl e \<Rightarrow> io_fail (DecryptionFailed (ShadowsocksError_fmt e))
     | Inr plaintext \<Rightarrow> io_return plaintext)"

text \<open>The part of the accepting side behind the salt and its replay check.\<close>

definition accept_header ::
  "crypto \<Rightarrow> cipher_method \<Rightarrow> string \<Rightarrow> u8 list \<Rightarrow> (shadowsocks_error, ss_stream \<times> target_addr) io" where
  "accept_header cr m password salt =
    io_bind (io_of_result (derive_key cr m (as_bytes password) salt)) (\<lambda>subkey.
    io_bind (read_exact ss_io (2 + tag_size m)) (\<lambda>len_block.
    io_bind (decrypt_header cr m subkey (replicate (nonce_size m) 0) len_block) (\<lambda>len_plaintext.
      if length len_plaintext \<noteq> 2 then io_fail (DecryptionFailed ''invalid length block plaintext'')
      else (let addr_len = unat (from_be_bytes (len_plaintext ! 0) (len_plaintext ! 1)) in
            if MAX_CHUNK_PAYLOAD < addr_len
            then io_fail (DecryptionFailed (''address length '' @ show_nat addr_len @ '' exceeds maximum '' @
                   show_nat MAX_CHUNK_PAYLOAD))
            else io_bind (read_exact ss_io (addr_len + tag_size m)) (\<lambda>addr_block.
                 io_bind (decrypt_header cr m subkey ((replicate (nonce_size m) 0)[0 := 1]) addr_block) (\<lambda>address_plaintext.
                 io_bind (io_of_result (decode_address address_plaintext)) (\<lambda>(target_addr, consumed).
                 io_bind (io_of_result (ss_new_server cr m subkey True (as_bytes password))) (\<lambda>s.
                   io_return (prepend_read_plaintext (drop consumed address_plaintext) s, target_addr)))))))))"

definition shadowsocks_accept ::
  "crypto \<Rightarrow> string \<Rightarrow> cipher_method \<Rightarrow> salt_window \<Rightarrow> conn
   \<Rightarrow> ((shadowsocks_error + ss_stream \<times> target_addr) \<times> salt_window) \<times> conn" where
  "shadowsocks_accept cr password m w c =
    (case read_exact ss_io (salt_size m) c of
       (Inl e, c1) \<Rightarrow> ((Err e, w), c1)
     | (Inr salt, c1) \<Rightarrow>
         (case check_tcp_salt_replay salt w of
            (True, w1) \<Rightarrow> ((Err (DecryptionFailed ''replayed salt''), w1), c1)
          | (False, w1) \<Rightarrow>
              (case accept_header cr m password salt c1 of (r, c2) \<Rightarrow> ((r, w1), c2))))"

subsection \<open>Blocks and frames\<close>

definition wf_cipher :: "aead_cipher \<Rightarrow> bool" where
  "wf_cipher ci \<longleftrightarrow> length (snd ci) = key_size (fst ci)"

lemma AeadCipher_new_wf: "AeadCipher_new m key = Ok ci \<Longrightarrow> wf_cipher ci"
  by (simp add: AeadCipher_new_Ok wf_cipher_def)

lemma seal_block_opens:
  assumes "crypto_ok cr" "wf_cipher ci" "nc_size nc = 12" "length p \<le> 65536"
    "seal_block cr ci nc p = Ok (ct, nc')"
  shows "open_block cr ci nc ct = Ok (p, nc')" "length ct = length p + 16" "nc_size nc' = 12"
proof -
  from assms(3,5) have e: "AeadCipher_encrypt cr ci (nonce_of (nc_counter nc)) p = Ok ct"
    and a: "NonceCounter_advance nc = Ok nc'"
    by (auto simp: seal_block_def split: sum.splits)
  from AeadCipher_encrypt_Ok [OF assms(1) _ _ assms(4) e] assms(2,3) a
  show "open_block cr ci nc ct = Ok (p, nc')" "length ct = length p + 16"
    by (simp_all add: open_block_def wf_cipher_def)
  show "nc_size nc' = 12" using a assms(3) by (auto simp: NonceCounter_advance_def split: if_splits)
qed

text \<open>The wire form of a sequence of chunks, and the nonce behind it.\<close>

definition frame :: "crypto \<Rightarrow> aead_cipher \<Rightarrow> nonce_counter \<Rightarrow> u8 list \<Rightarrow> ss_io_error + (u8 list \<times> nonce_counter)" where
  "frame cr ci nc c =
    try_bind (seal_block cr ci nc (to_be_bytes (word_of_nat (length c)))) (\<lambda>(len_ct, nc1).
    try_bind (seal_block cr ci nc1 c) (\<lambda>(ct, nc2). Ok (len_ct @ ct, nc2)))"

fun frames ::
  "crypto \<Rightarrow> aead_cipher \<Rightarrow> nonce_counter \<Rightarrow> u8 list list \<Rightarrow> ss_io_error + (u8 list \<times> nonce_counter)" where
  "frames cr ci nc [] = Ok ([], nc)"
| "frames cr ci nc (c # cs) =
    try_bind (frame cr ci nc c) (\<lambda>(w, nc1).
    try_bind (frames cr ci nc1 cs) (\<lambda>(ws, nc2). Ok (w @ ws, nc2)))"

lemma frames_snoc:
  "frames cr ci nc (cs @ [c]) =
    try_bind (frames cr ci nc cs) (\<lambda>(ws, nc1). try_bind (frame cr ci nc1 c) (\<lambda>(w, nc2). Ok (ws @ w, nc2)))"
  by (induction cs arbitrary: nc) (auto simp: try_bind_def split: sum.splits)

definition chunk_ok :: "u8 list \<Rightarrow> bool" where
  "chunk_ok c \<longleftrightarrow> c \<noteq> [] \<and> length c \<le> MAX_CHUNK_PAYLOAD"

subsection \<open>The reader\<close>

text \<open>Inner streams that only deliver data or make the reader wait, in pieces of any size.\<close>

fun quiet :: "inner_event \<Rightarrow> bool" where
  "quiet (Chunk bs) \<longleftrightarrow> bs \<noteq> []"
| "quiet (Pend bs) \<longleftrightarrow> bs = []"
| "quiet _ \<longleftrightarrow> False"

definition waits :: "inner \<Rightarrow> nat" where
  "waits es = length (filter is_pend es)"

lemma quiet_put_back: "list_all quiet es \<Longrightarrow> list_all quiet (put_back bs es)"
  by (cases bs) auto

lemma inner_poll_quiet:
  assumes "list_all quiet es" "0 < n" "inner_poll es n = (st, bs, es')"
  shows "list_all quiet es' \<and> inner_bytes es = bs @ inner_bytes es' \<and> length bs \<le> n \<and>
    (st = PollOk \<and> waits es' = waits es \<and> (bs = [] \<longrightarrow> es' = []) \<or> st = PollPending \<and> bs = [] \<and> waits es' < waits es)"
proof (cases es)
  case (Cons e rest)
  with assms show ?thesis by (cases e) (auto simp: quiet_put_back waits_def)
qed (use assms in auto)

lemma read_until_quiet:
  assumes "list_all quiet es" "length buf \<le> target" "read_until es buf target = (r, buf', es')"
  shows "list_all quiet es' \<and> buf' @ inner_bytes es' = buf @ inner_bytes es \<and> length buf' \<le> target \<and>
    waits es' \<le> waits es \<and>
    (r = Read_Done \<and> length buf' = target \<or> r = Read_Eof \<and> length buf' < target \<and> es' = [] \<or>
     r = Read_Pending \<and> waits es' < waits es)"
  using assms
proof (induction es buf target rule: read_until.induct)
  case (1 es buf target)
  show ?case
  proof (cases "length buf < target")
    case True
    then have pos: "0 < target - length buf" by simp
    obtain st bs es1 where p: "inner_poll es (target - length buf) = (st, bs, es1)" by (metis prod_cases3)
    note q = inner_poll_quiet [OF "1.prems"(1) pos p]
    show ?thesis
    proof (cases "st = PollOk \<and> bs \<noteq> []")
      case go: True
      then have st: "st = PollOk" and bs: "bs \<noteq> []" by auto
      have u: "read_until es1 (buf @ bs) target = (r, buf', es')"
        using "1.prems"(3) True p st bs by (simp add: read_until.simps [of es])
      have "length (buf @ bs) \<le> target" using conjunct1 [OF conjunct2 [OF conjunct2 [OF q]]] True by simp
      from "1.IH" [OF True p [symmetric] st refl bs _ this u] q st bs show ?thesis by auto
    next
      case False
      with q "1.prems"(3) True p show ?thesis by (auto simp: read_until.simps [of es])
    qed
  qed (use "1.prems" in \<open>auto simp: read_until.simps [of es]\<close>)
qed

text \<open>
  \<open>to_read cr s es rest\<close>: what is buffered in \<open>s\<close> and still to come from \<open>es\<close> is the plaintext
  \<open>rest\<close> and its sealed form, cut where the read state says.
\<close>

fun reads_ahead :: "crypto \<Rightarrow> ss_stream \<Rightarrow> u8 list \<Rightarrow> u8 list \<Rightarrow> read_state \<Rightarrow> bool" where
  "reads_ahead cr s wire text PeerSalt \<longleftrightarrow>
    (\<exists>ikm salt key cs w nc. ss_password_ikm s = Some ikm \<and> length salt = salt_size (ss_method s) \<and>
       derive_key_from_ikm cr (ss_method s) ikm salt = Ok key \<and> wire = salt @ w \<and>
       frames cr (ss_method s, key) (ss_read_nonce s) cs = Ok (w, nc) \<and> list_all chunk_ok cs \<and> text = concat cs)"
| "reads_ahead cr s wire text LengthBlock \<longleftrightarrow>
    (\<exists>ci cs nc. ss_read_cipher s = Some ci \<and> wf_cipher ci \<and>
       frames cr ci (ss_read_nonce s) cs = Ok (wire, nc) \<and> list_all chunk_ok cs \<and> text = concat cs)"
| "reads_ahead cr s wire text (Payload len) \<longleftrightarrow>
    (\<exists>ci c cs ct w nc1 nc. ss_read_cipher s = Some ci \<and> wf_cipher ci \<and> chunk_ok c \<and> length c = len \<and>
       seal_block cr ci (ss_read_nonce s) c = Ok (ct, nc1) \<and> frames cr ci nc1 cs = Ok (w, nc) \<and>
       wire = ct @ w \<and> list_all chunk_ok cs \<and> text = c @ concat cs)"
| "reads_ahead cr s wire text Closed \<longleftrightarrow> False"

fun read_goal :: "cipher_method \<Rightarrow> read_state \<Rightarrow> nat" where
  "read_goal m PeerSalt = salt_size m"
| "read_goal m LengthBlock = 18"
| "read_goal m (Payload len) = len + 16"
| "read_goal m Closed = 0"

definition to_read :: "crypto \<Rightarrow> ss_stream \<Rightarrow> inner \<Rightarrow> u8 list \<Rightarrow> bool" where
  "to_read cr s es rest \<longleftrightarrow>
    list_all quiet es \<and> nc_size (ss_read_nonce s) = 12 \<and>
    length (ss_read_buf s) \<le> read_goal (ss_method s) (ss_read_state s) \<and>
    (\<exists>text. rest = ss_read_plain s @ text \<and>
       reads_ahead cr s (ss_read_buf s @ inner_bytes es) text (ss_read_state s))"

lemma to_read_lengthI:
  assumes "list_all quiet es" "nc_size (ss_read_nonce s) = 12" "ss_read_state s = LengthBlock"
    "length (ss_read_buf s) \<le> 18" "ss_read_cipher s = Some ci" "wf_cipher ci"
    "frames cr ci (ss_read_nonce s) cs = Ok (ss_read_buf s @ inner_bytes es, nc)" "list_all chunk_ok cs"
  shows "to_read cr s es (ss_read_plain s @ concat cs)"
  using assms by (auto simp: to_read_def)

text \<open>What a poll that does not find buffered text promises.\<close>

definition good_poll ::
  "crypto \<Rightarrow> nat \<Rightarrow> inner \<Rightarrow> u8 list \<Rightarrow> unit poll \<times> u8 list \<times> ss_stream \<times> inner \<Rightarrow> bool" where
  "good_poll cr cap es rest = (\<lambda>(r, out, s', es').
    (\<exists>rest'. rest = out @ rest' \<and> to_read cr s' es' rest') \<and> length out \<le> cap \<and> waits es' \<le> waits es \<and>
    (r = Ready () \<and> (out = [] \<and> 0 < cap \<longrightarrow> rest = []) \<or> r = Pending \<and> out = [] \<and> waits es' < waits es))"

lemma good_poll_ReadyI:
  "rest = out @ rest' \<Longrightarrow> to_read cr s' es' rest' \<Longrightarrow> length out \<le> cap \<Longrightarrow> waits es' \<le> waits es \<Longrightarrow>
   (out = [] \<Longrightarrow> 0 < cap \<Longrightarrow> rest = []) \<Longrightarrow> good_poll cr cap es rest (Ready (), out, s', es')"
  by (auto simp: good_poll_def)

lemma good_poll_PendingI:
  "to_read cr s' es' rest \<Longrightarrow> waits es' < waits es \<Longrightarrow> good_poll cr cap es rest (Pending, [], s', es')"
  by (auto simp: good_poll_def)

lemma good_poll_trans:
  "waits es1 \<le> waits es \<Longrightarrow> good_poll cr cap es1 rest p \<Longrightarrow> good_poll cr cap es rest p"
  by (auto simp: good_poll_def)

lemma poll_payload_good:
  assumes "crypto_ok cr" "to_read cr s es rest" "ss_read_state s = Payload len" "ss_read_plain s = []"
  shows "good_poll cr cap es rest (poll_payload cr cap len s es)"
proof -
  from assms(2-4) obtain ci c cs ct w nc1 nc where
    q: "list_all quiet es" "nc_size (ss_read_nonce s) = 12" "length (ss_read_buf s) \<le> len + 16" and
    ci: "ss_read_cipher s = Some ci" "wf_cipher ci" and c: "chunk_ok c" "length c = len" and
    ct: "seal_block cr ci (ss_read_nonce s) c = Ok (ct, nc1)" and
    w: "frames cr ci nc1 cs = Ok (w, nc)" "ss_read_buf s @ inner_bytes es = ct @ w" and
    cs: "list_all chunk_ok cs" "rest = c @ concat cs"
    by (auto simp: to_read_def)
  note o = seal_block_opens [OF assms(1) ci(2) q(2) _ ct]
  have l: "length c \<le> 65536" using c by (simp add: chunk_ok_def MAX_CHUNK_PAYLOAD_def)
  obtain r buf es' where ru: "read_until es (ss_read_buf s) (len + 16) = (r, buf, es')" by (metis prod_cases3)
  note rq = read_until_quiet [OF q(1,3) ru]
  consider (Done) "r = Read_Done" "length buf = len + 16" | (Eof) "r = Read_Eof" "length buf < len + 16" "es' = []"
    | (Pend) "r = Read_Pending" "waits es' < waits es" using rq by blast
  then show ?thesis
  proof cases
    case Done
    then have "buf = ct" "inner_bytes es' = w"
      using rq w(2) o(2) [OF l] c(2) append_eq_append_conv [of buf ct "inner_bytes es'" w] by auto
    let ?s = "\<lambda>plain. s\<lparr>ss_read_nonce := nc1, ss_read_buf := [], ss_read_state := LengthBlock, ss_read_plain := plain\<rparr>"
    have t: "to_read cr (?s plain) es' (plain @ concat cs)" for plain
      using to_read_lengthI [of es' "?s plain" ci cr cs nc] rq ci o [OF l] cs w \<open>inner_bytes es' = w\<close> by simp
    have p: "poll_payload cr cap len s es =
        (if length c \<le> cap then (Ready (), c, ?s [], es') else (Ready (), take cap c, ?s (drop cap c), es'))"
      using ru Done ci o [OF l] \<open>buf = ct\<close> assms(4) by (simp add: poll_payload_def tag_size_def Let_def min_def)
    have r: "rest = take cap c @ drop cap c @ concat cs" using cs(2) by (simp flip: append_assoc)
    have ne: "c \<noteq> []" using c(1) by (simp add: chunk_ok_def)
    show ?thesis
      unfolding p using good_poll_ReadyI [OF cs(2) t [of "[]", simplified]] good_poll_ReadyI [OF r t [of "drop cap c"]] rq ne
      by (simp split: if_split)
  next
    case Eof
    then have "length (ct @ w) < len + 16" using rq w(2) by (metis append.right_neutral inner_bytes.simps(1))
    then show ?thesis using o(2) [OF l] c(2) by simp
  next
    case Pend
    have "reads_ahead cr s (buf @ inner_bytes es') rest (Payload len)"
      using rq w ci c ct cs by (auto intro!: exI)
    with Pend show ?thesis
      using ru rq q assms(3,4) by (auto simp: poll_payload_def good_poll_def to_read_def tag_size_def)
  qed
qed

lemma frames_Cons_Ok:
  assumes "frames cr ci nc (c # cs) = Ok (wire, nc')"
  obtains len_ct nc1 ct nc2 w where "seal_block cr ci nc (to_be_bytes (word_of_nat (length c))) = Ok (len_ct, nc1)"
    "seal_block cr ci nc1 c = Ok (ct, nc2)" "frames cr ci nc2 cs = Ok (w, nc')" "wire = len_ct @ ct @ w"
  using assms by (auto simp: frame_def try_bind_Ok_iff)

lemma poll_length_good:
  assumes "crypto_ok cr" "to_read cr s es rest" "ss_read_state s = LengthBlock" "ss_read_plain s = []"
  shows "good_poll cr cap es rest (poll_length cr cap s es)"
proof -
  from assms(2-4) obtain ci cs nc where
    q: "list_all quiet es" "nc_size (ss_read_nonce s) = 12" "length (ss_read_buf s) \<le> 18" and
    ci: "ss_read_cipher s = Some ci" "wf_cipher ci" and
    w: "frames cr ci (ss_read_nonce s) cs = Ok (ss_read_buf s @ inner_bytes es, nc)" and
    cs: "list_all chunk_ok cs" "rest = concat cs"
    by (auto simp: to_read_def)
  obtain r buf es' where ru: "read_until es (ss_read_buf s) 18 = (r, buf, es')" by (metis prod_cases3)
  note rq = read_until_quiet [OF q(1,3) ru]
  have w': "frames cr ci (ss_read_nonce s) cs = Ok (buf @ inner_bytes es', nc)" using w rq by simp
  consider (Done) "r = Read_Done" "length buf = 18" | (Eof) "r = Read_Eof" "length buf < 18" "es' = []"
    | (Pend) "r = Read_Pending" "waits es' < waits es" using rq by blast
  then show ?thesis
  proof cases
    case Pend
    have "to_read cr (s\<lparr>ss_read_buf := buf\<rparr>) es' rest"
      using to_read_lengthI [of es' "s\<lparr>ss_read_buf := buf\<rparr>" ci cr cs nc] rq q ci w' cs assms(3,4) by simp
    with Pend ru show ?thesis by (auto simp: poll_length_def tag_size_def Let_def intro: good_poll_PendingI)
  next
    case Eof
    show ?thesis
    proof (cases cs)
      case Nil
      with w' Eof have "buf = []" "nc = ss_read_nonce s" by auto
      then have "to_read cr (s\<lparr>ss_read_buf := []\<rparr>) es' []"
        using to_read_lengthI [of es' "s\<lparr>ss_read_buf := []\<rparr>" ci cr "[]" nc] rq q ci assms(3,4) Eof by simp
      with Nil cs Eof ru rq show ?thesis
        by (auto simp: poll_length_def tag_size_def Let_def intro!: good_poll_ReadyI [where rest' = "[]"])
    next
      case (Cons c cs')
      obtain len_ct nc1 ct nc2 w2 where
        l: "seal_block cr ci (ss_read_nonce s) (to_be_bytes (word_of_nat (length c))) = Ok (len_ct, nc1)"
        and e: "buf @ inner_bytes es' = len_ct @ ct @ w2"
        by (rule frames_Cons_Ok [OF w' [unfolded Cons]])
      have "length len_ct = 18" using seal_block_opens(2) [OF assms(1) ci(2) q(2) _ l] by simp
      then show ?thesis using arg_cong [OF e, of length] Eof by simp
    qed
  next
    case Done
    then obtain c cs' where c: "cs = c # cs'" using w' by (cases cs) auto
    obtain len_ct nc1 ct nc2 w2 where
      l: "seal_block cr ci (ss_read_nonce s) (to_be_bytes (word_of_nat (length c))) = Ok (len_ct, nc1)" and
      ct: "seal_block cr ci nc1 c = Ok (ct, nc2)" and w2: "frames cr ci nc2 cs' = Ok (w2, nc)"
      and e: "buf @ inner_bytes es' = len_ct @ ct @ w2"
      by (rule frames_Cons_Ok [OF w' [unfolded c]])
    note o = seal_block_opens [OF assms(1) ci(2) q(2) _ l, simplified]
    have be: "buf = len_ct" "inner_bytes es' = ct @ w2" using e o(2) Done by (auto simp: append_eq_append_conv)
    have ck: "chunk_ok c" "list_all chunk_ok cs'" using cs(1) by (simp_all add: c)
    then have len: "unat (from_be_bytes (to_be_bytes (word_of_nat (length c)) ! 0)
        (to_be_bytes (word_of_nat (length c)) ! 1)) = length c"
      by (intro length_block_value) (simp add: chunk_ok_def)
    let ?s = "s\<lparr>ss_read_nonce := nc1, ss_read_buf := [], ss_read_state := Payload (length c)\<rparr>"
    have "reads_ahead cr ?s (inner_bytes es') rest (Payload (length c))"
      using ci ck ct w2 be cs(2) c by (auto intro!: exI)
    then have "to_read cr ?s es' rest" using rq o(3) assms(4) by (simp add: to_read_def)
    from poll_payload_good [OF assms(1) this, of "length c" cap] assms(4)
    have g: "good_poll cr cap es' rest (poll_payload cr cap (length c) ?s es')" by simp
    have "poll_length cr cap s es = poll_payload cr cap (length c) ?s es'"
      using ru Done ci o be ck(1) len by (simp add: poll_length_def tag_size_def Let_def chunk_ok_def)
    with g rq show ?thesis by (auto intro: good_poll_trans)
  qed
qed

lemma poll_salt_good:
  assumes "crypto_ok cr" "to_read cr s es rest" "ss_read_state s = PeerSalt" "ss_read_plain s = []"
  shows "good_poll cr cap es rest (poll_salt cr cap s es)"
proof -
  let ?n = "salt_size (ss_method s)"
  from assms(2-4) obtain ikm salt key cs w nc where
    q: "list_all quiet es" "nc_size (ss_read_nonce s) = 12" "length (ss_read_buf s) \<le> ?n" and
    k: "ss_password_ikm s = Some ikm" "length salt = ?n" "derive_key_from_ikm cr (ss_method s) ikm salt = Ok key" and
    w: "ss_read_buf s @ inner_bytes es = salt @ w" "frames cr (ss_method s, key) (ss_read_nonce s) cs = Ok (w, nc)" and
    cs: "list_all chunk_ok cs" "rest = concat cs"
    by (auto simp: to_read_def)
  obtain r buf es' where ru: "read_until es (ss_read_buf s) ?n = (r, buf, es')" by (metis prod_cases3)
  note rq = read_until_quiet [OF q(1,3) ru]
  consider (Done) "r = Read_Done" "length buf = ?n" | (Eof) "r = Read_Eof" "length buf < ?n" "es' = []"
    | (Pend) "r = Read_Pending" "waits es' < waits es" using rq by blast
  then show ?thesis
  proof cases
    case Pend
    have e: "buf @ inner_bytes es' = salt @ w" using rq w(1) by simp
    have "reads_ahead cr (s\<lparr>ss_read_buf := buf\<rparr>) (buf @ inner_bytes es') rest PeerSalt"
      unfolding e by simp (use k w cs in blast)
    then have "to_read cr (s\<lparr>ss_read_buf := buf\<rparr>) es' rest"
      using rq q assms(3,4) by (simp add: to_read_def)
    with Pend ru show ?thesis by (auto simp: poll_salt_def intro: good_poll_PendingI)
  next
    case Eof
    then have "length (salt @ w) < ?n" using rq w(1) by (metis append.right_neutral inner_bytes.simps(1))
    then show ?thesis using k(2) by simp
  next
    case Done
    then have be: "buf = salt" "inner_bytes es' = w"
      using rq w(1) k(2) append_eq_append_conv [of buf salt "inner_bytes es'" w] by auto
    have key: "length key = key_size (ss_method s)" using derive_key_ok [OF assms(1), of "ss_method s" ikm salt] k(3) by auto
    let ?s = "s\<lparr>ss_read_subkey := Some key, ss_read_cipher := Some (ss_method s, key), ss_read_buf := [],
      ss_read_state := LengthBlock\<rparr>"
    have "to_read cr ?s es' rest"
      using to_read_lengthI [of es' ?s "(ss_method s, key)" cr cs nc] rq q w be key cs assms(4)
      by (simp add: wf_cipher_def)
    from poll_length_good [OF assms(1) this, of cap] assms(4)
    have g: "good_poll cr cap es' rest (poll_length cr cap ?s es')" by simp
    have "poll_salt cr cap s es = poll_length cr cap ?s es'"
      using ru Done k be key by (simp add: poll_salt_def Let_def AeadCipher_new_def)
    with g rq show ?thesis by (auto intro: good_poll_trans)
  qed
qed

lemma ss_poll_read_good:
  assumes "crypto_ok cr" "to_read cr s es rest"
  shows "good_poll cr cap es rest (ss_poll_read cr cap s es)"
proof (cases "ss_read_plain s = []")
  case True
  then show ?thesis
    using assms poll_payload_good poll_length_good poll_salt_good
    by (cases "ss_read_state s") (auto simp: ss_poll_read_def to_read_def)
next
  case False
  let ?p = "ss_read_plain s"
  from assms(2) obtain ahead where t: "rest = ?p @ ahead" by (auto simp: to_read_def)
  have "to_read cr (s\<lparr>ss_read_plain := drop cap ?p\<rparr>) es (drop cap ?p @ ahead)"
    using assms(2) t by (cases "ss_read_state s") (auto simp: to_read_def)
  moreover have "rest = take cap ?p @ drop cap ?p @ ahead" using t by (simp flip: append_assoc)
  moreover have "ss_poll_read cr cap s es = (Ready (), take cap ?p, s\<lparr>ss_read_plain := drop cap ?p\<rparr>, es)"
    using False by (simp add: ss_poll_read_def Let_def min_def)
  ultimately show ?thesis using False by (auto intro!: good_poll_ReadyI)
qed

text \<open>A sequence of reads with buffers of any sizes: the bytes delivered, up to the first error.\<close>

fun run_reads :: "crypto \<Rightarrow> nat list \<Rightarrow> ss_stream \<Rightarrow> inner \<Rightarrow> (ss_io_error option \<times> u8 list) \<times> ss_stream \<times> inner" where
  "run_reads cr [] s es = ((None, []), s, es)"
| "run_reads cr (cap # sizes) s es =
    (case ss_poll_read cr cap s es of
       (Ready_Err e, out, s', es') \<Rightarrow> ((Some e, out), s', es')
     | (_, out, s', es') \<Rightarrow>
         (case run_reads cr sizes s' es' of ((e, outs), s'', es'') \<Rightarrow> ((e, out @ outs), s'', es'')))"

lemma run_reads_good:
  assumes "crypto_ok cr" "to_read cr s es rest" "run_reads cr sizes s es = ((e, outs), s', es')"
  shows "e = None \<and> (\<exists>rest'. rest = outs @ rest' \<and> to_read cr s' es' rest') \<and>
    (list_all ((<) 0) sizes \<longrightarrow> length rest + waits es \<le> length sizes \<longrightarrow> outs = rest)"
  using assms(2,3)
proof (induction sizes arbitrary: s es rest outs e)
  case (Cons cap sizes)
  obtain r out s1 es1 where p: "ss_poll_read cr cap s es = (r, out, s1, es1)" by (metis prod_cases4)
  have g: "good_poll cr cap es rest (r, out, s1, es1)"
    using ss_poll_read_good [OF assms(1) Cons.prems(1), of cap] p by simp
  then obtain rest1 where r1: "rest = out @ rest1" "to_read cr s1 es1 rest1" by (auto simp: good_poll_def)
  from g have "r \<noteq> Ready_Err x" for x by (auto simp: good_poll_def)
  with Cons.prems(2) p obtain outs1 where o: "run_reads cr sizes s1 es1 = ((e, outs1), s', es')" "outs = out @ outs1"
    by (auto split: poll.splits prod.splits)
  note IH = Cons.IH [OF r1(2) o(1)]
  have "length rest + waits es \<le> Suc (length sizes) \<Longrightarrow> 0 < cap \<Longrightarrow>
      rest = [] \<or> length rest1 + waits es1 \<le> length sizes"
    using g r1(1) by (cases out) (auto simp: good_poll_def)
  with IH r1 o(2) show ?case by auto
qed auto

subsection \<open>The writer\<close>

text \<open>
  \<open>written\<close>: the bytes taken by the sink and those still buffered are \<open>base\<close> and the frames of the
  chunks accepted so far.
\<close>

definition written :: "crypto \<Rightarrow> aead_cipher \<Rightarrow> nonce_counter \<Rightarrow> u8 list \<Rightarrow> ss_stream \<Rightarrow> sink \<Rightarrow> u8 list \<Rightarrow> bool" where
  "written cr ci nc base s k acc \<longleftrightarrow>
    ss_write_cipher s = Some ci \<and> \<not> ss_send_write_salt s \<and>
    (\<exists>cs w. frames cr ci nc cs = Ok (w, ss_write_nonce s) \<and> list_all chunk_ok cs \<and> concat cs = acc \<and>
       sink_out k @ ss_write_buf s = base @ w)"

lemma drain_loop_keeps:
  "drain_loop es out buf = (d, buf', k) \<Longrightarrow> sink_out k @ buf' = out @ buf \<and> (d = Drained \<longrightarrow> buf' = [])"
  by (induction es out buf rule: drain_loop.induct) (auto split: if_splits)

lemma drain_write_buf_written:
  assumes "drain_write_buf s k = (d, s', k')" "written cr ci nc base s k acc"
  shows "written cr ci nc base s' k' acc \<and> (d = Drained \<longrightarrow> ss_write_buf s' = [])"
  using assms drain_loop_keeps [of "sink_events k" "sink_out k" "ss_write_buf s" d]
  by (auto simp: drain_write_buf_def written_def split: prod.splits)

lemma frame_of_blocks:
  "seal_block cr ci nc (to_be_bytes (word_of_nat (length c))) = Ok (len_ct, nc1) \<Longrightarrow>
   seal_block cr ci nc1 c = Ok (ct, nc2) \<Longrightarrow> frame cr ci nc c = Ok (len_ct @ ct, nc2)"
  by (simp add: frame_def)

lemma write_chunk_written:
  assumes "write_chunk cr buf s k = (Ready n, s', k')" "written cr ci nc base s k acc"
  shows "written cr ci nc base s' k' (acc @ take n buf)"
proof (cases "min (length buf) MAX_CHUNK_PAYLOAD = 0")
  case True
  with assms show ?thesis by (auto simp: write_chunk_def)
next
  case False
  define m where "m = min (length buf) MAX_CHUNK_PAYLOAD"
  with False have m: "m \<noteq> 0" "m \<le> length buf" "m \<le> MAX_CHUNK_PAYLOAD" by auto
  from assms(2) obtain cs w where ci: "ss_write_cipher s = Some ci" "\<not> ss_send_write_salt s" and
    cs: "frames cr ci nc cs = Ok (w, ss_write_nonce s)" "list_all chunk_ok cs" "concat cs = acc"
    "sink_out k @ ss_write_buf s = base @ w"
    by (auto simp: written_def)
  from assms(1) ci(1) m(1) obtain len_ct nc1 ct nc2 d where
    l: "seal_block cr ci (ss_write_nonce s) (to_be_bytes (word_of_nat m)) = Ok (len_ct, nc1)" and
    ct: "seal_block cr ci nc1 (take m buf) = Ok (ct, nc2)" and n: "n = m" and
    d: "drain_write_buf (s\<lparr>ss_write_nonce := nc2, ss_write_buf := ss_write_buf s @ len_ct @ ct\<rparr>) k = (d, s', k')"
    by (auto simp: write_chunk_def Let_def m_def [symmetric] split: sum.splits prod.splits drain.splits)
  have "frame cr ci (ss_write_nonce s) (take m buf) = Ok (len_ct @ ct, nc2)"
    using l ct m(2) by (intro frame_of_blocks) (simp_all add: min_absorb2)
  then have "frames cr ci nc (cs @ [take m buf]) = Ok (w @ len_ct @ ct, nc2)" using cs(1) by (simp add: frames_snoc)
  moreover have "chunk_ok (take m buf)" using m by (auto simp: chunk_ok_def)
  ultimately have "written cr ci nc base (s\<lparr>ss_write_nonce := nc2, ss_write_buf := ss_write_buf s @ len_ct @ ct\<rparr>) k
      (acc @ take m buf)"
    using ci cs unfolding written_def
    by (intro conjI exI [of _ "cs @ [take m buf]"] exI [of _ "w @ len_ct @ ct"]) (auto simp flip: append_assoc)
  with drain_write_buf_written [OF d] n show ?thesis by blast
qed

datatype write_op = Write "u8 list" "u8 list" | Flush

text \<open>A sequence of writes and flushes: the bytes reported as written, up to the first error.\<close>

fun run_writes :: "crypto \<Rightarrow> write_op list \<Rightarrow> ss_stream \<Rightarrow> sink \<Rightarrow> (ss_io_error option \<times> u8 list) \<times> ss_stream \<times> sink" where
  "run_writes cr [] s k = ((None, []), s, k)"
| "run_writes cr (Write rnd buf # ops) s k =
    (case ss_poll_write cr rnd buf s k of
       (Ready_Err e, s', k') \<Rightarrow> ((Some e, []), s', k')
     | (Pending, s', k') \<Rightarrow> run_writes cr ops s' k'
     | (Ready n, s', k') \<Rightarrow>
         (case run_writes cr ops s' k' of ((e, acc), s'', k'') \<Rightarrow> ((e, take n buf @ acc), s'', k'')))"
| "run_writes cr (Flush # ops) s k =
    (case ss_poll_flush (Ready ()) s k of
       (Ready_Err e, s', k') \<Rightarrow> ((Some e, []), s', k')
     | (_, s', k') \<Rightarrow> run_writes cr ops s' k')"

lemma ss_poll_write_written:
  assumes "ss_poll_write cr rnd buf s k = (r, s', k')" "written cr ci nc base s k acc"
  shows "r = Ready n \<Longrightarrow> written cr ci nc base s' k' (acc @ take n buf)"
    and "r = Pending \<Longrightarrow> written cr ci nc base s' k' acc"
proof -
  obtain d s1 k1 where d: "drain_write_buf s k = (d, s1, k1)" by (metis prod_cases3)
  have p: "prepare_salt cr rnd s = (Ok (), s)" using assms(2) by (simp add: prepare_salt_def written_def)
  note w = drain_write_buf_written [OF d assms(2)]
  show "r = Ready n \<Longrightarrow> written cr ci nc base s' k' (acc @ take n buf)"
    using assms(1) d p w write_chunk_written by (auto simp: ss_poll_write_def split: drain.splits)
  show "r = Pending \<Longrightarrow> written cr ci nc base s' k' acc"
    using assms(1) d p w
    by (auto simp: ss_poll_write_def write_chunk_def Let_def split: drain.splits if_splits option.splits sum.splits prod.splits)
qed

lemma run_writes_written:
  assumes "run_writes cr ops s k = ((None, acc'), s', k')" "written cr ci nc base s k acc"
  shows "written cr ci nc base s' k' (acc @ acc')"
  using assms
proof (induction cr ops s k arbitrary: acc acc' rule: run_writes.induct)
  case (2 cr rnd buf ops s k)
  obtain r s1 k1 where p: "ss_poll_write cr rnd buf s k = (r, s1, k1)" by (metis prod_cases3)
  show ?case
  proof (cases r)
    case (Ready n)
    with 2 p ss_poll_write_written(1) [OF p "2.prems"(2) Ready] show ?thesis by (fastforce split: prod.splits)
  next
    case Pending
    with 2 p ss_poll_write_written(2) [OF p "2.prems"(2)] show ?thesis by auto
  qed (use 2 p in auto)
next
  case (3 cr ops s k)
  obtain d s1 k1 where d: "drain_write_buf s k = (d, s1, k1)" by (metis prod_cases3)
  with 3 drain_write_buf_written [OF d "3.prems"(2)] show ?case
    by (auto simp: ss_poll_flush_def split: drain.splits)
qed simp

subsection \<open>The handshakes\<close>

lemma nonce_one: "nonce_increment (replicate (nonce_size m) 0) 12 = Ok ((replicate (nonce_size m) 0)[0 := 1])"
  by (simp add: nonce_increment_def nonce_size_def eval_nat_numeral)

lemma nonce_bytes: "to_le_bytes64 0 = [0, 0, 0, 0, 0, 0, 0, 0]" "to_le_bytes64 1 = [1, 0, 0, 0, 0, 0, 0, 0]"
  by (simp_all add: to_le_bytes64_def upt_rec)

lemma nonce_of_zero: "replicate (nonce_size m) 0 = nonce_of 0" and nonce_of_one: "(replicate (nonce_size m) 0)[0 := 1] = nonce_of 1"
  unfolding nonce_of_def nonce_bytes nonce_size_def by (simp_all add: eval_nat_numeral)

lemma aead_decrypt_raw_key: "length key = key_size m \<Longrightarrow> aead_decrypt_raw cr m key n c = AeadCipher_decrypt cr (m, key) n c"
  by (simp add: aead_decrypt_raw_def AeadCipher_new_def)

text \<open>The bytes a client sends ahead of its data.\<close>

lemma shadowsocks_connect_Ok:
  assumes "shadowsocks_connect cr rnd t m pw c = (Ok s, c')"
  obtains key address wire where "derive_key cr m (as_bytes pw) (take (salt_size m) rnd) = Ok key"
    "length key = key_size m" "encode_address t = Ok address" "length address \<le> MAX_CHUNK_PAYLOAD"
    "encrypt_chunk_with cr (m, key) (replicate (nonce_size m) 0) address = Ok wire"
    "tx c' = tx c @ take (salt_size m) rnd @ wire" "ss_new_client cr m key (as_bytes pw) = Ok s"
proof -
  from assms obtain key address wire where
    k: "derive_key cr m (as_bytes pw) (take (salt_size m) rnd) = Ok key" and a: "encode_address t = Ok address" and
    e: "encrypt_chunk_standard cr m key (replicate (nonce_size m) 0) address = Ok wire" and
    x: "tx c' = tx c @ take (salt_size m) rnd @ wire" and s: "ss_new_client cr m key (as_bytes pw) = Ok s"
    by (auto simp: shadowsocks_connect_def Let_def io_bind_Ok_iff write_all_Ok_iff)
  from e have "length key = key_size m" "length address \<le> MAX_CHUNK_PAYLOAD"
      "encrypt_chunk_with cr (m, key) (replicate (nonce_size m) 0) address = Ok wire"
    by (auto simp: encrypt_chunk_standard_def try_bind_Ok_iff AeadCipher_new_Ok split: if_splits)
  with k a x s show thesis by (intro that)
qed

lemma accept_header_connect:
  assumes "crypto_ok cr" "wf_socks_addr (socks_form t)" "derive_key cr m (as_bytes pw) salt = Ok key"
    "length key = key_size m" "encode_address t = Ok address" "length address \<le> MAX_CHUNK_PAYLOAD"
    "encrypt_chunk_with cr (m, key) (replicate (nonce_size m) 0) address = Ok wire"
    "ss_new_server cr m key True (as_bytes pw) = Ok srv"
  shows "accept_header cr m pw salt \<lparr>rx = wire @ rest, tx = x, room = r\<rparr> = (Ok (srv, t), \<lparr>rx = rest, tx = x, room = r\<rparr>)"
proof -
  obtain len_ct payload_ct n' where w: "wire = len_ct @ payload_ct" "length len_ct = 18"
    "length payload_ct = length address + 16" "nonce_increment (replicate (nonce_size m) 0) 12 = Ok n'"
    "AeadCipher_decrypt cr (m, key) (replicate (nonce_size m) 0) len_ct = Ok (to_be_bytes (word_of_nat (length address)))"
    "AeadCipher_decrypt cr (m, key) n' payload_ct = Ok address"
    by (rule encrypt_chunk_with_Ok [OF assms(1) _ assms(6,7)]) (use assms(4) in simp)
  have n: "n' = (replicate (nonce_size m) 0)[0 := 1]" using w(4) nonce_one by simp
  have d: "decode_address address = Ok (t, length address)" using decode_address_append [OF assms(2,5), of "[]"] by simp
  note lv = length_block_value [OF assms(6)]
  show ?thesis
    using w n d lv assms(3,4,6,8)
    by (simp add: accept_header_def tag_size_def decrypt_header_def aead_decrypt_raw_key Let_def prepend_read_plaintext_def)
qed

text \<open>A writing stream and a reading stream that agree on salt, cipher and nonce.\<close>

definition peered :: "crypto \<Rightarrow> ss_stream \<Rightarrow> ss_stream \<Rightarrow> bool" where
  "peered cr s r \<longleftrightarrow>
    \<not> ss_send_write_salt s \<and> nc_size (ss_write_nonce s) = 12 \<and> ss_read_nonce r = ss_write_nonce s \<and>
    ss_read_plain r = [] \<and> ss_read_buf r = [] \<and>
    (\<exists>ci. ss_write_cipher s = Some ci \<and> wf_cipher ci \<and>
       (ss_read_state r = LengthBlock \<and> ss_read_cipher r = Some ci \<and> ss_write_buf s = [] \<or>
        ss_read_state r = PeerSalt \<and>
        (\<exists>ikm key. ss_password_ikm r = Some ikm \<and> length (ss_write_buf s) = salt_size (ss_method r) \<and>
           derive_key_from_ikm cr (ss_method r) ikm (ss_write_buf s) = Ok key \<and> ci = (ss_method r, key))))"

text \<open>
  C19: a Shadowsocks stream delivers what was written. Let a writing and a reading end agree on
  salt, cipher and nonce. Whatever is written in any sequence of writes and flushes, with every
  pattern of partial and pending writes below, is read at the other end in order, without loss,
  repetition or error, however the transport cuts it into segments and whatever buffer sizes the
  reader uses; and with enough reads into nonempty buffers all of it arrives.
\<close>

theorem ss_stream_delivers:
  assumes "crypto_ok cr" "peered cr s r"
    "run_writes cr ops s \<lparr>sink_events = evs, sink_out = []\<rparr> = ((None, sent), s', k)" "ss_write_buf s' = []"
    "list_all quiet es" "inner_bytes es = sink_out k"
    "run_reads cr sizes r es = ((e, got), r', es')"
  shows "e = None \<and> (\<exists>rest. sent = got @ rest) \<and>
    (list_all ((<) 0) sizes \<and> length sent + waits es \<le> length sizes \<longrightarrow> got = sent)"
proof -
  from assms(2) obtain ci where ci: "ss_write_cipher s = Some ci" by (auto simp: peered_def)
  have "written cr ci (ss_write_nonce s) (ss_write_buf s) s \<lparr>sink_events = evs, sink_out = []\<rparr> []"
    using assms(2) ci by (auto simp: written_def peered_def intro!: exI [of _ "[]"])
  from run_writes_written [OF assms(3) this] assms(4) obtain cs w nc where
    w: "frames cr ci (ss_write_nonce s) cs = Ok (w, nc)" "list_all chunk_ok cs" "concat cs = sent"
    "sink_out k = ss_write_buf s @ w"
    by (auto simp: written_def)
  have "reads_ahead cr r (inner_bytes es) sent (ss_read_state r)"
  proof (cases "ss_read_state r = PeerSalt")
    case True
    with assms(2) ci obtain ikm key where "ss_password_ikm r = Some ikm" "length (ss_write_buf s) = salt_size (ss_method r)"
      "derive_key_from_ikm cr (ss_method r) ikm (ss_write_buf s) = Ok key" "ci = (ss_method r, key)"
      "ss_read_nonce r = ss_write_nonce s"
      by (auto simp: peered_def)
    with w show ?thesis unfolding True assms(6) reads_ahead.simps
      by (intro exI [of _ ikm] exI [of _ "ss_write_buf s"] exI [of _ key] exI [of _ cs] exI [of _ w] exI [of _ nc]) simp
  qed (use assms(2,6) w ci in \<open>auto simp: peered_def\<close>)
  then have "to_read cr r es sent"
    using assms(2,5) by (auto simp: to_read_def peered_def)
  from run_reads_good [OF assms(1) this assms(7)] show ?thesis by auto
qed

lemma prepare_salt_run:
  assumes "ss_send_write_salt s" "prepare_salt cr rnd s = (Ok (), s1)"
  shows "run_writes cr (Write rnd buf # ops) s k = run_writes cr (Write rnd buf # ops) s1 k"
proof -
  have "prepare_salt cr rnd s1 = (Ok (), s1)"
    using assms by (auto simp: prepare_salt_def Let_def split: option.splits sum.splits)
  then show ?thesis using assms(2) by (simp add: ss_poll_write_def)
qed

text \<open>
  A client and a server agree on the target and on the keys. Let the cipher library keep its
  documented behaviour and a client send a connection request for a proper target, with a salt the
  server has not seen. The server with the same password and method accepts it with that target;
  the client's stream and the server's agree on cipher and nonce, and so do, in the other direction,
  the server's stream once its first write has drawn a salt and the client's; the bytes
  behind the request are still on the connection. Sending the same request again is refused as a
  replay.
\<close>

lemma shadowsocks_handshake_interop:
  assumes "crypto_ok cr" "wf_socks_addr (socks_form t)" "salt_size m \<le> length rnd"
    "shadowsocks_connect cr rnd t m pw \<lparr>rx = y, tx = [], room = q\<rparr> = (Ok client, c')"
    "take (salt_size m) rnd \<notin> set (salt_seen w)"
  shows "\<exists>server w'.
    shadowsocks_accept cr pw m w \<lparr>rx = tx c' @ rest, tx = x, room = r\<rparr> =
      ((Ok (server, t), w'), \<lparr>rx = rest, tx = x, room = r\<rparr>) \<and>
    peered cr client server \<and>
    (\<forall>rnd'. salt_size m \<le> length rnd' \<longrightarrow>
       (\<exists>server'. peered cr server' client \<and>
          (\<forall>buf ops k. run_writes cr (Write rnd' buf # ops) server k = run_writes cr (Write rnd' buf # ops) server' k))) \<and>
    fst (shadowsocks_accept cr pw m w' \<lparr>rx = tx c' @ rest, tx = x, room = r\<rparr>) =
      (Err (DecryptionFailed ''replayed salt''), w')"
proof -
  let ?salt = "take (salt_size m) rnd"
  obtain key address wire where k: "derive_key cr m (as_bytes pw) ?salt = Ok key"
    "length key = key_size m" "encode_address t = Ok address" "length address \<le> MAX_CHUNK_PAYLOAD"
    "encrypt_chunk_with cr (m, key) (replicate (nonce_size m) 0) address = Ok wire"
    and tx: "tx c' = [] @ ?salt @ wire" and cl: "ss_new_client cr m key (as_bytes pw) = Ok client"
    by (rule shadowsocks_connect_Ok [OF assms(4)]) simp
  obtain w' where w': "check_tcp_salt_replay ?salt w = (False, w')" "?salt \<in> set (salt_seen w')"
    using assms(5) by (auto simp: check_tcp_salt_replay_def Let_def)
  obtain srv where srv: "ss_new_server cr m key True (as_bytes pw) = Ok srv"
    using k(2) by (simp add: ss_new_server_def AeadCipher_new_def)
  have l: "length ?salt = salt_size m" using assms(3) by simp
  have re: "read_exact ss_io (salt_size m) \<lparr>rx = ?salt @ wire @ rest, tx = x, room = r\<rparr> =
      (Ok ?salt, \<lparr>rx = wire @ rest, tx = x, room = r\<rparr>)"
    using l by (intro read_exact_append)
  have "shadowsocks_accept cr pw m w \<lparr>rx = tx c' @ rest, tx = x, room = r\<rparr> =
      ((Ok (srv, t), w'), \<lparr>rx = rest, tx = x, room = r\<rparr>)"
    using accept_header_connect [OF assms(1,2) k srv] w'(1) re by (simp add: shadowsocks_accept_def tx)
  moreover have "fst (shadowsocks_accept cr pw m w' \<lparr>rx = tx c' @ rest, tx = x, room = r\<rparr>) =
      (Err (DecryptionFailed ''replayed salt''), w')"
    using re w'(2) by (simp add: shadowsocks_accept_def tx check_tcp_salt_replay_def)
  moreover have "peered cr client srv"
    using srv cl k(2) by (simp add: peered_def ss_new_server_def ss_new_client_def AeadCipher_new_def wf_cipher_def
        NonceCounter_starting_at_def nonce_size_def) auto
  moreover have "\<exists>server'. peered cr server' client \<and>
      (\<forall>buf ops k. run_writes cr (Write rnd' buf # ops) srv k = run_writes cr (Write rnd' buf # ops) server' k)"
    if "salt_size m \<le> length rnd'" for rnd'
  proof -
    obtain key' where k': "derive_key_from_ikm cr m (password_key_material cr (as_bytes pw)) (take (salt_size m) rnd') = Ok key'"
      "length key' = key_size m"
      using derive_key_ok [OF assms(1)] by blast
    define s1 where "s1 = snd (prepare_salt cr rnd' srv)"
    have s1: "prepare_salt cr rnd' srv = (Ok (), s1)" "peered cr s1 client"
      using srv cl k(2) k' that
      by (auto simp: s1_def prepare_salt_def ss_new_server_def ss_new_client_def AeadCipher_new_def Let_def peered_def
          wf_cipher_def NonceCounter_starting_at_def nonce_size_def)
    have "ss_send_write_salt srv" using srv k(2) by (auto simp: ss_new_server_def AeadCipher_new_def)
    with s1 prepare_salt_run show ?thesis by blast
  qed
  ultimately show ?thesis by blast
qed

definition example_ip :: target_addr where
  "example_ip = \<lparr>tgt_host = Ip (V4 [10, 0, 0, 1]), tgt_port = 80\<rparr>"

lemma shadowsocks_handshake_interop_witness:
  "\<exists>client c' server w'.
     shadowsocks_connect plain_crypto (replicate 32 9) example_ip Aes128Gcm [] \<lparr>rx = [], tx = [], room = 100\<rparr> = (Ok client, c') \<and>
     shadowsocks_accept plain_crypto [] Aes128Gcm salt_window_empty \<lparr>rx = tx c' @ [7], tx = [], room = 0\<rparr> =
       ((Ok (server, example_ip), w'), \<lparr>rx = [7], tx = [], room = 0\<rparr>)"
proof -
  have "\<exists>client c'. shadowsocks_connect plain_crypto (replicate 32 9) example_ip Aes128Gcm [] \<lparr>rx = [], tx = [], room = 100\<rparr> =
      (Ok client, c')"
    by (simp add: shadowsocks_connect_def salt_size_def derive_key_def derive_key_from_ikm_def plain_crypto_def Let_def
        io_bind_def encode_address_def example_ip_def encrypt_chunk_standard_def encrypt_chunk_with_def nonce_one
        AeadCipher_new_def AeadCipher_encrypt_def MAX_CHUNK_PAYLOAD_def ss_new_client_def write_all_def to_be_bytes_def)
  then obtain client c' where c: "shadowsocks_connect plain_crypto (replicate 32 9) example_ip Aes128Gcm []
      \<lparr>rx = [], tx = [], room = 100\<rparr> = (Ok client, c')" by blast
  have "wf_socks_addr (socks_form example_ip)" by (simp add: example_ip_def socks_form_def)
  from shadowsocks_handshake_interop [OF plain_crypto_ok this _ c, of salt_window_empty "[7]" "[]" 0] c
  show ?thesis by (force simp: salt_window_empty_def salt_size_def)
qed

definition example_stream :: ss_stream where
  "example_stream = (case ss_new Aes128Gcm (replicate 16 0) of Inr s \<Rightarrow> s)"

lemma example_stream_peered: "peered plain_crypto example_stream example_stream"
  by (simp add: example_stream_def ss_new_def AeadCipher_new_def peered_def wf_cipher_def NonceCounter_starting_at_def
      nonce_size_def)

theorem ss_stream_delivers_witness:
  "\<exists>s' k. run_writes plain_crypto [Write [] [1, 2, 3], Flush] example_stream
       \<lparr>sink_events = [W_Pend, Take 99], sink_out = []\<rparr> = ((None, [1, 2, 3]), s', k) \<and>
     fst (run_reads plain_crypto [2, 2, 2, 2] example_stream
       [Chunk (take 20 (sink_out k)), Pend [], Chunk (drop 20 (sink_out k))]) = (None, [1, 2, 3])"
proof -
  let ?k = "\<lparr>sink_events = [W_Pend, Take 99], sink_out = []\<rparr>"
  let ?w = "[0, 3] @ replicate 16 0 @ [1, 2, 3] @ replicate 16 (0 :: u8)"
  let ?es = "[Chunk (take 20 ?w), Pend [], Chunk (drop 20 ?w)]"
  obtain s' where w: "run_writes plain_crypto [Write [] [1, 2, 3], Flush] example_stream ?k =
      ((None, [1, 2, 3]), s', \<lparr>sink_events = [], sink_out = ?w\<rparr>)" and b: "ss_write_buf s' = []"
    by (simp add: ss_poll_write_def prepare_salt_def example_stream_def ss_new_def AeadCipher_new_def
        drain_write_buf_def write_chunk_def MAX_CHUNK_PAYLOAD_def seal_block_def NonceCounter_starting_at_def
        nonce_size_def AeadCipher_encrypt_def plain_crypto_def NonceCounter_advance_def to_be_bytes_def ss_poll_flush_def)
  obtain e got r' es' where r: "run_reads plain_crypto [2, 2, 2, 2] example_stream ?es = ((e, got), r', es')"
    by (metis prod.collapse)
  from ss_stream_delivers [OF plain_crypto_ok example_stream_peered w b _ _ r] w r show ?thesis
    by (auto simp: waits_def)
qed

subsection \<open>Nonces\<close>

text \<open>Blocks on the wire: the nonce, the text and the ciphertext of each.\<close>

type_synonym sealed_block = "u8 list \<times> u8 list \<times> u8 list"

definition sealed_blocks :: "crypto \<Rightarrow> aead_cipher \<Rightarrow> sealed_block list \<Rightarrow> bool" where
  "sealed_blocks cr ci bs \<longleftrightarrow> list_all (\<lambda>(nonce, plain, ct). aead_seal cr (fst ci) (snd ci) nonce plain = Some ct) bs"

definition block_texts :: "u8 list list \<Rightarrow> u8 list list" where
  "block_texts cs = concat (map (\<lambda>x. [to_be_bytes (word_of_nat (length x)), x]) cs)"

definition nonces_from :: "nat \<Rightarrow> nat \<Rightarrow> u8 list list" where
  "nonces_from a b = map (\<lambda>i. nonce_of (of_nat i)) [a..<b]"

lemma nonces_from_append: "a \<le> b \<Longrightarrow> b \<le> c \<Longrightarrow> nonces_from a b @ nonces_from b c = nonces_from a c"
  unfolding nonces_from_def by (metis map_append upt_add_eq_append le_add_diff_inverse)

lemma nonces_from_distinct:
  assumes "b < 2 ^ 64"
  shows "distinct (nonces_from a b)"
proof -
  have "i = j" if "i < b" "j < b" "(of_nat i :: u64) = of_nat j" for i j
  proof -
    have "unat (of_nat i :: u64) = unat (of_nat j :: u64)" "i < 2 ^ 64" "j < 2 ^ 64" using that assms by simp_all
    then show ?thesis by (simp add: unat_of_nat)
  qed
  then show ?thesis by (auto simp: nonces_from_def distinct_map inj_on_def)
qed

lemma seal_block_nonce:
  assumes "seal_block cr ci nc p = Ok (ct, nc')" "nc_size nc = 12"
  shows "aead_seal cr (fst ci) (snd ci) (nonce_of (of_nat (unat (nc_counter nc)))) p = Some ct" "nc_size nc' = 12"
    "unat (nc_counter nc') = Suc (unat (nc_counter nc))"
proof -
  have c: "nc_counter nc \<noteq> - 1" "nc' = nc\<lparr>nc_counter := nc_counter nc + 1\<rparr>"
    and e: "aead_seal cr (fst ci) (snd ci) (nonce_of (nc_counter nc)) p = Some ct"
    using assms by (auto simp: seal_block_def NonceCounter_advance_def AeadCipher_encrypt_def split: sum.splits if_splits option.splits)
  have "unat (nc_counter nc + 1) = Suc (unat (nc_counter nc))"
    using c(1) by (metis add.commute unatSuc add_eq_0_iff)
  with c e assms(2) show "aead_seal cr (fst ci) (snd ci) (nonce_of (of_nat (unat (nc_counter nc)))) p = Some ct" "nc_size nc' = 12"
    "unat (nc_counter nc') = Suc (unat (nc_counter nc))" by simp_all
qed

text \<open>What the frames of a stream consist of.\<close>

lemma frames_blocks:
  assumes "frames cr ci nc cs = Ok (w, nc')" "nc_size nc = 12"
  shows "\<exists>bs. sealed_blocks cr ci bs \<and> map fst bs = nonces_from (unat (nc_counter nc)) (unat (nc_counter nc')) \<and>
    map (fst \<circ> snd) bs = block_texts cs \<and> concat (map (snd \<circ> snd) bs) = w \<and> unat (nc_counter nc) \<le> unat (nc_counter nc')"
  using assms
proof (induction cs arbitrary: nc w)
  case Nil
  then show ?case by (intro exI [of _ "[]"]) (simp add: sealed_blocks_def nonces_from_def block_texts_def)
next
  case (Cons c cs)
  then obtain len_ct ct nc1 nc2 w2 where
    l: "seal_block cr ci nc (to_be_bytes (word_of_nat (length c))) = Ok (len_ct, nc1)" and
    ct: "seal_block cr ci nc1 c = Ok (ct, nc2)" and r: "frames cr ci nc2 cs = Ok (w2, nc')" and w: "w = len_ct @ ct @ w2"
    by (auto simp: frame_def try_bind_Ok_iff)
  note s1 = seal_block_nonce [OF l Cons.prems(2)]
  note s2 = seal_block_nonce [OF ct s1(2)]
  let ?a = "unat (nc_counter nc)"
  from Cons.IH [OF r s2(2)] obtain bs where bs: "sealed_blocks cr ci bs"
    "map fst bs = nonces_from (Suc (Suc ?a)) (unat (nc_counter nc'))" "map (fst \<circ> snd) bs = block_texts cs"
    "concat (map (snd \<circ> snd) bs) = w2" "Suc (Suc ?a) \<le> unat (nc_counter nc')" unfolding s2(3) s1(3) by blast
  have "nonces_from ?a (unat (nc_counter nc')) =
      nonce_of (of_nat ?a) # nonce_of (of_nat (Suc ?a)) # nonces_from (Suc (Suc ?a)) (unat (nc_counter nc'))"
    using bs(5) by (simp add: nonces_from_def upt_conv_Cons del: of_nat_Suc)
  with bs s1 s2 w show ?case
    by (intro exI [of _ "(nonce_of (of_nat ?a), to_be_bytes (word_of_nat (length c)), len_ct) #
          (nonce_of (of_nat (Suc ?a)), c, ct) # bs"])
      (simp add: sealed_blocks_def block_texts_def comp_def del: of_nat_Suc)
qed

lemma run_writes_blocks:
  assumes "run_writes cr ops s k = ((None, sent), s', k')" "ss_write_cipher s = Some ci" "\<not> ss_send_write_salt s"
    "nc_size (ss_write_nonce s) = 12"
  shows "\<exists>cs bs. concat cs = sent \<and> list_all chunk_ok cs \<and> sealed_blocks cr ci bs \<and> map (fst \<circ> snd) bs = block_texts cs \<and>
    (\<exists>b. map fst bs = nonces_from (unat (nc_counter (ss_write_nonce s))) b \<and> unat (nc_counter (ss_write_nonce s)) \<le> b \<and> b < 2 ^ 64) \<and>
    sink_out k' @ ss_write_buf s' = sink_out k @ ss_write_buf s @ concat (map (snd \<circ> snd) bs)"
proof -
  have "written cr ci (ss_write_nonce s) (sink_out k @ ss_write_buf s) s k []"
    using assms(2,3) by (auto simp: written_def intro!: exI [of _ "[]"])
  from run_writes_written [OF assms(1) this] obtain cs w where
    w: "frames cr ci (ss_write_nonce s) cs = Ok (w, ss_write_nonce s')" "list_all chunk_ok cs" "concat cs = sent"
    "sink_out k' @ ss_write_buf s' = sink_out k @ ss_write_buf s @ w"
    by (auto simp: written_def)
  have "unat (nc_counter (ss_write_nonce s')) < 2 ^ 64"
    using unsigned_less [of "nc_counter (ss_write_nonce s')", where 'a = nat] by simp
  with frames_blocks [OF w(1) assms(4)] w show ?thesis by metis
qed

text \<open>
  C35: a client's stream never uses a nonce twice under its key. Let a client open a connection for
  a target and write whatever it likes, in any sequence of writes and flushes that do not fail. All that
  it has put on the wire, or still buffers, is the salt and sealed blocks: the length and the text of the
  address, then the length and the text of every chunk of the data, each sealed with the key derived from the
  salt and under a nonce of its own.
\<close>

theorem stream_nonces_distinct:
  assumes "shadowsocks_connect cr rnd t m pw c = (Ok s, c')"
    "run_writes cr ops s \<lparr>sink_events = evs, sink_out = []\<rparr> = ((None, sent), s', k)"
  shows "\<exists>key address cs blocks. derive_key cr m (as_bytes pw) (take (salt_size m) rnd) = Ok key \<and>
    encode_address t = Ok address \<and> concat cs = sent \<and> list_all chunk_ok cs \<and>
    map (fst \<circ> snd) blocks = block_texts (address # cs) \<and> sealed_blocks cr (m, key) blocks \<and> distinct (map fst blocks) \<and>
    tx c' @ sink_out k @ ss_write_buf s' = tx c @ take (salt_size m) rnd @ concat (map (snd \<circ> snd) blocks)"
proof -
  obtain key address wire where h: "derive_key cr m (as_bytes pw) (take (salt_size m) rnd) = Ok key"
    "length key = key_size m" "encode_address t = Ok address"
    "encrypt_chunk_with cr (m, key) (replicate (nonce_size m) 0) address = Ok wire"
    and tx: "tx c' = tx c @ take (salt_size m) rnd @ wire" and s: "ss_new_client cr m key (as_bytes pw) = Ok s"
    by (rule shadowsocks_connect_Ok [OF assms(1)])
  have st: "ss_write_cipher s = Some (m, key)" "\<not> ss_send_write_salt s" "ss_write_nonce s = \<lparr>nc_size = 12, nc_counter = 2\<rparr>"
    "ss_write_buf s = []"
    using s h(2) by (auto simp: ss_new_client_def AeadCipher_new_def NonceCounter_starting_at_def nonce_size_def)
  obtain cs bs b where r: "concat cs = sent" "list_all chunk_ok cs" "sealed_blocks cr (m, key) bs"
    "map (fst \<circ> snd) bs = block_texts cs" "map fst bs = nonces_from 2 b" "2 \<le> b" "b < 2 ^ 64"
    "sink_out k @ ss_write_buf s' = concat (map (snd \<circ> snd) bs)"
    using run_writes_blocks [OF assms(2) st(1,2)] st(3,4) by auto
  obtain len_ct ct where e: "aead_seal cr m key (nonce_of 0) (to_be_bytes (word_of_nat (length address))) = Some len_ct"
    "aead_seal cr m key (nonce_of 1) address = Some ct" "wire = len_ct @ ct"
    using h(4) nonce_one nonce_of_zero nonce_of_one
    by (auto simp: encrypt_chunk_with_def try_bind_Ok_iff AeadCipher_encrypt_def split: option.splits)
  let ?bs = "(nonce_of 0, to_be_bytes (word_of_nat (length address)), len_ct) # (nonce_of 1, address, ct) # bs"
  have "map fst ?bs = nonces_from 0 b"
    using r(5) nonces_from_append [of 0 2 b] r(6) by (simp add: nonces_from_def numeral_2_eq_2)
  then have "distinct (map fst ?bs)" using nonces_from_distinct [OF r(7)] by simp
  moreover have "sealed_blocks cr (m, key) ?bs" "map (fst \<circ> snd) ?bs = block_texts (address # cs)"
    using e r(3,4) by (simp_all add: sealed_blocks_def block_texts_def)
  moreover have "tx c' @ sink_out k @ ss_write_buf s' = tx c @ take (salt_size m) rnd @ concat (map (snd \<circ> snd) ?bs)"
    using tx e(3) r(8) by simp
  ultimately show ?thesis using h(1,3) r(1,2) by blast
qed

text \<open>A server's stream draws its salt with the first write and starts at the first nonce.\<close>

lemma server_nonces_distinct:
  assumes "ss_new_server cr m read_key True password = Ok s"
    "run_writes cr (Write rnd buf # ops) s \<lparr>sink_events = evs, sink_out = []\<rparr> = ((None, sent), s', k)"
  shows "\<exists>key cs blocks.
    derive_key_from_ikm cr m (password_key_material cr password) (take (salt_size m) rnd) = Ok key \<and>
    concat cs = sent \<and> map (fst \<circ> snd) blocks = block_texts cs \<and> sealed_blocks cr (m, key) blocks \<and> distinct (map fst blocks) \<and>
    sink_out k @ ss_write_buf s' = take (salt_size m) rnd @ concat (map (snd \<circ> snd) blocks)"
proof -
  obtain s1 where p: "prepare_salt cr rnd s = (Ok (), s1)"
    using assms(2) by (auto simp: ss_poll_write_def split: prod.splits sum.splits)
  have s: "ss_send_write_salt s" "ss_method s = m" "ss_password_ikm s = Some (password_key_material cr password)" "ss_write_buf s = []"
    "ss_write_nonce s = \<lparr>nc_size = 12, nc_counter = 0\<rparr>"
    using assms(1) by (auto simp: ss_new_server_def try_bind_Ok_iff NonceCounter_starting_at_def nonce_size_def)
  with p obtain key where key: "derive_key_from_ikm cr m (password_key_material cr password) (take (salt_size m) rnd) = Ok key"
    and s1: "s1 = s\<lparr>ss_write_subkey := key, ss_write_cipher := Some (m, key), ss_write_buf := take (salt_size m) rnd, ss_send_write_salt := False\<rparr>"
    by (auto simp: prepare_salt_def Let_def try_bind_Ok_iff AeadCipher_new_Ok split: sum.splits)
  have "run_writes cr (Write rnd buf # ops) s1 \<lparr>sink_events = evs, sink_out = []\<rparr> = ((None, sent), s', k)"
    using prepare_salt_run [OF s(1) p] assms(2) by simp
  from run_writes_blocks [OF this, of "(m, key)"] s s1 key show ?thesis
    using nonces_from_distinct by (auto simp: comp_def) metis
qed

theorem stream_nonces_distinct_witness:
  "\<exists>client c' s' k key address cs blocks.
    shadowsocks_connect plain_crypto (replicate 32 9) example_ip Aes128Gcm [] \<lparr>rx = [], tx = [], room = 100\<rparr> = (Ok client, c') \<and>
    run_writes plain_crypto [Flush] client \<lparr>sink_events = [], sink_out = []\<rparr> = ((None, []), s', k) \<and>
    map (fst \<circ> snd) blocks = block_texts (address # cs) \<and> sealed_blocks plain_crypto (Aes128Gcm, key) blocks \<and>
    distinct (map fst blocks) \<and> tx c' @ sink_out k @ ss_write_buf s' = replicate 16 9 @ concat (map (snd \<circ> snd) blocks)"
proof -
  obtain client c' where c: "shadowsocks_connect plain_crypto (replicate 32 9) example_ip Aes128Gcm []
      \<lparr>rx = [], tx = [], room = 100\<rparr> = (Ok client, c')"
    using shadowsocks_handshake_interop_witness by blast
  have "ss_write_buf client = []"
    by (rule shadowsocks_connect_Ok [OF c]) (auto simp: ss_new_client_def try_bind_Ok_iff)
  then have "run_writes plain_crypto [Flush] client \<lparr>sink_events = [], sink_out = []\<rparr> =
      ((None, []), client, \<lparr>sink_events = [], sink_out = []\<rparr>)"
    by (simp add: ss_poll_flush_def drain_write_buf_def)
  with stream_nonces_distinct [OF c this] c show ?thesis by (auto simp: salt_size_def)
qed

end
