(* ===== verification/Accept.thy ===== *)
theory Accept
  imports Auth_Cache Socks5_Handshake Socks4 Detect Http_Forward Trojan Ss_Stream
begin

text \<open>
  Inbound accept handlers for SOCKS (\<^verbatim>\<open>eggress-server/src/accept/handlers.rs\<close>): the handshake of a
  client under the listener's authentication policy, ending in a session that the server then
  routes. A handler threads two states, the client's connection and the policy with its reuse
  cache. Results: when the policy has credentials, a SOCKS5 session is accepted only on the
  transcript that carries them or on the word of the cache, and a SOCKS4 session only with the
  user name or on the word of the cache.
\<close>

datatype accept_error =
  Accept_Socks5 socks5_error
| Accept_Socks4 socks4_error
| Accept_Http http_error
| Accept_Shadowsocks shadowsocks_error
| Accept_Trojan trojan_error
| Accept_Io io_error
| Accept_Text string
| AuthenticationFailed

datatype tunnel_protocol =
  Tunnel_HttpConnect | Tunnel_Http2 | Tunnel_Http3 | Tunnel_WebSocket | Tunnel_Socks4 | Tunnel_Socks5
| Tunnel_Shadowsocks | Tunnel_ShadowsocksR | Tunnel_Trojan | Tunnel_Raw

datatype reply_context =
  Reply_Http | Reply_Http2 | Reply_Http3 | Reply_WebSocket | Reply_Socks4 | Reply_Socks5
| Reply_Shadowsocks | Reply_Trojan | Reply_Raw

text \<open>
  A pending session owns the client's stream; here the stream is the connection that the handler
  returns beside the session, with the encrypting layer, if there is one, in the session.
  \<^verbatim>\<open>AcceptError::Protocol\<close> boxes any error: here the error is kept.
\<close>

datatype client_layer = Layer_None | Layer_Shadowsocks ss_stream

record pending_tunnel =
  pt_target :: target_addr
  pt_layer :: client_layer
  pt_protocol :: tunnel_protocol
  pt_reply_context :: reply_context
  pt_identity :: client_identity

record pending_udp_associate =
  pu_protocol :: tunnel_protocol
  pu_identity :: client_identity
  pu_client_hint :: "target_addr option"

record pending_http_forward =
  pf_target :: target_addr
  pf_request :: forward_req
  pf_identity :: client_identity

datatype accepted_session =
  Session_Tunnel pending_tunnel
| Session_HttpForward pending_http_forward
| Session_Udp pending_udp_associate
| Session_Echo

text \<open>The identity a session was accepted with; echo sessions have none.\<close>

fun session_identity :: "accepted_session \<Rightarrow> client_identity" where
  "session_identity (Session_Tunnel t) = pt_identity t"
| "session_identity (Session_HttpForward f) = pf_identity f"
| "session_identity (Session_Udp u) = pu_identity u"
| "session_identity Session_Echo = Anonymous"

type_synonym accept_result = "(accept_error + accepted_session) \<times> inbound_authentication \<times> conn"

fun socks_addr_to_target :: "socks_addr \<Rightarrow> target_addr" where
  "socks_addr_to_target (Socks_IPv4 bs port) = \<lparr>tgt_host = Ip (V4 bs), tgt_port = port\<rparr>"
| "socks_addr_to_target (Socks_IPv6 bs port) = \<lparr>tgt_host = Ip (V6 bs), tgt_port = port\<rparr>"
| "socks_addr_to_target (Socks_Domain domain port) = \<lparr>tgt_host = Domain domain, tgt_port = port\<rparr>"

subsection \<open>SOCKS5\<close>

definition accept_method :: "inbound_authentication \<Rightarrow> bool \<Rightarrow> u8 list \<Rightarrow> u8" where
  "accept_method auth cached methods =
    (if (auth_credentials auth = None \<or> cached) \<and> AUTH_NONE \<in> set methods then AUTH_NONE
     else if auth_credentials auth \<noteq> None \<and> AUTH_USERNAME_PASSWORD \<in> set methods then AUTH_USERNAME_PASSWORD
     else AUTH_NO_ACCEPTABLE)"

definition write_method :: "u8 \<Rightarrow> (accept_error, unit) io" where
  "write_method m = io_bind (write_all Accept_Io [0x05, m]) (\<lambda>_. flush)"

text \<open>The sub-negotiation, when the password method was selected: the identity it establishes.\<close>

definition accept_credentials ::
  "nanos \<Rightarrow> nanos \<Rightarrow> inbound_authentication \<Rightarrow> ip_addr option \<Rightarrow> conn \<Rightarrow>
   (accept_error + client_identity) \<times> inbound_authentication \<times> conn" where
  "accept_credentials epoch now auth peer_ip c =
    (case auth_credentials auth of
       None \<Rightarrow> (Err AuthenticationFailed, auth, c)
     | Some (username, password, _) \<Rightarrow>
         (case read_auth_request username password c of
            (Inr client_username, c1) \<Rightarrow>
              (let identity = Username client_username;
                   auth' = record_authenticated epoch now auth peer_ip identity in
               case send_auth_response True c1 of
                 (Inl e, c2) \<Rightarrow> (Err (Accept_Socks5 e), auth', c2)
               | (Inr _, c2) \<Rightarrow> (Ok identity, auth', c2))
          | (Inl _, c1) \<Rightarrow>
              (case send_auth_response False c1 of (_, c2) \<Rightarrow> (Err AuthenticationFailed, auth, c2))))"

text \<open>The request after authentication.\<close>

definition accept_request :: "client_identity \<Rightarrow> conn \<Rightarrow> (accept_error + accepted_session) \<times> conn" where
  "accept_request identity c =
    (case read_socks5_request c of
       (Inl e, c1) \<Rightarrow> (Err (Accept_Socks5 e), c1)
     | (Inr (Connect, addr), c1) \<Rightarrow>
         (Ok (Session_Tunnel \<lparr>pt_target = socks_addr_to_target addr, pt_layer = Layer_None, pt_protocol = Tunnel_Socks5,
              pt_reply_context = Reply_Socks5, pt_identity = identity\<rparr>), c1)
     | (Inr (UdpAssociate, addr), c1) \<Rightarrow>
         (Ok (Session_Udp \<lparr>pu_protocol = Tunnel_Socks5, pu_identity = identity,
                            pu_client_hint = Some (socks_addr_to_target addr)\<rparr>), c1)
     | (Inr (Bind, addr), c1) \<Rightarrow>
         (case send_connect_reply REP_COMMAND_NOT_SUPPORTED addr c1 of
            (_, c2) \<Rightarrow> (Err (Accept_Socks5 (Socks5_UnsupportedCommand CMD_BIND)), c2)))"

text \<open>
  The handler: the cache is consulted at time \<open>t1\<close> and an authentication recorded at \<open>t2\<close>.
\<close>

definition accept_socks5 ::
  "nanos \<Rightarrow> nanos \<Rightarrow> nanos \<Rightarrow> inbound_authentication \<Rightarrow> ip_addr option \<Rightarrow> conn \<Rightarrow> accept_result" where
  "accept_socks5 epoch t1 t2 auth peer_ip c =
    (case read_method_negotiation c of
       (Inl e, c1) \<Rightarrow> (Err (Accept_Socks5 e), auth, c1)
     | (Inr methods, c1) \<Rightarrow>
         (case cached_identity t1 auth peer_ip of (cached, auth1) \<Rightarrow>
          let selected_method = accept_method auth1 (cached \<noteq> None) methods in
          case write_method selected_method c1 of
            (Inl e, c2) \<Rightarrow> (Err e, auth1, c2)
          | (Inr _, c2) \<Rightarrow>
              if selected_method = AUTH_NO_ACCEPTABLE
              then (Err (Accept_Socks5 Socks5_MethodNegotiationFailed), auth1, c2)
              else (case (if selected_method = AUTH_USERNAME_PASSWORD
                          then accept_credentials epoch t2 auth1 peer_ip c2
                          else (Ok (case cached of Some i \<Rightarrow> i | None \<Rightarrow> Anonymous), auth1, c2)) of
                      (Inl e, auth2, c3) \<Rightarrow> (Err e, auth2, c3)
                    | (Inr identity, auth2, c3) \<Rightarrow>
                        (case accept_request identity c3 of (r, c4) \<Rightarrow> (r, auth2, c4)))))"

subsection \<open>SOCKS4\<close>

definition accept_socks4 ::
  "nanos \<Rightarrow> nanos \<Rightarrow> nanos \<Rightarrow> inbound_authentication \<Rightarrow> ip_addr option \<Rightarrow> conn \<Rightarrow> accept_result" where
  "accept_socks4 epoch t1 t2 auth peer_ip c =
    (case read_socks4_request c of
       (Inl e, c1) \<Rightarrow> (Err (Accept_Socks4 e), auth, c1)
     | (Inr request, c1) \<Rightarrow>
         (case cached_identity t1 auth peer_ip of (cached, auth1) \<Rightarrow>
          if cached = None \<and>
             (case auth_credentials auth1 of
                None \<Rightarrow> False
              | Some (username, _, _) \<Rightarrow> as_bytes (s4_user_id request) \<noteq> as_bytes username)
          then (Err AuthenticationFailed, auth1, c1)
          else (let identity = (case cached of
                                  Some i \<Rightarrow> i
                                | None \<Rightarrow> if s4_user_id request = [] then Anonymous else Opaque (s4_user_id request));
                    auth2 = (if identity = Anonymous then auth1
                             else record_authenticated epoch t2 auth1 peer_ip identity) in
                (Ok (Session_Tunnel \<lparr>pt_target = socks4_target request, pt_layer = Layer_None, pt_protocol = Tunnel_Socks4, pt_reply_context = Reply_Socks4,
                              pt_identity = identity\<rparr>), auth2, c1))))"

subsection \<open>HTTP detection\<close>

datatype http_detect = Http_Match | Http_NeedMore | Http_NoMatch

definition is_method_byte :: "u8 \<Rightarrow> bool" where
  "is_method_byte b \<longleftrightarrow> (0x41 \<le> b \<and> b \<le> 0x5A) \<or> b = 0x2D \<or> (0x61 \<le> b \<and> b \<le> 0x7A)"

definition detect_http_method :: "u8 list \<Rightarrow> http_detect" where
  "detect_http_method p =
    (if 0x20 \<in> set p then
       (let method_token = takeWhile (\<lambda>b. b \<noteq> 0x20) p in
        if method_token = [] \<or> 16 < length method_token then Http_NoMatch
        else if list_all is_method_byte method_token then Http_Match
        else Http_NoMatch)
     else if 16 < length p then Http_NoMatch
     else if list_all is_method_byte p then Http_NeedMore
     else Http_NoMatch)"

subsection \<open>No session without credentials\<close>

lemma cached_identity_Some:
  assumes "cached_identity t auth peer = (Some i, auth1)"
  shows "\<exists>u p ip cache. auth_credentials auth = Some (u, p, Some cache) \<and> peer = Some ip \<and>
    fst (AuthReuseCache_lookup t ip cache) = Some i"
  using assms by (auto simp: cached_identity_def split: option.splits prod.splits)

lemma auth_credentials_with_cache:
  "auth_credentials (with_cache auth cache) =
    (case auth_credentials auth of Some (u, p, Some _) \<Rightarrow> Some (u, p, Some cache) | x \<Rightarrow> x)"
  by (cases auth) auto

text \<open>Consulting the cache does not change the credentials.\<close>

lemma cached_identity_credentials:
  assumes "cached_identity t auth peer = (r, auth1)" "auth_credentials auth = Some (u, p, reuse)"
  shows "\<exists>reuse'. auth_credentials auth1 = Some (u, p, reuse')"
  using assms
  by (auto simp: cached_identity_def auth_credentials_with_cache split: option.splits prod.splits)

lemma read_auth_request_name: "read_auth_request u p c = (Ok v, c') \<Longrightarrow> v = u"
  by (auto simp: read_auth_request_def io_bind_Ok_iff split: if_splits)

lemma accept_credentials_Ok:
  assumes "accept_credentials epoch now auth peer c = (Ok i, auth', c')" "auth_credentials auth = Some (u, p, reuse)"
  shows "rx c = cred_bytes u p @ rx c' \<and> i = Username u"
proof -
  from assms obtain v c1 where r: "read_auth_request u p c = (Ok v, c1)" "i = Username v"
      "send_auth_response True c1 = (Ok (), c')"
    by (auto simp: accept_credentials_def Let_def split: prod.splits sum.splits)
  have "rx c' = rx c1" using r(3) by (auto simp: send_auth_response_def io_Ok_iffs)
  with read_auth_request_Ok [OF r(1)] read_auth_request_name [OF r(1)] r(2) show ?thesis by simp
qed

lemma accept_request_identity: "accept_request i c = (Ok s, c') \<Longrightarrow> session_identity s = i"
  by (auto simp: accept_request_def split: prod.splits sum.splits socks5_command.splits)

lemma read_method_negotiation_Ok:
  assumes "read_method_negotiation c = (Ok methods, c1)"
  shows "rx c = [5, word_of_nat (length methods)] @ methods @ rx c1"
proof -
  from assms obtain n :: u8 where "length methods = unat n" "rx c = [5, n] @ methods @ rx c1"
    by (auto simp: read_method_negotiation_def io_Ok_iffs split: if_splits)
  then show ?thesis by simp
qed

lemma write_method_rx: "write_method m c = (Ok u, c') \<Longrightarrow> rx c' = rx c"
  by (auto simp: write_method_def io_Ok_iffs)

text \<open>
  A SOCKS5 listener with credentials serves no client without them. Whenever the handler
  accepts a session (a tunnel or a UDP association) under a policy with a user name and password,
  either the client's bytes carried that user name and that password, byte for byte, right after
  the method list, and the session's identity is the user name; or the reuse cache answered for
  the client's address at that moment, and the identity is the one it holds.
\<close>

lemma accept_socks5_authenticated:
  assumes acc: "accept_socks5 epoch t1 t2 auth peer c = (Ok s, auth', c')"
    and cred: "auth_credentials auth = Some (u, p, reuse)"
  shows "(\<exists>methods rest. rx c = [5, word_of_nat (length methods)] @ methods @ cred_bytes u p @ rest \<and>
            session_identity s = Username u) \<or>
    (\<exists>ip cache. peer = Some ip \<and> reuse = Some cache \<and>
       fst (AuthReuseCache_lookup t1 ip cache) = Some (session_identity s))"
proof -
  from acc obtain methods c1 cached auth1 c2 i auth2 c3 where
    neg: "read_method_negotiation c = (Ok methods, c1)" and
    ca: "cached_identity t1 auth peer = (cached, auth1)" and
    wm: "write_method (accept_method auth1 (cached \<noteq> None) methods) c1 = (Ok (), c2)" and
    na: "accept_method auth1 (cached \<noteq> None) methods \<noteq> AUTH_NO_ACCEPTABLE" and
    ac: "(if accept_method auth1 (cached \<noteq> None) methods = AUTH_USERNAME_PASSWORD
          then accept_credentials epoch t2 auth1 peer c2
          else (Ok (case cached of Some i \<Rightarrow> i | None \<Rightarrow> Anonymous), auth1, c2)) = (Ok i, auth2, c3)" and
    rq: "accept_request i c3 = (Ok s, c')"
    by (auto simp: accept_socks5_def Let_def split: prod.splits sum.splits if_splits)
  have s: "session_identity s = i" by (rule accept_request_identity [OF rq])
  obtain reuse' where cr: "auth_credentials auth1 = Some (u, p, reuse')"
    using cached_identity_credentials [OF ca cred] by blast
  show ?thesis
  proof (cases "accept_method auth1 (cached \<noteq> None) methods = AUTH_USERNAME_PASSWORD")
    case True
    with ac have "accept_credentials epoch t2 auth1 peer c2 = (Ok i, auth2, c3)" by simp
    from accept_credentials_Ok [OF this cr] write_method_rx [OF wm] read_method_negotiation_Ok [OF neg] s
    show ?thesis by auto
  next
    case False
    with na cr obtain j where j: "cached = Some j" by (auto simp: accept_method_def split: if_splits)
    with ac False have "i = j" by simp
    with cached_identity_Some [OF ca [unfolded j]] cred s show ?thesis by auto
  qed
qed

lemma accept_socks5_authenticated_witness:
  "\<exists>methods rest.
    [5, 1, 2, 1, 1, 0x75, 1, 0x70, 5, 1, 0, 1, 10, 0, 0, 1, 1, 0xBB, 0x47 :: u8] =
      [5, word_of_nat (length methods)] @ methods @ cred_bytes ''u'' ''p'' @ rest"
proof -
  let ?c = "\<lparr>rx = [5, 1, 2, 1, 1, 0x75, 1, 0x70, 5, 1, 0, 1, 10, 0, 0, 1, 1, 0xBB, 0x47], tx = [], room = 99\<rparr>"
  let ?s = "Session_Tunnel \<lparr>pt_target = \<lparr>tgt_host = Ip (V4 [10, 0, 0, 1]), tgt_port = 443\<rparr>, pt_layer = Layer_None,
    pt_protocol = Tunnel_Socks5,
              pt_reply_context = Reply_Socks5, pt_identity = Username ''u''\<rparr>"
  have "accept_socks5 0 1 2 (UsernamePassword ''u'' ''p'') (Some (V4 [192, 168, 0, 7])) ?c =
      (Ok ?s, UsernamePassword ''u'' ''p'', \<lparr>rx = [0x47], tx = [5, 2, 1, 0], room = 95\<rparr>)"
    by code_simp
  from accept_socks5_authenticated [OF this, of "''u''" "''p''" None] show ?thesis by auto
qed

text \<open>
  SOCKS4 under credentials. SOCKS4 carries no password: a session is accepted only if the
  request's user id is the configured user name or the reuse cache answers for the client's
  address. The target is the one of the request, which the stream began with.
\<close>

lemma accept_socks4_authenticated:
  assumes acc: "accept_socks4 epoch t1 t2 auth peer c = (Ok s, auth', c')"
    and cred: "auth_credentials auth = Some (u, p, reuse)"
  shows "\<exists>req. wf_socks4_request req \<and> rx c = encode_socks4_request req @ rx c' \<and>
    (\<exists>t. s = Session_Tunnel t \<and> pt_target t = socks4_target req) \<and>
    (s4_user_id req = u \<or>
     (\<exists>ip cache. peer = Some ip \<and> reuse = Some cache \<and>
        fst (AuthReuseCache_lookup t1 ip cache) = Some (session_identity s)))"
proof -
  from acc obtain req c1 where rd: "read_socks4_request c = (Ok req, c1)"
    by (auto simp: accept_socks4_def split: prod.splits sum.splits)
  obtain cached auth1 where ca: "cached_identity t1 auth peer = (cached, auth1)" by fastforce
  obtain reuse' where cr: "auth_credentials auth1 = Some (u, p, reuse')"
    using cached_identity_credentials [OF ca cred] by blast
  note ev = acc [unfolded accept_socks4_def, simplified rd ca cr Let_def prod.case sum.case option.case]
  have c': "c' = c1" "\<exists>t. s = Session_Tunnel t \<and> pt_target t = socks4_target req"
    using ev by (auto split: if_splits option.splits)
  have "s4_user_id req = u" if "cached = None"
    using ev that by (auto simp: as_bytes_inject split: if_splits)
  moreover have "\<exists>ip cache. peer = Some ip \<and> reuse = Some cache \<and>
      fst (AuthReuseCache_lookup t1 ip cache) = Some (session_identity s)" if "cached = Some i" for i
  proof -
    have "session_identity s = i" using ev that by (auto split: if_splits)
    with cached_identity_Some [OF ca [unfolded that]] cred show ?thesis by auto
  qed
  moreover have "wf_socks4_request req \<and> rx c = encode_socks4_request req @ rx c1"
    using read_socks4_request_Ok [OF rd] by blast
  ultimately show ?thesis using c' by (cases cached) auto
qed

lemma accept_socks4_authenticated_witness:
  "\<exists>req. [4, 1, 1, 0xBB, 10, 0, 0, 1, 0x75, 0, 0x47] = encode_socks4_request req @ [0x47] \<and> s4_user_id req = ''u''"
proof -
  let ?c = "\<lparr>rx = [4, 1, 1, 0xBB, 10, 0, 0, 1, 0x75, 0, 0x47], tx = [], room = 99\<rparr>"
  let ?s = "Session_Tunnel \<lparr>pt_target = \<lparr>tgt_host = Ip (V4 [10, 0, 0, 1]), tgt_port = 443\<rparr>, pt_layer = Layer_None,
    pt_protocol = Tunnel_Socks4, pt_reply_context = Reply_Socks4, pt_identity = Opaque ''u''\<rparr>"
  have "accept_socks4 0 1 2 (UsernamePassword ''u'' ''p'') (Some (V4 [192, 168, 0, 7])) ?c =
      (Ok ?s, UsernamePassword ''u'' ''p'', \<lparr>rx = [0x47], tx = [], room = 99\<rparr>)"
    by code_simp
  from accept_socks4_authenticated [OF this, of "''u''" "''p''" None] show ?thesis by auto
qed

subsection \<open>HTTP detection keeps the detector contract\<close>

definition http_method_accepts :: "u8 list \<Rightarrow> bool" where
  "http_method_accepts p \<longleftrightarrow>
    (\<exists>token rest. p = token @ 0x20 # rest \<and> token \<noteq> [] \<and> length token \<le> 16 \<and> list_all is_method_byte token)"

definition detect_http_result :: "u8 list \<Rightarrow> detect_result" where
  "detect_http_result p =
    (case detect_http_method p of
       Http_Match \<Rightarrow> Match 100
     | Http_NeedMore \<Rightarrow> NeedMore (Suc (length p))
     | Http_NoMatch \<Rightarrow> NoMatch)"

lemma space_no_method_byte: "list_all is_method_byte p \<Longrightarrow> 0x20 \<notin> set p"
  by (auto simp: is_method_byte_def list_all_iff)

lemma http_method_accepts_token:
  "0x20 \<in> set p \<Longrightarrow> http_method_accepts (p @ q) \<longleftrightarrow>
     takeWhile (\<lambda>b. b \<noteq> 0x20) p \<noteq> [] \<and> length (takeWhile (\<lambda>b. b \<noteq> 0x20) p) \<le> 16 \<and>
     list_all is_method_byte (takeWhile (\<lambda>b. b \<noteq> 0x20) p)"
proof -
  assume sp: "0x20 \<in> set p"
  let ?t = "takeWhile (\<lambda>b. b \<noteq> 0x20) p"
  obtain r where r: "p = ?t @ 0x20 # r"
  proof -
    have "dropWhile (\<lambda>b. b \<noteq> 0x20) p \<noteq> []" using sp by (auto simp: dropWhile_eq_Nil_conv)
    then obtain r where "dropWhile (\<lambda>b. b \<noteq> 0x20) p = 0x20 # r"
      using hd_dropWhile [of "\<lambda>b. b \<noteq> 0x20" p] by (cases "dropWhile (\<lambda>b. b \<noteq> 0x20) p") auto
    with takeWhile_dropWhile_id [of "\<lambda>b. b \<noteq> 0x20" p] that show thesis by metis
  qed
  have "token = ?t" if "p @ q = token @ 0x20 # rest" "list_all is_method_byte token" for token rest
  proof -
    have "takeWhile (\<lambda>b. b \<noteq> 0x20) (token @ 0x20 # rest) = token"
      using space_no_method_byte [OF that(2)] by (subst takeWhile_append2) auto
    moreover have "takeWhile (\<lambda>b. b \<noteq> 0x20) (p @ q) = ?t" using sp by (intro takeWhile_append1) auto
    ultimately show ?thesis using that(1) by simp
  qed
  moreover have "p @ q = ?t @ 0x20 # (r @ q)" using r by (metis append.assoc append_Cons)
  ultimately show ?thesis unfolding http_method_accepts_def by blast
qed

interpretation http_method: protocol_detector detect_http_result http_method_accepts 17
proof
  fix p c q
  assume m: "detect_http_result p = Match c"
  then have "0x20 \<in> set p"
    by (auto simp: detect_http_result_def detect_http_method_def split: if_splits)
  with m show "http_method_accepts (p @ q)"
    by (auto simp: detect_http_result_def detect_http_method_def Let_def http_method_accepts_token split: if_splits)
next
  fix p q
  assume n: "detect_http_result p = NoMatch"
  show "\<not> http_method_accepts (p @ q)"
  proof (cases "0x20 \<in> set p")
    case True
    with n show ?thesis
      by (auto simp: detect_http_result_def detect_http_method_def Let_def http_method_accepts_token split: if_splits)
  next
    case False
    with n have "16 < length p \<or> \<not> list_all is_method_byte p"
      by (auto simp: detect_http_result_def detect_http_method_def split: if_splits)
    moreover have "\<exists>us. token = p @ us" if "p @ q = token @ 0x20 # rest" for token rest
      using that False by (auto simp: append_eq_append_conv2 append_eq_Cons_conv)
    ultimately show ?thesis by (fastforce simp: http_method_accepts_def)
  qed
next
  fix p m
  assume n: "detect_http_result p = NeedMore m"
  then have "0x20 \<notin> set p" "length p \<le> 16" "m = Suc (length p)"
    by (auto simp: detect_http_result_def detect_http_method_def Let_def split: if_splits)
  then show "length p < m \<and> m \<le> 17 \<and> \<not> http_method_accepts p" by (auto simp: http_method_accepts_def)
qed

end
