(* ===== verification/Reply.thy ===== *)
theory Reply
  imports Hops Accept
begin

text \<open>
  Why a route could not be opened (\<^verbatim>\<open>eggress-server/src/error.rs\<close>) and what the client is told about it
  (\<^verbatim>\<open>reply.rs\<close>).
\<close>

subsection \<open>Errors of opening a route\<close>

datatype session_open_error =
  Open_Timeout
| Open_Refused
| Open_NetworkUnreachable
| Open_HostUnreachable
| Open_Dns
| Open_UpstreamAuthentication
| Open_PolicyDenied
| Open_UpstreamUnavailable
| Open_Hop nat session_open_error
| Open_Other string

fun open_of_connect_error :: "connect_error \<Rightarrow> session_open_error" where
  "open_of_connect_error Connect_ConnectionRefused = Open_Refused"
| "open_of_connect_error Connect_Timeout = Open_Timeout"
| "open_of_connect_error (DnsResolution _) = Open_Dns"
| "open_of_connect_error (Connect_TlsHandshake _) = Open_Other ''TLS handshake failed''"
| "open_of_connect_error (Connect_Io io) =
    (case classify_io_kind (os_kind io) of
       Class_Refused \<Rightarrow> Open_Refused
     | Class_Timeout \<Rightarrow> Open_Timeout
     | Class_NetworkUnreachable \<Rightarrow> Open_NetworkUnreachable
     | Class_HostUnreachable \<Rightarrow> Open_HostUnreachable
     | _ \<Rightarrow> Open_Other (os_text io))"
| "open_of_connect_error (ReservedTarget addr) = Open_Other (''reserved target: '' @ ip_to_string addr)"

text \<open>\<open>show_error\<close> is the \<^verbatim>\<open>Display\<close> text of a boxed error.\<close>

fun open_of_chain_error :: "(boxed_error \<Rightarrow> string) \<Rightarrow> boxed_error chain_error \<Rightarrow> session_open_error" where
  "open_of_chain_error show_error (ConnectFailed hop_index _ source) = Open_Hop hop_index (open_of_connect_error source)"
| "open_of_chain_error show_error (HandshakeFailed hop_index _ source) =
    Open_Hop hop_index
      (case classify_handshake_source source of
         Class_Auth \<Rightarrow> Open_UpstreamAuthentication
       | Class_Refused \<Rightarrow> Open_Refused
       | Class_Timeout \<Rightarrow> Open_Timeout
       | Class_Dns \<Rightarrow> Open_Dns
       | Class_NetworkUnreachable \<Rightarrow> Open_NetworkUnreachable
       | Class_HostUnreachable \<Rightarrow> Open_HostUnreachable
       | Class_Policy \<Rightarrow> Open_PolicyDenied
       | Class_Tls \<Rightarrow> Open_Other (show_error source)
       | Class_Protocol \<Rightarrow> Open_Other (show_error source)
       | Class_Other \<Rightarrow> Open_Other (show_error source))"
| "open_of_chain_error show_error EmptyChain = Open_Other ''empty chain''"
| "open_of_chain_error show_error (InvalidChain reason) = Open_Other (''invalid chain: '' @ reason)"

fun open_of_http_error :: "(http_error \<Rightarrow> string) \<Rightarrow> http_error \<Rightarrow> session_open_error" where
  "open_of_http_error show_error Http_AuthRequired = Open_UpstreamAuthentication"
| "open_of_http_error show_error Http_AuthFailed = Open_UpstreamAuthentication"
| "open_of_http_error show_error Http_ConnectionRefused = Open_Refused"
| "open_of_http_error show_error GatewayTimeout = Open_Timeout"
| "open_of_http_error show_error e = Open_Other (show_error e)"

fun open_of_socks5_error :: "(socks5_error \<Rightarrow> string) \<Rightarrow> socks5_error \<Rightarrow> session_open_error" where
  "open_of_socks5_error show_error Socks5_ConnectionRefused = Open_Refused"
| "open_of_socks5_error show_error Socks5_AuthFailed = Open_UpstreamAuthentication"
| "open_of_socks5_error show_error e = Open_Other (show_error e)"

subsection \<open>Replies\<close>

text \<open>The client's end: its connection and whether it has been shut down.\<close>

record client_end =
  cl_conn :: conn
  cl_shut :: bool

datatype reply_error = Reply_Io io_error | Reply_Socks4_Error socks4_error | Reply_Socks5_Error socks5_error | Mismatched

type_synonym reply_result = "(reply_error + unit) \<times> client_end"

definition client_io :: "('e \<Rightarrow> reply_error) \<Rightarrow> ('e, unit) io \<Rightarrow> client_end \<Rightarrow> reply_result" where
  "client_io box m cl =
    (case m (cl_conn cl) of
       (Inl e, c) \<Rightarrow> (Err (box e), cl\<lparr>cl_conn := c\<rparr>)
     | (Inr _, c) \<Rightarrow> (Ok (), cl\<lparr>cl_conn := c\<rparr>))"

definition client_shutdown :: "client_end \<Rightarrow> client_end" where
  "client_shutdown cl = cl\<lparr>cl_shut := True\<rparr>"

definition unspecified_ipv4 :: socket_addr where
  "unspecified_ipv4 = SocketAddr (V4 [0, 0, 0, 0]) 0"

definition http_ok_reply :: string where
  "http_ok_reply = ''HTTP/1.1 200 Connection Established'' @ crlf @ crlf"

text \<open>The arms of the match over protocol and context; every other pair is an error.\<close>

definition reply_matches :: "pending_tunnel \<Rightarrow> bool" where
  "reply_matches pending \<longleftrightarrow>
    (pt_protocol pending, pt_reply_context pending) \<in>
      {(Tunnel_HttpConnect, Reply_Http), (Tunnel_Http2, Reply_Http2), (Tunnel_Http3, Reply_Http3),
       (Tunnel_WebSocket, Reply_WebSocket), (Tunnel_Socks4, Reply_Socks4), (Tunnel_Socks5, Reply_Socks5),
       (Tunnel_Shadowsocks, Reply_Shadowsocks), (Tunnel_Trojan, Reply_Trojan), (Tunnel_Raw, Reply_Raw)}"

definition send_tunnel_success :: "pending_tunnel \<Rightarrow> client_end \<Rightarrow> reply_result" where
  "send_tunnel_success pending cl =
    (if \<not> reply_matches pending then (Err Mismatched, cl)
     else (case pt_protocol pending of
             Tunnel_HttpConnect \<Rightarrow> client_io Reply_Io (write_all id (as_bytes http_ok_reply)) cl
           | Tunnel_Socks4 \<Rightarrow> client_io Reply_Socks4_Error (write_socks4_reply Granted unspecified_ipv4) cl
           | Tunnel_Socks5 \<Rightarrow> client_io Reply_Socks5_Error (send_connect_reply 0x00 (Socks_IPv4 [0, 0, 0, 0] 0)) cl
           | _ \<Rightarrow> (Ok (), cl)))"

fun http_failure_status :: "session_open_error \<Rightarrow> string" where
  "http_failure_status Open_Timeout = ''HTTP/1.1 504 Gateway Timeout'' @ crlf @ ''Connection: close'' @ crlf @ crlf"
| "http_failure_status Open_PolicyDenied = ''HTTP/1.1 403 Forbidden'' @ crlf @ ''Connection: close'' @ crlf @ crlf"
| "http_failure_status _ = ''HTTP/1.1 502 Bad Gateway'' @ crlf @ ''Connection: close'' @ crlf @ crlf"

fun socks5_failure_rep :: "session_open_error \<Rightarrow> u8" where
  "socks5_failure_rep Open_Timeout = 0x06"
| "socks5_failure_rep Open_PolicyDenied = 0x02"
| "socks5_failure_rep Open_NetworkUnreachable = 0x03"
| "socks5_failure_rep Open_HostUnreachable = 0x04"
| "socks5_failure_rep Open_Dns = 0x04"
| "socks5_failure_rep Open_Refused = 0x05"
| "socks5_failure_rep _ = 0x01"

definition send_tunnel_failure :: "pending_tunnel \<Rightarrow> session_open_error \<Rightarrow> client_end \<Rightarrow> reply_result" where
  "send_tunnel_failure pending e cl =
    (if \<not> reply_matches pending then (Err Mismatched, cl)
     else (case pt_protocol pending of
             Tunnel_HttpConnect \<Rightarrow> client_io Reply_Io (write_all id (as_bytes (http_failure_status e))) cl
           | Tunnel_Socks4 \<Rightarrow> client_io Reply_Socks4_Error (write_socks4_reply Socks4.Failed unspecified_ipv4) cl
           | Tunnel_Socks5 \<Rightarrow>
               client_io Reply_Socks5_Error (send_connect_reply (socks5_failure_rep e) (Socks_IPv4 [0, 0, 0, 0] 0)) cl
           | _ \<Rightarrow> (Ok (), client_shutdown cl)))"

definition send_http_forward_failure :: "session_open_error \<Rightarrow> client_end \<Rightarrow> reply_result" where
  "send_http_forward_failure e cl = client_io Reply_Io (write_all id (as_bytes (http_failure_status e))) cl"

text \<open>The shutdown is skipped when the write fails.\<close>

definition write_and_shutdown :: "string \<Rightarrow> client_end \<Rightarrow> reply_result" where
  "write_and_shutdown s cl =
    (case client_io Reply_Io (write_all id (as_bytes s)) cl of
       (Inl e, cl1) \<Rightarrow> (Err e, cl1)
     | (Inr _, cl1) \<Rightarrow> (Ok (), client_shutdown cl1))"

definition send_http_expectation_failed :: "client_end \<Rightarrow> reply_result" where
  "send_http_expectation_failed cl =
    write_and_shutdown (''HTTP/1.1 417 Expectation Failed'' @ crlf @ ''Connection: close'' @ crlf @ crlf) cl"

definition send_http_upgrade_unsupported :: "client_end \<Rightarrow> reply_result" where
  "send_http_upgrade_unsupported cl =
    write_and_shutdown (''HTTP/1.1 501 Not Implemented'' @ crlf @ ''Connection: close'' @ crlf @ crlf) cl"

subsection \<open>What the client sees\<close>

text \<open>The answer to a success and to a failure, as bytes.\<close>

fun success_bytes :: "tunnel_protocol \<Rightarrow> u8 list" where
  "success_bytes Tunnel_HttpConnect = as_bytes http_ok_reply"
| "success_bytes Tunnel_Socks4 = [0, 90, 0, 0, 0, 0, 0, 0]"
| "success_bytes Tunnel_Socks5 = [5, 0, 0, 1, 0, 0, 0, 0, 0, 0]"
| "success_bytes _ = []"

fun failure_bytes :: "tunnel_protocol \<Rightarrow> session_open_error \<Rightarrow> u8 list" where
  "failure_bytes Tunnel_HttpConnect e = as_bytes (http_failure_status e)"
| "failure_bytes Tunnel_Socks4 e = [0, 91, 0, 0, 0, 0, 0, 0]"
| "failure_bytes Tunnel_Socks5 e = [5, socks5_failure_rep e, 0, 1, 0, 0, 0, 0, 0, 0]"
| "failure_bytes _ e = []"

definition sends :: "client_end \<Rightarrow> u8 list \<Rightarrow> client_end" where
  "sends cl bs = cl\<lparr>cl_conn := (cl_conn cl)\<lparr>tx := tx (cl_conn cl) @ bs, room := room (cl_conn cl) - length bs\<rparr>\<rparr>"

lemma client_io_write:
  "length bs \<le> room (cl_conn cl) \<Longrightarrow> client_io box (write_all w bs) cl = (Ok (), sends cl bs)"
  by (cases "cl_conn cl") (simp add: client_io_def sends_def)

lemma send_reply_bytes:
  "length (enc) + 3 \<le> r \<Longrightarrow> encode_reply b = Ok enc \<Longrightarrow>
   send_connect_reply rep b \<lparr>rx = x, tx = t, room = r\<rparr> = (Ok (), \<lparr>rx = x, tx = t @ [5, rep, 0] @ enc, room = r - (length enc + 3)\<rparr>)"
  by (simp add: send_connect_reply_def)

lemma client_io_socks5:
  assumes "10 \<le> room (cl_conn cl)"
  shows "client_io Reply_Socks5_Error (send_connect_reply rep (Socks_IPv4 [0, 0, 0, 0] 0)) cl =
    (Ok (), sends cl [5, rep, 0, 1, 0, 0, 0, 0, 0, 0])"
proof -
  have "encode_reply (Socks_IPv4 [0, 0, 0, 0] 0) = Ok [1, 0, 0, 0, 0, 0, 0]" by code_simp
  from send_reply_bytes [OF _ this] assms show ?thesis
    by (cases "cl_conn cl") (simp add: client_io_def sends_def)
qed

lemma client_io_socks4:
  assumes "8 \<le> room (cl_conn cl)"
  shows "client_io Reply_Socks4_Error (write_socks4_reply st unspecified_ipv4) cl =
    (Ok (), sends cl [0, socks4_status_byte st, 0, 0, 0, 0, 0, 0])"
  using assms
  by (cases "cl_conn cl")
    (simp add: client_io_def sends_def write_socks4_reply_def socks4_reply_bytes_def unspecified_ipv4_def to_be_bytes_def)


text \<open>One reply, of the client's own protocol, when the client still takes it.\<close>

definition answer_room :: nat where "answer_room = 128"

lemma length_http_replies:
  "length (as_bytes http_ok_reply) \<le> answer_room" "length (as_bytes (http_failure_status e)) \<le> answer_room"
  by (simp_all add: http_ok_reply_def answer_room_def, cases e) simp_all

lemma send_tunnel_success_bytes:
  assumes "reply_matches pending" "answer_room \<le> room (cl_conn cl)"
  shows "send_tunnel_success pending cl = (Ok (), sends cl (success_bytes (pt_protocol pending)))"
proof -
  have "8 \<le> room (cl_conn cl)" "10 \<le> room (cl_conn cl)" "length (as_bytes http_ok_reply) \<le> room (cl_conn cl)"
    using assms(2) length_http_replies(1) by (simp_all add: answer_room_def)
  then show ?thesis
    using assms(1) by (cases "pt_protocol pending")
      (simp_all add: send_tunnel_success_def client_io_write client_io_socks4 client_io_socks5, simp_all add: sends_def)
qed

lemma send_tunnel_failure_bytes:
  assumes "reply_matches pending" "answer_room \<le> room (cl_conn cl)"
  shows "send_tunnel_failure pending e cl =
    (Ok (), (sends cl (failure_bytes (pt_protocol pending) e))
      \<lparr>cl_shut := cl_shut cl \<or> pt_protocol pending \<notin> {Tunnel_HttpConnect, Tunnel_Socks4, Tunnel_Socks5}\<rparr>)"
proof -
  have "8 \<le> room (cl_conn cl)" "10 \<le> room (cl_conn cl)" "length (as_bytes (http_failure_status e)) \<le> room (cl_conn cl)"
    using assms(2) length_http_replies(2) [of e] by (simp_all add: answer_room_def)
  then show ?thesis
    using assms(1) by (cases "pt_protocol pending")
      (simp_all add: send_tunnel_failure_def client_io_write client_io_socks4 client_io_socks5 client_shutdown_def, simp_all add: sends_def)
qed

text \<open>A session of a ShadowsocksR listener has the context of Shadowsocks, which no arm takes: its tunnel is never served.\<close>

lemma ssr_reply_mismatched:
  "pt_protocol pending = Tunnel_ShadowsocksR \<Longrightarrow> send_tunnel_success pending cl = (Err Mismatched, cl)"
  by (simp add: send_tunnel_success_def reply_matches_def)

text \<open>A failure of a hop is answered as a general failure, whatever the reason inside is.\<close>

lemma hop_failure_flattened:
  "socks5_failure_rep (Open_Hop i e) = 0x01" "http_failure_status (Open_Hop i e) = http_failure_status (Open_Other s)"
  by simp_all

end
