(* ===== verification/Relay.thy ===== *)
theory Relay
  imports Byte_Io
begin

text \<open>
  The relay between a client and a server stream (\<^verbatim>\<open>eggress-relay/src/lib.rs\<close>) and its facade
  (\<^verbatim>\<open>eggress-core/src/relay.rs\<close>), poll by poll. What the two transports do is a list of events: data of any
  size arrives or nothing does yet, a write takes any part of the data or blocks, a shutdown blocks or
  succeeds, and any of them may fail. Results: under every such schedule the bytes of each direction
  arrive in order, none is lost, repeated or added, and the counters are exact; without failures the
  relay ends, and then everything both sides sent has been delivered.
\<close>

subsection \<open>Transports\<close>

datatype io_kind = Kind_BrokenPipe | Kind_ConnectionReset | Kind_WriteZero | Kind_Other

datatype 'a ready = Now 'a | Later

datatype read_event = Avail "u8 list" | Read_Blocks | Read_Fails io_kind
datatype sink_event = Takes nat | Write_Blocks | Write_Fails io_kind
datatype shut_event = Shut_Blocks | Shut_Fails io_kind

text \<open>When the events are over, reads are at the end of the stream, and writes and shutdowns succeed.\<close>

type_synonym source = "read_event list"

record relay_sink =
  sk_writes :: "sink_event list"
  sk_shuts :: "shut_event list"
  sk_out :: "u8 list"
  sk_closed :: bool

fun poll_read :: "nat \<Rightarrow> source \<Rightarrow> (io_kind + u8 list) ready \<times> source" where
  "poll_read n [] = (Now (Ok []), [])"
| "poll_read n (Avail bs # es) =
    (if length bs \<le> n then (Now (Ok bs), es) else (Now (Ok (take n bs)), Avail (drop n bs) # es))"
| "poll_read n (Read_Blocks # es) = (Later, es)"
| "poll_read n (Read_Fails k # es) = (Now (Err k), es)"

definition poll_write :: "u8 list \<Rightarrow> relay_sink \<Rightarrow> (io_kind + nat) ready \<times> relay_sink" where
  "poll_write bs w =
    (case sk_writes w of
       [] \<Rightarrow> (Now (Ok (length bs)), w\<lparr>sk_out := sk_out w @ bs\<rparr>)
     | Takes n # es \<Rightarrow> (Now (Ok (min n (length bs))), w\<lparr>sk_writes := es, sk_out := sk_out w @ take n bs\<rparr>)
     | Write_Blocks # es \<Rightarrow> (Later, w\<lparr>sk_writes := es\<rparr>)
     | Write_Fails k # es \<Rightarrow> (Now (Err k), w\<lparr>sk_writes := es\<rparr>))"

definition poll_shutdown :: "relay_sink \<Rightarrow> (io_kind + unit) ready \<times> relay_sink" where
  "poll_shutdown w =
    (case sk_shuts w of
       [] \<Rightarrow> (Now (Ok ()), w\<lparr>sk_closed := True\<rparr>)
     | Shut_Blocks # es \<Rightarrow> (Later, w\<lparr>sk_shuts := es\<rparr>)
     | Shut_Fails k # es \<Rightarrow> (Now (Err k), w\<lparr>sk_shuts := es\<rparr>))"

subsection \<open>One direction\<close>

text \<open>
  The buffer is represented by its size and its filled part, \<^verbatim>\<open>buffer[..read_len]\<close>; the byte counter is a natural number, since no
  connection carries \<open>2 ^ 64\<close> bytes.
\<close>

record direction_state =
  ds_size :: nat
  ds_data :: "u8 list"
  ds_write_pos :: nat
  ds_bytes :: nat
  ds_eof :: bool
  ds_shutdown_complete :: bool

definition DirectionState_new :: "nat \<Rightarrow> direction_state" where
  "DirectionState_new buffer_size =
    \<lparr>ds_size = buffer_size, ds_data = [], ds_write_pos = 0, ds_bytes = 0, ds_eof = False, ds_shutdown_complete = False\<rparr>"

datatype direction_poll = Progress | Complete | Failed io_kind

type_synonym direction_result = "direction_poll ready \<times> source \<times> relay_sink \<times> direction_state"

definition finish_direction :: "source \<Rightarrow> relay_sink \<Rightarrow> direction_state \<Rightarrow> direction_result" where
  "finish_direction r w st =
    (if ds_shutdown_complete st then (Now Complete, r, w, st)
     else (case poll_shutdown w of
             (Now (Inr _), w1) \<Rightarrow> (Now Complete, r, w1, st\<lparr>ds_shutdown_complete := True\<rparr>)
           | (Now (Inl k), w1) \<Rightarrow>
               if k = Kind_BrokenPipe \<or> k = Kind_ConnectionReset
               then (Now Complete, r, w1, st\<lparr>ds_shutdown_complete := True\<rparr>)
               else (Now (Failed k), r, w1, st)
           | (Later, w1) \<Rightarrow> (Later, r, w1, st)))"

definition reset_buffer :: "direction_state \<Rightarrow> direction_state" where
  "reset_buffer st = (if ds_data st \<noteq> [] then st\<lparr>ds_data := [], ds_write_pos := 0\<rparr> else st)"

fun direction_steps :: "nat \<Rightarrow> bool \<Rightarrow> source \<Rightarrow> relay_sink \<Rightarrow> direction_state \<Rightarrow> direction_result" where
  "direction_steps 0 made_progress r w st = (if made_progress then Now Progress else Later, r, w, st)"
| "direction_steps (Suc k) made_progress r w st =
    (if ds_write_pos st < length (ds_data st) then
       (case poll_write (drop (ds_write_pos st) (ds_data st)) w of
          (Now (Inr n), w1) \<Rightarrow>
            if n = 0 then (Now (Failed Kind_WriteZero), r, w1, st)
            else direction_steps k True r w1 (st\<lparr>ds_write_pos := ds_write_pos st + n, ds_bytes := ds_bytes st + n\<rparr>)
        | (Now (Inl e), w1) \<Rightarrow> (Now (Failed e), r, w1, st)
        | (Later, w1) \<Rightarrow> (Later, r, w1, st))
     else
       (let st1 = reset_buffer st in
        if ds_eof st1 then finish_direction r w st1
        else (case poll_read (ds_size st1) r of
                (Now (Inr bs), r1) \<Rightarrow>
                  if bs = [] then direction_steps k made_progress r1 w (st1\<lparr>ds_data := [], ds_eof := True\<rparr>)
                  else direction_steps k True r1 w (st1\<lparr>ds_data := bs\<rparr>)
              | (Now (Inl e), r1) \<Rightarrow> (Now (Failed e), r1, w, st1)
              | (Later, r1) \<Rightarrow> (Later, r1, w, st1))))"

definition poll_direction :: "source \<Rightarrow> relay_sink \<Rightarrow> direction_state \<Rightarrow> direction_result" where
  "poll_direction r w st = direction_steps 16 False r w st"

subsection \<open>Options and reports\<close>

datatype half_close_policy = Drain | DrainFor nat

record relay_options =
  ro_buffer_size :: nat
  ro_half_close :: half_close_policy

definition DEFAULT_BUFFER_SIZE :: nat where "DEFAULT_BUFFER_SIZE = 64 * 1024"

definition RelayOptions_default :: relay_options where
  "RelayOptions_default = \<lparr>ro_buffer_size = DEFAULT_BUFFER_SIZE, ro_half_close = Drain\<rparr>"

definition RelayOptions_new :: "nat \<Rightarrow> half_close_policy \<Rightarrow> relay_options" where
  "RelayOptions_new buffer_size half_close = \<lparr>ro_buffer_size = buffer_size, ro_half_close = half_close\<rparr>"

text \<open>The error carries the requested size.\<close>

definition RelayOptions_try_new :: "nat \<Rightarrow> half_close_policy \<Rightarrow> nat + relay_options" where
  "RelayOptions_try_new buffer_size half_close =
    (if buffer_size = 0 then Err buffer_size else Ok \<lparr>ro_buffer_size = buffer_size, ro_half_close = half_close\<rparr>)"

definition RelayOptions_bounded :: "nat \<Rightarrow> nat \<Rightarrow> relay_options" where
  "RelayOptions_bounded buffer_size drain_for = \<lparr>ro_buffer_size = buffer_size, ro_half_close = DrainFor drain_for\<rparr>"

datatype relay_side = Side_Client | Side_Server

datatype relay_termination = ClientClosed | ServerClosed | DrainTimedOut relay_side

record relay_report =
  rr_bytes_upstream :: nat
  rr_bytes_downstream :: nat
  rr_termination :: relay_termination

datatype relay_direction = Upstream_Direction | Downstream_Direction

record relay_failure =
  rx_direction :: relay_direction
  rx_source :: io_kind
  rx_bytes_upstream :: nat
  rx_bytes_downstream :: nat

subsection \<open>Both directions\<close>

record relay_future =
  rf_client :: "source \<times> relay_sink"
  rf_server :: "source \<times> relay_sink"
  rf_upstream :: direction_state
  rf_downstream :: direction_state
  rf_half_close :: half_close_policy
  rf_first_closed :: "relay_side option"
  rf_deadline :: bool

definition RelayFuture_new :: "source \<times> relay_sink \<Rightarrow> source \<times> relay_sink \<Rightarrow> relay_options \<Rightarrow> relay_future" where
  "RelayFuture_new client server options =
    \<lparr>rf_client = client, rf_server = server,
     rf_upstream = DirectionState_new (ro_buffer_size options), rf_downstream = DirectionState_new (ro_buffer_size options),
     rf_half_close = ro_half_close options, rf_first_closed = None, rf_deadline = False\<rparr>"

definition start_drain :: "relay_side \<Rightarrow> relay_future \<Rightarrow> relay_future" where
  "start_drain first_closed f =
    f\<lparr>rf_first_closed := Some first_closed, rf_deadline := (case rf_half_close f of DrainFor _ \<Rightarrow> True | Drain \<Rightarrow> rf_deadline f)\<rparr>"

text \<open>The two calls of \<^verbatim>\<open>poll_direction\<close> on the future's own streams and states.\<close>

definition poll_upstream :: "relay_future \<Rightarrow> direction_poll ready \<times> relay_future" where
  "poll_upstream f =
    (case poll_direction (fst (rf_client f)) (snd (rf_server f)) (rf_upstream f) of
       (p, r, w, st) \<Rightarrow>
         (p, f\<lparr>rf_client := (r, snd (rf_client f)), rf_server := (fst (rf_server f), w), rf_upstream := st\<rparr>))"

definition poll_downstream :: "relay_future \<Rightarrow> direction_poll ready \<times> relay_future" where
  "poll_downstream f =
    (case poll_direction (fst (rf_server f)) (snd (rf_client f)) (rf_downstream f) of
       (p, r, w, st) \<Rightarrow>
         (p, f\<lparr>rf_server := (r, snd (rf_server f)), rf_client := (fst (rf_client f), w), rf_downstream := st\<rparr>))"

definition relay_fails :: "relay_direction \<Rightarrow> io_kind \<Rightarrow> relay_future \<Rightarrow> relay_failure" where
  "relay_fails direction source f =
    \<lparr>rx_direction = direction, rx_source = source, rx_bytes_upstream = ds_bytes (rf_upstream f),
     rx_bytes_downstream = ds_bytes (rf_downstream f)\<rparr>"

definition relay_ends :: "relay_termination \<Rightarrow> relay_future \<Rightarrow> relay_report" where
  "relay_ends termination f =
    \<lparr>rr_bytes_upstream = ds_bytes (rf_upstream f), rr_bytes_downstream = ds_bytes (rf_downstream f),
     rr_termination = termination\<rparr>"

type_synonym relay_poll = "(relay_failure + relay_report) ready \<times> relay_future"

text \<open>The phase before one side has closed: a failure, or the future with which to go on.\<close>

definition poll_open :: "relay_future \<Rightarrow> relay_failure option \<times> relay_future" where
  "poll_open f =
    (case poll_upstream f of
       (Now (Failed e), f1) \<Rightarrow> (Some (relay_fails Upstream_Direction e f1), f1)
     | (Now Complete, f1) \<Rightarrow> (None, start_drain Side_Client f1)
     | (_, f1) \<Rightarrow>
         (case poll_downstream f1 of
            (Now (Failed e), f2) \<Rightarrow> (Some (relay_fails Downstream_Direction e f2), f2)
          | (Now Complete, f2) \<Rightarrow> (None, start_drain Side_Server f2)
          | (_, f2) \<Rightarrow> (None, f2)))"

text \<open>The phase after it; \<open>fired\<close> says whether the deadline has passed.\<close>

definition poll_drain :: "bool \<Rightarrow> relay_side \<Rightarrow> relay_future \<Rightarrow> relay_poll" where
  "poll_drain fired first_closed f =
    (if rf_deadline f \<and> fired then (Now (Ok (relay_ends (DrainTimedOut first_closed) f)), f)
     else (case (case first_closed of Side_Client \<Rightarrow> poll_downstream f | Side_Server \<Rightarrow> poll_upstream f) of
             (Now Complete, f1) \<Rightarrow>
               (Now (Ok (relay_ends (case first_closed of Side_Client \<Rightarrow> ClientClosed | Side_Server \<Rightarrow> ServerClosed) f1)), f1)
           | (Now (Failed e), f1) \<Rightarrow>
               (Now (Err (relay_fails (case first_closed of Side_Client \<Rightarrow> Downstream_Direction
                                       | Side_Server \<Rightarrow> Upstream_Direction) e f1)), f1)
           | (_, f1) \<Rightarrow> (Later, f1)))"

definition RelayFuture_poll :: "bool \<Rightarrow> relay_future \<Rightarrow> relay_poll" where
  "RelayFuture_poll fired f =
    (case (if rf_first_closed f = None then poll_open f else (None, f)) of
       (Some e, f1) \<Rightarrow> (Now (Err e), f1)
     | (None, f1) \<Rightarrow>
         (case rf_first_closed f1 of
            None \<Rightarrow> (Later, f1)
          | Some first_closed \<Rightarrow> poll_drain fired first_closed f1))"

text \<open>The future as a task: polled until it is ready, with the state of the deadline at each poll.\<close>

fun run_relay :: "bool list \<Rightarrow> relay_future \<Rightarrow> (relay_failure + relay_report) option \<times> relay_future" where
  "run_relay [] f = (None, f)"
| "run_relay (fired # ts) f =
    (case RelayFuture_poll fired f of
       (Now res, f1) \<Rightarrow> (Some res, f1)
     | (Later, f1) \<Rightarrow> run_relay ts f1)"

definition relay_with_options ::
  "bool list \<Rightarrow> source \<times> relay_sink \<Rightarrow> source \<times> relay_sink \<Rightarrow> relay_options \<Rightarrow> (relay_failure + relay_report) option \<times> relay_future" where
  "relay_with_options ts client server options = run_relay ts (RelayFuture_new client server options)"

definition relay_default ::
  "bool list \<Rightarrow> source \<times> relay_sink \<Rightarrow> source \<times> relay_sink \<Rightarrow> (relay_failure + relay_report) option \<times> relay_future" where
  "relay_default ts client server = relay_with_options ts client server RelayOptions_default"

subsection \<open>The facade\<close>

datatype termination_reason = Reason_ClientClosed | Reason_ServerClosed | Reason_BothClosed | Reason_Error

record relay_result =
  rl_bytes_upstream :: nat
  rl_bytes_downstream :: nat
  rl_reason :: termination_reason

definition legacy_options :: relay_options where
  "legacy_options = \<lparr>ro_buffer_size = 64 * 1024, ro_half_close = DrainFor 1\<rparr>"

fun map_termination :: "relay_termination \<Rightarrow> termination_reason" where
  "map_termination ClientClosed = Reason_ClientClosed"
| "map_termination ServerClosed = Reason_ServerClosed"
| "map_termination (DrainTimedOut Side_Client) = Reason_ClientClosed"
| "map_termination (DrainTimedOut Side_Server) = Reason_ServerClosed"

fun relay_outcome :: "relay_failure + relay_report \<Rightarrow> relay_result" where
  "relay_outcome (Inr report) =
    \<lparr>rl_bytes_upstream = rr_bytes_upstream report, rl_bytes_downstream = rr_bytes_downstream report,
     rl_reason = map_termination (rr_termination report)\<rparr>"
| "relay_outcome (Inl failure) =
    \<lparr>rl_bytes_upstream = rx_bytes_upstream failure, rl_bytes_downstream = rx_bytes_downstream failure,
     rl_reason = Reason_Error\<rparr>"

definition relay :: "bool list \<Rightarrow> source \<times> relay_sink \<Rightarrow> source \<times> relay_sink \<Rightarrow> relay_result option \<times> relay_future" where
  "relay ts client server =
    (case relay_with_options ts client server legacy_options of (res, f) \<Rightarrow> (map_option relay_outcome res, f))"

subsection \<open>Nothing is lost, repeated or added\<close>

fun avail :: "source \<Rightarrow> u8 list" where
  "avail [] = []"
| "avail (Avail bs # es) = bs @ avail es"
| "avail (_ # es) = avail es"

text \<open>What is still on its way in one direction: the unwritten part of the buffer and the data to come.\<close>

definition pend :: "source \<Rightarrow> direction_state \<Rightarrow> u8 list" where
  "pend r st = drop (ds_write_pos st) (ds_data st) @ avail r"

definition wf_direction :: "direction_state \<Rightarrow> bool" where
  "wf_direction st \<longleftrightarrow> ds_write_pos st \<le> length (ds_data st) \<and> 0 < ds_size st \<and> (ds_eof st \<longrightarrow> ds_data st = [])"

text \<open>\<open>sent r w st r' w' st'\<close>: some bytes left the direction for the relay_sink, in order, and were counted.\<close>

definition sent :: "source \<Rightarrow> relay_sink \<Rightarrow> direction_state \<Rightarrow> source \<Rightarrow> relay_sink \<Rightarrow> direction_state \<Rightarrow> bool" where
  "sent r w st r' w' st' \<longleftrightarrow>
    (\<exists>bs. pend r st = bs @ pend r' st' \<and> sk_out w' = sk_out w @ bs \<and> ds_bytes st' = ds_bytes st + length bs)"

lemma sent_refl: "sent r w st r w st"
  by (simp add: sent_def)

lemma sent_trans: "sent r w st r1 w1 st1 \<Longrightarrow> sent r1 w1 st1 r2 w2 st2 \<Longrightarrow> sent r w st r2 w2 st2"
  unfolding sent_def by (metis append.assoc add.assoc length_append)

lemma poll_read_flow:
  assumes "poll_read n r = (p, r')" "0 < n"
  shows "avail r = (case p of Now (Inr bs) \<Rightarrow> bs | _ \<Rightarrow> []) @ avail r'"
  using assms by (cases "(n, r)" rule: poll_read.cases) (auto split: if_splits)

lemma poll_write_flow:
  assumes "poll_write bs w = (p, w')"
  shows "sk_out w' = sk_out w @ (case p of Now (Inr n) \<Rightarrow> take n bs | _ \<Rightarrow> []) \<and>
    (case p of Now (Inr n) \<Rightarrow> n \<le> length bs | _ \<Rightarrow> True)"
  using assms by (auto simp: poll_write_def min_def split: list.splits sink_event.splits)

lemma poll_shutdown_out: "poll_shutdown w = (p, w') \<Longrightarrow> sk_out w' = sk_out w"
  by (auto simp: poll_shutdown_def split: list.splits shut_event.splits)

lemma finish_direction_flow:
  assumes "finish_direction r w st = (p, r', w', st')"
  shows "r' = r \<and> sk_out w' = sk_out w \<and> (\<exists>b. st' = st\<lparr>ds_shutdown_complete := b\<rparr>)"
  using assms poll_shutdown_out [of w]
  by (auto simp: finish_direction_def split: if_splits prod.splits ready.splits sum.splits)
    (metis direction_state.surjective direction_state.update_convs(6))+

lemma reset_buffer_wf:
  assumes "wf_direction st" "\<not> ds_write_pos st < length (ds_data st)"
  shows "wf_direction (reset_buffer st)" "pend r (reset_buffer st) = pend r st" "ds_bytes (reset_buffer st) = ds_bytes st"
    "ds_data (reset_buffer st) = []" "ds_write_pos (reset_buffer st) = 0" "ds_eof (reset_buffer st) = ds_eof st"
    "ds_size (reset_buffer st) = ds_size st" "ds_shutdown_complete (reset_buffer st) = ds_shutdown_complete st"
  using assms by (auto simp: reset_buffer_def wf_direction_def pend_def)

lemma direction_steps_flow:
  "direction_steps k mp r w st = (p, r', w', st') \<Longrightarrow> wf_direction st \<Longrightarrow>
    wf_direction st' \<and> sent r w st r' w' st' \<and> (p = Now Complete \<longrightarrow> ds_eof st')"
proof (induction k arbitrary: mp r w st)
  case 0
  then show ?case by (auto simp: sent_refl split: if_splits)
next
  case (Suc k)
  note wf = Suc.prems(2)
  show ?case
  proof (cases "ds_write_pos st < length (ds_data st)")
    case True
    let ?bs = "drop (ds_write_pos st) (ds_data st)"
    obtain q w1 where q: "poll_write ?bs w = (q, w1)" by fastforce
    note fl = poll_write_flow [OF q]
    show ?thesis
    proof (cases "\<exists>n. q = Now (Inr n) \<and> n \<noteq> 0")
      case True
      then obtain n where n: "q = Now (Ok n)" "n \<noteq> 0" by blast
      let ?st = "st\<lparr>ds_write_pos := ds_write_pos st + n, ds_bytes := ds_bytes st + n\<rparr>"
      have le: "n \<le> length ?bs" using fl n by simp
      have "sent r w st r w1 ?st"
        using fl n le by (auto simp: sent_def pend_def intro!: exI [of _ "take n ?bs"]) (metis append_take_drop_id drop_drop add.commute)
      moreover have "wf_direction ?st" using wf le \<open>ds_write_pos st < length (ds_data st)\<close> by (auto simp: wf_direction_def)
      moreover have "direction_steps k True r w1 ?st = (p, r', w', st')"
        using Suc.prems(1) q n \<open>ds_write_pos st < length (ds_data st)\<close> by simp
      ultimately show ?thesis using Suc.IH [of True r w1 ?st] sent_trans by blast
    next
      case False
      then have "r' = r" "w' = w1" "st' = st" "p \<noteq> Now Complete" "sk_out w1 = sk_out w"
        using Suc.prems(1) q \<open>ds_write_pos st < length (ds_data st)\<close> fl
        by (auto split: ready.splits sum.splits if_splits)
      with wf show ?thesis by (simp add: sent_def)
    qed
  next
    case False
    let ?st = "reset_buffer st"
    note rs = reset_buffer_wf [OF wf False]
    show ?thesis
    proof (cases "ds_eof st")
      case True
      then have "finish_direction r w ?st = (p, r', w', st')" using Suc.prems(1) False rs by (simp add: Let_def)
      from finish_direction_flow [OF this] rs True show ?thesis by (auto simp: sent_def pend_def wf_direction_def)
    next
      case noeof: False
      obtain q r1 where q: "poll_read (ds_size st) r = (q, r1)" by fastforce
      have "0 < ds_size st" using wf by (simp add: wf_direction_def)
      note fl = poll_read_flow [OF q this]
      show ?thesis
      proof (cases "\<exists>bs. q = Now (Inr bs)")
        case True
        then obtain bs where bs: "q = Now (Ok bs)" by blast
        let ?st1 = "if bs = [] then ?st\<lparr>ds_data := [], ds_eof := True\<rparr> else ?st\<lparr>ds_data := bs\<rparr>"
        have "sent r w st r1 w ?st1"
          using fl bs rs(2) [of r] rs by (auto simp: sent_def pend_def)
        moreover have "wf_direction ?st1" using rs noeof by (auto simp: wf_direction_def)
        moreover have "direction_steps k (if bs = [] then mp else True) r1 w ?st1 = (p, r', w', st')"
          using Suc.prems(1) q bs False noeof rs by (simp add: Let_def split: if_splits)
        ultimately show ?thesis using Suc.IH sent_trans by blast
      next
        case no: False
        then have "r' = r1" "w' = w" "st' = ?st" "p \<noteq> Now Complete" "avail r = avail r1"
          using Suc.prems(1) q False noeof rs fl by (auto simp: Let_def split: ready.splits sum.splits)
        with rs(1,3) rs(2) [of r] show ?thesis by (auto simp: sent_def pend_def)
      qed
    qed
  qed
qed

subsection \<open>Progress\<close>

text \<open>Transports that block and split as they like, but do not fail; a shutdown may find the peer gone.\<close>

fun healthy_read :: "read_event \<Rightarrow> bool" where
  "healthy_read (Avail bs) \<longleftrightarrow> bs \<noteq> []"
| "healthy_read Read_Blocks \<longleftrightarrow> True"
| "healthy_read (Read_Fails _) \<longleftrightarrow> False"

fun healthy_write :: "sink_event \<Rightarrow> bool" where
  "healthy_write (Takes n) \<longleftrightarrow> 0 < n"
| "healthy_write Write_Blocks \<longleftrightarrow> True"
| "healthy_write (Write_Fails _) \<longleftrightarrow> False"

fun healthy_shut :: "shut_event \<Rightarrow> bool" where
  "healthy_shut Shut_Blocks \<longleftrightarrow> True"
| "healthy_shut (Shut_Fails k) \<longleftrightarrow> k = Kind_BrokenPipe \<or> k = Kind_ConnectionReset"

definition healthy :: "source \<Rightarrow> relay_sink \<Rightarrow> direction_state \<Rightarrow> bool" where
  "healthy r w st \<longleftrightarrow> list_all healthy_read r \<and> list_all healthy_write (sk_writes w) \<and> list_all healthy_shut (sk_shuts w) \<and>
    wf_direction st \<and> (ds_eof st \<longrightarrow> r = [])"

definition to_do :: "source \<Rightarrow> relay_sink \<Rightarrow> direction_state \<Rightarrow> nat" where
  "to_do r w st =
    2 * length (avail r) + length r + (length (ds_data st) - ds_write_pos st) + length (sk_writes w) + length (sk_shuts w) +
    (if ds_eof st then 0 else 1) + (if ds_shutdown_complete st then 0 else 1)"

lemma healthy_poll_read:
  assumes "list_all healthy_read r" "poll_read n r = (p, r')" "0 < n"
  shows "list_all healthy_read r'" "p = Later \<or> (\<exists>bs. p = Now (Ok bs))"
    "p = Later \<Longrightarrow> 2 * length (avail r') + length r' < 2 * length (avail r) + length r"
    "p = Now (Ok bs) \<Longrightarrow> bs \<noteq> [] \<Longrightarrow> 2 * length (avail r') + length r' + length bs < 2 * length (avail r) + length r"
    "p = Now (Ok []) \<Longrightarrow> r = [] \<and> r' = []"
  using assms by (cases "(n, r)" rule: poll_read.cases; auto split: if_splits)+

lemma healthy_poll_write:
  assumes "list_all healthy_write (sk_writes w)" "poll_write bs w = (p, w')" "bs \<noteq> []"
  shows "list_all healthy_write (sk_writes w')" "sk_shuts w' = sk_shuts w" "length (sk_writes w') \<le> length (sk_writes w)"
    "p = Later \<or> (\<exists>n. p = Now (Ok n) \<and> 0 < n \<and> n \<le> length bs)"
    "p = Later \<Longrightarrow> length (sk_writes w') < length (sk_writes w)"
  using assms by (auto simp: poll_write_def split: list.splits sink_event.splits)

lemma healthy_finish:
  assumes "list_all healthy_shut (sk_shuts w)" "finish_direction r w st = (p, r', w', st')" "\<not> ds_shutdown_complete st"
  shows "list_all healthy_shut (sk_shuts w')" "sk_writes w' = sk_writes w" "r' = r"
    "p = Later \<and> st' = st \<and> length (sk_shuts w') < length (sk_shuts w) \<or>
     p = Now Complete \<and> st' = st\<lparr>ds_shutdown_complete := True\<rparr> \<and> length (sk_shuts w') \<le> length (sk_shuts w)"
  using assms
  by (auto simp: finish_direction_def poll_shutdown_def split: list.splits shut_event.splits if_splits)

lemma direction_steps_progress:
  "direction_steps k mp r w st = (p, r', w', st') \<Longrightarrow> healthy r w st \<Longrightarrow> \<not> ds_shutdown_complete st \<Longrightarrow>
    healthy r' w' st' \<and> (p \<in> {Later, Now Progress} \<and> \<not> ds_shutdown_complete st' \<or> p = Now Complete \<and> ds_shutdown_complete st') \<and>
    to_do r' w' st' + (if k = 0 then 0 else 1) \<le> to_do r w st"
proof (induction k arbitrary: mp r w st)
  case 0
  then show ?case by (auto split: if_splits)
next
  case (Suc k)
  note h = Suc.prems(2) [unfolded healthy_def]
  have wf: "wf_direction st" using h by blast
  show ?case
  proof (cases "ds_write_pos st < length (ds_data st)")
    case True
    let ?bs = "drop (ds_write_pos st) (ds_data st)"
    obtain q w1 where q: "poll_write ?bs w = (q, w1)" by fastforce
    have ne: "?bs \<noteq> []" using True by simp
    note hw = healthy_poll_write [OF _ q ne]
    consider "q = Later" | n where "q = Now (Ok n)" "0 < n" "n \<le> length ?bs" using hw(4) h by blast
    then show ?thesis
    proof cases
      case 1
      then have "r' = r" "w' = w1" "st' = st" "p = Later" using Suc.prems(1) q True by simp_all
      with 1 hw h Suc.prems(3) show ?thesis by (simp add: healthy_def to_do_def)
    next
      case (2 n)
      let ?st = "st\<lparr>ds_write_pos := ds_write_pos st + n, ds_bytes := ds_bytes st + n\<rparr>"
      have "healthy r w1 ?st" using hw h 2 by (auto simp: healthy_def wf_direction_def)
      moreover have "direction_steps k True r w1 ?st = (p, r', w', st')" using Suc.prems(1) q 2 True by simp
      moreover have "to_do r w1 ?st < to_do r w st" using 2 hw(2,3) h by (simp add: to_do_def)
      ultimately show ?thesis using Suc.IH [of True r w1 ?st] Suc.prems(3) by (auto split: if_splits)
    qed
  next
    case False
    let ?st = "reset_buffer st"
    note rs = reset_buffer_wf [OF wf False]
    show ?thesis
    proof (cases "ds_eof st")
      case True
      then have f: "finish_direction r w ?st = (p, r', w', st')" using Suc.prems(1) False rs by (simp add: Let_def)
      have "\<not> ds_shutdown_complete ?st" using Suc.prems(3) rs by simp
      note hf = healthy_finish [OF _ f this]
      have sh: "list_all healthy_shut (sk_shuts w)" using h by blast
      from hf(4) [OF sh] show ?thesis
        using hf(1-3) [OF sh] h rs Suc.prems(3) by (auto simp: healthy_def to_do_def wf_direction_def)
    next
      case noeof: False
      obtain q r1 where q: "poll_read (ds_size st) r = (q, r1)" by fastforce
      have "0 < ds_size st" using wf by (simp add: wf_direction_def)
      note hr = healthy_poll_read [OF _ q this]
      consider "q = Later" | bs where "q = Now (Ok bs)" using hr(2) h by blast
      then show ?thesis
      proof cases
        case 1
        then have "r' = r1" "w' = w" "st' = ?st" "p = Later" using Suc.prems(1) q False noeof rs by (simp_all add: Let_def)
        moreover have "2 * length (avail r1) + length r1 < 2 * length (avail r) + length r" using hr(3) 1 h by blast
        ultimately show ?thesis using 1 hr(1) h rs Suc.prems(3) noeof by (simp add: healthy_def to_do_def)
      next
        case (2 bs)
        let ?st1 = "if bs = [] then ?st\<lparr>ds_data := [], ds_eof := True\<rparr> else ?st\<lparr>ds_data := bs\<rparr>"
        have "healthy r1 w ?st1" using hr h 2 rs noeof by (auto simp: healthy_def wf_direction_def)
        moreover have "direction_steps k (if bs = [] then mp else True) r1 w ?st1 = (p, r', w', st')"
          using Suc.prems(1) q 2 False noeof rs by (simp add: Let_def split: if_splits)
        moreover have "to_do r1 w ?st1 < to_do r w st"
        proof (cases "bs = []")
          case True
          with hr(5) 2 h have "r = []" "r1 = []" by auto
          with True noeof rs False show ?thesis by (simp add: to_do_def)
        next
          case ne: False
          have "2 * length (avail r1) + length r1 + length bs < 2 * length (avail r) + length r" using hr(4) 2 ne h by blast
          with ne noeof rs show ?thesis by (simp add: to_do_def)
        qed
        moreover have "\<not> ds_shutdown_complete ?st1" using Suc.prems(3) rs by simp
        ultimately show ?thesis using Suc.IH by (fastforce split: if_splits)
      qed
    qed
  qed
qed

subsection \<open>Both directions together\<close>

lemma poll_upstream_flow:
  assumes "poll_upstream f = (p, f')" "wf_direction (rf_upstream f)"
  shows "wf_direction (rf_upstream f')"
    "sent (fst (rf_client f)) (snd (rf_server f)) (rf_upstream f) (fst (rf_client f')) (snd (rf_server f')) (rf_upstream f')"
    "p = Now Complete \<Longrightarrow> ds_eof (rf_upstream f')"
    "snd (rf_client f') = snd (rf_client f)" "fst (rf_server f') = fst (rf_server f)" "rf_downstream f' = rf_downstream f"
    "rf_first_closed f' = rf_first_closed f" "rf_deadline f' = rf_deadline f" "rf_half_close f' = rf_half_close f"
  using assms direction_steps_flow [of 16 False "fst (rf_client f)" "snd (rf_server f)" "rf_upstream f"]
  by (auto simp: poll_upstream_def poll_direction_def split: prod.splits)

lemma poll_downstream_flow:
  assumes "poll_downstream f = (p, f')" "wf_direction (rf_downstream f)"
  shows "wf_direction (rf_downstream f')"
    "sent (fst (rf_server f)) (snd (rf_client f)) (rf_downstream f) (fst (rf_server f')) (snd (rf_client f')) (rf_downstream f')"
    "p = Now Complete \<Longrightarrow> ds_eof (rf_downstream f')"
    "snd (rf_server f') = snd (rf_server f)" "fst (rf_client f') = fst (rf_client f)" "rf_upstream f' = rf_upstream f"
    "rf_first_closed f' = rf_first_closed f" "rf_deadline f' = rf_deadline f" "rf_half_close f' = rf_half_close f"
  using assms direction_steps_flow [of 16 False "fst (rf_server f)" "snd (rf_client f)" "rf_downstream f"]
  by (auto simp: poll_downstream_def poll_direction_def split: prod.splits)

text \<open>\<open>flows f f'\<close>: from \<open>f\<close> to \<open>f'\<close> bytes left both directions in order and were counted.\<close>

definition flows :: "relay_future \<Rightarrow> relay_future \<Rightarrow> bool" where
  "flows f f' \<longleftrightarrow> wf_direction (rf_upstream f') \<and> wf_direction (rf_downstream f') \<and>
    sent (fst (rf_client f)) (snd (rf_server f)) (rf_upstream f) (fst (rf_client f')) (snd (rf_server f')) (rf_upstream f') \<and>
    sent (fst (rf_server f)) (snd (rf_client f)) (rf_downstream f) (fst (rf_server f')) (snd (rf_client f')) (rf_downstream f')"

lemma flows_trans: "flows f f1 \<Longrightarrow> flows f1 f2 \<Longrightarrow> flows f f2"
  unfolding flows_def using sent_trans by blast

lemma flows_upstream: "flows f0 f \<Longrightarrow> poll_upstream f = (p, f') \<Longrightarrow> flows f0 f'"
  using poll_upstream_flow [of f p f'] sent_trans by (auto simp: flows_def)

lemma flows_downstream: "flows f0 f \<Longrightarrow> poll_downstream f = (p, f') \<Longrightarrow> flows f0 f'"
  using poll_downstream_flow [of f p f'] sent_trans by (auto simp: flows_def)

lemma flows_start_drain [simp]: "flows f0 (start_drain s f) \<longleftrightarrow> flows f0 f"
  by (simp add: flows_def start_drain_def)

lemma flows_poll_open:
  assumes "flows f0 f" "poll_open f = (e, f')"
  shows "flows f0 f' \<and> (\<forall>x. e = Some x \<longrightarrow> (\<exists>d k. x = relay_fails d k f'))"
proof -
  obtain p f1 where u: "poll_upstream f = (p, f1)" by fastforce
  note f1 = flows_upstream [OF assms(1) u]
  obtain q f2 where d: "poll_downstream f1 = (q, f2)" by fastforce
  note f2 = flows_downstream [OF f1 d]
  show ?thesis
    using assms(2) f1 f2 u d by (auto simp: poll_open_def split: ready.splits direction_poll.splits)
qed

lemma flows_poll_drain:
  assumes "flows f0 f" "poll_drain fired s f = (res, f')"
  shows "flows f0 f' \<and>
    (\<forall>x. res = Now x \<longrightarrow> (\<exists>d k. x = Err (relay_fails d k f')) \<or> (\<exists>t. x = Ok (relay_ends t f')))"
proof -
  obtain p f1 where pl: "(case s of Side_Client \<Rightarrow> poll_downstream f | Side_Server \<Rightarrow> poll_upstream f) = (p, f1)" by fastforce
  have "flows f0 f1" using pl flows_upstream [OF assms(1)] flows_downstream [OF assms(1)] by (cases s) auto
  with assms pl show ?thesis
    by (auto simp: poll_drain_def split: if_splits ready.splits direction_poll.splits)
qed

lemma flows_poll:
  assumes "flows f0 f" "RelayFuture_poll fired f = (res, f')"
  shows "flows f0 f' \<and>
    (\<forall>x. res = Now x \<longrightarrow> (\<exists>d k. x = Err (relay_fails d k f')) \<or> (\<exists>t. x = Ok (relay_ends t f')))"
proof -
  obtain e f1 where o: "(if rf_first_closed f = None then poll_open f else (None, f)) = (e, f1)" by fastforce
  have f1: "flows f0 f1 \<and> (\<forall>x. e = Some x \<longrightarrow> (\<exists>d k. x = relay_fails d k f1))"
    using o flows_poll_open [OF assms(1)] assms(1) by (auto split: if_splits)
  show ?thesis
  proof (cases "e = None \<and> rf_first_closed f1 \<noteq> None")
    case True
    then obtain s where s: "e = None" "rf_first_closed f1 = Some s" by auto
    then have "poll_drain fired s f1 = (res, f')" using assms(2) o by (simp add: RelayFuture_poll_def)
    with flows_poll_drain f1 show ?thesis by blast
  next
    case False
    then show ?thesis using assms(2) o f1 by (auto simp: RelayFuture_poll_def split: option.splits)
  qed
qed

lemma flows_run:
  "run_relay ts f = (res, f') \<Longrightarrow> flows f0 f \<Longrightarrow>
    flows f0 f' \<and> (\<forall>x. res = Some x \<longrightarrow> (\<exists>d k. x = Err (relay_fails d k f')) \<or> (\<exists>t. x = Ok (relay_ends t f')))"
proof (induction ts arbitrary: f)
  case (Cons t ts)
  obtain p f1 where p: "RelayFuture_poll t f = (p, f1)" by fastforce
  note f1 = flows_poll [OF Cons.prems(2) p]
  show ?case
  proof (cases p)
    case (Now x)
    with Cons.prems(1) p f1 show ?thesis by auto
  next
    case Later
    with Cons p f1 show ?thesis by auto
  qed
qed simp

lemma flows_new: "0 < ro_buffer_size options \<Longrightarrow> flows (RelayFuture_new client server options) (RelayFuture_new client server options)"
  by (simp add: flows_def RelayFuture_new_def DirectionState_new_def wf_direction_def sent_refl)

definition counts_up :: "relay_failure + relay_report \<Rightarrow> nat" where
  "counts_up x = (case x of Inl e \<Rightarrow> rx_bytes_upstream e | Inr r \<Rightarrow> rr_bytes_upstream r)"

definition counts_down :: "relay_failure + relay_report \<Rightarrow> nat" where
  "counts_down x = (case x of Inl e \<Rightarrow> rx_bytes_downstream e | Inr r \<Rightarrow> rr_bytes_downstream r)"

text \<open>
  The relay is faithful under every schedule. Whatever the two transports do, data and blocking in
  any pattern, writes of any size, failures of either side at any time, an expired drain deadline: at
  every moment the bytes written to each side are a prefix of the bytes the other side sent, in order, and
  the counts reported at the end, by a success and by a failure alike, are the numbers of these bytes.
\<close>
lemma relay_faithful:
  assumes "relay_with_options ts client server options = (res, f)" "0 < ro_buffer_size options"
  shows "\<exists>up down rest_up rest_down.
    sk_out (snd (rf_server f)) = sk_out (snd server) @ up \<and> avail (fst client) = up @ rest_up \<and>
    sk_out (snd (rf_client f)) = sk_out (snd client) @ down \<and> avail (fst server) = down @ rest_down \<and>
    (case res of None \<Rightarrow> True | Some x \<Rightarrow> counts_up x = length up \<and> counts_down x = length down)"
proof -
  let ?f0 = "RelayFuture_new client server options"
  have r: "run_relay ts ?f0 = (res, f)" using assms(1) by (simp add: relay_with_options_def)
  note fl = flows_run [OF r flows_new [OF assms(2)]]
  obtain up where up: "pend (fst client) (rf_upstream ?f0) = up @ pend (fst (rf_client f)) (rf_upstream f)"
    "sk_out (snd (rf_server f)) = sk_out (snd server) @ up" "ds_bytes (rf_upstream f) = length up"
    using fl by (auto simp: flows_def sent_def RelayFuture_new_def DirectionState_new_def)
  obtain down where down: "pend (fst server) (rf_downstream ?f0) = down @ pend (fst (rf_server f)) (rf_downstream f)"
    "sk_out (snd (rf_client f)) = sk_out (snd client) @ down" "ds_bytes (rf_downstream f) = length down"
    using fl by (auto simp: flows_def sent_def RelayFuture_new_def DirectionState_new_def)
  have "avail (fst client) = up @ pend (fst (rf_client f)) (rf_upstream f)"
    "avail (fst server) = down @ pend (fst (rf_server f)) (rf_downstream f)"
    using up(1) down(1) by (simp_all add: pend_def RelayFuture_new_def DirectionState_new_def)
  moreover have "case res of None \<Rightarrow> True | Some x \<Rightarrow> counts_up x = length up \<and> counts_down x = length down"
    using fl up(3) down(3)
    by (auto simp: counts_up_def counts_down_def relay_fails_def relay_ends_def split: option.split)
  ultimately show ?thesis using up(2) down(2) by blast
qed

subsection \<open>The relay ends\<close>

text \<open>Where a future stands: which directions are shut down, and that none of its transports fails.\<close>

definition relay_inv :: "relay_future \<Rightarrow> bool" where
  "relay_inv f \<longleftrightarrow>
    healthy (fst (rf_client f)) (snd (rf_server f)) (rf_upstream f) \<and>
    healthy (fst (rf_server f)) (snd (rf_client f)) (rf_downstream f) \<and>
    (case rf_first_closed f of
       None \<Rightarrow> \<not> ds_shutdown_complete (rf_upstream f) \<and> \<not> ds_shutdown_complete (rf_downstream f)
     | Some Side_Client \<Rightarrow> ds_eof (rf_upstream f) \<and> \<not> ds_shutdown_complete (rf_downstream f)
     | Some Side_Server \<Rightarrow> ds_eof (rf_downstream f) \<and> \<not> ds_shutdown_complete (rf_upstream f))"

definition relay_to_do :: "relay_future \<Rightarrow> nat" where
  "relay_to_do f =
    to_do (fst (rf_client f)) (snd (rf_server f)) (rf_upstream f) +
    to_do (fst (rf_server f)) (snd (rf_client f)) (rf_downstream f)"

definition relay_done :: "relay_future \<Rightarrow> bool" where
  "relay_done f \<longleftrightarrow> pend (fst (rf_client f)) (rf_upstream f) = [] \<and> pend (fst (rf_server f)) (rf_downstream f) = []"

lemma healthy_eof_pend: "healthy r w st \<Longrightarrow> ds_eof st \<Longrightarrow> pend r st = []"
  by (auto simp: healthy_def wf_direction_def pend_def)

lemma poll_upstream_progress:
  assumes "poll_upstream f = (p, f')" "\<not> ds_shutdown_complete (rf_upstream f)"
    "healthy (fst (rf_client f)) (snd (rf_server f)) (rf_upstream f)"
  shows "healthy (fst (rf_client f')) (snd (rf_server f')) (rf_upstream f')"
    "p \<in> {Later, Now Progress} \<and> \<not> ds_shutdown_complete (rf_upstream f') \<or> p = Now Complete \<and> ds_eof (rf_upstream f')"
    "to_do (fst (rf_client f')) (snd (rf_server f')) (rf_upstream f') < to_do (fst (rf_client f)) (snd (rf_server f)) (rf_upstream f)"
  using assms(1) direction_steps_progress [OF _ assms(3,2), of 16 False] poll_upstream_flow(3) [OF assms(1)] assms(3)
  by (auto simp: poll_upstream_def poll_direction_def healthy_def split: prod.splits)

lemma poll_downstream_progress:
  assumes "poll_downstream f = (p, f')" "\<not> ds_shutdown_complete (rf_downstream f)"
    "healthy (fst (rf_server f)) (snd (rf_client f)) (rf_downstream f)"
  shows "healthy (fst (rf_server f')) (snd (rf_client f')) (rf_downstream f')"
    "p \<in> {Later, Now Progress} \<and> \<not> ds_shutdown_complete (rf_downstream f') \<or> p = Now Complete \<and> ds_eof (rf_downstream f')"
    "to_do (fst (rf_server f')) (snd (rf_client f')) (rf_downstream f') < to_do (fst (rf_server f)) (snd (rf_client f)) (rf_downstream f)"
  using assms(1) direction_steps_progress [OF _ assms(3,2), of 16 False] poll_downstream_flow(3) [OF assms(1)] assms(3)
  by (auto simp: poll_downstream_def poll_direction_def healthy_def split: prod.splits)

lemma start_drain_fields [simp]:
  "rf_client (start_drain s f) = rf_client f" "rf_server (start_drain s f) = rf_server f"
  "rf_upstream (start_drain s f) = rf_upstream f" "rf_downstream (start_drain s f) = rf_downstream f"
  "rf_first_closed (start_drain s f) = Some s"
  by (simp_all add: start_drain_def)

lemma poll_open_progress:
  assumes "relay_inv f" "rf_first_closed f = None" "poll_open f = (e, f')"
  shows "e = None \<and> relay_inv f' \<and> relay_to_do f' < relay_to_do f"
proof -
  have h: "healthy (fst (rf_client f)) (snd (rf_server f)) (rf_upstream f)" "\<not> ds_shutdown_complete (rf_upstream f)"
    "healthy (fst (rf_server f)) (snd (rf_client f)) (rf_downstream f)" "\<not> ds_shutdown_complete (rf_downstream f)"
    using assms(1,2) by (simp_all add: relay_inv_def)
  obtain p f1 where u: "poll_upstream f = (p, f1)" by fastforce
  note up = poll_upstream_progress [OF u h(2,1)]
  have fl: "wf_direction (rf_upstream f)" using h(1) by (simp add: healthy_def)
  note uf = poll_upstream_flow [OF u fl]
  show ?thesis
  proof (cases "p = Now Complete")
    case True
    with assms(3) u up uf h show ?thesis by (auto simp: poll_open_def relay_inv_def relay_to_do_def)
  next
    case False
    obtain q f2 where d: "poll_downstream f1 = (q, f2)" by fastforce
    have h1: "\<not> ds_shutdown_complete (rf_downstream f1)" "healthy (fst (rf_server f1)) (snd (rf_client f1)) (rf_downstream f1)"
      using h uf by simp_all
    note dn = poll_downstream_progress [OF d h1]
    have "wf_direction (rf_downstream f1)" using h1(2) by (simp add: healthy_def)
    note df = poll_downstream_flow [OF d this]
    have "f' = (if q = Now Complete then start_drain Side_Server f2 else f2) \<and> e = None"
      using assms(3) u d up(2) dn(2) False by (auto simp: poll_open_def)
    with up dn uf df h False assms(2) show ?thesis by (auto simp: relay_inv_def relay_to_do_def)
  qed
qed

lemma poll_drain_progress:
  assumes "relay_inv f" "rf_first_closed f = Some s" "poll_drain False s f = (res, f')"
  shows "res = Later \<and> relay_inv f' \<and> relay_to_do f' < relay_to_do f \<or>
    relay_done f' \<and> res = Now (Ok (relay_ends (case s of Side_Client \<Rightarrow> ClientClosed | Side_Server \<Rightarrow> ServerClosed) f'))"
proof (cases s)
  case Side_Client
  obtain p f1 where d: "poll_downstream f = (p, f1)" by fastforce
  have h: "healthy (fst (rf_client f)) (snd (rf_server f)) (rf_upstream f)" "ds_eof (rf_upstream f)"
    "healthy (fst (rf_server f)) (snd (rf_client f)) (rf_downstream f)" "\<not> ds_shutdown_complete (rf_downstream f)"
    using assms(1,2) Side_Client by (simp_all add: relay_inv_def)
  note dn = poll_downstream_progress [OF d h(4,3)]
  have "wf_direction (rf_downstream f)" using h(3) by (simp add: healthy_def)
  note df = poll_downstream_flow [OF d this]
  show ?thesis
    using assms(2,3) Side_Client d dn df h healthy_eof_pend
    by (auto simp: poll_drain_def relay_inv_def relay_to_do_def relay_done_def)
next
  case Side_Server
  obtain p f1 where u: "poll_upstream f = (p, f1)" by fastforce
  have h: "healthy (fst (rf_server f)) (snd (rf_client f)) (rf_downstream f)" "ds_eof (rf_downstream f)"
    "healthy (fst (rf_client f)) (snd (rf_server f)) (rf_upstream f)" "\<not> ds_shutdown_complete (rf_upstream f)"
    using assms(1,2) Side_Server by (simp_all add: relay_inv_def)
  note up = poll_upstream_progress [OF u h(4,3)]
  have "wf_direction (rf_upstream f)" using h(3) by (simp add: healthy_def)
  note uf = poll_upstream_flow [OF u this]
  show ?thesis
    using assms(2,3) Side_Server u up uf h healthy_eof_pend
    by (auto simp: poll_drain_def relay_inv_def relay_to_do_def relay_done_def)
qed

text \<open>The deadline exists only under a policy that sets one.\<close>

definition deadline_ok :: "half_close_policy \<Rightarrow> relay_future \<Rightarrow> bool" where
  "deadline_ok policy f \<longleftrightarrow> rf_half_close f = policy \<and> (rf_deadline f \<longrightarrow> policy \<noteq> Drain)"

lemma poll_keeps_deadline:
  "poll_upstream f = (p, f') \<Longrightarrow> deadline_ok policy f' = deadline_ok policy f"
  "poll_downstream f = (q, f') \<Longrightarrow> deadline_ok policy f' = deadline_ok policy f"
  "deadline_ok policy f \<Longrightarrow> deadline_ok policy (start_drain s f)"
  by (auto simp: poll_upstream_def poll_downstream_def start_drain_def deadline_ok_def split: prod.splits half_close_policy.splits)

lemma poll_open_deadline: "poll_open f = (e, f') \<Longrightarrow> deadline_ok policy f \<Longrightarrow> deadline_ok policy f'"
  by (auto simp: poll_open_def poll_keeps_deadline split: prod.splits ready.splits direction_poll.splits)

lemma poll_drain_deadline: "poll_drain fired s f = (res, f') \<Longrightarrow> deadline_ok policy f \<Longrightarrow> deadline_ok policy f'"
  by (auto simp: poll_drain_def poll_keeps_deadline split: prod.splits ready.splits direction_poll.splits if_splits relay_side.splits)

text \<open>
  How the relay may end: with both directions empty or, when a deadline was set and has passed, with the direction of the
  side that closed first empty.
\<close>

definition ended_well :: "half_close_policy \<Rightarrow> bool \<Rightarrow> relay_termination \<Rightarrow> relay_future \<Rightarrow> bool" where
  "ended_well policy fired t f \<longleftrightarrow>
    (case t of
       DrainTimedOut Side_Client \<Rightarrow> fired \<and> policy \<noteq> Drain \<and> pend (fst (rf_client f)) (rf_upstream f) = []
     | DrainTimedOut Side_Server \<Rightarrow> fired \<and> policy \<noteq> Drain \<and> pend (fst (rf_server f)) (rf_downstream f) = []
     | _ \<Rightarrow> relay_done f)"

lemma poll_drain_ends:
  assumes "relay_inv f" "deadline_ok policy f" "rf_first_closed f = Some s" "poll_drain fired s f = (res, f')"
  shows "res = Later \<and> relay_inv f' \<and> relay_to_do f' < relay_to_do f \<or>
    (\<exists>t. ended_well policy fired t f' \<and> res = Now (Ok (relay_ends t f')))"
proof (cases "rf_deadline f \<and> fired")
  case True
  with assms(4) have "f' = f" "res = Now (Ok (relay_ends (DrainTimedOut s) f'))" by (auto simp: poll_drain_def)
  moreover have "ended_well policy fired (DrainTimedOut s) f"
    using True assms(1-3) healthy_eof_pend by (cases s) (auto simp: ended_well_def relay_inv_def deadline_ok_def)
  ultimately show ?thesis by blast
next
  case False
  then have "poll_drain False s f = (res, f')" using assms(4) by (auto simp: poll_drain_def)
  moreover have "ended_well policy fired (case s of Side_Client \<Rightarrow> ClientClosed | Side_Server \<Rightarrow> ServerClosed) f'" if "relay_done f'"
    using that by (cases s) (simp_all add: ended_well_def)
  ultimately show ?thesis using poll_drain_progress [OF assms(1,3)] by blast
qed

lemma poll_progress:
  assumes "relay_inv f" "deadline_ok policy f" "RelayFuture_poll fired f = (res, f')"
  shows "res = Later \<and> relay_inv f' \<and> deadline_ok policy f' \<and> relay_to_do f' < relay_to_do f \<or>
    (\<exists>t. ended_well policy fired t f' \<and> res = Now (Ok (relay_ends t f')))"
proof -
  obtain e f1 where o: "(if rf_first_closed f = None then poll_open f else (None, f)) = (e, f1)" by fastforce
  have f1: "e = None" "relay_inv f1" "relay_to_do f1 \<le> relay_to_do f" "rf_first_closed f1 = None \<Longrightarrow> relay_to_do f1 < relay_to_do f"
    using o assms(1) poll_open_progress [OF assms(1)] by (fastforce split: if_splits)+
  have d: "deadline_ok policy f1" using o assms(2) poll_open_deadline by (fastforce split: if_splits)
  show ?thesis
  proof (cases "rf_first_closed f1")
    case None
    with f1 d o assms(3) show ?thesis by (auto simp: RelayFuture_poll_def)
  next
    case (Some s)
    then have p: "poll_drain fired s f1 = (res, f')" using o f1 assms(3) by (simp add: RelayFuture_poll_def)
    from poll_drain_ends [OF f1(2) d Some p] poll_drain_deadline [OF p d] f1(3) show ?thesis by auto
  qed
qed

lemma relay_inv_to_do: "relay_inv f \<Longrightarrow> 0 < relay_to_do f"
  by (auto simp: relay_inv_def relay_to_do_def to_do_def split: option.splits relay_side.splits)

lemma run_relay_ends:
  "relay_inv f \<Longrightarrow> deadline_ok policy f \<Longrightarrow> relay_to_do f \<le> length ts \<Longrightarrow>
    \<exists>f' t. run_relay ts f = (Some (Ok (relay_ends t f')), f') \<and> ended_well policy (True \<in> set ts) t f'"
proof (induction ts arbitrary: f)
  case Nil
  then show ?case using relay_inv_to_do by fastforce
next
  case (Cons fired ts)
  have more: "ended_well policy (True \<in> set (fired # ts)) t g" if "ended_well policy b t g" "b \<longrightarrow> True \<in> set (fired # ts)" for b t g
    using that by (auto simp: ended_well_def split: relay_termination.splits relay_side.splits)
  obtain res f' where p: "RelayFuture_poll fired f = (res, f')" by fastforce
  from poll_progress [OF Cons.prems(1,2) p] show ?case
  proof
    assume l: "res = Later \<and> relay_inv f' \<and> deadline_ok policy f' \<and> relay_to_do f' < relay_to_do f"
    then have "relay_to_do f' \<le> length ts" using Cons.prems(3) by simp
    with Cons.IH [of f'] l p more [of "True \<in> set ts"] show ?thesis by fastforce
  next
    assume "\<exists>t. ended_well policy fired t f' \<and> res = Now (Ok (relay_ends t f'))"
    with p more [of fired] show ?thesis by fastforce
  qed
qed

definition healthy_peer :: "source \<times> relay_sink \<Rightarrow> bool" where
  "healthy_peer p \<longleftrightarrow> list_all healthy_read (fst p) \<and> list_all healthy_write (sk_writes (snd p)) \<and> list_all healthy_shut (sk_shuts (snd p))"

definition peer_work :: "source \<times> relay_sink \<Rightarrow> nat" where
  "peer_work p = 2 * length (avail (fst p)) + length (fst p) + length (sk_writes (snd p)) + length (sk_shuts (snd p)) + 2"

lemma pend_new: "pend r (DirectionState_new n) = avail r"
  by (simp add: pend_def DirectionState_new_def)

text \<open>
  C18: The relay ends and delivers. When neither transport fails, however they block and split the data,
  and whatever the drain deadline does, the future is ready after at most as many polls as there are transport
  events and twice the bytes, plus a constant; it succeeds, what has been written to either side is what the
  other side sent, or a prefix of it, and the report has the exact counts. It is all of it in both directions, unless
  a deadline was set by the policy and has passed: then the report says so, and still everything from the side
  that closed first has been delivered. Without a deadline, the side that closes first never cuts the
  other off; no direction starves the other.
\<close>
theorem relay_delivers:
  assumes "healthy_peer client" "healthy_peer server" "0 < ro_buffer_size options"
    "peer_work client + peer_work server \<le> length ts"
  shows "\<exists>f report up rest_up down rest_down. relay_with_options ts client server options = (Some (Ok report), f) \<and>
    avail (fst client) = up @ rest_up \<and> avail (fst server) = down @ rest_down \<and>
    sk_out (snd (rf_server f)) = sk_out (snd server) @ up \<and> sk_out (snd (rf_client f)) = sk_out (snd client) @ down \<and>
    rr_bytes_upstream report = length up \<and> rr_bytes_downstream report = length down \<and>
    (case rr_termination report of
       DrainTimedOut side \<Rightarrow> ro_half_close options \<noteq> Drain \<and> True \<in> set ts \<and>
         (case side of Side_Client \<Rightarrow> rest_up = [] | Side_Server \<Rightarrow> rest_down = [])
     | _ \<Rightarrow> rest_up = [] \<and> rest_down = [])"
proof -
  let ?f0 = "RelayFuture_new client server options"
  have "relay_inv ?f0"
    using assms(1-3)
    by (simp add: relay_inv_def healthy_def healthy_peer_def RelayFuture_new_def DirectionState_new_def wf_direction_def)
  moreover have "deadline_ok (ro_half_close options) ?f0" by (simp add: deadline_ok_def RelayFuture_new_def)
  moreover have "relay_to_do ?f0 \<le> length ts"
    using assms(4) by (simp add: relay_to_do_def to_do_def peer_work_def RelayFuture_new_def DirectionState_new_def)
  ultimately obtain f t where r: "run_relay ts ?f0 = (Some (Ok (relay_ends t f)), f)"
    and e: "ended_well (ro_half_close options) (True \<in> set ts) t f"
    using run_relay_ends by blast
  have "flows ?f0 f" using flows_run [OF r flows_new [OF assms(3)]] by blast
  then obtain up down where
    u: "avail (fst client) = up @ pend (fst (rf_client f)) (rf_upstream f)" "sk_out (snd (rf_server f)) = sk_out (snd server) @ up"
      "ds_bytes (rf_upstream f) = length up" and
    d: "avail (fst server) = down @ pend (fst (rf_server f)) (rf_downstream f)" "sk_out (snd (rf_client f)) = sk_out (snd client) @ down"
      "ds_bytes (rf_downstream f) = length down"
    using pend_new by (auto simp: flows_def sent_def RelayFuture_new_def) (simp add: DirectionState_new_def)
  show ?thesis
    by (intro exI [of _ f] exI [of _ "relay_ends t f"] exI [of _ up] exI [of _ "pend (fst (rf_client f)) (rf_upstream f)"]
        exI [of _ down] exI [of _ "pend (fst (rf_server f)) (rf_downstream f)"])
      (use r e u d in \<open>auto simp: relay_with_options_def relay_ends_def ended_well_def relay_done_def
         split: relay_termination.splits relay_side.splits\<close>)
qed

definition demo_client :: "source \<times> relay_sink" where
  "demo_client = ([Avail [1, 2, 3], Read_Blocks, Avail [4]], \<lparr>sk_writes = [Takes 1], sk_shuts = [], sk_out = [], sk_closed = False\<rparr>)"

definition demo_server :: "source \<times> relay_sink" where
  "demo_server = ([Read_Blocks, Avail [9, 8]], \<lparr>sk_writes = [Write_Blocks, Takes 2], sk_shuts = [Shut_Blocks], sk_out = [], sk_closed = False\<rparr>)"

theorem relay_delivers_witness:
  "\<exists>f report. relay_with_options (replicate 40 True) demo_client demo_server (RelayOptions_new 2 Drain) = (Some (Ok report), f) \<and>
    sk_out (snd (rf_server f)) = [1, 2, 3, 4] \<and> sk_out (snd (rf_client f)) = [9, 8] \<and>
    rr_bytes_upstream report = 4 \<and> rr_bytes_downstream report = 2"
proof -
  let ?o = "RelayOptions_new 2 Drain"
  have "healthy_peer demo_client" "healthy_peer demo_server" "0 < ro_buffer_size ?o" "ro_half_close ?o = Drain"
    "peer_work demo_client + peer_work demo_server \<le> length (replicate 40 True)"
    by (simp_all add: demo_client_def demo_server_def healthy_peer_def peer_work_def RelayOptions_new_def)
  note d = relay_delivers [OF this(1-3) this(5)] this(4)
  have "avail (fst demo_client) = [1, 2, 3, 4]" "avail (fst demo_server) = [9, 8]" "sk_out (snd demo_server) = []" "sk_out (snd demo_client) = []"
    by (simp_all add: demo_client_def demo_server_def)
  moreover obtain f report up rest_up down rest_down where
    "relay_with_options (replicate 40 True) demo_client demo_server ?o = (Some (Ok report), f)"
    "avail (fst demo_client) = up @ rest_up" "avail (fst demo_server) = down @ rest_down"
    "sk_out (snd (rf_server f)) = sk_out (snd demo_server) @ up" "sk_out (snd (rf_client f)) = sk_out (snd demo_client) @ down"
    "rr_bytes_upstream report = length up" "rr_bytes_downstream report = length down" "rest_up = []" "rest_down = []"
    using d by (elim exE conjE) (auto split: relay_termination.splits intro: that)
  ultimately show ?thesis by simp
qed

lemma relay_faithful_witness:
  "let (res, f) = relay_with_options [False, False, True] ([Avail [1, 2, 3], Read_Fails Kind_Other], snd demo_client) demo_server (RelayOptions_new 2 Drain) in
   \<exists>up down rest_up rest_down. sk_out (snd (rf_server f)) = up \<and> [1, 2, 3] = up @ rest_up \<and>
     sk_out (snd (rf_client f)) = down \<and> [9, 8] = down @ rest_down \<and>
     (case res of None \<Rightarrow> True | Some x \<Rightarrow> counts_up x = length up \<and> counts_down x = length down)"
proof -
  obtain res f where r: "relay_with_options [False, False, True] ([Avail [1, 2, 3], Read_Fails Kind_Other], snd demo_client) demo_server (RelayOptions_new 2 Drain) = (res, f)"
    by fastforce
  show ?thesis
    using relay_faithful [OF r] unfolding r Let_def prod.case
    by (simp add: RelayOptions_new_def demo_client_def demo_server_def)
qed

end
