(* ===== verification/Accept_Http.thy ===== *)
theory Accept_Http
  imports Accept Matcher
begin

text \<open>
  The HTTP handler of a listener (\<^verbatim>\<open>eggress-server/src/accept/handlers.rs\<close>, \<^verbatim>\<open>forward.rs\<close>, \<^verbatim>\<open>prefixed.rs\<close>,
  \<^verbatim>\<open>auth.rs\<close>): reading the request head, CONNECT requests, proxy authentication, and handing other
  requests to the forward proxy. The base64 decoder of the \<^verbatim>\<open>base64\<close> crate is the parameter \<open>b64\<close>.
  Results: under a policy with credentials a session is accepted only when a header of the head carries
  them or on the word of the reuse cache; the identity of a listener without a policy is whatever name
  the client claims.
\<close>

subsection \<open>Prefixed streams\<close>

record prefixed_stream =
  ps_prefix :: "u8 list"
  ps_position :: nat
  ps_inner :: conn

definition PrefixedStream_new :: "u8 list \<Rightarrow> conn \<Rightarrow> prefixed_stream" where
  "PrefixedStream_new pre c = \<lparr>ps_prefix = pre, ps_position = 0, ps_inner = c\<rparr>"

text \<open>A read into a buffer of \<open>n\<close> bytes.\<close>

definition PrefixedStream_read :: "nat \<Rightarrow> prefixed_stream \<Rightarrow> u8 list \<times> prefixed_stream" where
  "PrefixedStream_read n s =
    (if ps_position s < length (ps_prefix s) then
       (let remaining = drop (ps_position s) (ps_prefix s);
            to_copy = min (length remaining) n
        in (take to_copy remaining, s\<lparr>ps_position := ps_position s + to_copy\<rparr>))
     else (case read_some n (ps_inner s) of (bs, c) \<Rightarrow> (bs, s\<lparr>ps_inner := c\<rparr>)))"

text \<open>The stream as a connection: what the prefix still holds comes first.\<close>

definition prefixed_conn :: "prefixed_stream \<Rightarrow> conn" where
  "prefixed_conn s = (ps_inner s)\<lparr>rx := drop (ps_position s) (ps_prefix s) @ rx (ps_inner s)\<rparr>"

lemma prefixed_read_refines:
  assumes "PrefixedStream_read n s = (bs, s')"
  shows "rx (prefixed_conn s) = bs @ rx (prefixed_conn s')" "length bs \<le> n"
    "0 < n \<Longrightarrow> bs = [] \<Longrightarrow> rx (prefixed_conn s) = []"
  using assms
  by (auto simp: PrefixedStream_read_def prefixed_conn_def read_some_def Let_def min_def add.commute split: if_splits)
    (metis append.assoc append_take_drop_id drop_drop)

subsection \<open>Credentials\<close>

definition parse_basic_auth :: "(string \<Rightarrow> u8 list option) \<Rightarrow> string \<Rightarrow> (string \<times> string) option" where
  "parse_basic_auth b64 v =
    (let value = trim v in
     if \<not> starts_with ''Basic '' value then None
     else (case b64 (trim (drop 6 value)) of
             None \<Rightarrow> None
           | Some bs \<Rightarrow> (case from_utf8 bs of None \<Rightarrow> None | Some decoded \<Rightarrow> split_at_first CHR '':'' decoded)))"

definition parse_header_line_str :: "string \<Rightarrow> header option" where
  "parse_header_line_str line =
    (case split_at_first CHR '':'' line of None \<Rightarrow> None | Some (a, b) \<Rightarrow> Some (trim a, trim b))"

definition is_proxy_authorization :: "string \<Rightarrow> bool" where
  "is_proxy_authorization name \<longleftrightarrow> eq_ignore_ascii_case name ''Proxy-Authorization''"

text \<open>The response is written as far as the client takes it; its failure is ignored.\<close>

definition proxy_auth_required :: "u8 list" where
  "proxy_auth_required =
    as_bytes (''HTTP/1.1 407 Proxy Authentication Required'' @ crlf @
      ''Proxy-Authenticate: Basic realm='' @ [CHR 0x22] @ ''eggress'' @ [CHR 0x22] @ crlf @
      ''Content-Length: 0'' @ crlf @ ''Connection: close'' @ crlf @ crlf)"

definition write_proxy_auth_required :: "(io_error, unit) io" where
  "write_proxy_auth_required = io_bind (write_all id proxy_auth_required) (\<lambda>_. flush)"

subsection \<open>The head of the request\<close>

definition ACCEPT_MAX_HEAD_SIZE :: nat where "ACCEPT_MAX_HEAD_SIZE = 32 * 1024"
definition ACCEPT_MAX_HEADER_LINES :: nat where "ACCEPT_MAX_HEADER_LINES = 128"

text \<open>\<^verbatim>\<open>read_until\<close> a line feed, at most \<open>n\<close> bytes.\<close>

fun read_until_lf :: "nat \<Rightarrow> u8 list \<Rightarrow> u8 list \<times> u8 list" where
  "read_until_lf 0 bs = ([], bs)"
| "read_until_lf (Suc n) [] = ([], [])"
| "read_until_lf (Suc n) (b # bs) =
    (if b = 10 then ([b], bs) else (case read_until_lf n bs of (l, rest) \<Rightarrow> (b # l, rest)))"

lemma read_until_lf_append: "read_until_lf n bs = (l, rest) \<Longrightarrow> bs = l @ rest"
  by (induction n bs arbitrary: l rest rule: read_until_lf.induct) (auto split: if_splits prod.splits)

function read_http_head :: "u8 list \<Rightarrow> nat \<Rightarrow> u8 list \<Rightarrow> (http_error + u8 list) \<times> u8 list" where
  "read_http_head head_buf header_count bs =
    (if ACCEPT_MAX_HEAD_SIZE \<le> length head_buf then (Err HeaderTooLarge, bs)
     else (case read_until_lf (ACCEPT_MAX_HEAD_SIZE - length head_buf + 1) bs of (line, rest) \<Rightarrow>
       if line = [] then (Err (MalformedRequest ''unexpected EOF reading request''), rest)
       else if ACCEPT_MAX_HEAD_SIZE < length head_buf + length line then (Err HeaderTooLarge, rest)
       else (let head_buf1 = head_buf @ line;
                 header_count1 = (if ends_crlf line then Suc header_count else header_count) in
             if ends_crlf line \<and> ACCEPT_MAX_HEADER_LINES < header_count1 then (Err TooManyHeaders, rest)
             else if ends_double_crlf head_buf1 then (Ok head_buf1, rest)
             else read_http_head head_buf1 header_count1 rest)))"
  by pat_completeness auto
termination
  by (relation "measure (\<lambda>(h, n, bs). length bs)") (auto dest!: read_until_lf_append [OF sym])

declare read_http_head.simps [simp del]

lemma read_http_head_append:
  "read_http_head hb n bs = (Ok l, rest) \<Longrightarrow> \<exists>got. l = hb @ got \<and> bs = got @ rest"
proof (induction hb n bs rule: read_http_head.induct)
  case (1 hb n bs)
  obtain line r where line: "read_until_lf (ACCEPT_MAX_HEAD_SIZE - length hb + 1) bs = (line, r)" by fastforce
  have b: "bs = line @ r" by (rule read_until_lf_append [OF line])
  let ?n = "if ends_crlf line then Suc n else n"
  note step = "1.prems" [unfolded read_http_head.simps [of hb n bs] line, simplified Let_def prod.case]
  show ?case
  proof (cases "l = hb @ line \<and> rest = r")
    case False
    with step have c: "\<not> ACCEPT_MAX_HEAD_SIZE \<le> length hb" "line \<noteq> []"
      "\<not> ACCEPT_MAX_HEAD_SIZE < length hb + length line" "\<not> (ends_crlf line \<and> ACCEPT_MAX_HEADER_LINES < ?n)"
      "\<not> ends_double_crlf (hb @ line)" "read_http_head (hb @ line) ?n r = (Ok l, rest)"
      by (auto split: if_splits)
    from "1.IH" [OF c(1) line [symmetric] c(2,3) refl refl c(4,5,6)] b show ?thesis by fastforce
  qed (use b in blast)
qed

subsection \<open>CONNECT\<close>

definition parse_authority :: "string \<Rightarrow> http_error + target_addr" where
  "parse_authority authority =
    (if starts_with ''['' authority then
       (case split_at_first CHR '']'' authority of
          None \<Rightarrow> Err (TargetParseError ''unclosed bracket in IPv6 address'')
        | Some (before, after) \<Rightarrow>
            (case parse_ip_addr (tl before) of
               None \<Rightarrow> Err (TargetParseError (''invalid IPv6 address: '' @ ip_syntax_text))
             | Some ip \<Rightarrow>
                 if after = [] \<or> \<not> is_char_boundary after 1 then Err (TargetParseError ''missing port'')
                 else if hd after \<noteq> CHR '':''
                 then Err (TargetParseError (''expected '' @ [CHR 0x27] @ '':'' @ [CHR 0x27] @ '' between IPv6 address and port''))
                 else (case parse_u16 (tl after) of
                         Inl e \<Rightarrow> Err (TargetParseError (''invalid port: '' @ int_error_text e))
                       | Inr port \<Rightarrow> Ok \<lparr>tgt_host = Ip ip, tgt_port = port\<rparr>)))
     else
       (case split_at_last CHR '':'' authority of
          None \<Rightarrow> Err (TargetParseError ''missing port in authority'')
        | Some (host_part, port_str) \<Rightarrow>
            (case parse_u16 port_str of
               Inl e \<Rightarrow> Err (TargetParseError (''invalid port: '' @ int_error_text e))
             | Inr port \<Rightarrow>
                 (case parse_ip_addr host_part of
                    Some ip \<Rightarrow> Ok \<lparr>tgt_host = Ip ip, tgt_port = port\<rparr>
                  | None \<Rightarrow>
                      if host_part = [] then Err (TargetParseError ''empty host'')
                      else Ok \<lparr>tgt_host = Domain host_part, tgt_port = port\<rparr>))))"

text \<open>The header loop: the credentials of the last header, and the last user name that was parsed.\<close>

fun scan_proxy_auth ::
  "(string \<Rightarrow> u8 list option) \<Rightarrow> (string \<times> string) option \<times> string option \<Rightarrow> string list \<Rightarrow>
   (string \<times> string) option \<times> string option" where
  "scan_proxy_auth b64 st [] = st"
| "scan_proxy_auth b64 (proxy_auth, parsed_username) (line # ls) =
    (if line = [] then (proxy_auth, parsed_username)
     else (case parse_header_line_str line of
             Some (name, value) \<Rightarrow>
               if is_proxy_authorization name then
                 (let a = parse_basic_auth b64 value in
                  scan_proxy_auth b64 (a, case a of Some (user, _) \<Rightarrow> Some user | None \<Rightarrow> parsed_username) ls)
               else scan_proxy_auth b64 (proxy_auth, parsed_username) ls
           | None \<Rightarrow> scan_proxy_auth b64 (proxy_auth, parsed_username) ls))"

definition credentials_match :: "string \<times> string \<Rightarrow> string \<Rightarrow> string \<Rightarrow> bool" where
  "credentials_match up username password \<longleftrightarrow>
    as_bytes (fst up) = as_bytes username \<and> as_bytes (snd up) = as_bytes password"

text \<open>The check that both branches of the handler make, with what is written on failure.\<close>

definition check_proxy_auth ::
  "inbound_authentication \<Rightarrow> bool \<Rightarrow> (string \<times> string) option \<Rightarrow> (accept_error, unit) io" where
  "check_proxy_auth auth cached proxy_auth c =
    (case auth_credentials auth of
       Some (username, password, _) \<Rightarrow>
         if cached \<or> (case proxy_auth of Some up \<Rightarrow> credentials_match up username password | None \<Rightarrow> False)
         then (Ok (), c)
         else (case write_proxy_auth_required c of (_, c1) \<Rightarrow> (Err AuthenticationFailed, c1))
     | None \<Rightarrow> (Ok (), c))"

text \<open>Only named clients are recorded.\<close>

definition record_named ::
  "nanos \<Rightarrow> nanos \<Rightarrow> inbound_authentication \<Rightarrow> ip_addr option \<Rightarrow> client_identity \<Rightarrow> inbound_authentication" where
  "record_named epoch now auth peer_ip identity =
    (case identity of Username _ \<Rightarrow> record_authenticated epoch now auth peer_ip identity | _ \<Rightarrow> auth)"

definition http_parse_connect ::
  "(string \<Rightarrow> u8 list option) \<Rightarrow> nanos \<Rightarrow> nanos \<Rightarrow> nanos \<Rightarrow> u8 list \<Rightarrow> inbound_authentication \<Rightarrow> ip_addr option \<Rightarrow> conn \<Rightarrow>
   (accept_error + target_addr \<times> client_identity) \<times> inbound_authentication \<times> conn" where
  "http_parse_connect b64 epoch t1 t2 head_buf auth peer_ip c =
    (case split_str crlf (from_utf8_lossy head_buf) of
       [] \<Rightarrow> (Err (Accept_Http (MalformedRequest ''empty request'')), auth, c)
     | request_line # ls \<Rightarrow>
         (case split_whitespace request_line of
            [_, authority, _] \<Rightarrow>
              (case parse_authority authority of
                 Inl e \<Rightarrow> (Err (Accept_Http e), auth, c)
               | Inr target \<Rightarrow>
                   (case scan_proxy_auth b64 (None, None) ls of (proxy_auth, parsed_username) \<Rightarrow>
                    case cached_identity t1 auth peer_ip of (cached, auth1) \<Rightarrow>
                    case check_proxy_auth auth1 (cached \<noteq> None) proxy_auth c of
                      (Inl e, c1) \<Rightarrow> (Err e, auth1, c1)
                    | (Inr _, c1) \<Rightarrow>
                        let identity = (case cached of
                                          Some i \<Rightarrow> i
                                        | None \<Rightarrow> (case parsed_username of Some user \<Rightarrow> Username user | None \<Rightarrow> Anonymous))
                        in (Ok (target, identity), record_named epoch t2 auth1 peer_ip identity, c1)))
          | parts \<Rightarrow>
              (Err (Accept_Http (MalformedRequest (''expected 3 parts in request line, got '' @ show_nat (length parts)))),
               auth, c)))"

subsection \<open>The handler\<close>

text \<open>For requests other than CONNECT: the first such header counts, wherever it stands.\<close>

fun find_proxy_auth :: "(string \<Rightarrow> u8 list option) \<Rightarrow> string list \<Rightarrow> (string \<times> string) option" where
  "find_proxy_auth b64 [] = None"
| "find_proxy_auth b64 (line # ls) =
    (case parse_header_line_str line of
       Some (name, value) \<Rightarrow>
         if is_proxy_authorization name then parse_basic_auth b64 value else find_proxy_auth b64 ls
     | None \<Rightarrow> find_proxy_auth b64 ls)"

definition accept_http_forward ::
  "(string \<Rightarrow> u8 list option) \<Rightarrow> nanos \<Rightarrow> nanos \<Rightarrow> nanos \<Rightarrow> u8 list \<Rightarrow> inbound_authentication \<Rightarrow> ip_addr option \<Rightarrow> conn \<Rightarrow>
   accept_result" where
  "accept_http_forward b64 epoch t1 t2 head_buf auth peer_ip c =
    (case cached_identity t1 auth peer_ip of (cached, auth1) \<Rightarrow>
     let found = (if cached \<noteq> None \<or> auth_credentials auth1 = None then None
                  else find_proxy_auth b64 (split_str crlf (from_utf8_lossy head_buf)))
     in case check_proxy_auth auth1 (cached \<noteq> None) found c of
          (Inl e, c1) \<Rightarrow> (Err e, auth1, c1)
        | (Inr _, c1) \<Rightarrow>
            (let identity = (case cached of
                               Some i \<Rightarrow> i
                             | None \<Rightarrow> (case found of Some (user, _) \<Rightarrow> Username user | None \<Rightarrow> Anonymous));
                 auth2 = record_named epoch t2 auth1 peer_ip identity
             in case forward_request (prefixed_conn (PrefixedStream_new head_buf c1)) of
                  (Inl e, c2) \<Rightarrow> (Err (Accept_Http e), auth2, c2)
                | (Inr request, c2) \<Rightarrow>
                    (Ok (Session_HttpForward \<lparr>pf_target = fr_target request, pf_request = request, pf_identity = identity\<rparr>),
                     auth2, c2)))"

definition accept_http ::
  "(string \<Rightarrow> u8 list option) \<Rightarrow> nanos \<Rightarrow> nanos \<Rightarrow> nanos \<Rightarrow> inbound_authentication \<Rightarrow> ip_addr option \<Rightarrow> conn \<Rightarrow> accept_result" where
  "accept_http b64 epoch t1 t2 auth peer_ip c =
    (case read_http_head [] 0 (rx c) of
       (Inl e, rest) \<Rightarrow> (Err (Accept_Http e), auth, c\<lparr>rx := rest\<rparr>)
     | (Inr head_buf, rest) \<Rightarrow>
         (let c1 = c\<lparr>rx := rest\<rparr>;
              meth = (case split_whitespace (from_utf8_lossy head_buf) of w # _ \<Rightarrow> to_ascii_lowercase w | [] \<Rightarrow> [])
          in if meth = ''connect'' then
               (case http_parse_connect b64 epoch t1 t2 head_buf auth peer_ip c1 of
                  (Inl e, auth1, c2) \<Rightarrow> (Err e, auth1, c2)
                | (Inr (target, identity), auth1, c2) \<Rightarrow>
                    (Ok (Session_Tunnel \<lparr>pt_target = target, pt_layer = Layer_None, pt_protocol = Tunnel_HttpConnect,
                           pt_reply_context = Reply_Http, pt_identity = identity\<rparr>), auth1, c2))
             else accept_http_forward b64 epoch t1 t2 head_buf auth peer_ip c1))"

subsection \<open>No session without credentials\<close>

text \<open>A header of the head carries the user name and the password.\<close>

definition http_carries :: "(string \<Rightarrow> u8 list option) \<Rightarrow> string \<Rightarrow> string \<Rightarrow> string list \<Rightarrow> bool" where
  "http_carries b64 u p ls \<longleftrightarrow>
    (\<exists>line \<in> set ls. \<exists>name value. parse_header_line_str line = Some (name, value) \<and>
       is_proxy_authorization name \<and> parse_basic_auth b64 value = Some (u, p))"

lemma http_carries_Cons: "http_carries b64 u p ls \<Longrightarrow> http_carries b64 u p (l # ls)"
  by (auto simp: http_carries_def)

lemma scan_proxy_auth_carries:
  assumes "scan_proxy_auth b64 (pa, pu) ls = (Some (u, p), pu')" "\<And>x y. pa = Some (x, y) \<Longrightarrow> pu = Some x"
  shows "(pa = Some (u, p) \<or> http_carries b64 u p ls) \<and> pu' = Some u"
  using assms
proof (induction b64 "(pa, pu)" ls arbitrary: pa pu rule: scan_proxy_auth.induct)
  case (2 b64 pa pu line ls)
  consider (stop) "line = []" | (other) "line \<noteq> []" "parse_header_line_str line = None"
    | (skip) name v where "line \<noteq> []" "parse_header_line_str line = Some (name, v)" "\<not> is_proxy_authorization name"
    | (hit) name v where "line \<noteq> []" "parse_header_line_str line = Some (name, v)" "is_proxy_authorization name"
    by (cases "parse_header_line_str line"; cases "line = []"; force)
  then show ?case
  proof cases
    case stop
    with "2.prems" show ?thesis by simp
  next
    case other
    then have "scan_proxy_auth b64 (pa, pu) ls = (Some (u, p), pu')" using "2.prems"(1) by simp
    from "2.hyps"(1) [OF other this "2.prems"(2)] show ?thesis by (auto intro: http_carries_Cons)
  next
    case (skip name v)
    then have "scan_proxy_auth b64 (pa, pu) ls = (Some (u, p), pu')" using "2.prems"(1) by simp
    from "2.hyps"(3) [OF skip(1,2) refl skip(3) this "2.prems"(2)] show ?thesis by (auto intro: http_carries_Cons)
  next
    case (hit name v)
    let ?a = "parse_basic_auth b64 v"
    have "scan_proxy_auth b64 (?a, case ?a of Some (user, _) \<Rightarrow> Some user | None \<Rightarrow> pu) ls = (Some (u, p), pu')"
      using "2.prems"(1) hit by (simp add: Let_def)
    from "2.hyps"(2) [OF hit(1,2) refl hit(3) refl this]
    have "(?a = Some (u, p) \<or> http_carries b64 u p ls) \<and> pu' = Some u" by simp
    with hit show ?thesis by (auto simp: http_carries_def)
  qed
qed auto

lemma find_proxy_auth_carries: "find_proxy_auth b64 ls = Some (u, p) \<Longrightarrow> http_carries b64 u p ls"
  by (induction ls) (auto simp: http_carries_def split: option.splits if_splits)

lemma credentials_match_iff: "credentials_match up u p \<longleftrightarrow> up = (u, p)"
  by (cases up) (auto simp: credentials_match_def as_bytes_inject)

lemma check_proxy_auth_Ok:
  assumes "check_proxy_auth auth cached pa c = (Ok x, c')" "auth_credentials auth = Some (u, p, reuse)"
  shows "c' = c \<and> (cached \<or> pa = Some (u, p))"
  using assms by (auto simp: check_proxy_auth_def credentials_match_iff split: if_splits prod.splits option.splits)

lemma http_parse_connect_authenticated:
  assumes acc: "http_parse_connect b64 epoch t1 t2 hb auth peer c = (Ok (t, i), auth', c')"
    and cred: "auth_credentials auth = Some (u, p, reuse)"
  shows "(http_carries b64 u p (split_str crlf (from_utf8_lossy hb)) \<and> i = Username u) \<or>
    (\<exists>ip cache. peer = Some ip \<and> reuse = Some cache \<and> fst (AuthReuseCache_lookup t1 ip cache) = Some i)"
proof -
  obtain rl ls m au v where sp: "split_str crlf (from_utf8_lossy hb) = rl # ls" and ws: "split_whitespace rl = [m, au, v]"
    using acc by (auto simp: http_parse_connect_def split: list.splits)
  obtain tg where tg: "parse_authority au = Ok tg"
    using acc by (auto simp: http_parse_connect_def sp ws split: sum.splits)
  obtain pa pu where sc: "scan_proxy_auth b64 (None, None) ls = (pa, pu)" by fastforce
  obtain cached auth1 where ca: "cached_identity t1 auth peer = (cached, auth1)" by fastforce
  obtain reuse' where cr: "auth_credentials auth1 = Some (u, p, reuse')"
    using cached_identity_credentials [OF ca cred] by blast
  obtain x c1 where ck: "check_proxy_auth auth1 (cached \<noteq> None) pa c = (Ok x, c1)"
    and i: "i = (case cached of Some i \<Rightarrow> i | None \<Rightarrow> (case pu of Some user \<Rightarrow> Username user | None \<Rightarrow> Anonymous))"
    using acc by (auto simp: http_parse_connect_def sp ws tg sc ca Let_def split: sum.splits prod.splits)
  show ?thesis
  proof (cases cached)
    case None
    with check_proxy_auth_Ok [OF ck cr] have "pa = Some (u, p)" by simp
    with scan_proxy_auth_carries [of b64 None None ls u p pu] sc have "http_carries b64 u p ls" "pu = Some u" by auto
    then show ?thesis using i None http_carries_Cons by (auto simp: sp)
  next
    case (Some j)
    with cached_identity_Some [OF ca [unfolded Some]] cred i show ?thesis by auto
  qed
qed

lemma accept_http_forward_authenticated:
  assumes acc: "accept_http_forward b64 epoch t1 t2 hb auth peer c = (Ok s, auth', c')"
    and cred: "auth_credentials auth = Some (u, p, reuse)"
  shows "(http_carries b64 u p (split_str crlf (from_utf8_lossy hb)) \<and> session_identity s = Username u) \<or>
    (\<exists>ip cache. peer = Some ip \<and> reuse = Some cache \<and> fst (AuthReuseCache_lookup t1 ip cache) = Some (session_identity s))"
proof -
  obtain cached auth1 where ca: "cached_identity t1 auth peer = (cached, auth1)" by fastforce
  obtain reuse' where cr: "auth_credentials auth1 = Some (u, p, reuse')"
    using cached_identity_credentials [OF ca cred] by blast
  let ?ls = "split_str crlf (from_utf8_lossy hb)"
  define found where "found = (if cached \<noteq> None \<or> auth_credentials auth1 = None then None else find_proxy_auth b64 ?ls)"
  obtain x c1 where ck: "check_proxy_auth auth1 (cached \<noteq> None) found c = (Ok x, c1)"
    and i: "session_identity s =
      (case cached of Some i \<Rightarrow> i | None \<Rightarrow> (case found of Some (user, _) \<Rightarrow> Username user | None \<Rightarrow> Anonymous))"
    using acc [unfolded accept_http_forward_def ca prod.case Let_def, folded found_def]
    by (auto split: sum.splits prod.splits)
  show ?thesis
  proof (cases cached)
    case None
    with check_proxy_auth_Ok [OF ck cr] have "found = Some (u, p)" by simp
    with find_proxy_auth_carries [of b64 ?ls u p] None i show ?thesis by (simp add: found_def cr)
  next
    case (Some j)
    with cached_identity_Some [OF ca [unfolded Some]] cred i show ?thesis by auto
  qed
qed

lemma accept_http_authenticated:
  assumes acc: "accept_http b64 epoch t1 t2 auth peer c = (Ok s, auth', c')"
    and cred: "auth_credentials auth = Some (u, p, reuse)"
  shows "(\<exists>hb rest. rx c = hb @ rest \<and> http_carries b64 u p (split_str crlf (from_utf8_lossy hb)) \<and>
            session_identity s = Username u) \<or>
    (\<exists>ip cache. peer = Some ip \<and> reuse = Some cache \<and> fst (AuthReuseCache_lookup t1 ip cache) = Some (session_identity s))"
proof -
  obtain hb rest where rd: "read_http_head [] 0 (rx c) = (Ok hb, rest)"
    using acc by (auto simp: accept_http_def split: prod.splits sum.splits)
  have rx: "rx c = hb @ rest" using read_http_head_append [OF rd] by simp
  let ?c = "c\<lparr>rx := rest\<rparr>"
  consider (con) t i where "http_parse_connect b64 epoch t1 t2 hb auth peer ?c = (Ok (t, i), auth', c')" "session_identity s = i"
    | (fwd) "accept_http_forward b64 epoch t1 t2 hb auth peer ?c = (Ok s, auth', c')"
    using acc by (auto simp: accept_http_def rd Let_def split: prod.splits sum.splits if_splits)
  then show ?thesis
  proof cases
    case con
    from http_parse_connect_authenticated [OF con(1) cred] con(2) rx show ?thesis by blast
  next
    case fwd
    from accept_http_forward_authenticated [OF fwd cred] rx show ?thesis by blast
  qed
qed


text \<open>Without a policy nothing is checked, and the name a client claims becomes its identity.\<close>

lemma connect_identity_unverified:
  assumes "split_str crlf (from_utf8_lossy hb) = rl # ls" "split_whitespace rl = [m, au, v]" "parse_authority au = Ok t"
    "scan_proxy_auth b64 (None, None) ls = (pa, Some user)"
  shows "http_parse_connect b64 epoch t1 t2 hb Auth_None peer c = (Ok (t, Username user), Auth_None, c)"
  using assms
  by (simp add: http_parse_connect_def cached_identity_def check_proxy_auth_def record_named_def record_authenticated_def)

end
