(* ===== verification/Accept_Listener.thy ===== *)
theory Accept_Listener
  imports Accept_Http
begin

text \<open>
  What a listener does with a new connection (\<^verbatim>\<open>eggress-server/src/accept/mod.rs\<close>): the first bytes
  select the protocol among those the listener allows, and its handler runs on the stream with these
  bytes put back. The model is the default build (\<^verbatim>\<open>extended\<close>, without the legacy ciphers and SSR).
  Results: how the client's bytes are split into reads does not matter to the HTTP detection, and a
  listener with credentials that offers HTTP and SOCKS accepts no session without them.
\<close>

record inbound_shadowsocks_config =
  iss_method :: string
  iss_password :: string

record inbound_trojan_config =
  itr_password :: string
  itr_fallback :: "string option"

text \<open>Library functions and the moments at which the clock is read.\<close>

record accept_env =
  ae_crypto :: crypto
  ae_sha224 :: "u8 list \<Rightarrow> u8 list"
  ae_b64 :: "string \<Rightarrow> u8 list option"
  ae_epoch :: nanos
  ae_t1 :: nanos
  ae_t2 :: nanos

text \<open>The state a listener shares between its connections: the policy with its cache, and the salts seen.\<close>

record listener_state =
  ls_auth :: inbound_authentication
  ls_salts :: salt_window

type_synonym listener_result = "(accept_error + accepted_session) \<times> listener_state \<times> conn"

definition no_protocol :: accept_error where
  "no_protocol = Accept_Text ''no matching protocol for listener''"

definition prefixed :: "u8 list \<Rightarrow> conn \<Rightarrow> conn" where
  "prefixed bs c = prefixed_conn (PrefixedStream_new bs c)"

text \<open>
  The HTTP detection loop. \<open>ks\<close> are the sizes of the reads (at least one byte and at most 32 each);
  when they are used up, reads return all that fits.
\<close>

definition read_chunk :: "nat list \<Rightarrow> conn \<Rightarrow> u8 list \<times> nat list \<times> conn" where
  "read_chunk ks c =
    (case (case ks of [] \<Rightarrow> (32, []) | k # ks' \<Rightarrow> (max 1 (min k 32), ks')) of
       (k, ks') \<Rightarrow> (case read_some k c of (bs, c') \<Rightarrow> (bs, ks', c')))"

function detect_http_loop :: "nat list \<Rightarrow> u8 list \<Rightarrow> conn \<Rightarrow> (accept_error + unit) \<times> conn" where
  "detect_http_loop ks pre c =
    (case detect_http_method pre of
       Http_Match \<Rightarrow> (Ok (), prefixed pre c)
     | Http_NoMatch \<Rightarrow> (Err no_protocol, c)
     | Http_NeedMore \<Rightarrow>
         if 512 \<le> length pre then (Err no_protocol, c)
         else (case read_chunk ks c of (bs, ks', c') \<Rightarrow>
                 if bs = [] then (Err no_protocol, c')
                 else detect_http_loop ks' (take 512 (pre @ bs)) c'))"
  by pat_completeness auto
termination
  by (relation "measure (\<lambda>(ks, pre, c). length (rx c))")
    (auto simp: read_chunk_def read_some_def split: prod.splits list.splits)

declare detect_http_loop.simps [simp del]

definition plain_tunnel :: "target_addr \<Rightarrow> client_layer \<Rightarrow> tunnel_protocol \<Rightarrow> reply_context \<Rightarrow> accepted_session" where
  "plain_tunnel target layer protocol context =
    Session_Tunnel \<lparr>pt_target = target, pt_layer = layer, pt_protocol = protocol, pt_reply_context = context,
      pt_identity = Anonymous\<rparr>"

definition accept_shadowsocks ::
  "accept_env \<Rightarrow> inbound_shadowsocks_config option \<Rightarrow> u8 \<Rightarrow> listener_state \<Rightarrow> conn \<Rightarrow> listener_result" where
  "accept_shadowsocks env config byte0 st c =
    (case config of
       None \<Rightarrow> (Err (Accept_Text ''shadowsocks listener requires shadowsocks config''), st, c)
     | Some ss_config \<Rightarrow>
         (let stream = prefixed [byte0] c in
          case parse_method (iss_method ss_config) of
            Inl modern_error \<Rightarrow> (Err (Accept_Shadowsocks modern_error), st, stream)
          | Inr m \<Rightarrow>
              (case shadowsocks_accept (ae_crypto env) (iss_password ss_config) m (ls_salts st) stream of
                 ((Inl e, w), c1) \<Rightarrow> (Err (Accept_Shadowsocks e), st\<lparr>ls_salts := w\<rparr>, c1)
               | ((Inr (ss_stream, target), w), c1) \<Rightarrow>
                   (Ok (plain_tunnel target (Layer_Shadowsocks ss_stream) Tunnel_Shadowsocks Reply_Shadowsocks),
                    st\<lparr>ls_salts := w\<rparr>, c1))))"

definition trojan_fallback :: "string option \<Rightarrow> listener_state \<Rightarrow> conn \<Rightarrow> listener_result" where
  "trojan_fallback fallback st c =
    (case fallback of
       None \<Rightarrow> (Err AuthenticationFailed, st, c)
     | Some fallback_target \<Rightarrow>
         (case read_exact Accept_Io 2 c of
            (Inl e, c1) \<Rightarrow> (Err e, st, c1)
          | (Inr _, c1) \<Rightarrow>
              (case TargetAddr_from_str fallback_target of
                 Inl e \<Rightarrow> (Err (Accept_Text (''invalid trojan fallback address: '' @ e)), st, c1)
               | Inr target \<Rightarrow> (Ok (plain_tunnel target Layer_None Tunnel_Trojan Reply_Trojan), st, c1))))"

definition accept_trojan ::
  "accept_env \<Rightarrow> inbound_trojan_config option \<Rightarrow> u8 \<Rightarrow> listener_state \<Rightarrow> conn \<Rightarrow> listener_result" where
  "accept_trojan env config byte0 st c =
    (case config of
       None \<Rightarrow> (Err (Accept_Text ''trojan listener requires trojan config''), st, c)
     | Some trojan_cfg \<Rightarrow>
         (case read_exact Accept_Io 55 c of
            (Inl e, c1) \<Rightarrow> (Err e, st, c1)
          | (Inr hash_rest, c1) \<Rightarrow>
              (let hash_prefix = byte0 # hash_rest in
               if trojan_check_password (ae_sha224 env) hash_prefix (itr_password trojan_cfg) then
                 (case trojan_accept (ae_sha224 env) (itr_password trojan_cfg) (prefixed hash_prefix c1) of
                    (Inl e, c2) \<Rightarrow> (Err (Accept_Trojan e), st, c2)
                  | (Inr target, c2) \<Rightarrow> (Ok (plain_tunnel target Layer_None Tunnel_Trojan Reply_Trojan), st, c2))
               else trojan_fallback (itr_fallback trojan_cfg) st c1)))"

text \<open>A handler of the policy's protocols changes only the policy's cache.\<close>

definition with_auth :: "listener_state \<Rightarrow> accept_result \<Rightarrow> listener_result" where
  "with_auth st r = (case r of (x, auth, c) \<Rightarrow> (x, st\<lparr>ls_auth := auth\<rparr>, c))"

definition accept_with_fixed_target_for_peer ::
  "accept_env \<Rightarrow> nat list \<Rightarrow> protocol_id list \<Rightarrow> inbound_shadowsocks_config option \<Rightarrow> inbound_trojan_config option \<Rightarrow>
   target_addr option \<Rightarrow> ip_addr option \<Rightarrow> listener_state \<Rightarrow> conn \<Rightarrow> listener_result" where
  "accept_with_fixed_target_for_peer env ks protocols ss_config trojan_config fixed_target peer_ip st c =
    (if protocols = [Id_Echo] then (Ok Session_Echo, st, c)
     else if protocols = [Id_Raw] then
       (case fixed_target of
          None \<Rightarrow> (Err (Accept_Text ''raw listener requires fixed_target''), st, c)
        | Some target \<Rightarrow> (Ok (plain_tunnel target Layer_None Tunnel_Raw Reply_Raw), st, c))
     else
       (case read_exact Accept_Io 1 c of
          (Inl e, c1) \<Rightarrow> (Err e, st, c1)
        | (Inr first, c1) \<Rightarrow>
            (let byte0 = hd first in
             if byte0 = 0x05 \<and> Id_Socks5 \<in> set protocols then
               with_auth st (accept_socks5 (ae_epoch env) (ae_t1 env) (ae_t2 env) (ls_auth st) peer_ip (prefixed first c1))
             else if byte0 = 0x04 \<and> Id_Socks4 \<in> set protocols then
               with_auth st (accept_socks4 (ae_epoch env) (ae_t1 env) (ae_t2 env) (ls_auth st) peer_ip (prefixed first c1))
             else if Id_Http \<in> set protocols then
               (case detect_http_loop ks first c1 of
                  (Inl e, c2) \<Rightarrow> (Err e, st, c2)
                | (Inr _, c2) \<Rightarrow>
                    with_auth st (accept_http (ae_b64 env) (ae_epoch env) (ae_t1 env) (ae_t2 env) (ls_auth st) peer_ip c2))
             else if protocols = [Id_Shadowsocks] then accept_shadowsocks env ss_config byte0 st c1
             else if protocols = [Id_ShadowsocksR] then
               (Err (Accept_Text ''SSR compatibility support is not included in this build''), st, c1)
             else if protocols = [Id_Trojan] then accept_trojan env trojan_config byte0 st c1
             else (Err no_protocol, st, c1))))"

definition accept_with_fixed_target ::
  "accept_env \<Rightarrow> nat list \<Rightarrow> protocol_id list \<Rightarrow> inbound_shadowsocks_config option \<Rightarrow> inbound_trojan_config option \<Rightarrow>
   target_addr option \<Rightarrow> listener_state \<Rightarrow> conn \<Rightarrow> listener_result" where
  "accept_with_fixed_target env ks protocols ss_config trojan_config fixed_target st c =
    accept_with_fixed_target_for_peer env ks protocols ss_config trojan_config fixed_target None st c"

definition accept ::
  "accept_env \<Rightarrow> nat list \<Rightarrow> protocol_id list \<Rightarrow> inbound_shadowsocks_config option \<Rightarrow> inbound_trojan_config option \<Rightarrow>
   listener_state \<Rightarrow> conn \<Rightarrow> listener_result" where
  "accept env ks protocols ss_config trojan_config st c =
    accept_with_fixed_target env ks protocols ss_config trojan_config None st c"

subsection \<open>Detection\<close>

lemma prefixed_eq: "prefixed bs c = c\<lparr>rx := bs @ rx c\<rparr>"
  by (simp add: prefixed_def prefixed_conn_def PrefixedStream_new_def)

lemma detect_answers:
  "detect_http_method p = Http_Match \<Longrightarrow> http_method_accepts (p @ q)"
  "detect_http_method p = Http_NoMatch \<Longrightarrow> \<not> http_method_accepts (p @ q)"
  "detect_http_method p = Http_NeedMore \<Longrightarrow> length p \<le> 16 \<and> \<not> http_method_accepts p"
  using http_method.detect_match [of p 100 q] http_method.detect_nomatch [of p q]
    http_method.detect_need [of p "Suc (length p)"] by (auto simp: detect_http_result_def)

lemma read_chunk_append:
  "read_chunk ks c = (bs, ks', c') \<Longrightarrow> c = c'\<lparr>rx := bs @ rx c'\<rparr> \<and> length bs \<le> 32 \<and> (bs = [] \<longrightarrow> rx c = [])"
  by (cases c) (auto simp: read_chunk_def read_some_def max_def split: list.splits prod.splits if_splits)

text \<open>The answer depends on the bytes alone, and on a match no byte is lost.\<close>

lemma detect_http_loop_bytes:
  "if http_method_accepts (pre @ rx c) then detect_http_loop ks pre c = (Ok (), prefixed pre c)
   else \<exists>c'. detect_http_loop ks pre c = (Err no_protocol, c')"
proof (induction ks pre c rule: detect_http_loop.induct)
  case (1 ks pre c)
  show ?case
  proof (cases "detect_http_method pre")
    case Http_Match
    with detect_answers(1) show ?thesis by (simp add: detect_http_loop.simps [of ks])
  next
    case Http_NoMatch
    with detect_answers(2) show ?thesis by (simp add: detect_http_loop.simps [of ks])
  next
    case Http_NeedMore
    obtain bs ks' c' where rd: "read_chunk ks c = (bs, ks', c')" by (metis surj_pair)
    from read_chunk_append [OF rd] have c: "c = c'\<lparr>rx := bs @ rx c'\<rparr>" "length bs \<le> 32" "bs = [] \<longrightarrow> rx c = []" by auto
    from detect_answers(3) [OF Http_NeedMore] have n: "\<not> 512 \<le> length pre" "\<not> http_method_accepts pre"
      by auto
    have t: "take 512 (pre @ bs) = pre @ bs" using detect_answers(3) [OF Http_NeedMore] c(2) by (intro take_all) simp
    show ?thesis
    proof (cases "bs = []")
      case True
      with c(3) n rd Http_NeedMore show ?thesis by (simp add: detect_http_loop.simps [of ks])
    next
      case False
      have rx: "rx c = bs @ rx c'" and pr: "prefixed pre c = prefixed (pre @ bs) c'"
        using c(1) by (cases c', simp add: prefixed_eq)+
      have "detect_http_loop ks pre c = detect_http_loop ks' (pre @ bs) c'"
        using False n rd Http_NeedMore t by (simp add: detect_http_loop.simps [of ks])
      with "1.IH" [OF Http_NeedMore n(1) rd [symmetric] refl False, unfolded t] show ?thesis by (simp add: rx pr)
    qed
  qed
qed

subsection \<open>A listener with credentials\<close>

text \<open>The protocol an accepted session speaks, of the three that take part in the listener's policy.\<close>

definition session_speaks :: "accepted_session \<Rightarrow> protocol_id option" where
  "session_speaks s =
    (case s of
       Session_Tunnel t \<Rightarrow>
         (case pt_protocol t of
            Tunnel_HttpConnect \<Rightarrow> Some Id_Http
          | Tunnel_Socks4 \<Rightarrow> Some Id_Socks4
          | Tunnel_Socks5 \<Rightarrow> Some Id_Socks5
          | _ \<Rightarrow> None)
     | Session_HttpForward _ \<Rightarrow> Some Id_Http
     | Session_Udp _ \<Rightarrow> Some Id_Socks5
     | _ \<Rightarrow> None)"

text \<open>
  The bytes carry the credentials in the form the protocol has for them: the SOCKS5 sub-negotiation
  and the HTTP header a user name and password, the SOCKS4 request a user id only. With a password the session's
  identity is the user's.
\<close>

fun presents_credentials ::
  "(string \<Rightarrow> u8 list option) \<Rightarrow> string \<Rightarrow> string \<Rightarrow> protocol_id \<Rightarrow> client_identity \<Rightarrow> u8 list \<Rightarrow> bool" where
  "presents_credentials b64 u p Id_Socks5 i bs \<longleftrightarrow>
    (\<exists>methods rest. bs = [5, word_of_nat (length methods)] @ methods @ cred_bytes u p @ rest) \<and> i = Username u"
| "presents_credentials b64 u p Id_Socks4 i bs \<longleftrightarrow>
    (\<exists>req rest. wf_socks4_request req \<and> bs = encode_socks4_request req @ rest \<and> s4_user_id req = u)"
| "presents_credentials b64 u p Id_Http i bs \<longleftrightarrow>
    (\<exists>head_buf rest. bs = head_buf @ rest \<and> http_carries b64 u p (split_str crlf (from_utf8_lossy head_buf))) \<and> i = Username u"
| "presents_credentials b64 u p _ i bs \<longleftrightarrow> False"

lemma accept_socks5_speaks: "accept_socks5 epoch t1 t2 auth peer c = (Ok s, auth', c') \<Longrightarrow> session_speaks s = Some Id_Socks5"
  by (auto simp: accept_socks5_def accept_request_def session_speaks_def Let_def
      split: prod.splits sum.splits if_splits socks5_command.splits)

lemma accept_socks4_speaks: "accept_socks4 epoch t1 t2 auth peer c = (Ok s, auth', c') \<Longrightarrow> session_speaks s = Some Id_Socks4"
  by (auto simp: accept_socks4_def session_speaks_def Let_def split: prod.splits sum.splits if_splits)

lemma accept_http_speaks: "accept_http b64 epoch t1 t2 auth peer c = (Ok s, auth', c') \<Longrightarrow> session_speaks s = Some Id_Http"
  by (auto simp: accept_http_def accept_http_forward_def session_speaks_def Let_def split: prod.splits sum.splits if_splits)

lemma read_first:
  assumes "read_exact Accept_Io 1 c = (Ok first, c1)"
  shows "rx (prefixed first c1) = rx c"
  using assms by (auto simp: prefixed_eq read_exact_def split: if_splits)

lemma with_auth_Ok: "with_auth st r = (Ok s, st', c') \<longleftrightarrow> (\<exists>auth. r = (Ok s, auth, c') \<and> st' = st\<lparr>ls_auth := auth\<rparr>)"
  by (auto simp: with_auth_def split: prod.splits)

text \<open>
  C4: A listener with a user name and password that is not a pure echo, raw, Shadowsocks or Trojan
  listener (the first two accept anyone, the others have their own password) serves no HTTP or SOCKS
  client without credentials. An accepted session speaks a protocol the listener offers, and the first
  bytes of the connection present the credentials in the form of that protocol: a SOCKS5 session
  began with the sub-negotiation of the configured user name and password, an HTTP session with a head
  whose proxy authorization carries them, a SOCKS4 session with the configured user name as user id,
  which is all that protocol presents; the session's identity is then the user's (SOCKS5 and HTTP). Otherwise
  the reuse cache answered for the client's address and the session has the identity it holds. How the
  bytes arrive does not matter.
\<close>
theorem listener_requires_credentials:
  assumes acc: "accept_with_fixed_target_for_peer env ks protocols ss tr ft peer st c = (Ok s, st', c')"
    and cred: "auth_credentials (ls_auth st) = Some (u, p, reuse)"
    and offered: "protocols \<notin> {[Id_Echo], [Id_Raw], [Id_Shadowsocks], [Id_Trojan]}"
  shows "\<exists>protocol. session_speaks s = Some protocol \<and> protocol \<in> set protocols \<and>
    (presents_credentials (ae_b64 env) u p protocol (session_identity s) (rx c) \<or>
     (\<exists>ip cache. peer = Some ip \<and> reuse = Some cache \<and>
        fst (AuthReuseCache_lookup (ae_t1 env) ip cache) = Some (session_identity s)))"
proof -
  from acc offered obtain first c1 where rd: "read_exact Accept_Io 1 c = (Ok first, c1)"
    by (auto simp: accept_with_fixed_target_for_peer_def split: sum.splits prod.splits if_splits)
  let ?c = "prefixed first c1"
  consider (s5) auth where "Id_Socks5 \<in> set protocols"
        "accept_socks5 (ae_epoch env) (ae_t1 env) (ae_t2 env) (ls_auth st) peer ?c = (Ok s, auth, c')"
    | (s4) auth where "Id_Socks4 \<in> set protocols"
        "accept_socks4 (ae_epoch env) (ae_t1 env) (ae_t2 env) (ls_auth st) peer ?c = (Ok s, auth, c')"
    | (http) x c2 auth where "Id_Http \<in> set protocols" "detect_http_loop ks first c1 = (Ok x, c2)"
        "accept_http (ae_b64 env) (ae_epoch env) (ae_t1 env) (ae_t2 env) (ls_auth st) peer c2 = (Ok s, auth, c')"
    using acc offered
    by (auto simp: accept_with_fixed_target_for_peer_def rd [simplified] Let_def with_auth_Ok
        split: if_splits sum.splits prod.splits)
  then show ?thesis
  proof cases
    case s5
    from accept_socks5_authenticated [OF s5(2) cred] s5(1) accept_socks5_speaks [OF s5(2)] show ?thesis
      unfolding read_first [OF rd] by auto
  next
    case s4
    from accept_socks4_authenticated [OF s4(2) cred] s4(1) accept_socks4_speaks [OF s4(2)] show ?thesis
      unfolding read_first [OF rd] by auto
  next
    case http
    have "c2 = ?c" using detect_http_loop_bytes [of first c1 ks] http(2) by (auto split: if_splits)
    with accept_http_authenticated [OF http(3) cred] http(1) accept_http_speaks [OF http(3)] show ?thesis
      unfolding read_first [OF rd, symmetric] by auto
  qed
qed

definition example_env :: accept_env where
  "example_env = \<lparr>ae_crypto = plain_crypto, ae_sha224 = (\<lambda>bs. replicate 28 0), ae_b64 = (\<lambda>s. Some (as_bytes s)),
     ae_epoch = 0, ae_t1 = 1, ae_t2 = 2\<rparr>"

theorem listener_requires_credentials_witness:
  "presents_credentials (\<lambda>s. Some (as_bytes s)) ''u'' ''p'' Id_Socks5 (Username ''u'')
     [5, 1, 2, 1, 1, 0x75, 1, 0x70, 5, 1, 0, 1, 10, 0, 0, 1, 1, 0xBB, 0x47]"
proof -
  let ?bs = "[5, 1, 2, 1, 1, 0x75, 1, 0x70, 5, 1, 0, 1, 10, 0, 0, 1, 1, 0xBB, 0x47] :: u8 list"
  let ?c = "\<lparr>rx = ?bs, tx = [], room = 99\<rparr>"
  let ?st = "\<lparr>ls_auth = UsernamePassword ''u'' ''p'', ls_salts = salt_window_empty\<rparr>"
  let ?peer = "Some (V4 [192, 168, 0, 7])"
  let ?s = "Session_Tunnel \<lparr>pt_target = \<lparr>tgt_host = Ip (V4 [10, 0, 0, 1]), tgt_port = 443\<rparr>, pt_layer = Layer_None,
    pt_protocol = Tunnel_Socks5, pt_reply_context = Reply_Socks5, pt_identity = Username ''u''\<rparr>"
  let ?c' = "\<lparr>rx = [0x47], tx = [5, 2, 1, 0], room = 95\<rparr>"
  have "accept_socks5 0 1 2 (UsernamePassword ''u'' ''p'') ?peer ?c = (Ok ?s, UsernamePassword ''u'' ''p'', ?c')"
    by code_simp
  then have "accept_with_fixed_target_for_peer example_env [] [Id_Http, Id_Socks5] None None None ?peer ?st ?c = (Ok ?s, ?st, ?c')"
    by (simp add: accept_with_fixed_target_for_peer_def read_exact_def prefixed_eq example_env_def with_auth_def)
  from listener_requires_credentials [OF this, of "''u''" "''p''" None]
  show ?thesis by (simp add: example_env_def session_speaks_def)
qed

text \<open>
  A Trojan listener answers a wrong hash after 56 bytes and without writing anything; with a fallback
  it hands the bytes behind the hash line to the fallback target.
\<close>

lemma trojan_listener_rejects:
  assumes "rx c = b # hash_rest @ delim @ rest" "length hash_rest = 55" "length delim = 2"
    and wrong: "\<not> trojan_check_password (ae_sha224 env) (b # hash_rest) (itr_password cfg)"
  shows "accept_with_fixed_target_for_peer env ks [Id_Trojan] ss (Some cfg) ft peer st c =
    (case itr_fallback cfg of
       None \<Rightarrow> (Err AuthenticationFailed, st, c\<lparr>rx := delim @ rest\<rparr>)
     | Some f \<Rightarrow>
         (case TargetAddr_from_str f of
            Inl e \<Rightarrow> (Err (Accept_Text (''invalid trojan fallback address: '' @ e)), st, c\<lparr>rx := rest\<rparr>)
          | Inr t \<Rightarrow> (Ok (plain_tunnel t Layer_None Tunnel_Trojan Reply_Trojan), st, c\<lparr>rx := rest\<rparr>)))"
  using assms
  by (simp add: accept_with_fixed_target_for_peer_def read_exact_def accept_trojan_def trojan_fallback_def Let_def
      split: option.split sum.split)

end
