(* ===== verification/Http_Response.thy ===== *)
theory Http_Response
  imports Http_Forward
begin

text \<open>
  The way back through the forward proxy (\<^verbatim>\<open>eggress-protocol-http/src/forward/server.rs\<close>): the
  response head of the origin, what is told to the client, and the relay of the body. The upstream
  stream is buffered by the code; the bytes that were read ahead are still on the connection here.
  Results: the head told to the client has exactly the lines it should have, the body is relayed byte
  for byte with the framing that was announced, and the byte count in the report is exact.
\<close>

record forward_resp =
  rs_version :: string
  rs_status :: u16
  rs_reason :: string
  rs_headers :: "header list"
  rs_content_length :: "nat option"
  rs_is_chunked :: bool
  rs_connection_close :: bool

definition MAX_RESPONSE_HEAD_SIZE :: nat where "MAX_RESPONSE_HEAD_SIZE = 32 * 1024"
definition MAX_INFORMATIONAL_RESPONSES :: nat where "MAX_INFORMATIONAL_RESPONSES = 8"
definition MAX_RESPONSE_CHUNK_SIZE :: nat where "MAX_RESPONSE_CHUNK_SIZE = 64 * 1024 * 1024"
definition MAX_TRAILER_BYTES :: nat where "MAX_TRAILER_BYTES = 64 * 1024"

subsection \<open>The head\<close>

fun read_response_bytes :: "u8 list \<Rightarrow> nat \<Rightarrow> u8 list \<Rightarrow> (http_error + u8 list) \<times> u8 list" where
  "read_response_bytes head crlf_count [] =
    (if MAX_RESPONSE_HEAD_SIZE \<le> length head then (Err HeaderTooLarge, [])
     else (Err (MalformedResponse ''unexpected EOF reading response''), []))"
| "read_response_bytes head crlf_count (b # bs) =
    (if MAX_RESPONSE_HEAD_SIZE \<le> length head then (Err HeaderTooLarge, b # bs)
     else (let head1 = head @ [b]; crlf_count1 = (if ends_crlf head1 then Suc crlf_count else crlf_count) in
           if ends_crlf head1 \<and> MAX_HEADER_LINES + 2 < crlf_count1 then (Err TooManyHeaders, bs)
           else if ends_double_crlf head1 then (Ok head1, bs)
           else read_response_bytes head1 crlf_count1 bs))"

text \<open>What the loop over the header lines has seen.\<close>

record head_scan =
  hs_headers :: "header list"
  hs_content_length :: "nat option"
  hs_is_chunked :: bool
  hs_connection_close :: bool

definition names_chunked :: "string \<Rightarrow> bool" where
  "names_chunked value \<longleftrightarrow>
    (\<exists>coding \<in> set (split_on CHR '','' value).
       eq_ignore_ascii_case (trim (hd (split_on CHR '';'' (trim coding)))) ''chunked'')"

definition scan_header :: "head_scan \<Rightarrow> header \<Rightarrow> http_error + head_scan" where
  "scan_header st h =
    (case h of (name, value) \<Rightarrow>
       try_bind
         (if eq_ignore_ascii_case name ''Content-Length'' then
            (case parse_u64_radix 10 value of
               Inl _ \<Rightarrow> Err InvalidContentLength
             | Inr parsed \<Rightarrow>
                 if (case hs_content_length st of Some previous \<Rightarrow> previous \<noteq> parsed | None \<Rightarrow> False)
                 then Err ConflictingContentLength
                 else Ok (st\<lparr>hs_content_length := Some parsed\<rparr>))
          else if eq_ignore_ascii_case name ''Transfer-Encoding'' then
            Ok (st\<lparr>hs_is_chunked := hs_is_chunked st \<or> names_chunked value\<rparr>)
          else if eq_ignore_ascii_case name ''Connection'' then
            Ok (st\<lparr>hs_connection_close := has_close_token value\<rparr>)
          else Ok st)
         (\<lambda>st1. Ok (st1\<lparr>hs_headers := hs_headers st1 @ [(name, value)]\<rparr>)))"

fun scan_lines :: "nat \<Rightarrow> head_scan \<Rightarrow> string list \<Rightarrow> http_error + head_scan" where
  "scan_lines header_count st [] = Ok st"
| "scan_lines header_count st (line # ls) =
    (if line = [] then Ok st
     else if MAX_HEADER_LINES < Suc header_count then Err TooManyHeaders
     else (case parse_header_line line of
             None \<Rightarrow> scan_lines (Suc header_count) st ls
           | Some h \<Rightarrow> try_bind (scan_header st h) (\<lambda>st1. scan_lines (Suc header_count) st1 ls)))"

definition parse_response_head :: "u8 list \<Rightarrow> http_error + forward_resp" where
  "parse_response_head head_buf =
    (case split_str crlf (from_utf8_lossy head_buf) of
       [] \<Rightarrow> Err (MalformedResponse ''empty response'')
     | status_line # ls \<Rightarrow>
         (case split_whitespace status_line of
            version # code # others \<Rightarrow>
              (case parse_u16 code of
                 Inl e \<Rightarrow> Err (MalformedResponse (''invalid status code: '' @ int_error_text e))
               | Inr status \<Rightarrow>
                   try_bind (scan_lines 0 \<lparr>hs_headers = [], hs_content_length = None, hs_is_chunked = False,
                                hs_connection_close = False\<rparr> ls) (\<lambda>st.
                     Ok \<lparr>rs_version = version, rs_status = status,
                        rs_reason = (case others of reason # _ \<Rightarrow> reason | [] \<Rightarrow> []),
                        rs_headers = hs_headers st,
                        rs_content_length = (if hs_is_chunked st then None else hs_content_length st),
                        rs_is_chunked = hs_is_chunked st,
                        rs_connection_close = hs_connection_close st\<rparr>))
          | _ \<Rightarrow> Err (MalformedResponse (''invalid status line: '' @ status_line))))"

definition read_response_head :: "(http_error, forward_resp) io" where
  "read_response_head c =
    (case read_response_bytes [] 0 (rx c) of
       (Inl e, rest) \<Rightarrow> (Err e, c\<lparr>rx := rest\<rparr>)
     | (Inr head_buf, rest) \<Rightarrow> (parse_response_head head_buf, c\<lparr>rx := rest\<rparr>))"

definition has_line_break :: "string \<Rightarrow> bool" where
  "has_line_break s \<longleftrightarrow> CHR 0x0D \<in> set s \<or> CHR 0x0A \<in> set s"

definition format_response_head :: "forward_resp \<Rightarrow> bool \<Rightarrow> http_error + string" where
  "format_response_head response force_close =
    (let filtered = filter_hop_by_hop (rs_headers response) in
     if \<not> list_all (\<lambda>c. 0x20 \<le> (of_char c :: nat) \<and> (of_char c :: nat) \<le> 0x7E) (rs_reason response)
     then Err (MalformedResponse ''response reason contains non-printable bytes'')
     else if list_ex (\<lambda>(name, value). has_line_break name \<or> has_line_break value) filtered
     then Err (MalformedResponse ''response header contains a line break'')
     else Ok (''HTTP/1.1 '' @ show_nat (unat (rs_status response)) @ '' '' @ rs_reason response @ crlf @
              concat (map (\<lambda>h. header_line h @ crlf) filtered) @
              (if force_close \<and> \<not> has_connection filtered then ''Connection: close'' @ crlf else []) @ crlf))"


subsection \<open>The body\<close>

text \<open>
  The inner read loops: the reader, the writer, the bytes left and the bytes forwarded so far; the flag says
  whether the peer sent all of them.
\<close>

function relay_exact :: "nat \<Rightarrow> nat \<Rightarrow> conn \<Rightarrow> conn \<Rightarrow> (http_error + (bool \<times> nat)) \<times> conn \<times> conn" where
  "relay_exact remaining n r w =
    (if remaining = 0 then (Ok (True, n), r, w)
     else (case read_some (min remaining 8192) r of (bs, r1) \<Rightarrow>
       if bs = [] then (Ok (False, n), r1, w)
       else (case write_all http_io bs w of
               (Inl e, w1) \<Rightarrow> (Err e, r1, w1)
             | (Inr _, w1) \<Rightarrow> relay_exact (remaining - length bs) (n + length bs) r1 w1)))"
  by pat_completeness auto
termination
  by (relation "measure (\<lambda>(remaining, n, r, w). remaining)") auto

function relay_to_eof :: "nat \<Rightarrow> conn \<Rightarrow> conn \<Rightarrow> (http_error + nat) \<times> conn \<times> conn" where
  "relay_to_eof n r w =
    (case read_some 8192 r of (bs, r1) \<Rightarrow>
       if bs = [] then (Ok n, r1, w)
       else (case write_all http_io bs w of
               (Inl e, w1) \<Rightarrow> (Err e, r1, w1)
             | (Inr _, w1) \<Rightarrow> relay_to_eof (n + length bs) r1 w1))"
  by pat_completeness auto
termination
  by (relation "measure (\<lambda>(n, r, w). length (rx r))") (auto simp: read_some_def)

lemma read_bounded_line_into_shorter:
  "read_bounded_line_into m c = (r, c') \<Longrightarrow>
    length (rx c') \<le> length (rx c) \<and> (r = Ok l \<longrightarrow> length (rx c') < length (rx c))"
  using read_line_loop_shorter [of MalformedResponse m "[]" "rx c" r "rx c'" l]
  by (auto simp: read_bounded_line_into_def split: prod.splits)

text \<open>A line that was read ends in a line break, so the second way out of the loop is the first.\<close>

function relay_trailers :: "nat \<Rightarrow> nat \<Rightarrow> conn \<Rightarrow> conn \<Rightarrow> (http_error + nat) \<times> conn \<times> conn" where
  "relay_trailers trailer_total n r w =
    (case read_bounded_line_into 8192 r of
       (Inl e, r1) \<Rightarrow> (Err e, r1, w)
     | (Inr trailer, r1) \<Rightarrow>
         (let trailer_total1 = trailer_total + length trailer in
          if MAX_TRAILER_BYTES < trailer_total1
          then (Err (MalformedResponse ''response trailers exceed maximum total size''), r1, w)
          else (case write_all http_io trailer w of
                  (Inl e, w1) \<Rightarrow> (Err e, r1, w1)
                | (Inr _, w1) \<Rightarrow>
                    if trailer = CRLF_bytes then (Ok (n + length trailer), r1, w1)
                    else if \<not> ends_crlf trailer then (Ok (n + length trailer), r1, w1)
                    else relay_trailers trailer_total1 (n + length trailer) r1 w1)))"
  by pat_completeness auto
termination
  by (relation "measure (\<lambda>(t, n, r, w). length (rx r))") (auto dest!: read_bounded_line_into_shorter [OF sym])

declare relay_exact.simps [simp del] relay_to_eof.simps [simp del] relay_trailers.simps [simp del]

fun strip_rev_crlf :: "string \<Rightarrow> string" where
  "strip_rev_crlf (a # b # s) = (if a = CHR 0x0A \<and> b = CHR 0x0D then strip_rev_crlf s else a # b # s)"
| "strip_rev_crlf s = s"

definition trim_end_crlf :: "string \<Rightarrow> string" where
  "trim_end_crlf s = rev (strip_rev_crlf (rev s))"

definition response_chunk_size :: "u8 list \<Rightarrow> http_error + nat" where
  "response_chunk_size size_line =
    (case parse_u64_radix 16 (trim (hd (split_on CHR '';'' (trim_end_crlf (from_utf8_lossy size_line))))) of
       Inl e \<Rightarrow> Err (MalformedResponse (''invalid chunk size: '' @ int_error_text e))
     | Inr chunk_size \<Rightarrow> Ok chunk_size)"

text \<open>
  The loop over the chunks, whose flag is \<open>False\<close> when the upstream closed inside a chunk. The size is
  bounded before 2 is added to it, so neither conversion of the sum fails.
\<close>

lemma relay_exact_shorter: "relay_exact k n r w = (x, r', w') \<Longrightarrow> length (rx r') \<le> length (rx r)"
proof (induction k n r w rule: relay_exact.induct)
  case (1 remaining n r w)
  show ?case
  proof (cases "remaining = 0")
    case False
    then show ?thesis
      using 1 by (auto simp: relay_exact.simps [of remaining n r w] read_some_def split: if_splits prod.splits sum.splits)
        fastforce+
  qed (use 1 in \<open>simp add: relay_exact.simps\<close>)
qed

function relay_chunks :: "nat \<Rightarrow> conn \<Rightarrow> conn \<Rightarrow> (http_error + (bool \<times> nat)) \<times> conn \<times> conn" where
  "relay_chunks n r w =
    (case read_bounded_line_into 1024 r of
       (Inl e, r1) \<Rightarrow> (Err e, r1, w)
     | (Inr size_line, r1) \<Rightarrow>
         (case response_chunk_size size_line of
            Inl e \<Rightarrow> (Err e, r1, w)
          | Inr chunk_size \<Rightarrow>
              if MAX_RESPONSE_CHUNK_SIZE < chunk_size
              then (Err (MalformedResponse ''response chunk too large''), r1, w)
              else (case write_all http_io size_line w of
                      (Inl e, w1) \<Rightarrow> (Err e, r1, w1)
                    | (Inr _, w1) \<Rightarrow>
                        if chunk_size = 0 then
                          (case relay_trailers 0 (n + length size_line) r1 w1 of
                             (Inl e, r2, w2) \<Rightarrow> (Err e, r2, w2)
                           | (Inr n2, r2, w2) \<Rightarrow> (Ok (True, n2), r2, w2))
                        else
                          (case relay_exact (chunk_size + 2) (n + length size_line) r1 w1 of
                             (Inl e, r2, w2) \<Rightarrow> (Err e, r2, w2)
                           | (Inr (done, n2), r2, w2) \<Rightarrow>
                               if done then relay_chunks n2 r2 w2 else (Ok (False, n2), r2, w2)))))"
  by pat_completeness auto
termination
proof (relation "measure (\<lambda>(n, r, w). length (rx r))", goal_cases)
  case (2 n r w)
  then show ?case by (auto dest!: read_bounded_line_into_shorter [OF sym] relay_exact_shorter [OF sym])
qed simp

declare relay_chunks.simps [simp del]

subsection \<open>The response\<close>

record forward_result =
  bytes_forwarded :: nat
  fres_status :: u16
  upstream_alive :: bool
  client_should_close :: bool

definition upstream_reusable :: "forward_resp \<Rightarrow> bool" where
  "upstream_reusable response =
    (if rs_connection_close response then False
     else if contains_str ''1.1'' (rs_version response) then True
     else (\<exists>(n, v) \<in> set (rs_headers response). eq_ignore_ascii_case n ''Keep-Alive'' \<and> v \<noteq> []))"

definition relay_response_body ::
  "forward_resp \<Rightarrow> nat \<Rightarrow> conn \<Rightarrow> conn \<Rightarrow> (http_error + forward_result) \<times> conn \<times> conn" where
  "relay_response_body response n u c =
    (let finish = (\<lambda>n eof_framing. \<lparr>bytes_forwarded = n, fres_status = rs_status response,
           upstream_alive = upstream_reusable response \<and> \<not> eof_framing,
           client_should_close = rs_connection_close response\<rparr>)
     in case rs_content_length response of
          Some len \<Rightarrow>
            (case relay_exact len n u c of
               (Inl e, u1, c1) \<Rightarrow> (Err e, u1, c1)
             | (Inr (done, n1), u1, c1) \<Rightarrow>
                 if done then (Ok (finish n1 False), u1, c1)
                 else (Err (MalformedResponse ''unexpected EOF in response body''), u1, c1))
        | None \<Rightarrow>
            if rs_is_chunked response then
              (case relay_chunks n u c of
                 (Inl e, u1, c1) \<Rightarrow> (Err e, u1, c1)
               | (Inr (done, n1), u1, c1) \<Rightarrow>
                   if done then (Ok (finish n1 False), u1, c1)
                   else (Ok \<lparr>bytes_forwarded = n1, fres_status = rs_status response, upstream_alive = False,
                           client_should_close = True\<rparr>, u1, c1))
            else
              (case relay_to_eof n u c of
                 (Inl e, u1, c1) \<Rightarrow> (Err e, u1, c1)
               | (Inr n1, u1, c1) \<Rightarrow> (Ok (finish n1 True), u1, c1)))"

definition send_response_head ::
  "forward_resp \<Rightarrow> bool \<Rightarrow> nat \<Rightarrow> conn \<Rightarrow> (http_error + nat) \<times> conn" where
  "send_response_head response force_close n c =
    (case format_response_head response force_close of
       Inl e \<Rightarrow> (Err e, c)
     | Inr head \<Rightarrow>
         (case write_all http_io (as_bytes head) c of
            (Inl e, c1) \<Rightarrow> (Err e, c1)
          | (Inr _, c1) \<Rightarrow> (Ok (n + length head), c1)))"

lemma read_response_bytes_shorter:
  "read_response_bytes head k bs = (r, rest) \<Longrightarrow> length rest \<le> length bs \<and> (r = Ok l \<longrightarrow> length rest < length bs)"
  by (induction bs arbitrary: head k) (auto simp: Let_def split: if_splits, fastforce+)

lemma read_response_head_shorter: "read_response_head c = (Ok resp, c') \<Longrightarrow> length (rx c') < length (rx c)"
  using read_response_bytes_shorter [of "[]" 0 "rx c"]
  by (fastforce simp: read_response_head_def split: prod.splits sum.splits)

text \<open>The loop over the informational responses: how many there were, and the bytes forwarded so far.\<close>

function relay_heads ::
  "nat \<Rightarrow> nat \<Rightarrow> conn \<Rightarrow> conn \<Rightarrow> (http_error + (forward_resp \<times> nat)) \<times> conn \<times> conn" where
  "relay_heads informational_responses n u c =
    (case read_response_head u of
       (Inl e, u1) \<Rightarrow> (Err e, u1, c)
     | (Inr response, u1) \<Rightarrow>
         if rs_status response = 101 then (Err UpgradeUnsupported, u1, c)
         else if 100 \<le> rs_status response \<and> rs_status response < 200 then
           (if MAX_INFORMATIONAL_RESPONSES < Suc informational_responses
            then (Err TooManyInformationalResponses, u1, c)
            else (case send_response_head response False n c of
                    (Inl e, c1) \<Rightarrow> (Err e, u1, c1)
                  | (Inr n1, c1) \<Rightarrow> relay_heads (Suc informational_responses) n1 u1 c1))
         else (Ok (response, n), u1, c))"
  by pat_completeness auto
termination
  by (relation "measure (\<lambda>(i, n, u, c). length (rx u))") (auto dest!: read_response_head_shorter [OF sym])

declare relay_heads.simps [simp del]

definition forward_response :: "conn \<Rightarrow> conn \<Rightarrow> (http_error + forward_result) \<times> conn \<times> conn" where
  "forward_response u c =
    (case relay_heads 0 0 u c of
       (Inl e, u1, c1) \<Rightarrow> (Err e, u1, c1)
     | (Inr (response, n), u1, c1) \<Rightarrow>
         (case send_response_head response True n c1 of
            (Inl e, c2) \<Rightarrow> (Err e, u1, c2)
          | (Inr n2, c2) \<Rightarrow> relay_response_body response n2 u1 c2))"

subsection \<open>Bytes that pass through\<close>

lemma moved_Nil: "moved [] r w r w"
  by (simp add: moved_def)

lemma moved_read_some:
  assumes "read_some k r = (bs, r1)" "write_all http_io bs w = (Ok u, w1)"
  shows "moved bs r w r1 w1"
  using assms by (auto simp: read_some_def moved_def write_all_Ok_iff)

lemma relay_exact_sound:
  "relay_exact k n r w = (Ok (done, m), r', w') \<Longrightarrow>
    \<exists>bs. moved bs r w r' w' \<and> m = n + length bs \<and> (if done then length bs = k else length bs < k \<and> rx r' = [])"
proof (induction k n r w rule: relay_exact.induct)
  case (1 k n r w)
  obtain bs r1 where rd: "read_some (min k 8192) r = (bs, r1)" by fastforce
  then have bs: "bs = take (min k 8192) (rx r)" "r1 = r\<lparr>rx := drop (min k 8192) (rx r)\<rparr>" by (auto simp: read_some_def)
  consider "k = 0" | "k \<noteq> 0" "bs = []" | u w1 where "k \<noteq> 0" "bs \<noteq> []" "write_all http_io bs w = (Ok u, w1)"
    | e w1 where "k \<noteq> 0" "bs \<noteq> []" "write_all http_io bs w = (Err e, w1)"
    by (metis obj_sumE surj_pair)
  then show ?case
  proof cases
    case 1
    with "1.prems" show ?thesis using moved_Nil by (auto simp: relay_exact.simps)
  next
    case 2
    then have "r1 = r" "rx r = []" using bs by (cases r; auto simp: min_def split: if_splits)+
    with 2 "1.prems" rd show ?thesis using moved_Nil [of r w] by (auto simp: relay_exact.simps [of k])
  next
    case (3 u w1)
    then have "relay_exact (k - length bs) (n + length bs) r1 w1 = (Ok (done, m), r', w')"
      using "1.prems" rd by (simp add: relay_exact.simps [of k])
    with "1.IH" [OF \<open>k \<noteq> 0\<close> rd [symmetric] \<open>bs \<noteq> []\<close> 3(3) [symmetric] refl]
    obtain cs where cs: "moved cs r1 w1 r' w'" "m = n + length bs + length cs"
      "if done then length cs = k - length bs else length cs < k - length bs \<and> rx r' = []"
      by blast
    have "moved (bs @ cs) r w r' w'" using moved_read_some [OF rd 3(3)] cs(1) by (auto simp: moved_append)
    moreover have "length bs \<le> k" by (simp add: bs)
    ultimately show ?thesis using cs by (intro exI [of _ "bs @ cs"]) (auto split: if_splits)
  next
    case (4 e w1)
    with "1.prems" rd show ?thesis by (simp add: relay_exact.simps [of k])
  qed
qed

lemma relay_to_eof_sound:
  "relay_to_eof n r w = (Ok m, r', w') \<Longrightarrow> \<exists>bs. moved bs r w r' w' \<and> m = n + length bs \<and> rx r' = []"
proof (induction n r w rule: relay_to_eof.induct)
  case (1 n r w)
  obtain bs r1 where rd: "read_some 8192 r = (bs, r1)" by fastforce
  show ?case
  proof (cases "bs = []")
    case True
    then have "r1 = r" "rx r = []" using rd by (cases r; auto simp: read_some_def)+
    with True "1.prems" rd show ?thesis using moved_Nil [of r w] by (auto simp: relay_to_eof.simps [of n])
  next
    case False
    then obtain w1 where w: "write_all http_io bs w = (Ok (), w1)"
      and more: "relay_to_eof (n + length bs) r1 w1 = (Ok m, r', w')"
      using "1.prems" rd by (auto simp: relay_to_eof.simps [of n] split: prod.splits sum.splits)
    from "1.IH" [OF rd [symmetric] False w [symmetric] refl more]
    obtain cs where "moved cs r1 w1 r' w'" "m = n + length bs + length cs" "rx r' = []" by blast
    moreover have "moved bs r w r1 w1" by (rule moved_read_some [OF rd w])
    ultimately show ?thesis by (intro exI [of _ "bs @ cs"]) (auto simp: moved_append)
  qed
qed

lemma moved_line_into:
  assumes "read_bounded_line_into k r = (Ok l, r1)" "write_all http_io l w = (Ok u, w1)"
  shows "moved l r w r1 w1 \<and> crlf_line l \<and> length l \<le> k"
proof -
  have "read_line_loop MalformedResponse k [] (rx r) = (Ok l, rx r1)" "tx r1 = tx r" "room r1 = room r"
    using assms(1) by (auto simp: read_bounded_line_into_def split: prod.splits)
  with assms(2) show ?thesis by (auto simp: moved_def read_line_Ok_iff write_all_Ok_iff)
qed

text \<open>
  The chunks of a response, from the wire: size lines, data with its line break, and behind the chunk of size zero
  the trailer lines. The flag is \<open>False\<close> for a body that stops inside a chunk.
\<close>

inductive response_chunks :: "bool \<Rightarrow> u8 list \<Rightarrow> bool" where
  rc_last: "crlf_line l \<Longrightarrow> length l \<le> 1024 \<Longrightarrow> response_chunk_size l = Ok 0 \<Longrightarrow>
    trailer_lines BodyCopyLimits_default ts \<Longrightarrow> length ts \<le> MAX_TRAILER_BYTES \<Longrightarrow> response_chunks True (l @ ts)"
| rc_chunk: "crlf_line l \<Longrightarrow> length l \<le> 1024 \<Longrightarrow> response_chunk_size l = Ok k \<Longrightarrow> 0 < k \<Longrightarrow> k \<le> MAX_RESPONSE_CHUNK_SIZE \<Longrightarrow>
    length d = k + 2 \<Longrightarrow> response_chunks complete body \<Longrightarrow> response_chunks complete (l @ d @ body)"
| rc_cut: "crlf_line l \<Longrightarrow> length l \<le> 1024 \<Longrightarrow> response_chunk_size l = Ok k \<Longrightarrow> 0 < k \<Longrightarrow> k \<le> MAX_RESPONSE_CHUNK_SIZE \<Longrightarrow>
    length d < k + 2 \<Longrightarrow> response_chunks False (l @ d)"

lemma relay_trailers_sound:
  "relay_trailers t n r w = (Ok m, r', w') \<Longrightarrow>
    \<exists>ts. moved ts r w r' w' \<and> m = n + length ts \<and> trailer_lines BodyCopyLimits_default ts \<and> t + length ts \<le> MAX_TRAILER_BYTES"
proof (induction t n r w rule: relay_trailers.induct)
  case (1 t n r w)
  from "1.prems" obtain l r1 w1 where l: "read_bounded_line_into 8192 r = (Ok l, r1)"
    and w: "write_all http_io l w = (Ok (), w1)" and b: "\<not> MAX_TRAILER_BYTES < t + length l"
    and more: "(l = CRLF_bytes \<or> \<not> ends_crlf l) \<and> m = n + length l \<and> r' = r1 \<and> w' = w1 \<or>
      l \<noteq> CRLF_bytes \<and> ends_crlf l \<and> relay_trailers (t + length l) (n + length l) r1 w1 = (Ok m, r', w')"
    by (auto simp: relay_trailers.simps [of t] Let_def split: prod.splits sum.splits if_splits)
  have mv: "moved l r w r1 w1" "crlf_line l" "length l \<le> max_trailer_line BodyCopyLimits_default"
    using moved_line_into [OF l w] by (simp_all add: BodyCopyLimits_default_def)
  then have "ends_crlf l" by (simp add: crlf_line_def)
  with more consider (stop) "l = CRLF_bytes" "m = n + length l" "r' = r1" "w' = w1"
    | (more) "l \<noteq> CRLF_bytes" "relay_trailers (t + length l) (n + length l) r1 w1 = (Ok m, r', w')" by auto
  then show ?case
  proof cases
    case stop
    then show ?thesis using mv b trailers_end [of BodyCopyLimits_default] by auto
  next
    case more
    from "1.IH" [OF l [symmetric] refl refl b w [symmetric] refl more(1) _ more(2)] \<open>ends_crlf l\<close>
    obtain ts where "moved ts r1 w1 r' w'" "m = n + length l + length ts" "trailer_lines BodyCopyLimits_default ts"
      "t + length l + length ts \<le> MAX_TRAILER_BYTES" by blast
    with mv more(1) show ?thesis by (intro exI [of _ "l @ ts"]) (auto simp: moved_append intro: trailers_line)
  qed
qed

lemma relay_chunks_sound:
  "relay_chunks n r w = (Ok (done, m), r', w') \<Longrightarrow>
    \<exists>bs. moved bs r w r' w' \<and> m = n + length bs \<and> response_chunks done bs \<and> (done \<or> rx r' = [])"
proof (induction n r w rule: relay_chunks.induct)
  case (1 n r w)
  from "1.prems" obtain l r1 w1 k where l: "read_bounded_line_into 1024 r = (Ok l, r1)"
    and k: "response_chunk_size l = Ok k" and b: "\<not> MAX_RESPONSE_CHUNK_SIZE < k"
    and w: "write_all http_io l w = (Ok (), w1)"
    by (auto simp: relay_chunks.simps [of n] split: prod.splits sum.splits if_splits)
  have mv: "moved l r w r1 w1" "crlf_line l" "length l \<le> 1024" using moved_line_into [OF l w] by auto
  show ?case
  proof (cases "k = 0")
    case True
    then have "relay_trailers 0 (n + length l) r1 w1 = (Ok m, r', w')" and d: "done"
      using "1.prems" l k b w by (auto simp: relay_chunks.simps [of n] split: prod.splits sum.splits)
    from relay_trailers_sound [OF this(1)] obtain ts where "moved ts r1 w1 r' w'" "m = n + length l + length ts"
      "trailer_lines BodyCopyLimits_default ts" "length ts \<le> MAX_TRAILER_BYTES" by auto
    with d mv k True show ?thesis by (intro exI [of _ "l @ ts"]) (auto simp: moved_append intro: rc_last)
  next
    case False
    then obtain d n2 r2 w2 where x: "relay_exact (k + 2) (n + length l) r1 w1 = (Ok (d, n2), r2, w2)"
      and more: "if d then relay_chunks n2 r2 w2 = (Ok (done, m), r', w') else \<not> done \<and> n2 = m \<and> r2 = r' \<and> w2 = w'"
      using "1.prems" l k b w by (auto simp: relay_chunks.simps [of n] split: prod.splits sum.splits if_splits)
    from relay_exact_sound [OF x] obtain bs where bs: "moved bs r1 w1 r2 w2" "n2 = n + length l + length bs"
      "if d then length bs = k + 2 else length bs < k + 2 \<and> rx r2 = []" by blast
    show ?thesis
    proof (cases d)
      case True
      with "1.IH" [OF l [symmetric] refl k b w [symmetric] refl False x [symmetric] refl refl refl] more
      obtain cs where "moved cs r2 w2 r' w'" "m = n2 + length cs" "response_chunks done cs" "done \<or> rx r' = []" by auto
      with bs mv k b True False show ?thesis
        by (intro exI [of _ "l @ bs @ cs"]) (auto simp: moved_append intro: rc_chunk)
    next
      case f: False
      with bs mv k b more False show ?thesis
        by (intro exI [of _ "l @ bs"]) (auto simp: moved_append intro: rc_cut)
    qed
  qed
qed

subsection \<open>What the client is told\<close>

definition response_lines :: "forward_resp \<Rightarrow> bool \<Rightarrow> string list" where
  "response_lines response force_close =
    (''HTTP/1.1 '' @ show_nat (unat (rs_status response)) @ '' '' @ rs_reason response) #
    map header_line (filter (end_to_end (rs_headers response)) (rs_headers response)) @ (if force_close then [''Connection: close''] else [])"

lemma printable_no_break:
  "list_all (\<lambda>c. 0x20 \<le> (of_char c :: nat) \<and> (of_char c :: nat) \<le> 0x7E) s \<Longrightarrow> no_break s"
proof (induction s)
  case (Cons c s)
  have "c \<noteq> CHR 0x0D"
  proof
    assume "c = CHR 0x0D"
    with Cons.prems show False by simp
  qed
  moreover have "c \<noteq> CHR 0x0A"
  proof
    assume "c = CHR 0x0A"
    with Cons.prems show False by simp
  qed
  ultimately show ?case using Cons by simp
qed (simp add: no_break_def)

lemma show_nat_no_break: "no_break (show_nat n)"
proof -
  have "c \<noteq> CHR 0x0D \<and> c \<noteq> CHR 0x0A" if "c \<in> set (show_nat n)" for c
  proof -
    from that obtain d where d: "d < 10" "c = digit_char d" using set_show_radix [of 10 c n] by auto
    have "\<forall>d \<in> set [0..<10]. digit_char d \<noteq> CHR 0x0D \<and> digit_char d \<noteq> CHR 0x0A" by code_simp
    with d show ?thesis by simp
  qed
  then show ?thesis by (simp add: no_break_iff)
qed

lemma no_line_break: "\<not> has_line_break s \<Longrightarrow> no_break s"
  by (simp add: has_line_break_def no_break_def)

text \<open>Headers that were read have a name.\<close>

definition named_headers :: "forward_resp \<Rightarrow> bool" where
  "named_headers response \<longleftrightarrow> list_all (\<lambda>h. fst h \<noteq> []) (rs_headers response)"

lemma scan_lines_named:
  "scan_lines k st ls = Ok st' \<Longrightarrow> list_all (\<lambda>h. fst h \<noteq> []) (hs_headers st) \<Longrightarrow> list_all (\<lambda>h. fst h \<noteq> []) (hs_headers st')"
proof (induction k st ls arbitrary: st' rule: scan_lines.induct)
  case (2 k st line ls)
  have "list_all (\<lambda>h. fst h \<noteq> []) (hs_headers st1)"
    if "parse_header_line line = Some h" "scan_header st h = Ok st1" for h st1
    using that "2.prems"(2)
    by (auto simp: scan_header_def parse_header_line_def try_bind_Ok_iff Let_def split: option.splits if_splits sum.splits)
  with 2 show ?case by (auto simp: try_bind_Ok_iff split: if_splits option.splits)
qed simp

lemma parse_response_head_named: "parse_response_head bs = Ok response \<Longrightarrow> named_headers response"
  by (auto simp: parse_response_head_def named_headers_def try_bind_Ok_iff split: list.splits sum.splits dest!: scan_lines_named)

lemma filter_named:
  "named_headers response \<Longrightarrow> filter_hop_by_hop (rs_headers response) = filter (end_to_end (rs_headers response)) (rs_headers response)"
  by (rule filter_hop_by_hop_spec) (auto simp: named_headers_def list_all_iff)

lemma format_response_head_lines:
  assumes "format_response_head response force_close = Ok head" "named_headers response"
  shows "head = concat (map (\<lambda>l. l @ crlf) (response_lines response force_close @ [[]]))"
  using assms(1) filter_hop_by_hop_no_connection [of "rs_headers response"] unfolding filter_named [OF assms(2)]
  by (auto simp: format_response_head_def response_lines_def Let_def comp_def filter_named [OF assms(2)] split: if_splits)

lemma response_lines_no_break:
  assumes "format_response_head response force_close = Ok head" "named_headers response"
  shows "list_all no_break (response_lines response force_close)"
proof -
  have "no_break (rs_reason response)"
    using assms(1) by (auto simp: format_response_head_def Let_def printable_no_break split: if_splits)
  moreover have "no_break (header_line h)" if "h \<in> set (filter_hop_by_hop (rs_headers response))" for h
  proof -
    have "\<not> list_ex (\<lambda>(name, value). has_line_break name \<or> has_line_break value) (filter_hop_by_hop (rs_headers response))"
      using assms(1) by (simp add: format_response_head_def Let_def split: if_splits)
    then have "\<not> has_line_break (fst h) \<and> \<not> has_line_break (snd h)"
      using that unfolding list_ex_iff by (cases h) force
    then show ?thesis by (simp add: header_line_def no_line_break)
  qed
  ultimately show ?thesis
    using show_nat_no_break unfolding filter_named [OF assms(2)] response_lines_def
    by (auto simp: list_all_iff no_break_def [of "[]"])
qed

text \<open>
  The head that is told to the client: the status line, the end-to-end headers of the origin and, on the final
  response, one closing header, each on a line of its own: neither the reason nor a header of the origin adds a
  line.
\<close>

definition told :: "forward_resp \<Rightarrow> bool \<Rightarrow> string" where
  "told response force_close = concat (map (\<lambda>l. l @ crlf) (response_lines response force_close @ [[]]))"

lemma format_response_head_told:
  "format_response_head response force_close = Ok head \<Longrightarrow> named_headers response \<Longrightarrow>
    head = told response force_close \<and> list_all no_break (response_lines response force_close)"
  using format_response_head_lines response_lines_no_break by (auto simp: told_def)

definition informational :: "forward_resp \<Rightarrow> bool" where
  "informational response \<longleftrightarrow> 100 \<le> rs_status response \<and> rs_status response < 200"

lemma send_response_head_Ok:
  assumes "send_response_head response force_close n c = (Ok m, c')"
  obtains head where "format_response_head response force_close = Ok head"
    "tx c' = tx c @ as_bytes head" "m = n + length head" "rx c' = rx c"
  using assms by (auto simp: send_response_head_def write_all_Ok_iff split: sum.splits prod.splits)

text \<open>One head on the wire: up to the first empty line.\<close>

definition head_bytes :: "u8 list \<Rightarrow> bool" where
  "head_bytes bs \<longleftrightarrow> ends_double_crlf bs \<and> (\<forall>k < length bs. \<not> ends_double_crlf (take k bs))"

lemma read_response_bytes_Ok:
  "read_response_bytes head k bs = (Ok l, rest) \<Longrightarrow>
    \<exists>more. l = head @ more \<and> bs = more @ rest \<and> ends_double_crlf l \<and>
      (\<forall>j. length head < j \<and> j < length l \<longrightarrow> \<not> ends_double_crlf (take j l))"
proof (induction bs arbitrary: head k)
  case (Cons b bs)
  show ?case
  proof (cases "ends_double_crlf (head @ [b])")
    case True
    with Cons.prems show ?thesis by (auto simp: Let_def split: if_splits)
  next
    case False
    with Cons.prems obtain k' where "read_response_bytes (head @ [b]) k' bs = (Ok l, rest)"
      by (auto simp: Let_def split: if_splits)
    from Cons.IH [OF this] obtain more where more: "l = head @ b # more" "bs = more @ rest" "ends_double_crlf l"
      "\<forall>j. Suc (length head) < j \<and> j < length l \<longrightarrow> \<not> ends_double_crlf (take j l)" by auto
    have "\<not> ends_double_crlf (take j l)" if "length head < j" "j < length l" for j
      using that more False by (cases "j = Suc (length head)") auto
    with more show ?thesis by (intro exI [of _ "b # more"]) auto
  qed
qed (simp split: if_splits)

lemma read_response_head_Ok:
  assumes "read_response_head u = (Ok response, u')"
  obtains raw where "rx u = raw @ rx u'" "head_bytes raw" "parse_response_head raw = Ok response"
proof -
  obtain raw where r: "read_response_bytes [] 0 (rx u) = (Ok raw, rx u')" "parse_response_head raw = Ok response"
    using assms by (auto simp: read_response_head_def split: prod.splits sum.splits)
  from read_response_bytes_Ok [OF r(1)] have "rx u = raw @ rx u'" "ends_double_crlf raw"
    "\<forall>j. 0 < j \<and> j < length raw \<longrightarrow> \<not> ends_double_crlf (take j raw)" by auto
  moreover have "\<not> ends_double_crlf []" by (simp add: ends_double_crlf_def)
  ultimately show ?thesis using that [OF _ _ r(2)] unfolding head_bytes_def by (metis gr0I take_0)
qed

text \<open>A head that was read and told to the client: its bytes on the wire and what they mean.\<close>

definition relayed_head :: "bool \<Rightarrow> u8 list \<times> forward_resp \<Rightarrow> bool" where
  "relayed_head final x \<longleftrightarrow> head_bytes (fst x) \<and> parse_response_head (fst x) = Ok (snd x) \<and>
    informational (snd x) = (\<not> final) \<and> list_all no_break (response_lines (snd x) final)"

lemma relayed_headI:
  "head_bytes bs \<Longrightarrow> parse_response_head bs = Ok r \<Longrightarrow> informational r = (\<not> final) \<Longrightarrow>
    send_response_head r final n c = (Ok m, c') \<Longrightarrow>
    relayed_head final (bs, r) \<and> tx c' = tx c @ as_bytes (told r final) \<and> m = n + length (told r final) \<and> rx c' = rx c"
  by (elim send_response_head_Ok) (auto simp: relayed_head_def dest: format_response_head_told parse_response_head_named)

lemma relay_heads_sound:
  "relay_heads i n u c = (Ok (response, m), u', c') \<Longrightarrow> i \<le> MAX_INFORMATIONAL_RESPONSES \<Longrightarrow>
    \<exists>infos final.
      rx u = concat (map fst infos) @ final @ rx u' \<and> list_all (relayed_head False) infos \<and>
      head_bytes final \<and> parse_response_head final = Ok response \<and> \<not> informational response \<and>
      length infos + i \<le> MAX_INFORMATIONAL_RESPONSES \<and>
      tx c' = tx c @ as_bytes (concat (map (\<lambda>x. told (snd x) False) infos)) \<and>
      m = n + length (concat (map (\<lambda>x. told (snd x) False) infos))"
proof (induction i n u c rule: relay_heads.induct)
  case (1 i n u c)
  obtain resp u1 where rd: "read_response_head u = (Ok resp, u1)" and no101: "rs_status resp \<noteq> 101"
    using "1.prems"(1) by (auto simp: relay_heads.simps [of i] split: prod.splits sum.splits if_splits)
  from read_response_head_Ok [OF rd] obtain raw where raw: "rx u = raw @ rx u1" "head_bytes raw" "parse_response_head raw = Ok resp" .
  show ?case
  proof (cases "informational resp")
    case False
    then have "resp = response" "m = n" "u1 = u'" "c' = c"
      using "1.prems"(1) rd no101 by (auto simp: relay_heads.simps [of i] informational_def)
    with False raw "1.prems"(2) show ?thesis by (intro exI [of _ "[]"] exI [of _ raw]) simp
  next
    case True
    then obtain n1 c1 where lim: "Suc i \<le> MAX_INFORMATIONAL_RESPONSES"
      and snd: "send_response_head resp False n c = (Ok n1, c1)"
      and more: "relay_heads (Suc i) n1 u1 c1 = (Ok (response, m), u', c')"
      using "1.prems"(1) rd no101
      by (auto simp: relay_heads.simps [of i] informational_def split: if_splits prod.splits sum.splits)
    have head: "relayed_head False (raw, resp)" "tx c1 = tx c @ as_bytes (told resp False)" "n1 = n + length (told resp False)"
      using relayed_headI [OF raw(2,3) _ snd] True by simp_all
    have st: "100 \<le> rs_status resp \<and> rs_status resp < 200" using True by (simp add: informational_def)
    have "\<not> MAX_INFORMATIONAL_RESPONSES < Suc i" using lim by simp
    from "1.IH" [OF rd [symmetric] refl no101 st this snd [symmetric] refl more lim]
    obtain infos final where r: "rx u1 = concat (map fst infos) @ final @ rx u'" "list_all (relayed_head False) infos"
      "head_bytes final" "parse_response_head final = Ok response"
      "\<not> informational response" "length infos + Suc i \<le> MAX_INFORMATIONAL_RESPONSES"
      "tx c' = tx c1 @ as_bytes (concat (map (\<lambda>x. told (snd x) False) infos))"
      "m = n1 + length (concat (map (\<lambda>x. told (snd x) False) infos))" by blast
    with raw head show ?thesis
      by - (rule exI [of _ "(raw, resp) # infos"], rule exI [of _ final], simp)
  qed
qed


text \<open>
  How the body that was relayed ends, by the framing of the response: the announced length; all chunks and trailers, or
  all there was when the upstream closed inside a chunk, and then both connections are given up; all there was
  when nothing is announced.
\<close>

definition body_ends :: "forward_resp \<Rightarrow> u8 list \<Rightarrow> forward_result \<Rightarrow> u8 list \<Rightarrow> bool" where
  "body_ends response body res rest \<longleftrightarrow>
    (case rs_content_length response of
       Some len \<Rightarrow> length body = len
     | None \<Rightarrow>
         if rs_is_chunked response
         then response_chunks True body \<or>
           response_chunks False body \<and> rest = [] \<and> \<not> upstream_alive res \<and> client_should_close res
         else rest = [] \<and> \<not> upstream_alive res)"

lemma relay_response_body_sound:
  assumes "relay_response_body response n u c = (Ok res, u', c')"
  shows "\<exists>body. moved body u c u' c' \<and> bytes_forwarded res = n + length body \<and> body_ends response body res (rx u') \<and>
    fres_status res = rs_status response"
proof (cases "rs_content_length response")
  case (Some len)
  with assms obtain m where "relay_exact len n u c = (Ok (True, m), u', c')" "bytes_forwarded res = m" "fres_status res = rs_status response"
    by (auto simp: relay_response_body_def Let_def split: prod.splits sum.splits if_splits)
  with relay_exact_sound [of len n u c True m u' c'] Some show ?thesis by (auto simp: body_ends_def)
next
  case None
  show ?thesis
  proof (cases "rs_is_chunked response")
    case True
    with None assms obtain d m where "relay_chunks n u c = (Ok (d, m), u', c')" "bytes_forwarded res = m"
      "fres_status res = rs_status response" "d \<or> \<not> upstream_alive res \<and> client_should_close res"
      by (auto simp: relay_response_body_def Let_def split: prod.splits sum.splits if_splits)
    with relay_chunks_sound [of n u c d m u' c'] None True show ?thesis by (cases d) (auto simp: body_ends_def)
  next
    case False
    with None assms obtain m where "relay_to_eof n u c = (Ok m, u', c')" "bytes_forwarded res = m"
      "fres_status res = rs_status response" "\<not> upstream_alive res"
      by (auto simp: relay_response_body_def Let_def split: prod.splits sum.splits)
    with relay_to_eof_sound [of n u c m u' c'] None False show ?thesis by (auto simp: body_ends_def)
  qed
qed

text \<open>
  C38: A response that was forwarded without an error reached the client as it was. The upstream's
  bytes begin with at most eight informational heads, the final head and the body; the client is told
  each head, in order, with its status, reason and end-to-end headers on lines of their own and one
  closing header on the final one, and behind them gets the body byte for byte. The body is as long
  as announced; with chunks it is the size lines, the data, the last chunk and the trailers, or, when the upstream
  closed inside a chunk, all that had come, and then neither connection is used again; with neither announced it is
  everything up to the end of the stream. The byte count reported is the number of bytes the client was sent.
\<close>
theorem forward_response_relays:
  assumes "forward_response u c = (Ok res, u', c')"
  shows "\<exists>infos final response body.
    rx u = concat (map fst infos) @ final @ body @ rx u' \<and> length infos \<le> 8 \<and> list_all (relayed_head False) infos \<and>
    relayed_head True (final, response) \<and>
    tx c' = tx c @ as_bytes (concat (map (\<lambda>x. told (snd x) False) infos) @ told response True) @ body \<and>
    body_ends response body res (rx u') \<and> fres_status res = rs_status response \<and>
    length (tx c') = length (tx c) + bytes_forwarded res"
proof -
  obtain response n u1 c1 m c2 where hd: "relay_heads 0 0 u c = (Ok (response, n), u1, c1)"
    and sn: "send_response_head response True n c1 = (Ok m, c2)"
    and bd: "relay_response_body response m u1 c2 = (Ok res, u', c')"
    using assms by (auto simp: forward_response_def split: prod.splits sum.splits)
  from relay_heads_sound [OF hd] obtain infos final where h:
    "rx u = concat (map fst infos) @ final @ rx u1" "list_all (relayed_head False) infos"
    "head_bytes final" "parse_response_head final = Ok response" "\<not> informational response"
    "length infos \<le> MAX_INFORMATIONAL_RESPONSES"
    "tx c1 = tx c @ as_bytes (concat (map (\<lambda>x. told (snd x) False) infos))"
    "n = length (concat (map (\<lambda>x. told (snd x) False) infos))" by auto
  have s: "relayed_head True (final, response)" "tx c2 = tx c1 @ as_bytes (told response True)" "m = n + length (told response True)"
    using relayed_headI [OF h(3,4) _ sn] h(5) by simp_all
  from relay_response_body_sound [OF bd] obtain body where b: "moved body u1 c2 u' c'"
    "bytes_forwarded res = m + length body" "body_ends response body res (rx u')" "fres_status res = rs_status response" by blast
  have "tx c' = tx c @ as_bytes (concat (map (\<lambda>x. told (snd x) False) infos) @ told response True) @ body"
    using h(7) s(2) b(1) by (simp add: moved_def)
  with h s b show ?thesis
    by - (rule exI [of _ infos], rule exI [of _ final], rule exI [of _ response],
        rule exI [of _ body], simp add: moved_def MAX_INFORMATIONAL_RESPONSES_def)
qed

definition sample_response_head :: string where
  "sample_response_head = ''HTTP/1.0 200 OK'' @ crlf @ ''TE: x'' @ crlf @ crlf"

definition sample_response :: forward_resp where
  "sample_response = \<lparr>rs_version = ''HTTP/1.0'', rs_status = 200, rs_reason = ''OK'', rs_headers = [(''TE'', ''x'')],
     rs_content_length = None, rs_is_chunked = False, rs_connection_close = False\<rparr>"

lemma sample_response_bytes: "as_bytes sample_response_head =
  [72, 84, 84, 80, 47, 49, 46, 48, 32, 50, 48, 48, 32, 79, 75, 13, 10, 84, 69, 58, 32, 120, 13, 10, 13, 10]"
  by code_simp

lemma sample_response_read: "read_response_bytes [] 0 (as_bytes sample_response_head @ rest) = (Ok (as_bytes sample_response_head), rest)"
  unfolding sample_response_bytes
  by (simp add: MAX_RESPONSE_HEAD_SIZE_def MAX_HEADER_LINES_def ends_crlf_def ends_double_crlf_def CRLF_bytes_def)

lemma sample_response_words: "split_whitespace ''HTTP/1.0 200 OK'' = [''HTTP/1.0'', ''200'', ''OK'']"
  "split_str crlf sample_response_head = [''HTTP/1.0 200 OK'', ''TE: x'', [], []]"
  "parse_header_line ''TE: x'' = Some (''TE'', ''x'')"
  by code_simp+

lemma sample_status: "parse_u16 ''200'' = Ok 200"
  by (simp add: parse_u16_def digit_val_def)

lemma sample_response_names: "eq_ignore_ascii_case ''TE'' ''Connection'' = False"
  "to_ascii_lowercase ''TE'' = ''te''"
  "filter_hop_by_hop [(''TE'', ''x'')] = []"
  by code_simp+

lemma sample_response_parse: "parse_response_head (as_bytes sample_response_head) = Ok sample_response"
proof -
  have "from_utf8_lossy (as_bytes sample_response_head) = sample_response_head"
    by (rule from_utf8_lossy_as_bytes, rule wf_str_ascii) code_simp
  then show ?thesis
    by (simp add: parse_response_head_def sample_response_words sample_status MAX_HEADER_LINES_def scan_header_def sample_response_names sample_response_def)
qed

lemma sample_response_format: "format_response_head sample_response True = Ok (''HTTP/1.1 200 OK'' @ crlf @ ''Connection: close'' @ crlf @ crlf)"
proof -
  have "show_nat 200 = ''200''" by code_simp
  then show ?thesis
  by (simp add: format_response_head_def sample_response_def sample_response_names has_connection_def)
qed

definition sample_upstream :: conn where
  "sample_upstream = \<lparr>rx = as_bytes sample_response_head @ [104, 105], tx = [], room = 0\<rparr>"

definition sample_client :: conn where
  "sample_client = \<lparr>rx = [], tx = [], room = 100\<rparr>"

lemma sample_forward:
  "forward_response sample_upstream sample_client =
    (Ok \<lparr>bytes_forwarded = 40, fres_status = 200, upstream_alive = False, client_should_close = False\<rparr>,
     \<lparr>rx = [], tx = [], room = 0\<rparr>,
     \<lparr>rx = [], tx = as_bytes (''HTTP/1.1 200 OK'' @ crlf @ ''Connection: close'' @ crlf @ crlf) @ [104, 105], room = 60\<rparr>)"
proof -
  have rd: "read_response_head sample_upstream = (Ok sample_response, \<lparr>rx = [104, 105], tx = [], room = 0\<rparr>)"
    by (simp add: read_response_head_def sample_upstream_def sample_response_read sample_response_parse)
  have hd: "relay_heads 0 0 sample_upstream sample_client = (Ok (sample_response, 0), \<lparr>rx = [104, 105], tx = [], room = 0\<rparr>, sample_client)"
    by (simp add: relay_heads.simps [of 0 0 sample_upstream] rd) (simp add: sample_response_def)
  have al: "upstream_reusable sample_response = False"
    by (simp add: upstream_reusable_def sample_response_def eq_ignore_ascii_case_def contains_str_def)
      (code_simp)
  let ?told = "as_bytes (''HTTP/1.1 200 OK'' @ crlf @ ''Connection: close'' @ crlf @ crlf)"
  have len: "length ?told = 38" by simp
  have sn: "send_response_head sample_response True 0 sample_client = (Ok 38, \<lparr>rx = [], tx = ?told, room = 62\<rparr>)"
    unfolding send_response_head_def sample_response_format sample_client_def write_all_def by simp
  have bd: "relay_response_body sample_response 38 \<lparr>rx = [104, 105], tx = [], room = 0\<rparr> \<lparr>rx = [], tx = t, room = 62\<rparr> =
     (Ok \<lparr>bytes_forwarded = 40, fres_status = 200, upstream_alive = False, client_should_close = False\<rparr>,
     \<lparr>rx = [], tx = [], room = 0\<rparr>, \<lparr>rx = [], tx = t @ [104, 105], room = 60\<rparr>)" for t
  proof -
    have "relay_to_eof 38 \<lparr>rx = [104, 105], tx = [], room = 0\<rparr> \<lparr>rx = [], tx = t, room = 62\<rparr> =
        relay_to_eof 40 \<lparr>rx = [], tx = [], room = 0\<rparr> \<lparr>rx = [], tx = t @ [104, 105], room = 60\<rparr>"
      by (subst relay_to_eof.simps) (simp add: read_some_def write_all_def)
    also have "\<dots> = (Ok 40, \<lparr>rx = [], tx = [], room = 0\<rparr>, \<lparr>rx = [], tx = t @ [104, 105], room = 60\<rparr>)"
      by (subst relay_to_eof.simps) (simp add: read_some_def)
    finally show ?thesis by (simp add: relay_response_body_def al) (simp add: sample_response_def)
  qed
  show ?thesis
    unfolding forward_response_def hd by (simp only: prod.case sum.case sn bd)
qed

theorem forward_response_relays_witness:
  "\<exists>infos final response body res.
    rx sample_upstream = concat (map fst infos) @ final @ body \<and> length infos \<le> 8 \<and> list_all (relayed_head False) infos \<and>
    relayed_head True (final, response) \<and> body_ends response body res [] \<and> rs_status response = 200 \<and>
    as_bytes (concat (map (\<lambda>x. told (snd x) False) infos) @ told response True) @ body =
      as_bytes (''HTTP/1.1 200 OK'' @ crlf @ ''Connection: close'' @ crlf @ crlf) @ [104, 105]"
  using forward_response_relays [OF sample_forward] by (simp add: sample_client_def) metis

end
