(* ===== verification/Session.thy ===== *)
theory Session
  imports Reply Router Relay Accept_Listener Http_Response
begin

text \<open>
  Sessions (\<^verbatim>\<open>eggress-server/src/execute/mod.rs\<close> and \<^verbatim>\<open>serve_connection\<close> of \<^verbatim>\<open>lib.rs\<close>): what happens between an
  accepted client and the end of the connection. A route is asked for and opened under the connect
  timeout, the client gets its answer, and the bytes are relayed, forwarded request by request, echoed,
  or kept waiting beside a UDP association. What the network answers is given per attempt; what the timers
  do is a flag of the attempt. Results: every session gives its leases back, the client is answered once
  and in its own protocol, the relayed bytes and their counts are exact, and one report is recorded.
\<close>

subsection \<open>Reports\<close>

datatype session_outcome =
  Completed | ClientProtocolError | Out_AuthenticationFailed | HandshakeTimedOut | RouteFailed | RelayFailed | Cancelled

datatype failure_category =
  Fail_Protocol | Fail_Authentication | Fail_HandshakeTimeout | Fail_Dns | Fail_ConnectionRefused
| Fail_NetworkUnreachable | Fail_HostUnreachable | Fail_RouteTimeout | Fail_RouteHop | Fail_UpstreamAuthentication
| Fail_PolicyDenied | Fail_UpstreamUnavailable | Fail_Relay | Fail_Cancelled | Fail_Internal

text \<open>Rule, group, upstream and reason of a selection, as the report carries them.\<close>

type_synonym route_meta = "string option \<times> string option \<times> string option \<times> selection_reason option"

record session_report =
  sp_protocol :: "string option"
  sp_target :: "string option"
  sp_route :: string
  sp_bytes_upstream :: nat
  sp_bytes_downstream :: nat
  sp_outcome :: session_outcome
  sp_failure :: "failure_category option"
  sp_meta :: route_meta

definition no_meta :: route_meta where "no_meta = (None, None, None, None)"

fun category_of_open_error :: "session_open_error \<Rightarrow> failure_category" where
  "category_of_open_error Open_Dns = Fail_Dns"
| "category_of_open_error Open_Refused = Fail_ConnectionRefused"
| "category_of_open_error Open_NetworkUnreachable = Fail_NetworkUnreachable"
| "category_of_open_error Open_HostUnreachable = Fail_HostUnreachable"
| "category_of_open_error Open_Timeout = Fail_RouteTimeout"
| "category_of_open_error Open_UpstreamAuthentication = Fail_UpstreamAuthentication"
| "category_of_open_error (Open_Hop _ _) = Fail_RouteHop"
| "category_of_open_error Open_PolicyDenied = Fail_PolicyDenied"
| "category_of_open_error Open_UpstreamUnavailable = Fail_UpstreamUnavailable"
| "category_of_open_error (Open_Other _) = Fail_Relay"

definition from_io_error :: "os_kind \<Rightarrow> failure_category" where
  "from_io_error kind = (if kind = Os_ConnectionRefused then Fail_ConnectionRefused else Fail_Relay)"

definition open_failed :: "session_open_error \<Rightarrow> string option \<Rightarrow> string option \<Rightarrow> string \<Rightarrow> session_report" where
  "open_failed e protocol target route_text =
    \<lparr>sp_protocol = protocol, sp_target = target, sp_route = route_text, sp_bytes_upstream = 0, sp_bytes_downstream = 0,
     sp_outcome = RouteFailed, sp_failure = Some (category_of_open_error e), sp_meta = no_meta\<rparr>"

definition completed :: "string option \<Rightarrow> string option \<Rightarrow> string \<Rightarrow> nat \<Rightarrow> nat \<Rightarrow> session_report" where
  "completed protocol target route_text up down =
    \<lparr>sp_protocol = protocol, sp_target = target, sp_route = route_text, sp_bytes_upstream = up, sp_bytes_downstream = down,
     sp_outcome = Completed, sp_failure = None, sp_meta = no_meta\<rparr>"

definition cancelled :: "string option \<Rightarrow> string option \<Rightarrow> string \<Rightarrow> session_report" where
  "cancelled protocol target route_text =
    \<lparr>sp_protocol = protocol, sp_target = target, sp_route = route_text, sp_bytes_upstream = 0, sp_bytes_downstream = 0,
     sp_outcome = Cancelled, sp_failure = Some Fail_Cancelled, sp_meta = no_meta\<rparr>"

definition rejected :: "string option \<Rightarrow> string option \<Rightarrow> string \<Rightarrow> session_report" where
  "rejected protocol target rule =
    \<lparr>sp_protocol = protocol, sp_target = target, sp_route = ''reject'', sp_bytes_upstream = 0, sp_bytes_downstream = 0,
     sp_outcome = RouteFailed, sp_failure = Some Fail_PolicyDenied, sp_meta = (Some rule, None, None, None)\<rparr>"

subsection \<open>Configuration and state\<close>

datatype metric_event =
  M_SessionStart
| M_Session session_report
| M_RouteDecision string string string
| M_UpstreamOpen string string
| M_UpstreamFailure string string
| M_AuthFailure

record udp_handle =
  uh_id :: u64
  uh_relay_addr :: socket_addr

record udp_service =
  us_enabled :: bool
  us_create :: "string \<Rightarrow> socket_addr option \<Rightarrow> client_identity \<Rightarrow> u64 \<Rightarrow> (string + udp_handle) timed"

record ('re, 'net, 'r) connection_config =
  cc_is_match :: "'re \<Rightarrow> string \<Rightarrow> bool"
  cc_cidr :: "'net \<Rightarrow> ip_addr \<Rightarrow> bool"
  cc_index :: "'r rng_index"
  cc_service :: "('re, 'net) shared_routing_service"
  cc_source :: "socket_addr option"
  cc_listener :: string
  cc_generation :: u64
  cc_metrics :: bool
  cc_udp :: "udp_service option"
  cc_local_bind :: "string option"
  cc_executor :: "(conn, boxed_error) chain_executor"
  cc_show :: "boxed_error \<Rightarrow> string"

text \<open>
  What the outside does during one attempt: transports, the connect timeout, for an HTTP exchange whether the flush
  after the request's head and the one after its body fail, and the idle timeout after it.
\<close>

record attempt =
  at_transports :: "conn transports"
  at_expired :: bool
  at_head_flush_fails :: bool
  at_body_flush_fails :: bool
  at_idle_expired :: bool

record 'r session_world =
  sw_route :: "'r route_world"
  sw_metrics :: "metric_event list"

definition record_metric :: "('re, 'net, 'r) connection_config \<Rightarrow> metric_event \<Rightarrow> 'r session_world \<Rightarrow> 'r session_world" where
  "record_metric cfg e w = (if cc_metrics cfg then w\<lparr>sw_metrics := sw_metrics w @ [e]\<rparr> else w)"

definition on_heap :: "(up_heap \<Rightarrow> up_heap) \<Rightarrow> 'r session_world \<Rightarrow> 'r session_world" where
  "on_heap f w = w\<lparr>sw_route := (sw_route w)\<lparr>w_heap := f (w_heap (sw_route w))\<rparr>\<rparr>"

subsection \<open>Opening a route\<close>

fun route_description :: "selected_route \<Rightarrow> string" where
  "route_description (Selected_Direct _ reason) = (if reason = DirectFallback then ''direct(fallback)'' else ''direct'')"
| "route_description (Selected_Upstream _ gid upstream _ _ _) = ''upstream('' @ gid @ ''/'' @ upstream @ '')''"

fun route_metadata :: "selected_route \<Rightarrow> route_meta" where
  "route_metadata (Selected_Direct decision reason) = (Some (dec_rule decision), None, None, Some reason)"
| "route_metadata (Selected_Upstream decision gid upstream _ _ reason) =
    (Some (dec_rule decision), Some gid, Some upstream, Some reason)"

fun protocol_label :: "protocol_spec \<Rightarrow> string" where
  "protocol_label Spec_Http = ''http''"
| "protocol_label Spec_HttpOnly = ''httponly''"
| "protocol_label Spec_Socks4 = ''socks4''"
| "protocol_label Spec_Socks5 = ''socks5''"
| "protocol_label Spec_Shadowsocks = ''shadowsocks''"
| "protocol_label Spec_ShadowsocksR = ''ssr''"
| "protocol_label Spec_Trojan = ''trojan''"
| "protocol_label Spec_Http2 = ''h2''"
| "protocol_label Spec_Http3 = ''h3''"
| "protocol_label Spec_Quic = ''quic''"
| "protocol_label Spec_WebSocket = ''websocket''"
| "protocol_label Spec_Raw = ''raw''"
| "protocol_label Spec_Ssh = ''ssh''"
| "protocol_label Spec_Unix = ''unix''"

definition upstream_protocol_label :: "proxy_chain_spec \<Rightarrow> string" where
  "upstream_protocol_label chain =
    (case hops chain of
       [] \<Rightarrow> ''unknown''
     | h # _ \<Rightarrow> (case hop_protocols h of [] \<Rightarrow> ''unknown'' | p # _ \<Rightarrow> protocol_label p))"

fun failure_reason_label :: "session_open_error \<Rightarrow> string" where
  "failure_reason_label Open_Dns = ''dns''"
| "failure_reason_label Open_Refused = ''connection_refused''"
| "failure_reason_label Open_NetworkUnreachable = ''network_unreachable''"
| "failure_reason_label Open_HostUnreachable = ''host_unreachable''"
| "failure_reason_label Open_Timeout = ''timeout''"
| "failure_reason_label Open_UpstreamAuthentication = ''auth_failed''"
| "failure_reason_label Open_PolicyDenied = ''policy_denied''"
| "failure_reason_label (Open_Hop _ _) = ''handshake''"
| "failure_reason_label Open_UpstreamUnavailable = ''upstream_unavailable''"
| "failure_reason_label (Open_Other _) = ''io''"

fun open_of_route_error :: "route_error \<Rightarrow> session_open_error" where
  "open_of_route_error (Rejected _ _) = Open_PolicyDenied"
| "open_of_route_error (NoEligibleUpstream _) = Open_UpstreamUnavailable"
| "open_of_route_error (UnknownGroup _) = Open_UpstreamUnavailable"

record opened_route =
  or_stream :: conn
  or_lease :: "active_lease option"
  or_route :: string
  or_meta :: route_meta

definition open_direct ::
  "('re, 'net, 'r) connection_config \<Rightarrow> attempt \<Rightarrow> target_addr \<Rightarrow> session_open_error + conn" where
  "open_direct cfg at target =
    (case hop_bind_addr (cc_local_bind cfg) of
       Inl e \<Rightarrow> Err (Open_Other e)
     | Inr bind \<Rightarrow>
         map_sum open_of_connect_error id
           (connect_with_options (tr_network (at_transports at)) target (ConnectOptions_default\<lparr>co_local_bind := bind\<rparr>)))"

text \<open>Dropping an unfinished attempt drops its pending lease.\<close>

definition open_route ::
  "('re, 'net, 'r) connection_config \<Rightarrow> attempt \<Rightarrow> route_request \<Rightarrow> 'r session_world \<Rightarrow>
   (session_open_error + opened_route) \<times> 'r session_world" where
  "open_route cfg at request w =
    (case service_route (cc_is_match cfg) (cc_cidr cfg) (cc_index cfg) (cc_service cfg) request (sw_route w) of
       (Inl e, rw) \<Rightarrow> (Err (open_of_route_error e), w\<lparr>sw_route := rw\<rparr>)
     | (Inr selected, rw) \<Rightarrow>
         (let w0 = w\<lparr>sw_route := rw\<rparr>; route_text = route_description selected; meta = route_metadata selected;
              rule = (case fst meta of Some r \<Rightarrow> r | None \<Rightarrow> ''default'')
          in case selected of
               Selected_Direct _ _ \<Rightarrow>
                 (let w1 = record_metric cfg (M_RouteDecision rule ''direct'' ''selected'') w0 in
                  if at_expired at then (Err Open_Timeout, w1)
                  else (case open_direct cfg at (req_target request) of
                          Inl e \<Rightarrow> (Err e, w1)
                        | Inr s \<Rightarrow> (Ok \<lparr>or_stream = s, or_lease = None, or_route = route_text, or_meta = meta\<rparr>, w1)))
             | Selected_Upstream _ _ _ chain lease _ \<Rightarrow>
                 (let w1 = record_metric cfg (M_RouteDecision rule ''upstream'' ''selected'') w0;
                      label = upstream_protocol_label chain
                  in if at_expired at
                     then (Err Open_Timeout,
                           record_metric cfg (M_UpstreamFailure label ''timeout'') (on_heap (PendingLease_drop lease) w1))
                     else (case execute_chain (at_transports at) (cc_executor cfg) (hops chain) (req_target request) of
                             Inl e \<Rightarrow>
                               (let e' = open_of_chain_error (cc_show cfg) e in
                                (Err e', record_metric cfg (M_UpstreamFailure label (failure_reason_label e'))
                                   (on_heap (PendingLease_drop lease) w1)))
                           | Inr s \<Rightarrow>
                               (case established lease (w_heap (sw_route w1)) of
                                  (act, h) \<Rightarrow>
                                    (Ok \<lparr>or_stream = s, or_lease = Some act, or_route = route_text, or_meta = meta\<rparr>,
                                     record_metric cfg (M_UpstreamOpen label ''success'') (on_heap (\<lambda>_. h) w1)))))))"

definition drop_lease :: "active_lease option \<Rightarrow> 'r session_world \<Rightarrow> 'r session_world" where
  "drop_lease lease w = (case lease of None \<Rightarrow> w | Some l \<Rightarrow> on_heap (ActiveLease_drop l) w)"

subsection \<open>Tunnels\<close>

text \<open>The two streams as the relay polls them, and the deadline at each poll.\<close>

record relay_env =
  re_client :: "conn \<Rightarrow> source \<times> relay_sink"
  re_server :: "conn \<Rightarrow> source \<times> relay_sink"
  re_ticks :: "bool list"

fun tunnel_protocol_id :: "tunnel_protocol \<Rightarrow> protocol_id" where
  "tunnel_protocol_id Tunnel_HttpConnect = Id_Http"
| "tunnel_protocol_id Tunnel_Http2 = Id_Http2"
| "tunnel_protocol_id Tunnel_Http3 = Id_Http3"
| "tunnel_protocol_id Tunnel_WebSocket = Id_WebSocket"
| "tunnel_protocol_id Tunnel_Socks4 = Id_Socks4"
| "tunnel_protocol_id Tunnel_Socks5 = Id_Socks5"
| "tunnel_protocol_id Tunnel_Shadowsocks = Id_Shadowsocks"
| "tunnel_protocol_id Tunnel_ShadowsocksR = Id_ShadowsocksR"
| "tunnel_protocol_id Tunnel_Trojan = Id_Trojan"
| "tunnel_protocol_id Tunnel_Raw = Id_Raw"

fun tunnel_protocol_name :: "tunnel_protocol \<Rightarrow> string" where
  "tunnel_protocol_name Tunnel_HttpConnect = ''http''"
| "tunnel_protocol_name Tunnel_Http2 = ''h2''"
| "tunnel_protocol_name Tunnel_Http3 = ''h3''"
| "tunnel_protocol_name Tunnel_WebSocket = ''websocket''"
| "tunnel_protocol_name Tunnel_Socks4 = ''socks4''"
| "tunnel_protocol_name Tunnel_Socks5 = ''socks5''"
| "tunnel_protocol_name Tunnel_Shadowsocks = ''shadowsocks''"
| "tunnel_protocol_name Tunnel_ShadowsocksR = ''ssr''"
| "tunnel_protocol_name Tunnel_Trojan = ''trojan''"
| "tunnel_protocol_name Tunnel_Raw = ''raw''"

definition session_request ::
  "('re, 'net, 'r) connection_config \<Rightarrow> target_addr \<Rightarrow> protocol_id \<Rightarrow> client_identity \<Rightarrow> route_request" where
  "session_request cfg target protocol identity =
    \<lparr>req_target = target, req_source = cc_source cfg, req_listener = cc_listener cfg, inbound_protocol = protocol,
     req_identity = identity, req_transport = Tcp\<rparr>"

definition tunnel_report ::
  "string option \<Rightarrow> string option \<Rightarrow> opened_route \<Rightarrow> nat \<Rightarrow> nat \<Rightarrow> session_outcome \<Rightarrow> failure_category option \<Rightarrow> session_report" where
  "tunnel_report protocol target opened up down outcome failure =
    \<lparr>sp_protocol = protocol, sp_target = target, sp_route = or_route opened, sp_bytes_upstream = up,
     sp_bytes_downstream = down, sp_outcome = outcome, sp_failure = failure, sp_meta = or_meta opened\<rparr>"

text \<open>
  The result: the report, when the session has ended, the world, the client's end before the relay took it,
  and the relay as far as it got. The active lease is dropped when the function returns.
\<close>

type_synonym 'r session_end = "session_report option \<times> 'r session_world \<times> client_end \<times> relay_future option"

definition execute_tunnel ::
  "('re, 'net, 'r) connection_config \<Rightarrow> attempt \<Rightarrow> relay_env \<Rightarrow> pending_tunnel \<Rightarrow> string option \<Rightarrow> string option \<Rightarrow>
   'r session_world \<Rightarrow> client_end \<Rightarrow> 'r session_end" where
  "execute_tunnel cfg at env pending protocol target w cl =
    (case open_route cfg at (session_request cfg (pt_target pending) (tunnel_protocol_id (pt_protocol pending)) (pt_identity pending)) w of
       (Inr opened, w1) \<Rightarrow>
         (case send_tunnel_success pending cl of
            (Inl _, cl1) \<Rightarrow>
              (Some (tunnel_report protocol target opened 0 0 ClientProtocolError (Some Fail_Protocol)),
               drop_lease (or_lease opened) w1, cl1, None)
          | (Inr _, cl1) \<Rightarrow>
              (case relay (re_ticks env) (re_client env (cl_conn cl1)) (re_server env (or_stream opened)) of
                 (None, f) \<Rightarrow> (None, w1, cl1, Some f)
               | (Some result, f) \<Rightarrow>
                   (Some (if rl_reason result = Reason_Error
                          then tunnel_report protocol target opened (rl_bytes_upstream result) (rl_bytes_downstream result)
                                 RelayFailed (Some Fail_Relay)
                          else tunnel_report protocol target opened (rl_bytes_upstream result) (rl_bytes_downstream result)
                                 Completed None),
                    drop_lease (or_lease opened) w1, cl1, Some f)))
     | (Inl e, w1) \<Rightarrow>
         (Some (if e = Open_PolicyDenied then rejected protocol target ''reject''
                else open_failed e protocol target ''error''),
          w1, snd (send_tunnel_failure pending e cl), None))"

subsection \<open>Forwarded requests\<close>

record forward_state =
  fs_upstream :: nat
  fs_downstream :: nat
  fs_route :: string
  fs_meta :: route_meta

definition MAX_REQUESTS_PER_CONNECTION :: nat where "MAX_REQUESTS_PER_CONNECTION = 100"

definition forward_report ::
  "string option \<Rightarrow> forward_state \<Rightarrow> session_outcome \<Rightarrow> failure_category option \<Rightarrow> session_report" where
  "forward_report target fs outcome failure =
    \<lparr>sp_protocol = None, sp_target = target, sp_route = fs_route fs, sp_bytes_upstream = fs_upstream fs,
     sp_bytes_downstream = fs_downstream fs, sp_outcome = outcome, sp_failure = failure, sp_meta = fs_meta fs\<rparr>"

text \<open>
  One request over an opened stream: the head and the body go out, the response comes back. The result is a
  report that ends the session, or whether the connection must be closed and the new state.
\<close>

definition forward_exchange ::
  "attempt \<Rightarrow> string option \<Rightarrow> forward_req \<Rightarrow> conn \<Rightarrow> forward_state \<Rightarrow> client_end \<Rightarrow>
   (session_report + bool \<times> forward_state) \<times> client_end" where
  "forward_exchange at target request stream fs cl =
    (let origin_req = as_bytes (build_origin_request request); head_bytes = length origin_req in
     case write_all id origin_req stream of
       (Inl e, _) \<Rightarrow>
         (Err (forward_report target fs RelayFailed (Some Fail_Relay)),
          snd (send_http_forward_failure (Open_Other ''write failed'') cl))
     | (Inr _, s1) \<Rightarrow>
         if at_head_flush_fails at
         then (Err (forward_report target (fs\<lparr>fs_upstream := fs_upstream fs + head_bytes\<rparr>) RelayFailed (Some Fail_Relay)),
               snd (send_http_forward_failure (Open_Other ''flush failed'') cl))
         else
         (case (case copy_request_body (ForwardRequest_body_kind request) BodyCopyLimits_default (cl_conn cl) s1 of
                  (Inl _, c1, s2) \<Rightarrow> (None, c1, s2)
                | (Inr report, c1, s2) \<Rightarrow> (if at_body_flush_fails at then None else Some report, c1, s2)) of
            (None, c1, _) \<Rightarrow>
              (Err (forward_report target (fs\<lparr>fs_upstream := fs_upstream fs + head_bytes\<rparr>) ClientProtocolError (Some Fail_Protocol)),
               client_shutdown (cl\<lparr>cl_conn := c1\<rparr>))
          | (Some body_report, c1, s2) \<Rightarrow>
              (let fs1 = fs\<lparr>fs_upstream := fs_upstream fs + head_bytes + wire_bytes body_report\<rparr> in
               case forward_response s2 c1 of
                 (Inl e, _, c2) \<Rightarrow>
                   if e = UpgradeUnsupported
                   then (Err (forward_report target fs1 RelayFailed (Some Fail_Protocol)),
                         snd (send_http_upgrade_unsupported (cl\<lparr>cl_conn := c2\<rparr>)))
                   else (Err (forward_report target fs1 RelayFailed (Some Fail_Relay)), client_shutdown (cl\<lparr>cl_conn := c2\<rparr>))
               | (Inr result, _, c2) \<Rightarrow>
                   (Ok (client_should_close result \<or> \<not> upstream_alive result,
                        fs1\<lparr>fs_downstream := fs_downstream fs1 + bytes_forwarded result\<rparr>),
                    cl\<lparr>cl_conn := c2\<rparr>))))"

text \<open>The loop over the requests of the connection; attempt \<open>k\<close> belongs to request \<open>k\<close>, counted from one.\<close>

function forward_loop ::
  "('re, 'net, 'r) connection_config \<Rightarrow> (nat \<Rightarrow> attempt) \<Rightarrow> client_identity \<Rightarrow> nat \<Rightarrow> forward_req \<Rightarrow> forward_state \<Rightarrow>
   'r session_world \<Rightarrow> client_end \<Rightarrow> session_report \<times> 'r session_world \<times> client_end" where
  "forward_loop cfg attempts identity k request fs w cl =
    (let target = Some (TargetAddr_fmt (fr_target request)) in
     if has_unsupported_expectation (fr_headers request)
     then (forward_report target fs ClientProtocolError (Some Fail_Protocol), w, snd (send_http_expectation_failed cl))
     else
       (case open_route cfg (attempts k) (session_request cfg (fr_target request) Id_Http identity) w of
          (Inl e, w1) \<Rightarrow>
            (if e = Open_PolicyDenied then rejected None target ''reject'' else open_failed e None target ''error'',
             w1, snd (send_http_forward_failure e cl))
        | (Inr opened, w1) \<Rightarrow>
            (let fs1 = fs\<lparr>fs_route := or_route opened, fs_meta := or_meta opened\<rparr>; w2 = drop_lease (or_lease opened) w1 in
             case forward_exchange (attempts k) target request (or_stream opened) fs1 cl of
               (Inl report, cl1) \<Rightarrow> (report, w2, cl1)
             | (Inr (must_close, fs2), cl1) \<Rightarrow>
                 if fr_connection_close request \<or> must_close \<or> MAX_REQUESTS_PER_CONNECTION \<le> k \<or> at_idle_expired (attempts k)
                 then (forward_report target fs2 Completed None, w2, cl1)
                 else (case forward_request_stream (cl_conn cl1) of
                         (Inl _, c) \<Rightarrow> (forward_report target fs2 Completed None, w2, cl1\<lparr>cl_conn := c\<rparr>)
                       | (Inr req, c) \<Rightarrow>
                           forward_loop cfg attempts identity (Suc k) req fs2 w2 (cl1\<lparr>cl_conn := c\<rparr>)))))"
  by pat_completeness auto
termination
  by (relation "measure (\<lambda>(_, _, _, k, _). Suc MAX_REQUESTS_PER_CONNECTION - k)") auto

declare forward_loop.simps [simp del]

definition execute_http_forward ::
  "('re, 'net, 'r) connection_config \<Rightarrow> (nat \<Rightarrow> attempt) \<Rightarrow> pending_http_forward \<Rightarrow> 'r session_world \<Rightarrow> client_end \<Rightarrow>
   'r session_end" where
  "execute_http_forward cfg attempts pending w cl =
    (case forward_loop cfg attempts (pf_identity pending) 1 (pf_request pending)
        \<lparr>fs_upstream = 0, fs_downstream = 0, fs_route = [], fs_meta = no_meta\<rparr> w cl of
       (report, w1, cl1) \<Rightarrow> (Some report, w1, cl1, None))"

subsection \<open>UDP associations and echo\<close>

definition REP_GENERAL_FAILURE :: u8 where "REP_GENERAL_FAILURE = 0x01"
definition REP_NOT_ALLOWED :: u8 where "REP_NOT_ALLOWED = 0x02"

definition udp_report :: "string \<Rightarrow> session_outcome \<Rightarrow> failure_category option \<Rightarrow> session_report" where
  "udp_report route_text outcome failure =
    \<lparr>sp_protocol = Some ''socks5'', sp_target = None, sp_route = route_text, sp_bytes_upstream = 0, sp_bytes_downstream = 0,
     sp_outcome = outcome, sp_failure = failure, sp_meta = no_meta\<rparr>"

definition udp_hint :: "pending_udp_associate \<Rightarrow> socks_addr" where
  "udp_hint pending =
    hop_socks_addr
      (case pu_client_hint pending of Some t \<Rightarrow> t | None \<Rightarrow> \<lparr>tgt_host = Ip (V4 [0, 0, 0, 0]), tgt_port = 0\<rparr>)"

definition relay_socks_addr :: "socket_addr \<Rightarrow> socks_addr" where
  "relay_socks_addr a =
    (case sock_ip a of V4 os \<Rightarrow> Socks_IPv4 os (sock_port a) | V6 os \<Rightarrow> Socks_IPv6 os (sock_port a))"

text \<open>
  The control connection is held until the client sends a byte, closes, or the association is cancelled; all
  three end the session in the same way. The last component says which association was cancelled. Creating the
  association spawns its relay task, which is not part of the session: it selects its own routes, takes its own
  leases and ends on its own after the cancellation (theory \<open>Udp_Relay\<close>).
\<close>

definition execute_udp_associate ::
  "('re, 'net, 'r) connection_config \<Rightarrow> pending_udp_associate \<Rightarrow> client_end \<Rightarrow> session_report \<times> client_end \<times> u64 option" where
  "execute_udp_associate cfg pending cl =
    (case (case cc_udp cfg of Some svc \<Rightarrow> if us_enabled svc then Some svc else None | None \<Rightarrow> None) of
       None \<Rightarrow>
         (udp_report ''udp_associate_disabled'' RouteFailed (Some Fail_Protocol),
          snd (client_io Reply_Socks5_Error (send_connect_reply REP_NOT_ALLOWED (udp_hint pending)) cl), None)
     | Some svc \<Rightarrow>
         (case us_create svc (cc_listener cfg) (cc_source cfg) (pu_identity pending) (cc_generation cfg) of
            Expired \<Rightarrow>
              (udp_report ''udp_associate_timeout'' HandshakeTimedOut (Some Fail_RouteTimeout),
               snd (client_io Reply_Socks5_Error (send_connect_reply REP_GENERAL_FAILURE (udp_hint pending)) cl), None)
          | Answered (Inl _) \<Rightarrow>
              (udp_report ''udp_associate_failed'' RouteFailed (Some Fail_Protocol),
               snd (client_io Reply_Socks5_Error (send_connect_reply REP_GENERAL_FAILURE (udp_hint pending)) cl), None)
          | Answered (Inr handle) \<Rightarrow>
              (case client_io Reply_Socks5_Error (send_udp_associate_reply (relay_socks_addr (uh_relay_addr handle))) cl of
                 (Inl _, cl1) \<Rightarrow>
                   (udp_report ''udp_associate_reply_failed'' ClientProtocolError (Some Fail_Protocol), cl1, Some (uh_id handle))
               | (Inr _, cl1) \<Rightarrow>
                   (udp_report ''udp_associate'' Completed None,
                    cl1\<lparr>cl_conn := (cl_conn cl1)\<lparr>rx := drop 1 (rx (cl_conn cl1))\<rparr>\<rparr>, Some (uh_id handle)))))"

text \<open>Echo: \<open>ks\<close> are the sizes in which the data arrives.\<close>

definition ECHO_BUFFER :: nat where "ECHO_BUFFER = 16 * 1024"

function echo_loop :: "nat list \<Rightarrow> nat \<Rightarrow> conn \<Rightarrow> nat \<times> conn" where
  "echo_loop ks bytes c =
    (if rx c = [] then (bytes, c)
     else (let n = min (length (rx c)) (case ks of [] \<Rightarrow> ECHO_BUFFER | k # _ \<Rightarrow> max 1 (min k ECHO_BUFFER)) in
           case write_all id (take n (rx c)) (c\<lparr>rx := drop n (rx c)\<rparr>) of
             (Inl _, c1) \<Rightarrow> (bytes + n, c1)
           | (Inr _, c1) \<Rightarrow> echo_loop (tl ks) (bytes + n) c1))"
  by pat_completeness auto
termination
  by (relation "measure (\<lambda>(_, _, c). length (rx c))")
    (auto simp: write_all_def ECHO_BUFFER_def split: if_splits list.splits)

declare echo_loop.simps [simp del]

definition execute_echo :: "nat list \<Rightarrow> client_end \<Rightarrow> session_report \<times> client_end" where
  "execute_echo ks cl =
    (case echo_loop ks 0 (cl_conn cl) of
       (bytes, c) \<Rightarrow> (completed (Some ''echo'') None ''echo'' bytes bytes, cl\<lparr>cl_conn := c\<rparr>))"

subsection \<open>A connection\<close>

record session_env =
  sv_attempts :: "nat \<Rightarrow> attempt"
  sv_relay :: relay_env
  sv_arrivals :: "nat list"

definition execute ::
  "('re, 'net, 'r) connection_config \<Rightarrow> session_env \<Rightarrow> accepted_session \<Rightarrow> 'r session_world \<Rightarrow> client_end \<Rightarrow> 'r session_end" where
  "execute cfg env session w cl =
    (case session of
       Session_Tunnel pending \<Rightarrow>
         execute_tunnel cfg (sv_attempts env 1) (sv_relay env) pending (Some (tunnel_protocol_name (pt_protocol pending)))
           (Some (TargetAddr_fmt (pt_target pending))) w cl
     | Session_HttpForward pending \<Rightarrow> execute_http_forward cfg (sv_attempts env) pending w cl
     | Session_Udp pending \<Rightarrow> (case execute_udp_associate cfg pending cl of (report, cl1, _) \<Rightarrow> (Some report, w, cl1, None))
     | Session_Echo \<Rightarrow> (case execute_echo (sv_arrivals env) cl of (report, cl1) \<Rightarrow> (Some report, w, cl1, None)))"

definition failed_accept_report :: "session_outcome \<Rightarrow> failure_category \<Rightarrow> session_report" where
  "failed_accept_report outcome failure =
    \<lparr>sp_protocol = None, sp_target = None, sp_route = ''unknown'', sp_bytes_upstream = 0, sp_bytes_downstream = 0,
     sp_outcome = outcome, sp_failure = Some failure, sp_meta = no_meta\<rparr>"

text \<open>
  \<open>accepted\<close> is what the accept routine gives, \<open>Expired\<close> when the handshake timeout fires first. The report is
  recorded when the session has ended.
\<close>

definition serve_connection ::
  "('re, 'net, 'r) connection_config \<Rightarrow> session_env \<Rightarrow> ((accept_error + accepted_session) \<times> conn) timed \<Rightarrow> conn \<Rightarrow>
   'r session_world \<Rightarrow> 'r session_end" where
  "serve_connection cfg env accepted c w =
    (let w0 = record_metric cfg M_SessionStart w;
         (report, w1, cl1, f) =
           (case accepted of
              Expired \<Rightarrow> (Some (failed_accept_report HandshakeTimedOut Fail_HandshakeTimeout), w0, \<lparr>cl_conn = c, cl_shut = False\<rparr>, None)
            | Answered (Inl e, c1) \<Rightarrow>
                if e = AuthenticationFailed
                then (Some (failed_accept_report Out_AuthenticationFailed Fail_Authentication),
                      record_metric cfg M_AuthFailure w0, \<lparr>cl_conn = c1, cl_shut = False\<rparr>, None)
                else (Some (failed_accept_report ClientProtocolError Fail_Protocol), w0, \<lparr>cl_conn = c1, cl_shut = False\<rparr>, None)
            | Answered (Inr session, c1) \<Rightarrow> execute cfg env session w0 \<lparr>cl_conn = c1, cl_shut = False\<rparr>)
     in (report, (case report of Some r \<Rightarrow> record_metric cfg (M_Session r) w1 | None \<Rightarrow> w1), cl1, f))"

subsection \<open>Leases are given back\<close>

abbreviation session_heap :: "'r session_world \<Rightarrow> up_heap" where
  "session_heap w \<equiv> w_heap (sw_route w)"

lemma heap_record [simp]: "session_heap (record_metric cfg e w) = session_heap w"
  by (simp add: record_metric_def)

lemma heap_on_heap [simp]: "session_heap (on_heap f w) = f (session_heap w)"
  by (simp add: on_heap_def)

lemma open_route_heap:
  assumes "open_route cfg at request w = (res, w')"
  shows "case res of
      Inl _ \<Rightarrow> session_heap w' = session_heap w
    | Inr opened \<Rightarrow> session_heap (drop_lease (or_lease opened) w') = session_heap w \<and>
        (case or_lease opened of None \<Rightarrow> session_heap w' = session_heap w
         | Some l \<Rightarrow> session_heap w' = active_inc (active_upstream l) (session_heap w))"
proof -
  obtain sel rw where r: "service_route (cc_is_match cfg) (cc_cidr cfg) (cc_index cfg) (cc_service cfg) request (sw_route w) = (sel, rw)"
    by fastforce
  then have h: "case sel of
      Inr (Selected_Upstream _ _ _ _ lease _) \<Rightarrow> lease_state lease = Pending \<and> w_heap rw = in_flight_inc (lease_upstream lease) (session_heap w)
    | _ \<Rightarrow> w_heap rw = session_heap w"
    unfolding service_route_def route_def Let_def by (rule Router_select_heap)
  show ?thesis
  proof (cases "\<exists>d g u c l r. sel = Ok (Selected_Upstream d g u c l r)")
    case True
    then obtain d g u c l rr where sel: "sel = Ok (Selected_Upstream d g u c l rr)" by blast
    obtain x where l: "l = \<lparr>lease_upstream = x, lease_state = Pending\<rparr>" using h sel by (cases l) auto
    have rw: "w_heap rw = in_flight_inc x (session_heap w)" using h sel l by simp
    show ?thesis
      using assms r rw
      by (auto simp: open_route_def sel l Let_def PendingLease_drop_def established_defs drop_lease_def ActiveLease_drop_def
          split: if_splits sum.splits)
  next
    case False
    then show ?thesis
      using assms r h
      by (auto simp: open_route_def Let_def drop_lease_def split: if_splits sum.splits selected_route.splits)
  qed
qed

lemma execute_tunnel_heap:
  assumes "execute_tunnel cfg at env pending protocol target w cl = (report, w', cl', f)"
  shows "if report = None then \<exists>l. (l = None \<and> session_heap w' = session_heap w) \<or>
      (\<exists>r. l = Some r \<and> session_heap w' = active_inc r (session_heap w))
    else session_heap w' = session_heap w"
proof -
  obtain res w1 where o: "open_route cfg at (session_request cfg (pt_target pending) (tunnel_protocol_id (pt_protocol pending)) (pt_identity pending)) w = (res, w1)"
    by fastforce
  note h = open_route_heap [OF o]
  show ?thesis
  proof (cases res)
    case (Inr opened)
    then show ?thesis
      using assms o h by (auto simp: execute_tunnel_def split: prod.splits sum.splits option.splits)
  next
    case (Inl e)
    then show ?thesis using assms o h by (auto simp: execute_tunnel_def)
  qed
qed

text \<open>One turn of the loop: the session ends here, or it goes on with another request.\<close>

lemma forward_loop_turn:
  assumes "forward_loop cfg attempts identity k request fs w cl = (report, w', cl')"
  shows "(has_unsupported_expectation (fr_headers request) \<and> w' = w \<and> cl' = snd (send_http_expectation_failed cl)) \<or>
    (\<exists>res w1. open_route cfg (attempts k) (session_request cfg (fr_target request) Id_Http identity) w = (res, w1) \<and>
      (case res of
         Inl e \<Rightarrow> w' = w1 \<and> cl' = snd (send_http_forward_failure e cl)
       | Inr opened \<Rightarrow>
           w' = drop_lease (or_lease opened) w1 \<or>
           (\<exists>req fs2 cl2. k < MAX_REQUESTS_PER_CONNECTION \<and>
             forward_loop cfg attempts identity (Suc k) req fs2 (drop_lease (or_lease opened) w1) cl2 = (report, w', cl'))))"
proof (cases "has_unsupported_expectation (fr_headers request)")
  case True
  with assms show ?thesis by (simp add: forward_loop.simps [of _ _ _ _ request] Let_def)
next
  case exp: False
  obtain res w1 where o: "open_route cfg (attempts k) (session_request cfg (fr_target request) Id_Http identity) w = (res, w1)"
    by fastforce
  show ?thesis
  proof (cases res)
    case (Inl e)
    with assms exp o show ?thesis by (auto simp: forward_loop.simps [of _ _ _ _ request] Let_def)
  next
    case (Inr opened)
    obtain ex cl1 where x: "forward_exchange (attempts k) (Some (TargetAddr_fmt (fr_target request))) request (or_stream opened)
        (fs\<lparr>fs_route := or_route opened, fs_meta := or_meta opened\<rparr>) cl = (ex, cl1)" by fastforce
    obtain nx c where n: "forward_request_stream (cl_conn cl1) = (nx, c)" by fastforce
    show ?thesis
    proof (cases ex)
      case (Inl r)
      with assms exp o Inr x show ?thesis by (auto simp: forward_loop.simps [of _ _ _ _ request] Let_def)
    next
      case ok: (Inr p)
      obtain must_close fs2 where p: "p = (must_close, fs2)" by fastforce
      show ?thesis
      proof (cases "(fr_connection_close request \<or> must_close \<or> MAX_REQUESTS_PER_CONNECTION \<le> k \<or> at_idle_expired (attempts k)) \<or> isl nx")
        case True
        then have "w' = drop_lease (or_lease opened) w1"
          using assms exp o Inr x n ok p by (cases nx) (auto simp: forward_loop.simps [of _ _ _ _ request] Let_def split: if_splits)
        with o Inr show ?thesis by simp
      next
        case False
        then obtain req where "nx = Ok req" by (cases nx) auto
        with False assms exp o Inr x n ok p
        have "forward_loop cfg attempts identity (Suc k) req fs2 (drop_lease (or_lease opened) w1) (cl1\<lparr>cl_conn := c\<rparr>) = (report, w', cl')"
          by (simp add: forward_loop.simps [of _ _ _ _ request] Let_def)
        with False o Inr show ?thesis by (auto simp: not_le)
      qed
    qed
  qed
qed

lemma forward_loop_heap:
  "forward_loop cfg attempts identity k request fs w cl = (report, w', cl') \<Longrightarrow> session_heap w' = session_heap w"
proof (induction "Suc MAX_REQUESTS_PER_CONNECTION - k" arbitrary: k request fs w cl rule: less_induct)
  case less
  from forward_loop_turn [OF less.prems] show ?case
  proof (elim disjE exE conjE)
    fix res w1 assume o: "open_route cfg (attempts k) (session_request cfg (fr_target request) Id_Http identity) w = (res, w1)"
      and c: "case res of
         Inl e \<Rightarrow> w' = w1 \<and> cl' = snd (send_http_forward_failure e cl)
       | Inr opened \<Rightarrow>
           w' = drop_lease (or_lease opened) w1 \<or>
           (\<exists>req fs2 cl2. k < MAX_REQUESTS_PER_CONNECTION \<and>
             forward_loop cfg attempts identity (Suc k) req fs2 (drop_lease (or_lease opened) w1) cl2 = (report, w', cl'))"
    note h = open_route_heap [OF o]
    show ?thesis
    proof (cases res)
      case (Inr opened)
      with c consider "w' = drop_lease (or_lease opened) w1"
        | req fs2 cl2 where "k < MAX_REQUESTS_PER_CONNECTION"
          "forward_loop cfg attempts identity (Suc k) req fs2 (drop_lease (or_lease opened) w1) cl2 = (report, w', cl')" by auto
      then show ?thesis
      proof cases
        case 2
        have "Suc MAX_REQUESTS_PER_CONNECTION - Suc k < Suc MAX_REQUESTS_PER_CONNECTION - k" using 2(1) by simp
        from less.hyps [OF this 2(2)] h Inr show ?thesis by simp
      qed (use h Inr in simp)
    qed (use c h in simp)
  qed simp
qed

text \<open>
  C3: A tunnel or an HTTP forward session gives back what it takes. Whatever the client, the rules,
  the network and the timers do, once such a session has ended, the upstream counters are what they were before
  it: a pending lease is dropped when opening fails or times out, an active one when the session or the
  exchange ends, and none is dropped twice, with any number of requests on the connection. While a
  tunnel's relay still runs, the session holds at most one active lease. (A UDP ASSOCIATE session takes no lease
  itself; the leases of its relay task are accounted for with that task.)
\<close>
theorem session_leases_returned:
  assumes "execute cfg env session w cl = (report, w', cl', f)"
    and "(\<exists>pending. session = Session_Tunnel pending) \<or> (\<exists>pending. session = Session_HttpForward pending)"
  shows "(report \<noteq> None \<longrightarrow> session_heap w' = session_heap w) \<and>
    (report = None \<longrightarrow> session_heap w' = session_heap w \<or> (\<exists>r. session_heap w' = active_inc r (session_heap w)))"
  using assms(2)
proof (elim disjE exE)
  fix pending assume "session = Session_Tunnel pending"
  with assms have "execute_tunnel cfg (sv_attempts env 1) (sv_relay env) pending (Some (tunnel_protocol_name (pt_protocol pending)))
      (Some (TargetAddr_fmt (pt_target pending))) w cl = (report, w', cl', f)" by (simp add: execute_def)
  from execute_tunnel_heap [OF this] show ?thesis by (auto split: if_splits)
next
  fix pending assume "session = Session_HttpForward pending"
  with assms show ?thesis
    using forward_loop_heap [of cfg "sv_attempts env" "pf_identity pending" 1 "pf_request pending"]
    by (auto simp: execute_def execute_http_forward_def split: prod.splits)
qed

subsection \<open>One report per connection\<close>

fun plain_event :: "metric_event \<Rightarrow> bool" where
  "plain_event M_SessionStart = False"
| "plain_event (M_Session _) = False"
| "plain_event _ = True"

text \<open>\<open>adds w w'\<close>: from \<open>w\<close> to \<open>w'\<close> only events of routes, upstreams and authentication were recorded.\<close>

definition adds :: "'r session_world \<Rightarrow> 'r session_world \<Rightarrow> bool" where
  "adds w w' \<longleftrightarrow> (\<exists>ms. sw_metrics w' = sw_metrics w @ ms \<and> list_all plain_event ms)"

lemma adds_refl [simp]: "adds w w"
  by (simp add: adds_def)

lemma adds_trans: "adds w w1 \<Longrightarrow> adds w1 w2 \<Longrightarrow> adds w w2"
  unfolding adds_def by (metis append.assoc list_all_append)

lemma adds_record [simp]: "adds w w' \<Longrightarrow> plain_event e \<Longrightarrow> adds w (record_metric cfg e w')"
  by (auto simp: adds_def record_metric_def)

lemma adds_heap [simp]: "adds w (on_heap f w') = adds w w'" "adds w (w'\<lparr>sw_route := rw\<rparr>) = adds w w'"
  "adds w (drop_lease l w') = adds w w'"
  by (cases l; simp add: adds_def on_heap_def drop_lease_def)+

lemma open_route_adds: "open_route cfg at request w = (res, w') \<Longrightarrow> adds w w'"
  by (auto simp: open_route_def Let_def split: prod.splits sum.splits selected_route.splits if_splits)

definition report_ok :: "session_report \<Rightarrow> bool" where
  "report_ok r \<longleftrightarrow> (sp_outcome r = Completed \<longleftrightarrow> sp_failure r = None)"

lemma report_ok_simps [simp]:
  "report_ok (forward_report t fs oc fl) \<longleftrightarrow> (oc = Completed \<longleftrightarrow> fl = None)"
  "report_ok (tunnel_report p t op up down oc fl) \<longleftrightarrow> (oc = Completed \<longleftrightarrow> fl = None)"
  "report_ok (udp_report rt oc fl) \<longleftrightarrow> (oc = Completed \<longleftrightarrow> fl = None)"
  "report_ok (failed_accept_report oc f) \<longleftrightarrow> oc \<noteq> Completed"
  "report_ok (rejected p t rule)" "report_ok (open_failed e p t rt)" "report_ok (completed p t rt up down)"
  by (simp_all add: report_ok_def forward_report_def tunnel_report_def udp_report_def failed_accept_report_def rejected_def
      open_failed_def completed_def)

lemma forward_exchange_report: "forward_exchange at t request s fs cl = (Inl r, cl') \<Longrightarrow> report_ok r"
  by (auto simp: forward_exchange_def Let_def split: prod.splits sum.splits if_splits option.splits)

lemma forward_loop_metrics:
  "forward_loop cfg attempts identity k request fs w cl = (report, w', cl') \<Longrightarrow> adds w w' \<and> report_ok report"
proof (induction "Suc MAX_REQUESTS_PER_CONNECTION - k" arbitrary: k request fs w cl rule: less_induct)
  case less
  show ?case
  proof (cases "has_unsupported_expectation (fr_headers request)")
    case True
    with less.prems show ?thesis by (auto simp: forward_loop.simps [of _ _ _ _ request] Let_def)
  next
    case exp: False
    obtain res w1 where o: "open_route cfg (attempts k) (session_request cfg (fr_target request) Id_Http identity) w = (res, w1)"
      by fastforce
    note a = open_route_adds [OF o]
    show ?thesis
    proof (cases res)
      case (Inl e)
      with less.prems exp o a show ?thesis by (auto simp: forward_loop.simps [of _ _ _ _ request] Let_def)
    next
      case (Inr opened)
      let ?w2 = "drop_lease (or_lease opened) w1"
      obtain ex cl1 where x: "forward_exchange (attempts k) (Some (TargetAddr_fmt (fr_target request))) request (or_stream opened)
          (fs\<lparr>fs_route := or_route opened, fs_meta := or_meta opened\<rparr>) cl = (ex, cl1)" by fastforce
      consider r where "ex = Inl r" "report = r" "w' = ?w2"
        | "w' = ?w2" "report_ok report"
        | req fs2 cl2 where "k < MAX_REQUESTS_PER_CONNECTION" "forward_loop cfg attempts identity (Suc k) req fs2 ?w2 cl2 = (report, w', cl')"
        using less.prems exp o Inr x
        by (auto simp: forward_loop.simps [of _ _ _ _ request] Let_def not_le split: sum.splits prod.splits if_splits)
      then show ?thesis
      proof cases
        case 1
        with forward_exchange_report [of _ _ request] x a show ?thesis by auto
      next
        case 3
        have "Suc MAX_REQUESTS_PER_CONNECTION - Suc k < Suc MAX_REQUESTS_PER_CONNECTION - k" using 3(1) by simp
        from less.hyps [OF this 3(2)] a adds_trans [of w ?w2 w'] show ?thesis by simp
      qed (use a in simp)
    qed
  qed
qed

lemma execute_metrics:
  assumes "execute cfg env session w cl = (report, w', cl', f)"
  shows "adds w w' \<and> (\<forall>r. report = Some r \<longrightarrow> report_ok r)"
proof (cases session)
  case (Session_Tunnel pending)
  obtain res w1 where o: "open_route cfg (sv_attempts env 1)
      (session_request cfg (pt_target pending) (tunnel_protocol_id (pt_protocol pending)) (pt_identity pending)) w = (res, w1)"
    by fastforce
  with assms Session_Tunnel open_route_adds [OF o] show ?thesis
    by (auto simp: execute_def execute_tunnel_def split: prod.splits sum.splits option.splits)
next
  case (Session_HttpForward pending)
  with assms show ?thesis
    using forward_loop_metrics [of cfg "sv_attempts env" "pf_identity pending" 1 "pf_request pending"]
    by (auto simp: execute_def execute_http_forward_def split: prod.splits)
next
  case (Session_Udp pending)
  with assms show ?thesis
    by (auto simp: execute_def execute_udp_associate_def split: prod.splits option.splits timed.splits sum.splits if_splits)
next
  case Session_Echo
  with assms show ?thesis by (auto simp: execute_def execute_echo_def split: prod.splits)
qed

text \<open>
  C40: One report per connection. With metrics on, a connection records one start and, when it has ended,
  exactly one report as its last event, on every path: accepted sessions of all kinds, failed and
  timed-out handshakes, failed authentication. In between there are only events of routes, upstreams and
  authentication, and a report says that the session completed exactly when it carries no failure.
\<close>
theorem connection_reports_once:
  assumes "serve_connection cfg env accepted c w = (report, w', cl', f)" "cc_metrics cfg"
  shows "\<exists>ms. list_all plain_event ms \<and>
    sw_metrics w' = sw_metrics w @ [M_SessionStart] @ ms @ (case report of None \<Rightarrow> [] | Some r \<Rightarrow> [M_Session r]) \<and>
    (case report of None \<Rightarrow> True | Some r \<Rightarrow> (sp_outcome r = Completed \<longleftrightarrow> sp_failure r = None))"
proof -
  let ?w0 = "record_metric cfg M_SessionStart w"
  obtain w1 where w1: "adds ?w0 w1" "w' = (case report of Some r \<Rightarrow> record_metric cfg (M_Session r) w1 | None \<Rightarrow> w1)"
    "\<forall>r. report = Some r \<longrightarrow> report_ok r"
  proof (cases accepted)
    case (Answered p)
    obtain res c1 where p: "p = (res, c1)" by fastforce
    show thesis
    proof (cases res)
      case (Inr session)
      obtain r x y z where e: "execute cfg env session ?w0 \<lparr>cl_conn = c1, cl_shut = False\<rparr> = (r, x, y, z)" by (metis prod_cases4)
      with assms(1) Answered p Inr have "r = report" "w' = (case report of Some r \<Rightarrow> record_metric cfg (M_Session r) x | None \<Rightarrow> x)"
        by (auto simp: serve_connection_def Let_def)
      with execute_metrics [OF e] that show thesis by blast
    next
      case (Inl e)
      with assms(1) Answered p that [of "if e = AuthenticationFailed then record_metric cfg M_AuthFailure ?w0 else ?w0"] show thesis
        by (auto simp: serve_connection_def Let_def split: if_splits)
    qed
  next
    case Expired
    with assms(1) that [of ?w0] show thesis by (auto simp: serve_connection_def Let_def)
  qed
  then obtain ms where "sw_metrics w1 = sw_metrics w @ [M_SessionStart] @ ms" "list_all plain_event ms"
    using assms(2) by (auto simp: adds_def record_metric_def)
  with w1 assms(2) show ?thesis
    by (intro exI [of _ ms]) (auto simp: record_metric_def report_ok_def split: option.split)
qed

subsection \<open>What a tunnel carries\<close>

text \<open>The relay's view of a connection: it reads the bytes that are still to come and continues what was written.\<close>

definition faithful_view :: "(conn \<Rightarrow> source \<times> relay_sink) \<Rightarrow> bool" where
  "faithful_view v \<longleftrightarrow> (\<forall>c. avail (fst (v c)) = rx c \<and> sk_out (snd (v c)) = tx c)"

lemma sends_fields [simp]:
  "rx (cl_conn (sends cl bs)) = rx (cl_conn cl)" "tx (cl_conn (sends cl bs)) = tx (cl_conn cl) @ bs"
  by (simp_all add: sends_def)

lemma relay_counts:
  assumes "relay ts client server = (res, f)"
  shows "\<exists>up down rest_up rest_down.
    sk_out (snd (rf_server f)) = sk_out (snd server) @ up \<and> avail (fst client) = up @ rest_up \<and>
    sk_out (snd (rf_client f)) = sk_out (snd client) @ down \<and> avail (fst server) = down @ rest_down \<and>
    (\<forall>r. res = Some r \<longrightarrow> rl_bytes_upstream r = length up \<and> rl_bytes_downstream r = length down)"
proof -
  obtain r0 where r0: "relay_with_options ts client server legacy_options = (r0, f)" "res = map_option relay_outcome r0"
    using assms by (auto simp: relay_def split: prod.splits)
  have "0 < ro_buffer_size legacy_options" by (simp add: legacy_options_def)
  from relay_faithful [OF r0(1) this] obtain up down rest_up rest_down where
    c: "sk_out (snd (rf_server f)) = sk_out (snd server) @ up" "avail (fst client) = up @ rest_up"
    "sk_out (snd (rf_client f)) = sk_out (snd client) @ down" "avail (fst server) = down @ rest_down"
    "case r0 of None \<Rightarrow> True | Some x \<Rightarrow> counts_up x = length up \<and> counts_down x = length down" by blast
  have "rl_bytes_upstream r = length up \<and> rl_bytes_downstream r = length down" if "res = Some r" for r
    using that r0(2) c(5) by (auto simp: counts_up_def counts_down_def split: sum.splits)
  with c(1-4) show ?thesis by blast
qed

text \<open>
  C1: A tunnel session is exact from end to end. When no route opens, the client gets one failure reply of its
  own protocol (or only a shutdown, where the protocol has none), nothing is relayed and the report is a failed
  route. When a route opens, the client gets the success reply and then, at every moment, a prefix of what
  the upstream sends, the upstream gets a prefix of what the client sends after its request, both in order and
  beginning where the handshakes stopped, and the report's counts are the numbers of these bytes.
\<close>
theorem tunnel_session_exact:
  assumes "execute_tunnel cfg at env pending protocol target w cl = (report, w', cl', f)"
    "reply_matches pending" "answer_room \<le> room (cl_conn cl)" "faithful_view (re_client env)" "faithful_view (re_server env)"
    "open_route cfg at (session_request cfg (pt_target pending) (tunnel_protocol_id (pt_protocol pending)) (pt_identity pending)) w = (res, w1)"
  shows "case res of
      Inl e \<Rightarrow>
        f = None \<and> tx (cl_conn cl') = tx (cl_conn cl) @ failure_bytes (pt_protocol pending) e \<and> rx (cl_conn cl') = rx (cl_conn cl) \<and>
        (\<exists>r. report = Some r \<and> sp_outcome r = RouteFailed \<and> sp_bytes_upstream r = 0 \<and> sp_bytes_downstream r = 0)
    | Inr opened \<Rightarrow>
        (\<exists>fut up down rest_up rest_down. f = Some fut \<and>
          sk_out (snd (rf_client fut)) = tx (cl_conn cl) @ success_bytes (pt_protocol pending) @ down \<and>
          rx (or_stream opened) = down @ rest_down \<and>
          sk_out (snd (rf_server fut)) = tx (or_stream opened) @ up \<and> rx (cl_conn cl) = up @ rest_up \<and>
          (\<forall>r. report = Some r \<longrightarrow> sp_bytes_upstream r = length up \<and> sp_bytes_downstream r = length down \<and>
             sp_outcome r \<in> {Completed, RelayFailed}))"
proof (cases res)
  case (Inl e)
  have "cl' = snd (send_tunnel_failure pending e cl)" "f = None"
    "report = Some (if e = Open_PolicyDenied then rejected protocol target ''reject'' else open_failed e protocol target ''error'')"
    using assms(1,6) Inl by (auto simp: execute_tunnel_def)
  then show ?thesis
    using Inl send_tunnel_failure_bytes [OF assms(2,3), of e] by (auto simp: rejected_def open_failed_def)
next
  case (Inr opened)
  let ?cl = "sends cl (success_bytes (pt_protocol pending))"
  obtain res f0 where r: "relay (re_ticks env) (re_client env (cl_conn ?cl)) (re_server env (or_stream opened)) = (res, f0)"
    by fastforce
  from relay_counts [OF r] obtain up down rest_up rest_down where
    c: "sk_out (snd (rf_server f0)) = tx (or_stream opened) @ up" "rx (cl_conn cl) = up @ rest_up"
    "sk_out (snd (rf_client f0)) = (tx (cl_conn cl) @ success_bytes (pt_protocol pending)) @ down" "rx (or_stream opened) = down @ rest_down"
    "\<forall>r. res = Some r \<longrightarrow> rl_bytes_upstream r = length up \<and> rl_bytes_downstream r = length down"
    using assms(4,5) by (auto simp: faithful_view_def)
  have "f = Some f0"
    "\<forall>r. report = Some r \<longrightarrow> sp_bytes_upstream r = length up \<and> sp_bytes_downstream r = length down \<and> sp_outcome r \<in> {Completed, RelayFailed}"
    using assms(1,6) Inr r send_tunnel_success_bytes [OF assms(2,3)] c(5)
    by (auto simp: execute_tunnel_def tunnel_report_def split: option.splits)
  with c(1-4) show ?thesis unfolding Inr sum.case append.assoc by blast
qed

subsection \<open>Examples\<close>

definition demo_session_config :: "(string, string) router \<Rightarrow> (string, string, deterministic_random) connection_config" where
  "demo_session_config router =
    \<lparr>cc_is_match = (\<lambda>_ _. False), cc_cidr = (\<lambda>_ _. False), cc_index = DeterministicRandom_index,
     cc_service = SharedRoutingService_new router, cc_source = None, cc_listener = ''main'', cc_generation = 0,
     cc_metrics = True, cc_udp = None, cc_local_bind = None, cc_executor = demo_executor, cc_show = (\<lambda>_. [])\<rparr>"

definition demo_attempt :: attempt where
  "demo_attempt = \<lparr>at_transports = demo_transports [], at_expired = True, at_head_flush_fails = False, at_body_flush_fails = False,
     at_idle_expired = False\<rparr>"

definition demo_view :: "conn \<Rightarrow> source \<times> relay_sink" where
  "demo_view c = ([Avail (rx c)], \<lparr>sk_writes = [], sk_shuts = [], sk_out = tx c, sk_closed = False\<rparr>)"

definition demo_session_env :: session_env where
  "demo_session_env =
    \<lparr>sv_attempts = (\<lambda>_. demo_attempt), sv_relay = \<lparr>re_client = demo_view, re_server = demo_view, re_ticks = []\<rparr>, sv_arrivals = []\<rparr>"

definition demo_tunnel :: pending_tunnel where
  "demo_tunnel =
    \<lparr>pt_target = \<lparr>tgt_host = Domain ''example.com'', tgt_port = 443\<rparr>, pt_layer = Layer_None, pt_protocol = Tunnel_Socks5,
     pt_reply_context = Reply_Socks5, pt_identity = Anonymous\<rparr>"

definition demo_client_end :: client_end where
  "demo_client_end = \<lparr>cl_conn = \<lparr>rx = [1, 2], tx = [], room = 999\<rparr>, cl_shut = False\<rparr>"

definition demo_session_world :: "deterministic_random session_world" where
  "demo_session_world = \<lparr>sw_route = sample_world Kind_FirstAvailable, sw_metrics = []\<rparr>"

lemma demo_view_faithful: "faithful_view demo_view"
  by (simp add: faithful_view_def demo_view_def)

lemma demo_open_direct:
  "open_route (demo_session_config (Router_new [] Action_Direct)) demo_attempt request demo_session_world =
    (Err Open_Timeout, demo_session_world\<lparr>sw_metrics := [M_RouteDecision ''default'' ''direct'' ''selected'']\<rparr>)"
  by (simp add: open_route_def demo_session_config_def service_route_def SharedRoutingService_new_def route_def decide_def
      Router_new_def Router_select_def DEFAULT_RULE_ID_def demo_attempt_def demo_session_world_def record_metric_def Let_def)

theorem tunnel_session_exact_witness:
  "case execute_tunnel (demo_session_config (Router_new [] Action_Direct)) demo_attempt (sv_relay demo_session_env) demo_tunnel
      None None demo_session_world demo_client_end of
     (report, w', cl', f) \<Rightarrow> f = None \<and> tx (cl_conn cl') = [5, 6, 0, 1, 0, 0, 0, 0, 0, 0] \<and> rx (cl_conn cl') = [1, 2] \<and>
       (\<exists>r. report = Some r \<and> sp_outcome r = RouteFailed)"
proof -
  obtain report w' cl' f where e: "execute_tunnel (demo_session_config (Router_new [] Action_Direct)) demo_attempt
      (sv_relay demo_session_env) demo_tunnel None None demo_session_world demo_client_end = (report, w', cl', f)"
    by (metis prod_cases4)
  have "reply_matches demo_tunnel" "answer_room \<le> room (cl_conn demo_client_end)"
    "faithful_view (re_client (sv_relay demo_session_env))" "faithful_view (re_server (sv_relay demo_session_env))"
    by (simp_all add: reply_matches_def demo_tunnel_def answer_room_def demo_client_end_def demo_session_env_def demo_view_faithful)
  from tunnel_session_exact [OF e this demo_open_direct] show ?thesis
    unfolding e by (auto simp: demo_tunnel_def demo_client_end_def)
qed

theorem session_leases_returned_witness:
  "case execute (demo_session_config (sample_router Kind_FirstAvailable Fallback_Reject)) demo_session_env (Session_Tunnel demo_tunnel)
      demo_session_world demo_client_end of
     (report, w', cl', f) \<Rightarrow> (report \<noteq> None \<longrightarrow> session_heap w' = session_heap demo_session_world)"
proof -
  obtain report w' cl' f where e: "execute (demo_session_config (sample_router Kind_FirstAvailable Fallback_Reject)) demo_session_env
      (Session_Tunnel demo_tunnel) demo_session_world demo_client_end = (report, w', cl', f)"
    by (metis prod_cases4)
  from session_leases_returned [OF e] show ?thesis unfolding e by blast
qed

theorem connection_reports_once_witness:
  "case serve_connection (demo_session_config (Router_new [] Action_Direct)) demo_session_env Expired (cl_conn demo_client_end)
      demo_session_world of
     (report, w', cl', f) \<Rightarrow> \<exists>ms. list_all plain_event ms \<and>
       sw_metrics w' = [M_SessionStart] @ ms @ [M_Session (failed_accept_report HandshakeTimedOut Fail_HandshakeTimeout)]"
proof -
  obtain report w' cl' f where e: "serve_connection (demo_session_config (Router_new [] Action_Direct)) demo_session_env Expired
      (cl_conn demo_client_end) demo_session_world = (report, w', cl', f)"
    by (metis prod_cases4)
  have "report = Some (failed_accept_report HandshakeTimedOut Fail_HandshakeTimeout)"
    using e by (auto simp: serve_connection_def Let_def)
  with connection_reports_once [OF e] show ?thesis
    unfolding e by (auto simp: demo_session_config_def demo_session_world_def)
qed

end
