(* ===== verification/Spec2Isabelle.thy ===== *)
theory Spec2Isabelle
  imports Supervisor Udp_Standalone_Facts Session
begin

text \<open>
  \<^bold>\<open>Eggress: a verification of the proxy's core logic.\<close>

  Eggress (\<^verbatim>\<open>src/crates\<close>) is a multi-protocol proxy. A listener accepts a connection, finds out
  which proxy protocol the client speaks by looking at its first bytes, runs that protocol's
  handshake (with authentication) to learn the target, asks the router which upstream to use, takes
  a lease on that upstream, connects through it (possibly through a chain of proxies, each spoken to
  by a client handshake), and relays. UDP takes the same path through associations and a stack of
  hop codecs. The development follows this path.

  \<^bold>\<open>Conventions.\<close> Rust functions are HOL functions with the same name; a method \<^verbatim>\<open>T::m\<close> whose
  name is not unique is \<open>T_m\<close>. \<^verbatim>\<open>Result<T, E>\<close> is \<open>'e + 'a\<close> with \<open>Err\<close> and \<open>Ok\<close>, a panic is a value of
  its own, structs are records, enums are datatypes, \<^verbatim>\<open>u8\<close>, \<^verbatim>\<open>u16\<close>, \<^verbatim>\<open>u32\<close>, \<^verbatim>\<open>u64\<close> are words where
  wrap-around can occur and bounded naturals where the code checks the bound. A \<^verbatim>\<open>String\<close> is the list
  of its UTF-8 bytes, as characters. Shared mutable objects (upstreams, schedulers) live in an
  explicit heap. Byte streams are records with the bytes to come, the bytes written and the
  room left, and asynchronous routines are state transformers on them (\<open>Byte_Io\<close>); where the
  splitting of data into reads matters (\<open>Detect\<close>, \<open>Ss_Stream\<close>) the events are explicit. Loops
  are recursive functions with a termination proof; those that the outside world drives (the relay, the
  forward proxy's keep-alive loop, the encrypting stream) recurse on the list of events that drives
  them, so no fuel is used anywhere in the model.

  \<^bold>\<open>Shared ground.\<close>
  \<^item> \<open>Eggress_Prelude\<close>: results, UTF-8, number parsing and printing, splitting of strings, saturating and
    wrapping arithmetic, generic list lemmas.
  \<^item> \<open>Net_Addr\<close>, \<open>Net_Text\<close>: \<^verbatim>\<open>std::net\<close> addresses, their printers and parsers; text round trips.
  \<^item> \<open>Core_Types\<close>: \<^verbatim>\<open>eggress-core/src/lib.rs\<close>, \<^verbatim>\<open>capability.rs\<close>.
  \<^item> \<open>Byte_Io\<close>: \<^verbatim>\<open>tokio::io\<close> readers and writers.

  \<^bold>\<open>Configuration and supervision.\<close>
  \<^item> \<open>Uri\<close> (\<^verbatim>\<open>eggress-uri\<close>): the grammar of proxy chains; a chain is split at exactly the separators
    outside brackets and braces.
  \<^item> \<open>Config_Model\<close>, \<open>Config_Validate\<close>, \<open>Config_Compile\<close> (\<^verbatim>\<open>eggress-config/src/model.rs\<close>, \<^verbatim>\<open>validate\<close>, \<^verbatim>\<open>compile\<close>, \<^verbatim>\<open>env.rs\<close>,
    \<^verbatim>\<open>lib.rs\<close>): the sections of a configuration file as records of optional fields, the validators as functions that
    return the list of their errors in the order of the code, and the compilers, which stop at the first
    error. The environment, the file system, the TOML parser and the regular-expression, network and PEM
    libraries are the record \<open>config_env\<close> and arguments.
  \<^item> \<open>Config_Facts\<close>: what an accepted file satisfies; a compiled matcher means what its expression says when every
    composite has one key, and the admin endpoint is never exposed without credentials.
  \<^item> \<open>Snapshot\<close> (\<^verbatim>\<open>eggress-runtime/src/snapshot.rs\<close>, \<^verbatim>\<open>supervisor.rs\<close>, \<^verbatim>\<open>supervisor/reload.rs\<close>, \<^verbatim>\<open>state.rs\<close>, \<^verbatim>\<open>startup.rs\<close>): the
    construction of a snapshot over the heap of upstreams, the reuse of unchanged ones, the classification
    of a reload, start and reload of the supervisor.
  \<^item> \<open>Supervisor\<close>: the states a supervisor can reach as an inductive predicate; compiled configurations are well
    typed, routing follows the file in use through every reload, and a reload is all or nothing.

  \<^bold>\<open>Routing\<close> (\<^verbatim>\<open>eggress-routing\<close>).
  \<^item> \<open>Health\<close> (\<^verbatim>\<open>health.rs\<close>): the health state machine; the state after any probe history in closed form, and
    the agreement of the published atomic with the locked snapshot.
  \<^item> \<open>Upstream\<close> (\<^verbatim>\<open>upstream.rs\<close>, \<^verbatim>\<open>lease.rs\<close>): counters and leases, with a step relation over the lease operations
    of the code; the counters count the live leases under every interleaving.
  \<^item> \<open>Scheduler\<close> (\<^verbatim>\<open>scheduler.rs\<close>): four policies behind one locale of what a scheduler promises; fairness of
    round robin, least connections against a reference definition.
  \<^item> \<open>Matcher\<close> (\<^verbatim>\<open>matcher.rs\<close>, \<^verbatim>\<open>compat.rs\<close>, \<^verbatim>\<open>rule.rs\<close>, \<^verbatim>\<open>model.rs\<close>): rules; suffixes match on label boundaries, port
    sets are membership, and the one input on which the compatibility formatter panics.
  \<^item> \<open>Router\<close> (\<^verbatim>\<open>router.rs\<close>, \<^verbatim>\<open>explain.rs\<close>): the route operation refines an abstract contract, never returns
    a disabled upstream, and is announced truly by the explanation (but for the fallback to unhealthy members).

  \<^bold>\<open>Inbound.\<close>
  \<^item> \<open>Detect\<close> (\<^verbatim>\<open>eggress-core/src/replay.rs\<close>, \<^verbatim>\<open>detect.rs\<close>, \<^verbatim>\<open>dispatch.rs\<close> and the detectors of the protocol crates):
    with the three standard detectors the answer does not depend on segmentation and no byte is lost.
  \<^item> \<open>Socks5_Codec\<close>, \<open>Socks5_Handshake\<close>, \<open>Socks4\<close> (\<^verbatim>\<open>eggress-protocol-socks\<close>): codecs, server and client;
    authentication transcripts and interoperation of the two sides.
  \<^item> \<open>Auth_Cache\<close>, \<open>Accept\<close> (\<^verbatim>\<open>eggress-server/src/accept\<close>): the authentication reuse cache and the SOCKS
    handlers of a listener; a session is accepted only with the configured credentials or on the cache's
    word, and the cache vouches only for recent authentications.
  \<^item> \<open>Accept_Http\<close>, \<open>Accept_Listener\<close> (\<^verbatim>\<open>accept/forward.rs\<close>, \<^verbatim>\<open>accept/mod.rs\<close>, \<^verbatim>\<open>accept/prefixed.rs\<close>): the HTTP
    listener and the dispatch over all handlers; a listener with credentials accepts no HTTP or SOCKS session
    without them, in the form of the session's own protocol. (A raw or echo listener has no credentials to check.)

  \<^bold>\<open>Protocols of both sides.\<close>
  \<^item> \<open>Shadowsocks\<close>, \<open>Ss_Stream\<close> (\<^verbatim>\<open>eggress-protocol-shadowsocks\<close>): chunks, nonces, handshakes with replay
    protection, and the encrypting stream, which delivers what was written under every schedule of
    partial reads and writes and seals every block under a nonce of its own. The ciphers and the key derivation are parameters with the laws of an AEAD.
  \<^item> \<open>Trojan\<close> (\<^verbatim>\<open>eggress-protocol-trojan\<close>): uniform answers to a wrong password, interoperation.
  \<^item> \<open>Http_Text\<close>, \<open>Http_Body\<close>, \<open>Http_Forward\<close>, \<open>Http_Response\<close> (\<^verbatim>\<open>eggress-protocol-http/src/forward/server.rs\<close>,
    \<^verbatim>\<open>error.rs\<close>): the forward proxy; body copying is exact, the heads sent on have exactly the lines they should
    have and no line break inside one, responses are relayed up to the end their framing announces, and when the origin
    frames a body as the proxy does.
  \<^item> \<open>Http_Connect\<close> (\<^verbatim>\<open>eggress-protocol-http/src/connect\<close>): the CONNECT client.

  \<^bold>\<open>Outbound.\<close>
  \<^item> \<open>Connector\<close> (\<^verbatim>\<open>eggress-core/src/connector.rs\<close>): resolution and direct connections; the guard against reserved
    addresses is compared with the address blocks it stands for, and it covers every address a name resolves to.
  \<^item> \<open>Chain\<close> (\<^verbatim>\<open>eggress-core/src/chain.rs\<close>): the chain executor; the path a success has taken, and which hop a
    failure is attributed to.
  \<^item> \<open>Hops\<close> (\<^verbatim>\<open>eggress-outbound/src/hops.rs\<close>, the classification of \<^verbatim>\<open>eggress-core\<close>): the handlers of the protocols;
    a chain of SOCKS5 hops asks each proxy for the next one and the last one for the target.

  \<^bold>\<open>Sessions\<close> (\<^verbatim>\<open>eggress-server/src\<close>).
  \<^item> \<open>Relay\<close> (\<^verbatim>\<open>eggress-relay\<close>, \<^verbatim>\<open>eggress-core/src/relay.rs\<close>): the two-way copy, driven by a list of read and
    write events per direction and the state of the drain deadline at each poll; everything read is delivered in order, the byte
    counts are exact, and only an expired deadline cuts a direction off.
  \<^item> \<open>Reply\<close> (\<^verbatim>\<open>error.rs\<close>, \<^verbatim>\<open>reply.rs\<close>): how an error becomes the answer of the client's protocol.
  \<^item> \<open>Session\<close> (\<^verbatim>\<open>execute/mod.rs\<close>, \<^verbatim>\<open>lib.rs\<close>): opening a route, the tunnel, forward and UDP sessions and the
    whole connection; every lease a tunnel or forward session takes is given back on every path, every connection is
    reported once, and a tunnel delivers and counts exactly what was sent. The relay task of a UDP association is not part
    of its session (it is \<open>Udp_Relay\<close>, with leases of its own).

  \<^bold>\<open>UDP\<close> (\<^verbatim>\<open>eggress-udp\<close>).
  \<^item> \<open>Udp_Assoc\<close> (\<^verbatim>\<open>assoc.rs\<close>, \<^verbatim>\<open>registry.rs\<close>, \<^verbatim>\<open>limits.rs\<close>, \<^verbatim>\<open>security.rs\<close>, \<^verbatim>\<open>flow.rs\<close>): limits of the registry, pinning of
    client addresses, which targets are blocked.
  \<^item> \<open>Udp_Hop\<close> (\<^verbatim>\<open>hop.rs\<close>, \<^verbatim>\<open>udp_capability.rs\<close>): nested datagrams for chains of hops open layer by layer.
  \<^item> \<open>Udp_Upstream\<close> (\<^verbatim>\<open>upstream_socks5.rs\<close>, \<^verbatim>\<open>composed.rs\<close>): the UDP ASSOCIATE client and the opening of composed
    flows; the transcript of a successful handshake is exactly determined.
  \<^item> \<open>Udp_Metrics\<close> (\<^verbatim>\<open>metrics.rs\<close>): the counters.
  \<^item> \<open>Udp_Relay\<close>, \<open>Udp_Relay_Facts\<close> (\<^verbatim>\<open>relay.rs\<close>, \<^verbatim>\<open>flow.rs\<close>, \<^verbatim>\<open>direct.rs\<close>): the relay of an association as a step function
    over the events of its select loop. The flow table is bounded and holds exactly the leases that are taken, what is
    sent was validated and goes out over a flow opened for the key that routing selects, answers go to the pinned client only, and the registry sees only its own steps.
  \<^item> \<open>Udp_Standalone\<close>, \<open>Udp_Standalone_Facts\<close> (\<^verbatim>\<open>standalone.rs\<close>, \<^verbatim>\<open>standalone_shadowsocks.rs\<close>, \<^verbatim>\<open>flow.rs\<close>): the two listeners
    without an association, one loop over two codecs. Clients, flows and leases are bounded and exactly
    accounted for, and every answer goes to the client that asked.

  \<^bold>\<open>Not modelled.\<close> Sockets, timers (an expired timeout is an input of the model), task supervision and
  signals (the task side of \<^verbatim>\<open>eggress-runtime\<close>, the accept loops), third-party protocol stacks (HTTP/2, HTTP/3, QUIC,
  TLS, SSH, WebSocket), serialisation derives, metrics rendering, the command line, the admin server,
  language bindings and the test kit. The regular-expression engine, CIDR library, random source,
  hash functions and ciphers are parameters of the definitions that use them.
\<close>

end
